(* ===== verification/Prelude.thy ===== *)
theory Prelude
  imports Main "HOL-Library.Word" "HOL-Library.While_Combinator"
begin

unbundle bit_operations_syntax

text \<open>
  Shared vocabulary of the development: the machine integer types of alt_types.h, the C
  values the program uses as booleans and error codes, the theorem collections the component
  theories fill, and the generic lemmas on lists, loops and words that several of them use.
\<close>

section \<open>Machine integers\<close>

text \<open>alt_types.h: the unsigned types, by their width.\<close>

type_synonym u8 = "8 word"
type_synonym u16 = "16 word"
type_synonym u32 = "32 word"
type_synonym u64 = "64 word"

text \<open>A signed 32-bit C int held in a word is read by \<open>sint\<close>; INT_MAX as a word.\<close>

abbreviation INT_MAX :: u32 where
  "INT_MAX \<equiv> 0x7FFFFFFF"

section \<open>Theorem collections\<close>

named_theorems io_defs \<open>definitions of the port and pin operations\<close>
named_theorems io_simps \<open>closed forms of the port operations on an idle bus\<close>
named_theorems reg_defs \<open>register addresses and flags\<close>
named_theorems idle_intros \<open>operations that keep the bus idle\<close>
named_theorems ring_simps \<open>index arithmetic of the circular buffers\<close>
named_theorems hal_defs \<open>definitions of the HAL operations\<close>

section \<open>Casts\<close>

text \<open>Widening and then narrowing a word is one cast.\<close>

lemma ucast_up_down:
  "LENGTH('a) \<le> LENGTH('b) \<Longrightarrow>
   (ucast (ucast (x :: 'a::len word) :: 'b::len word) :: 'c::len word) = ucast x"
  by (rule bit_word_eqI) (auto simp: bit_simps bit_imp_le_length dest: bit_imp_le_length)

lemma ucast_8_32_2 [simp]: "(ucast (ucast (x :: u8) :: u32) :: 2 word) = ucast x"
  by (rule ucast_up_down) simp

lemma ucast_16_32_16 [simp]: "(ucast (ucast (x :: u16) :: u32) :: u16) = x"
  by (subst ucast_up_down) simp_all

lemma u32_bound: "unat w < 2 ^ 32" for w :: u32
  by (rule less_le_trans [OF unsigned_less]) simp

text \<open>Sums and powers that do not overflow are those of the numbers.\<close>

lemma unat_add_small: "unat a + unat b < 2 ^ 32 \<Longrightarrow> unat (a + b) = unat a + unat b" for a b :: u32
  by (rule unat_add_lem [THEN iffD1]) simp

lemma unat_pow_small: "unat b ^ k < 2 ^ LENGTH(32) \<Longrightarrow> unat (b ^ k) = unat b ^ k" for b :: u32
proof (induction k)
  case (Suc k)
  show ?case
  proof (cases "unat b = 0")
    case False
    then have "unat b ^ k \<le> unat b ^ Suc k" by simp
    then have "unat (b ^ k) = unat b ^ k" using Suc.IH le_less_trans [OF _ Suc.prems] by blast
    then show ?thesis using Suc.prems by (simp add: unat_mult_lem [THEN iffD1])
  qed (simp add: unat_eq_zero)
qed simp

section \<open>Loops\<close>

text \<open>
  A C loop is a \<open>while_option\<close>: \<open>Some\<close> of the state in which the guard fails, \<open>None\<close> when
  it never does. The rules below are the two uses made of it: an invariant of the body holds
  at the exit, and a loop whose guard fails after finitely many rounds returns.
\<close>

lemma while_option_inv:
  assumes "while_option g f s = Some t" and "P s" and "\<And>s. P s \<Longrightarrow> g s \<Longrightarrow> P (f s)"
  shows "P t"
  by (rule while_option_rule [where P = P, OF _ assms(1,2)]) (use assms(3) in blast)

lemma while_option_exit: "while_option g f s = Some t \<Longrightarrow> \<not> g t"
  by (rule while_option_stop)

lemma while_option_returns:
  assumes "\<not> g ((f ^^ k) s)"
  shows "\<exists>t. while_option g f s = Some t"
  using assms
proof (induction k arbitrary: s)
  case 0
  then show ?case by (simp add: while_option_unfold)
next
  case (Suc k)
  show ?case
  proof (cases "g s")
    case True
    have "\<not> g ((f ^^ k) (f s))" using Suc.prems by (simp add: funpow_swap1)
    from Suc.IH [OF this] True show ?thesis by (simp add: while_option_unfold [of g f s])
  next
    case False
    then show ?thesis by (simp add: while_option_unfold)
  qed
qed

lemma while_option_at:
  "\<forall>k < n. g ((f ^^ k) s) \<Longrightarrow> \<not> g ((f ^^ n) s) \<Longrightarrow> while_option g f s = Some ((f ^^ n) s)"
proof (induction n arbitrary: s)
  case 0
  then show ?case by (simp add: while_option_unfold)
next
  case (Suc n)
  have "g ((f ^^ k) (f s))" if "k < n" for k
    using Suc.prems(1) that by (metis Suc_less_eq comp_apply funpow_Suc_right)
  moreover have "\<not> g ((f ^^ n) (f s))" using Suc.prems(2) by (simp add: funpow_swap1)
  ultimately have "while_option g f (f s) = Some ((f ^^ n) (f s))" using Suc.IH by blast
  moreover have "g s" using Suc.prems(1) by (metis funpow_0 zero_less_Suc)
  ultimately show ?case by (subst while_option_unfold) (simp add: funpow_swap1)
qed

lemma while_option_zero: "\<not> g s \<Longrightarrow> while_option g f s = Some s"
  by (simp add: while_option_unfold)

lemma fold_inv: "P s \<Longrightarrow> (\<And>x s. P s \<Longrightarrow> P (f x s)) \<Longrightarrow> P (fold f xs s)"
  by (induction xs arbitrary: s) auto

end
