(* ===== verification/Chip_Regs.thy ===== *)
theory Chip_Regs
  imports Prelude
begin

text \<open>
  The constants of usb.h, cy7c67200.h, lcp_cmd.h and lcp_data.h that the application uses:
  the four ports of the host port interface (HPI), the addresses of the registers and of the
  memory locations of the EZ-OTG chip, the flags in them, and the messages and commands
  exchanged through the mailbox and the SIE1 message register. Every definition carries the
  name and the value of its macro.
\<close>

section \<open>HPI ports (usb.h)\<close>

definition HPI_DATA :: u8 where [reg_defs]: "HPI_DATA = 0"
definition HPI_MAILBOX :: u8 where [reg_defs]: "HPI_MAILBOX = 1"
definition HPI_ADDR :: u8 where [reg_defs]: "HPI_ADDR = 2"
definition HPI_STATUS :: u8 where [reg_defs]: "HPI_STATUS = 3"

section \<open>Registers and flags (cy7c67200.h)\<close>

definition HPI_STATUS_SIE1msg_FLAG :: u16 where [reg_defs]: "HPI_STATUS_SIE1msg_FLAG = 0x0010"
definition USB1_CTL_REG :: u16 where [reg_defs]: "USB1_CTL_REG = 0xC08A"
definition A_DP_STAT :: u16 where [reg_defs]: "A_DP_STAT = 0x2000"
definition A_DM_STAT :: u16 where [reg_defs]: "A_DM_STAT = 0x1000"
definition HOST1_IRQ_EN_REG :: u16 where [reg_defs]: "HOST1_IRQ_EN_REG = 0xC08C"
definition SOF_EOP_IRQ_EN :: u16 where [reg_defs]: "SOF_EOP_IRQ_EN = 0x0200"
definition A_CHG_IRQ_EN :: u16 where [reg_defs]: "A_CHG_IRQ_EN = 0x0010"
definition HOST1_STAT_REG :: u16 where [reg_defs]: "HOST1_STAT_REG = 0xC090"
definition HOST2_STAT_REG :: u16 where [reg_defs]: "HOST2_STAT_REG = 0xC0B0"
definition HPI_IRQ_ROUTING_REG :: u16 where [reg_defs]: "HPI_IRQ_ROUTING_REG = 0x0142"
definition HPI_SIE1_MSG_ADR :: u16 where [reg_defs]: "HPI_SIE1_MSG_ADR = 0x0144"
definition HPI_SIE2_MSG_ADR :: u16 where [reg_defs]: "HPI_SIE2_MSG_ADR = 0x0148"
definition SOFEOP1_TO_CPU_EN :: u16 where [reg_defs]: "SOFEOP1_TO_CPU_EN = 0x0400"
definition RESUME1_TO_HPI_EN :: u16 where [reg_defs]: "RESUME1_TO_HPI_EN = 0x0040"
definition HUSB_SIE1_INIT_INT :: u16 where [reg_defs]: "HUSB_SIE1_INIT_INT = 0x0072"
definition HUSB_RESET_INT :: u16 where [reg_defs]: "HUSB_RESET_INT = 0x0074"

section \<open>Commands and messages (lcp_cmd.h)\<close>

definition COMM_RESET :: u16 where [reg_defs]: "COMM_RESET = 0xFA50"
definition COMM_EXEC_INT :: u16 where [reg_defs]: "COMM_EXEC_INT = 0xCE01"
definition COMM_ACK :: u16 where [reg_defs]: "COMM_ACK = 0x0FED"
definition HUSB_TDListDone :: u16 where [reg_defs]: "HUSB_TDListDone = 0x1000"

section \<open>Memory locations of the common data area (lcp_data.h)\<close>

definition HUSB_SIE1_pCurrentTDPtr :: u16 where [reg_defs]: "HUSB_SIE1_pCurrentTDPtr = 0x01B0"
definition HUSB_pEOT :: u16 where [reg_defs]: "HUSB_pEOT = 0x01B4"
definition COMM_INT_NUM :: u16 where [reg_defs]: "COMM_INT_NUM = 0x01C2"

text \<open>The register buffer \<open>COMM_R0 .. COMM_R13\<close> of the EXEC_INT command, in order.\<close>

definition COMM_R :: "u16 list" where [reg_defs]:
  "COMM_R = [0x01C4, 0x01C6, 0x01C8, 0x01CA, 0x01CC, 0x01CE, 0x01D0,
             0x01D2, 0x01D4, 0x01D6, 0x01D8, 0x01DA, 0x01DC, 0x01DE]"

text \<open>The mask of the device-presence test of main.c: D+ or D- of port A pulled up.\<close>

lemma no_device_mask: "A_DP_STAT OR A_DM_STAT = 0x3000"
  by (simp add: reg_defs)

end
