(* ===== verification/Io_Handler.thy ===== *)
theory Io_Handler
  imports Chip_Regs
begin

text \<open>
  io_handler.c and io_handler.h: the Nios II side of the host port interface. The CPU reaches
  the EZ-OTG chip only through six parallel I/O ports (address, data, read, chip select,
  write, reset), each a register of the width system.h gives it; a seventh port publishes the
  keycode to the game hardware.

  The chip is not part of the repository: it is the parameter \<open>chip\<close>, two functions that
  say how the chip changes when the pins change and what it drives on the data lines. What the
  software relies on, the HPI bus protocol, is the predicate \<open>hpi_slave\<close>.
\<close>

section \<open>Ports and chip\<close>

record hpi_pins =
  pin_address :: "2 word"
  pin_data :: u16
  pin_r :: bool
  pin_cs :: bool
  pin_w :: bool
  pin_reset :: bool

record 'c chip =
  chip_pins :: "hpi_pins \<Rightarrow> hpi_pins \<Rightarrow> 'c \<Rightarrow> 'c"
  chip_drive :: "hpi_pins \<Rightarrow> 'c \<Rightarrow> u16"
  chip_time :: "nat \<Rightarrow> 'c \<Rightarrow> 'c"

text \<open>
  The board as the program sees it: the pins, the chip behind them, the keycode port, the
  text printed so far (newest first, a format string with its arguments) and the total time
  spent in \<open>usleep\<close>.
\<close>

record 'c board =
  pins :: hpi_pins
  chip_state :: 'c
  keycode_pio :: u16
  console :: "(string \<times> int list) list"
  slept :: nat

definition set_pins :: "'c chip \<Rightarrow> hpi_pins \<Rightarrow> 'c board \<Rightarrow> 'c board" where
  "set_pins C p b = b\<lparr>pins := p, chip_state := chip_pins C (pins b) p (chip_state b)\<rparr>"

text \<open>
  A store through one of the pointers of io_handler.h. The one-bit ports keep bit 0 of the
  stored byte, the address port two bits and the data port sixteen.
\<close>

definition otg_hpi_address :: "'c chip \<Rightarrow> u32 \<Rightarrow> 'c board \<Rightarrow> 'c board" where
  [io_defs]: "otg_hpi_address C v b = set_pins C ((pins b)\<lparr>pin_address := ucast v\<rparr>) b"

definition otg_hpi_data :: "'c chip \<Rightarrow> u32 \<Rightarrow> 'c board \<Rightarrow> 'c board" where
  [io_defs]: "otg_hpi_data C v b = set_pins C ((pins b)\<lparr>pin_data := ucast v\<rparr>) b"

definition otg_hpi_r :: "'c chip \<Rightarrow> u8 \<Rightarrow> 'c board \<Rightarrow> 'c board" where
  [io_defs]: "otg_hpi_r C v b = set_pins C ((pins b)\<lparr>pin_r := bit v 0\<rparr>) b"

definition otg_hpi_cs :: "'c chip \<Rightarrow> u8 \<Rightarrow> 'c board \<Rightarrow> 'c board" where
  [io_defs]: "otg_hpi_cs C v b = set_pins C ((pins b)\<lparr>pin_cs := bit v 0\<rparr>) b"

definition otg_hpi_w :: "'c chip \<Rightarrow> u8 \<Rightarrow> 'c board \<Rightarrow> 'c board" where
  [io_defs]: "otg_hpi_w C v b = set_pins C ((pins b)\<lparr>pin_w := bit v 0\<rparr>) b"

definition otg_hpi_reset :: "'c chip \<Rightarrow> u8 \<Rightarrow> 'c board \<Rightarrow> 'c board" where
  [io_defs]: "otg_hpi_reset C v b = set_pins C ((pins b)\<lparr>pin_reset := bit v 0\<rparr>) b"

text \<open>A load through \<open>otg_hpi_data\<close> samples the data lines; the upper half reads as zero.\<close>

definition otg_hpi_data_in :: "'c chip \<Rightarrow> 'c board \<Rightarrow> u32" where
  [io_defs]: "otg_hpi_data_in C b = ucast (chip_drive C (pins b) (chip_state b))"

definition keycode_base :: "u16 \<Rightarrow> 'c board \<Rightarrow> 'c board" where
  [io_defs]: "keycode_base v b = b\<lparr>keycode_pio := v\<rparr>"

text \<open>Library calls of the C sources: text output (\<open>line\<close> ends a format with a newline) and delays.\<close>

definition line :: "string \<Rightarrow> string" where
  "line t = t @ [CHR 0x0A]"

definition printf :: "string \<Rightarrow> int list \<Rightarrow> 'c board \<Rightarrow> 'c board" where
  [io_defs]: "printf fmt args b = b\<lparr>console := (fmt, args) # console b\<rparr>"

definition usleep :: "'c chip \<Rightarrow> nat \<Rightarrow> 'c board \<Rightarrow> 'c board" where
  [io_defs]: "usleep C us b =
     b\<lparr>slept := slept b + us, chip_state := chip_time C us (chip_state b)\<rparr>"

section \<open>The operations\<close>

definition IO_init :: "'c chip \<Rightarrow> 'c board \<Rightarrow> 'c board" where
  "IO_init C b =
     (let b = otg_hpi_reset C 1 b;
          b = otg_hpi_cs C 1 b;
          b = otg_hpi_r C 1 b;
          b = otg_hpi_w C 1 b;
          b = otg_hpi_address C 0 b;
          b = otg_hpi_data C 0 b;
          b = otg_hpi_cs C 0 b;
          b = otg_hpi_reset C 0 b;
          b = otg_hpi_reset C 1 b
      in otg_hpi_cs C 1 b)"

definition IO_write :: "'c chip \<Rightarrow> u8 \<Rightarrow> u16 \<Rightarrow> 'c board \<Rightarrow> 'c board" where
  "IO_write C Address Data b =
     (let b = otg_hpi_cs C 0 b;
          b = otg_hpi_r C 1 b;
          b = otg_hpi_address C (ucast Address) b;
          b = otg_hpi_data C (ucast Data) b;
          b = otg_hpi_w C 0 b;
          b = otg_hpi_w C 1 b
      in otg_hpi_cs C 1 b)"

definition IO_read :: "'c chip \<Rightarrow> u8 \<Rightarrow> 'c board \<Rightarrow> u16 \<times> 'c board" where
  "IO_read C Address b =
     (let b = otg_hpi_cs C 0 b;
          b = otg_hpi_w C 1 b;
          b = otg_hpi_address C (ucast Address) b;
          b = otg_hpi_r C 0 b;
          temp = (ucast (otg_hpi_data_in C b) :: u16);
          b = otg_hpi_r C 1 b;
          b = otg_hpi_cs C 1 b;
          b = printf (line ''%x'') [uint temp] b
      in (temp, b))"

section \<open>The bus between accesses\<close>

text \<open>Between two accesses no strobe is active: chip select, read and write are all high.\<close>

definition bus_idle :: "'c board \<Rightarrow> bool" where
  "bus_idle b \<longleftrightarrow> pin_cs (pins b) \<and> pin_r (pins b) \<and> pin_w (pins b) \<and> pin_reset (pins b)"

lemma bus_idle_printf [idle_intros]: "bus_idle b \<Longrightarrow> bus_idle (printf f xs b)"
  by (simp add: bus_idle_def printf_def)

lemma bus_idle_usleep [idle_intros]: "bus_idle b \<Longrightarrow> bus_idle (usleep C n b)"
  by (simp add: bus_idle_def usleep_def)

lemma bus_idle_keycode [idle_intros]: "bus_idle b \<Longrightarrow> bus_idle (keycode_base v b)"
  by (simp add: bus_idle_def keycode_base_def)

lemma bus_idle_IO_init [idle_intros]: "bus_idle (IO_init C b)"
  by (simp add: IO_init_def io_defs set_pins_def bus_idle_def)

lemma bus_idle_IO_write [idle_intros]: "bus_idle b \<Longrightarrow> bus_idle (IO_write C a d b)"
  by (simp add: IO_write_def io_defs set_pins_def bus_idle_def Let_def)

lemma bus_idle_IO_read [idle_intros]: "bus_idle b \<Longrightarrow> bus_idle (snd (IO_read C a b))"
  by (simp add: IO_read_def io_defs set_pins_def bus_idle_def Let_def)

section \<open>The HPI protocol\<close>

text \<open>
  What the chip's documentation promises of the bus, outside reset. A register write is
  latched when the write strobe rises with the chip selected; a read is completed when the
  read strobe rises with the chip selected; while chip select and read strobe are low the chip
  drives the value of the addressed port; no other change of the pins has an effect.
\<close>

definition write_strobe :: "hpi_pins \<Rightarrow> hpi_pins \<Rightarrow> bool" where
  "write_strobe p p' \<longleftrightarrow> \<not> pin_cs p \<and> \<not> pin_cs p' \<and> \<not> pin_w p \<and> pin_w p'"

definition read_strobe :: "hpi_pins \<Rightarrow> hpi_pins \<Rightarrow> bool" where
  "read_strobe p p' \<longleftrightarrow> \<not> pin_cs p \<and> \<not> pin_cs p' \<and> \<not> pin_r p \<and> pin_r p'"

definition hpi_slave ::
  "'c chip \<Rightarrow> (2 word \<Rightarrow> u16 \<Rightarrow> 'c \<Rightarrow> 'c) \<Rightarrow> (2 word \<Rightarrow> 'c \<Rightarrow> u16) \<Rightarrow> (2 word \<Rightarrow> 'c \<Rightarrow> 'c) \<Rightarrow> bool" where
  "hpi_slave C wr val rd \<longleftrightarrow>
     (\<forall>p p' c. pin_reset p \<longrightarrow> pin_reset p' \<longrightarrow> chip_pins C p p' c =
        (if write_strobe p p' then wr (pin_address p') (pin_data p') c
         else if read_strobe p p' then rd (pin_address p') c else c)) \<and>
     (\<forall>p c. pin_reset p \<longrightarrow> \<not> pin_cs p \<longrightarrow> \<not> pin_r p \<longrightarrow> chip_drive C p c = val (pin_address p) c)"

lemma hpi_slave_pins:
  "hpi_slave C wr val rd \<Longrightarrow> pin_reset p \<Longrightarrow> pin_reset p' \<Longrightarrow>
   chip_pins C p p' c =
     (if write_strobe p p' then wr (pin_address p') (pin_data p') c
      else if read_strobe p p' then rd (pin_address p') c else c)"
  by (simp add: hpi_slave_def)

lemma hpi_slave_drive:
  "hpi_slave C wr val rd \<Longrightarrow> pin_reset p \<Longrightarrow> \<not> pin_cs p \<Longrightarrow> \<not> pin_r p \<Longrightarrow>
   chip_drive C p c = val (pin_address p) c"
  by (simp add: hpi_slave_def)

lemmas hpi_slave_simps = hpi_slave_pins hpi_slave_drive write_strobe_def read_strobe_def

text \<open>The closed forms of the two accesses on an idle bus.\<close>

lemma IO_write_chip [io_simps]:
  assumes "hpi_slave C wr val rd" "bus_idle b"
  shows "chip_state (IO_write C a d b) = wr (ucast a) d (chip_state b)"
  using assms
  by (simp add: IO_write_def io_defs set_pins_def bus_idle_def hpi_slave_simps Let_def)

lemma IO_read_value [io_simps]:
  assumes "hpi_slave C wr val rd" "bus_idle b"
  shows "fst (IO_read C a b) = val (ucast a) (chip_state b)"
  using assms
  by (simp add: IO_read_def io_defs set_pins_def bus_idle_def hpi_slave_simps Let_def)

lemma IO_read_chip [io_simps]:
  assumes "hpi_slave C wr val rd" "bus_idle b"
  shows "chip_state (snd (IO_read C a b)) = rd (ucast a) (chip_state b)"
  using assms
  by (simp add: IO_read_def io_defs set_pins_def bus_idle_def hpi_slave_simps Let_def)

text \<open>The accesses leave the other ports and the clock alone.\<close>

lemma IO_write_frame [simp]:
  "keycode_pio (IO_write C a d b) = keycode_pio b"
  "slept (IO_write C a d b) = slept b"
  "console (IO_write C a d b) = console b"
  by (simp_all add: IO_write_def io_defs set_pins_def Let_def)

lemma IO_read_frame [simp]:
  "keycode_pio (snd (IO_read C a b)) = keycode_pio b"
  "slept (snd (IO_read C a b)) = slept b"
  by (simp_all add: IO_read_def io_defs set_pins_def Let_def)

lemma printf_frame [simp]:
  "keycode_pio (printf f xs b) = keycode_pio b" "slept (printf f xs b) = slept b"
  "chip_state (printf f xs b) = chip_state b" "pins (printf f xs b) = pins b"
  by (simp_all add: printf_def)

lemma usleep_frame [simp]:
  "keycode_pio (usleep C n b) = keycode_pio b" "slept (usleep C n b) = slept b + n"
  "chip_state (usleep C n b) = chip_time C n (chip_state b)" "pins (usleep C n b) = pins b"
  by (simp_all add: usleep_def)

section \<open>The interface to the layers above\<close>

text \<open>
  Everything above this theory reaches the board through four operations. A predicate on the
  board that these keep is kept by every sequence and loop of them, that is by all of usb.c
  and main.c except the store to the keycode port. The lemmas are proved once, here and in the
  theories above, for any such predicate.
\<close>

locale board_inv =
  fixes C :: "'c chip" and P :: "'c board \<Rightarrow> bool"
  assumes P_write: "P b \<Longrightarrow> P (IO_write C a d b)"
    and P_read: "P b \<Longrightarrow> P (snd (IO_read C a b))"
    and P_printf: "P b \<Longrightarrow> P (printf f xs b)"
    and P_usleep: "P b \<Longrightarrow> P (usleep C n b)"
begin

lemma P_read_eq: "IO_read C a b = (v, b') \<Longrightarrow> P b \<Longrightarrow> P b'"
  using P_read [of b a] by simp

lemma P_writes: "P b \<Longrightarrow> P (fold (IO_write C a) ws b)"
  by (rule fold_inv) (auto intro: P_write)

lemma P_loop:
  assumes "while_option g f x = Some (v', b')" and "P (snd x)"
    and "\<And>x. P (snd x) \<Longrightarrow> P (snd (f x))"
  shows "P b'"
  using while_option_inv [where P = "\<lambda>x. P (snd x)", OF assms(1,2)] assms(3) by simp

end

interpretation idle: board_inv C bus_idle for C
  by unfold_locales (auto intro: idle_intros)

interpretation keycode_kept: board_inv C "\<lambda>b. keycode_pio b = k" for C k
  by unfold_locales simp_all

end
