(* ===== verification/Usb.thy ===== *)
theory Usb
  imports Io_Handler
begin

text \<open>
  usb.c: access to the chip's registers and memory through the HPI ports, the software reset,
  the control requests of the enumeration (each writes a list of transfer descriptors into
  the chip's memory and hands its address to the chip) and the waiting loops.

  A waiting loop may not end, so it is a \<open>while_option\<close>; \<open>None\<close> is a call that never returns.
\<close>

section \<open>Register access\<close>

definition UsbWrite :: "'c chip \<Rightarrow> u16 \<Rightarrow> u16 \<Rightarrow> 'c board \<Rightarrow> 'c board" where
  "UsbWrite C Address Data b = IO_write C HPI_DATA Data (IO_write C HPI_ADDR Address b)"

definition UsbRead :: "'c chip \<Rightarrow> u16 \<Rightarrow> 'c board \<Rightarrow> u16 \<times> 'c board" where
  "UsbRead C Address b = IO_read C HPI_DATA (IO_write C HPI_ADDR Address b)"

definition UsbSoftReset :: "'c chip \<Rightarrow> 'c board \<Rightarrow> 'c board" where
  "UsbSoftReset C b =
     (let b = IO_write C HPI_MAILBOX COMM_RESET b;
          b = usleep C 100000 b;
          b = printf (line ''[USB INIT]:reset finished!'') [] b;
          b = usleep C 500000 b;
          b = printf (''[USB INIT]:Clear up the interrupt'' @ [CHR 0x0D, CHR 0x0A]) [] b;
          b = snd (IO_read C HPI_MAILBOX b);
          b = snd (IO_read C HPI_STATUS b);
          b = snd (UsbRead C HPI_SIE1_MSG_ADR b);
          b = UsbWrite C HPI_SIE1_MSG_ADR 0 b;
          b = snd (UsbRead C HPI_SIE2_MSG_ADR b);
          b = UsbWrite C HPI_SIE2_MSG_ADR 0 b;
          b = UsbWrite C HOST1_STAT_REG 0xFFFF b
      in UsbWrite C HOST2_STAT_REG 0xFFFF b)"

section \<open>Control requests\<close>

text \<open>
  Consecutive \<open>IO_write(HPI_DATA, w)\<close> calls store consecutive words, since the chip advances
  its address after each access. Each request function is the list of the words it writes from
  0x0500 on, followed by the write of the list's address to the current TD pointer.
\<close>

definition IO_writes :: "'c chip \<Rightarrow> u16 list \<Rightarrow> 'c board \<Rightarrow> 'c board" where
  "IO_writes C ws b = fold (IO_write C HPI_DATA) ws b"

definition td_request :: "'c chip \<Rightarrow> u16 list \<Rightarrow> 'c board \<Rightarrow> 'c board" where
  "td_request C ws b =
     UsbWrite C HUSB_SIE1_pCurrentTDPtr 0x0500 (IO_writes C ws (IO_write C HPI_ADDR 0x0500 b))"

definition UsbSetAddress :: "'c chip \<Rightarrow> 'c board \<Rightarrow> 'c board" where
  "UsbSetAddress C b = td_request C
     [0x050C, 0x0008, 0x00D0, 0x0001, 0x0013, 0x0514,
      0x0500, 0x0002, 0x0000, 0x0000,
      0x0000, 0x0000, 0x0090, 0x0041, 0x0013, 0x0000] b"

definition UsbGetDeviceDesc1 :: "'c chip \<Rightarrow> 'c board \<Rightarrow> 'c board" where
  "UsbGetDeviceDesc1 C b = td_request C
     [0x050C, 0x0008, 0x02D0, 0x0001, 0x0013, 0x0514,
      0x0680, 0x0100, 0x0000, 0x0008,
      0x052C, 0x0008, 0x0290, 0x0041, 0x0013, 0x0520,
      0x0000, 0x0000, 0x0210, 0x0041, 0x0013, 0x0000] b"

definition UsbGetDeviceDesc2 :: "'c chip \<Rightarrow> 'c board \<Rightarrow> 'c board" where
  "UsbGetDeviceDesc2 C b = td_request C
     [0x050C, 0x0008, 0x02D0, 0x0001, 0x0013, 0x0514,
      0x0680, 0x0100, 0x0000, 0x0012,
      0x0544, 0x0008, 0x0290, 0x0041, 0x0013, 0x0520,
      0x054c, 0x0008, 0x0290, 0x0001, 0x0013, 0x052c,
      0x0554, 0x0002, 0x0290, 0x0041, 0x0013, 0x0538,
      0x0000, 0x0000, 0x0210, 0x0041, 0x0013, 0x0000] b"

definition UsbGetConfigDesc1 :: "'c chip \<Rightarrow> 'c board \<Rightarrow> 'c board" where
  "UsbGetConfigDesc1 C b = td_request C
     [0x050C, 0x0008, 0x02D0, 0x0001, 0x0013, 0x0514,
      0x0680, 0x0200, 0x0000, 0x0009,
      0x0544, 0x0008, 0x0290, 0x0041, 0x0013, 0x0520,
      0x054c, 0x0001, 0x0290, 0x0001, 0x0013, 0x052c,
      0x0000, 0x0000, 0x0210, 0x0041, 0x0013, 0x0000] b"

definition UsbGetConfigDesc2 :: "'c chip \<Rightarrow> 'c board \<Rightarrow> 'c board" where
  "UsbGetConfigDesc2 C b = td_request C
     [0x050C, 0x0008, 0x02D0, 0x0001, 0x0013, 0x0514,
      0x0680, 0x0200, 0x0000, 0x00FF,
      0x055c, 0x0008, 0x0290, 0x0041, 0x0013, 0x0520,
      0x0564, 0x0008, 0x0290, 0x0001, 0x0013, 0x052c,
      0x056c, 0x0008, 0x0290, 0x0041, 0x0013, 0x0538,
      0x0574, 0x0008, 0x0290, 0x0001, 0x0013, 0x0544,
      0x057c, 0x0002, 0x0290, 0x0041, 0x0013, 0x0550,
      0x0000, 0x0000, 0x0210, 0x0041, 0x0013, 0x0000] b"

definition UsbSetConfig :: "'c chip \<Rightarrow> 'c board \<Rightarrow> 'c board" where
  "UsbSetConfig C b = td_request C
     [0x050C, 0x0008, 0x02D0, 0x0001, 0x0013, 0x0514,
      0x0900, 0x0001, 0x0000, 0x0000,
      0x0000, 0x0000, 0x0290, 0x0041, 0x0013, 0x0000] b"

definition UsbClassRequest :: "'c chip \<Rightarrow> 'c board \<Rightarrow> 'c board" where
  "UsbClassRequest C b = td_request C
     [0x050C, 0x0008, 0x02D0, 0x0001, 0x0013, 0x0514,
      0x0A21, 0x0000, 0x0000, 0x0000,
      0x0000, 0x0000, 0x0290, 0x0041, 0x0013, 0x0000] b"

definition UsbGetHidDesc :: "'c chip \<Rightarrow> 'c board \<Rightarrow> 'c board" where
  "UsbGetHidDesc C b = td_request C
     [0x050C, 0x0008, 0x02D0, 0x0001, 0x0013, 0x0514,
      0x0681, 0x2100, 0x0000, 0x007B,
      0x0544, 0x0008, 0x0290, 0x0041, 0x0013, 0x0520,
      0x0000, 0x0000, 0x0210, 0x0041, 0x0013, 0x0000] b"

definition UsbGetReportDesc :: "'c chip \<Rightarrow> 'c board \<Rightarrow> 'c board" where
  "UsbGetReportDesc C b = td_request C
     [0x050C, 0x0008, 0x02D0, 0x0001, 0x0013, 0x0514,
      0x0681, 0x2200, 0x0000, 0x007B,
      0x0580, 0x0008, 0x0290, 0x0041, 0x0013, 0x0520,
      0x0588, 0x0008, 0x0290, 0x0001, 0x0013, 0x052c,
      0x0590, 0x0008, 0x0290, 0x0041, 0x0013, 0x0538,
      0x0598, 0x0008, 0x0290, 0x0001, 0x0013, 0x0544,
      0x05a0, 0x0008, 0x0290, 0x0041, 0x0013, 0x0550,
      0x05a8, 0x0008, 0x0290, 0x0001, 0x0013, 0x055c,
      0x05b0, 0x0008, 0x0290, 0x0041, 0x0013, 0x0568,
      0x05b8, 0x0003, 0x0290, 0x0001, 0x0013, 0x0574,
      0x0000, 0x0000, 0x0210, 0x0041, 0x0013, 0x0000] b"

section \<open>Waiting loops\<close>

text \<open>\<open>while (!(IO_read(port) & flag)) body\<close>: the loop state is the last value read.\<close>

definition poll_port ::
  "'c chip \<Rightarrow> u8 \<Rightarrow> u16 \<Rightarrow> ('c board \<Rightarrow> 'c board) \<Rightarrow> 'c board \<Rightarrow> (u16 \<times> 'c board) option" where
  "poll_port C port flag body b =
     while_option (\<lambda>(v, b). v AND flag = 0) (\<lambda>(v, b). IO_read C port (body b)) (IO_read C port b)"

text \<open>One round of the wait: read the SIE1 message register and clear it.\<close>

definition read_sie1_msg :: "'c chip \<Rightarrow> 'c board \<Rightarrow> u16 \<times> 'c board" where
  "read_sie1_msg C b =
     (let (usb_ctl_val, b) = UsbRead C HPI_SIE1_MSG_ADR b
      in (usb_ctl_val, UsbWrite C HPI_SIE1_MSG_ADR 0 b))"

definition UsbWaitTDListDone :: "'c chip \<Rightarrow> 'c board \<Rightarrow> (u16 \<times> 'c board) option" where
  "UsbWaitTDListDone C b =
     while_option (\<lambda>(usb_ctl_val, b). usb_ctl_val \<noteq> HUSB_TDListDone)
       (\<lambda>(usb_ctl_val, b).
          read_sie1_msg C
            (if usb_ctl_val = 0x0000 then b
             else printf (line ''[SIE1 MSG]:SIE1 msg reg is %x'') [uint usb_ctl_val] b))
       (read_sie1_msg C b)"

definition UsbGetRetryCnt :: "'c chip \<Rightarrow> 'c board \<Rightarrow> (u16 \<times> 'c board) option" where
  "UsbGetRetryCnt C b =
     (let b = snd (IO_read C HPI_STATUS b);
          (msg, b) = UsbRead C HPI_SIE1_MSG_ADR b;
          waited =
            (if msg = HUSB_TDListDone
             then map_option snd
                    (poll_port C HPI_STATUS HPI_STATUS_SIE1msg_FLAG (\<lambda>b. b)
                       (UsbWrite C HPI_SIE1_MSG_ADR 0 b))
             else Some b)
      in map_option (\<lambda>b. IO_read C HPI_DATA (IO_write C HPI_ADDR 0x0508 b)) waited)"

text \<open>\<open>UsbPrintMem\<close> prints the 101 words from 0x0500 on, one auto-incrementing read each.\<close>

definition UsbPrintMem :: "'c chip \<Rightarrow> 'c board \<Rightarrow> 'c board" where
  "UsbPrintMem C b =
     fold (\<lambda>k b. let (code, b) = IO_read C HPI_DATA b
                 in printf (CHR 0x0A # line ''addr %x = %04x'')
                      [0x0500 + 2 * int k, uint code] b)
       [0..<101] (IO_write C HPI_ADDR 0x0500 b)"

section \<open>What every operation of the board keeps\<close>

lemmas request_defs =
  UsbSetAddress_def UsbGetDeviceDesc1_def UsbGetDeviceDesc2_def UsbGetConfigDesc1_def
  UsbGetConfigDesc2_def UsbSetConfig_def UsbClassRequest_def UsbGetHidDesc_def
  UsbGetReportDesc_def

context board_inv
begin

lemma P_UsbWrite: "P b \<Longrightarrow> P (UsbWrite C a d b)"
  by (simp add: UsbWrite_def P_write)

lemma P_UsbRead: "P b \<Longrightarrow> P (snd (UsbRead C a b))"
  by (simp add: UsbRead_def P_write P_read)

lemmas P_ops = P_write P_read P_printf P_usleep P_UsbWrite P_UsbRead

lemma P_UsbRead_eq: "UsbRead C a b = (v, b') \<Longrightarrow> P b \<Longrightarrow> P b'"
  using P_UsbRead [of b a] by simp

lemma P_UsbSoftReset: "P b \<Longrightarrow> P (UsbSoftReset C b)"
  by (simp add: UsbSoftReset_def Let_def P_ops)

lemma P_IO_writes: "P b \<Longrightarrow> P (IO_writes C ws b)"
  unfolding IO_writes_def by (rule P_writes)

lemma P_td_request: "P b \<Longrightarrow> P (td_request C ws b)"
  by (simp add: td_request_def P_IO_writes P_ops)

lemma P_read_sie1_msg: "P b \<Longrightarrow> P (snd (read_sie1_msg C b))"
  by (auto simp: read_sie1_msg_def split: prod.splits intro: P_UsbWrite dest: P_UsbRead_eq)

lemma P_poll_port:
  assumes "poll_port C p m f b = Some (v', b')" "P b" "\<And>b. P b \<Longrightarrow> P (f b)"
  shows "P b'"
  using P_loop [OF assms(1) [unfolded poll_port_def]] P_read assms(2,3)
  by (simp add: split_beta)

lemma P_UsbWaitTDListDone:
  assumes "UsbWaitTDListDone C b = Some (v', b')" "P b"
  shows "P b'"
  using P_loop [OF assms(1) [unfolded UsbWaitTDListDone_def]] P_read_sie1_msg P_printf assms(2)
  by (simp add: split_beta)

lemma P_UsbGetRetryCnt:
  assumes "UsbGetRetryCnt C b = Some (v', b')" "P b"
  shows "P b'"
proof -
  obtain m b2 where r: "UsbRead C HPI_SIE1_MSG_ADR (snd (IO_read C HPI_STATUS b)) = (m, b2)"
    by fastforce
  have P2: "P b2" using P_UsbRead_eq [OF r] P_read assms(2) by simp
  obtain b3 where "P b3" and e: "IO_read C HPI_DATA (IO_write C HPI_ADDR 0x0508 b3) = (v', b')"
    using assms(1) r P2 P_UsbWrite P_poll_port [where f = "\<lambda>b. b"]
    by (fastforce simp: UsbGetRetryCnt_def Let_def split: if_splits)
  then show ?thesis using P_read_eq [OF e] P_write by simp
qed

lemma P_UsbPrintMem: "P b \<Longrightarrow> P (UsbPrintMem C b)"
  unfolding UsbPrintMem_def
  by (rule fold_inv) (auto simp: split_beta intro: P_ops)

end

lemma UsbWrite_idle [idle_intros]: "bus_idle b \<Longrightarrow> bus_idle (UsbWrite C a d b)"
  by (rule idle.P_UsbWrite)

lemma UsbRead_idle [idle_intros]: "bus_idle b \<Longrightarrow> bus_idle (snd (UsbRead C a b))"
  by (rule idle.P_UsbRead)

lemma IO_writes_idle [idle_intros]: "bus_idle b \<Longrightarrow> bus_idle (IO_writes C ws b)"
  by (rule idle.P_IO_writes)

lemma td_request_idle [idle_intros]: "bus_idle b \<Longrightarrow> bus_idle (td_request C ws b)"
  by (rule idle.P_td_request)

lemma read_sie1_msg_idle [idle_intros]: "bus_idle b \<Longrightarrow> bus_idle (snd (read_sie1_msg C b))"
  by (rule idle.P_read_sie1_msg)

end
