(* ===== verification/Td_List.thy ===== *)
theory Td_List
  imports Usb
begin

text \<open>
  The contract of the request functions of usb.c. The chip executes a list of transfer
  descriptors (TDs) in its memory: six words each, linked by address and ended by a link of 0.
  A control transfer is a SETUP descriptor whose data is the eight-byte setup packet, data
  descriptors whose toggle alternates from DATA1 on, and a status descriptor in the opposite
  direction. The abstract requests below say which standard USB request each function makes;
  the theorems show that the words it writes are that request's descriptor list, loaded where
  the chip is told to find it.
\<close>

section \<open>The chip's memory behind the data port\<close>

text \<open>
  What the chip's documentation promises of the HPI data and address ports while the chip is
  not executing a descriptor list (\<open>quiet\<close>): the address port sets the memory pointer, each
  data access reads or writes the word at the pointer and advances it by two. The promise is
  for the user memory of cy7c67200.h (0x04A4 to 0x3FFF) only: writes elsewhere reach control
  registers and the mailbox area.
\<close>

record 'c otg_view =
  port_wr :: "2 word \<Rightarrow> u16 \<Rightarrow> 'c \<Rightarrow> 'c"
  port_val :: "2 word \<Rightarrow> 'c \<Rightarrow> u16"
  port_rd :: "2 word \<Rightarrow> 'c \<Rightarrow> 'c"
  mem_ptr :: "'c \<Rightarrow> u16"
  mem :: "'c \<Rightarrow> u16 \<Rightarrow> u16"
  quiet :: "'c \<Rightarrow> bool"

definition user_ram :: "u16 \<Rightarrow> bool" where
  "user_ram a \<longleftrightarrow> 0x04A4 \<le> a \<and> a \<le> 0x3FFF"

definition otg_memory :: "'c otg_view \<Rightarrow> bool" where
  "otg_memory V \<longleftrightarrow>
     (\<forall>c a. quiet V c \<longrightarrow>
        mem_ptr V (port_wr V 2 a c) = a \<and> mem V (port_wr V 2 a c) = mem V c \<and>
        quiet V (port_wr V 2 a c)) \<and>
     (\<forall>c d. quiet V c \<longrightarrow> user_ram (mem_ptr V c) \<longrightarrow>
        mem_ptr V (port_wr V 0 d c) = mem_ptr V c + 2 \<and>
        mem V (port_wr V 0 d c) = (mem V c)(mem_ptr V c := d) \<and> quiet V (port_wr V 0 d c)) \<and>
     (\<forall>c. quiet V c \<longrightarrow> user_ram (mem_ptr V c) \<longrightarrow>
        port_val V 0 c = mem V c (mem_ptr V c) \<and>
        mem_ptr V (port_rd V 0 c) = mem_ptr V c + 2 \<and>
        mem V (port_rd V 0 c) = mem V c \<and> quiet V (port_rd V 0 c))"

definition otg_chip :: "'c chip \<Rightarrow> 'c otg_view \<Rightarrow> bool" where
  "otg_chip C V \<longleftrightarrow>
     hpi_slave C (port_wr V) (port_val V) (port_rd V) \<and> otg_memory V"

lemma otg_chip_slave: "otg_chip C V \<Longrightarrow> hpi_slave C (port_wr V) (port_val V) (port_rd V)"
  by (simp add: otg_chip_def)

lemma otg_address:
  fixes a :: u16
  assumes "otg_chip C V" "bus_idle b" "quiet V (chip_state b)"
  defines "c \<equiv> chip_state (IO_write C HPI_ADDR a b)"
  shows "mem_ptr V c = a" "mem V c = mem V (chip_state b)" "quiet V c"
proof -
  have "c = port_wr V 2 a (chip_state b)"
    using IO_write_chip [OF otg_chip_slave [OF assms(1)] assms(2)]
    by (simp add: c_def HPI_ADDR_def)
  then show "mem_ptr V c = a" "mem V c = mem V (chip_state b)" "quiet V c"
    using assms by (auto simp: otg_chip_def otg_memory_def)
qed

lemma otg_store:
  fixes d :: u16
  assumes "otg_chip C V" "bus_idle b" "quiet V (chip_state b)" "user_ram (mem_ptr V (chip_state b))"
  defines "c \<equiv> chip_state (IO_write C HPI_DATA d b)"
  shows "mem_ptr V c = mem_ptr V (chip_state b) + 2"
    "mem V c = (mem V (chip_state b))(mem_ptr V (chip_state b) := d)" "quiet V c"
proof -
  have "c = port_wr V 0 d (chip_state b)"
    using IO_write_chip [OF otg_chip_slave [OF assms(1)] assms(2)]
    by (simp add: c_def HPI_DATA_def)
  then show "mem_ptr V c = mem_ptr V (chip_state b) + 2"
    "mem V c = (mem V (chip_state b))(mem_ptr V (chip_state b) := d)" "quiet V c"
    using assms by (auto simp: otg_chip_def otg_memory_def)
qed

lemma otg_load:
  assumes "otg_chip C V" "bus_idle b" "quiet V (chip_state b)" "user_ram (mem_ptr V (chip_state b))"
  defines "c \<equiv> chip_state (snd (IO_read C HPI_DATA b))"
  shows "fst (IO_read C HPI_DATA b) = mem V (chip_state b) (mem_ptr V (chip_state b))"
    "mem_ptr V c = mem_ptr V (chip_state b) + 2" "mem V c = mem V (chip_state b)" "quiet V c"
proof -
  note H = otg_chip_slave [OF assms(1)]
  have "c = port_rd V 0 (chip_state b)"
    and v: "fst (IO_read C HPI_DATA b) = port_val V 0 (chip_state b)"
    using IO_read_chip [OF H assms(2)] IO_read_value [OF H assms(2)]
    by (simp_all add: c_def HPI_DATA_def)
  then show "fst (IO_read C HPI_DATA b) = mem V (chip_state b) (mem_ptr V (chip_state b))"
    "mem_ptr V c = mem_ptr V (chip_state b) + 2" "mem V c = mem V (chip_state b)" "quiet V c"
    using assms by (auto simp: otg_chip_def otg_memory_def)
qed

text \<open>
  Storing \<open>n\<close> words from the pointer on: the words are found at \<open>a, a+2, ..\<close> and the rest of
  the memory is as before. Addresses are counted without wrap-around inside user memory.
\<close>

definition mem_words :: "(u16 \<Rightarrow> u16) \<Rightarrow> u16 \<Rightarrow> nat \<Rightarrow> u16 list" where
  "mem_words m a n = map (\<lambda>i. m (a + 2 * of_nat i)) [0..<n]"

lemma length_mem_words [simp]: "length (mem_words m a n) = n"
  by (simp add: mem_words_def)

lemma user_ram_step:
  assumes "user_ram a" "unat a + 2 * n \<le> 0x4000" "i < n"
  shows "user_ram (a + 2 * of_nat i)" "unat (a + 2 * of_nat i) = unat a + 2 * i"
proof -
  have i: "unat (2 * of_nat i :: u16) = 2 * i"
    using assms by (simp add: unat_mult_lem [THEN iffD1] unat_of_nat unat_word_ariths)
  then show u: "unat (a + 2 * of_nat i) = unat a + 2 * i"
    using assms by (simp add: unat_word_ariths)
  show "user_ram (a + 2 * of_nat i)"
    using assms u by (auto simp: user_ram_def word_le_nat_alt)
qed


lemma mem_words_snoc:
  "mem_words m a (Suc n) = mem_words m a n @ [m (a + 2 * of_nat n)]"
  by (simp add: mem_words_def)

lemma mem_words_update:
  assumes "user_ram a" "unat a + 2 * Suc n \<le> 0x4000"
  shows "mem_words (m(a + 2 * of_nat n := w)) a n = mem_words m a n"
proof -
  have "a + 2 * of_nat i \<noteq> a + 2 * of_nat n" if "i < n" for i
  proof
    assume "a + 2 * of_nat i = a + 2 * of_nat n"
    then have "unat (a + 2 * of_nat i) = unat (a + 2 * of_nat n)" by simp
    then show False
      using user_ram_step(2) [OF assms, of i] user_ram_step(2) [OF assms, of n] that by simp
  qed
  then show ?thesis by (simp add: mem_words_def)
qed

lemma IO_writes_snoc: "IO_writes C (ws @ [w]) b = IO_write C HPI_DATA w (IO_writes C ws b)"
  by (simp add: IO_writes_def)

lemma IO_writes_load:
  assumes "otg_chip C V" "bus_idle b" "quiet V (chip_state b)"
    and "mem_ptr V (chip_state b) = a" "user_ram a" "unat a + 2 * length ws \<le> 0x4000"
  shows "quiet V (chip_state (IO_writes C ws b)) \<and>
    mem_ptr V (chip_state (IO_writes C ws b)) = a + 2 * of_nat (length ws) \<and>
    mem_words (mem V (chip_state (IO_writes C ws b))) a (length ws) = ws"
  using assms(6)
proof (induction ws rule: rev_induct)
  case Nil
  then show ?case using assms by (simp add: IO_writes_def mem_words_def)
next
  case (snoc w ws)
  let ?b = "IO_writes C ws b"
  have IH: "quiet V (chip_state ?b)" "mem_ptr V (chip_state ?b) = a + 2 * of_nat (length ws)"
    "mem_words (mem V (chip_state ?b)) a (length ws) = ws"
    using snoc by simp_all
  have len: "unat a + 2 * Suc (length ws) \<le> 0x4000" using snoc.prems by simp
  have ram: "user_ram (mem_ptr V (chip_state ?b))"
    using user_ram_step(1) [OF assms(5) len, of "length ws"] IH(2) by simp
  note st = otg_store [OF assms(1) IO_writes_idle [OF assms(2)] IH(1) ram, of w,
      folded IO_writes_snoc]
  have m: "mem V (chip_state (IO_writes C (ws @ [w]) b)) =
      (mem V (chip_state ?b))(a + 2 * of_nat (length ws) := w)"
    using st(2) IH(2) by simp
  have "mem_words (mem V (chip_state (IO_writes C (ws @ [w]) b))) a (length ws) = ws"
    unfolding m mem_words_update [OF assms(5) len] by (rule IH(3))
  moreover have "mem V (chip_state (IO_writes C (ws @ [w]) b)) (a + 2 * of_nat (length ws)) = w"
    by (simp add: m)
  ultimately show ?case
    using st(1,3) IH(2) by (simp add: mem_words_snoc)
qed

text \<open>A request leaves its words at 0x0500, then tells the chip where they are.\<close>

lemma td_request_loads:
  assumes "otg_chip C V" "bus_idle b" "quiet V (chip_state b)" "length ws \<le> 0x1000"
  shows "\<exists>c. quiet V c \<and> mem_words (mem V c) 0x0500 (length ws) = ws \<and>
    chip_state (td_request C ws b) = port_wr V 0 0x0500 (port_wr V 2 HUSB_SIE1_pCurrentTDPtr c)"
proof -
  let ?b0 = "IO_write C HPI_ADDR 0x0500 b"
  let ?b1 = "IO_writes C ws ?b0"
  let ?b2 = "IO_write C HPI_ADDR HUSB_SIE1_pCurrentTDPtr ?b1"
  note H = otg_chip_slave [OF assms(1)]
  have idle: "bus_idle ?b0" "bus_idle ?b1" "bus_idle ?b2"
    using assms(2) by (simp_all add: idle_intros)
  have ld: "quiet V (chip_state ?b1)"
    "mem_words (mem V (chip_state ?b1)) 0x0500 (length ws) = ws"
    using IO_writes_load [OF assms(1) idle(1), of "0x0500" ws] assms(4)
      otg_address [OF assms(1-3), of "0x0500"]
    by (simp_all add: user_ram_def)
  have "chip_state (td_request C ws b) =
      port_wr V 0 0x0500 (port_wr V 2 HUSB_SIE1_pCurrentTDPtr (chip_state ?b1))"
    using IO_write_chip [OF H idle(3), of HPI_DATA "0x0500"]
      IO_write_chip [OF H idle(2), of HPI_ADDR HUSB_SIE1_pCurrentTDPtr]
    by (simp add: td_request_def UsbWrite_def HPI_DATA_def HPI_ADDR_def)
  with ld show ?thesis by blast
qed

section \<open>Transfer descriptors\<close>

text \<open>
  The six words of a descriptor: data address, length (ten bits) and port, endpoint, packet
  identifier and device address, control (armed, data toggle, other bits) and status, the word
  with the active flag and the retry count, next descriptor. No bit of the first five is left out.
\<close>

record td =
  td_base :: u16
  td_length :: u16
  td_port :: u16
  td_pid :: u16
  td_endpoint :: u16
  td_device :: u16
  td_armed :: bool
  td_data1 :: bool
  td_flags :: u16
  td_retry :: u16

definition td_at :: "(u16 \<Rightarrow> u16) \<Rightarrow> u16 \<Rightarrow> td" where
  "td_at m a = \<lparr>td_base = m a, td_length = m (a + 2) AND 0x03FF,
     td_port = drop_bit 10 (m (a + 2)), td_pid = drop_bit 4 (m (a + 4)) AND 0xF, td_endpoint = m (a + 4) AND 0xF,
     td_device = drop_bit 8 (m (a + 4)), td_armed = bit (m (a + 6)) 0,
     td_data1 = bit (m (a + 6)) 6, td_flags = m (a + 6) AND 0xFFBE, td_retry = m (a + 8)\<rparr>"

text \<open>Following the links: \<open>None\<close> when the list is longer than the fuel.\<close>

fun td_chain :: "nat \<Rightarrow> (u16 \<Rightarrow> u16) \<Rightarrow> u16 \<Rightarrow> td list option" where
  "td_chain 0 m a = None"
| "td_chain (Suc n) m a =
     (if m (a + 10) = 0 then Some [td_at m a]
      else map_option (\<lambda>ts. td_at m a # ts) (td_chain n m (m (a + 10))))"

lemma td_chain_numeral [simp]:
  "td_chain (numeral k) m a =
     (if m (a + 10) = 0 then Some [td_at m a]
      else map_option (\<lambda>ts. td_at m a # ts) (td_chain (pred_numeral k) m (m (a + 10))))"
  by (simp add: numeral_eq_Suc)

section \<open>The USB requests\<close>

definition PID_SETUP :: u16 where "PID_SETUP = 0xD"
definition PID_IN :: u16 where "PID_IN = 0x9"
definition PID_OUT :: u16 where "PID_OUT = 0x1"

text \<open>
  A control request of the USB standard to one device, with the buffer its answer goes to and
  how many bytes are fetched.
\<close>

record control_request =
  rq_device :: u16
  rq_type :: u16
  rq_request :: u16
  rq_value :: u16
  rq_index :: u16
  rq_length :: u16
  rq_buffer :: u16
  rq_fetch :: nat

definition setup_words :: "control_request \<Rightarrow> u16 list" where
  "setup_words r =
     [rq_type r OR push_bit 8 (rq_request r), rq_value r, rq_index r, rq_length r]"

text \<open>
  A descriptor as the program arms it: the port of SIE1 (0), no control bit but armed and the
  toggle, no status yet, and in the fifth word the active flag (0x0010) and three retries.
\<close>

definition armed_td :: "u16 \<Rightarrow> u16 \<Rightarrow> u16 \<Rightarrow> u16 \<Rightarrow> u16 \<Rightarrow> bool \<Rightarrow> td" where
  "armed_td buf n pid ep dev d1 = \<lparr>td_base = buf, td_length = n, td_port = 0, td_pid = pid,
     td_endpoint = ep, td_device = dev, td_armed = True, td_data1 = d1, td_flags = 0, td_retry = 0x0013\<rparr>"

text \<open>Packets of at most eight bytes, toggling from DATA1 on.\<close>

function in_tds :: "u16 \<Rightarrow> u16 \<Rightarrow> nat \<Rightarrow> bool \<Rightarrow> td list" where
  "in_tds dev buf n d1 =
     (if n = 0 then []
      else armed_td buf (of_nat (min 8 n)) PID_IN 0 dev d1
           # in_tds dev (buf + 8) (n - 8) (\<not> d1))"
  by pat_completeness auto
termination
  by (relation "measure (\<lambda>(dev, buf, n, d1). n)") auto

declare in_tds.simps [simp del]

definition control_tds :: "control_request \<Rightarrow> td list" where
  "control_tds r =
     [armed_td 0x050C 8 PID_SETUP 0 (rq_device r) False] @
     in_tds (rq_device r) (rq_buffer r) (rq_fetch r) True @
     [armed_td 0 0 (if rq_fetch r = 0 then PID_IN else PID_OUT) 0 (rq_device r) True]"

text \<open>The nine requests of the enumeration, in the order main.c makes them.\<close>

datatype usb_req =
    Set_Address | Device_Desc1 | Device_Desc2 | Config_Desc1 | Config_Desc2
  | Set_Config | Class_Request | Hid_Desc | Report_Desc

fun request_fn :: "usb_req \<Rightarrow> 'c chip \<Rightarrow> 'c board \<Rightarrow> 'c board" where
  "request_fn Set_Address = UsbSetAddress"
| "request_fn Device_Desc1 = UsbGetDeviceDesc1"
| "request_fn Device_Desc2 = UsbGetDeviceDesc2"
| "request_fn Config_Desc1 = UsbGetConfigDesc1"
| "request_fn Config_Desc2 = UsbGetConfigDesc2"
| "request_fn Set_Config = UsbSetConfig"
| "request_fn Class_Request = UsbClassRequest"
| "request_fn Hid_Desc = UsbGetHidDesc"
| "request_fn Report_Desc = UsbGetReportDesc"

text \<open>
  The standard request each stands for: SET_ADDRESS 2 to the unaddressed device; then, to
  device 2, GET_DESCRIPTOR of the device (8, then 18 bytes) and of the configuration (9, then
  up to 255 of which 34 are fetched), SET_CONFIGURATION 1, the HID class's SET_IDLE, and
  GET_DESCRIPTOR of the interface's HID and report descriptors.
\<close>

fun request_spec :: "usb_req \<Rightarrow> control_request" where
  "request_spec Set_Address =
     \<lparr>rq_device = 0, rq_type = 0x00, rq_request = 5, rq_value = 2, rq_index = 0, rq_length = 0,
      rq_buffer = 0, rq_fetch = 0\<rparr>"
| "request_spec Device_Desc1 =
     \<lparr>rq_device = 2, rq_type = 0x80, rq_request = 6, rq_value = 0x0100, rq_index = 0,
      rq_length = 8, rq_buffer = 0x052C, rq_fetch = 8\<rparr>"
| "request_spec Device_Desc2 =
     \<lparr>rq_device = 2, rq_type = 0x80, rq_request = 6, rq_value = 0x0100, rq_index = 0,
      rq_length = 18, rq_buffer = 0x0544, rq_fetch = 18\<rparr>"
| "request_spec Config_Desc1 =
     \<lparr>rq_device = 2, rq_type = 0x80, rq_request = 6, rq_value = 0x0200, rq_index = 0,
      rq_length = 9, rq_buffer = 0x0544, rq_fetch = 9\<rparr>"
| "request_spec Config_Desc2 =
     \<lparr>rq_device = 2, rq_type = 0x80, rq_request = 6, rq_value = 0x0200, rq_index = 0,
      rq_length = 255, rq_buffer = 0x055C, rq_fetch = 34\<rparr>"
| "request_spec Set_Config =
     \<lparr>rq_device = 2, rq_type = 0x00, rq_request = 9, rq_value = 1, rq_index = 0, rq_length = 0,
      rq_buffer = 0, rq_fetch = 0\<rparr>"
| "request_spec Class_Request =
     \<lparr>rq_device = 2, rq_type = 0x21, rq_request = 0x0A, rq_value = 0, rq_index = 0,
      rq_length = 0, rq_buffer = 0, rq_fetch = 0\<rparr>"
| "request_spec Hid_Desc =
     \<lparr>rq_device = 2, rq_type = 0x81, rq_request = 6, rq_value = 0x2100, rq_index = 0,
      rq_length = 123, rq_buffer = 0x0544, rq_fetch = 8\<rparr>"
| "request_spec Report_Desc =
     \<lparr>rq_device = 2, rq_type = 0x81, rq_request = 6, rq_value = 0x2200, rq_index = 0,
      rq_length = 123, rq_buffer = 0x0580, rq_fetch = 59\<rparr>"

lemma request_fn_idle [idle_intros]: "bus_idle b \<Longrightarrow> bus_idle (request_fn r C b)"
  by (cases r) (simp_all add: request_defs idle_intros)

text \<open>\<open>loads_request\<close>: the chip was started on the request's descriptor list.\<close>

definition loads_request :: "'c otg_view \<Rightarrow> control_request \<Rightarrow> 'c \<Rightarrow> bool" where
  "loads_request V r c' \<longleftrightarrow>
     (\<exists>c. quiet V c \<and> c' = port_wr V 0 0x0500 (port_wr V 2 HUSB_SIE1_pCurrentTDPtr c) \<and>
        td_chain 10 (mem V c) 0x0500 = Some (control_tds r) \<and>
        mem_words (mem V c) 0x050C 4 = setup_words r)"

lemma td_request_loads_request:
  assumes "otg_chip C V" "bus_idle b" "quiet V (chip_state b)" "length ws \<le> 0x1000"
    and "\<And>m. mem_words m 0x0500 (length ws) = ws \<Longrightarrow>
      td_chain 10 m 0x0500 = Some (control_tds r) \<and> mem_words m 0x050C 4 = setup_words r"
  shows "loads_request V r (chip_state (td_request C ws b))"
  using td_request_loads [OF assms(1-4)] assms(5) unfolding loads_request_def by blast

lemmas td_eval =
  mem_words_def td_at_def armed_td_def control_tds_def setup_words_def in_tds.simps upt_rec
  PID_SETUP_def PID_IN_def PID_OUT_def


lemma request_loads_tds:
  assumes "otg_chip C V" "bus_idle b" "quiet V (chip_state b)"
  shows "loads_request V (request_spec r) (chip_state (request_fn r C b))"
  by (cases r; simp only: request_fn.simps request_defs;
      rule td_request_loads_request [OF assms]; simp add: td_eval)

lemma otg_roundtrip:
  assumes "otg_chip C V" "bus_idle b" "quiet V (chip_state b)" "user_ram a"
  shows "fst (UsbRead C a (UsbWrite C a d b)) = d"
proof -
  let ?b1 = "IO_write C HPI_ADDR a b"
  let ?b2 = "UsbWrite C a d b"
  note i1 = bus_idle_IO_write [OF assms(2), of C HPI_ADDR a]
  note a1 = otg_address [OF assms(1-3), of a]
  have m: "mem V (chip_state ?b2) a = d" "quiet V (chip_state ?b2)"
    using otg_store [OF assms(1) i1 a1(3), of d] a1(1) assms(4) by (simp_all add: UsbWrite_def)
  note i2 = UsbWrite_idle [OF assms(2), of C a d]
  note a2 = otg_address [OF assms(1) i2 m(2), of a]
  show ?thesis
    using otg_load(1) [OF assms(1) bus_idle_IO_write [OF i2] a2(3)] a2(1,2) m(1) assms(4)
    by (simp add: UsbRead_def)
qed

section \<open>A chip that meets the contract\<close>

text \<open>
  The contract can be met: a memory with a pointer behind the HPI protocol. It is used only to
  show that the hypotheses of the theorems hold somewhere.
\<close>

fun ram_wr :: "2 word \<Rightarrow> u16 \<Rightarrow> u16 \<times> (u16 \<Rightarrow> u16) \<Rightarrow> u16 \<times> (u16 \<Rightarrow> u16)" where
  "ram_wr a d (p, m) = (if a = 2 then (d, m) else if a = 0 then (p + 2, m(p := d)) else (p, m))"

fun ram_val :: "2 word \<Rightarrow> u16 \<times> (u16 \<Rightarrow> u16) \<Rightarrow> u16" where
  "ram_val a (p, m) = (if a = 0 then m p else 0)"

fun ram_rd :: "2 word \<Rightarrow> u16 \<times> (u16 \<Rightarrow> u16) \<Rightarrow> u16 \<times> (u16 \<Rightarrow> u16)" where
  "ram_rd a (p, m) = (if a = 0 then (p + 2, m) else (p, m))"

definition ram_chip :: "(u16 \<times> (u16 \<Rightarrow> u16)) chip" where
  "ram_chip = \<lparr>
     chip_pins = (\<lambda>p p' c. if write_strobe p p' then ram_wr (pin_address p') (pin_data p') c
                  else if read_strobe p p' then ram_rd (pin_address p') c else c),
     chip_drive = (\<lambda>p c. ram_val (pin_address p) c),
     chip_time = (\<lambda>n c. c)\<rparr>"

definition ram_view :: "(u16 \<times> (u16 \<Rightarrow> u16)) otg_view" where
  "ram_view = \<lparr>port_wr = ram_wr, port_val = ram_val, port_rd = ram_rd,
     mem_ptr = fst, mem = snd, quiet = (\<lambda>c. True)\<rparr>"

definition ram_board :: "(u16 \<times> (u16 \<Rightarrow> u16)) board" where
  "ram_board = \<lparr>pins = \<lparr>pin_address = 0, pin_data = 0, pin_r = True, pin_cs = True,
       pin_w = True, pin_reset = True\<rparr>,
     chip_state = (0, \<lambda>a. 0), keycode_pio = 0, console = [], slept = 0\<rparr>"

lemma ram_slave: "hpi_slave ram_chip ram_wr ram_val ram_rd"
  by (simp add: hpi_slave_def ram_chip_def)

lemma ram_otg: "otg_chip ram_chip ram_view"
  by (simp add: otg_chip_def ram_view_def ram_slave otg_memory_def split_paired_all)

lemma ram_idle: "bus_idle ram_board"
  by (simp add: ram_board_def bus_idle_def)

lemma ram_quiet: "quiet ram_view c"
  by (simp add: ram_view_def)

end
