(* ===== verification/Main_App.thy ===== *)
theory Main_App
  imports Td_List
begin

text \<open>
  main.c: the keyboard application. \<open>main\<close> runs a sequence of blocks separated by the
  label USB_HOT_PLUG and the ends of its steps; every failure goes back to USB_HOT_PLUG. The
  model has a label per block, the local variables as a record, and one definition per
  block, which returns the label of the next block. A block with a loop that never ends
  returns \<open>None\<close>.
\<close>

section \<open>State\<close>

record 'c app =
  brd :: "'c board"
  intStat :: u16
  usb_ctl_val :: u16
  ctl_reg :: u16
  no_device :: u16
  fs_device :: u16
  keycode :: u32
  toggle :: u8
  data_size :: u8
  code :: u16

datatype label = Usb_Hot_Plug | Enum usb_req | Device_Info | Key_Loop

section \<open>Step 1 and 2: reset and initialise the host controller\<close>

definition step_1a :: "'c chip \<Rightarrow> 'c app \<Rightarrow> 'c app" where
  "step_1a C s =
     (let b = UsbSoftReset C (brd s);
          b = UsbWrite C HPI_SIE1_MSG_ADR 0 b;
          b = UsbWrite C HOST1_STAT_REG 0xFFFF b;
          b = UsbWrite C HUSB_pEOT 600 b;
          v = SOFEOP1_TO_CPU_EN OR RESUME1_TO_HPI_EN;
          b = UsbWrite C HPI_IRQ_ROUTING_REG v b;
          i = A_CHG_IRQ_EN OR SOF_EOP_IRQ_EN;
          b = UsbWrite C HOST1_IRQ_EN_REG i b
      in s\<lparr>brd := b, usb_ctl_val := v, intStat := i\<rparr>)"

text \<open>The mailbox reply: anything but the acknowledgement is reported (read again) and fails.\<close>

definition check_ack :: "'c chip \<Rightarrow> 'c board \<Rightarrow> bool \<times> 'c board" where
  "check_ack C b =
     (let (m, b) = IO_read C HPI_MAILBOX b
      in if m \<noteq> COMM_ACK
         then let (m', b) = IO_read C HPI_MAILBOX b
              in (False, printf (line ''[ERROR]:routine mailbox data is %x'') [uint m'] b)
         else (True, b))"

definition step_1b :: "'c chip \<Rightarrow> 'c board \<Rightarrow> (bool \<times> 'c board) option" where
  "step_1b C b =
     (let b = fold (\<lambda>r. UsbWrite C r 0x0000) COMM_R b;
          b = UsbWrite C COMM_INT_NUM HUSB_SIE1_INIT_INT b;
          b = IO_write C HPI_MAILBOX COMM_EXEC_INT b
      in map_option (\<lambda>(v, b). check_ack C b) (poll_port C HPI_STATUS 0xFFFF (\<lambda>b. b) b))"

definition step_2 :: "'c chip \<Rightarrow> 'c board \<Rightarrow> bool \<times> 'c board" where
  "step_2 C b =
     (let b = printf ''STEP 1 Complete'' [] b;
          b = UsbWrite C COMM_INT_NUM HUSB_RESET_INT b;
          b = UsbWrite C (hd COMM_R) 0x003c b;
          b = fold (\<lambda>r. UsbWrite C r 0x0000) (tl COMM_R) b;
          b = IO_write C HPI_MAILBOX COMM_EXEC_INT b
      in check_ack C b)"

section \<open>Device detection\<close>

text \<open>\<open>for (n times) { usleep(5*1000); usb_ctl_val = UsbRead(ctl_reg); if (.. & no_device) break; }\<close>\<close>

fun recheck :: "nat \<Rightarrow> 'c chip \<Rightarrow> 'c app \<Rightarrow> 'c app" where
  "recheck 0 C s = s"
| "recheck (Suc n) C s =
     (let (v, b) = UsbRead C (ctl_reg s) (usleep C 5000 (brd s));
          s = s\<lparr>brd := b, usb_ctl_val := v\<rparr>
      in if v AND no_device s \<noteq> 0 then s else recheck n C s)"

abbreviation present :: "'c app \<Rightarrow> bool" where
  "present s \<equiv> usb_ctl_val s AND no_device s \<noteq> 0"

definition set_brd :: "('c board \<Rightarrow> 'c board) \<Rightarrow> 'c app \<Rightarrow> 'c app" where
  "set_brd f s = s\<lparr>brd := f (brd s)\<rparr>"

definition read_ctl :: "'c chip \<Rightarrow> 'c app \<Rightarrow> 'c app" where
  "read_ctl C s =
     (let (v, b) = UsbRead C (ctl_reg s) (brd s) in s\<lparr>brd := b, usb_ctl_val := v\<rparr>)"

text \<open>The wait for a device ends only in the jump to USB_HOT_PLUG, before the delay.\<close>

definition wait_insert :: "'c chip \<Rightarrow> 'c app \<Rightarrow> 'c app option" where
  "wait_insert C s =
     while_option (\<lambda>s. \<not> present s) (\<lambda>s. read_ctl C (set_brd (usleep C 2000) s)) (read_ctl C s)"

definition detect :: "'c chip \<Rightarrow> 'c app \<Rightarrow> (label \<times> 'c app) option" where
  "detect C s =
     (let s = s\<lparr>ctl_reg := USB1_CTL_REG, no_device := A_DP_STAT OR A_DM_STAT,
                fs_device := A_DP_STAT\<rparr>;
          s = read_ctl C s
      in if \<not> present s
         then let s = recheck 5 C s
              in if \<not> present s
                 then let s = set_brd (printf (CHR 0x0A # line ''[INFO]: no device is present in SIE1!'') []) s;
                          s = set_brd (printf (line ''[INFO]: please insert a USB keyboard in SIE1!'') []) s
                      in map_option (\<lambda>s. (Usb_Hot_Plug, s)) (wait_insert C s)
                 else Some (Enum Set_Address, s)
         else if usb_ctl_val s AND fs_device s \<noteq> 0
         then Some (Enum Set_Address, set_brd (printf (line ''[INFO]: full speed device'') []) s)
         else Some (Enum Set_Address, set_brd (printf (line ''[INFO]: low speed device'') []) s))"

text \<open>The block from USB_HOT_PLUG to step 3.\<close>

definition main_hot_plug :: "'c chip \<Rightarrow> 'c app \<Rightarrow> (label \<times> 'c app) option" where
  "main_hot_plug C s =
     (let s = step_1a C s
      in case step_1b C (brd s) of
           None \<Rightarrow> None
         | Some (ack, b) \<Rightarrow>
             if \<not> ack then Some (Usb_Hot_Plug, s\<lparr>brd := b\<rparr>)
             else let (ack, b) = step_2 C b
                  in if \<not> ack then Some (Usb_Hot_Plug, s\<lparr>brd := b\<rparr>)
                     else detect C (s\<lparr>brd := b\<rparr>))"

section \<open>Steps 3 to 9: the enumeration\<close>

text \<open>
  Each request of the enumeration is made by the same code: send it, repeat it every 10 ms
  until the chip raises a message, wait for the descriptor list to be done, print the
  descriptor's status word (0x0506) and control word (0x0508), and start over unless the
  control word is 0x03. The blocks differ in the request, an extra delay, and the texts.
\<close>

definition issue_until_msg ::
  "'c chip \<Rightarrow> ('c board \<Rightarrow> 'c board) \<Rightarrow> 'c board \<Rightarrow> (u16 \<times> 'c board) option" where
  "issue_until_msg C request b =
     poll_port C HPI_STATUS HPI_STATUS_SIE1msg_FLAG (\<lambda>b. usleep C 10000 (request b)) b"

definition read_word :: "'c chip \<Rightarrow> u16 \<Rightarrow> 'c board \<Rightarrow> u16 \<times> 'c board" where
  "read_word C a b = IO_read C HPI_DATA (IO_write C HPI_ADDR a b)"

definition read_td_status ::
  "'c chip \<Rightarrow> string \<Rightarrow> string \<Rightarrow> 'c board \<Rightarrow> u16 \<times> 'c board" where
  "read_td_status C status_text control_text b =
     (let (st, b) = read_word C 0x0506 b;
          b = printf status_text [uint st] b;
          (ctl, b) = read_word C 0x0508 b
      in (ctl, printf control_text [uint ctl] b))"

definition enum_transfer ::
  "'c chip \<Rightarrow> ('c chip \<Rightarrow> 'c board \<Rightarrow> 'c board) \<Rightarrow> nat \<Rightarrow> string \<Rightarrow> string \<Rightarrow> string option \<Rightarrow>
   string \<Rightarrow> label \<Rightarrow> 'c app \<Rightarrow> (label \<times> 'c app) option" where
  "enum_transfer C request delay status_text control_text fatal done_text next s =
     (let b = request C (brd s);
          b = (if delay = 0 then b else usleep C delay b)
      in case issue_until_msg C (request C) b of
           None \<Rightarrow> None
         | Some (_, b) \<Rightarrow>
             (case UsbWaitTDListDone C b of
                None \<Rightarrow> None
              | Some (_, b) \<Rightarrow>
                  let (ctl, b) = read_td_status C status_text control_text b
                  in if ctl \<noteq> 0x03
                     then map_option
                            (\<lambda>(ctl, b). (Usb_Hot_Plug,
                               s\<lparr>usb_ctl_val := ctl,
                                 brd := (case fatal of None \<Rightarrow> b | Some t \<Rightarrow> printf t [] b)\<rparr>))
                            (UsbGetRetryCnt C b)
                     else Some (next, s\<lparr>usb_ctl_val := ctl, brd := printf done_text [] b\<rparr>)))"

abbreviation restarting :: "string option" where
  "restarting \<equiv> Some (line ''Encountered Fatal Error, restarting'')"

definition main_set_address :: "'c chip \<Rightarrow> 'c app \<Rightarrow> (label \<times> 'c app) option" where
  "main_set_address C s = enum_transfer C UsbSetAddress 0
     (line ''[ENUM PROCESS]:step 3 TD Status Byte is %x'')
     (line ''[ENUM PROCESS]:step 3 TD Control Byte is %x'') None
     (line ''------------[ENUM PROCESS]:set address done!---------------'') (Enum Device_Desc1) s"

definition main_device_desc1 :: "'c chip \<Rightarrow> 'c app \<Rightarrow> (label \<times> 'c app) option" where
  "main_device_desc1 C s = enum_transfer C UsbGetDeviceDesc1 0
     (line ''[ENUM PROCESS]:step 4 TD Status Byte is %x'')
     (line ''[ENUM PROCESS]:step 4 TD Control Byte is %x'') restarting
     (line ''---------------[ENUM PROCESS]:get device descriptor-1 done!-----------------'')
     (Enum Device_Desc2) s"

definition main_device_desc2 :: "'c chip \<Rightarrow> 'c app \<Rightarrow> (label \<times> 'c app) option" where
  "main_device_desc2 C s = enum_transfer C UsbGetDeviceDesc2 0
     (line ''[ENUM PROCESS]:step 4 TD Status Byte is %x'')
     (line ''[ENUM PROCESS]:step 4 TD Control Byte is %x'') restarting
     (line ''------------[ENUM PROCESS]:get device descriptor-2 done!--------------'')
     (Enum Config_Desc1) s"

definition main_config_desc1 :: "'c chip \<Rightarrow> 'c app \<Rightarrow> (label \<times> 'c app) option" where
  "main_config_desc1 C s = enum_transfer C UsbGetConfigDesc1 0
     (line ''[ENUM PROCESS]:step 5 TD Status Byte is %x'')
     (line ''[ENUM PROCESS]:step 5 TD Control Byte is %x'') restarting
     (line ''------------[ENUM PROCESS]:get configuration descriptor-1 pass------------'')
     (Enum Config_Desc2) s"

definition main_config_desc2 :: "'c chip \<Rightarrow> 'c app \<Rightarrow> (label \<times> 'c app) option" where
  "main_config_desc2 C s = enum_transfer C UsbGetConfigDesc2 100000
     (line ''[ENUM PROCESS]:step 6 TD Status Byte is %x'')
     (line ''[ENUM PROCESS]:step 6 TD Control Byte is %x'') restarting
     (line ''-----------[ENUM PROCESS]:get configuration descriptor-2 done!------------'')
     Device_Info s"

definition main_set_config :: "'c chip \<Rightarrow> 'c app \<Rightarrow> (label \<times> 'c app) option" where
  "main_set_config C s = enum_transfer C UsbSetConfig 0
     (line ''[ENUM PROCESS]:step 7 TD Status Byte is %x'')
     (line ''[ENUM PROCESS]:step 7 TD Control Byte is %x'') restarting
     (line ''------------[ENUM PROCESS]:set configuration done!-------------------'')
     (Enum Class_Request) s"

definition main_class_request :: "'c chip \<Rightarrow> 'c app \<Rightarrow> (label \<times> 'c app) option" where
  "main_class_request C s = enum_transfer C UsbClassRequest 0
     (line ''[ENUM PROCESS]:step 8 TD Status Byte is %x'')
     (line ''[ENUM PROCESS]:step 8 TD Control Byte is %x'') restarting
     (line ''------------[ENUM PROCESS]:class request out done!-------------------'')
     (Enum Hid_Desc) s"

definition main_hid_desc :: "'c chip \<Rightarrow> 'c app \<Rightarrow> (label \<times> 'c app) option" where
  "main_hid_desc C s = enum_transfer C UsbGetHidDesc 0
     (line ''[ENUM PROCESS]:step 8 TD Status Byte is %x'')
     (line ''[ENUM PROCESS]:step 8 TD Control Byte is %x'') restarting
     (line ''------------[ENUM PROCESS]:get descriptor (class 0x21) done!-------------------'')
     (Enum Report_Desc) s"

definition main_report_desc :: "'c chip \<Rightarrow> 'c app \<Rightarrow> (label \<times> 'c app) option" where
  "main_report_desc C s = map_option
     (\<lambda>(l, s). (l, if l = Key_Loop then set_brd (usleep C 10000) s else s))
     (enum_transfer C UsbGetReportDesc 0
       (line ''[ENUM PROCESS]: step 9 TD Status Byte is %x'')
       (line ''[ENUM PROCESS]: step 9 TD Control Byte is %x'') restarting
       (line ''---------------[ENUM PROCESS]:get descriptor (class 0x22) done!----------------'')
       Key_Loop s)"

text \<open>Between steps 6 and 7: the interface's protocol, and the length of the key reports.\<close>

definition main_device_info :: "'c chip \<Rightarrow> 'c app \<Rightarrow> label \<times> 'c app" where
  "main_device_info C s =
     (let (c, b) = read_word C 0x056c (brd s);
          c = c AND 0x003;
          b = printf (CHR 0x0A # line ''code = %x'') [uint c] b;
          b = (if c = 0x01
               then printf (CHR 0x0A # line ''[INFO]:check TD rec data7 '' @ line (line ''[INFO]:Keyboard Detected!!!'')) [] b
               else printf (CHR 0x0A # line (line ''[INFO]:Keyboard Not Detected!!! '')) [] b);
          b = IO_write C HPI_ADDR 0x0576 b;
          b = IO_write C HPI_DATA 0x073F b;
          b = IO_write C HPI_DATA 0x8105 b;
          b = IO_write C HPI_DATA 0x0003 b;
          b = IO_write C HPI_DATA 0x0008 b;
          b = IO_write C HPI_DATA 0xAC0A b;
          b = UsbWrite C HUSB_SIE1_pCurrentTDPtr 0x0576 b;
          (d, b) = read_word C 0x057c b;
          d = (ucast (d AND 0x0ff) :: u8);
          b = printf (line ''[ENUM PROCESS]:data packet size is %d'') [uint d] b
      in (Enum Set_Config, s\<lparr>brd := b, code := c, data_size := d\<rparr>))"

section \<open>The keyboard loop\<close>

text \<open>
  The interrupt transfer of the keyboard: one IN descriptor of endpoint 1, its data toggle
  taken from the parity of \<open>toggle\<close>, its length from \<open>data_size\<close>.
\<close>

definition key_words :: "u8 \<Rightarrow> u8 \<Rightarrow> u16 list" where
  "key_words tog dsize =
     [0x051c, 0x000f AND ucast dsize, 0x0291, (if odd (unat tog) then 0x0001 else 0x0041),
      0x0013, 0x0000]"

definition key_request :: "u8 \<Rightarrow> u8 \<Rightarrow> 'c chip \<Rightarrow> 'c board \<Rightarrow> 'c board" where
  "key_request tog dsize C b = td_request C (key_words tog dsize) b"

definition key_poll :: "'c chip \<Rightarrow> 'c app \<Rightarrow> 'c app option" where
  "key_poll C s =
     (let s = s\<lparr>toggle := toggle s + 1\<rparr>;
          request = key_request (toggle s) (data_size s) C
      in case issue_until_msg C request (request (brd s)) of
           None \<Rightarrow> None
         | Some (_, b) \<Rightarrow>
             (case UsbWaitTDListDone C b of
                None \<Rightarrow> None
              | Some (v, b) \<Rightarrow>
                  let (k, b) = UsbRead C 0x051e b;
                      b = printf (CHR 0x0A # line ''first two keycode values are %04x'') [uint k] b;
                      b = keycode_base (ucast ((ucast k :: u32) AND 0xffff)) b
                  in Some (s\<lparr>brd := usleep C 200 b, usb_ctl_val := v, keycode := ucast k\<rparr>)))"

text \<open>
  The wait for the keyboard to come back: three reads, 5 ms apart, per round; the jump to
  USB_HOT_PLUG is taken when the last of them shows a device.
\<close>

definition three_reads :: "'c chip \<Rightarrow> 'c app \<Rightarrow> 'c app" where
  "three_reads C s =
     (let s = set_brd (usleep C 5000) (read_ctl C s);
          s = set_brd (usleep C 5000) (read_ctl C s)
      in set_brd (usleep C 5000) (read_ctl C s))"

definition wait_reinsert :: "'c chip \<Rightarrow> 'c app \<Rightarrow> 'c app option" where
  "wait_reinsert C s =
     while_option (\<lambda>s. \<not> present s)
       (\<lambda>s. three_reads C (set_brd (usleep C 200) s)) (three_reads C s)"

definition removal_check :: "'c chip \<Rightarrow> 'c app \<Rightarrow> (label \<times> 'c app) option" where
  "removal_check C s =
     (let s = read_ctl C s;
          s = (if \<not> present s
               then let s = recheck 7 C s
                    in if \<not> present s
                       then set_brd (printf (line ''[INFO]: please insert again!!! '') [])
                              (set_brd (printf (CHR 0x0A # line ''[INFO]: the keyboard has been removed!!! '') []) s)
                       else s
               else s)
      in if \<not> present s then map_option (\<lambda>s. (Usb_Hot_Plug, s)) (wait_reinsert C s)
         else Some (Key_Loop, s))"

definition main_key_loop :: "'c chip \<Rightarrow> 'c app \<Rightarrow> (label \<times> 'c app) option" where
  "main_key_loop C s =
     (case key_poll C s of None \<Rightarrow> None | Some s \<Rightarrow> removal_check C s)"

section \<open>The whole program\<close>

fun main_step :: "'c chip \<Rightarrow> label \<times> 'c app \<Rightarrow> (label \<times> 'c app) option" where
  "main_step C (Usb_Hot_Plug, s) = main_hot_plug C s"
| "main_step C (Enum Set_Address, s) = main_set_address C s"
| "main_step C (Enum Device_Desc1, s) = main_device_desc1 C s"
| "main_step C (Enum Device_Desc2, s) = main_device_desc2 C s"
| "main_step C (Enum Config_Desc1, s) = main_config_desc1 C s"
| "main_step C (Enum Config_Desc2, s) = main_config_desc2 C s"
| "main_step C (Device_Info, s) = Some (main_device_info C s)"
| "main_step C (Enum Set_Config, s) = main_set_config C s"
| "main_step C (Enum Class_Request, s) = main_class_request C s"
| "main_step C (Enum Hid_Desc, s) = main_hid_desc C s"
| "main_step C (Enum Report_Desc, s) = main_report_desc C s"
| "main_step C (Key_Loop, s) = main_key_loop C s"

fun main_run :: "'c chip \<Rightarrow> nat \<Rightarrow> label \<times> 'c app \<Rightarrow> (label \<times> 'c app) option" where
  "main_run C 0 x = Some x"
| "main_run C (Suc n) x = (case main_step C x of None \<Rightarrow> None | Some y \<Rightarrow> main_run C n y)"

text \<open>
  The entry of \<open>main\<close>. Its local variables without initialiser hold what the stack held
  (\<open>s\<close>); the static and initialised ones are zero.
\<close>

definition main_entry :: "'c chip \<Rightarrow> 'c app \<Rightarrow> label \<times> 'c app" where
  "main_entry C s =
     (Usb_Hot_Plug,
      s\<lparr>brd := printf (line (line ''USB keyboard setup...'')) [] (IO_init C (brd s)),
        ctl_reg := 0, no_device := 0, fs_device := 0, keycode := 0, toggle := 0\<rparr>)"

inductive main_reach :: "'c chip \<Rightarrow> 'c app \<Rightarrow> label \<times> 'c app \<Rightarrow> bool" for C s0 where
  entry: "main_reach C s0 (main_entry C s0)"
| step: "main_reach C s0 x \<Longrightarrow> main_step C x = Some y \<Longrightarrow> main_reach C s0 y"

end
