(* ===== verification/Main_Inv.thy ===== *)
theory Main_Inv
  imports Main_App
begin

text \<open>
  What holds in every reachable state of the application, and the order in which its blocks
  run. The first part lifts the board invariants of \<open>board_inv\<close> through every block; the second
  is about the labels; the third about the local variables.
\<close>

section \<open>Board invariants through the blocks\<close>

lemma brd_set_brd [simp]: "brd (set_brd f s) = f (brd s)"
  by (simp add: set_brd_def)

context board_inv
begin

lemma P_check_ack: "P b \<Longrightarrow> P (snd (check_ack C b))"
  by (auto simp: check_ack_def split_beta Let_def intro: P_ops)

lemma P_check_ack_eq: "check_ack C b = (a, b') \<Longrightarrow> P b \<Longrightarrow> P b'"
  using P_check_ack [of b] by simp

lemma P_step_1a: "P (brd s) \<Longrightarrow> P (brd (step_1a C s))"
  by (simp add: step_1a_def Let_def P_UsbSoftReset P_ops)

lemma P_comm_regs: "P b \<Longrightarrow> P (fold (\<lambda>r. UsbWrite C r v) rs b)"
  by (rule fold_inv) (auto intro: P_ops)

lemma P_step_1b: "step_1b C b = Some (a, b') \<Longrightarrow> P b \<Longrightarrow> P b'"
  by (auto simp: step_1b_def Let_def P_ops P_comm_regs dest!: P_check_ack_eq P_poll_port)

lemma P_step_2: "step_2 C b = (a, b') \<Longrightarrow> P b \<Longrightarrow> P b'"
  unfolding step_2_def Let_def
  by (erule P_check_ack_eq) (intro P_ops P_comm_regs)

lemma P_read_ctl: "P (brd s) \<Longrightarrow> P (brd (read_ctl C s))"
  using P_UsbRead by (simp add: read_ctl_def split_beta)

lemma P_recheck: "P (brd s) \<Longrightarrow> P (brd (recheck n C s))"
proof (induction n arbitrary: s)
  case 0
  then show ?case by simp
next
  case (Suc n)
  then show ?case using P_UsbRead P_usleep by (simp add: split_beta Let_def)
qed

lemma P_app_loop:
  assumes "while_option g f s = Some s'" "P (brd s)" "\<And>s. P (brd s) \<Longrightarrow> P (brd (f s))"
  shows "P (brd s')"
  using while_option_inv [where P = "\<lambda>s. P (brd s)", OF assms(1,2)] assms(3) by simp

lemma P_wait_insert: "wait_insert C s = Some s' \<Longrightarrow> P (brd s) \<Longrightarrow> P (brd s')"
  unfolding wait_insert_def by (erule P_app_loop) (simp_all add: P_read_ctl P_usleep)

lemma P_detect: "detect C s = Some (l, s') \<Longrightarrow> P (brd s) \<Longrightarrow> P (brd s')"
  by (auto simp: detect_def Let_def split: if_splits
      intro!: P_printf P_recheck P_read_ctl elim!: P_wait_insert)

lemma P_main_hot_plug: "main_hot_plug C s = Some (l, s') \<Longrightarrow> P (brd s) \<Longrightarrow> P (brd s')"
  by (auto simp: main_hot_plug_def Let_def split: option.splits if_splits prod.splits
      dest!: P_step_1b P_step_2 P_detect intro: P_step_1a)

lemma P_issue:
  assumes "issue_until_msg C req b = Some (v, b')" "P b" "\<And>b. P b \<Longrightarrow> P (req b)"
  shows "P b'"
  by (rule P_poll_port [OF assms(1) [unfolded issue_until_msg_def] assms(2)])
    (auto intro: P_usleep assms(3))

lemma P_read_word: "P b \<Longrightarrow> P (snd (read_word C a b))"
  by (simp add: read_word_def P_ops)

lemma P_read_word_eq: "read_word C a b = (v, b') \<Longrightarrow> P b \<Longrightarrow> P b'"
  using P_read_word [of b a] by simp

lemma P_read_td_status: "read_td_status C t u b = (v, b') \<Longrightarrow> P b \<Longrightarrow> P b'"
  by (auto simp: read_td_status_def split: prod.splits intro!: P_printf dest!: P_read_word_eq)

lemma P_enum_transfer:
  assumes "enum_transfer C req d t u fatal done next s = Some (l, s')" "P (brd s)"
    and req: "\<And>b. P b \<Longrightarrow> P (req C b)"
  shows "P (brd s')"
proof -
  let ?b1 = "if d = 0 then req C (brd s) else usleep C d (req C (brd s))"
  obtain v2 b2 v3 b3 where i: "issue_until_msg C (req C) ?b1 = Some (v2, b2)"
    and w: "UsbWaitTDListDone C b2 = Some (v3, b3)"
    using assms(1) by (auto simp: enum_transfer_def Let_def split: option.splits)
  obtain ctl b4 where r: "read_td_status C t u b3 = (ctl, b4)" by fastforce
  have "P ?b1" using req [OF assms(2)] P_usleep by simp
  then have "P b4"
    using P_issue [OF i] P_UsbWaitTDListDone [OF w] P_read_td_status [OF r] req by blast
  then show ?thesis
    using assms(1) i w r P_printf P_UsbGetRetryCnt
    by (auto simp: enum_transfer_def Let_def split: if_splits option.splits)
qed

lemma P_requests:
  "P b \<Longrightarrow> P (UsbSetAddress C b)" "P b \<Longrightarrow> P (UsbGetDeviceDesc1 C b)"
  "P b \<Longrightarrow> P (UsbGetDeviceDesc2 C b)" "P b \<Longrightarrow> P (UsbGetConfigDesc1 C b)"
  "P b \<Longrightarrow> P (UsbGetConfigDesc2 C b)" "P b \<Longrightarrow> P (UsbSetConfig C b)"
  "P b \<Longrightarrow> P (UsbClassRequest C b)" "P b \<Longrightarrow> P (UsbGetHidDesc C b)"
  "P b \<Longrightarrow> P (UsbGetReportDesc C b)" "P b \<Longrightarrow> P (key_request tg sz C b)"
  by (simp_all add: request_defs key_request_def P_td_request)

lemma P_main_device_info: "P (brd s) \<Longrightarrow> P (brd (snd (main_device_info C s)))"
  by (auto simp: main_device_info_def Let_def split_beta intro!: P_ops P_read_word)

end

lemmas enum_defs =
  main_set_address_def main_device_desc1_def main_device_desc2_def main_config_desc1_def
  main_config_desc2_def main_set_config_def main_class_request_def main_hid_desc_def
  main_report_desc_def

context board_inv
begin

lemma P_main_enum:
  assumes "main_step C (Enum r, s) = Some (l, s')" "P (brd s)"
  shows "P (brd s')"
  using assms
  by (cases r) (auto simp: enum_defs split: if_splits dest!: P_enum_transfer
      intro: P_requests P_usleep)

lemma P_main_step:
  assumes "main_step C (l, s) = Some (l', s')" "P (brd s)" "l \<noteq> Key_Loop"
  shows "P (brd s')"
  using assms
proof (cases l)
  case Usb_Hot_Plug
  then show ?thesis using assms P_main_hot_plug by simp
next
  case (Enum r)
  then show ?thesis using assms P_main_enum by simp
next
  case Device_Info
  then show ?thesis using assms P_main_device_info [of s] by simp
qed simp

lemma P_three_reads: "P (brd s) \<Longrightarrow> P (brd (three_reads C s))"
  by (simp add: three_reads_def Let_def P_read_ctl P_usleep)

lemma P_wait_reinsert: "wait_reinsert C s = Some s' \<Longrightarrow> P (brd s) \<Longrightarrow> P (brd s')"
  unfolding wait_reinsert_def by (erule P_app_loop) (simp_all add: P_three_reads P_usleep)

lemma P_removal_check: "removal_check C s = Some (l, s') \<Longrightarrow> P (brd s) \<Longrightarrow> P (brd s')"
  by (auto simp: removal_check_def Let_def split: if_splits
      intro!: P_printf P_recheck P_read_ctl elim!: P_wait_reinsert)

lemma P_main_key_loop:
  assumes "main_key_loop C s = Some (l, s')" "P (brd s)"
    and "\<And>v b. P b \<Longrightarrow> P (keycode_base v b)"
  shows "P (brd s')"
  using assms
  by (auto simp: main_key_loop_def key_poll_def Let_def assms(3) P_usleep P_printf P_requests
      split: option.splits prod.splits dest!: P_UsbRead_eq P_UsbWaitTDListDone P_issue
      elim!: P_removal_check)

end

lemma main_step_idle:
  assumes "main_step C (l, s) = Some (l', s')" "bus_idle (brd s)"
  shows "bus_idle (brd s')"
  using assms idle.P_main_step idle.P_main_key_loop bus_idle_keycode
  by (cases "l = Key_Loop") fastforce+

text \<open>Only the keyboard loop publishes a keycode.\<close>

lemma main_step_keycode_kept:
  assumes "main_step C (l, s) = Some (l', s')" "l \<noteq> Key_Loop"
  shows "keycode_pio (brd s') = keycode_pio (brd s)"
  using keycode_kept.P_main_step [OF assms(1) refl assms(2)] .

end
