(* ===== verification/Usb_Props.thy ===== *)
theory Usb_Props
  imports Td_List
begin

text \<open>
  The properties of io_handler.c and usb.c: the bus cycles, the access to the chip's memory,
  the descriptor lists of the requests and where they lie in memory, the waiting loop and the
  memory dump. The hypotheses are the contracts \<open>hpi_slave\<close> and \<open>otg_chip\<close> of the chip, which
  \<open>ram_chip\<close> meets.
\<close>

section \<open>Bus cycles\<close>

text \<open>On an idle bus, IO_write is one write cycle of the host port: the chip latches the
  data word at the addressed port exactly once, nothing else reaches it, the keycode port and
  the console are untouched, and the bus is idle again.\<close>
theorem IO_write_cycle:
  assumes "hpi_slave C wr val rd" "bus_idle b"
  shows "chip_state (IO_write C a d b) = wr (ucast a) d (chip_state b) \<and>
    bus_idle (IO_write C a d b) \<and> keycode_pio (IO_write C a d b) = keycode_pio b \<and>
    console (IO_write C a d b) = console b"
  using assms by (simp add: io_simps idle_intros)

theorem IO_write_cycle_witness:
  "chip_state (IO_write ram_chip 2 0x1234 ram_board) = (0x1234, \<lambda>a. 0)"
  using IO_write_cycle [OF ram_slave ram_idle, of 2 "0x1234"]
  by (simp add: ram_board_def)

text \<open>On an idle bus, IO_read is one read cycle: it returns what the chip holds at the
  addressed port when the read strobe falls, the chip sees one completed read, the value is
  printed, and the bus is idle again.\<close>
theorem IO_read_cycle:
  assumes "hpi_slave C wr val rd" "bus_idle b" "IO_read C a b = (v, b')"
  shows "v = val (ucast a) (chip_state b) \<and> chip_state b' = rd (ucast a) (chip_state b) \<and>
    bus_idle b' \<and> console b' = (line ''%x'', [uint v]) # console b"
proof -
  have "console b' = (line ''%x'', [uint v]) # console b"
    using assms(3) by (auto simp: IO_read_def io_defs set_pins_def Let_def)
  then show ?thesis
    using assms IO_read_value [OF assms(1,2), of a] IO_read_chip [OF assms(1,2), of a]
      bus_idle_IO_read [OF assms(2), of C a] by simp
qed

theorem IO_read_cycle_witness:
  "\<exists>b'. IO_read ram_chip 0 ram_board = (0, b') \<and> chip_state b' = (2, \<lambda>a. 0)"
proof -
  obtain v b' where r: "IO_read ram_chip 0 ram_board = (v, b')" by fastforce
  show ?thesis
    using IO_read_cycle [OF ram_slave ram_idle r] r by (simp add: ram_board_def)
qed

section \<open>Memory access\<close>

text \<open>C33. A word written to the chip's user memory with UsbWrite is the word UsbRead returns
  from that address.\<close>
theorem UsbWrite_UsbRead:
  assumes "otg_chip C V" "bus_idle b" "quiet V (chip_state b)" "user_ram a"
  shows "fst (UsbRead C a (UsbWrite C a d b)) = d"
  by (rule otg_roundtrip [OF assms])

theorem UsbWrite_UsbRead_witness:
  "fst (UsbRead ram_chip 0x0500 (UsbWrite ram_chip 0x0500 0xBEEF ram_board)) = 0xBEEF"
  by (rule UsbWrite_UsbRead [OF ram_otg ram_idle ram_quiet]) (simp add: user_ram_def)

section \<open>The requests\<close>

text \<open>C3. Each of the nine request functions leaves in the chip's memory, at 0x0500, the
  complete descriptor list of the USB request it is named for (the SETUP descriptor with the
  eight bytes of the standard request, the data descriptors with alternating toggles, the
  status descriptor in the opposite direction, the links between them and the final null
  link), and then points the chip's current-TD register at it.\<close>
theorem requests_load_descriptor_lists:
  assumes "otg_chip C V" "bus_idle b" "quiet V (chip_state b)"
  shows "loads_request V (request_spec r) (chip_state (request_fn r C b))"
  by (rule request_loads_tds [OF assms])

theorem requests_load_descriptor_lists_witness:
  "loads_request ram_view (request_spec Device_Desc2)
     (chip_state (UsbGetDeviceDesc2 ram_chip ram_board))"
  using requests_load_descriptor_lists [OF ram_otg ram_idle ram_quiet, of Device_Desc2] by simp

text \<open>
  The memory a descriptor list occupies: twelve bytes per descriptor and the data area of each,
  as pairs of address and length.
\<close>

fun td_regions :: "nat \<Rightarrow> (u16 \<Rightarrow> u16) \<Rightarrow> u16 \<Rightarrow> (nat \<times> nat) list" where
  "td_regions 0 m a = []"
| "td_regions (Suc n) m a =
     (unat a, 12) #
     (if td_length (td_at m a) = 0 then []
      else [(unat (td_base (td_at m a)), unat (td_length (td_at m a)))]) @
     (if m (a + 10) = 0 then [] else td_regions n m (m (a + 10)))"

fun apart :: "nat \<times> nat \<Rightarrow> nat \<times> nat \<Rightarrow> bool" where
  "apart (a, n) (b, k) \<longleftrightarrow> a + n \<le> b \<or> b + k \<le> a"

definition regions_ok :: "(nat \<times> nat) list \<Rightarrow> bool" where
  "regions_ok rs \<longleftrightarrow> sorted_wrt apart rs \<and> list_all (\<lambda>(a, n). 0x0500 \<le> a \<and> a + n \<le> 0x0600) rs"

lemma td_regions_numeral:
  "td_regions (numeral k) m a =
     (unat a, 12) #
     (if td_length (td_at m a) = 0 then []
      else [(unat (td_base (td_at m a)), unat (td_length (td_at m a)))]) @
     (if m (a + 10) = 0 then [] else td_regions (pred_numeral k) m (m (a + 10)))"
  by (simp add: numeral_eq_Suc)

lemma td_request_regions:
  assumes "otg_chip C V" "bus_idle b" "quiet V (chip_state b)" "length ws \<le> 0x1000"
    and "\<And>m. mem_words m 0x0500 (length ws) = ws \<Longrightarrow> regions_ok (td_regions 10 m 0x0500)"
  shows "\<exists>c. quiet V c \<and> regions_ok (td_regions 10 (mem V c) 0x0500) \<and>
    chip_state (td_request C ws b) = port_wr V 0 0x0500 (port_wr V 2 HUSB_SIE1_pCurrentTDPtr c)"
  using td_request_loads [OF assms(1-4)] assms(5) by blast

text \<open>C29. The memory used by each request is safe: in the memory the request function leaves
  behind, the descriptors, the setup packet and every buffer that incoming data is stored to
  lie between 0x0500 and 0x0600 and no two of them overlap, so that the data of one transfer
  never overwrites a descriptor that is still to be executed.\<close>
theorem request_memory_disjoint:
  assumes "otg_chip C V" "bus_idle b" "quiet V (chip_state b)"
  shows "\<exists>c. quiet V c \<and> regions_ok (td_regions 10 (mem V c) 0x0500) \<and>
    chip_state (request_fn r C b) =
      port_wr V 0 0x0500 (port_wr V 2 HUSB_SIE1_pCurrentTDPtr c)"
  by (cases r; simp only: request_fn.simps request_defs;
      rule td_request_regions [OF assms];
      simp add: td_regions_numeral mem_words_def td_at_def regions_ok_def upt_rec)

theorem request_memory_disjoint_witness:
  "\<exists>c. regions_ok (td_regions 10 (snd c) 0x0500) \<and>
     chip_state (UsbGetReportDesc ram_chip ram_board) = ram_wr 0 0x0500 (ram_wr 2 0x01B0 c)"
proof -
  obtain c where "regions_ok (td_regions 10 (mem ram_view c) 0x0500) \<and>
    chip_state (request_fn Report_Desc ram_chip ram_board) =
      port_wr ram_view 0 0x0500 (port_wr ram_view 2 HUSB_SIE1_pCurrentTDPtr c)"
    using request_memory_disjoint [OF ram_otg ram_idle ram_quiet, of Report_Desc] by blast
  then show ?thesis
    by (intro exI [of _ c]) (simp add: ram_view_def HUSB_SIE1_pCurrentTDPtr_def)
qed

section \<open>Waiting for the descriptor list\<close>

text \<open>
  One round of the wait as the chip sees it through its ports: the message register is addressed
  (what its read will return is the \<open>look\<close>), read, addressed again and cleared.
\<close>

definition sie1_look :: "(2 word \<Rightarrow> u16 \<Rightarrow> 'c \<Rightarrow> 'c) \<Rightarrow> (2 word \<Rightarrow> 'c \<Rightarrow> u16) \<Rightarrow> 'c \<Rightarrow> u16" where
  "sie1_look wr val c = val 0 (wr 2 HPI_SIE1_MSG_ADR c)"

definition sie1_round ::
  "(2 word \<Rightarrow> u16 \<Rightarrow> 'c \<Rightarrow> 'c) \<Rightarrow> (2 word \<Rightarrow> 'c \<Rightarrow> 'c) \<Rightarrow> 'c \<Rightarrow> 'c" where
  "sie1_round wr rd c = wr 0 0 (wr 2 HPI_SIE1_MSG_ADR (rd 0 (wr 2 HPI_SIE1_MSG_ADR c)))"

lemma read_sie1_msg_ports:
  assumes "hpi_slave C wr val rd" "bus_idle b"
  defines "c1 \<equiv> wr 2 HPI_SIE1_MSG_ADR (chip_state b)"
  shows "fst (read_sie1_msg C b) = val 0 c1"
    "chip_state (snd (read_sie1_msg C b)) = wr 0 0 (wr 2 HPI_SIE1_MSG_ADR (rd 0 c1))"
  using assms(1,2)
  by (simp_all add: read_sie1_msg_def UsbRead_def UsbWrite_def io_simps idle_intros split_beta
      c1_def HPI_DATA_def HPI_ADDR_def)

lemma read_sie1_msg_rounds:
  assumes "hpi_slave C wr val rd" "bus_idle b"
  shows "fst (read_sie1_msg C b) = sie1_look wr val (chip_state b)"
    "chip_state (snd (read_sie1_msg C b)) = sie1_round wr rd (chip_state b)"
  using read_sie1_msg_ports [OF assms] by (simp_all add: sie1_look_def sie1_round_def)

text \<open>The k-th value of the waiting loop's variable.\<close>

lemma wait_rounds:
  assumes "hpi_slave C wr val rd" "bus_idle b"
  defines "f \<equiv> \<lambda>(v, b). read_sie1_msg C (if v = 0x0000 then b
    else printf (line ''[SIE1 MSG]:SIE1 msg reg is %x'') [uint v] b)"
  shows "fst ((f ^^ k) (read_sie1_msg C b)) = sie1_look wr val ((sie1_round wr rd ^^ k) (chip_state b)) \<and>
    chip_state (snd ((f ^^ k) (read_sie1_msg C b))) = (sie1_round wr rd ^^ Suc k) (chip_state b) \<and>
    bus_idle (snd ((f ^^ k) (read_sie1_msg C b)))"
proof (induction k)
  case 0
  then show ?case
    using read_sie1_msg_rounds [OF assms(1,2)] read_sie1_msg_idle [OF assms(2), of C] by simp
next
  case (Suc k)
  obtain v b' where x: "(f ^^ k) (read_sie1_msg C b) = (v, b')" by fastforce
  let ?b = "if v = 0x0000 then b' else printf (line ''[SIE1 MSG]:SIE1 msg reg is %x'') [uint v] b'"
  have i: "bus_idle ?b" using Suc x by (simp add: bus_idle_printf)
  have c: "chip_state ?b = (sie1_round wr rd ^^ Suc k) (chip_state b)" using Suc x by simp
  have "(f ^^ Suc k) (read_sie1_msg C b) = f (v, b')" by (simp add: x)
  then have "(f ^^ Suc k) (read_sie1_msg C b) = read_sie1_msg C ?b" by (simp add: f_def)
  then show ?case
    using read_sie1_msg_rounds [OF assms(1) i] read_sie1_msg_idle [OF i, of C] unfolding c by simp
qed

text \<open>C25. UsbWaitTDListDone looks at the SIE1 message register again and again, clearing it after
  each look, and returns at the first look that shows HUSB_TDListDone: then it has made exactly the
  looks up to that one, returns that value, and the bus is idle. If no look ever shows it, the
  function never returns.\<close>
theorem UsbWaitTDListDone_outcome:
  assumes "hpi_slave C wr val rd" "bus_idle b"
  defines "look \<equiv> \<lambda>k. sie1_look wr val ((sie1_round wr rd ^^ k) (chip_state b))"
  shows "(\<forall>k. look k \<noteq> HUSB_TDListDone) \<and> UsbWaitTDListDone C b = None \<or>
    (\<exists>n b'. look n = HUSB_TDListDone \<and> (\<forall>k < n. look k \<noteq> HUSB_TDListDone) \<and>
       UsbWaitTDListDone C b = Some (HUSB_TDListDone, b') \<and>
       chip_state b' = (sie1_round wr rd ^^ Suc n) (chip_state b) \<and> bus_idle b')"
proof -
  let ?f = "\<lambda>(v, b). read_sie1_msg C (if v = 0x0000 then b
    else printf (line ''[SIE1 MSG]:SIE1 msg reg is %x'') [uint v] b)"
  let ?x = "\<lambda>k. (?f ^^ k) (read_sie1_msg C b)"
  note r = wait_rounds [OF assms(1,2)]
  have g: "(case ?x k of (v, b) \<Rightarrow> v \<noteq> HUSB_TDListDone) \<longleftrightarrow> look k \<noteq> HUSB_TDListDone" for k
    using r [of k] by (simp add: look_def split_beta)
  have w: "UsbWaitTDListDone C b =
      (if \<exists>k. look k = HUSB_TDListDone then Some (?x (LEAST k. look k = HUSB_TDListDone)) else None)"
    unfolding UsbWaitTDListDone_def while_option_def g not_not by (rule refl)
  show ?thesis
  proof (cases "\<exists>k. look k = HUSB_TDListDone")
    case True
    define n where "n = (LEAST k. look k = HUSB_TDListDone)"
    have n: "look n = HUSB_TDListDone" "\<forall>k < n. look k \<noteq> HUSB_TDListDone"
      using True unfolding n_def by (auto intro: LeastI_ex dest: not_less_Least)
    obtain v b' where x: "?x n = (v, b')" by fastforce
    have "UsbWaitTDListDone C b = Some (v, b')" using w True unfolding n_def [symmetric] x by simp
    moreover have "v = HUSB_TDListDone" "chip_state b' = (sie1_round wr rd ^^ Suc n) (chip_state b)" "bus_idle b'"
      using r [of n] n(1) unfolding x look_def by simp_all
    ultimately show ?thesis using n by blast
  qed (use w in simp)
qed

text \<open>A chip that posts its message after \<open>n\<close> looks.\<close>

definition late_chip :: "nat chip" where
  "late_chip = \<lparr>
     chip_pins = (\<lambda>p p' n. if write_strobe p p' then n
                  else if read_strobe p p' then n - 1 else n),
     chip_drive = (\<lambda>p n. if n = 0 then HUSB_TDListDone else 0),
     chip_time = (\<lambda>k n. n)\<rparr>"

definition late_board :: "nat board" where
  "late_board = \<lparr>pins = pins ram_board, chip_state = 3, keycode_pio = 0, console = [], slept = 0\<rparr>"

lemma late_idle: "bus_idle late_board"
  by (simp add: late_board_def bus_idle_def ram_board_def)

lemma late_slave:
  "hpi_slave late_chip (\<lambda>a d n. n) (\<lambda>a n. if n = 0 then HUSB_TDListDone else 0) (\<lambda>a n. n - 1)"
  by (simp add: hpi_slave_def late_chip_def)

theorem UsbWaitTDListDone_outcome_witness:
  "\<exists>b'. UsbWaitTDListDone late_chip late_board = Some (HUSB_TDListDone, b') \<and> chip_state b' = 0"
proof -
  have r: "(sie1_round (\<lambda>a d n. n) (\<lambda>a n. n - 1) ^^ k) n = n - k" for k n :: nat
    by (induction k) (simp_all add: sie1_round_def)
  let ?look = "\<lambda>k. sie1_look (\<lambda>a d n. n) (\<lambda>a n. if n = 0 then HUSB_TDListDone else 0) (chip_state late_board - k)"
  have "?look 3 = HUSB_TDListDone" by (simp add: sie1_look_def late_board_def)
  then obtain n b' where n: "?look n = HUSB_TDListDone"
    and b': "UsbWaitTDListDone late_chip late_board = Some (HUSB_TDListDone, b')"
      "chip_state b' = chip_state late_board - Suc n"
    using UsbWaitTDListDone_outcome [OF late_slave late_idle] unfolding r by blast
  have "n \<ge> 3"
    using n by (simp add: sie1_look_def late_board_def HUSB_TDListDone_def split: if_splits)
  then show ?thesis using b' by (simp add: late_board_def)
qed

section \<open>The memory dump\<close>

lemma IO_read_console: "console (snd (IO_read C a b)) = (line ''%x'', [uint (fst (IO_read C a b))]) # console b"
  by (simp add: IO_read_def io_defs set_pins_def Let_def)

definition dump_lines :: "(u16 \<Rightarrow> u16) \<Rightarrow> nat \<Rightarrow> (string \<times> int list) list" where
  "dump_lines m n = concat (map (\<lambda>k. let w = m (0x0500 + 2 * of_nat k) in
     [(line ''%x'', [uint w]),
      (CHR 0x0A # line ''addr %x = %04x'', [0x0500 + 2 * int k, uint w])]) [0..<n])"

lemma dump_loop:
  assumes "otg_chip C V" "bus_idle b" "quiet V (chip_state b)"
    and "mem_ptr V (chip_state b) = 0x0500" "n \<le> 101"
  defines "b' \<equiv> fold (\<lambda>k b. let (code, b) = IO_read C HPI_DATA b
      in printf (CHR 0x0A # line ''addr %x = %04x'') [0x0500 + 2 * int k, uint code] b) [0..<n] b"
  shows "console b' = rev (dump_lines (mem V (chip_state b)) n) @ console b \<and> bus_idle b' \<and>
    quiet V (chip_state b') \<and> mem V (chip_state b') = mem V (chip_state b) \<and>
    mem_ptr V (chip_state b') = 0x0500 + 2 * of_nat n"
  using assms(5) unfolding b'_def
proof (induction n)
  case 0
  then show ?case using assms(1-4) by (simp add: dump_lines_def)
next
  case (Suc n)
  let ?f = "\<lambda>k b. let (code, b) = IO_read C HPI_DATA b
      in printf (CHR 0x0A # line ''addr %x = %04x'') [0x0500 + 2 * int k, uint code] b"
  let ?b = "fold ?f [0..<n] b"
  have IH: "console ?b = rev (dump_lines (mem V (chip_state b)) n) @ console b" "bus_idle ?b"
    "quiet V (chip_state ?b)" "mem V (chip_state ?b) = mem V (chip_state b)"
    "mem_ptr V (chip_state ?b) = 0x0500 + 2 * of_nat n"
    using Suc by simp_all
  have "user_ram (0x0500 :: u16)" by (simp add: user_ram_def)
  from user_ram_step(1) [OF this, of "Suc n" n] have ram: "user_ram (mem_ptr V (chip_state ?b))"
    using Suc.prems IH(5) by simp
  note ld = otg_load [OF assms(1) IH(2,3) ram]
  show ?case
    using IH ld bus_idle_printf [OF bus_idle_IO_read [OF IH(2), of C HPI_DATA]]
    by (simp add: split_beta Let_def IO_read_console printf_def dump_lines_def bus_idle_def)
qed

text \<open>UsbPrintMem prints, in order, the 101 words of the chip's memory at 0x0500, 0x0502,
  .., 0x05C8, each with its address (and the raw value once more from IO_read), and leaves the
  memory as it was.\<close>
theorem UsbPrintMem_dumps:
  assumes "otg_chip C V" "bus_idle b" "quiet V (chip_state b)"
  shows "console (UsbPrintMem C b) = rev (dump_lines (mem V (chip_state b)) 101) @ console b \<and>
    mem V (chip_state (UsbPrintMem C b)) = mem V (chip_state b)"
  using dump_loop [OF assms(1) bus_idle_IO_write [OF assms(2)] otg_address(3) [OF assms]
      otg_address(1) [OF assms], of 101] otg_address(2) [OF assms, of "0x0500"]
  by (simp add: UsbPrintMem_def)

theorem UsbPrintMem_dumps_witness:
  "length (console (UsbPrintMem ram_chip ram_board)) = 202"
proof -
  have "length (dump_lines m n) = 2 * n" for m n by (induction n) (simp_all add: dump_lines_def Let_def)
  then show ?thesis
    using UsbPrintMem_dumps [OF ram_otg ram_idle ram_quiet] by (simp add: ram_board_def)
qed

end
