(* ===== verification/Usb_Host.thy ===== *)
theory Usb_Host
  imports Usb_Props Main_App
begin

text \<open>
  A chip that executes the descriptor lists, with a keyboard plugged in: the contract \<open>usb_host\<close>
  follows what the chip does from state to state (its answer to a command waits in the mailbox
  until it is read, a list it is started on is executed if the device answers it, the completed
  descriptor loses its active flag, the end of the list is posted). \<open>host_chip\<close>
  is such a chip.
\<close>

section \<open>What the chip executes\<close>

text \<open>The poll of the keyboard: one IN descriptor of endpoint 1 of device 2.\<close>

definition key_td :: "bool \<Rightarrow> u16 \<Rightarrow> td" where
  "key_td d1 n = armed_td 0x051C n PID_IN 1 2 d1"

text \<open>\<open>loads_poll\<close>: the chip was started on a poll of the keyboard.\<close>

definition loads_poll :: "'c otg_view \<Rightarrow> bool \<Rightarrow> u16 \<Rightarrow> 'c \<Rightarrow> bool" where
  "loads_poll V d1 n c' \<longleftrightarrow>
     (\<exists>c. quiet V c \<and> c' = port_wr V 0 0x0500 (port_wr V 2 HUSB_SIE1_pCurrentTDPtr c) \<and>
        td_chain 10 (mem V c) 0x0500 = Some [key_td d1 n])"

text \<open>
  The lists a keyboard answers: the nine standard requests, recognised by their descriptors and
  their setup packet, and polls of eight bytes.
\<close>

definition is_request :: "(u16 \<Rightarrow> u16) \<Rightarrow> td list \<Rightarrow> bool" where
  "is_request m ts \<longleftrightarrow> (\<exists>r. ts = control_tds (request_spec r) \<and>
     mem_words m (td_base (hd ts)) 4 = setup_words (request_spec r))"

definition is_poll :: "td list \<Rightarrow> bool" where
  "is_poll ts \<longleftrightarrow> (\<exists>d1. ts = [key_td d1 8])"

section \<open>The contract\<close>

text \<open>
  What the states of the chip say beside its memory: the end of a list is posted, an answer waits
  in the mailbox.
\<close>

record 'c host_view =
  posted :: "'c \<Rightarrow> bool"
  acked :: "'c \<Rightarrow> bool"

definition same_ram :: "'c otg_view \<Rightarrow> 'c \<Rightarrow> 'c \<Rightarrow> bool" where
  "same_ram V c c' \<longleftrightarrow> (\<forall>a. user_ram a \<longrightarrow> mem V c' a = mem V c a)"

text \<open>
  Access to registers: the memory stays, an answer or a message stays until it is fetched, and
  the chip is through with what it does before the program's next access.
\<close>

definition host_registers :: "'c chip \<Rightarrow> 'c otg_view \<Rightarrow> 'c host_view \<Rightarrow> bool" where
  "host_registers C V W \<longleftrightarrow>
     (\<forall>c p d. quiet V c \<longrightarrow> quiet V (port_wr V p d c) \<and> quiet V (port_rd V p c)) \<and>
     (\<forall>c n. quiet V c \<longrightarrow> quiet V (chip_time C n c) \<and> same_ram V c (chip_time C n c) \<and>
        (posted W c \<longrightarrow> posted W (chip_time C n c))) \<and>
     (\<forall>c p. quiet V c \<longrightarrow> same_ram V c (port_rd V p c)) \<and>
     (\<forall>c d. quiet V c \<longrightarrow> \<not> user_ram (mem_ptr V c) \<longrightarrow> mem_ptr V c \<noteq> HUSB_SIE1_pCurrentTDPtr \<longrightarrow>
        same_ram V c (port_wr V 0 d c)) \<and>
     (\<forall>c a. quiet V c \<longrightarrow> posted W c \<longrightarrow> posted W (port_wr V 2 a c) \<and> posted W (port_rd V 3 c)) \<and>
     (\<forall>c. quiet V c \<longrightarrow> acked W c \<longrightarrow> acked W (port_rd V 3 c)) \<and>
     (\<forall>b. quiet V (chip_state (IO_init C b)))"

text \<open>
  What the program finds there: the flags of the status port, the message, the acknowledgement
  of a command, and the lines of the port that the keyboard holds up.
\<close>

definition host_answers :: "'c otg_view \<Rightarrow> 'c host_view \<Rightarrow> bool" where
  "host_answers V W \<longleftrightarrow>
     (\<forall>c. quiet V c \<longrightarrow> acked W (port_wr V 1 COMM_EXEC_INT c)) \<and>
     (\<forall>c. quiet V c \<longrightarrow> acked W c \<longrightarrow> port_val V 1 c = COMM_ACK \<and> port_val V 3 c \<noteq> 0) \<and>
     (\<forall>c. quiet V c \<longrightarrow> posted W c \<longrightarrow> port_val V 3 c AND HPI_STATUS_SIE1msg_FLAG \<noteq> 0) \<and>
     (\<forall>c. quiet V c \<longrightarrow> posted W c \<longrightarrow> mem_ptr V c = HPI_SIE1_MSG_ADR \<longrightarrow>
        port_val V 0 c = HUSB_TDListDone) \<and>
     (\<forall>c. quiet V c \<longrightarrow> mem_ptr V c = USB1_CTL_REG \<longrightarrow> port_val V 0 c AND (A_DP_STAT OR A_DM_STAT) \<noteq> 0)"

text \<open>
  The execution of a list, started by writing its address: a list whose first descriptor is not
  armed does nothing; a list that the keyboard answers ends with its message, and its first
  descriptor without the active flag; a poll stores the keyboard's report, the
  keys \<open>k\<close> in its second word (unless that is the word of the descriptor just changed).
\<close>

definition host_executes :: "'c otg_view \<Rightarrow> 'c host_view \<Rightarrow> u16 \<Rightarrow> bool" where
  "host_executes V W k \<longleftrightarrow>
     (\<forall>c d. quiet V c \<longrightarrow> mem_ptr V c = HUSB_SIE1_pCurrentTDPtr \<longrightarrow> user_ram d \<longrightarrow>
        \<not> td_armed (td_at (mem V c) d) \<longrightarrow> same_ram V c (port_wr V 0 d c)) \<and>
     (\<forall>c d ts. quiet V c \<longrightarrow> mem_ptr V c = HUSB_SIE1_pCurrentTDPtr \<longrightarrow> user_ram d \<longrightarrow>
        td_chain 10 (mem V c) d = Some ts \<longrightarrow> is_request (mem V c) ts \<or> is_poll ts \<longrightarrow>
        posted W (port_wr V 0 d c) \<and>
        mem V (port_wr V 0 d c) (d + 8) = td_retry (hd ts) AND NOT 0x0010 \<and>
        (is_poll ts \<longrightarrow> td_base (hd ts) + 2 \<noteq> d + 8 \<longrightarrow>
         mem V (port_wr V 0 d c) (td_base (hd ts) + 2) = k))"

definition usb_host :: "'c chip \<Rightarrow> 'c otg_view \<Rightarrow> 'c host_view \<Rightarrow> u16 \<Rightarrow> bool" where
  "usb_host C V W k \<longleftrightarrow>
     otg_chip C V \<and> host_registers C V W \<and> host_answers V W \<and> host_executes V W k"

lemma usb_host_otg: "usb_host C V W k \<Longrightarrow> otg_chip C V"
  by (simp add: usb_host_def)

lemma usb_host_slave: "usb_host C V W k \<Longrightarrow> hpi_slave C (port_wr V) (port_val V) (port_rd V)"
  by (simp add: usb_host_otg otg_chip_slave)

text \<open>The state of the board between the accesses.\<close>

definition host_ready :: "'c otg_view \<Rightarrow> 'c board \<Rightarrow> bool" where
  "host_ready V b \<longleftrightarrow> bus_idle b \<and> quiet V (chip_state b)"

lemma host_inv:
  assumes "usb_host C V W k"
  shows "board_inv C (host_ready V)"
proof
  note H = usb_host_slave [OF assms]
  have Q: "quiet V c \<Longrightarrow> quiet V (port_wr V p d c) \<and> quiet V (port_rd V p c) \<and> quiet V (chip_time C n c)" for c p d n
    using assms by (auto simp: usb_host_def host_registers_def)
  fix b a d f xs n
  assume "host_ready V b"
  then have b: "bus_idle b" "quiet V (chip_state b)" by (simp_all add: host_ready_def)
  show "host_ready V (IO_write C a d b)" "host_ready V (snd (IO_read C a b))"
    "host_ready V (printf f xs b)" "host_ready V (usleep C n b)"
    using b Q IO_write_chip [OF H b(1)] IO_read_chip [OF H b(1)]
    by (simp_all add: host_ready_def idle_intros)
qed

section \<open>What the contract gives\<close>

lemma host_view_steps:
  assumes "usb_host C V W k" "quiet V c"
  shows "quiet V (port_wr V p d c)" "quiet V (port_rd V p c)" "mem_ptr V (port_wr V 2 a c) = a"
    "mem V (port_wr V 2 a c) = mem V c" "same_ram V c (port_rd V p c)"
  using assms by (simp_all add: usb_host_def otg_chip_def otg_memory_def host_registers_def)

lemma host_flags:
  assumes "usb_host C V W k" "quiet V c" "posted W c"
  shows "posted W (port_wr V 2 a c)" "posted W (port_rd V 3 c)"
    "port_val V 3 c AND HPI_STATUS_SIE1msg_FLAG \<noteq> 0"
    "mem_ptr V c = HPI_SIE1_MSG_ADR \<Longrightarrow> port_val V 0 c = HUSB_TDListDone"
    "posted W (chip_time C n c)"
  using assms by (simp_all add: usb_host_def host_registers_def host_answers_def)

lemma host_clears:
  assumes "usb_host C V W k" "quiet V c" "mem_ptr V c = HPI_SIE1_MSG_ADR"
  shows "same_ram V c (port_wr V 0 d c)"
proof -
  have "\<not> user_ram HPI_SIE1_MSG_ADR" "HPI_SIE1_MSG_ADR \<noteq> HUSB_SIE1_pCurrentTDPtr"
    by (simp_all add: user_ram_def HPI_SIE1_MSG_ADR_def HUSB_SIE1_pCurrentTDPtr_def)
  then show ?thesis using assms by (simp add: usb_host_def host_registers_def)
qed

lemma host_time:
  assumes "usb_host C V W k" "quiet V c"
  shows "same_ram V c (chip_time C n c)"
  using assms by (simp add: usb_host_def host_registers_def)

lemma host_acks:
  assumes "usb_host C V W k" "quiet V c"
  shows "acked W (port_wr V 1 COMM_EXEC_INT c)" "acked W c \<Longrightarrow> port_val V 1 c = COMM_ACK"
    "acked W c \<Longrightarrow> port_val V 3 c \<noteq> 0" "acked W c \<Longrightarrow> acked W (port_rd V 3 c)"
  using assms by (simp_all add: usb_host_def host_registers_def host_answers_def)

lemma host_lines:
  assumes "usb_host C V W k" "quiet V c" "mem_ptr V c = USB1_CTL_REG"
  shows "port_val V 0 c AND 0x3000 \<noteq> 0"
proof -
  have "A_DP_STAT OR A_DM_STAT = (0x3000 :: u16)" by (simp add: reg_defs)
  then show ?thesis using assms by (simp add: usb_host_def host_answers_def)
qed

text \<open>The list at 0x0576 that the program writes between steps 6 and 7 is not armed.\<close>

lemma host_unarmed:
  assumes "usb_host C V W k" "quiet V c" "mem V c 0x057C = 0x0008"
  defines "c' \<equiv> port_wr V 0 0x0576 (port_wr V 2 HUSB_SIE1_pCurrentTDPtr c)"
  shows "quiet V c' \<and> mem V c' 0x057C = mem V c 0x057C"
proof -
  let ?c = "port_wr V 2 HUSB_SIE1_pCurrentTDPtr c"
  note v = host_view_steps(1) [OF assms(1,2), of 2 HUSB_SIE1_pCurrentTDPtr]
    host_view_steps(3,4) [OF assms(1,2), of HUSB_SIE1_pCurrentTDPtr]
  have "\<not> td_armed (td_at (mem V ?c) 0x0576)" using assms(3) v(3) by (simp add: td_at_def)
  then have "same_ram V ?c c'"
    using assms(1) v(1,2) unfolding c'_def by (simp add: usb_host_def host_executes_def user_ram_def)
  then show ?thesis
    using v host_view_steps(1) [OF assms(1) v(1)] by (simp add: same_ram_def c'_def user_ram_def)
qed

lemma host_runs:
  assumes "usb_host C V W k" "quiet V c" "mem_ptr V c = HUSB_SIE1_pCurrentTDPtr" "user_ram d"
    and "td_chain 10 (mem V c) d = Some ts" "is_request (mem V c) ts \<or> is_poll ts"
  shows "posted W (port_wr V 0 d c) \<and> mem V (port_wr V 0 d c) (d + 8) = td_retry (hd ts) AND NOT 0x0010 \<and>
    (is_poll ts \<longrightarrow> td_base (hd ts) + 2 \<noteq> d + 8 \<longrightarrow>
     mem V (port_wr V 0 d c) (td_base (hd ts) + 2) = k)"
proof -
  have "host_executes V W k" using assms(1) by (simp add: usb_host_def)
  from this [unfolded host_executes_def, THEN conjunct2, rule_format, OF assms(2-6)]
  show ?thesis by blast
qed

lemma td_chain_hd: "td_chain n m a = Some ts \<Longrightarrow> hd ts = td_at m a"
  by (cases n) (auto split: if_splits)

lemma host_started:
  assumes "usb_host C V W k" "quiet V c" "td_chain 10 (mem V c) 0x0500 = Some ts"
    and "is_request (mem V c) ts \<or> is_poll ts"
  defines "c' \<equiv> port_wr V 0 0x0500 (port_wr V 2 HUSB_SIE1_pCurrentTDPtr c)"
  shows "posted W c'" "mem V c' 0x0508 = td_retry (hd ts) AND NOT 0x0010"
    "is_poll ts \<Longrightarrow> td_base (hd ts) \<noteq> 0x0506 \<Longrightarrow> mem V c' (td_base (hd ts) + 2) = k"
proof -
  have d: "user_ram 0x0500" by (simp add: user_ram_def)
  note c = host_view_steps [OF assms(1,2)]
  have "td_chain 10 (mem V (port_wr V 2 HUSB_SIE1_pCurrentTDPtr c)) 0x0500 = Some ts"
    "is_request (mem V (port_wr V 2 HUSB_SIE1_pCurrentTDPtr c)) ts \<or> is_poll ts"
    using assms(3,4) by (simp_all only: c(4))
  from host_runs [OF assms(1) c(1) c(3) d this]
  show "posted W c'" "mem V c' 0x0508 = td_retry (hd ts) AND NOT 0x0010"
    "is_poll ts \<Longrightarrow> td_base (hd ts) \<noteq> 0x0506 \<Longrightarrow> mem V c' (td_base (hd ts) + 2) = k"
    by (simp_all add: c'_def)
qed

lemma host_request:
  assumes "usb_host C V W k" "host_ready V b"
  shows "posted W (chip_state (request_fn r C b)) \<and> mem V (chip_state (request_fn r C b)) 0x0508 = 3"
proof -
  have b: "bus_idle b" "quiet V (chip_state b)" using assms(2) by (simp_all add: host_ready_def)
  obtain c where c: "quiet V c" "td_chain 10 (mem V c) 0x0500 = Some (control_tds (request_spec r))"
    "mem_words (mem V c) 0x050C 4 = setup_words (request_spec r)"
    and e: "chip_state (request_fn r C b) = port_wr V 0 0x0500 (port_wr V 2 HUSB_SIE1_pCurrentTDPtr c)"
    using request_loads_tds [OF usb_host_otg [OF assms(1)] b, of r] by (auto simp: loads_request_def)
  have "is_request (mem V c) (control_tds (request_spec r))"
    using c(3) by (auto simp: is_request_def control_tds_def armed_td_def)
  with host_started [OF assms(1) c(1,2)] show ?thesis
    unfolding e by (simp add: control_tds_def armed_td_def)
qed

lemma low_nibble: "(0x000F AND ucast (n :: u8)) AND 0x03FF = (0x000F AND ucast n :: u16)"
  "drop_bit 10 (0x000F AND ucast (n :: u8) :: u16) = 0"
proof -
  have f: "(0x000F :: u16) = mask 4" by (simp add: mask_eq_exp_minus_1)
  have g: "(0x03FF :: u16) = mask 10" by (simp add: mask_eq_exp_minus_1)
  show "(0x000F AND ucast n) AND 0x03FF = (0x000F AND ucast n :: u16)"
    unfolding f g by (rule bit_word_eqI) (auto simp: bit_simps)
  show "drop_bit 10 (0x000F AND ucast n :: u16) = 0"
    unfolding f by (rule bit_word_eqI) (simp add: bit_simps)
qed

lemma key_request_loads:
  assumes "otg_chip C V" "bus_idle b" "quiet V (chip_state b)"
  shows "loads_poll V (even (unat tog)) (0x000F AND ucast n) (chip_state (key_request tog n C b))"
proof -
  have len: "length (key_words tog n) = 6" by (simp add: key_words_def)
  obtain c where "quiet V c" and m: "mem_words (mem V c) 0x0500 6 = key_words tog n"
    and e: "chip_state (key_request tog n C b) = port_wr V 0 0x0500 (port_wr V 2 HUSB_SIE1_pCurrentTDPtr c)"
    using td_request_loads [OF assms, of "key_words tog n"] len by (auto simp: key_request_def)
  moreover have "td_chain 10 (mem V c) 0x0500 = Some [key_td (even (unat tog)) (0x000F AND ucast n)]"
    using m by (simp add: key_words_def mem_words_def upt_rec key_td_def armed_td_def td_at_def low_nibble
        PID_IN_def)
  ultimately show ?thesis unfolding loads_poll_def by blast
qed

lemma host_poll:
  assumes "usb_host C V W k" "host_ready V b"
  shows "posted W (chip_state (key_request tog 8 C b)) \<and> mem V (chip_state (key_request tog 8 C b)) 0x051E = k"
proof -
  have b: "bus_idle b" "quiet V (chip_state b)" using assms(2) by (simp_all add: host_ready_def)
  obtain c where c: "quiet V c" "td_chain 10 (mem V c) 0x0500 = Some [key_td (even (unat tog)) 8]"
    and e: "chip_state (key_request tog 8 C b) = port_wr V 0 0x0500 (port_wr V 2 HUSB_SIE1_pCurrentTDPtr c)"
    using key_request_loads [OF usb_host_otg [OF assms(1)] b, of tog 8] by (auto simp: loads_poll_def)
  have "is_poll [key_td (even (unat tog)) 8]" by (auto simp: is_poll_def)
  with host_started [OF assms(1) c] show ?thesis unfolding e by (simp add: key_td_def armed_td_def)
qed

text \<open>A posted list: the status port shows it, the wait ends at its first look, the memory stays.\<close>

lemma host_list_done:
  assumes "usb_host C V W k" "host_ready V b" "posted W (chip_state b)"
  shows "\<exists>v b1 b2. issue_until_msg C req b = Some (v, b1) \<and>
    UsbWaitTDListDone C b1 = Some (HUSB_TDListDone, b2) \<and> host_ready V b2 \<and>
    same_ram V (chip_state b) (chip_state b2)"
proof -
  note H = usb_host_slave [OF assms(1)]
  note inv = host_inv [OF assms(1)]
  have b: "bus_idle b" "quiet V (chip_state b)" using assms(2) by (simp_all add: host_ready_def)
  let ?b1 = "snd (IO_read C HPI_STATUS b)"
  have b1: "chip_state ?b1 = port_rd V 3 (chip_state b)"
    and v1: "fst (IO_read C HPI_STATUS b) = port_val V 3 (chip_state b)"
    using IO_read_chip [OF H b(1)] IO_read_value [OF H b(1)] by (simp_all add: HPI_STATUS_def)
  note p1 = host_flags(2) [OF assms(1) b(2) assms(3), folded b1]
    host_view_steps(5) [OF assms(1) b(2), of 3, folded b1] host_flags(3) [OF assms(1) b(2) assms(3)]
  have r1: "host_ready V ?b1" by (rule board_inv.P_read [OF inv assms(2)])
  then have i1: "bus_idle ?b1" "quiet V (chip_state ?b1)" by (simp_all add: host_ready_def)
  let ?c = "port_wr V 2 HPI_SIE1_MSG_ADR (chip_state ?b1)"
  note c = host_view_steps(1) [OF assms(1) i1(2), of 2 HPI_SIE1_MSG_ADR]
    host_view_steps(3,4) [OF assms(1) i1(2), of HPI_SIE1_MSG_ADR]
    host_flags(1) [OF assms(1) i1(2) p1(1), of HPI_SIE1_MSG_ADR]
  have val: "port_val V 0 ?c = HUSB_TDListDone" by (rule host_flags(4) [OF assms(1) c(1,4,2)])
  note pr = read_sie1_msg_ports [OF H i1(1)]
  let ?d = "port_wr V 2 HPI_SIE1_MSG_ADR (port_rd V 0 ?c)"
  note r = host_view_steps(2,5) [OF assms(1) c(1), of 0]
  note d = host_view_steps(1) [OF assms(1) r(1), of 2 HPI_SIE1_MSG_ADR]
    host_view_steps(3,4) [OF assms(1) r(1), of HPI_SIE1_MSG_ADR]
  have "same_ram V ?d (port_wr V 0 0 ?d)" by (rule host_clears [OF assms(1) d(1,2)])
  with r(2) have ram: "same_ram V (chip_state b) (chip_state (snd (read_sie1_msg C ?b1)))"
    using p1(2) c(3) d(3) pr(2) by (simp add: same_ram_def)
  obtain b2 where b2: "read_sie1_msg C ?b1 = (HUSB_TDListDone, b2)"
    using pr(1) val by (cases "read_sie1_msg C ?b1") simp
  have "UsbWaitTDListDone C ?b1 = Some (HUSB_TDListDone, b2)"
    unfolding UsbWaitTDListDone_def b2 by (rule while_option_zero) simp
  moreover have "host_ready V b2"
    using board_inv.P_read_sie1_msg [OF inv r1] b2 by simp
  moreover have "issue_until_msg C req b = Some (IO_read C HPI_STATUS b)"
    using v1 p1(3) by (simp add: issue_until_msg_def poll_port_def split_beta while_option_zero)
  ultimately show ?thesis
    using ram b2 by (intro exI [of _ "fst (IO_read C HPI_STATUS b)"] exI [of _ ?b1] exI [of _ b2]) simp
qed

section \<open>A chip that meets the contract\<close>

text \<open>
  The chip of the witnesses: a pointer, a memory, the message register and the mailbox, with a
  keyboard whose keys are \<open>k\<close>. Started on an armed descriptor it stores the keys if it is a poll,
  completes the descriptor and posts its message.
\<close>

record host_state =
  h_ptr :: u16
  h_ram :: "u16 \<Rightarrow> u16"
  h_msg :: u16
  h_reply :: bool

definition host_start :: "u16 \<Rightarrow> u16 \<Rightarrow> host_state \<Rightarrow> host_state" where
  "host_start k d e =
     (let t = td_at (h_ram e) d;
          m = (if td_pid t = PID_IN \<and> td_endpoint t = 1 then (h_ram e)(td_base t + 2 := k) else h_ram e)
      in if td_armed t
         then e\<lparr>h_ram := m(d + 8 := td_retry t AND NOT 0x0010), h_msg := HUSB_TDListDone\<rparr> else e)"

definition host_wr :: "u16 \<Rightarrow> 2 word \<Rightarrow> u16 \<Rightarrow> host_state \<Rightarrow> host_state" where
  "host_wr k p d e =
     (if p = 2 then e\<lparr>h_ptr := d\<rparr>
      else if p = 1 then e\<lparr>h_reply := True\<rparr>
      else if p = 0 then
        (if h_ptr e = HUSB_SIE1_pCurrentTDPtr then host_start k d e
         else if h_ptr e = HPI_SIE1_MSG_ADR then e\<lparr>h_msg := d\<rparr>
         else e\<lparr>h_ram := (h_ram e)(h_ptr e := d)\<rparr>)\<lparr>h_ptr := h_ptr e + 2\<rparr>
      else e)"

definition host_val :: "2 word \<Rightarrow> host_state \<Rightarrow> u16" where
  "host_val p e =
     (if p = 0 then (if h_ptr e = HPI_SIE1_MSG_ADR then h_msg e
                     else if h_ptr e = USB1_CTL_REG then A_DP_STAT else h_ram e (h_ptr e))
      else if p = 1 then (if h_reply e then COMM_ACK else 0)
      else if p = 3 then (if h_msg e = 0 then 0 else HPI_STATUS_SIE1msg_FLAG) OR (if h_reply e then 1 else 0)
      else 0)"

definition host_rd :: "2 word \<Rightarrow> host_state \<Rightarrow> host_state" where
  "host_rd p e = (if p = 0 then e\<lparr>h_ptr := h_ptr e + 2\<rparr> else if p = 1 then e\<lparr>h_reply := False\<rparr> else e)"

definition host_chip :: "u16 \<Rightarrow> host_state chip" where
  "host_chip k = \<lparr>
     chip_pins = (\<lambda>p p' c. if write_strobe p p' then host_wr k (pin_address p') (pin_data p') c
                  else if read_strobe p p' then host_rd (pin_address p') c else c),
     chip_drive = (\<lambda>p c. host_val (pin_address p) c),
     chip_time = (\<lambda>n c. c)\<rparr>"

definition host_otg :: "u16 \<Rightarrow> host_state otg_view" where
  "host_otg k = \<lparr>port_wr = host_wr k, port_val = host_val, port_rd = host_rd,
     mem_ptr = h_ptr, mem = h_ram, quiet = (\<lambda>c. True)\<rparr>"

definition host_flag_view :: "host_state host_view" where
  "host_flag_view = \<lparr>posted = (\<lambda>e. h_msg e = HUSB_TDListDone), acked = h_reply\<rparr>"

definition host_board :: "host_state board" where
  "host_board = \<lparr>pins = pins ram_board,
     chip_state = \<lparr>h_ptr = 0, h_ram = (\<lambda>a. 0), h_msg = 0, h_reply = False\<rparr>,
     keycode_pio = 0, console = [], slept = 0\<rparr>"

lemma host_chip_slave: "hpi_slave (host_chip k) (host_wr k) host_val host_rd"
  by (simp add: hpi_slave_def host_chip_def)

lemma not_user_regs: "\<not> user_ram HUSB_SIE1_pCurrentTDPtr" "\<not> user_ram HPI_SIE1_MSG_ADR" "\<not> user_ram USB1_CTL_REG"
  by (simp_all add: user_ram_def reg_defs)

lemma host_chip_otg: "otg_chip (host_chip k) (host_otg k)"
proof -
  have "otg_memory (host_otg k)"
    using not_user_regs
    by (auto simp: otg_memory_def host_otg_def host_wr_def host_val_def host_rd_def fun_eq_iff)
  then show ?thesis using host_chip_slave by (simp add: otg_chip_def host_otg_def)
qed

lemma host_chip_registers: "host_registers (host_chip k) (host_otg k) host_flag_view"
  using not_user_regs
  by (auto simp: host_registers_def host_otg_def host_flag_view_def same_ram_def host_wr_def host_rd_def
      host_chip_def)

lemma host_chip_answers: "host_answers (host_otg k) host_flag_view"
proof -
  have "((if z then 0 else 0x0010) OR (1 :: u16)) \<noteq> 0" "(0x0010 OR (if z then 1 else (0 :: u16))) AND 0x0010 \<noteq> 0" for z
    by simp_all
  then show ?thesis
    by (auto simp: host_answers_def host_otg_def host_flag_view_def host_wr_def host_val_def reg_defs)
qed

lemma first_armed:
  assumes "is_request m ts \<or> is_poll ts"
  shows "td_armed (hd ts)" "is_poll ts \<Longrightarrow> td_pid (hd ts) = PID_IN \<and> td_endpoint (hd ts) = 1"
  using assms by (auto simp: is_request_def is_poll_def control_tds_def key_td_def armed_td_def)

lemma host_chip_executes: "host_executes (host_otg k) host_flag_view k"
  unfolding host_executes_def
proof (intro conjI allI impI)
  fix c :: host_state and d
  assume "mem_ptr (host_otg k) c = HUSB_SIE1_pCurrentTDPtr" "\<not> td_armed (td_at (mem (host_otg k) c) d)"
  then show "same_ram (host_otg k) c (port_wr (host_otg k) 0 d c)"
    by (simp add: same_ram_def host_otg_def host_wr_def host_start_def)
next
  fix c :: host_state and d ts
  assume p: "mem_ptr (host_otg k) c = HUSB_SIE1_pCurrentTDPtr"
    and t: "td_chain 10 (mem (host_otg k) c) d = Some ts"
    and a: "is_request (mem (host_otg k) c) ts \<or> is_poll ts"
  have h: "td_at (h_ram c) d = hd ts" using td_chain_hd [OF t] by (simp add: host_otg_def)
  have e: "port_wr (host_otg k) 0 d c = (host_start k d c)\<lparr>h_ptr := h_ptr c + 2\<rparr>"
    using p by (simp add: host_otg_def host_wr_def)
  note s = host_start_def [of k d c, unfolded h Let_def]
  show "posted host_flag_view (port_wr (host_otg k) 0 d c)"
    "mem (host_otg k) (port_wr (host_otg k) 0 d c) (d + 8) = td_retry (hd ts) AND NOT 0x0010"
    using first_armed(1) [OF a] unfolding e s by (simp_all add: host_flag_view_def host_otg_def)
  assume "is_poll ts" "td_base (hd ts) + 2 \<noteq> d + 8"
  then show "mem (host_otg k) (port_wr (host_otg k) 0 d c) (td_base (hd ts) + 2) = k"
    using first_armed [OF a] unfolding e s by (simp add: host_otg_def)
qed

lemma host_chip_ok: "usb_host (host_chip k) (host_otg k) host_flag_view k"
  using host_chip_otg host_chip_registers host_chip_answers host_chip_executes by (simp add: usb_host_def)

lemma host_board_ready: "host_ready (host_otg k) host_board"
  by (simp add: host_ready_def host_otg_def host_board_def ram_board_def bus_idle_def)

end
