(* ===== verification/App_Props.thy ===== *)
theory App_Props
  imports Main_Inv Usb_Host
begin

text \<open>
  The properties of main.c: what each block does to the program's variables, the order of the
  enumeration, what holds in every reachable state, the published keycode, the removal of the
  keyboard, and the way into the keyboard loop and the keys it publishes, with a chip that executes
  the descriptor lists it is started on.
\<close>

section \<open>Variables the blocks keep\<close>

definition same_vars :: "'c app \<Rightarrow> 'c app \<Rightarrow> bool" where
  "same_vars s s' \<longleftrightarrow> ctl_reg s' = ctl_reg s \<and> no_device s' = no_device s \<and>
     fs_device s' = fs_device s \<and> keycode s' = keycode s \<and> toggle s' = toggle s \<and>
     data_size s' = data_size s"

lemma same_vars_refl [simp]: "same_vars s s"
  by (simp add: same_vars_def)

lemma same_vars_trans: "same_vars s t \<Longrightarrow> same_vars t u \<Longrightarrow> same_vars s u"
  by (simp add: same_vars_def)

lemma same_vars_update [simp]:
  "same_vars s (s\<lparr>brd := b\<rparr>)" "same_vars s (s\<lparr>brd := b, usb_ctl_val := v\<rparr>)"
  "same_vars s (s\<lparr>usb_ctl_val := v, brd := b\<rparr>)" "same_vars s (set_brd f s)"
  "same_vars s (read_ctl C s)" "same_vars s (step_1a C s)"
  by (simp_all add: same_vars_def set_brd_def read_ctl_def step_1a_def split_beta Let_def)

lemma same_vars_recheck [simp]: "same_vars s (recheck n C s)"
proof (induction n arbitrary: s)
  case (Suc n)
  have "same_vars s (s\<lparr>brd := b, usb_ctl_val := v\<rparr>)" for b v by simp
  then show ?case
    using Suc [THEN same_vars_trans [rotated]] by (auto simp: split_beta Let_def)
qed simp

lemma same_vars_loop:
  assumes "while_option g f s = Some s'" "\<And>s. same_vars s (f s)"
  shows "same_vars s s'"
  using while_option_inv [where P = "same_vars s", OF assms(1)] assms(2) same_vars_trans
  by fastforce

lemma same_vars_three_reads [simp]: "same_vars s (three_reads C s)"
  by (simp add: three_reads_def set_brd_def read_ctl_def same_vars_def split_beta Let_def)

lemma wait_insert_vars: "wait_insert C s = Some s' \<Longrightarrow> same_vars s s'"
  unfolding wait_insert_def
  by (drule same_vars_loop)
    (auto intro: same_vars_trans [rotated] simp: set_brd_def same_vars_def read_ctl_def split_beta)

lemma wait_reinsert_vars: "wait_reinsert C s = Some s' \<Longrightarrow> same_vars s s'"
  unfolding wait_reinsert_def
  by (drule same_vars_loop)
    (auto simp: three_reads_def set_brd_def same_vars_def read_ctl_def split_beta Let_def)

text \<open>A loop that waits for a device ends when the last read shows one.\<close>

lemma wait_insert_present: "wait_insert C s = Some s' \<Longrightarrow> present s'"
  unfolding wait_insert_def by (drule while_option_exit) simp

lemma wait_reinsert_present: "wait_reinsert C s = Some s' \<Longrightarrow> present s'"
  unfolding wait_reinsert_def by (drule while_option_exit) simp

section \<open>The blocks, one by one\<close>

text \<open>What the variables are outside the hot-plug block.\<close>

definition ready_vars :: "'c app \<Rightarrow> bool" where
  "ready_vars s \<longleftrightarrow> ctl_reg s = USB1_CTL_REG \<and> no_device s = 0x3000 \<and> fs_device s = 0x2000"

lemma ready_same: "same_vars s s' \<Longrightarrow> ready_vars s' = ready_vars s"
  by (simp add: same_vars_def ready_vars_def)

lemma detect_outcome:
  assumes "detect C s = Some (l, s')"
  shows "ready_vars s' \<and> present s' \<and> toggle s' = toggle s \<and> data_size s' = data_size s \<and>
    keycode s' = keycode s \<and> (l = Enum Set_Address \<or> l = Usb_Hot_Plug)"
proof -
  let ?s = "s\<lparr>ctl_reg := USB1_CTL_REG, no_device := A_DP_STAT OR A_DM_STAT, fs_device := A_DP_STAT\<rparr>"
  have V: "ready_vars ?s" by (simp add: ready_vars_def reg_defs)
  let ?r = "read_ctl C ?s"
  let ?q = "recheck 5 C ?r"
  let ?f = "\<lambda>s. set_brd (printf (line ''[INFO]: please insert a USB keyboard in SIE1!'') [])
    (set_brd (printf (CHR 0x0A # line ''[INFO]: no device is present in SIE1!'') []) s)"
  have same: "same_vars ?s ?r" "same_vars ?s ?q" "same_vars ?s (?f ?q)"
    by (simp, rule same_vars_trans [OF same_vars_update(5) same_vars_recheck],
        rule same_vars_trans [OF same_vars_trans [OF same_vars_trans [OF same_vars_update(5)
          same_vars_recheck] same_vars_update(4)] same_vars_update(4)])
  have "same_vars ?s s' \<and> present s' \<and> (l = Enum Set_Address \<or> l = Usb_Hot_Plug)"
  proof (cases "present ?r")
    case True
    then show ?thesis
      using assms same(1) same_vars_trans [OF same(1) same_vars_update(4)]
      by (auto simp: detect_def Let_def set_brd_def split: if_splits)
  next
    case False
    show ?thesis
    proof (cases "present ?q")
      case True
      then show ?thesis using assms False same(2) by (simp add: detect_def Let_def)
    next
      case absent: False
      then have "wait_insert C (?f ?q) = Some s' \<and> l = Usb_Hot_Plug"
        using assms False by (auto simp: detect_def Let_def)
      then show ?thesis
        using wait_insert_vars wait_insert_present same_vars_trans [OF same(3)] by blast
    qed
  qed
  moreover from this have "ready_vars s'" using ready_same V by blast
  ultimately show ?thesis unfolding same_vars_def by simp metis
qed

lemma hot_plug_outcome:
  assumes "main_hot_plug C s = Some (l, s')"
  shows "toggle s' = toggle s \<and> data_size s' = data_size s \<and> keycode s' = keycode s \<and>
    (l = Enum Set_Address \<and> ready_vars s' \<and> present s' \<or> l = Usb_Hot_Plug)"
proof -
  have 1: "toggle (step_1a C s) = toggle s" "data_size (step_1a C s) = data_size s"
    "keycode (step_1a C s) = keycode s"
    by (simp_all add: step_1a_def Let_def)
  show ?thesis
    using assms
    by (auto simp: main_hot_plug_def Let_def 1 split: option.splits if_splits prod.splits
        dest!: detect_outcome)
qed

fun after_enum :: "usb_req \<Rightarrow> label" where
  "after_enum Set_Address = Enum Device_Desc1"
| "after_enum Device_Desc1 = Enum Device_Desc2"
| "after_enum Device_Desc2 = Enum Config_Desc1"
| "after_enum Config_Desc1 = Enum Config_Desc2"
| "after_enum Config_Desc2 = Device_Info"
| "after_enum Set_Config = Enum Class_Request"
| "after_enum Class_Request = Enum Hid_Desc"
| "after_enum Hid_Desc = Enum Report_Desc"
| "after_enum Report_Desc = Key_Loop"

lemma enum_transfer_outcome:
  assumes "enum_transfer C req d t u fatal done_text next s = Some (l, s')"
  shows "same_vars s s' \<and> (l = next \<and> usb_ctl_val s' = 3 \<or> l = Usb_Hot_Plug)"
  using assms
  by (auto simp: enum_transfer_def Let_def same_vars_def split: option.splits prod.splits if_splits)

lemma enum_outcome:
  assumes "main_step C (Enum r, s) = Some (l, s')"
  shows "same_vars s s' \<and> (l = after_enum r \<and> usb_ctl_val s' = 3 \<or> l = Usb_Hot_Plug)"
proof (cases "r = Report_Desc")
  case True
  obtain l1 s1 where e: "enum_transfer C UsbGetReportDesc 0
      (line ''[ENUM PROCESS]: step 9 TD Status Byte is %x'')
      (line ''[ENUM PROCESS]: step 9 TD Control Byte is %x'') restarting
      (line ''---------------[ENUM PROCESS]:get descriptor (class 0x22) done!----------------'')
      Key_Loop s = Some (l1, s1)"
    and l: "l = l1" and s': "s' = (if l1 = Key_Loop then set_brd (usleep C 10000) s1 else s1)"
    using assms True by (auto simp: main_report_desc_def)
  show ?thesis using enum_transfer_outcome [OF e] l s' True by (auto simp: same_vars_def set_brd_def)
next
  case False
  then show ?thesis
    using assms by (cases r) (simp_all add: enum_defs enum_transfer_outcome)
qed

lemma device_info_outcome:
  "main_device_info C s = (l, s') \<Longrightarrow>
   l = Enum Set_Config \<and> ctl_reg s' = ctl_reg s \<and> no_device s' = no_device s \<and>
   fs_device s' = fs_device s \<and> keycode s' = keycode s \<and> toggle s' = toggle s"
  by (auto simp: main_device_info_def Let_def split_beta)

lemma removal_outcome:
  assumes "removal_check C s = Some (l, s')"
  shows "same_vars s s' \<and> present s' \<and>
    l = (if present (read_ctl C s) \<or> present (recheck 7 C (read_ctl C s)) then Key_Loop else Usb_Hot_Plug)"
proof -
  let ?r = "read_ctl C s"
  let ?q = "recheck 7 C ?r"
  let ?f = "\<lambda>s. set_brd (printf (line ''[INFO]: please insert again!!! '') [])
    (set_brd (printf (CHR 0x0A # line ''[INFO]: the keyboard has been removed!!! '') []) s)"
  have same: "same_vars s ?r" "same_vars s ?q" "same_vars s (?f ?q)"
    by (simp, rule same_vars_trans [OF same_vars_update(5) same_vars_recheck],
        rule same_vars_trans [OF same_vars_trans [OF same_vars_trans [OF same_vars_update(5)
          same_vars_recheck] same_vars_update(4)] same_vars_update(4)])
  have keeps: "present (?f ?q) = present ?q" by (simp add: set_brd_def)
  consider "present ?r" | "\<not> present ?r" "present ?q" | "\<not> present ?r" "\<not> present ?q" by blast
  then show ?thesis
  proof cases
    case 3
    then have "wait_reinsert C (?f ?q) = Some s' \<and> l = Usb_Hot_Plug"
      using assms keeps by (auto simp: removal_check_def Let_def split: if_splits)
    then have "same_vars s s' \<and> present s' \<and> l = Usb_Hot_Plug"
      using wait_reinsert_vars wait_reinsert_present same_vars_trans [OF same(3)] by blast
    with 3 show ?thesis by simp
  qed (use assms same in \<open>auto simp: removal_check_def Let_def\<close>)
qed

lemma keycode_low [simp]: "(ucast ((ucast (x :: u16) :: u32) AND 0xFFFF) :: u16) = x"
proof -
  have m: "(0xFFFF :: u32) = mask 16" by (simp add: mask_eq_exp_minus_1)
  show ?thesis unfolding m by (rule bit_word_eqI) (simp add: bit_simps)
qed

lemma key_poll_outcome:
  assumes "key_poll C s = Some s'"
  shows "toggle s' = toggle s + 1 \<and> ctl_reg s' = ctl_reg s \<and> no_device s' = no_device s \<and>
    fs_device s' = fs_device s \<and> data_size s' = data_size s \<and>
    keycode_pio (brd s') = ucast (keycode s')"
  using assms
  by (auto simp: key_poll_def Let_def keycode_base_def split: option.splits prod.splits)

section \<open>The order of the enumeration\<close>

text \<open>C26. Every step of the enumeration, for each of the nine requests, either moves on to the
  step that follows it in main.c, and then the descriptor's control word was exactly 3 (done,
  no retry used), or goes back to USB_HOT_PLUG; it changes none of the program's variables
  besides the last status read.\<close>
theorem enumeration_step_outcome:
  assumes "main_step C (Enum r, s) = Some (l, s')"
  shows "same_vars s s' \<and> (l = after_enum r \<and> usb_ctl_val s' = 3 \<or> l = Usb_Hot_Plug)"
  by (rule enum_outcome [OF assms])

text \<open>The blocks between USB_HOT_PLUG and the keyboard loop, in order.\<close>

definition enum_order :: "label list" where
  "enum_order =
     [Enum Set_Address, Enum Device_Desc1, Enum Device_Desc2, Enum Config_Desc1,
      Enum Config_Desc2, Device_Info, Enum Set_Config, Enum Class_Request, Enum Hid_Desc,
      Enum Report_Desc, Key_Loop]"

fun stage :: "label \<Rightarrow> nat" where
  "stage Usb_Hot_Plug = 0"
| "stage (Enum Set_Address) = 1"
| "stage (Enum Device_Desc1) = 2"
| "stage (Enum Device_Desc2) = 3"
| "stage (Enum Config_Desc1) = 4"
| "stage (Enum Config_Desc2) = 5"
| "stage Device_Info = 6"
| "stage (Enum Set_Config) = 7"
| "stage (Enum Class_Request) = 8"
| "stage (Enum Hid_Desc) = 9"
| "stage (Enum Report_Desc) = 10"
| "stage Key_Loop = 11"

lemma stage_order: "0 < stage l \<Longrightarrow> enum_order ! (stage l - 1) = l"
  by (induction l rule: stage.induct) (simp_all add: enum_order_def)

lemma stage_le: "stage l \<le> 11"
  by (induction l rule: stage.induct) simp_all

lemma stage_after_enum: "stage (after_enum r) = stage (Enum r) + 1"
  by (cases r) simp_all

lemma stage_key_loop: "stage l = 11 \<longleftrightarrow> l = Key_Loop"
  by (induction l rule: stage.induct) simp_all

lemma key_loop_step:
  assumes "main_step C (Key_Loop, s) = Some (l, s')"
  shows "l = Key_Loop \<or> l = Usb_Hot_Plug"
  using assms removal_outcome by (fastforce simp: main_key_loop_def split: option.splits if_splits)

text \<open>A step goes on to the next block, stays in the keyboard loop, or starts over.\<close>

lemma step_stage:
  assumes "main_step C (l, s) = Some (l', s')"
  shows "stage l' = stage l + 1 \<or> l' = Usb_Hot_Plug \<or> l = Key_Loop \<and> l' = Key_Loop"
proof (cases l)
  case Usb_Hot_Plug
  then show ?thesis using assms hot_plug_outcome [of C s l' s'] by auto
next
  case (Enum r)
  then show ?thesis using assms enum_outcome [of C r s l' s'] stage_after_enum [of r] by auto
next
  case Device_Info
  then show ?thesis using assms device_info_outcome [of C s l' s'] by simp
next
  case Key_Loop
  then show ?thesis using assms key_loop_step by blast
qed

lemma main_run_snoc:
  "main_run C (Suc n) x = (case main_run C n x of None \<Rightarrow> None | Some y \<Rightarrow> main_step C y)"
proof (induction n arbitrary: x)
  case 0
  then show ?case by (simp split: option.splits)
next
  case (Suc n)
  show ?case
  proof (cases "main_step C x")
    case (Some y)
    then show ?thesis using Suc [of y] by simp
  qed simp
qed

lemma run_prefix:
  assumes "main_run C n (Usb_Hot_Plug, s) = Some (l, s')"
  shows "\<exists>k. k + stage l \<le> n \<and> (l \<noteq> Key_Loop \<longrightarrow> k + stage l = n) \<and>
    (\<forall>i < stage l. \<exists>t. main_run C (k + 1 + i) (Usb_Hot_Plug, s) = Some (enum_order ! i, t))"
  using assms
proof (induction n arbitrary: l s')
  case 0
  then show ?case by simp
next
  case (Suc n)
  obtain l0 s0 where r: "main_run C n (Usb_Hot_Plug, s) = Some (l0, s0)"
    and st: "main_step C (l0, s0) = Some (l, s')"
    using Suc.prems by (auto simp: main_run_snoc simp del: main_run.simps split: option.splits)
  obtain k where k: "k + stage l0 \<le> n" "l0 \<noteq> Key_Loop \<Longrightarrow> k + stage l0 = n"
    "\<And>i. i < stage l0 \<Longrightarrow> \<exists>t. main_run C (k + 1 + i) (Usb_Hot_Plug, s) = Some (enum_order ! i, t)"
    using Suc.IH [OF r] by blast
  from step_stage [OF st] consider "stage l = stage l0 + 1" | "l = Usb_Hot_Plug"
    | "l0 = Key_Loop" "l = Key_Loop" by blast
  then show ?case
  proof cases
    case 1
    then have "l0 \<noteq> Key_Loop" using stage_le [of l] by auto
    then have n: "k + stage l0 = n" by (rule k(2))
    have "\<exists>t. main_run C (k + 1 + i) (Usb_Hot_Plug, s) = Some (enum_order ! i, t)"
      if "i < stage l" for i
    proof (cases "i < stage l0")
      case False
      then have "i = stage l0" using that 1 by simp
      then show ?thesis using Suc.prems stage_order [of l] n 1 by simp
    qed (rule k(3))
    then show ?thesis using 1 n by (intro exI [of _ k]) auto
  next
    case 2
    then show ?thesis by (intro exI [of _ "Suc n"]) simp
  next
    case 3
    then show ?thesis using k(1,3) by (intro exI [of _ k]) auto
  qed
qed

text \<open>C4. The keyboard loop is never entered except through the whole enumeration: whenever a
  run from USB_HOT_PLUG is in the keyboard loop, there were eleven consecutive blocks before or
  at that point which were set address, the two device descriptors, the two configuration
  descriptors, device info, set configuration, class request, HID descriptor, report
  descriptor and the keyboard loop, in this order with nothing in between.\<close>
theorem keyboard_loop_after_enumeration:
  assumes "main_run C n (Usb_Hot_Plug, s) = Some (Key_Loop, s')"
  shows "\<exists>k. k + 11 \<le> n \<and>
    (\<forall>i < 11. \<exists>t. main_run C (k + 1 + i) (Usb_Hot_Plug, s) = Some (enum_order ! i, t))"
  using run_prefix [OF assms] by auto

section \<open>What holds in every reachable state\<close>

definition app_inv :: "label \<times> 'c app \<Rightarrow> bool" where
  "app_inv x \<longleftrightarrow> bus_idle (brd (snd x)) \<and>
     (fst x \<noteq> Usb_Hot_Plug \<longrightarrow> ready_vars (snd x))"

lemma app_inv_step:
  assumes "main_step C (l, s) = Some (l', s')" "app_inv (l, s)"
  shows "app_inv (l', s')"
proof -
  have idle: "bus_idle (brd s')"
    using main_step_idle [OF assms(1)] assms(2) by (simp add: app_inv_def)
  have "ready_vars s'" if "l' \<noteq> Usb_Hot_Plug"
  proof (cases l)
    case Usb_Hot_Plug
    then show ?thesis using assms(1) hot_plug_outcome [of C s l' s'] that by auto
  next
    case (Enum r)
    then show ?thesis
      using assms enum_outcome [of C r s l' s'] ready_same [of s s'] by (auto simp: app_inv_def)
  next
    case Device_Info
    then show ?thesis
      using assms device_info_outcome [of C s l' s'] by (simp add: app_inv_def ready_vars_def)
  next
    case Key_Loop
    then obtain t where t: "key_poll C s = Some t" "removal_check C t = Some (l', s')"
      using assms(1) by (auto simp: main_key_loop_def split: option.splits)
    show ?thesis
      using removal_outcome [OF t(2)] key_poll_outcome [OF t(1)] ready_same [of t s'] assms(2) Key_Loop
      by (simp add: app_inv_def ready_vars_def)
  qed
  with idle show ?thesis by (simp add: app_inv_def)
qed

text \<open>C9. In every reachable state of the application the host port is idle (no strobe of a bus
  cycle is left active), and from the start of the enumeration on the variables of the device
  detection hold the control register's address and the two line masks.\<close>
theorem reachable_inv:
  assumes "main_reach C s0 x"
  shows "bus_idle (brd (snd x)) \<and> (fst x \<noteq> Usb_Hot_Plug \<longrightarrow>
    ctl_reg (snd x) = 0xC08A \<and> no_device (snd x) = 0x3000 \<and> fs_device (snd x) = 0x2000)"
proof -
  have "app_inv x"
    using assms
  proof induction
    case entry
    then show ?case by (simp add: app_inv_def main_entry_def bus_idle_printf bus_idle_IO_init)
  next
    case (step x y)
    then show ?case using app_inv_step by (metis surj_pair)
  qed
  then show ?thesis by (simp add: app_inv_def ready_vars_def USB1_CTL_REG_def)
qed

section \<open>The keyboard loop\<close>

text \<open>C30. The keycode port, the only output to the game, is written by the keyboard loop alone:
  no other block changes it, so the game keeps the last key during an enumeration. The
  variable \<open>toggle\<close> is advanced by the keyboard loop alone, so it is not reset either when a
  keyboard is plugged in again.\<close>
theorem output_only_in_keyboard_loop:
  assumes "main_step C (l, s) = Some (l', s')"
  shows "(l \<noteq> Key_Loop \<longrightarrow> keycode_pio (brd s') = keycode_pio (brd s) \<and> toggle s' = toggle s) \<and>
    (l = Key_Loop \<longrightarrow> keycode_pio (brd s') = ucast (keycode s') \<and> toggle s' = toggle s + 1)"
proof (cases l)
  case Key_Loop
  then obtain t where t: "key_poll C s = Some t" "removal_check C t = Some (l', s')"
    using assms by (auto simp: main_key_loop_def split: option.splits)
  have "keycode_pio (brd s') = keycode_pio (brd t)"
    using keycode_kept.P_removal_check [OF t(2) refl] .
  then show ?thesis
    using removal_outcome [OF t(2)] key_poll_outcome [OF t(1)] Key_Loop by (simp add: same_vars_def)
next
  case Usb_Hot_Plug
  then show ?thesis using assms main_step_keycode_kept [OF assms] hot_plug_outcome [of C s l' s'] by simp
next
  case (Enum r)
  then show ?thesis
    using assms main_step_keycode_kept [OF assms] enum_outcome [of C r s l' s']
    by (simp add: same_vars_def)
next
  case Device_Info
  then show ?thesis
    using assms main_step_keycode_kept [OF assms] device_info_outcome [of C s l' s'] by simp
qed

lemma UsbRead_mem:
  assumes "otg_chip C V" "bus_idle b" "quiet V (chip_state b)" "user_ram a"
  shows "fst (UsbRead C a b) = mem V (chip_state b) a"
  using otg_load(1) [OF assms(1) bus_idle_IO_write [OF assms(2)] otg_address(3) [OF assms(1-3)]]
    otg_address [OF assms(1-3), of a] assms(4)
  by (simp add: UsbRead_def)

text \<open>The board at which a round of the loop finds its message, and the board when its list is done.\<close>

definition polled ::
  "'c chip \<Rightarrow> 'c app \<Rightarrow> 'c board \<Rightarrow> 'c board \<Rightarrow> bool" where
  "polled C s b b1 \<longleftrightarrow>
     (\<exists>v. issue_until_msg C (key_request (toggle s + 1) (data_size s) C)
            (key_request (toggle s + 1) (data_size s) C (brd s)) = Some (v, b)) \<and>
     UsbWaitTDListDone C b = Some (HUSB_TDListDone, b1)"

lemma polled_unique: "polled C s b b1 \<Longrightarrow> polled C s b' b1' \<Longrightarrow> b' = b \<and> b1' = b1"
  by (auto simp: polled_def)

lemma key_published:
  assumes "bus_idle (brd s)" "main_step C (Key_Loop, s) = Some (l, s')"
  shows "\<exists>b b1. polled C s b b1 \<and> bus_idle b1 \<and>
    keycode_pio (brd s') = fst (UsbRead C 0x051E b1)"
proof -
  obtain t where t: "key_poll C s = Some t" "removal_check C t = Some (l, s')"
    using assms(2) by (auto simp: main_key_loop_def split: option.splits)
  let ?req = "key_request (toggle s + 1) (data_size s) C"
  obtain v0 b v b1 k b2 where i: "issue_until_msg C ?req (?req (brd s)) = Some (v0, b)"
    and w: "UsbWaitTDListDone C b = Some (v, b1)" and k: "UsbRead C 0x051e b1 = (k, b2)"
    and kt: "keycode t = ucast k"
    using t(1) by (auto simp: key_poll_def Let_def split: option.splits prod.splits)
  have idle: "bus_idle b1"
    by (intro idle.P_UsbWaitTDListDone [OF w] idle.P_issue [OF i] idle.P_requests assms(1))
  have "keycode_pio (brd s') = keycode_pio (brd t)"
    using keycode_kept.P_removal_check [OF t(2) refl] .
  moreover have "v = HUSB_TDListDone"
    using while_option_exit [OF w [unfolded UsbWaitTDListDone_def]] by simp
  ultimately show ?thesis using i w k kt idle key_poll_outcome [OF t(1)] by (auto simp: polled_def)
qed

lemma key_published_mem:
  assumes "otg_chip C V" "bus_idle (brd s)" "main_step C (Key_Loop, s) = Some (l, s')"
    and "polled C s b b1" "quiet V (chip_state b1)"
  shows "keycode_pio (brd s') = mem V (chip_state b1) 0x051E"
proof -
  obtain c c1 where "polled C s c c1" "bus_idle c1" "keycode_pio (brd s') = fst (UsbRead C 0x051E c1)"
    using key_published [OF assms(2,3)] by blast
  with polled_unique [OF assms(4)] UsbRead_mem [OF assms(1) _ assms(5), of "0x051E"]
  show ?thesis by (simp add: user_ram_def)
qed

text \<open>C1. One round of the keyboard loop asks the keyboard and publishes its answer. The round starts
  the chip on a poll of the keyboard: one IN descriptor of endpoint 1, its data buffer at 0x051C,
  with the data toggle of the round. It sends the poll again until the chip raises a message, and
  waits until the list is done; \<open>b\<close> and \<open>b1\<close> are the boards at which these two waits of this round
  end. What the game then reads from the keycode port is the word that this round's chip holds at
  0x051E (bytes 2 and 3 of the report) when its list is done, if it is quiet then.\<close>
theorem keyboard_loop_publishes:
  assumes "otg_chip C V" "bus_idle (brd s)" "quiet V (chip_state (brd s))"
    and "main_step C (Key_Loop, s) = Some (l, s')"
  shows "\<exists>v b b1.
    loads_poll V (even (unat (toggle s + 1))) (0x000F AND ucast (data_size s))
      (chip_state (key_request (toggle s + 1) (data_size s) C (brd s))) \<and>
    issue_until_msg C (key_request (toggle s + 1) (data_size s) C)
      (key_request (toggle s + 1) (data_size s) C (brd s)) = Some (v, b) \<and>
    UsbWaitTDListDone C b = Some (HUSB_TDListDone, b1) \<and>
    (quiet V (chip_state b1) \<longrightarrow> keycode_pio (brd s') = mem V (chip_state b1) 0x051E)"
  using key_published [OF assms(2,4)] key_published_mem [OF assms(1,2,4)] key_request_loads [OF assms(1-3)]
  by (auto simp: polled_def)

text \<open>Consecutive polls of the keyboard alternate between the two data toggles, also when
  the eight-bit counter wraps from 255 to 0: the control words of two consecutive requests
  differ exactly in the toggle bit, and the rest of the descriptor is the same.\<close>
theorem key_toggle_alternates:
  "key_words (t + 1) n ! 3 = key_words t n ! 3 XOR 0x0040 \<and>
   (\<forall>i \<in> {0, 1, 2, 4, 5}. key_words (t + 1) n ! i = key_words t n ! i)"
proof -
  have "odd (unat (t + 1)) \<longleftrightarrow> even (unat t)"
    by (simp add: unat_word_ariths dvd_mod_iff)
  then show ?thesis by (simp add: key_words_def)
qed

theorem key_toggle_alternates_witness:
  "key_words (255 + 1) 8 ! 3 = key_words 255 8 ! 3 XOR 0x0040 \<and> key_words 0 8 ! 3 = 0x0041"
  using key_toggle_alternates [of 255 8] by (simp add: key_words_def)

text \<open>The reads of the port status register that are 5 ms apart, counted from 0, and the state of
  the program after one of them.\<close>

primrec status_read :: "'c chip \<Rightarrow> u16 \<Rightarrow> 'c board \<Rightarrow> nat \<Rightarrow> u16 \<times> 'c board" where
  "status_read C r b 0 = UsbRead C r b"
| "status_read C r b (Suc i) = UsbRead C r (usleep C 5000 (snd (status_read C r b i)))"

definition after_read :: "'c chip \<Rightarrow> 'c app \<Rightarrow> nat \<Rightarrow> 'c app" where
  "after_read C s i =
     s\<lparr>brd := snd (status_read C (ctl_reg s) (brd s) i), usb_ctl_val := fst (status_read C (ctl_reg s) (brd s) i)\<rparr>"

lemma recheck_reads:
  "\<exists>m. recheck n C (after_read C s j) = after_read C s m \<and> j \<le> m \<and> m \<le> j + n \<and>
     (\<forall>i. j < i \<longrightarrow> i < m \<longrightarrow> \<not> present (after_read C s i)) \<and>
     (m = j + n \<or> j < m \<and> present (after_read C s m))"
proof (induction n arbitrary: j)
  case 0
  then show ?case by (intro exI [of _ j]) simp
next
  case (Suc n)
  have step: "recheck (Suc n) C (after_read C s j) =
      (if present (after_read C s (Suc j)) then after_read C s (Suc j) else recheck n C (after_read C s (Suc j)))"
    by (simp add: after_read_def split_beta)
  show ?case
  proof (cases "present (after_read C s (Suc j))")
    case True
    then show ?thesis using step by (intro exI [of _ "Suc j"]) auto
  next
    case False
    from Suc [of "Suc j"] obtain m where m: "recheck n C (after_read C s (Suc j)) = after_read C s m"
      "Suc j \<le> m" "m \<le> Suc j + n" "\<forall>i. Suc j < i \<longrightarrow> i < m \<longrightarrow> \<not> present (after_read C s i)"
      "m = Suc j + n \<or> Suc j < m \<and> present (after_read C s m)" by blast
    moreover have "\<not> present (after_read C s i)" if "j < i" "i < m" for i
      using that False m(4) by (cases "i = Suc j") auto
    ultimately show ?thesis using step False by (intro exI [of _ m]) auto
  qed
qed

lemma removal_reads:
  assumes "removal_check C s = Some (l, s')"
  shows "if \<exists>i\<le>7. present (after_read C s i)
    then l = Key_Loop \<and> s' = after_read C s (LEAST i. present (after_read C s i))
    else l = Usb_Hot_Plug \<and> present s'"
proof -
  let ?P = "\<lambda>i. present (after_read C s i)"
  have r: "read_ctl C s = after_read C s 0" by (simp add: read_ctl_def after_read_def split_beta)
  obtain m where m: "recheck 7 C (after_read C s 0) = after_read C s m" "m \<le> 7"
    "\<forall>i. 0 < i \<longrightarrow> i < m \<longrightarrow> \<not> ?P i" "m = 7 \<or> 0 < m \<and> ?P m"
    using recheck_reads [of 7 C s 0] by auto
  note out = removal_outcome [OF assms, unfolded r m(1)]
  consider "?P 0" | "\<not> ?P 0" "?P m" | "\<not> ?P 0" "\<not> ?P m" by blast
  then show ?thesis
  proof cases
    case 1
    then have "(LEAST i. ?P i) = 0" "s' = after_read C s 0"
      using assms r by (auto intro: Least_eq_0 simp: removal_check_def Let_def)
    then show ?thesis using 1 out by (metis zero_le)
  next
    case 2
    have "(LEAST i. ?P i) = m"
    proof (rule Least_equality)
      fix i assume "?P i"
      with 2(1) m(3) show "m \<le> i" by (metis gr0I leI)
    qed (rule 2(2))
    moreover have "s' = after_read C s m"
      using assms 2 by (simp add: removal_check_def Let_def r m(1))
    ultimately show ?thesis using 2 out m(2) by metis
  next
    case 3
    have "\<not> ?P i" if "i \<le> 7" for i
      using that 3 m(3,4) by (cases "i = 0"; cases "i = m") auto
    then show ?thesis using 3 out by metis
  qed
qed

text \<open>C32. After each poll the program looks at the port status register, by reads that are 5 ms
  apart. If one of the first eight reads shows a device, the loop goes on at the first such
  read: that is the program's state, and the chip has seen no read after it. If none does, the
  keyboard is taken to be removed: the program starts over at USB_HOT_PLUG, and only once a
  device is seen again.\<close>
theorem removal_detected:
  assumes "removal_check C s = Some (l, s')"
  defines "read \<equiv> status_read C (ctl_reg s) (brd s)"
  defines "seen \<equiv> \<lambda>i. fst (read i) AND no_device s \<noteq> 0"
  shows "if \<exists>i\<le>7. seen i
    then l = Key_Loop \<and>
      s' = s\<lparr>brd := snd (read (LEAST i. seen i)), usb_ctl_val := fst (read (LEAST i. seen i))\<rparr>
    else l = Usb_Hot_Plug \<and> usb_ctl_val s' AND no_device s' \<noteq> 0"
proof -
  have "present (after_read C s i) = seen i" for i by (simp add: after_read_def seen_def read_def)
  then show ?thesis using removal_reads [OF assms(1)] by (simp add: after_read_def read_def)
qed

text \<open>The enumeration is started only when the port status register showed a device.\<close>
theorem enumeration_needs_device:
  assumes "main_step C (Usb_Hot_Plug, s) = Some (l, s')" "l \<noteq> Usb_Hot_Plug"
  shows "l = Enum Set_Address \<and> usb_ctl_val s' AND 0x3000 \<noteq> 0 \<and> toggle s' = toggle s"
  using assms hot_plug_outcome [of C s l s'] by (auto simp: ready_vars_def)

section \<open>The packet size\<close>

lemma packet_size_read:
  assumes "otg_chip C V" "bus_idle b" "quiet V (chip_state b)"
    and started: "\<And>c. quiet V c \<Longrightarrow> mem V c 0x057C = 0x0008 \<Longrightarrow>
      let c' = port_wr V 0 0x0576 (port_wr V 2 HUSB_SIE1_pCurrentTDPtr c)
      in quiet V c' \<and> mem V c' 0x057C AND 0xFF = mem V c 0x057C AND 0xFF"
  shows "fst (read_word C 0x057c (UsbWrite C HUSB_SIE1_pCurrentTDPtr 0x0576
    (IO_writes C [0x073F, 0x8105, 0x0003, 0x0008, 0xAC0A] (IO_write C HPI_ADDR 0x0576 b)))) AND 0xFF = 8"
    (is "fst (read_word C 0x057c ?b3) AND 0xFF = 8")
proof -
  let ?ws = "[0x073F, 0x8105, 0x0003, 0x0008, 0xAC0A] :: u16 list"
  let ?b1 = "IO_write C HPI_ADDR 0x0576 b"
  let ?b2 = "IO_writes C ?ws ?b1"
  note H = otg_chip_slave [OF assms(1)]
  note i1 = bus_idle_IO_write [OF assms(2), of C HPI_ADDR "0x0576"]
  note a1 = otg_address [OF assms(1-3), of "0x0576"]
  have ld: "quiet V (chip_state ?b2)"
    "mem_words (mem V (chip_state ?b2)) 0x0576 (length ?ws) = ?ws"
    using IO_writes_load [OF assms(1) i1 a1(3) a1(1), of ?ws] by (simp_all add: user_ram_def)
  have m: "mem V (chip_state ?b2) 0x057C = 0x0008"
    using ld(2) by (simp add: mem_words_def upt_rec)
  note i2 = IO_writes_idle [OF i1, of C ?ws]
  have "chip_state ?b3 = port_wr V 0 0x0576 (port_wr V 2 HUSB_SIE1_pCurrentTDPtr (chip_state ?b2))"
    using IO_write_chip [OF H bus_idle_IO_write [OF i2]] IO_write_chip [OF H i2]
    by (simp add: UsbWrite_def HPI_DATA_def HPI_ADDR_def)
  then have s3: "quiet V (chip_state ?b3)" "mem V (chip_state ?b3) 0x057C AND 0xFF = 8"
    using started [OF ld(1) m] m by (simp_all add: Let_def)
  have "fst (read_word C 0x057c ?b3) = mem V (chip_state ?b3) 0x057C"
    using UsbRead_mem [OF assms(1) UsbWrite_idle [OF i2] s3(1)]
    by (simp add: UsbRead_def read_word_def user_ram_def)
  then show ?thesis using s3(2) by simp
qed

text \<open>The key reports are always fetched with a length of 8: the endpoint descriptor at
  0x0576 is overwritten before its packet size is read from 0x057C, whatever the keyboard sent.
  The contract used: starting the chip on that address, where the word at 0x057C holds 8 (a
  descriptor that is not armed), leaves it quiet, and leaves the low byte of that word.\<close>
theorem packet_size_is_eight:
  assumes "otg_chip C V" "bus_idle (brd s)" "quiet V (chip_state (brd s))"
    and started: "\<And>c. quiet V c \<Longrightarrow> mem V c 0x057C = 0x0008 \<Longrightarrow>
      let c' = port_wr V 0 0x0576 (port_wr V 2 HUSB_SIE1_pCurrentTDPtr c)
      in quiet V c' \<and> mem V c' 0x057C AND 0xFF = mem V c 0x057C AND 0xFF"
  shows "data_size (snd (main_device_info C s)) = 8"
proof -
  let ?r = "read_word C 0x056c (brd s)"
  have q0: "quiet V (chip_state (snd ?r))"
    using otg_load(4) [OF assms(1) bus_idle_IO_write [OF assms(2)] otg_address(3) [OF assms(1-3)]]
      otg_address(1) [OF assms(1-3), of "0x056c"]
    by (simp add: read_word_def user_ram_def)
  have i: "bus_idle (printf f xs (printf g ys (snd ?r)))" and
    q: "quiet V (chip_state (printf f xs (printf g ys (snd ?r))))" for f xs g ys
    using idle.P_read_word [OF assms(2), of C "0x056c"] q0 by (simp_all add: idle_intros)
  note r = packet_size_read [OF assms(1) i q started]
  show ?thesis
    using r by (simp add: main_device_info_def Let_def split_beta IO_writes_def)
qed

section \<open>Arrival in the keyboard loop\<close>

text \<open>With a chip and a keyboard that meet \<open>usb_host\<close>, each block of the program goes on to the next.\<close>

lemma ready_idle: "host_ready V b \<Longrightarrow> bus_idle b"
  by (simp add: host_ready_def)

lemma ready_quiet: "host_ready V b \<Longrightarrow> quiet V (chip_state b)"
  by (simp add: host_ready_def)

lemmas ready_parts = ready_idle ready_quiet

lemma read_word_UsbRead: "read_word C a b = UsbRead C a b"
  by (simp add: read_word_def UsbRead_def)

lemma read_word_ram:
  assumes "otg_chip C V" "host_ready V b" "user_ram a"
  shows "fst (read_word C a b) = mem V (chip_state b) a"
    "mem V (chip_state (snd (read_word C a b))) = mem V (chip_state b)"
proof -
  note a1 = otg_address [OF assms(1) ready_parts [OF assms(2)], of a]
  note l = otg_load [OF assms(1) bus_idle_IO_write [OF ready_idle [OF assms(2)]] a1(3)]
  show "fst (read_word C a b) = mem V (chip_state b) a"
    "mem V (chip_state (snd (read_word C a b))) = mem V (chip_state b)"
    using l a1 assms(3) by (simp_all add: read_word_def)
qed

lemma host_control_word:
  assumes "usb_host C V W k" "host_ready V b"
  shows "fst (read_td_status C t u b) = mem V (chip_state b) 0x0508"
proof -
  note inv = host_inv [OF assms(1)]
  have r: "host_ready V (printf t [uint v] (snd (read_word C 0x0506 b)))" for v :: u16
    by (intro board_inv.P_printf [OF inv] board_inv.P_read_word [OF inv] assms(2))
  show ?thesis
    using read_word_ram(1) [OF usb_host_otg [OF assms(1)] r, of "0x0508"]
      read_word_ram(2) [OF usb_host_otg [OF assms(1)] assms(2), of "0x0506"]
    by (simp add: read_td_status_def split_beta user_ram_def Let_def)
qed

lemma host_transfer:
  assumes "usb_host C V W k" "host_ready V (brd s)"
    and "posted W (chip_state (req C (brd s))) \<and> mem V (chip_state (req C (brd s))) 0x0508 = 3"
    and "\<And>b. host_ready V b \<Longrightarrow> host_ready V (req C b)"
  shows "\<exists>s'. enum_transfer C req d t u fatal done_text nxt s = Some (nxt, s')"
proof -
  let ?b = "if d = 0 then req C (brd s) else usleep C d (req C (brd s))"
  have r: "host_ready V (req C (brd s))" by (rule assms(4) [OF assms(2)])
  have q: "quiet V (chip_state (req C (brd s)))" by (rule ready_quiet [OF r])
  have b: "host_ready V ?b" using r board_inv.P_usleep [OF host_inv [OF assms(1)] r] by simp
  have ram: "user_ram 0x0508" by (simp add: user_ram_def)
  have p: "posted W (chip_state ?b)" "mem V (chip_state ?b) 0x0508 = 3"
    using assms(3) host_flags(5) [OF assms(1) q] host_time [OF assms(1) q] ram by (auto simp: same_ram_def)
  obtain v b1 b2 where i: "issue_until_msg C (req C) ?b = Some (v, b1)"
    and w: "UsbWaitTDListDone C b1 = Some (HUSB_TDListDone, b2)" and b2: "host_ready V b2"
    "same_ram V (chip_state ?b) (chip_state b2)"
    using host_list_done [OF assms(1) b p(1)] by blast
  have "fst (read_td_status C t u b2) = 3"
    using host_control_word [OF assms(1) b2(1)] b2(2) p(2) ram by (simp add: same_ram_def)
  then show ?thesis using i w by (simp add: enum_transfer_def Let_def split_beta)
qed

lemma host_enum:
  assumes "usb_host C V W k" "host_ready V (brd s)"
  shows "\<exists>s'. main_step C (Enum r, s) = Some (after_enum r, s')"
proof -
  note inv = host_inv [OF assms(1)]
  note R = host_request [OF assms]
  note T =
    host_transfer [where req = UsbSetAddress, OF assms R [of Set_Address, simplified] board_inv.P_requests(1) [OF inv]]
    host_transfer [where req = UsbGetDeviceDesc1, OF assms R [of Device_Desc1, simplified] board_inv.P_requests(2) [OF inv]]
    host_transfer [where req = UsbGetDeviceDesc2, OF assms R [of Device_Desc2, simplified] board_inv.P_requests(3) [OF inv]]
    host_transfer [where req = UsbGetConfigDesc1, OF assms R [of Config_Desc1, simplified] board_inv.P_requests(4) [OF inv]]
    host_transfer [where req = UsbGetConfigDesc2, OF assms R [of Config_Desc2, simplified] board_inv.P_requests(5) [OF inv]]
    host_transfer [where req = UsbSetConfig, OF assms R [of Set_Config, simplified] board_inv.P_requests(6) [OF inv]]
    host_transfer [where req = UsbClassRequest, OF assms R [of Class_Request, simplified] board_inv.P_requests(7) [OF inv]]
    host_transfer [where req = UsbGetHidDesc, OF assms R [of Hid_Desc, simplified] board_inv.P_requests(8) [OF inv]]
  show ?thesis
  proof (cases r)
    case Report_Desc
    obtain s' where "enum_transfer C UsbGetReportDesc 0
        (line ''[ENUM PROCESS]: step 9 TD Status Byte is %x'')
        (line ''[ENUM PROCESS]: step 9 TD Control Byte is %x'') restarting
        (line ''---------------[ENUM PROCESS]:get descriptor (class 0x22) done!----------------'')
        Key_Loop s = Some (Key_Loop, s')"
      using host_transfer [where req = UsbGetReportDesc, OF assms R [of Report_Desc, simplified]]
        board_inv.P_requests(9) [OF inv] by blast
    then show ?thesis using Report_Desc by (simp add: main_report_desc_def)
  qed (use T in \<open>simp_all add: enum_defs\<close>)
qed

lemma host_device_seen:
  assumes "usb_host C V W k" "host_ready V (brd s)" "ctl_reg s = USB1_CTL_REG" "no_device s = 0x3000"
  shows "present (read_ctl C s)"
proof -
  note H = usb_host_slave [OF assms(1)]
  note b = ready_parts [OF assms(2)]
  let ?c = "port_wr V 2 USB1_CTL_REG (chip_state (brd s))"
  have "quiet V ?c" "mem_ptr V ?c = USB1_CTL_REG" by (rule host_view_steps [OF assms(1) b(2)])+
  then have "port_val V 0 ?c AND 0x3000 \<noteq> 0" by (rule host_lines [OF assms(1)])
  moreover have "fst (UsbRead C USB1_CTL_REG (brd s)) = port_val V 0 ?c"
    using IO_read_value [OF H bus_idle_IO_write [OF b(1)]] IO_write_chip [OF H b(1)]
    by (simp add: UsbRead_def HPI_DATA_def HPI_ADDR_def)
  ultimately show ?thesis using assms(3,4) by (simp add: read_ctl_def split_beta)
qed

lemma host_command:
  assumes "usb_host C V W k" "host_ready V b"
  defines "b1 \<equiv> IO_write C HPI_MAILBOX COMM_EXEC_INT b"
  shows "check_ack C b1 = (True, snd (IO_read C HPI_MAILBOX b1))"
    "poll_port C HPI_STATUS 0xFFFF f b1 = Some (IO_read C HPI_STATUS b1)"
    "check_ack C (snd (IO_read C HPI_STATUS b1)) = (True, snd (IO_read C HPI_MAILBOX (snd (IO_read C HPI_STATUS b1))))"
proof -
  note H = usb_host_slave [OF assms(1)]
  note inv = host_inv [OF assms(1)]
  have r1: "host_ready V b1" unfolding b1_def by (rule board_inv.P_write [OF inv assms(2)])
  have r2: "host_ready V (snd (IO_read C HPI_STATUS b1))" by (rule board_inv.P_read [OF inv r1])
  have "chip_state b1 = port_wr V 1 COMM_EXEC_INT (chip_state b)"
    using IO_write_chip [OF H ready_idle [OF assms(2)]] by (simp add: b1_def HPI_MAILBOX_def)
  then have a1: "acked W (chip_state b1)" using host_acks(1) [OF assms(1) ready_quiet [OF assms(2)]] by simp
  note q1 = ready_quiet [OF r1]
  have "chip_state (snd (IO_read C HPI_STATUS b1)) = port_rd V 3 (chip_state b1)"
    using IO_read_chip [OF H ready_idle [OF r1]] by (simp add: HPI_STATUS_def)
  then have a2: "acked W (chip_state (snd (IO_read C HPI_STATUS b1)))"
    using host_acks(4) [OF assms(1) q1 a1] by simp
  have m: "fst (IO_read C HPI_MAILBOX b2) = COMM_ACK" if "host_ready V b2" "acked W (chip_state b2)" for b2
    using IO_read_value [OF H ready_idle [OF that(1)]] host_acks(2) [OF assms(1) ready_quiet [OF that(1)] that(2)]
    by (simp add: HPI_MAILBOX_def)
  show "check_ack C b1 = (True, snd (IO_read C HPI_MAILBOX b1))"
    "check_ack C (snd (IO_read C HPI_STATUS b1)) = (True, snd (IO_read C HPI_MAILBOX (snd (IO_read C HPI_STATUS b1))))"
    using m [OF r1 a1] m [OF r2 a2] by (simp_all add: check_ack_def split_beta)
  have "fst (IO_read C HPI_STATUS b1) \<noteq> 0"
    using IO_read_value [OF H ready_idle [OF r1]] host_acks(3) [OF assms(1) q1 a1] by (simp add: HPI_STATUS_def)
  moreover have "v AND 0xFFFF = v" for v :: u16
  proof -
    have f: "(0xFFFF :: u16) = mask 16" by (simp add: mask_eq_exp_minus_1)
    show ?thesis unfolding f by (rule bit_word_eqI) (simp add: bit_simps)
  qed
  ultimately show "poll_port C HPI_STATUS 0xFFFF f b1 = Some (IO_read C HPI_STATUS b1)"
    by (simp add: poll_port_def split_beta while_option_zero)
qed

lemma host_hot_plug:
  assumes "usb_host C V W k" "host_ready V (brd s)"
  shows "\<exists>s'. main_step C (Usb_Hot_Plug, s) = Some (Enum Set_Address, s')"
proof -
  note inv = host_inv [OF assms(1)]
  let ?s = "step_1a C s"
  let ?b0 = "UsbWrite C COMM_INT_NUM HUSB_SIE1_INIT_INT (fold (\<lambda>r. UsbWrite C r 0x0000) COMM_R (brd ?s))"
  let ?b1 = "IO_write C HPI_MAILBOX COMM_EXEC_INT ?b0"
  have r0: "host_ready V ?b0"
    by (intro board_inv.P_UsbWrite [OF inv] board_inv.P_comm_regs [OF inv] board_inv.P_step_1a [OF inv] assms(2))
  note c = host_command [OF assms(1) r0]
  let ?b2 = "snd (IO_read C HPI_MAILBOX (snd (IO_read C HPI_STATUS ?b1)))"
  have b: "step_1b C (brd ?s) = Some (True, ?b2)"
    using c(2,3) by (simp add: step_1b_def Let_def split_beta)
  have r2: "host_ready V ?b2"
    by (intro board_inv.P_read [OF inv] board_inv.P_write [OF inv] r0)
  let ?b3 = "fold (\<lambda>r. UsbWrite C r 0x0000) (tl COMM_R) (UsbWrite C (hd COMM_R) 0x003c
    (UsbWrite C COMM_INT_NUM HUSB_RESET_INT (printf ''STEP 1 Complete'' [] ?b2)))"
  have r3: "host_ready V ?b3"
    by (intro board_inv.P_comm_regs [OF inv] board_inv.P_UsbWrite [OF inv] board_inv.P_printf [OF inv] r2)
  obtain b4 where d: "step_2 C ?b2 = (True, b4)"
    using host_command(1) [OF assms(1) r3] by (simp add: step_2_def Let_def)
  have r4: "host_ready V b4" by (rule board_inv.P_step_2 [OF inv d r2])
  have m: "A_DP_STAT OR A_DM_STAT = (0x3000 :: u16)" by (simp add: reg_defs)
  have "present (read_ctl C (?s\<lparr>brd := b4, ctl_reg := USB1_CTL_REG, no_device := 0x3000, fs_device := A_DP_STAT\<rparr>))"
    by (rule host_device_seen [OF assms(1)]) (use r4 in simp_all)
  then have "\<exists>s'. detect C (?s\<lparr>brd := b4\<rparr>) = Some (Enum Set_Address, s')"
    by (simp add: detect_def Let_def m)
  then show ?thesis using b d by (simp add: main_hot_plug_def Let_def)
qed

lemma host_polled:
  assumes "usb_host C V W k" "host_ready V (brd s)" "data_size s = 8"
  shows "\<exists>b b1. polled C s b b1 \<and> host_ready V b1 \<and> mem V (chip_state b1) 0x051E = k"
proof -
  let ?b = "key_request (toggle s + 1) (data_size s) C (brd s)"
  have r: "host_ready V ?b" by (rule board_inv.P_requests(10) [OF host_inv [OF assms(1)] assms(2)])
  have p: "posted W (chip_state ?b)" "mem V (chip_state ?b) 0x051E = k"
    using host_poll [OF assms(1,2), of "toggle s + 1"] assms(3) by simp_all
  have "user_ram 0x051E" by (simp add: user_ram_def)
  then show ?thesis
    using host_list_done [OF assms(1) r p(1), of "key_request (toggle s + 1) (data_size s) C"] p(2)
    unfolding polled_def same_ram_def by metis
qed

lemma host_key_loop:
  assumes "usb_host C V W k" "host_ready V (brd s)" "ready_vars s" "data_size s = 8"
  shows "\<exists>s'. main_step C (Key_Loop, s) = Some (Key_Loop, s') \<and> keycode_pio (brd s') = k \<and>
    host_ready V (brd s') \<and> data_size s' = 8"
proof -
  note inv = host_inv [OF assms(1)]
  obtain v b b1 where i: "issue_until_msg C (key_request (toggle s + 1) (data_size s) C)
      (key_request (toggle s + 1) (data_size s) C (brd s)) = Some (v, b)"
    and w: "UsbWaitTDListDone C b = Some (HUSB_TDListDone, b1)"
    and b1: "polled C s b b1" "host_ready V b1" "mem V (chip_state b1) 0x051E = k"
    using host_polled [OF assms(1,2,4)] unfolding polled_def by blast
  obtain t where t: "key_poll C s = Some t"
    using i w by (simp add: key_poll_def Let_def split_beta)
  have ok: "host_ready V b \<Longrightarrow> host_ready V (keycode_base x b)" for b x
    by (simp add: host_ready_def bus_idle_keycode) (simp add: keycode_base_def)
  have rt: "host_ready V (brd t)"
    using t i w board_inv.P_usleep [OF inv ok [OF board_inv.P_printf [OF inv board_inv.P_UsbRead [OF inv b1(2)]]]]
    by (auto simp: key_poll_def Let_def split_beta)
  have "present (read_ctl C t)"
    by (rule host_device_seen [OF assms(1) rt])
      (use key_poll_outcome [OF t] assms(3) in \<open>simp_all add: ready_vars_def\<close>)
  then have s': "main_step C (Key_Loop, s) = Some (Key_Loop, read_ctl C t)"
    using t by (simp add: main_key_loop_def removal_check_def)
  moreover have "keycode_pio (brd (read_ctl C t)) = k"
    using key_published_mem [OF usb_host_otg [OF assms(1)] ready_idle [OF assms(2)] s' b1(1) ready_quiet [OF b1(2)]]
      b1(3) by simp
  moreover have "host_ready V (brd (read_ctl C t))" by (rule board_inv.P_read_ctl [OF inv rt])
  moreover have "data_size (read_ctl C t) = 8"
    using key_poll_outcome [OF t] assms(4) by (simp add: read_ctl_def split_beta)
  ultimately show ?thesis by blast
qed

lemma host_packet_size:
  assumes "usb_host C V W k" "host_ready V (brd s)"
  shows "data_size (snd (main_device_info C s)) = 8"
proof -
  have s: "let c' = port_wr V 0 0x0576 (port_wr V 2 HUSB_SIE1_pCurrentTDPtr c)
      in quiet V c' \<and> mem V c' 0x057C AND 0xFF = mem V c 0x057C AND 0xFF"
    if "quiet V c" "mem V c 0x057C = 0x0008" for c
    using host_unarmed [OF assms(1) that] by (simp add: Let_def)
  show ?thesis by (rule packet_size_is_eight [OF usb_host_otg [OF assms(1)] ready_parts [OF assms(2)] s])
qed

definition host_app :: "'c otg_view \<Rightarrow> label \<times> 'c app \<Rightarrow> bool" where
  "host_app V x \<longleftrightarrow> app_inv x \<and> host_ready V (brd (snd x)) \<and>
     (7 \<le> stage (fst x) \<longrightarrow> data_size (snd x) = 8)"

lemma host_progress:
  assumes "usb_host C V W k" "host_app V (l, s)"
  shows "\<exists>l' s'. main_step C (l, s) = Some (l', s') \<and> host_app V (l', s') \<and>
    stage l' = min 11 (stage l + 1) \<and> (l = Key_Loop \<longrightarrow> keycode_pio (brd s') = k)"
proof -
  note inv = host_inv [OF assms(1)]
  have A: "app_inv (l, s)" "host_ready V (brd s)" "7 \<le> stage l \<longrightarrow> data_size s = 8"
    using assms(2) by (simp_all add: host_app_def)
  have "\<exists>l' s'. main_step C (l, s) = Some (l', s') \<and> stage l' = min 11 (stage l + 1) \<and>
      host_ready V (brd s') \<and> (7 \<le> stage l' \<longrightarrow> data_size s' = 8) \<and>
      (l = Key_Loop \<longrightarrow> keycode_pio (brd s') = k)"
  proof (cases l)
    case Usb_Hot_Plug
    then show ?thesis
      using host_hot_plug [OF assms(1) A(2)] board_inv.P_main_step [OF inv _ A(2)] by fastforce
  next
    case (Enum r)
    then obtain s' where m: "main_step C (Enum r, s) = Some (after_enum r, s')"
      using host_enum [OF assms(1) A(2)] by blast
    have "host_ready V (brd s')" by (rule board_inv.P_main_step [OF inv m A(2)]) simp
    moreover have "data_size s' = data_size s" using enum_outcome [OF m] by (simp add: same_vars_def)
    moreover have "stage (Enum r) \<noteq> 6" by (cases r) simp_all
    ultimately show ?thesis
      using m Enum A(3) stage_after_enum [of r] stage_le [of "after_enum r"] by (intro exI) auto
  next
    case Device_Info
    obtain s' where m: "main_device_info C s = (Enum Set_Config, s')"
      using device_info_outcome [of C s] by (cases "main_device_info C s") auto
    then show ?thesis
      using Device_Info host_packet_size [OF assms(1) A(2)] board_inv.P_main_device_info [OF inv A(2)] by simp
  next
    case Key_Loop
    then show ?thesis
      using host_key_loop [OF assms(1) A(2)] A(1,3) by (fastforce simp: app_inv_def)
  qed
  then show ?thesis using app_inv_step A(1) unfolding host_app_def by fastforce
qed

lemma host_entry:
  assumes "usb_host C V W k"
  shows "host_app V (main_entry C s)"
proof -
  have "quiet V (chip_state (IO_init C (brd s)))"
    using assms by (simp add: usb_host_def host_registers_def)
  then show ?thesis
    by (simp add: main_entry_def host_app_def app_inv_def host_ready_def bus_idle_printf bus_idle_IO_init)
qed

lemma host_run:
  assumes "usb_host C V W k"
  shows "\<exists>l s'. main_run C n (main_entry C s) = Some (l, s') \<and> host_app V (l, s') \<and> stage l = min 11 n \<and>
    (11 < n \<longrightarrow> keycode_pio (brd s') = k)"
proof (induction n)
  case 0
  then show ?case using host_entry [OF assms, of s] by (simp add: main_entry_def)
next
  case (Suc n)
  then obtain l s' where n: "main_run C n (main_entry C s) = Some (l, s')" "host_app V (l, s')"
    "stage l = min 11 n" by blast
  moreover have "l = Key_Loop" if "11 < Suc n" using that n(3) stage_key_loop [of l] by simp
  ultimately show ?case
    using host_progress [OF assms n(2)] by (auto simp: main_run_snoc simp del: main_run.simps)
qed


section \<open>The hypotheses can be met\<close>

definition demo_app :: "host_state app" where
  "demo_app = \<lparr>brd = host_board, intStat = 0, usb_ctl_val = 0, ctl_reg = USB1_CTL_REG,
     no_device = 0x3000, fs_device = 0x2000, keycode = 0, toggle = 0, data_size = 8, code = 1\<rparr>"

lemmas demo_progress = host_progress [OF host_chip_ok]

lemma demo_ready: "host_ready (host_otg k) (brd demo_app)"
  by (simp add: demo_app_def host_board_ready)

lemma demo_host_app: "host_app (host_otg k) (l, demo_app)"
  using demo_ready [of k]
  by (simp add: host_app_def app_inv_def ready_idle) (simp add: demo_app_def ready_vars_def)


theorem enumeration_step_outcome_witness:
  "\<exists>l s'. main_step (host_chip 0) (Enum Hid_Desc, demo_app) = Some (l, s') \<and>
     l = Enum Report_Desc \<and> usb_ctl_val s' = 3"
proof -
  obtain l s' where m: "main_step (host_chip 0) (Enum Hid_Desc, demo_app) = Some (l, s')" "stage l = 10"
    using demo_progress [OF demo_host_app, where l = "Enum Hid_Desc" and k = 0] by auto
  then show ?thesis using enumeration_step_outcome [OF m(1)] by auto
qed

theorem keyboard_loop_after_enumeration_witness:
  "\<exists>k. \<forall>i < 11. \<exists>t. main_run (host_chip 0) (k + 1 + i) (main_entry (host_chip 0) demo_app) =
     Some (enum_order ! i, t)"
proof -
  obtain s where s: "main_entry (host_chip 0) demo_app = (Usb_Hot_Plug, s)" by (simp add: main_entry_def)
  obtain s' where "main_run (host_chip 0) 11 (Usb_Hot_Plug, s) = Some (Key_Loop, s')"
    using host_run [OF host_chip_ok, where n = 11 and s = demo_app and k = 0] stage_key_loop s by fastforce
  from keyboard_loop_after_enumeration [OF this] show ?thesis using s by auto
qed

theorem reachable_inv_witness:
  "\<exists>x. main_reach (host_chip 0) demo_app x \<and> fst x = Enum Set_Address \<and> ctl_reg (snd x) = 0xC08A"
proof -
  let ?e = "main_entry (host_chip 0) demo_app"
  have e: "main_reach (host_chip 0) demo_app ?e" by (rule main_reach.entry)
  obtain l s' where m: "main_step (host_chip 0) ?e = Some (l, s')" "stage l = 1"
    using demo_progress [where l = "fst ?e" and s = "snd ?e" and k = 0] host_entry [OF host_chip_ok, where k = 0 and s = demo_app]
    by (auto simp: main_entry_def)
  have l: "l = Enum Set_Address" using stage_order [of l] m(2) by (simp add: enum_order_def)
  have r: "main_reach (host_chip 0) demo_app (l, s')" by (rule main_reach.step [OF e m(1)])
  show ?thesis using reachable_inv [OF r] r l by (intro exI [of _ "(l, s')"]) simp
qed

lemma demo_key_step:
  "\<exists>s'. main_step (host_chip k) (Key_Loop, demo_app) = Some (Key_Loop, s') \<and> keycode_pio (brd s') = k"
  using demo_progress [OF demo_host_app, where l = Key_Loop and k = k] stage_key_loop by auto

theorem output_only_in_keyboard_loop_witness:
  "\<exists>s'. main_step (host_chip 0x0050) (Key_Loop, demo_app) = Some (Key_Loop, s') \<and> toggle s' = 1 \<and>
     keycode s' AND 0xFFFF = 0x0050"
proof -
  obtain s' where m: "main_step (host_chip 0x0050) (Key_Loop, demo_app) = Some (Key_Loop, s')"
    "keycode_pio (brd s') = 0x0050"
    using demo_key_step by blast
  have "(ucast (keycode s') :: u16) = 0x0050 \<and> toggle s' = 1"
    using output_only_in_keyboard_loop [OF m(1)] m(2) by (simp add: demo_app_def)
  moreover have "keycode s' AND 0xFFFF = ucast (ucast (keycode s') :: u16)"
  proof -
    have f: "(0xFFFF :: u32) = mask 16" by (simp add: mask_eq_exp_minus_1)
    show ?thesis unfolding f by (rule bit_word_eqI) (auto simp: bit_simps)
  qed
  ultimately show ?thesis using m(1) by auto
qed

theorem keyboard_loop_publishes_witness:
  "\<exists>s' v b b1. main_step (host_chip 0x0050) (Key_Loop, demo_app) = Some (Key_Loop, s') \<and>
     issue_until_msg (host_chip 0x0050) (key_request 1 8 (host_chip 0x0050))
       (key_request 1 8 (host_chip 0x0050) host_board) = Some (v, b) \<and>
     UsbWaitTDListDone (host_chip 0x0050) b = Some (HUSB_TDListDone, b1) \<and>
     h_ram (chip_state b1) 0x051E = 0x0050 \<and> keycode_pio (brd s') = 0x0050"
proof -
  let ?C = "host_chip 0x0050" and ?V = "host_otg 0x0050"
  obtain s' where m: "main_step ?C (Key_Loop, demo_app) = Some (Key_Loop, s')" "keycode_pio (brd s') = 0x0050"
    using demo_key_step by blast
  have d: "toggle demo_app = 0" "data_size demo_app = 8" "brd demo_app = host_board" by (simp_all add: demo_app_def)
  have q: "quiet ?V c" "mem ?V c = h_ram c" for c by (simp_all add: host_otg_def)
  show ?thesis
    using keyboard_loop_publishes [OF host_chip_otg ready_idle [OF demo_ready] q(1) m(1)] m
    by (auto simp: d q)
qed

lemma loop_goes_on:
  "present (recheck 7 C (read_ctl C s)) \<Longrightarrow> \<exists>s'. removal_check C s = Some (Key_Loop, s')"
  by (cases "present (read_ctl C s)") (simp_all add: removal_check_def Let_def)

text \<open>A chip that shows a device at the fourth look.\<close>

definition late_app :: "nat app" where
  "late_app = \<lparr>brd = late_board, intStat = 0, usb_ctl_val = 0, ctl_reg = USB1_CTL_REG,
     no_device = 0x3000, fs_device = 0x2000, keycode = 0, toggle = 0, data_size = 8, code = 1\<rparr>"

lemma late_read:
  "bus_idle b \<Longrightarrow> fst (UsbRead late_chip a b) = (if chip_state b = 0 then HUSB_TDListDone else 0) \<and>
    chip_state (snd (UsbRead late_chip a b)) = chip_state b - 1 \<and> bus_idle (snd (UsbRead late_chip a b))"
  by (simp add: UsbRead_def IO_read_value [OF late_slave] IO_read_chip [OF late_slave] IO_write_chip [OF late_slave]
      idle_intros)

lemma late_status:
  "chip_state (snd (status_read late_chip r late_board i)) = 3 - Suc i \<and>
   bus_idle (snd (status_read late_chip r late_board i)) \<and>
   fst (status_read late_chip r late_board i) = (if 3 \<le> i then HUSB_TDListDone else 0)"
proof (induction i)
  case 0
  then show ?case using late_read [OF late_idle] by (simp add: late_board_def)
next
  case (Suc i)
  let ?b = "usleep late_chip 5000 (snd (status_read late_chip r late_board i))"
  have "bus_idle ?b" using Suc by (simp add: bus_idle_usleep)
  moreover have "chip_state ?b = 3 - Suc i" using Suc by (simp add: late_chip_def)
  ultimately show ?case using late_read [of ?b r] by auto
qed

theorem removal_detected_witness:
  "\<exists>s'. removal_check late_chip late_app = Some (Key_Loop, s') \<and>
     brd s' = snd (status_read late_chip USB1_CTL_REG late_board 3) \<and> usb_ctl_val s' = HUSB_TDListDone"
proof -
  have m: "HUSB_TDListDone AND 0x3000 \<noteq> 0" by (simp add: HUSB_TDListDone_def)
  have seen: "present (after_read late_chip late_app i) \<longleftrightarrow> 3 \<le> i" for i
    using late_status [of USB1_CTL_REG i] m by (simp add: after_read_def late_app_def)
  obtain j where "recheck 7 late_chip (after_read late_chip late_app 0) = after_read late_chip late_app j"
    "j = 7 \<or> 0 < j \<and> present (after_read late_chip late_app j)"
    using recheck_reads [of 7 late_chip late_app 0] by auto
  then have "present (recheck 7 late_chip (read_ctl late_chip late_app))"
    using seen [of j] by (auto simp: read_ctl_def after_read_def split_beta)
  then have "\<exists>s'. removal_check late_chip late_app = Some (Key_Loop, s')" by (rule loop_goes_on)
  then obtain s' where s': "removal_check late_chip late_app = Some (Key_Loop, s')" by blast
  have l: "(LEAST i. fst (status_read late_chip (ctl_reg late_app) (brd late_app) i) AND no_device late_app \<noteq> 0) = 3"
    using seen by (intro Least_equality) (simp_all add: after_read_def)
  show ?thesis
    using removal_detected [OF s', unfolded l] s' late_status [of USB1_CTL_REG 3]
    by (auto simp: late_app_def split: if_splits)
qed

theorem enumeration_needs_device_witness:
  "\<exists>s'. main_step (host_chip 0) (Usb_Hot_Plug, demo_app) = Some (Enum Set_Address, s') \<and>
     usb_ctl_val s' AND 0x3000 \<noteq> 0"
proof -
  obtain s' where m: "main_step (host_chip 0) (Usb_Hot_Plug, demo_app) = Some (Enum Set_Address, s')"
    using host_hot_plug [OF host_chip_ok demo_ready] by blast
  then show ?thesis using enumeration_needs_device [OF m] by simp
qed

theorem packet_size_is_eight_witness:
  "data_size (snd (main_device_info (host_chip 0) demo_app)) = 8"
proof (rule packet_size_is_eight [OF host_chip_otg [of 0] ready_idle [OF demo_ready]])
  show "quiet (host_otg 0) (chip_state (brd demo_app))" by (simp add: host_otg_def)
  fix c
  assume "quiet (host_otg 0) c" "mem (host_otg 0) c 0x057C = 0x0008"
  from host_unarmed [OF host_chip_ok this]
  show "let c' = port_wr (host_otg 0) 0 0x0576 (port_wr (host_otg 0) 2 HUSB_SIE1_pCurrentTDPtr c)
    in quiet (host_otg 0) c' \<and> mem (host_otg 0) c' 0x057C AND 0xFF = mem (host_otg 0) c 0x057C AND 0xFF"
    by (simp add: Let_def)
qed

end
