(* ===== verification/Chip_Tables.thy ===== *)
theory Chip_Tables
  imports Chip_Regs
begin

text \<open>
  The register map of the USB chip (cy7c67200.h) around the constants that the application uses: the
  registers of the two serial interface engines, the endpoint registers, the fields of the
  registers the application reads and writes in both spellings the header has for them, and the
  interrupts of the chip. A table has the names and values of its macros, in their order.
\<close>

section \<open>Registers of the two serial interface engines\<close>

text \<open>Each register exists once for either engine: the two addresses.\<close>

definition USBn_CTL :: "u16 \<times> u16" where "USBn_CTL = (0xC08A, 0xC0AA)"
definition HOSTn_IRQ_EN :: "u16 \<times> u16" where "HOSTn_IRQ_EN = (0xC08C, 0xC0AC)"
definition HOSTn_STAT :: "u16 \<times> u16" where "HOSTn_STAT = (0xC090, 0xC0B0)"
definition HOSTn_CTL :: "u16 \<times> u16" where "HOSTn_CTL = (0xC080, 0xC0A0)"
definition HOSTn_ADDR :: "u16 \<times> u16" where "HOSTn_ADDR = (0xC082, 0xC0A2)"
definition HOSTn_CNT :: "u16 \<times> u16" where "HOSTn_CNT = (0xC084, 0xC0A4)"
definition HOSTn_PID :: "u16 \<times> u16" where "HOSTn_PID = (0xC086, 0xC0A6)"
definition HOSTn_EP_STAT :: "u16 \<times> u16" where "HOSTn_EP_STAT = (0xC086, 0xC0A6)"
definition HOSTn_DEV_ADDR :: "u16 \<times> u16" where "HOSTn_DEV_ADDR = (0xC088, 0xC0A8)"
definition HOSTn_CTR :: "u16 \<times> u16" where "HOSTn_CTR = (0xC088, 0xC0A8)"
definition HOSTn_SOF_EOP_CNT :: "u16 \<times> u16" where "HOSTn_SOF_EOP_CNT = (0xC092, 0xC0B2)"
definition HOSTn_SOF_EOP_CTR :: "u16 \<times> u16" where "HOSTn_SOF_EOP_CTR = (0xC094, 0xC0B4)"
definition HOSTn_FRAME :: "u16 \<times> u16" where "HOSTn_FRAME = (0xC096, 0xC0B6)"
definition DEVn_SEL :: "u16 \<times> u16" where "DEVn_SEL = (0xC084, 0xC0A4)"
definition DEVn_IRQ_EN :: "u16 \<times> u16" where "DEVn_IRQ_EN = (0xC08C, 0xC0AC)"
definition DEVn_STAT :: "u16 \<times> u16" where "DEVn_STAT = (0xC090, 0xC0B0)"
definition DEVn_ADDR :: "u16 \<times> u16" where "DEVn_ADDR = (0xC08E, 0xC0AE)"
definition DEVn_FRAME :: "u16 \<times> u16" where "DEVn_FRAME = (0xC092, 0xC0B2)"

text \<open>The endpoint registers: for each of the two devices, endpoints 0 to 7.\<close>

definition DEVn_EPm_CTL :: "u16 list list" where
  "DEVn_EPm_CTL = [
     [0x0200, 0x0210, 0x0220, 0x0230, 0x0240, 0x0250, 0x0260, 0x0270],
     [0x0280, 0x0290, 0x02A0, 0x02B0, 0x02C0, 0x02D0, 0x02E0, 0x02F0]]"

definition DEVn_EPm_ADDR :: "u16 list list" where
  "DEVn_EPm_ADDR = [
     [0x0202, 0x0212, 0x0222, 0x0232, 0x0242, 0x0252, 0x0262, 0x0272],
     [0x0282, 0x0292, 0x02A2, 0x02B2, 0x02C2, 0x02D2, 0x02E2, 0x02F2]]"

definition DEVn_EPm_CNT :: "u16 list list" where
  "DEVn_EPm_CNT = [
     [0x0204, 0x0214, 0x0224, 0x0234, 0x0244, 0x0254, 0x0264, 0x0274],
     [0x0284, 0x0294, 0x02A4, 0x02B4, 0x02C4, 0x02D4, 0x02E4, 0x02F4]]"

definition DEVn_EPm_STAT :: "u16 list list" where
  "DEVn_EPm_STAT = [
     [0x0206, 0x0216, 0x0226, 0x0236, 0x0246, 0x0256, 0x0266, 0x0276],
     [0x0286, 0x0296, 0x02A6, 0x02B6, 0x02C6, 0x02D6, 0x02E6, 0x02F6]]"

definition DEVn_EPm_CTR :: "u16 list list" where
  "DEVn_EPm_CTR = [
     [0x0208, 0x0218, 0x0228, 0x0238, 0x0248, 0x0258, 0x0268, 0x0278],
     [0x0288, 0x0298, 0x02A8, 0x02B8, 0x02C8, 0x02D8, 0x02E8, 0x02F8]]"

section \<open>Fields\<close>

text \<open>The fields of a register by the names of the data sheet, and the masks by which the chip's own
  software calls the same bits (the names with \<open>bm\<close>).\<close>

definition IRQ_EN_fields :: "(string \<times> u16) list" where
  "IRQ_EN_fields = [
     (''OTG_IRQ_EN'', 0x1000), (''SPI_IRQ_EN'', 0x0800), (''HOST2_IRQ_EN'', 0x0200),
     (''DEV2_IRQ_EN'', 0x0200), (''HOST1_IRQ_EN'', 0x0100), (''DEV1_IRQ_EN'', 0x0100),
     (''HSS_IRQ_EN'', 0x0080), (''IN_MBX_IRQ_EN'', 0x0040), (''OUT_MBX_IRQ_EN'', 0x0020),
     (''DMA_IRQ_EN'', 0x0010), (''UART_IRQ_EN'', 0x0008), (''GPIO_IRQ_EN'', 0x0004),
     (''TMR1_IRQ_EN'', 0x0002), (''TMR0_IRQ_EN'', 0x0001)]"

definition IRQ_EN_bits :: "(string \<times> u16) list" where
  "IRQ_EN_bits = [
     (''bmINT_EN_TM0'', 0x0001), (''bmINT_EN_TM1'', 0x0002), (''bmINT_EN_GPIO'', 0x0004),
     (''bmINT_EN_UART'', 0x0008), (''bmINT_EN_DMA'', 0x0010), (''bmINT_EN_MBX_OUT'', 0x0020),
     (''bmINT_EN_MBX_IN'', 0x0040), (''bmINT_EN_HSP'', 0x0080), (''bmINT_EN_SIE1'', 0x0100),
     (''bmINT_EN_SIE2'', 0x0200), (''bmINT_EN_SPI'', 0x0800), (''bmINT_EN_OTG'', 0x1000)]"

definition USB_CTL_fields :: "(string \<times> u16) list" where
  "USB_CTL_fields = [
     (''B_DP_STAT'', 0x8000), (''B_DM_STAT'', 0x4000), (''A_DP_STAT'', 0x2000),
     (''A_DM_STAT'', 0x1000), (''B_SPEED_SEL'', 0x0800), (''A_SPEED_SEL'', 0x0400),
     (''MODE_SEL'', 0x0200), (''B_RES_EN'', 0x0100), (''A_RES_EN'', 0x0080),
     (''B_FORCE_SEL'', 0x0060), (''A_FORCE_SEL'', 0x0018), (''SUSP_EN'', 0x0004),
     (''B_SOF_EOP_EN'', 0x0002), (''A_SOF_EOP_EN'', 0x0001)]"

definition USB_CTL_bits :: "(string \<times> u16) list" where
  "USB_CTL_bits = [
     (''bmHOST_CTL1_SOF0'', 0x0001), (''bmHOST_CTL1_SOF1'', 0x0002),
     (''bmHOST_CTL1_SUSPEND'', 0x0004), (''bmHOST_CTL1_JKState0'', 0x0008),
     (''bmHOST_CTL1_USBReset0'', 0x0010), (''bmHOST_CTL1_JKState1'', 0x0020),
     (''bmHOST_CTL1_USBReset1'', 0x0040), (''bmHOST_CTL1_UD0'', 0x0080),
     (''bmHOST_CTL1_UD1'', 0x0100), (''bmHOST_CTL1_HOST'', 0x0200), (''bmHOST_CTL1_LOA'', 0x0400),
     (''bmHOST_CTL1_LOB'', 0x0800), (''bmHOST_CTL1_D0m'', 0x1000), (''bmHOST_CTL1_D0p'', 0x2000),
     (''bmHOST_CTL1_D1m'', 0x4000), (''bmHOST_CTL1_D1p'', 0x8000)]"

definition HOST_IRQ_EN_fields :: "(string \<times> u16) list" where
  "HOST_IRQ_EN_fields = [
     (''VBUS_IRQ_EN'', 0x8000), (''ID_IRQ_EN'', 0x4000), (''SOF_EOP_IRQ_EN'', 0x0200),
     (''B_WAKE_IRQ_EN'', 0x0080), (''A_WAKE_IRQ_EN'', 0x0040), (''B_CHG_IRQ_EN'', 0x0020),
     (''A_CHG_IRQ_EN'', 0x0010), (''DONE_IRQ_EN'', 0x0001)]"

definition HOST_IRQ_EN_bits :: "(string \<times> u16) list" where
  "HOST_IRQ_EN_bits = [
     (''bmHOST_INTEN_XFERDONE'', 0x0001), (''bmHOST_INTEN_INSRMV0'', 0x0010),
     (''bmHOST_INTEN_INSRMV1'', 0x0020), (''bmHOST_INTEN_WAKEUP0'', 0x0040),
     (''bmHOST_INTEN_WAKEUP1'', 0x0080), (''bmHOST_INTEN_SOFINTR'', 0x0200),
     (''bmHOST_INTEN_IEXP'', 0x0400), (''bmHOST_INTEN_OTG_ID'', 0x4000),
     (''bmHOST_INTEN_OTG_44V'', 0x8000)]"

definition HOST_STAT_fields :: "(string \<times> u16) list" where
  "HOST_STAT_fields = [
     (''VBUS_IRQ_FLG'', 0x8000), (''ID_IRQ_FLG'', 0x4000), (''SOF_EOP_IRQ_FLG'', 0x0200),
     (''B_WAKE_IRQ_FLG'', 0x0080), (''A_WAKE_IRQ_FLG'', 0x0040), (''B_CHG_IRQ_FLG'', 0x0020),
     (''A_CHG_IRQ_FLG'', 0x0010), (''B_SE0_STAT'', 0x0008), (''A_SE0_STAT'', 0x0004),
     (''DONE_IRQ_FLG'', 0x0001)]"

definition HOST_STAT_bits :: "(string \<times> u16) list" where
  "HOST_STAT_bits = [
     (''bmHOST_INT_XFERDONE'', 0x0001), (''bmHOST_INT_USBRST0'', 0x0004),
     (''bmHOST_INT_USBRST1'', 0x0008), (''bmHOST_INT_INSRMV0'', 0x0010),
     (''bmHOST_INT_INSRMV1'', 0x0020), (''bmHOST_INT_WAKEUP0'', 0x0040),
     (''bmHOST_INT_WAKEUP1'', 0x0080), (''bmHOST_INT_SOFINTR'', 0x0200),
     (''bmHOST_INT_OTG_ID'', 0x4000), (''bmHOST_INT_OTG_44V'', 0x8000)]"

definition HPI_ROUTING_fields :: "(string \<times> u16) list" where
  "HPI_ROUTING_fields = [
     (''VBUS_TO_HPI_EN'', 0x8000), (''ID_TO_HPI_EN'', 0x4000), (''SOFEOP2_TO_CPU_EN'', 0x1000),
     (''SOFEOP2_TO_HPI_EN'', 0x2000), (''SOFEOP1_TO_CPU_EN'', 0x0400),
     (''SOFEOP1_TO_HPI_EN'', 0x0800), (''RST2_TO_HPI_EN'', 0x0200), (''HPI_SWAP_1_EN'', 0x0100),
     (''RESUME2_TO_HPI_EN'', 0x0080), (''RESUME1_TO_HPI_EN'', 0x0040),
     (''DONE2_TO_HPI_EN'', 0x0008), (''DONE1_TO_HPI_EN'', 0x0004), (''RST1_TO_HPI_EN'', 0x0002),
     (''HPI_SWAP_0_EN'', 0x0001)]"

definition HPI_ROUTING_aliases :: "(string \<times> u16) list" where
  "HPI_ROUTING_aliases = [
     (''HOST2_SOEOP_TO_HPI_EN'', 0x1000), (''HOST1_SOFEOP_TO_HPI_EN'', 0x0400),
     (''DEVICE2_SOFEOP_TO_HPI_EN'', 0x1000), (''DEVICE1_SOFEOP_TO_HPI_EN'', 0x0400),
     (''HOST2_SOFEOP_TO_CPU_EN'', 0x2000), (''HOST1_SOFEOP_TO_CPU_EN'', 0x0800),
     (''DEVICE2_SOFEOP_TO_CPU_EN'', 0x2000), (''DEVICE1_SOFEOP_TO_CPU_EN'', 0x0800),
     (''HOST2_RESUME_TO_HPI_EN'', 0x0080), (''HOST1_RESUME_TO_HPI_EN'', 0x0040),
     (''DEVICE2_RESUME_TO_HPI_EN'', 0x0080), (''DEVICE1_RESUME_TO_HPI_EN'', 0x0040),
     (''HOST2_DONE_TO_HPI_EN'', 0x0008), (''HOST1_DONE_TO_HPI_EN'', 0x0004),
     (''DEVICE2_DONE_TO_HPI_EN'', 0x0008), (''DEVICE1_DONE_TO_HPI_EN'', 0x0004)]"

text \<open>Fields given both by the number of their bit and by their mask.\<close>

definition GIO_IntCtl_bits :: "(string \<times> u16 \<times> u16) list" where
  "GIO_IntCtl_bits = [
     (''GIO_IntCtl_IRQ0En'', 0x0000, 0x0001), (''GIO_IntCtl_IRQ0Pol'', 0x0001, 0x0002),
     (''GIO_IntCtl_IRQ1En'', 0x0002, 0x0004), (''GIO_IntCtl_IRQ1Pol'', 0x0003, 0x0008),
     (''GIO_IntCtl_SX'', 0x0004, 0x0010), (''GIO_IntCtl_SG'', 0x0005, 0x0020),
     (''GIO_IntCtl_HX'', 0x0006, 0x0040), (''GIO_IntCtl_HG'', 0x0007, 0x0080)]"

definition INT_Enable_bits :: "(string \<times> u16 \<times> u16) list" where
  "INT_Enable_bits = [
     (''INT_Enable_T0'', 0x0000, 0x0001), (''INT_Enable_T1'', 0x0001, 0x0002),
     (''INT_Enable_GP'', 0x0002, 0x0004), (''INT_Enable_UART'', 0x0003, 0x0008),
     (''INT_Enable_FDMA'', 0x0004, 0x0010), (''INT_Enable_MBX'', 0x0006, 0x0040),
     (''INT_Enable_HSS'', 0x0007, 0x0080), (''INT_Enable_SIE1'', 0x0008, 0x0100),
     (''INT_Enable_SIE2'', 0x0009, 0x0200), (''INT_Enable_SPI'', 0x000B, 0x0800)]"

definition HSS_Ctl_bits :: "(string \<times> u16 \<times> u16) list" where
  "HSS_Ctl_bits = [
     (''HSS_Ctl_RxRst'', 0x0002, 0x0004), (''HSS_Ctl_PacketMode'', 0x0003, 0x0008),
     (''HSS_Ctl_OneStop'', 0x0005, 0x0020), (''HSS_Ctl_RBkDoneClr'', 0x0006, 0x0040),
     (''HSS_Ctl_TBkDoneClr'', 0x0007, 0x0080), (''HSS_Ctl_DoneIntrEnab'', 0x0008, 0x0100),
     (''HSS_Ctl_RxIntrEnab'', 0x0009, 0x0200), (''HSS_Ctl_CTSenab'', 0x000A, 0x0400),
     (''HSS_Ctl_XOFFenab'', 0x000B, 0x0800), (''HSS_Ctl_CTSpolarity'', 0x000D, 0x2000),
     (''HSS_Ctl_RTSpolarity'', 0x000E, 0x4000), (''HSS_Ctl_Enable'', 0x000F, 0x8000),
     (''HSS_Ctl_RxRdy'', 0x0000, 0x0001), (''HSS_Ctl_RxPktRdy'', 0x0001, 0x0002),
     (''HSS_Ctl_RxErr'', 0x0002, 0x0004), (''HSS_Ctl_TxRdy'', 0x0004, 0x0010),
     (''HSS_Ctl_RBkDone'', 0x0006, 0x0040), (''HSS_Ctl_TBkDone'', 0x0007, 0x0080)]"

definition SPI_Ctl_bits :: "(string \<times> u16 \<times> u16) list" where
  "SPI_Ctl_bits = [
     (''SPI_Ctl_SCKStrobe'', 0x000F, 0x8000), (''SPI_Ctl_FIFOInit'', 0x000E, 0x4000),
     (''SPI_Ctl_ByteMode'', 0x000D, 0x2000), (''SPI_Ctl_FullDuplex'', 0x000C, 0x1000),
     (''SPI_Ctl_SSManVal'', 0x000B, 0x0800), (''SPI_Ctl_DoRead'', 0x000A, 0x0400),
     (''SPI_Ctl_TxRdy'', 0x0009, 0x0200), (''SPI_Ctl_RxDatRdy'', 0x0008, 0x0100),
     (''SPI_Ctl_TxEmpty'', 0x0007, 0x0080), (''SPI_Ctl_RxFull'', 0x0006, 0x0040)]"

text \<open>The mode field of the interrupt control register: its values, and the values shifted to their
  place in the register.\<close>

definition GIO_IntCtl_Mode_values :: "(string \<times> u16 \<times> u16) list" where
  "GIO_IntCtl_Mode_values = [
     (''GIO_IntCtl_Mode_GPIO'', 0x0000, 0x0000), (''GIO_IntCtl_Mode_Flash'', 0x0001, 0x0100),
     (''GIO_IntCtl_Mode_EPP'', 0x0002, 0x0200), (''GIO_IntCtl_Mode_SLV'', 0x0003, 0x0300),
     (''GIO_IntCtl_Mode_IDE'', 0x0004, 0x0400), (''GIO_IntCtl_Mode_HPI'', 0x0005, 0x0500),
     (''GIO_IntCtl_Mode_SCAN'', 0x0006, 0x0600), (''GIO_IntCtl_Mode_MDiag'', 0x0007, 0x0700)]"

definition GIO_IntCtl_Mode_POS :: u16 where "GIO_IntCtl_Mode_POS = 0x0008"
definition GIO_IntCtl_Mode_SIZ :: u16 where "GIO_IntCtl_Mode_SIZ = 0x0003"

section \<open>Interrupts of the chip\<close>

text \<open>The hardware interrupts: number and address of the vector.\<close>

definition hardware_interrupts :: "(string \<times> u16 \<times> u16) list" where
  "hardware_interrupts = [
     (''TIMER0'', 0x0000, 0x0000), (''TIMER1'', 0x0001, 0x0002), (''GP_IRQ0'', 0x0002, 0x0004),
     (''GP_IRQ1'', 0x0003, 0x0006), (''UART_TX'', 0x0004, 0x0008), (''UART_RX'', 0x0005, 0x000A),
     (''HSS_BLK_DONE'', 0x0006, 0x000C), (''HSS_RX_FULL'', 0x0007, 0x000E),
     (''IDE_DMA_DONE'', 0x0008, 0x0010), (''HPI_MBOX_RX_FULL'', 0x000A, 0x0014),
     (''HPI_MBOX_TX_EMPTY'', 0x000B, 0x0016), (''SPI_TX'', 0x000C, 0x0018),
     (''SPI_RX'', 0x000D, 0x001A), (''SPI_DMA_DONE'', 0x000E, 0x001C),
     (''OTG_ID_VBUS_VALID'', 0x000F, 0x001E), (''SIE1_HOST_DONE'', 0x0010, 0x0020),
     (''SIE1_HOST_SOF'', 0x0011, 0x0022), (''SIE1_HOST_INS_REM'', 0x0012, 0x0024),
     (''SIE1_SLAVE_RESET'', 0x0014, 0x0028), (''SIE1_SLAVE_SOF'', 0x0015, 0x002A),
     (''SIE2_HOST_DONE'', 0x0018, 0x0030), (''SIE2_HOST_SOF'', 0x0019, 0x0032),
     (''SIE2_HOST_INS_REM'', 0x001A, 0x0034), (''SIE2_SLAVE_RESET'', 0x001C, 0x0038),
     (''SIE2_SLAVE_SOF'', 0x001D, 0x003A), (''SIE1_EP0'', 0x0020, 0x0040),
     (''SIE1_EP1'', 0x0021, 0x0042), (''SIE1_EP2'', 0x0022, 0x0044), (''SIE1_EP3'', 0x0023, 0x0046),
     (''SIE1_EP4'', 0x0024, 0x0048), (''SIE1_EP5'', 0x0025, 0x004A), (''SIE1_EP6'', 0x0026, 0x004C),
     (''SIE1_EP7'', 0x0027, 0x004E), (''SIE2_EP0'', 0x0028, 0x0050), (''SIE2_EP1'', 0x0029, 0x0052),
     (''SIE2_EP2'', 0x002A, 0x0054), (''SIE2_EP3'', 0x002B, 0x0056), (''SIE2_EP4'', 0x002C, 0x0058),
     (''SIE2_EP5'', 0x002D, 0x005A), (''SIE2_EP6'', 0x002E, 0x005C), (''SIE2_EP7'', 0x002F, 0x005E)]"

text \<open>The software interrupts of the two slave interfaces; a name with \<open>VEC\<close> is an address.\<close>

definition SUSB1_interrupts :: "(string \<times> u16) list" where
  "SUSB1_interrupts = [
     (''SUSB1_SEND_INT'', 0x0050), (''SUSB1_RECEIVE_INT'', 0x0051), (''SUSB1_STALL_INT'', 0x0052),
     (''SUSB1_STANDARD_INT'', 0x0053), (''SUSB1_STANDARD_LOADER_VEC'', 0x00A8),
     (''SUSB1_VENDOR_INT'', 0x0055), (''SUSB1_VENDOR_LOADER_VEC'', 0x00AC),
     (''SUSB1_CLASS_INT'', 0x0057), (''SUSB1_CLASS_LOADER_VEC'', 0x00B0),
     (''SUSB1_FINISH_INT'', 0x0059), (''SUSB1_DEV_DESC_VEC'', 0x00B4),
     (''SUSB1_CONFIG_DESC_VEC'', 0x00B6), (''SUSB1_STRING_DESC_VEC'', 0x00B8),
     (''SUSB1_PARSE_CONFIG_INT'', 0x005D), (''SUSB1_LOADER_INT'', 0x005E),
     (''SUSB1_DELTA_CONFIG_INT'', 0x005F)]"

definition SUSB2_interrupts :: "(string \<times> u16) list" where
  "SUSB2_interrupts = [
     (''SUSB2_SEND_INT'', 0x0060), (''SUSB2_RECEIVE_INT'', 0x0061), (''SUSB2_STALL_INT'', 0x0062),
     (''SUSB2_STANDARD_INT'', 0x0063), (''SUSB2_STANDARD_LOADER_VEC'', 0x00C8),
     (''SUSB2_VENDOR_INT'', 0x0065), (''SUSB2_VENDOR_LOADER_VEC'', 0x00CC),
     (''SUSB2_CLASS_INT'', 0x0067), (''SUSB2_CLASS_LOADER_VEC'', 0x00D0),
     (''SUSB2_FINISH_INT'', 0x0069), (''SUSB2_DEV_DESC_VEC'', 0x00D4),
     (''SUSB2_CONFIG_DESC_VEC'', 0x00D6), (''SUSB2_STRING_DESC_VEC'', 0x00D8),
     (''SUSB2_PARSE_CONFIG_INT'', 0x006D), (''SUSB2_LOADER_INT'', 0x006E),
     (''SUSB2_DELTA_CONFIG_INT'', 0x006F)]"

definition SWINT_offsets :: "(string \<times> u16) list" where
  "SWINT_offsets = [
     (''O_SWINT_SEND'', 0x0000), (''O_SWINT_RECEIVE'', 0x0002), (''O_SWINT_STALL'', 0x0004),
     (''O_SWINT_STANDARD'', 0x0006), (''O_SWINT_STD_LDR'', 0x0008),
     (''O_SWINT_VENDOR_INT'', 0x000A), (''O_SWINT_VENDOR_LDR'', 0x000C),
     (''O_SWINT_CLASS'', 0x000E), (''O_SWINT_CLASS_LDR'', 0x0010), (''O_SWINT_FINISH'', 0x0012),
     (''O_SWINT_DEV_DESC'', 0x0014), (''O_SWINT_CONFIG_DESC'', 0x0016),
     (''O_SWINT_STRING_DESC'', 0x0018), (''O_SWINT_PARSE_CONFIG'', 0x001A),
     (''O_SWINT_LDR'', 0x001C), (''O_SWINT_DELTA_CONFIG'', 0x001E)]"

definition SUSB1_SWINT_BASE :: u16 where "SUSB1_SWINT_BASE = 0x00A0"
definition SUSB2_SWINT_BASE :: u16 where "SUSB2_SWINT_BASE = 0x00C0"

section \<open>What the tables have to satisfy\<close>

fun disjoint_masks :: "u16 list \<Rightarrow> bool" where
  "disjoint_masks [] \<longleftrightarrow> True"
| "disjoint_masks (m # ms) \<longleftrightarrow> m \<noteq> 0 \<and> list_all (\<lambda>k. m AND k = 0) ms \<and> disjoint_masks ms"

definition single_bit :: "u16 \<Rightarrow> bool" where
  "single_bit m \<longleftrightarrow> m \<noteq> 0 \<and> m AND (m - 1) = 0"

text \<open>Every field is made of whole bits of the other spelling.\<close>

definition made_of :: "u16 list \<Rightarrow> u16 list \<Rightarrow> bool" where
  "made_of fs bs \<longleftrightarrow> list_all (\<lambda>m. m = foldr (OR) (filter (\<lambda>b. b AND m \<noteq> 0) bs) 0) fs"

definition endpoint_layout :: "u16 \<Rightarrow> u16 list list" where
  "endpoint_layout off = map (\<lambda>d. map (\<lambda>n. 0x200 + 0x80 * d + 0x10 * n + off) [0, 1, 2, 3, 4, 5, 6, 7]) [0, 1]"

lemma engine_registers:
  "list_all (\<lambda>(a, b). b = a + 0x20)
     [USBn_CTL, HOSTn_IRQ_EN, HOSTn_STAT, HOSTn_CTL, HOSTn_ADDR, HOSTn_CNT, HOSTn_PID, HOSTn_EP_STAT,
      HOSTn_DEV_ADDR, HOSTn_CTR, HOSTn_SOF_EOP_CNT, HOSTn_SOF_EOP_CTR, HOSTn_FRAME, DEVn_SEL,
      DEVn_IRQ_EN, DEVn_STAT, DEVn_ADDR, DEVn_FRAME]"
  by code_simp

lemma endpoint_registers:
  "DEVn_EPm_CTL = endpoint_layout 0" "DEVn_EPm_ADDR = endpoint_layout 2" "DEVn_EPm_CNT = endpoint_layout 4"
  "DEVn_EPm_STAT = endpoint_layout 6" "DEVn_EPm_CTR = endpoint_layout 8"
  by code_simp+

lemma endpoints_distinct:
  "distinct (concat (concat [DEVn_EPm_CTL, DEVn_EPm_ADDR, DEVn_EPm_CNT, DEVn_EPm_STAT, DEVn_EPm_CTR]))"
  by code_simp

lemma fields_disjoint:
  "disjoint_masks (map snd USB_CTL_fields)" "disjoint_masks (map snd USB_CTL_bits)"
  "disjoint_masks (map snd HOST_IRQ_EN_fields)" "disjoint_masks (map snd HOST_STAT_fields)"
  "disjoint_masks (map snd HPI_ROUTING_fields)" "disjoint_masks (map snd IRQ_EN_bits)"
  by code_simp+

lemma fields_made_of_bits:
  "made_of (map snd USB_CTL_fields) (map snd USB_CTL_bits)"
  "made_of (map snd HOST_IRQ_EN_fields) (map snd HOST_IRQ_EN_bits)"
  "made_of (map snd HOST_STAT_fields) (map snd HOST_STAT_bits)"
  "made_of (map snd IRQ_EN_fields) (map snd IRQ_EN_bits)"
  "made_of (map snd HPI_ROUTING_aliases) (map snd HPI_ROUTING_fields)"
  by code_simp+

lemma bits_by_number:
  "list_all (\<lambda>(n, i, m). m = push_bit (unat i) 1)
     (GIO_IntCtl_bits @ INT_Enable_bits @ HSS_Ctl_bits @ SPI_Ctl_bits)"
  by code_simp

lemma modes_in_place:
  "list_all (\<lambda>(n, v, m). m = push_bit (unat GIO_IntCtl_Mode_POS) v \<and> v < push_bit (unat GIO_IntCtl_Mode_SIZ) 1)
     GIO_IntCtl_Mode_values"
  by code_simp

lemma vectors_twice:
  "list_all (\<lambda>(n, i, v). v = 2 * i) hardware_interrupts" "sorted (map (\<lambda>(n, i, v). i) hardware_interrupts)"
  "distinct (map (\<lambda>(n, i, v). i) hardware_interrupts)"
  by code_simp+

text \<open>The slave interrupts: an address, or half of one, at the base of the interface plus the
  offset at the same place of the table of offsets.\<close>

definition swint_addresses :: "(string \<times> u16) list \<Rightarrow> u16 list" where
  "swint_addresses = map (\<lambda>(n, v). if drop (length n - 4) n = ''_VEC'' then v else 2 * v)"

lemma software_interrupts:
  "swint_addresses SUSB1_interrupts = map (\<lambda>(n, v). SUSB1_SWINT_BASE + v) SWINT_offsets"
  "swint_addresses SUSB2_interrupts = map (\<lambda>(n, v). SUSB2_SWINT_BASE + v) SWINT_offsets"
  by code_simp+

text \<open>The two names of the routing bits contradict each other: what the fields call the route to the
  chip's CPU the aliases call the route to the host port, and the other way round.\<close>

lemma routing_names_contradict:
  "map_of HPI_ROUTING_fields ''SOFEOP1_TO_CPU_EN'' = map_of HPI_ROUTING_aliases ''HOST1_SOFEOP_TO_HPI_EN''"
  "map_of HPI_ROUTING_fields ''SOFEOP1_TO_HPI_EN'' = map_of HPI_ROUTING_aliases ''HOST1_SOFEOP_TO_CPU_EN''"
  by code_simp+

lemma program_constants:
  "map_of USB_CTL_fields ''A_DP_STAT'' = Some A_DP_STAT" "map_of USB_CTL_fields ''A_DM_STAT'' = Some A_DM_STAT"
  "map_of HOST_IRQ_EN_fields ''SOF_EOP_IRQ_EN'' = Some SOF_EOP_IRQ_EN"
  "map_of HOST_IRQ_EN_fields ''A_CHG_IRQ_EN'' = Some A_CHG_IRQ_EN"
  "map_of HPI_ROUTING_fields ''SOFEOP1_TO_CPU_EN'' = Some SOFEOP1_TO_CPU_EN"
  "map_of HPI_ROUTING_fields ''RESUME1_TO_HPI_EN'' = Some RESUME1_TO_HPI_EN"
  "fst USBn_CTL = USB1_CTL_REG" "fst HOSTn_IRQ_EN = HOST1_IRQ_EN_REG" "HOSTn_STAT = (HOST1_STAT_REG, HOST2_STAT_REG)"
  by code_simp+

section \<open>The register map is well-formed\<close>

text \<open>The register map is well-formed: the registers of the second engine lie 0x20 above those of
  the first, the endpoint registers follow one layout and none shares an address; the fields of
  the registers the program uses do not overlap, those of the USB control register fill it, and
  the header's second spelling names the same bits; the interrupt vectors lie at twice their
  numbers, those of the slave interfaces at their base and offset; and the masks the program
  tests and writes are the fields of those registers.\<close>
theorem register_map_wellformed:
  "list_all (\<lambda>(a, b). b = a + 0x20)
     [USBn_CTL, HOSTn_IRQ_EN, HOSTn_STAT, HOSTn_CTL, HOSTn_ADDR, HOSTn_CNT, HOSTn_PID, HOSTn_EP_STAT,
      HOSTn_DEV_ADDR, HOSTn_CTR, HOSTn_SOF_EOP_CNT, HOSTn_SOF_EOP_CTR, HOSTn_FRAME, DEVn_SEL,
      DEVn_IRQ_EN, DEVn_STAT, DEVn_ADDR, DEVn_FRAME] \<and>
   DEVn_EPm_CTL = endpoint_layout 0 \<and> DEVn_EPm_ADDR = endpoint_layout 2 \<and> DEVn_EPm_CNT = endpoint_layout 4 \<and>
   DEVn_EPm_STAT = endpoint_layout 6 \<and> DEVn_EPm_CTR = endpoint_layout 8 \<and>
   distinct (concat (concat [DEVn_EPm_CTL, DEVn_EPm_ADDR, DEVn_EPm_CNT, DEVn_EPm_STAT, DEVn_EPm_CTR])) \<and>
   disjoint_masks (map snd USB_CTL_fields) \<and> foldr (OR) (map snd USB_CTL_fields) 0 = 0xFFFF \<and>
   disjoint_masks (map snd HOST_IRQ_EN_fields) \<and> disjoint_masks (map snd HOST_STAT_fields) \<and>
   disjoint_masks (map snd HPI_ROUTING_fields) \<and>
   made_of (map snd USB_CTL_fields) (map snd USB_CTL_bits) \<and>
   made_of (map snd HOST_IRQ_EN_fields) (map snd HOST_IRQ_EN_bits) \<and>
   made_of (map snd HOST_STAT_fields) (map snd HOST_STAT_bits) \<and>
   list_all (\<lambda>(n, i, v). v = 2 * i) hardware_interrupts \<and> distinct (map (\<lambda>(n, i, v). i) hardware_interrupts) \<and>
   swint_addresses SUSB1_interrupts = map (\<lambda>(n, v). SUSB1_SWINT_BASE + v) SWINT_offsets \<and>
   swint_addresses SUSB2_interrupts = map (\<lambda>(n, v). SUSB2_SWINT_BASE + v) SWINT_offsets \<and>
   map_of USB_CTL_fields ''A_DP_STAT'' = Some A_DP_STAT \<and> map_of USB_CTL_fields ''A_DM_STAT'' = Some A_DM_STAT \<and>
   map_of HOST_IRQ_EN_fields ''SOF_EOP_IRQ_EN'' = Some SOF_EOP_IRQ_EN \<and>
   map_of HOST_IRQ_EN_fields ''A_CHG_IRQ_EN'' = Some A_CHG_IRQ_EN"
proof -
  have "foldr (OR) (map snd USB_CTL_fields) 0 = 0xFFFF" by code_simp
  with engine_registers endpoint_registers endpoints_distinct fields_disjoint fields_made_of_bits
    vectors_twice software_interrupts program_constants show ?thesis by blast
qed

end
