(* ===== verification/Hal_Errno.thy ===== *)
theory Hal_Errno
  imports Prelude
begin

text \<open>
  The error numbers of the C library (errno.h of newlib) that the HAL returns, negated, or
  stores in errno. They are distinct positive numbers; nothing else is used of them.
\<close>

definition ESRCH :: int where [hal_defs]: "ESRCH = 3"
definition ECHILD :: int where [hal_defs]: "ECHILD = 10"
definition EIO :: int where [hal_defs]: "EIO = 5"
definition EWOULDBLOCK :: int where [hal_defs]: "EWOULDBLOCK = 11"
definition ENOMEM :: int where [hal_defs]: "ENOMEM = 12"
definition EACCES :: int where [hal_defs]: "EACCES = 13"
definition ENODEV :: int where [hal_defs]: "ENODEV = 19"
definition EINVAL :: int where [hal_defs]: "EINVAL = 22"
definition EMFILE :: int where [hal_defs]: "EMFILE = 24"
definition ENOTTY :: int where [hal_defs]: "ENOTTY = 25"
definition EBADFD :: int where [hal_defs]: "EBADFD = 81"
definition ENOSYS :: int where [hal_defs]: "ENOSYS = 88"
definition ENOTSUP :: int where [hal_defs]: "ENOTSUP = 134"

end
