(* ===== verification/Hal_Time.thy ===== *)
theory Hal_Time
  imports Hal_Errno
begin

text \<open>
  alt_gettod.c, alt_settod.c, alt_times.c, alt_busy_sleep.c and alt_usleep.c: wall-clock time
  from the tick counter and the time it was reset to, and the delay loop. The fields of
  struct timeval are signed 32-bit longs, held in words and read with \<open>sint\<close>; the mixed
  signed and unsigned arithmetic of the C code is word arithmetic.
\<close>

section \<open>Wall-clock time\<close>

record timeval =
  tv_sec :: u32
  tv_usec :: u32

record timezone =
  tz_minuteswest :: u32
  tz_dsttime :: u32

record tod =
  tod_nticks :: u32
  tod_tick_rate :: u32
  alt_resettime :: timeval
  alt_timezone :: timezone
  tod_errno :: int

definition ALT_US :: u32 where
  "ALT_US = 1000000"

definition sless :: "u32 \<Rightarrow> u32 \<Rightarrow> bool" where
  "sless a b \<longleftrightarrow> sint a < sint b"

text \<open>The two loops of gettimeofday: borrow from the seconds, carry into them.\<close>

definition borrow_usec :: "u32 \<times> u32 \<Rightarrow> (u32 \<times> u32) option" where
  "borrow_usec = while_option (\<lambda>(sec, usec). sless usec 0)
     (\<lambda>(sec, usec). if \<not> sless 0 sec then (0, 0) else (sec - 1, usec + ALT_US))"

definition carry_usec :: "u32 \<times> u32 \<Rightarrow> (u32 \<times> u32) option" where
  "carry_usec = while_option (\<lambda>(sec, usec). \<not> sless usec ALT_US)
     (\<lambda>(sec, usec). (sec + 1, usec - ALT_US))"

definition elapsed_sec :: "u32 \<Rightarrow> u32 \<Rightarrow> u32" where
  "elapsed_sec nticks rate = nticks div rate"

definition elapsed_usec64 :: "u32 \<Rightarrow> u32 \<Rightarrow> u32" where
  "elapsed_usec64 nticks rate =
     ucast (((ucast nticks :: u64) * ucast (ALT_US div rate)) mod ucast ALT_US)"

definition elapsed_usec32 :: "u32 \<Rightarrow> u32 \<Rightarrow> u32" where
  "elapsed_usec32 nticks rate = (nticks * (ALT_US div rate)) mod ALT_US"

text \<open>\<open>Inl\<close> is the error returned; \<open>Inr\<close> the time, and the time zone when asked for.\<close>

definition alt_gettod :: "bool \<Rightarrow> tod \<Rightarrow> (int + timeval \<times> timezone option) option" where
  "alt_gettod want_zone s =
     (if tod_tick_rate s \<noteq> 0 then
        let sec = tv_sec (alt_resettime s) + elapsed_sec (tod_nticks s) (tod_tick_rate s);
            usec = tv_usec (alt_resettime s) + elapsed_usec64 (tod_nticks s) (tod_tick_rate s)
        in (case borrow_usec (sec, usec) of
              None \<Rightarrow> None
            | Some x \<Rightarrow> map_option (\<lambda>(sec, usec). Inr (\<lparr>tv_sec = sec, tv_usec = usec\<rparr>,
                  if want_zone then Some (alt_timezone s) else None)) (carry_usec x))
      else Some (Inl (- ENOTSUP)))"

definition alt_settod :: "timeval \<Rightarrow> timezone \<Rightarrow> tod \<Rightarrow> int \<times> tod" where
  "alt_settod t tz s =
     (if tod_tick_rate s \<noteq> 0 then
        (0, s\<lparr>alt_resettime :=
                \<lparr>tv_sec = tv_sec t - elapsed_sec (tod_nticks s) (tod_tick_rate s),
                 tv_usec = tv_usec t - elapsed_usec32 (tod_nticks s) (tod_tick_rate s)\<rparr>,
              alt_timezone := tz\<rparr>)
      else (-1, s\<lparr>tod_errno := ENOSYS\<rparr>))"

record tms =
  tms_utime :: u32
  tms_stime :: u32
  tms_cutime :: u32
  tms_cstime :: u32

definition alt_times :: "tms \<Rightarrow> tod \<Rightarrow> u32 \<times> tms \<times> tod" where
  "alt_times buf s =
     (if tod_tick_rate s = 0 then (0, buf, s\<lparr>tod_errno := ENOSYS\<rparr>)
      else (tod_nticks s,
            \<lparr>tms_utime = 0, tms_stime = tod_nticks s, tms_cutime = 0, tms_cstime = 0\<rparr>, s))"

section \<open>The loops end with a normal time\<close>

lemma sint_bounds: "- (2 ^ 31) \<le> sint (x :: u32)" "sint (x :: u32) < 2 ^ 31"
  using sint_ge [of x] sint_lt [of x] by simp_all

lemma sint_add: "- (2 ^ 31) \<le> sint x + sint y \<Longrightarrow> sint x + sint y < 2 ^ 31 \<Longrightarrow>
  sint (x + y :: u32) = sint x + sint y"
  by (simp add: sint_word_ariths signed_take_bit_int_eq_self)

lemma sint_sub: "- (2 ^ 31) \<le> sint x - sint y \<Longrightarrow> sint x - sint y < 2 ^ 31 \<Longrightarrow>
  sint (x - y :: u32) = sint x - sint y"
  by (simp add: sint_word_ariths signed_take_bit_int_eq_self)

lemma sint_us [simp]: "sint ALT_US = 1000000" "sint (1 :: u32) = 1"
  by (simp_all add: ALT_US_def)

lemma borrow_total: "\<exists>sec' usec'. borrow_usec (sec, usec) = Some (sec', usec') \<and> 0 \<le> sint usec'"
proof (induction "nat (- sint usec)" arbitrary: sec usec rule: less_induct)
  case less
  show ?case
  proof (cases "sless usec 0 \<and> sless 0 sec")
    case True
    then have "sint (usec + ALT_US) = sint usec + 1000000"
      using sint_bounds [of usec] by (subst sint_add) (auto simp: sless_def)
    then have "nat (- sint (usec + ALT_US)) < nat (- sint usec)"
      using True by (simp add: sless_def)
    from less [OF this, of "sec - 1"] True show ?thesis
      by (simp add: borrow_usec_def while_option_unfold)
  next
    case False
    then show ?thesis
      by (cases "sless usec 0") (auto simp: borrow_usec_def while_option_unfold sless_def)
  qed
qed

lemma carry_total:
  assumes "0 \<le> sint usec"
  shows "\<exists>sec' usec'. carry_usec (sec, usec) = Some (sec', usec') \<and> 0 \<le> sint usec' \<and> sint usec' < 1000000"
  using assms
proof (induction "nat (sint usec)" arbitrary: sec usec rule: less_induct)
  case less
  show ?case
  proof (cases "sless usec ALT_US")
    case False
    then have s: "sint (usec - ALT_US) = sint usec - 1000000" "1000000 \<le> sint usec"
      using sint_bounds [of usec] by (auto simp: sless_def sint_sub)
    then have "nat (sint (usec - ALT_US)) < nat (sint usec)" "0 \<le> sint (usec - ALT_US)" by simp_all
    from less(1) [OF this, of "sec + 1"] False show ?thesis
      by (simp add: carry_usec_def while_option_unfold)
  qed (use less in \<open>auto simp: carry_usec_def while_option_unfold sless_def\<close>)
qed

text \<open>gettimeofday always returns, and the microseconds of the time it returns lie between
  0 and 999999, whatever the tick counter, the tick rate and the reset time are.\<close>
theorem gettod_normal:
  assumes "tod_tick_rate s \<noteq> 0"
  shows "\<exists>t z. alt_gettod wz s = Some (Inr (t, z)) \<and> 0 \<le> sint (tv_usec t) \<and> sint (tv_usec t) < 1000000"
proof -
  let ?sec = "tv_sec (alt_resettime s) + elapsed_sec (tod_nticks s) (tod_tick_rate s)"
  let ?usec = "tv_usec (alt_resettime s) + elapsed_usec64 (tod_nticks s) (tod_tick_rate s)"
  obtain s1 u1 where b: "borrow_usec (?sec, ?usec) = Some (s1, u1)" "0 \<le> sint u1"
    using borrow_total by blast
  obtain s2 u2 where c: "carry_usec (s1, u1) = Some (s2, u2)" "0 \<le> sint u2" "sint u2 < 1000000"
    using carry_total [OF b(2)] by blast
  show ?thesis using assms b c by (simp add: alt_gettod_def)
qed

definition tod_at :: "u32 \<Rightarrow> tod" where
  "tod_at n = \<lparr>tod_nticks = n, tod_tick_rate = 1000, alt_resettime = \<lparr>tv_sec = 7, tv_usec = - 5\<rparr>,
     alt_timezone = \<lparr>tz_minuteswest = 0, tz_dsttime = 0\<rparr>, tod_errno = 0\<rparr>"

theorem gettod_normal_witness:
  "\<exists>t z. alt_gettod True (tod_at 12) = Some (Inr (t, z)) \<and> sint (tv_usec t) < 1000000"
  using gettod_normal [of "tod_at 12" True] by (auto simp: tod_at_def)

section \<open>Setting and getting the time\<close>

lemma borrow_none: "0 \<le> sint usec \<Longrightarrow> borrow_usec (sec, usec) = Some (sec, usec)"
  by (simp add: borrow_usec_def while_option_unfold sless_def)

lemma borrow_one:
  assumes "- 1000000 \<le> sint usec" "sint usec < 0" "0 < sint sec"
  shows "borrow_usec (sec, usec) = Some (sec - 1, usec + ALT_US)"
proof -
  have "sint (usec + ALT_US) = sint usec + 1000000" using assms by (subst sint_add) auto
  then have "borrow_usec (sec - 1, usec + ALT_US) = Some (sec - 1, usec + ALT_US)"
    using assms by (intro borrow_none) simp
  then show ?thesis
    using assms by (simp add: borrow_usec_def while_option_unfold [of _ _ "(sec, usec)"] sless_def)
qed

lemma carry_none: "sint usec < 1000000 \<Longrightarrow> carry_usec (sec, usec) = Some (sec, usec)"
  by (simp add: carry_usec_def while_option_unfold sless_def)

lemma carry_one:
  assumes "1000000 \<le> sint usec" "sint usec < 2000000"
  shows "carry_usec (sec, usec) = Some (sec + 1, usec - ALT_US)"
proof -
  have "sint (usec - ALT_US) = sint usec - 1000000" using assms by (subst sint_sub) auto
  then have "carry_usec (sec + 1, usec - ALT_US) = Some (sec + 1, usec - ALT_US)"
    using assms by (intro carry_none) simp
  then show ?thesis
    using assms by (simp add: carry_usec_def while_option_unfold [of _ _ "(sec, usec)"] sless_def)
qed

lemma unat_u64: "unat (ucast (x :: u32) :: u64) = unat x"
proof -
  have "unat x < 2 ^ LENGTH(32)" by (rule unsigned_less)
  then have "unat x < 2 ^ 64" by simp
  then show ?thesis by (simp add: unsigned_ucast_eq take_bit_nat_eq_self)
qed

lemma elapsed_usec64_nat:
  assumes "rate \<noteq> 0"
  shows "unat (elapsed_usec64 n rate) = unat n * (1000000 div unat rate) mod 1000000"
proof -
  let ?q = "ALT_US div rate"
  have q: "unat ?q = 1000000 div unat rate" by (simp add: ALT_US_def unat_div)
  have qle: "unat ?q \<le> 1000000" unfolding q by (rule div_le_dividend)
  have n: "unat n < 2 ^ LENGTH(32)" by (rule unsigned_less)
  have "unat n * unat ?q < 2 ^ 64"
    using mult_le_mono [OF less_imp_le [OF n] qle] by simp
  then have p: "unat ((ucast n :: u64) * ucast ?q) = unat n * unat ?q"
    by (simp add: unat_word_ariths unat_u64)
  have "unat (((ucast n :: u64) * ucast ?q) mod ucast ALT_US) = unat n * unat ?q mod 1000000"
    using p by (simp add: unat_mod ALT_US_def)
  then show ?thesis
    unfolding elapsed_usec64_def q [symmetric]
    by (simp add: unsigned_ucast_eq take_bit_nat_eq_self)
qed

lemma elapsed_usec32_nat:
  assumes "unat n * (1000000 div unat rate) < 2 ^ 32"
  shows "unat (elapsed_usec32 n rate) = unat n * (1000000 div unat rate) mod 1000000"
  using assms by (simp add: elapsed_usec32_def ALT_US_def unat_mod unat_div unat_word_ariths)

text \<open>C36. What settimeofday promises: a call of gettimeofday at the same tick returns exactly
  the time and the time zone that were set, as long as the ticks since reset are less than
  2^32 microseconds (71 minutes).\<close>
theorem settod_gettod:
  assumes "tod_tick_rate s \<noteq> 0" "0 \<le> sint (tv_usec t)" "sint (tv_usec t) < 1000000"
    and "unat (tod_nticks s) * (1000000 div unat (tod_tick_rate s)) < 2 ^ 32"
  shows "alt_gettod True (snd (alt_settod t tz s)) = Some (Inr (t, Some tz))"
proof -
  have "elapsed_usec32 (tod_nticks s) (tod_tick_rate s) = elapsed_usec64 (tod_nticks s) (tod_tick_rate s)"
    using elapsed_usec32_nat [OF assms(4)] elapsed_usec64_nat [OF assms(1)]
    by (simp add: word_unat_eq_iff)
  then show ?thesis
    using assms borrow_none [OF assms(2)] carry_none [OF assms(3)]
    by (simp add: alt_gettod_def alt_settod_def)
qed

theorem settod_gettod_witness:
  "alt_gettod True (snd (alt_settod \<lparr>tv_sec = 100, tv_usec = 999999\<rparr>
      \<lparr>tz_minuteswest = 60, tz_dsttime = 1\<rparr> (tod_at 4000000))) =
   Some (Inr (\<lparr>tv_sec = 100, tv_usec = 999999\<rparr>, Some \<lparr>tz_minuteswest = 60, tz_dsttime = 1\<rparr>))"
  by (rule settod_gettod) (simp_all add: tod_at_def)

text \<open>Beyond that bound the promise is broken: settimeofday multiplies in 32 bits where
  gettimeofday multiplies in 64, so that with a 1 kHz clock, 5000 seconds after reset, the time
  read back directly after setting 100 s is 99.967296 s.\<close>
theorem settod_gettod_overflow:
  "alt_gettod False (snd (alt_settod \<lparr>tv_sec = 100, tv_usec = 0\<rparr> tz (tod_at 5000000))) =
   Some (Inr (\<lparr>tv_sec = 99, tv_usec = 967296\<rparr>, None))"
proof -
  have e: "elapsed_usec32 5000000 1000 = 32704" "elapsed_usec64 5000000 1000 = 0"
    "elapsed_sec 5000000 1000 = 5000"
    by (simp_all add: elapsed_usec32_def elapsed_usec64_def elapsed_sec_def ALT_US_def)
  have b: "borrow_usec (100, - 32704) = Some (99, 967296)"
    using borrow_one [of "- 32704" 100] by (simp add: ALT_US_def)
  have c: "carry_usec (99, 967296) = Some (99, 967296)" by (rule carry_none) simp
  show ?thesis using b c by (simp add: alt_gettod_def alt_settod_def tod_at_def e)
qed

section \<open>The delay loop\<close>

text \<open>
  The two assembler loops, with the number of times they go round: decrement, then branch back
  while the register is not zero (\<open>bne\<close>) or positive (\<open>bgt\<close>).
\<close>

definition delay_bne :: "u32 \<Rightarrow> (u32 \<times> nat) option" where
  "delay_bne r = while_option (\<lambda>(r, k). r \<noteq> 0) (\<lambda>(r, k). (r - 1, k + 1)) (r - 1, 1)"

definition delay_bgt :: "u32 \<Rightarrow> (u32 \<times> nat) option" where
  "delay_bgt r = while_option (\<lambda>(r, k). sless 0 r) (\<lambda>(r, k). (r - 1, k + 1)) (r - 1, 1)"

text \<open>The constants of this board: a "tiny" CPU at 50 MHz, nine cycles per round.\<close>

definition cycles_per_loop :: u32 where
  "cycles_per_loop = 9"

definition loops_per_us :: u32 where
  "loops_per_us = 50000000 div (cycles_per_loop * 1000000)"

text \<open>The function returns when its loops do; its value here is the rounds they made.\<close>

definition alt_busy_sleep :: "u32 \<Rightarrow> nat option" where
  "alt_busy_sleep us =
     (let big_loops = us div (INT_MAX div loops_per_us)
      in if big_loops \<noteq> 0 then
           (case delay_bne INT_MAX of
              None \<Rightarrow> None
            | Some (_, k) \<Rightarrow>
                let (us, n) = ((\<lambda>(us, n). (us - INT_MAX div loops_per_us, n + k)) ^^ unat big_loops) (us, 0)
                in map_option (\<lambda>(_, k). n + k) (delay_bne (us * loops_per_us)))
         else map_option snd (delay_bgt (us * loops_per_us)))"

definition alt_usleep :: "u32 \<Rightarrow> nat option" where
  "alt_usleep us = alt_busy_sleep us"

lemma unat_minus_one: "r \<noteq> 0 \<Longrightarrow> unat (r - 1 :: u32) = unat r - 1"
  by (simp add: unat_minus_one)

lemma bne_rounds:
  "while_option (\<lambda>(r, k). r \<noteq> 0) (\<lambda>(r, k). (r - 1, k + 1)) (r :: u32, k) = Some (0, k + unat r)"
proof (induction "unat r" arbitrary: r k)
  case 0
  then have "r = 0" by (simp add: word_unat_eq_iff)
  then show ?case by (simp add: while_option_unfold)
next
  case (Suc n)
  then have nz: "r \<noteq> 0" by auto
  then have "unat (r - 1) = n" using Suc.hyps(2) by (simp add: unat_minus_one)
  then have "while_option (\<lambda>(r, k). r \<noteq> 0) (\<lambda>(r, k). (r - 1, k + 1)) (r - 1, k + 1) = Some (0, k + 1 + n)"
    using Suc.hyps(1) [of "r - 1" "k + 1"] by simp
  then show ?case using nz Suc.hyps(2) by (subst while_option_unfold) simp
qed

lemma delay_bne_rounds: "delay_bne r = Some (0, if r = 0 then 2 ^ 32 else unat r)"
proof -
  have "unat (- 1 :: u32) = 2 ^ 32 - 1" by (simp add: unsigned_minus_1_eq_mask mask_eq_exp_minus_1)
  moreover have "r \<noteq> 0 \<Longrightarrow> 1 \<le> unat r" by (simp add: Suc_leI unat_gt_0)
  ultimately show ?thesis unfolding delay_bne_def bne_rounds by (cases "r = 0") (simp_all add: unat_minus_one)
qed

lemma sless_zero: "unat r < 2 ^ 31 \<Longrightarrow> sless 0 r \<longleftrightarrow> r \<noteq> 0"
proof -
  assume r: "unat r < 2 ^ 31"
  have u: "uint r < 2 ^ 31" using r unfolding uint_nat by (metis of_nat_less_iff of_nat_numeral of_nat_power)
  have "- (2 ^ 31) \<le> uint r" by (rule order_trans [OF _ uint_ge_0]) simp
  with u have "sint r = uint r" by (simp add: sint_uint signed_take_bit_int_eq_self)
  moreover have "0 < uint r \<longleftrightarrow> r \<noteq> 0" using uint_0_iff [of r] uint_ge_0 [of r] by linarith
  ultimately show ?thesis by (simp add: sless_def)
qed

lemma bgt_rounds:
  "unat r < 2 ^ 31 \<Longrightarrow>
   while_option (\<lambda>(r, k). sless 0 r) (\<lambda>(r, k). (r - 1, k + 1)) (r :: u32, k) = Some (0, k + unat r)"
proof (induction "unat r" arbitrary: r k)
  case 0
  then have "r = 0" by (simp add: word_unat_eq_iff)
  then show ?case by (simp add: while_option_unfold sless_def)
next
  case (Suc n)
  then have nz: "r \<noteq> 0" by auto
  then have n: "unat (r - 1) = n" using Suc.hyps(2) by (simp add: unat_minus_one)
  then have "while_option (\<lambda>(r, k). sless 0 r) (\<lambda>(r, k). (r - 1, k + 1)) (r - 1, k + 1) = Some (0, k + 1 + n)"
    using Suc.hyps(1) [of "r - 1" "k + 1"] Suc.prems Suc.hyps(2) by simp
  then show ?case
    using nz Suc.hyps(2) sless_zero [OF Suc.prems] by (subst while_option_unfold) simp
qed

lemma delay_bgt_rounds:
  assumes "unat r \<le> 2 ^ 31"
  shows "\<exists>q. delay_bgt r = Some (q, if r = 0 then 1 else unat r)"
proof (cases "r = 0")
  case True
  then show ?thesis by (simp add: delay_bgt_def while_option_unfold sless_def)
next
  case False
  then have "unat (r - 1) < 2 ^ 31" "1 \<le> unat r"
    using assms by (simp_all add: unat_minus_one Suc_leI unat_gt_0)
  then show ?thesis
    unfolding delay_bgt_def bgt_rounds [OF \<open>unat (r - 1) < 2 ^ 31\<close>]
    using False by (simp add: unat_minus_one)
qed

lemma sub_rounds:
  "((\<lambda>(us, n). (us - d, n + k)) ^^ j) (us :: u32, n :: nat) = (us - of_nat j * d, n + j * k)"
  by (induction j) (simp_all add: algebra_simps)

text \<open>The delay loop ends for every argument, with these numbers of rounds: five per
  microsecond (two more per block of 429496729 us); one round for 0; but for the exact multiples
  of 429496729 us the last, decrementing loop is entered with zero and goes round 2^32 times.\<close>
theorem busy_sleep_rounds:
  "alt_busy_sleep us = Some
     (let big = unat us div 429496729; rest = unat us mod 429496729
      in if us = 0 then 1 else if rest = 0 then big * 2147483647 + 2 ^ 32
         else 5 * unat us + 2 * big)"
proof -
  have l: "loops_per_us = 5" "INT_MAX div loops_per_us = 429496729"
    by (simp_all add: loops_per_us_def cycles_per_loop_def)
  let ?big = "us div 429496729"
  let ?rest = "unat us mod 429496729"
  have b: "unat ?big = unat us div 429496729" by (simp add: unat_div)
  have r: "us - ?big * 429496729 = us mod 429496729"
    by (metis add_diff_cancel_left' div_mult_mod_eq)
  have m: "unat (us mod 429496729) = ?rest" by (simp add: unat_mod)
  have m5: "unat (us mod 429496729 * 5) = ?rest * 5"
  proof -
    have "?rest < 429496729" by simp
    then show ?thesis using m by (simp add: unat_word_ariths)
  qed
  then have z: "us mod 429496729 * 5 = 0 \<longleftrightarrow> ?rest = 0" by (simp add: word_unat_eq_iff)
  have unat0: "unat us = 0 \<longleftrightarrow> us = 0" by (simp add: word_unat_eq_iff)
  have d: "unat us = unat us div 429496729 * 429496729 + ?rest" by simp
  show ?thesis
  proof (cases "?big = 0")
    case True
    then have u: "unat us div 429496729 = 0" using b by simp
    then have lt: "unat us < 429496729" by (simp add: div_eq_0_iff)
    then have us: "us mod 429496729 = us" "?rest = unat us"
      by (simp_all add: word_unat_eq_iff unat_mod)
    have "unat (us * 5) \<le> 2 ^ 31" using m5 us lt by simp
    then obtain q where "delay_bgt (us * 5) = Some (q, if us * 5 = 0 then 1 else unat (us * 5))"
      using delay_bgt_rounds by blast
    moreover have "us * 5 = 0 \<longleftrightarrow> us = 0" using z us by (simp add: word_unat_eq_iff)
    ultimately show ?thesis
      using True l u us m5 unat0 by (simp add: alt_busy_sleep_def Let_def)
  next
    case False
    then have "us \<noteq> 0" by auto
    have ob: "(of_nat (unat us div 429496729) :: u32) = ?big" unfolding b [symmetric] by simp
    have imax: "delay_bne INT_MAX = Some (0, 2147483647)" by (simp add: delay_bne_rounds)
    have f: "((\<lambda>(us, n). (us - 429496729, n + 2147483647)) ^^ unat ?big) (us, 0) =
        (us mod 429496729, unat us div 429496729 * 2147483647)"
      unfolding sub_rounds b using r ob by simp
    have "5 * unat us + 2 * (unat us div 429496729) =
        unat us div 429496729 * 2147483647 + 5 * ?rest" using d by linarith
    then show ?thesis
      using False l imax f m5 z \<open>us \<noteq> 0\<close>
      by (simp add: alt_busy_sleep_def delay_bne_rounds Let_def)
  qed
qed

text \<open>The delay is shorter than asked for: a sleep of 1 to 429496728 microseconds takes
  45 CPU cycles per microsecond by the loop's own count of nine cycles a round, where a 50 MHz
  CPU runs 50.\<close>
theorem busy_sleep_short:
  assumes "us \<noteq> 0" "unat us < 429496729"
  shows "map_option (\<lambda>n. unat cycles_per_loop * n) (alt_usleep us) = Some (45 * unat us) \<and>
    45 * unat us < 50 * unat us"
proof -
  have "loops_per_us = 5" "INT_MAX div loops_per_us = 429496729"
    by (simp_all add: loops_per_us_def cycles_per_loop_def)
  moreover have "us div 429496729 = 0" using assms(2) by (simp add: word_unat_eq_iff unat_div)
  moreover have "unat (us * 5) = unat us * 5" using assms(2) by (simp add: unat_word_ariths)
  moreover from this have "us * 5 \<noteq> 0" using assms(1) by (auto simp: word_unat_eq_iff)
  ultimately show ?thesis
    using delay_bgt_rounds [of "us * 5"] assms
    by (auto simp: alt_usleep_def alt_busy_sleep_def cycles_per_loop_def unat_gt_0)
qed

theorem busy_sleep_short_witness:
  "map_option (\<lambda>n. unat cycles_per_loop * n) (alt_usleep 10000) = Some 450000"
  using busy_sleep_short [of 10000] by simp

end
