(* ===== verification/Hal_Print.thy ===== *)
theory Hal_Print
  imports Prelude
begin

text \<open>
  The two small printf functions of the HAL: alt_printf.c, and alt_log_private_printf of
  alt_log_printf.c, which interprets its format by a state machine. Both produce their text
  character by character; here they return it. A C string is the list of its characters without
  the terminator. The variable arguments are a list of machine words and strings: reading one
  that is not there, or not of that kind, is undefined and gives \<open>None\<close>, as does a width that
  overflows its int.
\<close>

section \<open>Variable arguments\<close>

datatype va = VInt u32 | VStr string

fun va_int :: "va list \<Rightarrow> (u32 \<times> va list) option" where
  "va_int (VInt v # args) = Some (v, args)"
| "va_int _ = None"

fun va_str :: "va list \<Rightarrow> (string \<times> va list) option" where
  "va_str (VStr s # args) = Some (s, args)"
| "va_str _ = None"

text \<open>What putchar prints for an int.\<close>

definition putchar :: "u32 \<Rightarrow> char" where
  "putchar v = char_of (unat (ucast v :: u8))"

section \<open>alt_printf\<close>

text \<open>The shift of the first digit that is not 0, in digits: 7 for bit 28 and so on.\<close>

fun first_digit :: "nat \<Rightarrow> u32 \<Rightarrow> nat" where
  "first_digit 0 v = 0"
| "first_digit (Suc k) v = (if v AND push_bit (4 * Suc k) 0xF = 0 then first_digit k v else Suc k)"

definition hex_char :: "u32 \<Rightarrow> char" where
  "hex_char digit =
     (if digit \<le> 9 then putchar (48 + digit) else putchar (97 + digit - 10))"

fun hex_digits :: "nat \<Rightarrow> u32 \<Rightarrow> string" where
  "hex_digits 0 v = [hex_char (v AND 0xF)]"
| "hex_digits (Suc k) v =
     hex_char (drop_bit (4 * Suc k) (v AND push_bit (4 * Suc k) 0xF)) # hex_digits k v"

definition print_hex :: "u32 \<Rightarrow> string" where
  "print_hex v = (if v = 0 then ''0'' else hex_digits (first_digit 7 v) v)"

fun alt_printf :: "string \<Rightarrow> va list \<Rightarrow> string option" where
  "alt_printf [] args = Some []"
| "alt_printf [c] args = Some (if c \<noteq> CHR ''%'' then [c] else [])"
| "alt_printf (c # d # w) args =
     (if c \<noteq> CHR ''%'' then map_option (\<lambda>out. c # out) (alt_printf (d # w) args)
      else if d = CHR ''%'' then map_option (\<lambda>out. d # out) (alt_printf w args)
      else if d = CHR ''c'' then
        Option.bind (va_int args) (\<lambda>(v, args). map_option (\<lambda>out. putchar v # out) (alt_printf w args))
      else if d = CHR ''x'' then
        Option.bind (va_int args) (\<lambda>(v, args). map_option (\<lambda>out. print_hex v @ out) (alt_printf w args))
      else if d = CHR ''s'' then
        Option.bind (va_str args) (\<lambda>(s, args). map_option (\<lambda>out. s @ out) (alt_printf w args))
      else alt_printf w args)"

section \<open>alt_log_private_printf\<close>

datatype pf = pfState_chars | pfState_firstFmtChar | pfState_otherFmtChar

record log_fmt =
  state :: pf
  fmtLeadingZero :: bool
  fmtLong :: bool
  fmtBeforeDecimal :: int
  fmtAfterDecimal :: int
  fmtBase :: u32
  fmtSigned :: bool
  fmtCase :: bool

definition alt_log_repchar :: "char \<Rightarrow> int \<Rightarrow> string" where
  "alt_log_repchar c r = replicate (nat r) c"

text \<open>
  The largest power of the base not above the value, and the number of digits. The base is 8,
  10 or 16 whenever this runs; a base below 2 would never end.
\<close>

function digit_count :: "u32 \<Rightarrow> u32 \<Rightarrow> u32 \<Rightarrow> int \<Rightarrow> u32 \<times> int" where
  "digit_count b vShrink p n =
     (if 1 < b \<and> 0 < vShrink div b then digit_count b (vShrink div b) (p * b) (n + 1) else (p, n))"
  by pat_completeness auto
termination
proof (relation "measure (\<lambda>(b, v, p, n). unat v)", simp)
  fix b v p :: u32 and n :: int
  assume a: "1 < b \<and> 0 < v div b"
  then have "1 < unat b" "0 < unat v div unat b"
    by (simp_all add: word_less_nat_alt unat_div_distrib)
  then have "unat v div unat b < unat v" by (intro div_less_dividend) (auto intro: gr0I)
  then show "((b, v div b, p * b, n + 1), b, v, p, n) \<in> measure (\<lambda>(b, v, p, n). unat v)"
    by (simp add: unat_div_distrib)
qed

declare digit_count.simps [simp del]

definition log_digit :: "bool \<Rightarrow> u8 \<Rightarrow> char" where
  "log_digit upper d =
     (let d = d + 48; d = (if d > 57 then d + (if upper then 65 else 97) - 48 - 10 else d)
      in char_of (unat d))"

function digit_out :: "u32 \<Rightarrow> bool \<Rightarrow> u32 \<Rightarrow> u32 \<Rightarrow> string" where
  "digit_out b upper v p =
     (if p \<noteq> 0 \<and> 1 < b then log_digit upper (ucast (v div p)) # digit_out b upper (v mod p) (p div b) else [])"
  by pat_completeness auto
termination
proof (relation "measure (\<lambda>(b, up, v, p). unat p)", simp)
  fix b v p :: u32 and upper :: bool
  assume "p \<noteq> 0 \<and> 1 < b"
  then have "0 < unat p" "1 < unat b"
    by (simp_all add: word_less_nat_alt unat_gt_0)
  then have "unat p div unat b < unat p" by simp
  then show "((b, upper, v mod p, p div b), b, upper, v, p) \<in> measure (\<lambda>(b, up, v, p). unat p)"
    by (simp add: unat_div_distrib)
qed

declare digit_out.simps [simp del]

definition log_integer :: "log_fmt \<Rightarrow> u32 \<Rightarrow> string" where
  "log_integer f v =
     (let sign = fmtSigned f \<and> v AND 0x80000000 \<noteq> 0;
          v = (if sign then NOT v + 1 else v);
          (p, digitCount) = digit_count (fmtBase f) v 1 1;
          width = fmtBeforeDecimal f - digitCount
      in (if fmtLeadingZero f then
            (if sign then ''-'' @ alt_log_repchar (CHR ''0'') (width - 1)
             else alt_log_repchar (CHR ''0'') width)
          else alt_log_repchar (CHR '' '') (if sign then width - 1 else width) @ (if sign then ''-'' else []))
         @ digit_out (fmtBase f) (fmtCase f) v p)"

text \<open>A conversion character: the new format variables, the arguments left and the text.\<close>

definition print_integer :: "log_fmt \<Rightarrow> va list \<Rightarrow> (log_fmt \<times> va list \<times> string) option" where
  "print_integer f args =
     Option.bind (va_int args) (\<lambda>(v, args). Some (f\<lparr>state := pfState_chars\<rparr>, args, log_integer f v))"

definition log_convert :: "char \<Rightarrow> log_fmt \<Rightarrow> va list \<Rightarrow> (log_fmt \<times> va list \<times> string) option" where
  "log_convert c f args =
     (if c = CHR ''d'' \<or> c = CHR ''i'' then print_integer f args
      else if c = CHR ''u'' then print_integer (f\<lparr>fmtSigned := False\<rparr>) args
      else if c = CHR ''o'' then print_integer (f\<lparr>fmtSigned := False, fmtBase := 8\<rparr>) args
      else if c = CHR ''x'' then print_integer (f\<lparr>fmtSigned := False, fmtBase := 16\<rparr>) args
      else if c = CHR ''X'' then print_integer (f\<lparr>fmtSigned := False, fmtBase := 16, fmtCase := True\<rparr>) args
      else if c = CHR ''c'' then
        Option.bind (va_int args) (\<lambda>(v, args). Some (f\<lparr>state := pfState_chars\<rparr>, args,
          alt_log_repchar (CHR '' '') (fmtBeforeDecimal f - 1) @ [putchar v]))
      else if c = CHR ''s'' then
        Option.bind (va_str args) (\<lambda>(s, args). Some (f\<lparr>state := pfState_chars\<rparr>, args,
          alt_log_repchar (CHR '' '') (fmtBeforeDecimal f - int (length s)) @ s))
      else Some (f\<lparr>state := pfState_chars\<rparr>, args, []))"

text \<open>The two numbers of a format are C ints: a result outside their range is undefined.\<close>

definition c_int :: "int \<Rightarrow> int option" where
  "c_int n = (if - 0x80000000 \<le> n \<and> n \<le> 0x7FFFFFFF then Some n else None)"

text \<open>The label otherFmtChar: a character of the format after the first.\<close>

definition log_other_char :: "char \<Rightarrow> log_fmt \<Rightarrow> va list \<Rightarrow> (log_fmt \<times> va list \<times> string) option" where
  "log_other_char c f args =
     (if c = CHR ''.'' then Some (f\<lparr>fmtAfterDecimal := 0\<rparr>, args, [])
      else if 48 \<le> (of_char c :: int) \<and> (of_char c :: int) \<le> 57 then
        (if fmtAfterDecimal f < 0 then
           map_option (\<lambda>n. (f\<lparr>fmtBeforeDecimal := n\<rparr>, args, []))
             (c_int ((if fmtBeforeDecimal f < 0 then 0 else fmtBeforeDecimal f * 10) + (of_char c - 48)))
         else
           map_option (\<lambda>n. (f\<lparr>fmtAfterDecimal := n\<rparr>, args, []))
             (c_int (fmtAfterDecimal f * 10 + (of_char c - 48))))
      else if c = CHR ''l'' then Some (f\<lparr>fmtLong := True\<rparr>, args, [])
      else log_convert c f args)"

definition log_start :: "log_fmt \<Rightarrow> log_fmt" where
  "log_start f = f\<lparr>fmtLeadingZero := False, fmtLong := False, fmtBase := 10, fmtSigned := True,
     fmtCase := False, fmtBeforeDecimal := -1, fmtAfterDecimal := -1, state := pfState_firstFmtChar\<rparr>"

definition log_char :: "char \<Rightarrow> log_fmt \<Rightarrow> va list \<Rightarrow> (log_fmt \<times> va list \<times> string) option" where
  "log_char c f args =
     (case state f of
        pfState_chars \<Rightarrow>
          if c = CHR ''%'' then Some (log_start f, args, []) else Some (f, args, [c])
      | pfState_firstFmtChar \<Rightarrow>
          if c = CHR ''0'' then Some (f\<lparr>fmtLeadingZero := True, state := pfState_otherFmtChar\<rparr>, args, [])
          else if c = CHR ''%'' then Some (f\<lparr>state := pfState_chars\<rparr>, args, [c])
          else log_other_char c (f\<lparr>state := pfState_otherFmtChar\<rparr>) args
      | pfState_otherFmtChar \<Rightarrow> log_other_char c f args)"

fun log_loop :: "string \<Rightarrow> log_fmt \<Rightarrow> va list \<Rightarrow> (log_fmt \<times> va list \<times> string) option" where
  "log_loop [] f args = Some (f, args, [])"
| "log_loop (c # w) f args =
     Option.bind (log_char c f args) (\<lambda>(f, args, out).
       map_option (\<lambda>(f, args, out'). (f, args, out @ out')) (log_loop w f args))"

definition log_zero :: log_fmt where
  "log_zero = \<lparr>state = pfState_chars, fmtLeadingZero = False, fmtLong = False, fmtBeforeDecimal = 0,
     fmtAfterDecimal = 0, fmtBase = 0, fmtSigned = False, fmtCase = False\<rparr>"

definition alt_log_private_printf :: "string \<Rightarrow> va list \<Rightarrow> string option" where
  "alt_log_private_printf fmt args = map_option (\<lambda>(f, args, out). out) (log_loop fmt log_zero args)"

end
