(* ===== verification/Hal_Print_Props.thy ===== *)
theory Hal_Print_Props
  imports Hal_Print
begin

text \<open>
  What the printf functions print: their numbers are the positional notation of the value, in
  every base and width; the state machine of the log printf implements the meaning of a format,
  whatever its directives; and both functions print hexadecimal numbers alike.
\<close>

section \<open>Positional notation\<close>

text \<open>The reference: the digits of a number, most significant first, and their value.\<close>

fun digits :: "nat \<Rightarrow> nat \<Rightarrow> nat list" where
  "digits b n = (if b \<le> 1 \<or> n < b then [n] else digits b (n div b) @ [n mod b])"

declare digits.simps [simp del]

definition digits_value :: "nat \<Rightarrow> nat list \<Rightarrow> nat" where
  "digits_value b ds = foldl (\<lambda>a d. a * b + d) 0 ds"

definition digit_char :: "bool \<Rightarrow> nat \<Rightarrow> char" where
  "digit_char upper d = char_of (if d < 10 then 48 + d else if upper then 55 + d else 87 + d)"

lemma digits_value_Nil [simp]: "digits_value b [] = 0"
  by (simp add: digits_value_def)

lemma digits_value_digits: "1 < b \<Longrightarrow> digits_value b (digits b n) = n"
proof (induction b n rule: digits.induct)
  case (1 b n)
  then show ?case by (subst digits.simps) (auto simp: digits_value_def)
qed

lemma digits_bound: "1 < b \<Longrightarrow> d \<in> set (digits b n) \<Longrightarrow> d < b"
proof (induction b n rule: digits.induct)
  case (1 b n)
  then show ?case by (subst (asm) digits.simps) (auto split: if_splits)
qed

lemma digits_no_leading_zero: "1 < b \<Longrightarrow> 0 < n \<Longrightarrow> digits b n \<noteq> [] \<and> hd (digits b n) \<noteq> 0"
proof (induction b n rule: digits.induct)
  case (1 b n)
  show ?case
  proof (cases "n < b")
    case False
    then have "0 < n div b" using 1(2) by (simp add: div_greater_zero_iff)
    then have "digits b (n div b) \<noteq> [] \<and> hd (digits b (n div b)) \<noteq> 0" using 1 False by simp
    then show ?thesis using 1(2) False by (subst (1 2) digits.simps) simp
  qed (use 1 in \<open>simp add: digits.simps [of b n]\<close>)
qed

lemma digits_power: "1 < b \<Longrightarrow> b ^ k \<le> n \<or> k = 0 \<Longrightarrow> n < b ^ Suc k \<Longrightarrow> length (digits b n) = Suc k"
proof (induction k arbitrary: n)
  case 0
  then show ?case by (subst digits.simps) simp
next
  case (Suc k)
  then have le: "b ^ Suc k \<le> n" by simp
  moreover have "b \<le> b ^ Suc k" using Suc.prems(1) by simp
  ultimately have "\<not> n < b" by linarith
  moreover have "b ^ k \<le> n div b" using le Suc.prems(1) by (simp add: less_eq_div_iff_mult_less_eq mult.commute)
  moreover have "n div b < b ^ Suc k" using Suc.prems by (simp add: div_less_iff_less_mult mult.commute)
  ultimately have "length (digits b (n div b)) = Suc k" using Suc by blast
  then show ?case using \<open>\<not> n < b\<close> Suc.prems(1) by (subst digits.simps) simp
qed

text \<open>Emitting digits from the largest power of the base downwards.\<close>

fun emit :: "nat \<Rightarrow> nat \<Rightarrow> nat \<Rightarrow> nat list" where
  "emit b v 0 = [v]"
| "emit b v (Suc k) = v div b ^ Suc k # emit b (v mod b ^ Suc k) k"

lemma emit_snoc: "1 < b \<Longrightarrow> emit b v (Suc k) = emit b (v div b) k @ [v mod b]"
proof (induction k arbitrary: v)
  case (Suc k)
  have e: "v mod b ^ Suc (Suc k) div b = (v div b) mod b ^ Suc k"
    using Suc.prems by (simp add: mod_mult2_eq [of v b "b * b ^ k"])
  have m: "v mod b ^ Suc (Suc k) mod b = v mod b" by (simp add: mod_mod_cancel)
  have "emit b v (Suc (Suc k)) = v div b ^ Suc (Suc k) # emit b (v mod b ^ Suc (Suc k)) (Suc k)" by simp
  also have "\<dots> = v div b ^ Suc (Suc k) # emit b ((v div b) mod b ^ Suc k) k @ [v mod b]"
    using Suc.IH [OF Suc.prems] e m by simp
  also have "v div b ^ Suc (Suc k) = (v div b) div b ^ Suc k" by (simp add: div_mult2_eq)
  finally show ?case by simp
qed simp

lemma emit_digits:
  "1 < b \<Longrightarrow> b ^ k \<le> v \<or> k = 0 \<Longrightarrow> v < b ^ Suc k \<Longrightarrow> emit b v k = digits b v"
proof (induction k arbitrary: v)
  case 0
  then show ?case by (subst digits.simps) simp
next
  case (Suc k)
  then have le: "b ^ Suc k \<le> v" by simp
  moreover have "b \<le> b ^ Suc k" using Suc.prems(1) by simp
  ultimately have nb: "\<not> v < b" by linarith
  have "b ^ k \<le> v div b" using le Suc.prems(1) by (simp add: less_eq_div_iff_mult_less_eq mult.commute)
  moreover have "v div b < b ^ Suc k" using Suc.prems by (simp add: div_less_iff_less_mult mult.commute)
  ultimately have "emit b (v div b) k = digits b (v div b)" using Suc by blast
  then show ?case using emit_snoc [OF Suc.prems(1)] nb Suc.prems(1) by (subst digits.simps) simp
qed

section \<open>The log printf prints positional notation\<close>

lemma log_digit_char: "d < 16 \<Longrightarrow> log_digit upper (ucast (of_nat d :: u32)) = digit_char upper d"
proof -
  have "\<forall>d \<in> set [0..<16]. log_digit upper (ucast (of_nat d :: u32)) = digit_char upper d"
    by (cases upper) (simp_all add: log_digit_def digit_char_def Let_def upt_rec)
  then show "d < 16 \<Longrightarrow> ?thesis" by simp
qed

text \<open>The counting loop finds the number of digits and the power that starts the output.\<close>

lemma digit_count_power:
  assumes "1 < unat b" "unat v < unat b ^ Suc k" "unat b ^ k \<le> unat v \<or> k = 0"
    and "unat p * unat b ^ k < 2 ^ 32"
  shows "digit_count b v p n = (p * b ^ k, n + int k)"
  using assms(2-4)
proof (induction k arbitrary: v p n)
  case 0
  then have "unat v div unat b = 0" by simp
  then have "v div b = 0" by (simp add: unat_eq_zero [symmetric] unat_div_distrib)
  then show ?case by (simp add: digit_count.simps [of b v])
next
  case (Suc k)
  let ?B = "unat b"
  have le: "?B ^ Suc k \<le> unat v" using Suc.prems(2) by simp
  have q: "?B ^ k \<le> unat (v div b)" "unat (v div b) < ?B ^ Suc k"
    using le Suc.prems(1) assms(1)
    by (simp_all add: unat_div_distrib less_eq_div_iff_mult_less_eq div_less_iff_less_mult mult.commute)
  then have "0 < unat (v div b)" using assms(1) by (metis gr0I not_le zero_less_power less_trans zero_less_one)
  then have go: "1 < b \<and> 0 < v div b" using assms(1) by (simp add: word_less_nat_alt)
  have "?B ^ 1 \<le> ?B ^ Suc k" using assms(1) by (intro power_increasing) simp_all
  then have "unat p * ?B \<le> unat p * ?B ^ Suc k" by (metis mult_le_mono2 power_one_right)
  then have "unat p * ?B < 2 ^ LENGTH(32)" by (rule le_less_trans) (use Suc.prems(3) in simp)
  then have pb: "unat (p * b) = unat p * ?B" by (simp add: unat_mult_lem [THEN iffD1])
  have "digit_count b (v div b) (p * b) (n + 1) = (p * b * b ^ k, n + 1 + int k)"
    using Suc.prems(3) q pb by (intro Suc.IH) (simp_all add: mult.assoc)
  then show ?case using go by (simp add: digit_count.simps [of b v] mult.assoc)
qed

lemma digit_out_emit:
  assumes "1 < unat b" "unat b \<le> 16" "unat v < unat b ^ Suc k" "unat p = unat b ^ k"
  shows "digit_out b upper v p = map (digit_char upper) (emit (unat b) (unat v) k)"
  using assms(3,4)
proof (induction k arbitrary: v p)
  case 0
  then have "unat p = unat (1 :: u32)" by simp
  then have p: "p = 1" by (rule unsigned_word_eqI)
  have b: "1 < b" using assms(1) by (simp add: word_less_nat_alt)
  have v: "unat v < 16" using 0 assms(2) by simp
  have "unat ((1 :: u32) div b) = 0" unfolding unat_div_distrib using assms(1) by simp
  then have z: "(1 :: u32) div b = 0" by (simp only: unat_eq_zero)
  have "digit_out b upper v p = [log_digit upper (ucast v)]"
    using p b z by (simp add: digit_out.simps [of b upper v] digit_out.simps [of b upper _ 0])
  then show ?case using log_digit_char [OF v, of upper] by simp
next
  case (Suc k)
  let ?B = "unat b"
  have b: "1 < b" using assms(1) by (simp add: word_less_nat_alt)
  have pp: "0 < ?B ^ Suc k" using assms(1) by simp
  then have p0: "p \<noteq> 0" using Suc.prems(2) by (metis unat_0 less_irrefl)
  have d: "unat (v div p) = unat v div ?B ^ Suc k" using Suc.prems(2) by (simp add: unat_div_distrib)
  have "unat v div ?B ^ Suc k < ?B"
    using Suc.prems(1) pp by (simp add: div_less_iff_less_mult)
  then have d16: "unat (v div p) < 16" using d assms(2) by simp
  have m: "unat (v mod p) = unat v mod ?B ^ Suc k" using Suc.prems(2) by (simp add: unat_mod_distrib)
  have r: "unat (p div b) = ?B ^ k" using Suc.prems(2) assms(1) by (simp add: unat_div_distrib)
  have "unat (v mod p) < ?B ^ Suc k" using m pp by simp
  from Suc.IH [OF this r] have
    "digit_out b upper (v mod p) (p div b) = map (digit_char upper) (emit ?B (unat v mod ?B ^ Suc k) k)"
    by (simp add: m)
  moreover have "log_digit upper (ucast (v div p)) = digit_char upper (unat (v div p))"
    using log_digit_char [OF d16, of upper] by simp
  ultimately show ?case using p0 b d by (simp add: digit_out.simps [of b upper v p])
qed

lemma power_between: "1 < b \<Longrightarrow> \<exists>k. (b ^ k \<le> n \<or> k = 0) \<and> n < b ^ Suc k" for b n :: nat
proof (induction b n rule: digits.induct)
  case (1 b n)
  show ?case
  proof (cases "n < b")
    case True
    then show ?thesis by (intro exI [of _ 0]) simp
  next
    case False
    then obtain k where "b ^ k \<le> n div b \<or> k = 0" "n div b < b ^ Suc k" using 1 by auto
    moreover have "1 \<le> n div b" using False 1(2) by (simp add: div_greater_zero_iff Suc_leI)
    ultimately show ?thesis using 1(2)
      by (intro exI [of _ "Suc k"])
        (auto simp: less_eq_div_iff_mult_less_eq div_less_iff_less_mult mult.commute)
  qed
qed

lemma digit_loops:
  assumes "1 < unat b" "unat b \<le> 16"
  shows "\<exists>p. digit_count b v 1 1 = (p, int (length (digits (unat b) (unat v)))) \<and>
    digit_out b upper v p = map (digit_char upper) (digits (unat b) (unat v))"
proof -
  obtain k where k: "unat b ^ k \<le> unat v \<or> k = 0" "unat v < unat b ^ Suc k"
    using power_between [OF assms(1)] by blast
  have v: "unat v < 2 ^ 32" using unsigned_less [of v] by simp
  have small: "unat b ^ k < 2 ^ LENGTH(32)" using k(1) v by auto
  then have p: "unat (b ^ k) = unat b ^ k" by (rule unat_pow_small)
  have "digit_count b v 1 1 = (b ^ k, 1 + int k)"
    using digit_count_power [OF assms(1) k(2,1), of 1] small by simp
  moreover have "length (digits (unat b) (unat v)) = Suc k" using digits_power [OF assms(1) k] .
  moreover have "digit_out b upper v (b ^ k) = map (digit_char upper) (digits (unat b) (unat v))"
    using digit_out_emit [OF assms k(2) p] emit_digits [OF assms(1) k] by simp
  ultimately show ?thesis by simp
qed

section \<open>The meaning of a format\<close>

text \<open>
  A format as the documentation describes it: text, the percent sign, and conversions with an
  optional 0 flag, a width, an optional \<open>l\<close> and a conversion letter; and how it is written.
\<close>

datatype conv = Signed_d | Signed_i | Unsigned | Octal | Hex | HEX | Character | String

datatype item = Text char | Percent | Conv bool "nat list" bool conv

fun conv_letter :: "conv \<Rightarrow> char" where
  "conv_letter Signed_d = CHR ''d''"
| "conv_letter Signed_i = CHR ''i''"
| "conv_letter Unsigned = CHR ''u''"
| "conv_letter Octal = CHR ''o''"
| "conv_letter Hex = CHR ''x''"
| "conv_letter HEX = CHR ''X''"
| "conv_letter Character = CHR ''c''"
| "conv_letter String = CHR ''s''"

fun item_source :: "item \<Rightarrow> string" where
  "item_source (Text c) = [c]"
| "item_source Percent = ''%%''"
| "item_source (Conv zero ws long k) =
     ''%'' @ (if zero then ''0'' else []) @ map (digit_char False) ws @ (if long then ''l'' else []) @ [conv_letter k]"

fun item_ok :: "item \<Rightarrow> bool" where
  "item_ok (Text c) \<longleftrightarrow> c \<noteq> CHR ''%''"
| "item_ok Percent \<longleftrightarrow> True"
| "item_ok (Conv zero ws long k) \<longleftrightarrow> (\<forall>d \<in> set ws. d < 10) \<and> (zero \<or> ws = [] \<or> hd ws \<noteq> 0) \<and>
     digits_value 10 ws < 2 ^ 31"

text \<open>The text of an integer: its sign and digits, filled up to the width on the left.\<close>

definition filled :: "bool \<Rightarrow> nat \<Rightarrow> string \<Rightarrow> string \<Rightarrow> string" where
  "filled zero w sign body =
     (let n = w - length (sign @ body)
      in if zero then sign @ replicate n (CHR ''0'') @ body else replicate n (CHR '' '') @ sign @ body)"

definition number :: "bool \<Rightarrow> nat \<Rightarrow> bool \<Rightarrow> nat \<Rightarrow> bool \<Rightarrow> u32 \<Rightarrow> string" where
  "number zero w is_signed b upper v =
     (if is_signed \<and> sint v < 0
      then filled zero w ''-'' (map (digit_char upper) (digits b (nat (- sint v))))
      else filled zero w [] (map (digit_char upper) (digits b (unat v))))"

fun conv_text :: "conv \<Rightarrow> bool \<Rightarrow> nat \<Rightarrow> va \<Rightarrow> string option" where
  "conv_text Character zero w (VInt v) = Some (replicate (w - 1) (CHR '' '') @ [putchar v])"
| "conv_text String zero w (VStr s) = Some (replicate (w - length s) (CHR '' '') @ s)"
| "conv_text Signed_d zero w (VInt v) = Some (number zero w True 10 False v)"
| "conv_text Signed_i zero w (VInt v) = Some (number zero w True 10 False v)"
| "conv_text Unsigned zero w (VInt v) = Some (number zero w False 10 False v)"
| "conv_text Octal zero w (VInt v) = Some (number zero w False 8 False v)"
| "conv_text Hex zero w (VInt v) = Some (number zero w False 16 False v)"
| "conv_text HEX zero w (VInt v) = Some (number zero w False 16 True v)"
| "conv_text Character _ _ (VStr s) = None"
| "conv_text String _ _ (VInt v) = None"
| "conv_text Signed_d _ _ (VStr s) = None"
| "conv_text Signed_i _ _ (VStr s) = None"
| "conv_text Unsigned _ _ (VStr s) = None"
| "conv_text Octal _ _ (VStr s) = None"
| "conv_text Hex _ _ (VStr s) = None"
| "conv_text HEX _ _ (VStr s) = None"

fun items_text :: "item list \<Rightarrow> va list \<Rightarrow> string option" where
  "items_text [] args = Some []"
| "items_text (Text c # is) args = map_option (\<lambda>out. c # out) (items_text is args)"
| "items_text (Percent # is) args = map_option (\<lambda>out. CHR ''%'' # out) (items_text is args)"
| "items_text (Conv zero ws long k # is) [] = None"
| "items_text (Conv zero ws long k # is) (a # args) =
     Option.bind (conv_text k zero (digits_value 10 ws) a) (\<lambda>s. map_option (\<lambda>out. s @ out) (items_text is args))"

text \<open>A negative word: its magnitude is what the code negates.\<close>

lemma msb_sint: "v AND 0x80000000 \<noteq> 0 \<longleftrightarrow> sint v < 0" for v :: u32
proof -
  have "v AND 0x80000000 \<noteq> 0 \<longleftrightarrow> bit v 31"
    using and_exp_eq_0_iff_not_bit [of v 31] by simp
  moreover have "bit v 31 \<longleftrightarrow> sint v < 0"
    by transfer simp
  ultimately show ?thesis by simp
qed

lemma negated_unat: "sint v < 0 \<Longrightarrow> unat (NOT v + 1) = nat (- sint v)" for v :: u32
proof -
  assume neg: "sint v < 0"
  have lo: "- (2 ^ 31) \<le> sint v" using sint_greater_eq [of v] by simp
  have "NOT v + 1 = - v" by (simp add: minus_eq_not_plus_1)
  also have "- v = word_of_int (- sint v)" by simp
  finally have "uint (NOT v + 1) = (- sint v) mod 2 ^ 32"
    by (simp only: uint_word_of_int_eq take_bit_eq_mod) simp
  also have "\<dots> = - sint v" using neg lo by (intro mod_pos_pos_trivial) simp_all
  finally show ?thesis by (simp only: unat_eq_nat_uint)
qed

lemma log_integer_number:
  assumes "fmtBeforeDecimal f = (if ws = [] then -1 else int w)" "ws = [] \<Longrightarrow> w = 0"
    and "unat (fmtBase f) \<in> {8, 10, 16}"
  shows "log_integer f v = number (fmtLeadingZero f) w (fmtSigned f) (unat (fmtBase f)) (fmtCase f) v"
proof -
  have b: "1 < unat (fmtBase f)" "unat (fmtBase f) \<le> 16" using assms(3) by auto
  define sign where "sign = (fmtSigned f \<and> v AND 0x80000000 \<noteq> 0)"
  define x where "x = (if sign then NOT v + 1 else v)"
  define body where "body = map (digit_char (fmtCase f)) (digits (unat (fmtBase f)) (unat x))"
  obtain p where p: "digit_count (fmtBase f) x 1 1 = (p, int (length body))"
    "digit_out (fmtBase f) (fmtCase f) x p = body"
    using digit_loops [OF b, of x "fmtCase f"] by (auto simp: body_def)
  have ne: "0 < length body"
  proof -
    have "digits (unat (fmtBase f)) (unat x) \<noteq> []" by (subst digits.simps) simp
    then show ?thesis by (simp add: body_def)
  qed
  have w: "nat (fmtBeforeDecimal f - int k) = w - k" if "0 < k" for k
    using assms(1,2) that by auto
  have w1: "nat (fmtBeforeDecimal f - int (length body)) = w - length body"
    "nat (fmtBeforeDecimal f - int (length body) - 1) = w - Suc (length body)"
    using w [OF ne] w [of "Suc (length body)"] by (simp_all add: algebra_simps)
  have "log_integer f v = filled (fmtLeadingZero f) w (if sign then ''-'' else []) body"
    unfolding log_integer_def sign_def [symmetric] Let_def x_def [symmetric] p
    by (simp add: alt_log_repchar_def filled_def w1 p Let_def)
  moreover have "number (fmtLeadingZero f) w (fmtSigned f) (unat (fmtBase f)) (fmtCase f) v =
      filled (fmtLeadingZero f) w (if sign then ''-'' else []) body"
    using negated_unat [of v] by (simp add: number_def body_def x_def sign_def msb_sint)
  ultimately show ?thesis by simp
qed

subsection \<open>The state machine reads an item\<close>

lemma log_loop_append:
  "log_loop (xs @ ys) f args = Option.bind (log_loop xs f args) (\<lambda>(f, args, out).
     map_option (\<lambda>(f, args, out'). (f, args, out @ out')) (log_loop ys f args))"
proof (induction xs arbitrary: f args)
  case Nil
  show ?case by (cases "log_loop ys f args") auto
next
  case (Cons c xs)
  show ?case
  proof (cases "log_char c f args")
    case (Some r)
    obtain f' args' out where r: "r = (f', args', out)" by (cases r)
    show ?thesis
    proof (cases "log_loop xs f' args'")
      case (Some r')
      then show ?thesis using \<open>log_char c f args = Some r\<close> r Cons.IH
        by (auto simp: option.map_comp o_def split_beta intro: option.map_cong0 split: prod.splits)
    qed (simp add: \<open>log_char c f args = Some r\<close> r Cons.IH)
  qed simp
qed

lemma log_silent:
  "log_char c f args = Some (f', args', []) \<Longrightarrow> log_loop (c # w) f args = log_loop w f' args'"
  by (cases "log_loop w f' args'") auto

definition add_width :: "nat \<Rightarrow> log_fmt \<Rightarrow> log_fmt" where
  "add_width d f = f\<lparr>fmtBeforeDecimal := (if fmtBeforeDecimal f < 0 then 0 else fmtBeforeDecimal f * 10) + int d\<rparr>"

lemma add_width_frame [simp]:
  "state (add_width d f) = state f" "fmtAfterDecimal (add_width d f) = fmtAfterDecimal f"
  by (simp_all add: add_width_def)

lemma digit_char_code: "d < 10 \<Longrightarrow> (of_char (digit_char False d) :: int) = 48 + int d"
  by (subst of_nat_of_char [symmetric]) (simp add: digit_char_def)

lemma log_other_digit:
  assumes "d < 10" "fmtAfterDecimal f < 0" "nat (fmtBeforeDecimal f) * 10 + d < 2 ^ 31"
  shows "log_other_char (digit_char False d) f args = Some (add_width d f, args, [])"
proof -
  have "(if fmtBeforeDecimal f < 0 then 0 else fmtBeforeDecimal f * 10) + int d < 2147483648"
    using assms(3) by (auto simp: zless_nat_eq_int_zless nat_less_iff)
  then have n: "c_int ((if fmtBeforeDecimal f < 0 then 0 else fmtBeforeDecimal f * 10) + int d) =
      Some ((if fmtBeforeDecimal f < 0 then 0 else fmtBeforeDecimal f * 10) + int d)"
    by (cases "fmtBeforeDecimal f < 0") (simp_all add: c_int_def)
  have c: "(of_char (digit_char False d) :: int) = 48 + int d" by (rule digit_char_code [OF assms(1)])
  then have "digit_char False d \<noteq> CHR ''.''" using assms(1) by (auto simp del: of_char_of)
  then show ?thesis using assms(1,2) c n by (simp add: log_other_char_def add_width_def)
qed

lemma width_grows: "n \<le> foldl (\<lambda>a d. a * 10 + d) n (ws :: nat list)"
proof (induction ws arbitrary: n)
  case (Cons d ws)
  from Cons [of "n * 10 + d"] show ?case by simp
qed simp

lemma log_loop_width:
  assumes "\<forall>d \<in> set ws. d < 10" "state f = pfState_otherFmtChar" "fmtAfterDecimal f < 0"
    and "foldl (\<lambda>a d. a * 10 + d) (nat (fmtBeforeDecimal f)) ws < 2 ^ 31"
  shows "log_loop (map (digit_char False) ws) f args = Some (fold add_width ws f, args, [])"
  using assms
proof (induction ws arbitrary: f)
  case (Cons d ws)
  have n: "nat (fmtBeforeDecimal (add_width d f)) = nat (fmtBeforeDecimal f) * 10 + d"
    by (simp add: add_width_def nat_add_distrib nat_mult_distrib)
  have "nat (fmtBeforeDecimal f) * 10 + d < 2 ^ 31"
    using Cons.prems(4) width_grows [of "nat (fmtBeforeDecimal f) * 10 + d" ws] by simp
  moreover have "foldl (\<lambda>a d. a * 10 + d) (nat (fmtBeforeDecimal (add_width d f))) ws < 2 ^ 31"
    using Cons.prems(4) unfolding n by simp
  ultimately show ?case using Cons.IH [of "add_width d f"] Cons.prems(1-3) by (simp add: log_char_def log_other_digit)
qed simp

lemma fold_add_width:
  "0 \<le> fmtBeforeDecimal f \<Longrightarrow>
   fold add_width ws f = f\<lparr>fmtBeforeDecimal := int (foldl (\<lambda>a d. a * 10 + d) (nat (fmtBeforeDecimal f)) ws)\<rparr>"
proof (induction ws arbitrary: f)
  case (Cons d ws)
  then have "0 \<le> fmtBeforeDecimal (add_width d f)" by (simp add: add_width_def)
  from Cons.IH [OF this] Cons.prems show ?case by (simp add: add_width_def nat_add_distrib nat_mult_distrib)
qed simp

lemma fold_add_width_start:
  assumes "fmtBeforeDecimal f = -1"
  shows "fold add_width ws f =
    f\<lparr>fmtBeforeDecimal := (if ws = [] then -1 else int (digits_value 10 ws))\<rparr>"
proof (cases ws)
  case (Cons d ws')
  have "add_width d f = f\<lparr>fmtBeforeDecimal := int d\<rparr>" using assms by (simp add: add_width_def)
  then show ?thesis using Cons fold_add_width [of "add_width d f" ws'] by (simp add: digits_value_def)
qed (use assms in simp)

text \<open>The format variables when the conversion letter is reached.\<close>

definition spec_fmt :: "bool \<Rightarrow> nat list \<Rightarrow> log_fmt" where
  "spec_fmt zero ws = \<lparr>state = pfState_otherFmtChar, fmtLeadingZero = zero, fmtLong = False,
     fmtBeforeDecimal = (if ws = [] then -1 else int (digits_value 10 ws)), fmtAfterDecimal = -1,
     fmtBase = 10, fmtSigned = True, fmtCase = False\<rparr>"

lemma log_start_fmt:
  "log_start f = (spec_fmt False [])\<lparr>state := pfState_firstFmtChar\<rparr>"
  by (cases f) (simp add: log_start_def spec_fmt_def)

lemma log_loop_first:
  assumes "c \<noteq> CHR ''0''" "c \<noteq> CHR ''%''"
  shows "log_loop (c # w) (f\<lparr>state := pfState_firstFmtChar\<rparr>) args =
    log_loop (c # w) (f\<lparr>state := pfState_otherFmtChar\<rparr>) args"
  using assms by (simp add: log_char_def)

lemma digit_not_special:
  assumes "d < 10"
  shows "digit_char False d \<noteq> CHR ''%''" "0 < d \<Longrightarrow> digit_char False d \<noteq> CHR ''0''"
  using digit_char_code [OF assms] by (auto simp del: of_char_of)

lemma letter_not_special [simp]:
  "conv_letter k \<noteq> CHR ''0''" "conv_letter k \<noteq> CHR ''%''" "conv_letter k \<noteq> CHR ''l''"
  by (cases k; simp)+

text \<open>Up to the letter, the machine only sets its variables.\<close>

lemma log_loop_prefix:
  assumes "item_ok (Conv zero ws long k)" "state f = pfState_chars"
  shows "log_loop (item_source (Conv zero ws long k)) f args =
    log_loop [conv_letter k] ((spec_fmt zero ws)\<lparr>fmtLong := long\<rparr>) args"
proof -
  let ?S = "spec_fmt zero []"
  let ?w = "map (digit_char False) ws" and ?l = "if long then ''l'' else []"
  have d: "\<forall>d \<in> set ws. d < 10" using assms(1) by simp
  let ?r = "?w @ ?l @ [conv_letter k]"
  have pc: "log_char CHR ''%'' f args = Some (log_start f, args, [])" using assms(2) by (simp add: log_char_def)
  have start: "log_loop (item_source (Conv zero ws long k)) f args = log_loop ?r ?S args"
  proof (cases zero)
    case True
    then have "log_char CHR ''0'' (log_start f) args = Some (?S, args, [])"
      by (simp add: log_char_def log_start_fmt) (simp add: spec_fmt_def)
    then show ?thesis using True log_silent [OF pc, of "CHR ''0'' # ?r"] log_silent [of "CHR ''0''"] by simp
  next
    case False
    obtain c rest where c: "?r = c # rest" by (cases ?r) auto
    have "c \<noteq> CHR ''0'' \<and> c \<noteq> CHR ''%''"
    proof (cases ws)
      case Nil
      then show ?thesis using c by (cases long) auto
    next
      case (Cons e es)
      then show ?thesis using c assms(1) False digit_not_special [of e] by auto
    qed
    then have "log_loop ?r (log_start f) args = log_loop ?r (?S\<lparr>state := pfState_otherFmtChar\<rparr>) args"
      unfolding c log_start_fmt using False log_loop_first by simp
    moreover have "?S\<lparr>state := pfState_otherFmtChar\<rparr> = ?S" by (simp add: spec_fmt_def)
    ultimately show ?thesis using False log_silent [OF pc, of ?r] by simp
  qed
  have "fold add_width ws ?S = spec_fmt zero ws"
    by (subst fold_add_width_start) (simp_all add: spec_fmt_def)
  then have "log_loop ?w ?S args = Some (spec_fmt zero ws, args, [])"
    using log_loop_width [OF d, of ?S] assms(1) by (simp add: spec_fmt_def digits_value_def)
  then have "log_loop (?w @ ?l @ [conv_letter k]) ?S args = log_loop (?l @ [conv_letter k]) (spec_fmt zero ws) args"
    by (simp only: log_loop_append Option.bind.bind_lunit prod.case append_Nil) (cases long, simp_all add: split_beta option.map_ident option.map_id)
  also have "\<dots> = log_loop [conv_letter k] ((spec_fmt zero ws)\<lparr>fmtLong := long\<rparr>) args"
  proof (cases long)
    case False
    then have "(spec_fmt zero ws)\<lparr>fmtLong := long\<rparr> = spec_fmt zero ws" by (simp add: spec_fmt_def)
    then show ?thesis using False by simp
  next
    case True
    then have "log_char CHR ''l'' (spec_fmt zero ws) args = Some ((spec_fmt zero ws)\<lparr>fmtLong := long\<rparr>, args, [])"
      by (simp add: log_char_def log_other_char_def spec_fmt_def)
    from log_silent [OF this, of "[conv_letter k]"] True show ?thesis by (simp del: log_loop.simps)
  qed
  finally show ?thesis using start by simp
qed

text \<open>The letter prints what the conversion means.\<close>

lemma print_integer_number:
  assumes "fmtBeforeDecimal f = (if ws = [] then -1 else int (digits_value 10 ws))"
    and "unat (fmtBase f) \<in> {8, 10, 16}"
  shows "print_integer f (VInt v # args) = Some (f\<lparr>state := pfState_chars\<rparr>, args,
    number (fmtLeadingZero f) (digits_value 10 ws) (fmtSigned f) (unat (fmtBase f)) (fmtCase f) v)"
  using log_integer_number [OF assms(1) _ assms(2)] by (simp add: print_integer_def)

lemma log_loop_single: "log_loop [c] f args = log_char c f args"
  by (cases "log_char c f args") (simp_all add: split_beta)

lemma log_convert_letter:
  "log_loop [conv_letter k] ((spec_fmt zero ws)\<lparr>fmtLong := long\<rparr>) args =
     log_convert (conv_letter k) ((spec_fmt zero ws)\<lparr>fmtLong := long\<rparr>) args"
proof -
  have "state ((spec_fmt zero ws)\<lparr>fmtLong := long\<rparr>) = pfState_otherFmtChar" by (simp add: spec_fmt_def)
  then show ?thesis unfolding log_loop_single
    by (cases k) (simp_all add: log_char_def log_other_char_def)
qed

lemma state_log_zero [simp]: "state log_zero = pfState_chars"
  by (simp add: log_zero_def)

lemma log_convert_text:
  assumes "conv_text k zero (digits_value 10 ws) a = r"
  shows "\<exists>f'. state f' = pfState_chars \<and>
    log_convert (conv_letter k) ((spec_fmt zero ws)\<lparr>fmtLong := long\<rparr>) (a # args) =
    map_option (\<lambda>s. (f', args, s)) r"
proof (cases a)
  case (VInt v)
  note pn = print_integer_number [of _ ws v args]
  show ?thesis using assms VInt pn
    by (cases k) (auto simp: log_convert_def spec_fmt_def alt_log_repchar_def nat_diff_distrib
        intro: exI [of _ log_zero])
next
  case (VStr s)
  show ?thesis using assms VStr
    by (cases k) (auto simp: log_convert_def spec_fmt_def alt_log_repchar_def print_integer_def nat_minus_as_int
        intro: exI [of _ log_zero])
qed

lemma log_convert_none: "log_convert (conv_letter k) f [] = None"
  by (cases k) (simp_all add: log_convert_def print_integer_def)

lemma log_loop_items:
  assumes "\<forall>i \<in> set is. item_ok i" "state f = pfState_chars"
  shows "map_option (\<lambda>(f, args, out). out) (log_loop (concat (map item_source is)) f args) = items_text is args"
  using assms
proof (induction "is" arbitrary: f args)
  case (Cons i "is")
  let ?w = "concat (map item_source is)"
  have step: "map_option (\<lambda>(f, args, out). out) (log_loop (item_source i @ ?w) f args) =
      map_option (\<lambda>out. s @ out) (items_text is args')"
    if "log_loop (item_source i) f args = Some (f', args', s)" "state f' = pfState_chars" for f' args' s
    using that Cons by (auto simp: log_loop_append option.map_comp o_def split_beta simp flip: Cons.IH)
  have out: "map_option (\<lambda>(f, args, out). out) (log_loop (item_source i @ ?w) f args) = None"
    if "log_loop (item_source i) f args = None"
    using that by (simp add: log_loop_append)
  show ?case
  proof (cases i)
    case (Text c)
    then show ?thesis using step [of f args "[c]"] Cons.prems by (simp add: log_char_def)
  next
    case Percent
    have "log_loop ''%%'' f args = Some ((log_start f)\<lparr>state := pfState_chars\<rparr>, args, ''%'')"
      using Cons.prems(2) by (simp add: log_char_def log_start_def)
    moreover have "(@) ''%'' = (#) CHR ''%''" by auto
    ultimately show ?thesis using step Percent by (simp del: log_loop.simps)
  next
    case (Conv zero ws long k)
    have ok: "item_ok (Conv zero ws long k)" using Cons.prems(1) Conv by simp
    note pre = log_loop_prefix [OF ok Cons.prems(2)] log_convert_letter
    show ?thesis
    proof (cases args)
      case Nil
      then show ?thesis using out Conv pre log_convert_none by simp
    next
      case (Cons a as)
      obtain f' where f': "state f' = pfState_chars"
        "log_loop (item_source i) f args = map_option (\<lambda>s. (f', as, s)) (conv_text k zero (digits_value 10 ws) a)"
        using log_convert_text [where k = k and zero = zero and ws = ws and a = a and long = long and args = as, OF refl] pre Conv Cons by auto
      show ?thesis
      proof (cases "conv_text k zero (digits_value 10 ws) a")
        case None
        then show ?thesis using out f'(2) Conv Cons by simp
      next
        case (Some s)
        then show ?thesis using step f' Conv Cons by simp
      qed
    qed
  qed
qed simp

lemma log_printf_meaning:
  "\<forall>i \<in> set is. item_ok i \<Longrightarrow>
   alt_log_private_printf (concat (map item_source is)) args = items_text is args"
  unfolding alt_log_private_printf_def by (rule log_loop_items) simp_all

lemma items_text_Text:
  "items_text (map Text s @ is) args = map_option (\<lambda>out. s @ out) (items_text is args)"
  by (induction s) (simp_all add: option.map_comp o_def option.map_ident)

lemma source_Text: "concat (map item_source (map Text s)) = s"
  by (induction s) simp_all

section \<open>alt_printf prints the same hexadecimal numbers\<close>

lemma hex_char_digit: "d < 16 \<Longrightarrow> hex_char (of_nat d) = digit_char False d"
proof -
  have "\<forall>d \<in> set [0..<16]. hex_char (of_nat d) = digit_char False d"
    by (simp add: hex_char_def digit_char_def putchar_def upt_rec)
  then show "d < 16 \<Longrightarrow> ?thesis" by simp
qed

lemma unat_masked: "unat (drop_bit (4 * k) (v AND push_bit (4 * k) 0xF)) = (unat v div 16 ^ k) mod 16" for v :: u32
proof -
  have "unat v < 2 ^ LENGTH(32)" by (rule unsigned_less)
  then have v: "take_bit 32 (unat v) = unat v" by (simp add: take_bit_nat_eq_self)
  have "drop_bit (4 * k) (v AND push_bit (4 * k) 0xF) = drop_bit (4 * k) v AND 0xF"
    by (rule bit_word_eqI) (auto simp: bit_simps bit_imp_le_length dest: bit_imp_le_length)
  moreover have "(0xF :: u32) = mask 4" by (simp add: mask_eq_exp_minus_1)
  ultimately have "unat (drop_bit (4 * k) (v AND push_bit (4 * k) 0xF)) = unat (take_bit 4 (drop_bit (4 * k) v))"
    by (simp add: take_bit_eq_mask)
  also have "\<dots> = take_bit 4 (drop_bit (4 * k) (unat v))"
    using v by (simp only: unsigned_take_bit_eq unsigned_drop_bit_eq) simp
  finally show ?thesis by (simp add: take_bit_eq_mod drop_bit_eq_div power_mult)
qed

lemma hex_char_masked:
  "hex_char (drop_bit (4 * k) (v AND push_bit (4 * k) 0xF)) = digit_char False ((unat v div 16 ^ k) mod 16)"
proof -
  let ?d = "drop_bit (4 * k) (v AND push_bit (4 * k) 0xF)"
  have "hex_char (of_nat (unat ?d)) = digit_char False (unat ?d)"
    by (rule hex_char_digit) (subst unat_masked, simp)
  also have "of_nat (unat ?d) = ?d" by simp
  finally show ?thesis by (simp only: unat_masked)
qed

lemma masked_zero: "v AND push_bit m 0xF = 0 \<longleftrightarrow> drop_bit m (v AND push_bit m 0xF) = 0" for v :: u32
proof
  assume z: "drop_bit m (v AND push_bit m 0xF) = 0"
  show "v AND push_bit m 0xF = 0"
  proof (rule bit_word_eqI)
    fix n
    have "\<not> bit (drop_bit m (v AND push_bit m 0xF)) (n - m)" using z by simp
    then show "bit (v AND push_bit m 0xF) n = bit (0 :: u32) n" by (auto simp: bit_simps)
  qed
qed simp

lemma first_digit_power:
  "unat v < 16 ^ Suc k \<Longrightarrow>
   (16 ^ first_digit k v \<le> unat v \<or> first_digit k v = 0) \<and> unat v < 16 ^ Suc (first_digit k v)"
proof (induction k)
  case (Suc k)
  let ?d = "drop_bit (4 * Suc k) (v AND push_bit (4 * Suc k) 0xF)"
  have "unat v div 16 ^ Suc k < 16" using Suc.prems by (simp add: div_less_iff_less_mult)
  then have d: "unat ?d = unat v div 16 ^ Suc k" by (simp only: unat_masked mod_less)
  show ?case
  proof (cases "v AND push_bit (4 * Suc k) 0xF = 0")
    case True
    then have "unat v div 16 ^ Suc k = 0" using d by simp
    then have "unat v < 16 ^ Suc k" by (simp add: div_eq_0_iff)
    then show ?thesis using Suc.IH True by simp
  next
    case False
    then have "?d \<noteq> 0" using masked_zero by blast
    then have "0 < unat v div 16 ^ Suc k" using d by (metis gr0I unat_eq_zero)
    then have "16 ^ Suc k \<le> unat v" by (metis div_less less_irrefl not_le)
    then show ?thesis using False Suc.prems by simp
  qed
qed simp

lemma hex_digits_emit: "hex_digits k v = map (digit_char False) (emit 16 (unat v mod 16 ^ Suc k) k)"
proof (induction k)
  case 0
  have "hex_digits 0 v = [digit_char False (unat v mod 16)]"
    using hex_char_masked [of 0 v] by simp
  then show ?case by simp
next
  case (Suc k)
  let ?w = "unat v mod 16 ^ Suc (Suc k)"
  have "?w div 16 ^ Suc k = (unat v div 16 ^ Suc k) mod 16"
    using mod_mult2_eq [of "unat v" "16 ^ Suc k" 16] by (simp add: mult.commute)
  moreover have "?w mod 16 ^ Suc k = unat v mod 16 ^ Suc k"
    by (rule mod_mod_cancel) simp
  ultimately have e: "emit 16 ?w (Suc k) = (unat v div 16 ^ Suc k) mod 16 # emit 16 (unat v mod 16 ^ Suc k) k"
    by (simp only: emit.simps)
  show ?case unfolding hex_digits.simps hex_char_masked e Suc.IH by simp
qed

lemma print_hex_digits: "print_hex v = map (digit_char False) (digits 16 (unat v))"
proof (cases "v = 0")
  case True
  have "digit_char False 0 = CHR ''0''" by (simp add: digit_char_def char_of_eq_iff)
  then show ?thesis using True by (simp add: print_hex_def digits.simps [of 16 0])
next
  case False
  let ?k = "first_digit 7 v"
  have "unat v < 16 ^ Suc 7" using unsigned_less [of v] by simp
  note k = first_digit_power [OF this]
  then have "hex_digits ?k v = map (digit_char False) (digits 16 (unat v))"
    using emit_digits [of 16 ?k "unat v"] unfolding hex_digits_emit by simp
  then show ?thesis using False by (simp add: print_hex_def)
qed

section \<open>Properties\<close>

text \<open>C16. The state machine of alt_log_private_printf implements formats: for every format made of
  text, percent signs and conversions with optional 0 flag, width (below 2^31) and length, the text printed is
  the concatenation of what its parts mean: numbers in positional notation with their sign, filled
  up to the width, characters and strings; and the result is undefined exactly when the arguments
  do not match.\<close>
theorem log_printf_items:
  assumes "\<forall>i \<in> set is. item_ok i"
  shows "alt_log_private_printf (concat (map item_source is)) args = items_text is args"
  by (rule log_printf_meaning [OF assms])

theorem log_printf_items_witness:
  "alt_log_private_printf ''%04d'' [VInt (- 5)] = items_text [Conv True [4] False Signed_d] [VInt (- 5)]"
proof -
  have "digit_char False 4 = CHR ''4''" by (simp add: digit_char_def char_of_eq_iff)
  then show ?thesis
    using log_printf_items [of "[Conv True [4] False Signed_d]" "[VInt (- 5)]"] by (simp add: digits_value_def)
qed

text \<open>The number printed by %x reads back: the characters are hexadecimal digits whose
  positional value is the argument, without a leading 0, for every 32-bit word; and both printf
  functions of the HAL print the same.\<close>
theorem hex_roundtrip:
  "\<exists>ds. alt_printf ''%x'' [VInt v] = Some (map (digit_char False) ds) \<and>
    alt_log_private_printf ''%x'' [VInt v] = alt_printf ''%x'' [VInt v] \<and>
    digits_value 16 ds = unat v \<and> list_all (\<lambda>d. d < 16) ds \<and> (v = 0 \<and> ds = [0] \<or> v \<noteq> 0 \<and> hd ds \<noteq> 0)"
proof -
  let ?ds = "digits 16 (unat v)"
  have a: "alt_printf ''%x'' [VInt v] = Some (map (digit_char False) ?ds)" by (simp add: print_hex_digits)
  have "alt_log_private_printf ''%x'' [VInt v] = items_text [Conv False [] False Hex] [VInt v]"
    using log_printf_meaning [of "[Conv False [] False Hex]" "[VInt v]"] by (simp add: digits_value_def)
  then have "alt_log_private_printf ''%x'' [VInt v] = alt_printf ''%x'' [VInt v]"
    using a by (simp add: number_def filled_def)
  moreover have "v = 0 \<and> ?ds = [0] \<or> v \<noteq> 0 \<and> hd ?ds \<noteq> 0"
    using digits_no_leading_zero [of 16 "unat v"] by (cases "v = 0") (simp_all add: digits.simps [of 16 0] unat_gt_0)
  ultimately show ?thesis using a digits_value_digits [of 16] digits_bound [of 16]
    by (intro exI [of _ ?ds]) (simp add: list_all_iff)
qed

end
