(* ===== verification/Ring_Buffer.thy ===== *)
theory Ring_Buffer
  imports Prelude
begin

text \<open>
  Circular buffers with one slot kept free: the reading of an array with an in and an out index
  as a queue, and what the two kinds of access of the JTAG UART driver do to it (one element at a
  time in the interrupt handler, a contiguous block in the read and write calls). The locale
  \<open>fifo\<close> is the interface of a bounded queue; its lemmas say that nothing is lost, duplicated
  or reordered between the two ends.
\<close>

section \<open>The queue in the array\<close>

definition rb_contents :: "'a list \<Rightarrow> nat \<Rightarrow> nat \<Rightarrow> 'a list" where
  "rb_contents buf out inn =
     (if out \<le> inn then take (inn - out) (drop out buf) else drop out buf @ take inn buf)"

definition rb_ok :: "nat \<Rightarrow> 'a list \<Rightarrow> nat \<Rightarrow> nat \<Rightarrow> bool" where
  "rb_ok n buf out inn \<longleftrightarrow> 1 < n \<and> length buf = n \<and> out < n \<and> inn < n"

lemma rb_ok_length: "rb_ok n buf out inn \<Longrightarrow> length buf = n"
  by (simp add: rb_ok_def)

lemma rb_length:
  "rb_ok n buf out inn \<Longrightarrow>
   length (rb_contents buf out inn) = (if out \<le> inn then inn - out else n - out + inn)"
  by (auto simp: rb_contents_def rb_ok_def)

lemma rb_bound: "rb_ok n buf out inn \<Longrightarrow> length (rb_contents buf out inn) < n"
  by (auto simp: rb_length rb_ok_def)

lemma rb_empty: "rb_ok n buf out inn \<Longrightarrow> rb_contents buf out inn = [] \<longleftrightarrow> out = inn"
  by (auto simp: rb_contents_def rb_ok_def)

lemma succ_mod: "i < n \<Longrightarrow> 1 < n \<Longrightarrow> (i + 1) mod n = (if i + 1 = n then 0 else i + 1 :: nat)"
  by auto

lemma rb_full:
  assumes "rb_ok n buf out inn"
  shows "(inn + 1) mod n = out \<longleftrightarrow> length (rb_contents buf out inn) = n - 1"
proof (cases "inn + 1 = n")
  case True
  then show ?thesis using assms unfolding rb_length [OF assms] by (auto simp: rb_ok_def)
next
  case False
  then have "inn + 1 < n" using assms by (simp add: rb_ok_def)
  then show ?thesis using assms unfolding rb_length [OF assms] by (auto simp: rb_ok_def)
qed

text \<open>One element in, one element out.\<close>

lemma rb_put_one:
  assumes "rb_ok n buf out inn" "(inn + 1) mod n \<noteq> out"
  shows "rb_contents (buf[inn := x]) out ((inn + 1) mod n) = rb_contents buf out inn @ [x]"
    "rb_ok n (buf[inn := x]) out ((inn + 1) mod n)"
proof -
  have b: "inn < n" "out < n" "1 < n" "length buf = n" using assms(1) by (auto simp: rb_ok_def)
  show "rb_ok n (buf[inn := x]) out ((inn + 1) mod n)" using b by (auto simp: rb_ok_def)
  show "rb_contents (buf[inn := x]) out ((inn + 1) mod n) = rb_contents buf out inn @ [x]"
  proof (cases "inn + 1 = n")
    case True
    then have o: "0 < out" "out \<le> inn" using assms(2) b by auto
    have "drop out (buf[inn := x]) = take (inn - out) (drop out buf) @ [x]"
      using True o b by (intro nth_equalityI) (auto simp: nth_append nth_list_update)
    then show ?thesis using True o by (simp add: rb_contents_def)
  next
    case False
    then have m: "(inn + 1) mod n = inn + 1" using b by simp
    have out: "out \<noteq> inn + 1" using assms(2) m by simp
    show ?thesis
    proof (cases "out \<le> inn")
      case True
      have "take (inn + 1 - out) (drop out (buf[inn := x])) = take (inn - out) (drop out buf) @ [x]"
        using True b by (intro nth_equalityI) (auto simp: nth_append nth_list_update)
      then show ?thesis using True m unfolding rb_contents_def by simp
    next
      case False
      then have "inn + 1 < out" using out by simp
      moreover have "take (inn + 1) (buf[inn := x]) = take inn buf @ [x]"
        using b by (simp add: take_Suc_conv_app_nth)
      ultimately show ?thesis using m unfolding rb_contents_def by simp
    qed
  qed
qed

lemma rb_get_one:
  assumes "rb_ok n buf out inn" "out \<noteq> inn"
  shows "rb_contents buf out inn = buf ! out # rb_contents buf ((out + 1) mod n) inn"
    "rb_ok n buf ((out + 1) mod n) inn"
proof -
  have b: "inn < n" "out < n" "1 < n" "length buf = n" using assms(1) by (auto simp: rb_ok_def)
  show "rb_ok n buf ((out + 1) mod n) inn" using b by (auto simp: rb_ok_def)
  have d: "drop out buf = buf ! out # drop (out + 1) buf" using b by (simp add: Cons_nth_drop_Suc)
  show "rb_contents buf out inn = buf ! out # rb_contents buf ((out + 1) mod n) inn"
  proof (cases "out + 1 = n")
    case True
    then have "drop (out + 1) buf = []" "inn < out" using b assms(2) by auto
    then show ?thesis using True d by (simp add: rb_contents_def)
  next
    case False
    then have "(out + 1) mod n = out + 1" using b by simp
    then show ?thesis
      using d assms(2) unfolding rb_contents_def
      by (cases "out < inn") (auto simp: Suc_diff_Suc take_Cons')
  qed
qed

text \<open>A contiguous block out, as \<open>memcpy\<close> from the array.\<close>

lemma rb_get_block:
  assumes "rb_ok n buf out inn" "k \<le> (if out \<le> inn then inn - out else n - out)"
  shows "take k (drop out buf) = take k (rb_contents buf out inn)"
    "rb_contents buf ((out + k) mod n) inn = drop k (rb_contents buf out inn)"
    "rb_ok n buf ((out + k) mod n) inn"
proof -
  have b: "inn < n" "out < n" "1 < n" "length buf = n" using assms(1) by (auto simp: rb_ok_def)
  show "rb_ok n buf ((out + k) mod n) inn" using b by (auto simp: rb_ok_def)
  show "take k (drop out buf) = take k (rb_contents buf out inn)"
    using assms(2) b by (auto simp: rb_contents_def min_def split: if_splits)
  show "rb_contents buf ((out + k) mod n) inn = drop k (rb_contents buf out inn)"
  proof (cases "out + k = n")
    case True
    then have "inn < out" using assms(2) b by (auto split: if_splits)
    then show ?thesis using True b by (auto simp: rb_contents_def)
  next
    case False
    then have l: "out + k < n" using assms(2) b by (auto split: if_splits)
    then have m: "(out + k) mod n = out + k" by simp
    show ?thesis
    proof (cases "out \<le> inn")
      case True
      then have "out + k \<le> inn" using assms(2) by simp
      then show ?thesis using True m by (simp add: rb_contents_def drop_take add.commute)
    next
      case False
      then have "\<not> out + k \<le> inn" by simp
      then show ?thesis using False m l b by (simp add: rb_contents_def add.commute)
    qed
  qed
qed

text \<open>A contiguous block in, as \<open>memcpy\<close> to the array; the room the driver computes.\<close>

definition memcpy_to :: "'a list \<Rightarrow> nat \<Rightarrow> 'a list \<Rightarrow> 'a list" where
  "memcpy_to buf i xs = take i buf @ xs @ drop (i + length xs) buf"

definition rb_room :: "nat \<Rightarrow> nat \<Rightarrow> nat \<Rightarrow> nat" where
  "rb_room n out inn =
     (if inn < out then out - 1 - inn else if out > 0 then n - inn else n - 1 - inn)"

lemma rb_room_zero:
  assumes "rb_ok n buf out inn"
  shows "rb_room n out inn = 0 \<longleftrightarrow> length (rb_contents buf out inn) = n - 1"
  using assms unfolding rb_length [OF assms] by (auto simp: rb_room_def rb_ok_def)

lemma rb_put_block:
  assumes "rb_ok n buf out inn" "length xs \<le> rb_room n out inn"
  shows "rb_contents (memcpy_to buf inn xs) out ((inn + length xs) mod n) = rb_contents buf out inn @ xs"
    "rb_ok n (memcpy_to buf inn xs) out ((inn + length xs) mod n)"
    "length (rb_contents buf out inn) + length xs < n"
proof -
  have b: "inn < n" "out < n" "1 < n" "length buf = n" using assms(1) by (auto simp: rb_ok_def)
  have len: "inn + length xs \<le> n" using assms(2) b by (auto simp: rb_room_def split: if_splits)
  show "rb_ok n (memcpy_to buf inn xs) out ((inn + length xs) mod n)"
    using b len by (auto simp: rb_ok_def memcpy_to_def)
  show "length (rb_contents buf out inn) + length xs < n"
    using assms(2) b by (auto simp: rb_length [OF assms(1)] rb_room_def split: if_splits)
  show "rb_contents (memcpy_to buf inn xs) out ((inn + length xs) mod n) = rb_contents buf out inn @ xs"
  proof (cases "inn < out")
    case True
    then have "inn + length xs < out" using assms(2) b by (simp add: rb_room_def)
    moreover from this have "(inn + length xs) mod n = inn + length xs" using b by simp
    ultimately show ?thesis using True b by (simp add: rb_contents_def memcpy_to_def)
  next
    case False
    have t: "take (inn - out) (drop out buf) = drop out (take inn buf)" by (simp add: drop_take)
    show ?thesis
    proof (cases "inn + length xs = n")
      case True
      then have "0 < out \<or> xs = [] \<and> inn = n" using assms(2) b by (auto simp: rb_room_def split: if_splits)
      then show ?thesis using True False b t by (auto simp: rb_contents_def memcpy_to_def)
    next
      case less: False
      then have m: "(inn + length xs) mod n = inn + length xs" using len by simp
      have "take (inn + length xs - out) (drop out (take inn buf @ xs @ drop (inn + length xs) buf)) =
          drop out (take inn buf) @ xs"
        using False b by (simp add: min_def)
      then show ?thesis using False m t unfolding rb_contents_def memcpy_to_def by auto
    qed
  qed
qed

section \<open>The interface of a bounded queue\<close>

text \<open>
  The laws of the two ends: \<open>put\<close> takes as many of the offered elements as fit, \<open>get\<close> returns the
  oldest ones.
\<close>

locale fifo =
  fixes contents :: "'q \<Rightarrow> 'a list" and good :: "'q \<Rightarrow> bool" and capacity :: nat
    and put :: "'a list \<Rightarrow> 'q \<Rightarrow> 'a list \<times> 'q" and get :: "nat \<Rightarrow> 'q \<Rightarrow> 'a list \<times> 'q"
  assumes put_law: "good q \<Longrightarrow> put xs q = (rest, q') \<Longrightarrow>
      good q' \<and> (\<exists>ys. xs = ys @ rest \<and> contents q' = contents q @ ys)"
    and get_law: "good q \<Longrightarrow> get n q = (ys, q') \<Longrightarrow>
      good q' \<and> contents q = ys @ contents q' \<and> length ys \<le> n"
    and bound: "good q \<Longrightarrow> length (contents q) \<le> capacity"
begin

text \<open>
  A history of the two ends in any order: what was accepted so far, what was delivered so far.
  An offer is a put of a list, of which the part not accepted is handed back.
\<close>

inductive history :: "'q \<Rightarrow> 'a list \<Rightarrow> 'a list \<Rightarrow> 'q \<Rightarrow> bool" for q0 where
  start: "history q0 [] [] q0"
| offer: "history q0 acc del q \<Longrightarrow> put xs q = (rest, q') \<Longrightarrow>
    history q0 (acc @ take (length xs - length rest) xs) del q'"
| take_out: "history q0 acc del q \<Longrightarrow> get n q = (ys, q') \<Longrightarrow> history q0 acc (del @ ys) q'"

lemma history_order:
  assumes "history q0 acc del q" "good q0"
  shows "good q \<and> contents q0 @ acc = del @ contents q"
  using assms
proof induction
  case (offer acc del q xs rest q')
  then obtain ys where "good q'" "xs = ys @ rest" "contents q' = contents q @ ys"
    using put_law by blast
  then show ?case using offer by simp
next
  case (take_out acc del q n ys q')
  then show ?case using get_law [of q n ys q'] by (metis append_assoc)
qed simp

text \<open>What was delivered is a prefix of what was accepted, and never lags by more than the
  capacity.\<close>

lemma delivered_prefix:
  assumes "history q0 acc del q" "good q0" "contents q0 = []"
  shows "\<exists>rest. acc = del @ rest \<and> length rest \<le> capacity"
  using history_order [OF assms(1,2)] assms(3) bound by auto

end

end
