(* ===== verification/Hal_Llist.thy ===== *)
theory Hal_Llist
  imports Prelude
begin

text \<open>
  alt_llist.h: the circular doubly linked lists the HAL keeps its alarms, devices and file
  systems in. An element is an address; the heap gives its two pointers. The list operations
  are the inline functions of the header, pointer write by pointer write, in the order of the
  code (a later write sees an earlier one). The abstraction \<open>ring\<close> relates a heap to the
  list of elements behind a head; the locale \<open>entry_list\<close> states what the users of a list
  rely on, and is proved for \<open>ring\<close>.
\<close>

section \<open>Heap and operations\<close>

type_synonym ptr = nat

record llist_heap =
  next_of :: "ptr \<Rightarrow> ptr"
  prev_of :: "ptr \<Rightarrow> ptr"

definition set_next :: "ptr \<Rightarrow> ptr \<Rightarrow> llist_heap \<Rightarrow> llist_heap" where
  "set_next p q h = h\<lparr>next_of := (next_of h)(p := q)\<rparr>"

definition set_prev :: "ptr \<Rightarrow> ptr \<Rightarrow> llist_heap \<Rightarrow> llist_heap" where
  "set_prev p q h = h\<lparr>prev_of := (prev_of h)(p := q)\<rparr>"

definition ALT_LLIST_HEAD :: "ptr \<Rightarrow> llist_heap \<Rightarrow> llist_heap" where
  "ALT_LLIST_HEAD r h = set_prev r r (set_next r r h)"

definition alt_llist_insert :: "ptr \<Rightarrow> ptr \<Rightarrow> llist_heap \<Rightarrow> llist_heap" where
  "alt_llist_insert list entry h =
     (let h = set_prev entry list h;
          h = set_next entry (next_of h list) h;
          h = set_prev (next_of h list) entry h
      in set_next list entry h)"

definition alt_llist_remove :: "ptr \<Rightarrow> llist_heap \<Rightarrow> llist_heap" where
  "alt_llist_remove entry h =
     (let h = set_prev (next_of h entry) (prev_of h entry) h;
          h = set_next (prev_of h entry) (next_of h entry) h;
          h = set_prev entry entry h
      in set_next entry entry h)"

section \<open>Abstraction\<close>

fun linked :: "llist_heap \<Rightarrow> ptr \<Rightarrow> ptr list \<Rightarrow> ptr \<Rightarrow> bool" where
  "linked h a [] b \<longleftrightarrow> next_of h a = b \<and> prev_of h b = a"
| "linked h a (x # xs) b \<longleftrightarrow> next_of h a = x \<and> prev_of h x = a \<and> linked h x xs b"

definition ring :: "llist_heap \<Rightarrow> ptr \<Rightarrow> ptr list \<Rightarrow> bool" where
  "ring h r xs \<longleftrightarrow> distinct (r # xs) \<and> linked h r xs r"

lemma linked_append:
  "linked h a (xs @ y # ys) b \<longleftrightarrow> linked h a xs y \<and> linked h y ys b"
  by (induction xs arbitrary: a) auto

lemma linked_cong:
  assumes "linked h a xs b"
    and "\<And>p. p = a \<or> p \<in> set xs \<Longrightarrow> next_of h' p = next_of h p"
    and "\<And>p. p = b \<or> p \<in> set xs \<Longrightarrow> prev_of h' p = prev_of h p"
  shows "linked h' a xs b"
  using assms by (induction xs arbitrary: a) auto

lemma linked_frame_next: "c \<noteq> a \<Longrightarrow> c \<notin> set xs \<Longrightarrow> linked (set_next c d h) a xs b = linked h a xs b"
  by (induction xs arbitrary: a) (auto simp: set_next_def)

lemma linked_frame_prev: "c \<noteq> b \<Longrightarrow> c \<notin> set xs \<Longrightarrow> linked (set_prev c d h) a xs b = linked h a xs b"
  by (induction xs arbitrary: a) (auto simp: set_prev_def)

lemma heap_ops [simp]:
  "next_of (set_next p q h) = (next_of h)(p := q)" "prev_of (set_next p q h) = prev_of h"
  "next_of (set_prev p q h) = next_of h" "prev_of (set_prev p q h) = (prev_of h)(p := q)"
  by (simp_all add: set_next_def set_prev_def)

lemma ring_empty: "ring (ALT_LLIST_HEAD r h) r []"
  by (simp add: ring_def ALT_LLIST_HEAD_def)

lemma ring_insert:
  assumes "ring h r xs" "e \<notin> set (r # xs)"
  shows "ring (alt_llist_insert r e h) r (e # xs)"
proof (cases xs)
  case Nil
  then show ?thesis
    using assms by (auto simp: ring_def alt_llist_insert_def Let_def)
next
  case (Cons y ys)
  have L: "next_of h r = y" "linked h y ys r" using assms(1) Cons by (auto simp: ring_def)
  have "linked (alt_llist_insert r e h) y ys r"
    by (rule linked_cong [OF L(2)])
      (use assms Cons L(1) in \<open>auto simp: ring_def alt_llist_insert_def Let_def\<close>)
  then show ?thesis
    using assms Cons L(1) by (auto simp: ring_def alt_llist_insert_def Let_def)
qed

text \<open>Unlinking the element between two stretches of the ring.\<close>

lemma linked_skip:
  assumes "linked h r ys e" "linked h e zs r" "distinct (r # ys @ e # zs)"
  shows "linked (alt_llist_remove e h) r (ys @ zs) r"
proof -
  let ?l = "if ys = [] then r else last ys"
  let ?q = "if zs = [] then r else hd zs"
  let ?h = "alt_llist_remove e h"
  have P: "prev_of h e = ?l" using assms(1) by (cases ys rule: rev_cases) (auto simp: linked_append)
  have N: "next_of h e = ?q" using assms(2) by (cases zs) auto
  have ne: "?l \<noteq> e" "?q \<noteq> e"
    using assms(3) by (cases ys rule: rev_cases, simp_all) (cases zs, simp_all)
  have nx: "next_of ?h = (next_of h)(?l := ?q, e := e)"
    and pv: "prev_of ?h = (prev_of h)(?q := ?l, e := e)"
    using P N ne unfolding alt_llist_remove_def Let_def by simp_all
  show ?thesis
  proof (cases ys rule: rev_cases)
    case Nil
    show ?thesis
    proof (cases zs)
      case (Cons q zs')
      have "linked ?h q zs' r"
        by (rule linked_cong [of h]) (use assms Nil Cons nx pv in auto)
      then show ?thesis using Nil Cons nx pv assms(3) by auto
    qed (use Nil nx pv assms(3) in auto)
  next
    case (snoc ys' l)
    then have L: "linked h r ys' l" using assms(1) by (simp add: linked_append)
    have 1: "linked ?h r ys' l"
      by (rule linked_cong [OF L]) (use assms(3) snoc nx pv in \<open>auto split: if_splits dest: hd_in_set\<close>)
    show ?thesis
    proof (cases zs)
      case Nil
      then show ?thesis using 1 snoc nx pv assms(3) by (simp add: linked_append)
    next
      case (Cons q zs')
      have "linked ?h q zs' r"
        by (rule linked_cong [of h]) (use assms snoc Cons nx pv in auto)
      then show ?thesis using 1 snoc Cons nx pv assms(3) by (auto simp: linked_append)
    qed
  qed
qed

lemma ring_remove:
  assumes "ring h r xs" "e \<in> set xs"
  shows "ring (alt_llist_remove e h) r (remove1 e xs)"
    "next_of (alt_llist_remove e h) e = e" "prev_of (alt_llist_remove e h) e = e"
proof -
  obtain ys zs where xs: "xs = ys @ e # zs" and e: "e \<notin> set ys"
    using assms(2) split_list_first by fastforce
  have d: "distinct (r # ys @ e # zs)" and L: "linked h r ys e" "linked h e zs r"
    using assms(1) xs by (auto simp: ring_def linked_append)
  show "ring (alt_llist_remove e h) r (remove1 e xs)"
    using linked_skip [OF L d] d e xs by (simp add: ring_def remove1_append)
  show "next_of (alt_llist_remove e h) e = e" "prev_of (alt_llist_remove e h) e = e"
    by (simp_all add: alt_llist_remove_def Let_def)
qed

text \<open>Removing an element twice is harmless, as the header promises.\<close>

lemma remove_unlinked:
  "next_of h e = e \<Longrightarrow> prev_of h e = e \<Longrightarrow> alt_llist_remove e h = h"
  by (simp add: alt_llist_remove_def Let_def set_next_def set_prev_def fun_upd_idem)

text \<open>Walking the pointers.\<close>

lemma linked_walk:
  "linked h a (ys @ zs) b \<Longrightarrow> next_of h (last (a # ys)) = (case zs of [] \<Rightarrow> b | z # _ \<Rightarrow> z)"
proof (induction ys arbitrary: a)
  case Nil
  then show ?case by (cases zs) auto
next
  case (Cons y ys)
  then show ?case by (cases ys) auto
qed

lemma ring_walk:
  "ring h r (ys @ zs) \<Longrightarrow> next_of h (last (r # ys)) = (case zs of [] \<Rightarrow> r | z # _ \<Rightarrow> z)"
  unfolding ring_def using linked_walk by blast

lemma ring_distinct: "ring h r xs \<Longrightarrow> distinct (r # xs)"
  by (simp add: ring_def)

section \<open>The interface of a list\<close>

text \<open>
  What alt_tick, alt_find_dev and the registration functions rely on: the elements behind a
  head, in order, with insertion in front and removal of one element.
\<close>

locale entry_list =
  fixes entries :: "'h \<Rightarrow> ptr \<Rightarrow> ptr list \<Rightarrow> bool"
    and next_entry :: "'h \<Rightarrow> ptr \<Rightarrow> ptr"
    and insert_entry :: "ptr \<Rightarrow> ptr \<Rightarrow> 'h \<Rightarrow> 'h"
    and remove_entry :: "ptr \<Rightarrow> 'h \<Rightarrow> 'h"
  assumes entries_distinct: "entries h r xs \<Longrightarrow> distinct (r # xs)"
    and walk: "entries h r (ys @ zs) \<Longrightarrow>
      next_entry h (last (r # ys)) = (case zs of [] \<Rightarrow> r | z # _ \<Rightarrow> z)"
    and inserted: "entries h r xs \<Longrightarrow> e \<notin> set (r # xs) \<Longrightarrow> entries (insert_entry r e h) r (e # xs)"
    and removed: "entries h r xs \<Longrightarrow> e \<in> set xs \<Longrightarrow> entries (remove_entry e h) r (remove1 e xs)"
begin

text \<open>The list of a head is unique: two descriptions of it agree.\<close>

lemma entries_det:
  assumes "entries h r xs" "entries h r zs"
  shows "xs = zs"
proof -
  have "take n xs = take n zs" for n
  proof (induction n)
    case (Suc n)
    show ?case
    proof (cases "n < length xs \<or> n < length zs")
      case True
      have w: "next_entry h (last (r # take n xs)) = (case drop n xs of [] \<Rightarrow> r | z # _ \<Rightarrow> z)"
        "next_entry h (last (r # take n zs)) = (case drop n zs of [] \<Rightarrow> r | z # _ \<Rightarrow> z)"
        using walk [of h r "take n xs" "drop n xs"] walk [of h r "take n zs" "drop n zs"] assms
        by simp_all
      have d: "r \<notin> set xs" "r \<notin> set zs" using entries_distinct assms by auto
      have "drop n xs = [] \<longleftrightarrow> drop n zs = []"
        using w Suc d by (auto split: list.splits dest: in_set_dropD [of _ n] simp del: drop_eq_Nil)
          (metis in_set_dropD list.set_intros(1))+
      with True have l: "n < length xs" "n < length zs" by auto
      then have "xs ! n = zs ! n" using w Suc by (simp flip: Cons_nth_drop_Suc)
      then show ?thesis using Suc l by (simp add: take_Suc_conv_app_nth)
    qed (use Suc in simp)
  qed simp
  from this [of "length xs + length zs"] show ?thesis by simp
qed

text \<open>An element inserted and removed again leaves the list it found.\<close>

lemma insert_remove:
  assumes "entries h r xs" "e \<notin> set (r # xs)"
  shows "entries (remove_entry e (insert_entry r e h)) r xs"
  using removed [OF inserted [OF assms], of e] by simp

text \<open>Registering several elements, one after the other, keeps the last one in front.\<close>

lemma insert_all:
  assumes "entries h r xs" "distinct es" "set es \<inter> set (r # xs) = {}"
  shows "entries (fold (insert_entry r) es h) r (rev es @ xs)"
  using assms
proof (induction es arbitrary: h xs)
  case (Cons e es)
  then show ?case using inserted [of h r xs e] Cons.IH [of "insert_entry r e h" "e # xs"] by auto
qed simp

text \<open>
  A loop over the list that follows the pointers from the head, as \<open>while (e != head)\<close> does,
  and stops at the first element a test accepts, finds what a search of the list finds.
\<close>

definition search :: "(ptr \<Rightarrow> bool) \<Rightarrow> 'h \<Rightarrow> ptr \<Rightarrow> ptr option" where
  "search p h r = while_option (\<lambda>e. e \<noteq> r \<and> \<not> p e) (next_entry h) (next_entry h r)"

lemma search_from:
  assumes "entries h r (ys @ zs)" "\<And>y. y \<in> set ys \<Longrightarrow> \<not> p y"
  shows "while_option (\<lambda>e. e \<noteq> r \<and> \<not> p e) (next_entry h) (next_entry h (last (r # ys))) =
    Some (case filter p zs of [] \<Rightarrow> r | z # _ \<Rightarrow> z)"
  using assms
proof (induction zs arbitrary: ys)
  case Nil
  then show ?case using walk [of h r ys "[]"] by (simp add: while_option_unfold)
next
  case (Cons z zs)
  have n: "next_entry h (last (r # ys)) = z" using walk [OF Cons.prems(1)] by simp
  have "z \<noteq> r" using entries_distinct [OF Cons.prems(1)] by auto
  show ?case
  proof (cases "p z")
    case True
    then show ?thesis unfolding n by (simp add: while_option_unfold)
  next
    case False
    then have "while_option (\<lambda>e. e \<noteq> r \<and> \<not> p e) (next_entry h) (next_entry h z) =
        Some (case filter p zs of [] \<Rightarrow> r | z # _ \<Rightarrow> z)"
      using Cons.IH [of "ys @ [z]"] Cons.prems by auto
    then show ?thesis
      unfolding n using False \<open>z \<noteq> r\<close> by (subst while_option_unfold) simp
  qed
qed

lemma search_finds:
  assumes "entries h r xs"
  shows "search p h r = Some (case filter p xs of [] \<Rightarrow> r | z # _ \<Rightarrow> z)"
  using search_from [of h r "[]" xs p] assms by (simp add: search_def)

end

interpretation llist: entry_list ring next_of alt_llist_insert alt_llist_remove
  by unfold_locales (rule ring_distinct ring_walk ring_insert ring_remove, assumption+)+

end
