(* ===== verification/Hal_Dev.thy ===== *)
theory Hal_Dev
  imports Hal_Llist Hal_Errno
begin

text \<open>
  The device side of the HAL's file layer: alt_dev.h (devices with optional operations),
  alt_dev.c (the initial lists, the null device and the initial descriptor table),
  alt_dev_llist_insert.c and alt_fs_reg.c (registration), alt_find_dev.c and alt_find_file.c
  (name lookup). A pointer is a number, 0 is NULL; reading through NULL or past the end of a
  string is undefined in C and is the value \<open>None\<close> here. The code of the drivers is a parameter:
  the functions of the device records, over a driver state of any type; one that does not return
  gives \<open>None\<close>.
\<close>

section \<open>Data\<close>

record fd =
  fd_dev :: ptr
  fd_priv :: ptr
  fd_flags :: u32

record 'w device =
  dev_name :: "string option"
  dev_open :: "(fd \<Rightarrow> string \<Rightarrow> u32 \<Rightarrow> u32 \<Rightarrow> 'w \<Rightarrow> (int \<times> 'w) option) option"
  dev_close :: "(fd \<Rightarrow> 'w \<Rightarrow> (int \<times> 'w) option) option"
  dev_read :: "(fd \<Rightarrow> ptr \<Rightarrow> int \<Rightarrow> 'w \<Rightarrow> (int \<times> 'w) option) option"
  dev_write :: "(fd \<Rightarrow> ptr \<Rightarrow> int \<Rightarrow> 'w \<Rightarrow> (int \<times> 'w) option) option"
  dev_lseek :: "(fd \<Rightarrow> int \<Rightarrow> int \<Rightarrow> 'w \<Rightarrow> (int \<times> 'w) option) option"
  dev_fstat :: "(fd \<Rightarrow> 'w \<Rightarrow> (int \<times> u32 \<times> 'w) option) option"
  dev_ioctl :: "(fd \<Rightarrow> u32 \<Rightarrow> ptr \<Rightarrow> 'w \<Rightarrow> (int \<times> 'w) option) option"

record 'w hal =
  alt_fd_list :: "fd list"
  alt_max_fd :: int
  dev_heap :: llist_heap
  dev_of :: "ptr \<Rightarrow> 'w device"
  alt_errno :: int
  driver :: 'w

definition alt_dev_list :: ptr where [hal_defs]: "alt_dev_list = 2"
definition alt_fs_list :: ptr where [hal_defs]: "alt_fs_list = 3"
definition alt_dev_null_addr :: ptr where [hal_defs]: "alt_dev_null_addr = 4"

definition ALT_MAX_FD :: nat where [hal_defs]: "ALT_MAX_FD = 32"
definition ALT_FD_EXCL :: u32 where [hal_defs]: "ALT_FD_EXCL = 0x80000000"
definition ALT_FD_DEV :: u32 where [hal_defs]: "ALT_FD_DEV = 0x40000000"
definition ALT_FD_FLAGS_MASK :: u32 where [hal_defs]: "ALT_FD_FLAGS_MASK = ALT_FD_EXCL OR ALT_FD_DEV"

section \<open>The initial state (alt_dev.c)\<close>

definition alt_dev_null_write :: "fd \<Rightarrow> ptr \<Rightarrow> int \<Rightarrow> 'w \<Rightarrow> (int \<times> 'w) option" where
  "alt_dev_null_write f p len w = Some (len, w)"

definition alt_dev_null :: "'w device" where
  "alt_dev_null = \<lparr>dev_name = Some ''/dev/null'', dev_open = None, dev_close = None,
     dev_read = None, dev_write = Some alt_dev_null_write, dev_lseek = None, dev_fstat = None,
     dev_ioctl = None\<rparr>"

definition no_fd :: fd where
  "no_fd = \<lparr>fd_dev = 0, fd_priv = 0, fd_flags = 0\<rparr>"

definition null_fd :: fd where
  "null_fd = \<lparr>fd_dev = alt_dev_null_addr, fd_priv = 0, fd_flags = 0\<rparr>"

definition initial_heap :: llist_heap where
  "initial_heap = \<lparr>
     next_of = id(alt_fs_list := alt_fs_list, alt_dev_list := alt_dev_null_addr,
                  alt_dev_null_addr := alt_dev_list),
     prev_of = id(alt_fs_list := alt_fs_list, alt_dev_list := alt_dev_null_addr,
                  alt_dev_null_addr := alt_dev_list)\<rparr>"

definition hal_init :: "(ptr \<Rightarrow> 'w device) \<Rightarrow> 'w \<Rightarrow> 'w hal" where
  "hal_init devs w = \<lparr>
     alt_fd_list = replicate 3 null_fd @ replicate (ALT_MAX_FD - 3) no_fd,
     alt_max_fd = -1, dev_heap = initial_heap, dev_of = devs(alt_dev_null_addr := alt_dev_null),
     alt_errno = 0, driver = w\<rparr>"

section \<open>Registration\<close>

definition alt_dev_llist_insert :: "ptr \<Rightarrow> ptr \<Rightarrow> 'w hal \<Rightarrow> int \<times> 'w hal" where
  "alt_dev_llist_insert dev list s =
     (if dev = 0 \<or> dev_name (dev_of s dev) = None then (- EINVAL, s\<lparr>alt_errno := EINVAL\<rparr>)
      else (0, s\<lparr>dev_heap := alt_llist_insert list dev (dev_heap s)\<rparr>))"

definition alt_dev_reg :: "ptr \<Rightarrow> 'w hal \<Rightarrow> int \<times> 'w hal" where
  "alt_dev_reg dev s = alt_dev_llist_insert dev alt_dev_list s"

definition alt_fs_reg :: "ptr \<Rightarrow> 'w hal \<Rightarrow> int \<times> 'w hal" where
  "alt_fs_reg dev s =
     (if dev_name (dev_of s dev) = None then (- ENODEV, s)
      else (0, s\<lparr>dev_heap := alt_llist_insert alt_fs_list dev (dev_heap s)\<rparr>))"

section \<open>Lookup\<close>

text \<open>
  Strings in memory: the characters and a final NUL. \<open>memcmp_eq\<close> is \<open>!memcmp(a, b, n)\<close>, which
  stops at the first difference; running off the end of either string first is undefined.
\<close>

abbreviation NUL :: char where
  "NUL \<equiv> CHR 0x00"

fun memcmp_eq :: "nat \<Rightarrow> string \<Rightarrow> string \<Rightarrow> bool option" where
  "memcmp_eq 0 a b = Some True"
| "memcmp_eq (Suc n) (x # a) (y # b) = (if x = y then memcmp_eq n a b else Some False)"
| "memcmp_eq (Suc n) a b = None"

definition char_at :: "string \<Rightarrow> nat \<Rightarrow> char option" where
  "char_at s i = (if i < length s then Some (s ! i) else if i = length s then Some NUL else None)"

definition dev_match :: "string \<Rightarrow> string option \<Rightarrow> bool option" where
  "dev_match name dname =
     (case dname of None \<Rightarrow> None
      | Some d \<Rightarrow> memcmp_eq (length name + 1) (d @ [NUL]) (name @ [NUL]))"

definition file_match :: "string \<Rightarrow> string option \<Rightarrow> bool option" where
  "file_match name dname =
     (case dname of None \<Rightarrow> None
      | Some d \<Rightarrow>
          if length d = 0 then None
          else let len = (if d ! (length d - 1) = CHR ''/'' then length d - 1 else length d)
               in (case char_at name len of
                     None \<Rightarrow> None
                   | Some c \<Rightarrow>
                       if c = CHR ''/'' \<or> c = NUL then memcmp_eq len (d @ [NUL]) (name @ [NUL])
                       else Some False))"

text \<open>
  The two searches: from the first element to the head, stopping at a match. \<open>None\<close> is a
  comparison that is undefined (or a list that never comes back to its head).
\<close>

definition find_loop :: "(string option \<Rightarrow> bool option) \<Rightarrow> ptr \<Rightarrow> 'w hal \<Rightarrow> ptr option" where
  "find_loop test list s =
     (case while_option (\<lambda>e. e \<noteq> list \<and> test (dev_name (dev_of s e)) = Some False)
             (next_of (dev_heap s)) (next_of (dev_heap s) list) of
        None \<Rightarrow> None
      | Some e \<Rightarrow>
          if e = list then Some 0
          else if test (dev_name (dev_of s e)) = None then None else Some e)"

definition alt_find_dev :: "string \<Rightarrow> ptr \<Rightarrow> 'w hal \<Rightarrow> ptr option" where
  "alt_find_dev name list s = find_loop (dev_match name) list s"

definition alt_find_file :: "string \<Rightarrow> 'w hal \<Rightarrow> ptr option" where
  "alt_find_file name s = find_loop (file_match name) alt_fs_list s"

section \<open>What the lookups find\<close>

definition named :: "string list \<Rightarrow> bool" where
  "named xs \<longleftrightarrow> (\<forall>x \<in> set xs. NUL \<notin> set x)"

lemma memcmp_prefix: "n \<le> length a \<Longrightarrow> n \<le> length b \<Longrightarrow> memcmp_eq n a b = Some (take n a = take n b)"
  by (induction n a b rule: memcmp_eq.induct) auto

lemma memcmp_string:
  "NUL \<notin> set d \<Longrightarrow> NUL \<notin> set name \<Longrightarrow>
   memcmp_eq (length name + 1) (d @ [NUL]) (name @ [NUL]) = Some (d = name)"
proof (induction name arbitrary: d)
  case Nil
  then show ?case by (cases d) auto
next
  case (Cons c name)
  then show ?case by (cases d) auto
qed

lemma find_loop_ring:
  assumes "ring (dev_heap s) list xs"
  shows "find_loop test list s =
    (case filter (\<lambda>e. test (dev_name (dev_of s e)) \<noteq> Some False) xs of
       [] \<Rightarrow> Some 0
     | e # _ \<Rightarrow> if test (dev_name (dev_of s e)) = None then None else Some e)"
proof -
  let ?p = "\<lambda>e. test (dev_name (dev_of s e)) \<noteq> Some False"
  have "while_option (\<lambda>e. e \<noteq> list \<and> \<not> ?p e) (next_of (dev_heap s)) (next_of (dev_heap s) list) =
      Some (case filter ?p xs of [] \<Rightarrow> list | z # _ \<Rightarrow> z)"
    using llist.search_finds [OF assms, of ?p] by (simp add: llist.search_def)
  moreover have "z \<noteq> list" if "filter ?p xs = z # zs" for z zs
  proof -
    have "z \<in> set xs" using that by (metis (no_types) Cons_eq_filterD in_set_conv_decomp)
    then show ?thesis using llist.entries_distinct [OF assms] by auto
  qed
  ultimately show ?thesis by (auto simp: find_loop_def split: list.splits)
qed

text \<open>The names of the registered devices are C strings.\<close>

definition names_ok :: "'w hal \<Rightarrow> ptr list \<Rightarrow> bool" where
  "names_ok s xs \<longleftrightarrow> (\<forall>e \<in> set xs. \<exists>d. dev_name (dev_of s e) = Some d \<and> NUL \<notin> set d)"

lemma find_dev_list:
  assumes "ring (dev_heap s) list xs" "names_ok s xs" "NUL \<notin> set name"
  shows "alt_find_dev name list s =
    Some (case filter (\<lambda>e. dev_name (dev_of s e) = Some name) xs of [] \<Rightarrow> 0 | e # _ \<Rightarrow> e)"
proof -
  have m: "dev_match name (dev_name (dev_of s e)) = Some (dev_name (dev_of s e) = Some name)"
    if "e \<in> set xs" for e
    using that assms(2,3) memcmp_string by (fastforce simp: names_ok_def dev_match_def)
  have f: "filter (\<lambda>e. dev_match name (dev_name (dev_of s e)) \<noteq> Some False) xs =
      filter (\<lambda>e. dev_name (dev_of s e) = Some name) xs"
    by (rule filter_cong) (simp_all add: m)
  show ?thesis
  proof (cases "filter (\<lambda>e. dev_name (dev_of s e) = Some name) xs")
    case Nil
    then show ?thesis unfolding alt_find_dev_def find_loop_ring [OF assms(1)] f by simp
  next
    case (Cons e es)
    then have "e \<in> set xs" by (metis (no_types) Cons_eq_filterD in_set_conv_decomp)
    then show ?thesis
      unfolding alt_find_dev_def find_loop_ring [OF assms(1)] f using Cons m by simp
  qed
qed

text \<open>
  The file systems: a name matches when it is the mount point (without its final slash)
  followed by a slash or the end. The read of \<open>name[len]\<close> is within the name exactly when the
  mount point is no longer than the name.
\<close>

definition mount_len :: "string \<Rightarrow> nat" where
  "mount_len d = (if last d = CHR ''/'' then length d - 1 else length d)"

lemma file_match_spec:
  assumes "d \<noteq> []"
  shows "file_match name (Some d) =
    (if length name < mount_len d then None
     else Some ((mount_len d = length name \<or> name ! mount_len d = CHR ''/'' \<or> name ! mount_len d = NUL) \<and>
       take (mount_len d) d = take (mount_len d) name))"
proof -
  have l: "mount_len d \<le> length d" by (simp add: mount_len_def)
  have e: "(if d ! (length d - 1) = CHR ''/'' then length d - 1 else length d) = mount_len d"
    using assms by (simp add: mount_len_def last_conv_nth)
  have c: "memcmp_eq (mount_len d) (d @ [NUL]) (name @ [NUL]) =
      Some (take (mount_len d) d = take (mount_len d) name)" if "mount_len d \<le> length name"
    using that l by (simp add: memcmp_prefix)
  show ?thesis
  proof (cases "mount_len d \<le> length name")
    case True
    then show ?thesis
      using assms c unfolding file_match_def
      by (simp add: e [simplified] char_at_def Let_def) auto
  next
    case False
    then show ?thesis
      using assms unfolding file_match_def by (simp add: e [simplified] char_at_def Let_def)
  qed
qed

section \<open>Properties\<close>

text \<open>alt_find_dev always ends on a well-formed list of named devices and returns the first
  device, in the order of the list, whose name is exactly the one asked for, and NULL when there
  is none; its memory comparison never leaves either string.\<close>
theorem find_dev_first:
  assumes "ring (dev_heap s) list xs" "names_ok s xs" "NUL \<notin> set name"
  shows "alt_find_dev name list s =
    Some (case filter (\<lambda>e. dev_name (dev_of s e) = Some name) xs of [] \<Rightarrow> 0 | e # _ \<Rightarrow> e)"
  by (rule find_dev_list [OF assms])

lemma init_rings:
  "ring (dev_heap (hal_init devs w)) alt_dev_list [alt_dev_null_addr]"
  "ring (dev_heap (hal_init devs w)) alt_fs_list []"
  by (simp_all add: hal_init_def initial_heap_def ring_def hal_defs)

lemma init_names: "names_ok (hal_init devs w) [alt_dev_null_addr]"
  by (simp add: names_ok_def hal_init_def alt_dev_null_def)

theorem find_dev_first_witness:
  "alt_find_dev ''/dev/null'' alt_dev_list (hal_init (\<lambda>a. alt_dev_null) (0 :: nat)) = Some alt_dev_null_addr"
  using find_dev_first [OF init_rings(1) init_names, of "''/dev/null''"]
  by (simp add: hal_init_def alt_dev_null_def)

text \<open>alt_find_file, for a registered file system, accepts exactly the names that are the
  mount point or lie below it (mount point, then a slash), as its comment says; but a name
  shorter than the mount point makes it read past the end of the name, which is undefined.\<close>
theorem find_file_match:
  assumes "ring (dev_heap s) alt_fs_list [e]" "dev_name (dev_of s e) = Some d" "d \<noteq> []" "NUL \<notin> set name"
  shows "alt_find_file name s =
    (if length name < mount_len d then None
     else if take (mount_len d) name = take (mount_len d) d \<and>
       (length name = mount_len d \<or> name ! mount_len d = CHR ''/'') then Some e
     else Some 0)"
proof -
  have n: "mount_len d < length name \<Longrightarrow> name ! mount_len d \<noteq> NUL"
    using assms(4) nth_mem by metis
  show ?thesis
    unfolding alt_find_file_def find_loop_ring [OF assms(1)]
    using n by (auto simp: assms(2) file_match_spec [OF assms(3)] not_less order_le_less)
qed

definition one_fs :: "nat hal" where
  "one_fs = snd (alt_fs_reg 9 (hal_init (\<lambda>a. alt_dev_null\<lparr>dev_name := Some ''/mnt/zip''\<rparr>) 0))"

lemma one_fs_ring: "ring (dev_heap one_fs) alt_fs_list [9]"
  using llist.inserted [OF init_rings(2), of 9]
  by (simp add: one_fs_def alt_fs_reg_def hal_init_def hal_defs)

lemma one_fs_name: "dev_name (dev_of one_fs 9) = Some ''/mnt/zip''"
  by (simp add: one_fs_def alt_fs_reg_def hal_init_def hal_defs alt_dev_null_def)

theorem find_file_match_witness:
  "alt_find_file ''/mnt/zip/a'' one_fs = Some 9 \<and> alt_find_file ''/dev'' one_fs = None"
  using find_file_match [OF one_fs_ring one_fs_name, of "''/mnt/zip/a''"]
    find_file_match [OF one_fs_ring one_fs_name, of "''/dev''"]
  by (simp add: mount_len_def)

end
