(* ===== verification/Hal_Fd.thy ===== *)
theory Hal_Fd
  imports Hal_Dev
begin

text \<open>
  The descriptor table and the system calls on it: alt_get_fd.c, alt_release_fd.c,
  alt_fd_lock.c, alt_fd_unlock.c, alt_open.c, alt_close.c, alt_read.c, alt_write.c, alt_lseek.c,
  alt_ioctl.c, alt_fcntl.c, alt_fstat.c, alt_isatty.c and alt_io_redirect.c. \<open>None\<close> is undefined
  behaviour: an index past the table, or a call through the device of a free descriptor.
  A call returns its value and the new state; the errno and the table are part of the state.
\<close>

section \<open>Flags\<close>

definition O_ACCMODE :: u32 where [hal_defs]: "O_ACCMODE = 3"
definition O_RDONLY :: u32 where [hal_defs]: "O_RDONLY = 0"
definition O_WRONLY :: u32 where [hal_defs]: "O_WRONLY = 1"
definition O_APPEND :: u32 where [hal_defs]: "O_APPEND = 0x0008"
definition O_NONBLOCK :: u32 where [hal_defs]: "O_NONBLOCK = 0x4000"
definition F_GETFL :: int where [hal_defs]: "F_GETFL = 3"
definition F_SETFL :: int where [hal_defs]: "F_SETFL = 4"
definition S_IFCHR :: u32 where [hal_defs]: "S_IFCHR = 0x2000"
definition TIOCEXCL :: u32 where [hal_defs]: "TIOCEXCL = 0x740d"
definition TIOCNXCL :: u32 where [hal_defs]: "TIOCNXCL = 0x740e"

definition ALT_FCNTL_FLAGS_MASK :: u32 where [hal_defs]:
  "ALT_FCNTL_FLAGS_MASK = O_APPEND OR O_NONBLOCK"

section \<open>The table\<close>

abbreviation fd_at :: "'w hal \<Rightarrow> nat \<Rightarrow> fd" where
  "fd_at s i \<equiv> alt_fd_list s ! i"

definition set_fd :: "nat \<Rightarrow> fd \<Rightarrow> 'w hal \<Rightarrow> 'w hal" where
  "set_fd i f s = s\<lparr>alt_fd_list := (alt_fd_list s)[i := f]\<rparr>"

text \<open>The first free slot, or -EMFILE; the high-water mark follows.\<close>

definition alt_get_fd :: "ptr \<Rightarrow> 'w hal \<Rightarrow> int \<times> 'w hal" where
  "alt_get_fd dev s =
     (case find (\<lambda>i. fd_dev (fd_at s i) = 0) [0..<ALT_MAX_FD] of
        None \<Rightarrow> (- EMFILE, s)
      | Some i \<Rightarrow>
          let s = set_fd i ((fd_at s i)\<lparr>fd_dev := dev\<rparr>) s
          in (int i, if int i > alt_max_fd s then s\<lparr>alt_max_fd := int i\<rparr> else s))"

definition alt_release_fd :: "int \<Rightarrow> 'w hal \<Rightarrow> 'w hal" where
  "alt_release_fd i s =
     (if i > 2 then set_fd (nat i) ((fd_at s (nat i))\<lparr>fd_flags := 0, fd_dev := 0\<rparr>) s else s)"

definition alt_fd_lock :: "nat \<Rightarrow> 'w hal \<Rightarrow> int \<times> 'w hal" where
  "alt_fd_lock k s =
     (if list_ex (\<lambda>i. i \<noteq> k \<and> fd_dev (fd_at s i) = fd_dev (fd_at s k)) [0..<nat (alt_max_fd s)]
      then (- EACCES, s)
      else (0, set_fd k ((fd_at s k)\<lparr>fd_flags := fd_flags (fd_at s k) OR ALT_FD_EXCL\<rparr>) s))"

definition alt_fd_unlock :: "nat \<Rightarrow> 'w hal \<Rightarrow> int \<times> 'w hal" where
  "alt_fd_unlock k s =
     (0, set_fd k ((fd_at s k)\<lparr>fd_flags := fd_flags (fd_at s k) AND NOT ALT_FD_EXCL\<rparr>) s)"

text \<open>
  The loop of alt_file_locked runs to \<open>alt_max_fd\<close> inclusively with an unsigned counter: with
  the initial value -1 it would run off the table.
\<close>

definition alt_file_locked :: "nat \<Rightarrow> 'w hal \<Rightarrow> (int \<times> 'w hal) option" where
  "alt_file_locked k s =
     (let s = set_fd k ((fd_at s k)\<lparr>fd_flags := fd_flags (fd_at s k) OR ALT_FD_DEV\<rparr>) s
      in if alt_max_fd s < 0 then None
         else if list_ex (\<lambda>i. fd_dev (fd_at s i) = fd_dev (fd_at s k) \<and>
                  fd_flags (fd_at s i) AND ALT_FD_EXCL \<noteq> 0 \<and> i \<noteq> k) [0..<nat (alt_max_fd s) + 1]
         then Some (- EACCES, s) else Some (0, s))"

section \<open>The system calls\<close>

definition fail :: "int \<Rightarrow> 'w hal \<Rightarrow> int \<times> 'w hal" where
  "fail e s = (-1, s\<lparr>alt_errno := e\<rparr>)"

text \<open>A call of a driver's function, which may not return.\<close>

definition driver_call :: "(int \<times> 'w) option \<Rightarrow> 'w hal \<Rightarrow> (int \<times> 'w hal) option" where
  "driver_call rw s = map_option (\<lambda>(r, w). (r, s\<lparr>driver := w\<rparr>)) rw"

definition open_status :: "nat \<Rightarrow> string \<Rightarrow> u32 \<Rightarrow> u32 \<Rightarrow> bool \<Rightarrow> 'w hal \<Rightarrow> (int \<times> 'w hal) option" where
  "open_status i file flags mode isafs s =
     (case (if isafs then Some (0, s) else alt_file_locked i s) of
        None \<Rightarrow> None
      | Some (locked, s) \<Rightarrow>
          if locked \<ge> 0 then
            (case dev_open (dev_of s (fd_dev (fd_at s i))) of
               None \<Rightarrow> Some (0, s)
             | Some f \<Rightarrow> driver_call (f (fd_at s i) file flags mode (driver s)) s)
          else Some (locked, s))"

definition alt_open :: "string \<Rightarrow> u32 \<Rightarrow> u32 \<Rightarrow> 'w hal \<Rightarrow> (int \<times> 'w hal) option" where
  "alt_open file flags mode s =
     (case alt_find_dev file alt_dev_list s of
        None \<Rightarrow> None
      | Some d0 \<Rightarrow>
          (case (if d0 \<noteq> 0 then Some d0 else alt_find_file file s) of
             None \<Rightarrow> None
           | Some dev \<Rightarrow>
               if dev = 0 then Some (fail ENODEV s)
               else let (index, s) = alt_get_fd dev s
                    in if index < 0 then Some (fail (- index) (alt_release_fd index s))
                       else let i = nat index;
                                s = set_fd i ((fd_at s i)\<lparr>fd_flags := flags AND NOT ALT_FD_FLAGS_MASK\<rparr>) s
                            in (case open_status i file flags mode (d0 = 0) s of
                                  None \<Rightarrow> None
                                | Some (status, s) \<Rightarrow>
                                    if status < 0 then Some (fail (- status) (alt_release_fd index s))
                                    else Some (index, s))))"

text \<open>
  The calls on an open descriptor start with the same test: a negative number is EBADFD, an
  index past the table undefined.
\<close>

definition on_fd :: "int \<Rightarrow> 'a \<Rightarrow> (nat \<Rightarrow> 'a option) \<Rightarrow> 'a option" where
  "on_fd file bad good =
     (if file < 0 then Some bad else if nat file < ALT_MAX_FD then good (nat file) else None)"

definition the_dev :: "'w hal \<Rightarrow> nat \<Rightarrow> 'w device option" where
  "the_dev s i = (if fd_dev (fd_at s i) = 0 then None else Some (dev_of s (fd_dev (fd_at s i))))"

text \<open>For most calls a negative result of the driver becomes the errno and -1.\<close>

definition driver_result :: "(int \<times> 'w) option \<Rightarrow> 'w hal \<Rightarrow> (int \<times> 'w hal) option" where
  "driver_result rw s =
     map_option (\<lambda>(r, s). if r < 0 then fail (- r) s else (r, s)) (driver_call rw s)"

definition alt_close :: "int \<Rightarrow> 'w hal \<Rightarrow> (int \<times> 'w hal) option" where
  "alt_close file s = on_fd file (fail EBADFD s) (\<lambda>i.
     case the_dev s i of None \<Rightarrow> None
     | Some d \<Rightarrow>
         map_option (\<lambda>(rval, s).
             let s = alt_release_fd file s in if rval < 0 then fail (- rval) s else (0, s))
           (case dev_close d of None \<Rightarrow> Some (0, s)
            | Some f \<Rightarrow> driver_call (f (fd_at s i) (driver s)) s))"

definition alt_read :: "int \<Rightarrow> ptr \<Rightarrow> int \<Rightarrow> 'w hal \<Rightarrow> (int \<times> 'w hal) option" where
  "alt_read file buf len s = on_fd file (fail EBADFD s) (\<lambda>i.
     if fd_flags (fd_at s i) AND O_ACCMODE = O_WRONLY then Some (fail EACCES s)
     else (case the_dev s i of None \<Rightarrow> None
           | Some d \<Rightarrow> (case dev_read d of None \<Rightarrow> Some (fail EACCES s)
               | Some f \<Rightarrow> driver_result (f (fd_at s i) buf len (driver s)) s)))"

definition alt_write :: "int \<Rightarrow> ptr \<Rightarrow> int \<Rightarrow> 'w hal \<Rightarrow> (int \<times> 'w hal) option" where
  "alt_write file buf len s = on_fd file (fail EBADFD s) (\<lambda>i.
     if fd_flags (fd_at s i) AND O_ACCMODE = O_RDONLY then Some (fail EACCES s)
     else (case the_dev s i of None \<Rightarrow> None
           | Some d \<Rightarrow> (case dev_write d of None \<Rightarrow> Some (fail EACCES s)
               | Some f \<Rightarrow> driver_result (f (fd_at s i) buf len (driver s)) s)))"

definition alt_lseek :: "int \<Rightarrow> int \<Rightarrow> int \<Rightarrow> 'w hal \<Rightarrow> (int \<times> 'w hal) option" where
  "alt_lseek file off dir s = on_fd file (fail EBADFD s) (\<lambda>i.
     case the_dev s i of None \<Rightarrow> None
     | Some d \<Rightarrow> (case dev_lseek d of None \<Rightarrow> Some (fail ENOTSUP s)
         | Some f \<Rightarrow> driver_result (f (fd_at s i) off dir (driver s)) s))"

text \<open>ioctl returns the negative code itself, besides storing it.\<close>

definition ioctl_done :: "int \<times> 'w hal \<Rightarrow> int \<times> 'w hal" where
  "ioctl_done x = (fst x, if fst x < 0 then (snd x)\<lparr>alt_errno := - fst x\<rparr> else snd x)"

definition alt_ioctl :: "int \<Rightarrow> u32 \<Rightarrow> ptr \<Rightarrow> 'w hal \<Rightarrow> (int \<times> 'w hal) option" where
  "alt_ioctl file req arg s = on_fd file (ioctl_done (- EBADFD, s)) (\<lambda>i.
     if fd_flags (fd_at s i) AND ALT_FD_DEV \<noteq> 0 \<and> req = TIOCEXCL then Some (ioctl_done (alt_fd_lock i s))
     else if fd_flags (fd_at s i) AND ALT_FD_DEV \<noteq> 0 \<and> req = TIOCNXCL then Some (ioctl_done (alt_fd_unlock i s))
     else (case the_dev s i of None \<Rightarrow> None
           | Some d \<Rightarrow> map_option ioctl_done (case dev_ioctl d of None \<Rightarrow> Some (- ENOTTY, s)
               | Some f \<Rightarrow> driver_call (f (fd_at s i) req arg (driver s)) s)))"

definition alt_fcntl :: "int \<Rightarrow> int \<Rightarrow> u32 \<Rightarrow> 'w hal \<Rightarrow> (u32 \<times> 'w hal) option" where
  "alt_fcntl file cmd arg s = on_fd file (-1, s\<lparr>alt_errno := EBADFD\<rparr>) (\<lambda>i.
     Some (if cmd = F_GETFL then (fd_flags (fd_at s i) AND NOT ALT_FD_FLAGS_MASK, s)
           else if cmd = F_SETFL then
             (0, set_fd i ((fd_at s i)\<lparr>fd_flags :=
                   (fd_flags (fd_at s i) AND NOT ALT_FCNTL_FLAGS_MASK) OR (arg AND ALT_FCNTL_FLAGS_MASK)\<rparr>) s)
           else (-1, s\<lparr>alt_errno := EINVAL\<rparr>)))"

text \<open>fstat also returns the mode it leaves in the caller's structure (which held \<open>st\<close>).\<close>

definition alt_fstat :: "int \<Rightarrow> u32 \<Rightarrow> 'w hal \<Rightarrow> (int \<times> u32 \<times> 'w hal) option" where
  "alt_fstat file st s = on_fd file (-1, st, s\<lparr>alt_errno := EBADFD\<rparr>) (\<lambda>i.
     case the_dev s i of None \<Rightarrow> None
     | Some d \<Rightarrow> (case dev_fstat d of None \<Rightarrow> Some (0, S_IFCHR, s)
         | Some f \<Rightarrow> map_option (\<lambda>(r, m, w). (r, m, s\<lparr>driver := w\<rparr>)) (f (fd_at s i) (driver s))))"

definition alt_isatty :: "int \<Rightarrow> u32 \<Rightarrow> 'w hal \<Rightarrow> (int \<times> 'w hal) option" where
  "alt_isatty file stack s = on_fd file (0, s\<lparr>alt_errno := EBADFD\<rparr>) (\<lambda>i.
     case the_dev s i of None \<Rightarrow> None
     | Some d \<Rightarrow>
         if dev_fstat d = None then Some (1, s)
         else map_option (\<lambda>(r, m, s). (if m = S_IFCHR then 1 else 0, s)) (alt_fstat file stack s))"

section \<open>Redirection of the standard streams\<close>

definition alt_open_fd :: "nat \<Rightarrow> string \<Rightarrow> u32 \<Rightarrow> u32 \<Rightarrow> 'w hal \<Rightarrow> 'w hal option" where
  "alt_open_fd k name flags mode s =
     map_option (\<lambda>(old, s). if old \<ge> 0 then alt_release_fd old (set_fd k (fd_at s (nat old)) s) else s)
       (alt_open name flags mode s)"

definition alt_io_redirect :: "string \<Rightarrow> string \<Rightarrow> string \<Rightarrow> 'w hal \<Rightarrow> 'w hal option" where
  "alt_io_redirect stdout_dev stdin_dev stderr_dev s =
     (case alt_open_fd 1 stdout_dev O_WRONLY 511 s of None \<Rightarrow> None
      | Some s \<Rightarrow>
          (case alt_open_fd 0 stdin_dev O_RDONLY 511 s of None \<Rightarrow> None
           | Some s \<Rightarrow> alt_open_fd 2 stderr_dev O_WRONLY 511 s))"

end
