(* ===== verification/Jtag_Uart.thy ===== *)
theory Jtag_Uart
  imports Ring_Buffer Hal_Fd
begin

text \<open>
  The JTAG UART driver (drivers/src/altera_avalon_jtag_uart_*.c), in the interrupt-driven
  configuration without an operating system that the BSP builds: initialisation, the interrupt
  handler, the host-activity timeout, read, write, close and ioctl.

  The UART's two registers are hardware outside the repository: the record \<open>jtag_hw\<close>, whose
  functions say what a read or write of a register returns and does. Interrupts arrive between
  the tests of a waiting loop; what they do there is the parameter \<open>env\<close> of the calls that wait.
  The indices of the circular buffers are below 2048 and are natural numbers here. A byte of
  the buffers is a \<open>char\<close>, which is signed on this processor, so the write of the data register
  extends its sign. The timeout callback asks to be called again after \<open>alt_ticks_per_second\<close>
  ticks, which is the alarm component's business; here it is the state it leaves.
\<close>

section \<open>Registers and state\<close>

definition BUF_LEN :: nat where "BUF_LEN = 2048"
definition DEFAULT_TIMEOUT :: u32 where "DEFAULT_TIMEOUT = 10"

definition DATA_DATA_MSK :: u32 where "DATA_DATA_MSK = 0x000000FF"
definition DATA_RVALID_MSK :: u32 where "DATA_RVALID_MSK = 0x00008000"
definition DATA_RAVAIL_MSK :: u32 where "DATA_RAVAIL_MSK = 0xFFFF0000"
definition CONTROL_RE_MSK :: u32 where "CONTROL_RE_MSK = 0x00000001"
definition CONTROL_WE_MSK :: u32 where "CONTROL_WE_MSK = 0x00000002"
definition CONTROL_RI_MSK :: u32 where "CONTROL_RI_MSK = 0x00000100"
definition CONTROL_WI_MSK :: u32 where "CONTROL_WI_MSK = 0x00000200"
definition CONTROL_AC_MSK :: u32 where "CONTROL_AC_MSK = 0x00000400"
definition CONTROL_WSPACE_MSK :: u32 where "CONTROL_WSPACE_MSK = 0xFFFF0000"

lemmas uart_masks = DATA_DATA_MSK_def DATA_RVALID_MSK_def DATA_RAVAIL_MSK_def CONTROL_RE_MSK_def
  CONTROL_WE_MSK_def CONTROL_RI_MSK_def CONTROL_WI_MSK_def CONTROL_AC_MSK_def CONTROL_WSPACE_MSK_def

record 'd jtag_hw =
  rd_data :: "'d \<Rightarrow> u32 \<times> 'd"
  wr_data :: "u32 \<Rightarrow> 'd \<Rightarrow> 'd"
  rd_control :: "'d \<Rightarrow> u32 \<times> 'd"
  wr_control :: "u32 \<Rightarrow> 'd \<Rightarrow> 'd"

record 'd uart =
  timeout :: u32
  irq_enable :: u32
  host_inactive :: u32
  rx_in :: nat
  rx_out :: nat
  tx_in :: nat
  tx_out :: nat
  rx_buf :: "u8 list"
  tx_buf :: "u8 list"
  regs :: 'd

definition IORD_DATA :: "'d jtag_hw \<Rightarrow> 'd uart \<Rightarrow> u32 \<times> 'd uart" where
  "IORD_DATA H u = (let (v, d) = rd_data H (regs u) in (v, u\<lparr>regs := d\<rparr>))"

definition IOWR_DATA :: "'d jtag_hw \<Rightarrow> u32 \<Rightarrow> 'd uart \<Rightarrow> 'd uart" where
  "IOWR_DATA H v u = u\<lparr>regs := wr_data H v (regs u)\<rparr>"

definition IORD_CONTROL :: "'d jtag_hw \<Rightarrow> 'd uart \<Rightarrow> u32 \<times> 'd uart" where
  "IORD_CONTROL H u = (let (v, d) = rd_control H (regs u) in (v, u\<lparr>regs := d\<rparr>))"

definition IOWR_CONTROL :: "'d jtag_hw \<Rightarrow> u32 \<Rightarrow> 'd uart \<Rightarrow> 'd uart" where
  "IOWR_CONTROL H v u = u\<lparr>regs := wr_control H v (regs u)\<rparr>"

lemmas io_regs = IORD_DATA_def IOWR_DATA_def IORD_CONTROL_def IOWR_CONTROL_def

section \<open>Initialisation\<close>

text \<open>The device instance: zero-initialised, with the default timeout. The initialisation gets the
  result of the alarm registration; without a system clock the timeout is disabled.\<close>

definition uart_instance :: "'d \<Rightarrow> 'd uart" where
  "uart_instance d = \<lparr>timeout = DEFAULT_TIMEOUT, irq_enable = 0, host_inactive = 0, rx_in = 0,
     rx_out = 0, tx_in = 0, tx_out = 0, rx_buf = replicate BUF_LEN 0, tx_buf = replicate BUF_LEN 0,
     regs = d\<rparr>"

definition uart_init :: "'d jtag_hw \<Rightarrow> int \<Rightarrow> 'd uart \<Rightarrow> 'd uart" where
  "uart_init H alarm_rc u =
     (let u = u\<lparr>irq_enable := CONTROL_RE_MSK\<rparr>;
          u = IOWR_CONTROL H (irq_enable u) u;
          u = u\<lparr>host_inactive := 0\<rparr>
      in if alarm_rc < 0 then u\<lparr>timeout := INT_MAX\<rparr> else u)"

section \<open>The interrupt handler\<close>

definition rx_store :: "u8 \<Rightarrow> 'd uart \<Rightarrow> 'd uart" where
  "rx_store b u = u\<lparr>rx_buf := (rx_buf u)[rx_in u := b], rx_in := (rx_in u + 1) mod BUF_LEN\<rparr>"

text \<open>
  The receive loop. It ends when the buffer is full or the data read is not valid, after at
  most as many rounds as the buffer has slots (the first argument; \<open>rx_loop_fuel\<close> in Jtag_Props).
\<close>

fun rx_loop :: "nat \<Rightarrow> 'd jtag_hw \<Rightarrow> u32 \<times> 'd uart \<Rightarrow> u32 \<times> 'd uart" where
  "rx_loop 0 H (data, u) = (data, u)"
| "rx_loop (Suc k) H (data, u) =
     (if (rx_in u + 1) mod BUF_LEN = rx_out u then (data, u)
      else let (data, u) = IORD_DATA H u
           in if data AND DATA_RVALID_MSK = 0 then (data, u)
              else rx_loop k H (data, rx_store (ucast (data AND DATA_DATA_MSK)) u))"

definition irq_rx :: "'d jtag_hw \<Rightarrow> 'd uart \<Rightarrow> 'd uart" where
  "irq_rx H u =
     (let (data, u) = rx_loop BUF_LEN H (push_bit 16 1, u)
      in if data AND DATA_RAVAIL_MSK \<noteq> 0 then
           let u = u\<lparr>irq_enable := irq_enable u AND NOT CONTROL_RE_MSK\<rparr>;
               u = IOWR_CONTROL H (irq_enable u) u
           in snd (IORD_CONTROL H u)
         else u)"

fun tx_loop :: "nat \<Rightarrow> 'd jtag_hw \<Rightarrow> 'd uart \<Rightarrow> nat \<times> 'd uart" where
  "tx_loop 0 H u = (0, u)"
| "tx_loop (Suc space) H u =
     (if tx_out u \<noteq> tx_in u then
        let u = IOWR_DATA H (scast (tx_buf u ! tx_out u)) u
        in tx_loop space H (u\<lparr>tx_out := (tx_out u + 1) mod BUF_LEN\<rparr>)
      else (Suc space, u))"

definition irq_tx :: "'d jtag_hw \<Rightarrow> u32 \<Rightarrow> 'd uart \<Rightarrow> 'd uart" where
  "irq_tx H control u =
     (let (space, u) = tx_loop (unat (drop_bit 16 (control AND CONTROL_WSPACE_MSK))) H u
      in if space > 0 then
           let u = u\<lparr>irq_enable := irq_enable u AND NOT CONTROL_WE_MSK\<rparr>;
               u = IOWR_CONTROL H (irq_enable u) u
           in snd (IORD_CONTROL H u)
         else u)"

definition irq_round :: "'d jtag_hw \<Rightarrow> u32 \<Rightarrow> 'd uart \<Rightarrow> 'd uart" where
  "irq_round H control u =
     (let u = (if control AND CONTROL_RI_MSK \<noteq> 0 then irq_rx H u else u)
      in if control AND CONTROL_WI_MSK \<noteq> 0 then irq_tx H control u else u)"

definition uart_irq :: "'d jtag_hw \<Rightarrow> 'd uart \<Rightarrow> 'd uart option" where
  "uart_irq H u = map_option snd
     (while_option (\<lambda>(control, u). control AND (CONTROL_RI_MSK OR CONTROL_WI_MSK) \<noteq> 0)
        (\<lambda>(control, u). IORD_CONTROL H (irq_round H control u)) (IORD_CONTROL H u))"

section \<open>The timeout callback\<close>

definition uart_timeout :: "'d jtag_hw \<Rightarrow> 'd uart \<Rightarrow> 'd uart" where
  "uart_timeout H u =
     (let (control, u) = IORD_CONTROL H u
      in if control AND CONTROL_AC_MSK \<noteq> 0 then
           (IOWR_CONTROL H (irq_enable u OR CONTROL_AC_MSK) u)\<lparr>host_inactive := 0\<rparr>
         else if host_inactive u < INT_MAX - 2 then u\<lparr>host_inactive := host_inactive u + 1\<rparr>
         else u)"

section \<open>Read\<close>

definition rx_chunk :: "'d uart \<Rightarrow> nat" where
  "rx_chunk u = (if rx_in u \<ge> rx_out u then rx_in u - rx_out u else BUF_LEN - rx_out u)"

function rx_copy :: "nat \<Rightarrow> 'd uart \<Rightarrow> u8 list \<times> 'd uart" where
  "rx_copy space u =
     (if space = 0 \<or> rx_chunk u = 0 then ([], u)
      else let n = min (rx_chunk u) space;
               bytes = take n (drop (rx_out u) (rx_buf u));
               (more, u) = rx_copy (space - n) (u\<lparr>rx_out := (rx_out u + n) mod BUF_LEN\<rparr>)
           in (bytes @ more, u))"
  by pat_completeness auto
termination
  by (relation "measure (\<lambda>(space, u). space)") auto

declare rx_copy.simps [simp del]

definition host_there :: "'d uart \<Rightarrow> bool" where
  "host_there u \<longleftrightarrow> host_inactive u < timeout u"

definition rx_spin :: "('d uart \<Rightarrow> 'd uart) \<Rightarrow> nat \<Rightarrow> 'd uart \<Rightarrow> 'd uart option" where
  "rx_spin env inn u = while_option (\<lambda>u. inn = rx_in u \<and> host_there u) env u"

partial_function (option) read_loop ::
  "('d uart \<Rightarrow> 'd uart) \<Rightarrow> bool \<Rightarrow> nat \<Rightarrow> 'd uart \<Rightarrow> (u8 list \<times> 'd uart) option" where
  "read_loop env nonblock space u =
     (let x = rx_copy space u
      in if fst x \<noteq> [] \<or> nonblock then Some x
         else Option.bind (rx_spin env (rx_in (snd x)) (snd x)) (\<lambda>u'.
                if rx_in (snd x) = rx_in u' then Some ([], u') else read_loop env nonblock space u'))"

definition uart_read ::
  "'d jtag_hw \<Rightarrow> ('d uart \<Rightarrow> 'd uart) \<Rightarrow> int \<Rightarrow> u32 \<Rightarrow> 'd uart \<Rightarrow> (int \<times> u8 list \<times> 'd uart) option" where
  "uart_read H env space flags u =
     map_option (\<lambda>(bytes, u).
         if bytes \<noteq> [] then
           (let u = u\<lparr>irq_enable := irq_enable u OR CONTROL_RE_MSK\<rparr>
            in (int (length bytes), bytes, IOWR_CONTROL H (irq_enable u) u))
         else if flags AND O_NONBLOCK \<noteq> 0 then (- EWOULDBLOCK, [], u) else (- EIO, [], u))
       (if space > 0 then read_loop env (flags AND O_NONBLOCK \<noteq> 0) (nat space) u else Some ([], u))"

section \<open>Write\<close>

definition tx_room :: "'d uart \<Rightarrow> nat" where
  "tx_room u =
     (if tx_in u < tx_out u then tx_out u - 1 - tx_in u
      else if tx_out u > 0 then BUF_LEN - tx_in u else BUF_LEN - 1 - tx_in u)"

function tx_copy :: "u8 list \<Rightarrow> 'd uart \<Rightarrow> u8 list \<times> 'd uart" where
  "tx_copy xs u =
     (if xs = [] \<or> tx_room u = 0 then (xs, u)
      else let n = min (tx_room u) (length xs)
           in tx_copy (drop n xs)
                (u\<lparr>tx_buf := memcpy_to (tx_buf u) (tx_in u) (take n xs),
                   tx_in := (tx_in u + n) mod BUF_LEN\<rparr>))"
  by pat_completeness auto
termination
  by (relation "measure (\<lambda>(xs, u). length xs)") auto

declare tx_copy.simps [simp del]

definition enable_we :: "'d jtag_hw \<Rightarrow> 'd uart \<Rightarrow> 'd uart" where
  "enable_we H u =
     (let u = u\<lparr>irq_enable := irq_enable u OR CONTROL_WE_MSK\<rparr> in IOWR_CONTROL H (irq_enable u) u)"

definition tx_spin :: "('d uart \<Rightarrow> 'd uart) \<Rightarrow> nat \<Rightarrow> 'd uart \<Rightarrow> 'd uart option" where
  "tx_spin env out u = while_option (\<lambda>u. out = tx_out u \<and> host_there u) env u"

text \<open>The result is the part of the text that was not accepted.\<close>

partial_function (option) write_loop ::
  "'d jtag_hw \<Rightarrow> ('d uart \<Rightarrow> 'd uart) \<Rightarrow> bool \<Rightarrow> u8 list \<Rightarrow> 'd uart \<Rightarrow> (u8 list \<times> 'd uart) option" where
  "write_loop H env nonblock xs u =
     (let x = tx_copy xs u;
          u' = enable_we H (snd x)
      in if fst x = [] \<or> nonblock then Some (fst x, u')
         else Option.bind (tx_spin env (tx_out u') u') (\<lambda>u''.
                if host_inactive u'' \<noteq> 0 then Some (fst x, u'')
                else write_loop H env nonblock (fst x) u''))"

definition uart_write ::
  "'d jtag_hw \<Rightarrow> ('d uart \<Rightarrow> 'd uart) \<Rightarrow> u8 list \<Rightarrow> u32 \<Rightarrow> 'd uart \<Rightarrow> (int \<times> 'd uart) option" where
  "uart_write H env xs flags u =
     map_option (\<lambda>(rest, u).
         (if length rest \<noteq> length xs then int (length xs - length rest)
          else if flags AND O_NONBLOCK \<noteq> 0 then - EWOULDBLOCK else - EIO, u))
       (write_loop H env (flags AND O_NONBLOCK \<noteq> 0) xs u)"

section \<open>Close and ioctl\<close>

definition uart_close :: "('d uart \<Rightarrow> 'd uart) \<Rightarrow> u32 \<Rightarrow> 'd uart \<Rightarrow> (int \<times> 'd uart) option" where
  "uart_close env flags u =
     (let waiting = (\<lambda>u. tx_out u \<noteq> tx_in u \<and> host_there u)
      in if flags AND O_NONBLOCK \<noteq> 0
         then Some (if waiting u then - EWOULDBLOCK else 0, u)
         else map_option (\<lambda>u. (0, u)) (while_option waiting env u))"

definition TIOCSTIMEOUT :: u32 where "TIOCSTIMEOUT = 0x6a01"
definition TIOCGCONNECTED :: u32 where "TIOCGCONNECTED = 0x6a02"

text \<open>\<open>arg\<close> is the word the pointer points to, before and after.\<close>

definition uart_ioctl :: "u32 \<Rightarrow> u32 \<Rightarrow> 'd uart \<Rightarrow> int \<times> u32 \<times> 'd uart" where
  "uart_ioctl req arg u =
     (if req = TIOCSTIMEOUT then
        (if timeout u \<noteq> INT_MAX then
           (0, arg, u\<lparr>timeout := (if 2 \<le> sint arg \<and> sint arg < sint INT_MAX then arg else INT_MAX - 1)\<rparr>)
         else (- ENOTTY, arg, u))
      else if req = TIOCGCONNECTED then
        (if timeout u \<noteq> INT_MAX then (0, if host_there u then 1 else 0, u) else (- ENOTTY, arg, u))
      else (- ENOTTY, arg, u))"

section \<open>The calls on file descriptors\<close>

definition uart_read_fd ::
  "'d jtag_hw \<Rightarrow> ('d uart \<Rightarrow> 'd uart) \<Rightarrow> fd \<Rightarrow> int \<Rightarrow> 'd uart \<Rightarrow> (int \<times> u8 list \<times> 'd uart) option" where
  "uart_read_fd H env f space u = uart_read H env space (fd_flags f) u"

definition uart_write_fd ::
  "'d jtag_hw \<Rightarrow> ('d uart \<Rightarrow> 'd uart) \<Rightarrow> fd \<Rightarrow> u8 list \<Rightarrow> 'd uart \<Rightarrow> (int \<times> 'd uart) option" where
  "uart_write_fd H env f xs u = uart_write H env xs (fd_flags f) u"

definition uart_close_fd :: "('d uart \<Rightarrow> 'd uart) \<Rightarrow> fd \<Rightarrow> 'd uart \<Rightarrow> (int \<times> 'd uart) option" where
  "uart_close_fd env f u = uart_close env (fd_flags f) u"

definition uart_ioctl_fd :: "fd \<Rightarrow> u32 \<Rightarrow> u32 \<Rightarrow> 'd uart \<Rightarrow> int \<times> u32 \<times> 'd uart" where
  "uart_ioctl_fd f req arg u = uart_ioctl req arg u"

end
