(* ===== verification/Hal_Log.thy ===== *)
theory Hal_Log
  imports Hal_Print_Props Jtag_Uart
begin

text \<open>
  The logging facility of the HAL (alt_log_printf.c and the settings of alt_log_printf.h), with
  the JTAG UART as its port: the transmission of a character by polling, the formatted print,
  the echo of what is written, the heartbeat of the system clock and the reports on the UART.
  The BSP can be built with or without it; the components of the other theories are modelled
  without. The two registers of the UART are the parameter \<open>jtag_hw\<close>, as in the driver.
\<close>

section \<open>Settings\<close>

text \<open>What ALT_LOG_FLAGS switches on; \<open>jtag\<close> says that the system has a JTAG UART.\<close>

definition ALT_LOG_BOOT_ON_FLAG_SETTING :: "int \<Rightarrow> u32" where
  "ALT_LOG_BOOT_ON_FLAG_SETTING fl =
     (if fl = 1 then 1 else if fl = 2 then 1 else if fl = 3 then 1 else if fl = -1 then 0 else 1)"

definition ALT_LOG_SYS_CLK_ON_FLAG_SETTING :: "int \<Rightarrow> u8" where
  "ALT_LOG_SYS_CLK_ON_FLAG_SETTING fl =
     (if fl = 1 then 1 else if fl = 2 then 1 else if fl = 3 then 1 else if fl = -1 then 0 else 0)"

definition ALT_LOG_WRITE_ON_FLAG_SETTING :: "int \<Rightarrow> u8" where
  "ALT_LOG_WRITE_ON_FLAG_SETTING fl =
     (if fl = 1 then 0 else if fl = 2 then 1 else if fl = 3 then 1 else if fl = -1 then 0 else 0)"

definition ALT_LOG_JTAG_UART_ALARM_ON_FLAG_SETTING :: "bool \<Rightarrow> int \<Rightarrow> u8" where
  "ALT_LOG_JTAG_UART_ALARM_ON_FLAG_SETTING jtag fl =
     (if \<not> jtag then 0 else if fl = 1 then 0 else if fl = 2 then 1 else if fl = 3 then 1
      else if fl = -1 then 0 else 0)"

definition ALT_LOG_JTAG_UART_STARTUP_INFO_ON_FLAG_SETTING :: "bool \<Rightarrow> int \<Rightarrow> u8" where
  "ALT_LOG_JTAG_UART_STARTUP_INFO_ON_FLAG_SETTING jtag fl =
     (if \<not> jtag then 0 else if fl = 1 then 1 else if fl = 2 then 1 else if fl = 3 then 1
      else if fl = -1 then 0 else 0)"

definition ALT_LOG_JTAG_UART_ISR_ON_FLAG_SETTING :: "bool \<Rightarrow> int \<Rightarrow> u8" where
  "ALT_LOG_JTAG_UART_ISR_ON_FLAG_SETTING jtag fl =
     (if \<not> jtag then 0 else if fl = 1 then 0 else if fl = 2 then 0 else if fl = 3 then 1
      else if fl = -1 then 0 else 0)"

definition ALT_LOG_WRITE_ECHO_LEN :: nat where "ALT_LOG_WRITE_ECHO_LEN = 15"
definition ALT_LOG_JTAG_UART_TICKS_DIVISOR :: u32 where "ALT_LOG_JTAG_UART_TICKS_DIVISOR = 10"

definition ALT_LOG_JTAG_UART_TICKS :: "u32 \<Rightarrow> u32" where
  "ALT_LOG_JTAG_UART_TICKS ticks_per_second = ticks_per_second div ALT_LOG_JTAG_UART_TICKS_DIVISOR"

definition ALT_LOG_SYS_CLK_INTERVAL :: "u32 \<Rightarrow> u32" where
  "ALT_LOG_SYS_CLK_INTERVAL ticks_per_second = ticks_per_second * 1"

section \<open>State\<close>

record 'd alog =
  alt_log_boot_on_flag :: u32
  alt_log_write_on_flag :: u8
  alt_log_sys_clk_on_flag :: u8
  alt_log_jtag_uart_alarm_on_flag :: u8
  alt_log_jtag_uart_isr_on_flag :: u8
  alt_log_jtag_uart_startup_info_on_flag :: u8
  alt_log_sys_clk_count :: u32
  alt_system_clock_in_sec :: u32
  alt_log_write_buf :: string
  log_regs :: 'd

definition alog_init :: "bool \<Rightarrow> int \<Rightarrow> 'd \<Rightarrow> 'd alog" where
  "alog_init jtag fl d = \<lparr>alt_log_boot_on_flag = ALT_LOG_BOOT_ON_FLAG_SETTING fl,
     alt_log_write_on_flag = ALT_LOG_WRITE_ON_FLAG_SETTING fl,
     alt_log_sys_clk_on_flag = ALT_LOG_SYS_CLK_ON_FLAG_SETTING fl,
     alt_log_jtag_uart_alarm_on_flag = ALT_LOG_JTAG_UART_ALARM_ON_FLAG_SETTING jtag fl,
     alt_log_jtag_uart_isr_on_flag = ALT_LOG_JTAG_UART_ISR_ON_FLAG_SETTING jtag fl,
     alt_log_jtag_uart_startup_info_on_flag = ALT_LOG_JTAG_UART_STARTUP_INFO_ON_FLAG_SETTING jtag fl,
     alt_log_sys_clk_count = 0, alt_system_clock_in_sec = 0,
     alt_log_write_buf = replicate (ALT_LOG_WRITE_ECHO_LEN + 2) (CHR 0x00), log_regs = d\<rparr>"

section \<open>Output\<close>

text \<open>A character waits for room in the hardware; the register takes its byte.\<close>

definition char_byte :: "char \<Rightarrow> u8" where
  "char_byte c = of_nat (of_char c)"

definition alt_log_txchar :: "'d jtag_hw \<Rightarrow> char \<Rightarrow> 'd \<Rightarrow> 'd option" where
  "alt_log_txchar H c d =
     map_option (\<lambda>(v, d). wr_data H (scast (char_byte c)) d)
       (while_option (\<lambda>(v, d). v AND CONTROL_WSPACE_MSK = 0) (\<lambda>(v, d). rd_control H d) (rd_control H d))"

fun log_send :: "'d jtag_hw \<Rightarrow> string \<Rightarrow> 'd \<Rightarrow> 'd option" where
  "log_send H [] d = Some d"
| "log_send H (c # cs) d = Option.bind (alt_log_txchar H c d) (log_send H cs)"

definition alt_log_printf_proc :: "'d jtag_hw \<Rightarrow> string \<Rightarrow> va list \<Rightarrow> 'd alog \<Rightarrow> 'd alog option" where
  "alt_log_printf_proc H fmt args s =
     Option.bind (alt_log_private_printf fmt args)
       (\<lambda>text. map_option (\<lambda>d. s\<lparr>log_regs := d\<rparr>) (log_send H text (log_regs s)))"

definition ALT_LOG_PRINT_BOOT :: "'d jtag_hw \<Rightarrow> string \<Rightarrow> va list \<Rightarrow> 'd alog \<Rightarrow> 'd alog option" where
  "ALT_LOG_PRINT_BOOT H fmt args s =
     (if alt_log_boot_on_flag s = 1 then alt_log_printf_proc H fmt args s else Some s)"

abbreviation crlf :: string where
  "crlf \<equiv> [CHR 0x0D, CHR 0x0A]"

section \<open>The echo of write\<close>

definition c_string :: "string \<Rightarrow> string" where
  "c_string s = takeWhile (\<lambda>c. c \<noteq> CHR 0x00) s"

definition strncpy :: "string \<Rightarrow> string \<Rightarrow> nat \<Rightarrow> string" where
  "strncpy dst src n =
     (let s = c_string (take n src) in s @ replicate (n - length s) (CHR 0x00) @ drop n dst)"

definition alt_log_write :: "'d jtag_hw \<Rightarrow> string \<Rightarrow> 'd alog \<Rightarrow> 'd alog option" where
  "alt_log_write H p s =
     (if alt_log_write_on_flag s \<noteq> 0 then
        let len = (if ALT_LOG_WRITE_ECHO_LEN > length p then length p else ALT_LOG_WRITE_ECHO_LEN)
        in if len < 2 then Some s
           else let buf = strncpy (alt_log_write_buf s) p len;
                    buf = buf[len - 1 := CHR 0x0A, len := CHR 0x0D, len + 1 := CHR 0x00];
                    buf = map (\<lambda>c. if c = CHR 0x04 then CHR ''D'' else c) (take len buf) @ drop len buf
                in alt_log_printf_proc H ''Write Echo: %s'' [VStr (c_string buf)] (s\<lparr>alt_log_write_buf := buf\<rparr>)
      else Some s)"

section \<open>The heartbeat\<close>

definition alt_log_system_clock :: "'d jtag_hw \<Rightarrow> u32 \<Rightarrow> 'd alog \<Rightarrow> 'd alog option" where
  "alt_log_system_clock H ticks_per_second s =
     (if alt_log_sys_clk_on_flag s \<noteq> 0 then
        let s = s\<lparr>alt_log_sys_clk_count := alt_log_sys_clk_count s + 1\<rparr>
        in if alt_log_sys_clk_count s > ALT_LOG_SYS_CLK_INTERVAL ticks_per_second then
             let n = alt_system_clock_in_sec s;
                 s = s\<lparr>alt_log_sys_clk_count := 0, alt_system_clock_in_sec := n + 1\<rparr>
             in alt_log_printf_proc H (''System Clock On %u'' @ crlf) [VInt n] s
           else Some s
      else Some s)"

section \<open>Reports on the JTAG UART\<close>

definition alt_log_jtag_uart_print_control_reg ::
  "'d jtag_hw \<Rightarrow> 'e uart \<Rightarrow> string \<Rightarrow> 'd alog \<Rightarrow> 'd alog option" where
  "alt_log_jtag_uart_print_control_reg H dev header s =
     (let (control, d) = rd_control H (log_regs s);
          space = drop_bit 16 (control AND CONTROL_WSPACE_MSK);
          we = drop_bit 1 (control AND CONTROL_WE_MSK);
          re = control AND CONTROL_RE_MSK;
          ri = drop_bit 8 (control AND CONTROL_RI_MSK);
          wi = drop_bit 9 (control AND CONTROL_WI_MSK);
          ac = drop_bit 10 (control AND CONTROL_AC_MSK)
      in alt_log_printf_proc H (''%s SW CirBuf = %d, HW FIFO wspace=%d AC=%d WI=%d RI=%d WE=%d RE=%d'' @ crlf)
           [VStr header, VInt (of_nat (tx_out dev) - of_nat (tx_in dev)), VInt space, VInt ac, VInt wi,
            VInt ri, VInt we, VInt re] (s\<lparr>log_regs := d\<rparr>))"

definition alt_log_jtag_uart_startup_info :: "'d jtag_hw \<Rightarrow> 'e uart \<Rightarrow> 'd alog \<Rightarrow> 'd alog option" where
  "alt_log_jtag_uart_startup_info H dev s =
     alt_log_jtag_uart_print_control_reg H dev ''JTAG Startup Info:'' s"

definition alt_log_jtag_uart_isr_proc :: "'d jtag_hw \<Rightarrow> 'e uart \<Rightarrow> 'd alog \<Rightarrow> 'd alog option" where
  "alt_log_jtag_uart_isr_proc H dev s =
     (if alt_log_jtag_uart_isr_on_flag s \<noteq> 0
      then alt_log_jtag_uart_print_control_reg H dev ''JTAG IRQ:'' s else Some s)"

text \<open>The alarm callback: the number of ticks after which it runs again, 0 for never.\<close>

definition altera_avalon_jtag_uart_report_log ::
  "'d jtag_hw \<Rightarrow> u32 \<Rightarrow> 'e uart \<Rightarrow> 'd alog \<Rightarrow> (u32 \<times> 'd alog) option" where
  "altera_avalon_jtag_uart_report_log H ticks_per_second dev s =
     (if alt_log_jtag_uart_alarm_on_flag s \<noteq> 0
      then map_option (\<lambda>s. (ALT_LOG_JTAG_UART_TICKS ticks_per_second, s))
             (alt_log_jtag_uart_print_control_reg H dev ''JTAG Alarm:'' s)
      else Some (0, s))"

end
