(* ===== verification/Jtag_Props.thy ===== *)
theory Jtag_Props
  imports Jtag_Uart
begin

text \<open>
  What the JTAG UART driver guarantees: both buffers are queues whatever the order of calls and
  interrupts; every byte written is sent once and in order, every byte received is returned once
  and in order; an interrupt that is needed is never left disabled; the calls return what they
  did; and the count of the host's inactivity does not overflow.
\<close>

section \<open>The two queues\<close>

abbreviation rx_q :: "'d uart \<Rightarrow> u8 list" where
  "rx_q u \<equiv> rb_contents (rx_buf u) (rx_out u) (rx_in u)"

abbreviation tx_q :: "'d uart \<Rightarrow> u8 list" where
  "tx_q u \<equiv> rb_contents (tx_buf u) (tx_out u) (tx_in u)"

definition uart_ok :: "'d uart \<Rightarrow> bool" where
  "uart_ok u \<longleftrightarrow> rb_ok BUF_LEN (rx_buf u) (rx_out u) (rx_in u) \<and>
     rb_ok BUF_LEN (tx_buf u) (tx_out u) (tx_in u)"

lemma uart_okD:
  "uart_ok u \<Longrightarrow> rb_ok BUF_LEN (rx_buf u) (rx_out u) (rx_in u)"
  "uart_ok u \<Longrightarrow> rb_ok BUF_LEN (tx_buf u) (tx_out u) (tx_in u)"
  by (simp_all add: uart_ok_def)

lemma uart_ok_frame [simp]:
  "uart_ok (u\<lparr>regs := d\<rparr>) = uart_ok u" "uart_ok (u\<lparr>irq_enable := v\<rparr>) = uart_ok u"
  "uart_ok (u\<lparr>host_inactive := h\<rparr>) = uart_ok u" "uart_ok (u\<lparr>timeout := h\<rparr>) = uart_ok u"
  by (simp_all add: uart_ok_def)

text \<open>The part of the state that the receive side leaves alone, and the transmit side.\<close>

definition same_tx :: "'d uart \<Rightarrow> 'd uart \<Rightarrow> bool" where
  "same_tx u u' \<longleftrightarrow> tx_buf u' = tx_buf u \<and> tx_in u' = tx_in u \<and> tx_out u' = tx_out u"

definition same_rx :: "'d uart \<Rightarrow> 'd uart \<Rightarrow> bool" where
  "same_rx u u' \<longleftrightarrow> rx_buf u' = rx_buf u \<and> rx_in u' = rx_in u \<and> rx_out u' = rx_out u"

lemmas same_defs = same_tx_def same_rx_def

subsection \<open>The calls\<close>

lemma rx_copy_spec:
  assumes "uart_ok u" "rx_copy n u = (bs, u')"
  shows "uart_ok u' \<and> rx_q u = bs @ rx_q u' \<and> length bs = min n (length (rx_q u)) \<and> same_tx u u' \<and>
    regs u' = regs u \<and> irq_enable u' = irq_enable u \<and> rx_in u' = rx_in u \<and>
    host_inactive u' = host_inactive u \<and> timeout u' = timeout u"
  using assms
proof (induction n u arbitrary: bs rule: rx_copy.induct)
  case (1 space u)
  note ok = uart_okD(1) [OF 1(2)]
  show ?case
  proof (cases "space = 0 \<or> rx_chunk u = 0")
    case True
    then have "(bs, u') = ([], u)" using 1(3) by (simp add: rx_copy.simps)
    moreover have "rx_chunk u = 0 \<Longrightarrow> rx_q u = []"
      using ok unfolding rb_empty [OF ok] by (auto simp: rx_chunk_def rb_ok_def split: if_splits)
    ultimately show ?thesis using True 1(2) by (auto simp: same_tx_def)
  next
    case False
    define k where "k = min (rx_chunk u) space"
    define v where "v = u\<lparr>rx_out := (rx_out u + k) mod BUF_LEN\<rparr>"
    obtain more where r: "rx_copy (space - k) v = (more, u')" and bs: "bs = take k (drop (rx_out u) (rx_buf u)) @ more"
      using 1(3) False unfolding k_def v_def
      by (subst (asm) rx_copy.simps) (auto simp: Let_def split: prod.splits)
    have le: "k \<le> (if rx_out u \<le> rx_in u then rx_in u - rx_out u else BUF_LEN - rx_out u)"
      by (simp add: k_def rx_chunk_def)
    note blk = rb_get_block [OF ok le]
    have kl: "k \<le> length (rx_q u)" using le unfolding rb_length [OF ok] by (auto split: if_splits)
    have v: "uart_ok v" "rx_q v = drop k (rx_q u)"
      using blk(2,3) 1(2) by (auto simp: v_def uart_ok_def)
    note IH = 1(1) [OF False refl refl, of more]
    have "uart_ok u' \<and> rx_q v = more @ rx_q u' \<and> length more = min (space - k) (length (rx_q v)) \<and> same_tx v u' \<and>
      regs u' = regs v \<and> irq_enable u' = irq_enable v \<and> rx_in u' = rx_in v \<and>
      host_inactive u' = host_inactive v \<and> timeout u' = timeout v"
      using IH v r unfolding k_def [symmetric] v_def [symmetric] by blast
    then show ?thesis
      using bs blk(1) v(2) kl by (auto simp: v_def same_tx_def k_def min_def)
  qed
qed

lemma tx_room_rb: "tx_room u = rb_room BUF_LEN (tx_out u) (tx_in u)"
  by (simp add: tx_room_def rb_room_def)

lemma tx_copy_spec:
  assumes "uart_ok u" "tx_copy xs u = (rest, u')"
  shows "uart_ok u' \<and> (\<exists>ys. xs = ys @ rest \<and> tx_q u' = tx_q u @ ys) \<and>
    (rest \<noteq> [] \<longrightarrow> length (tx_q u') = BUF_LEN - 1) \<and> same_rx u u' \<and> regs u' = regs u \<and>
    irq_enable u' = irq_enable u \<and> tx_out u' = tx_out u \<and> host_inactive u' = host_inactive u \<and>
    timeout u' = timeout u"
  using assms
proof (induction xs u rule: tx_copy.induct)
  case (1 xs u)
  note ok = uart_okD(2) [OF 1(2)]
  show ?case
  proof (cases "xs = [] \<or> tx_room u = 0")
    case True
    then have e: "rest = xs" "u' = u" using 1(3) by (auto simp: tx_copy.simps)
    have "xs \<noteq> [] \<Longrightarrow> length (tx_q u) = BUF_LEN - 1"
      using True rb_room_zero [OF ok] by (simp add: tx_room_rb)
    then show ?thesis using e 1(2) by (auto simp: same_rx_def)
  next
    case False
    define k where "k = min (tx_room u) (length xs)"
    define v where "v = u\<lparr>tx_buf := memcpy_to (tx_buf u) (tx_in u) (take k xs),
      tx_in := (tx_in u + k) mod BUF_LEN\<rparr>"
    have r: "tx_copy (drop k xs) v = (rest, u')"
      using 1(3) False unfolding k_def v_def by (subst (asm) tx_copy.simps) (simp add: Let_def)
    have l: "length (take k xs) = k" by (simp add: k_def)
    then have "length (take k xs) \<le> rb_room BUF_LEN (tx_out u) (tx_in u)"
      by (simp add: k_def tx_room_rb)
    note blk = rb_put_block [OF ok this, unfolded l]
    have v: "uart_ok v" "tx_q v = tx_q u @ take k xs"
      using blk(1,2) 1(2) by (auto simp: v_def uart_ok_def)
    have "uart_ok u' \<and> (\<exists>ys. drop k xs = ys @ rest \<and> tx_q u' = tx_q v @ ys) \<and>
      (rest \<noteq> [] \<longrightarrow> length (tx_q u') = BUF_LEN - 1) \<and> same_rx v u' \<and> regs u' = regs v \<and>
      irq_enable u' = irq_enable v \<and> tx_out u' = tx_out v \<and> host_inactive u' = host_inactive v \<and>
      timeout u' = timeout v"
      using 1(1) [OF False refl] v(1) r unfolding k_def [symmetric] v_def [symmetric] by blast
    then obtain ys where "drop k xs = ys @ rest" "tx_q u' = tx_q v @ ys" and
      others: "uart_ok u'" "rest \<noteq> [] \<longrightarrow> length (tx_q u') = BUF_LEN - 1" "same_rx v u'" "regs u' = regs v"
      "irq_enable u' = irq_enable v" "tx_out u' = tx_out v" "host_inactive u' = host_inactive v"
      "timeout u' = timeout v" by blast
    then have "xs = (take k xs @ ys) @ rest" "tx_q u' = tx_q u @ (take k xs @ ys)"
      using v(2) by (metis append_take_drop_id append.assoc, simp)
    then show ?thesis using others by (auto simp: v_def same_rx_def)
  qed
qed

subsection \<open>The hardware's contract\<close>

text \<open>
  What the UART's documentation says of its registers: a write of the data register sends the low
  byte; a read returns the oldest received byte with RVALID set, or RVALID and RAVAIL clear when
  there is none; the control register moves no data. \<open>sent\<close> and \<open>received\<close> are the bytes that
  went through the data register so far.
\<close>

record 'd jtag_log =
  sent :: "'d \<Rightarrow> u8 list"
  received :: "'d \<Rightarrow> u8 list"

definition jtag_ok :: "'d jtag_hw \<Rightarrow> 'd jtag_log \<Rightarrow> bool" where
  "jtag_ok H L \<longleftrightarrow>
     (\<forall>d v. sent L (wr_data H v d) = sent L d @ [ucast v] \<and> received L (wr_data H v d) = received L d) \<and>
     (\<forall>d v d'. rd_data H d = (v, d') \<longrightarrow> sent L d' = sent L d \<and>
        (if v AND DATA_RVALID_MSK = 0 then received L d' = received L d \<and> v AND DATA_RAVAIL_MSK = 0
         else received L d' = received L d @ [ucast (v AND DATA_DATA_MSK)])) \<and>
     (\<forall>d v. sent L (wr_control H v d) = sent L d \<and> received L (wr_control H v d) = received L d) \<and>
     (\<forall>d v d'. rd_control H d = (v, d') \<longrightarrow> sent L d' = sent L d \<and> received L d' = received L d)"

lemma rx_store_ok:
  assumes "uart_ok u" "(rx_in u + 1) mod BUF_LEN \<noteq> rx_out u"
  shows "uart_ok (rx_store b u)" "rx_q (rx_store b u) = rx_q u @ [b]"
  using rb_put_one [OF uart_okD(1) [OF assms(1)] assms(2)] assms(1)
  by (simp_all add: rx_store_def uart_ok_def)

lemma rx_loop_spec:
  assumes "jtag_ok H L" "uart_ok u" "rx_loop k H (data, u) = (data', u')"
    and "BUF_LEN \<le> k + length (rx_q u)"
  shows "\<exists>bs. uart_ok u' \<and> rx_q u' = rx_q u @ bs \<and> received L (regs u') = received L (regs u) @ bs \<and>
    sent L (regs u') = sent L (regs u) \<and> same_tx u u' \<and> irq_enable u' = irq_enable u \<and>
    host_inactive u' = host_inactive u \<and> timeout u' = timeout u \<and>
    (length (rx_q u') = BUF_LEN - 1 \<or> data' AND DATA_RAVAIL_MSK = 0)"
  using assms(2-4)
proof (induction k arbitrary: data u)
  case 0
  then show ?case using rb_bound [OF uart_okD(1) [OF 0(1)]] by simp
next
  case (Suc k)
  show ?case
  proof (cases "(rx_in u + 1) mod BUF_LEN = rx_out u")
    case True
    then have "length (rx_q u) = BUF_LEN - 1" using rb_full [OF uart_okD(1) [OF Suc.prems(1)]] by simp
    then show ?thesis using True Suc.prems by (auto simp: same_tx_def)
  next
    case False
    obtain v d where r: "rd_data H (regs u) = (v, d)" by fastforce
    have log: "sent L d = sent L (regs u)"
      "if v AND DATA_RVALID_MSK = 0 then received L d = received L (regs u) \<and> v AND DATA_RAVAIL_MSK = 0
       else received L d = received L (regs u) @ [ucast (v AND DATA_DATA_MSK)]"
      using assms(1) r unfolding jtag_ok_def by blast+
    show ?thesis
    proof (cases "v AND DATA_RVALID_MSK = 0")
      case True
      then have "data' = v" "u' = u\<lparr>regs := d\<rparr>"
        using Suc.prems(2) False r by (auto simp: IORD_DATA_def)
      then show ?thesis using True log Suc.prems(1) by (auto simp: same_tx_def)
    next
      case valid: False
      let ?b = "ucast (v AND DATA_DATA_MSK) :: u8"
      let ?u = "rx_store ?b (u\<lparr>regs := d\<rparr>)"
      have ok: "uart_ok ?u" "rx_q ?u = rx_q u @ [?b]"
        using rx_store_ok [of "u\<lparr>regs := d\<rparr>" ?b] Suc.prems(1) False by simp_all
      have "rx_loop k H (v, ?u) = (data', u')" using Suc.prems(2) False valid r by (simp add: IORD_DATA_def)
      from Suc.IH [OF ok(1) this] ok(2) Suc.prems(3) obtain bs where
        "uart_ok u'" "rx_q u' = rx_q ?u @ bs" "received L (regs u') = received L (regs ?u) @ bs"
        "sent L (regs u') = sent L (regs ?u)" "same_tx ?u u'" "irq_enable u' = irq_enable ?u"
        "host_inactive u' = host_inactive ?u" "timeout u' = timeout ?u"
        "length (rx_q u') = BUF_LEN - 1 \<or> data' AND DATA_RAVAIL_MSK = 0"
        by auto
      then show ?thesis
        using ok(2) log valid by (intro exI [of _ "?b # bs"]) (simp add: rx_store_def same_tx_def)
    qed
  qed
qed

text \<open>More rounds than the buffer has free slots change nothing: the bound of the loop is not a
  restriction of the code's loop.\<close>

lemma rx_loop_fuel:
  assumes "uart_ok u" "BUF_LEN \<le> k + length (rx_q u)"
  shows "rx_loop (k + j) H (data, u) = rx_loop k H (data, u)"
  using assms
proof (induction k arbitrary: data u)
  case 0
  then show ?case using rb_bound [OF uart_okD(1) [OF 0(1)]] by simp
next
  case (Suc k)
  obtain v d where r: "rd_data H (regs u) = (v, d)" by fastforce
  let ?u = "rx_store (ucast (v AND DATA_DATA_MSK)) (u\<lparr>regs := d\<rparr>)"
  have "rx_loop (k + j) H (v, ?u) = rx_loop k H (v, ?u)" if "(rx_in u + 1) mod BUF_LEN \<noteq> rx_out u"
    using Suc.IH [of ?u v] rx_store_ok [of "u\<lparr>regs := d\<rparr>"] Suc.prems that by simp
  then show ?case by (simp add: r IORD_DATA_def)
qed

lemma tx_loop_spec:
  assumes "uart_ok u" "tx_loop n H u = (left, u')"
  shows "\<exists>ys. uart_ok u' \<and> tx_q u = ys @ tx_q u' \<and> length ys = n - left \<and> left \<le> n \<and>
    regs u' = fold (\<lambda>b. wr_data H (scast b)) ys (regs u) \<and> same_rx u u' \<and> irq_enable u' = irq_enable u \<and>
    host_inactive u' = host_inactive u \<and> timeout u' = timeout u \<and> (0 < left \<longrightarrow> tx_q u' = [])"
  using assms
proof (induction n arbitrary: u)
  case 0
  then show ?case by (intro exI [of _ "[]"]) (auto simp: same_rx_def)
next
  case (Suc n)
  note ok = uart_okD(2) [OF Suc.prems(1)]
  show ?case
  proof (cases "tx_out u = tx_in u")
    case True
    then have "tx_q u = []" using rb_empty [OF ok] by simp
    then show ?thesis
      using True Suc.prems by (intro exI [of _ "[]"]) (auto simp: same_rx_def)
  next
    case False
    let ?b = "tx_buf u ! tx_out u"
    let ?v = "(IOWR_DATA H (scast ?b) u)\<lparr>tx_out := (tx_out u + 1) mod BUF_LEN\<rparr>"
    note one = rb_get_one [OF ok False]
    have v: "uart_ok ?v" "tx_q u = ?b # tx_q ?v"
      using one Suc.prems(1) by (simp_all add: uart_ok_def IOWR_DATA_def)
    have "tx_loop n H ?v = (left, u')" using Suc.prems(2) False by (simp add: Let_def IOWR_DATA_def)
    from Suc.IH [OF v(1) this] obtain ys where "uart_ok u'" "tx_q ?v = ys @ tx_q u'"
      "length ys = n - left" "left \<le> n" "regs u' = fold (\<lambda>b. wr_data H (scast b)) ys (regs ?v)"
      "same_rx ?v u'" "irq_enable u' = irq_enable ?v" "host_inactive u' = host_inactive ?v"
      "timeout u' = timeout ?v" "0 < left \<longrightarrow> tx_q u' = []" by blast
    then show ?thesis
      using v(2) by (intro exI [of _ "?b # ys"]) (auto simp: IOWR_DATA_def same_rx_def Suc_diff_le)
  qed
qed

lemma sent_fold:
  assumes "jtag_ok H L"
  shows "sent L (fold (\<lambda>b. wr_data H (scast b)) ys d) = sent L d @ ys \<and>
    received L (fold (\<lambda>b. wr_data H (scast b)) ys d) = received L d"
proof (induction ys arbitrary: d)
  case (Cons b ys)
  have "(ucast (scast b :: u32) :: u8) = b" by (rule bit_word_eqI) (simp add: bit_simps)
  then show ?case using Cons assms by (simp add: jtag_ok_def)
qed simp

section \<open>The queues meet the interface\<close>

definition tx_take :: "'d jtag_hw \<Rightarrow> nat \<Rightarrow> 'd uart \<Rightarrow> u8 list \<times> 'd uart" where
  "tx_take H n u = (let (left, u') = tx_loop n H u in (take (n - left) (tx_q u), u'))"

interpretation tx: fifo tx_q uart_ok "BUF_LEN - 1" tx_copy "tx_take H" for H :: "'b jtag_hw"
proof
  fix q :: "'b uart" and xs rest q' assume "uart_ok q" "tx_copy xs q = (rest, q')"
  then show "uart_ok q' \<and> (\<exists>ys. xs = ys @ rest \<and> tx_q q' = tx_q q @ ys)" using tx_copy_spec [of q xs rest q'] by blast
next
  fix q :: "'b uart" and n ys q' assume a: "uart_ok q" "tx_take H n q = (ys, q')"
  then obtain left where t: "tx_loop n H q = (left, q')" "ys = take (n - left) (tx_q q)"
    by (auto simp: tx_take_def Let_def split: prod.splits)
  then show "uart_ok q' \<and> tx_q q = ys @ tx_q q' \<and> length ys \<le> n"
    using tx_loop_spec [OF a(1) t(1)] by auto
next
  fix q :: "'b uart" assume "uart_ok q"
  then show "length (tx_q q) \<le> BUF_LEN - 1" using rb_bound [OF uart_okD(2)] by fastforce
qed

fun rx_puts :: "u8 list \<Rightarrow> 'd uart \<Rightarrow> u8 list \<times> 'd uart" where
  "rx_puts [] u = ([], u)"
| "rx_puts (b # bs) u =
     (if (rx_in u + 1) mod BUF_LEN = rx_out u then (b # bs, u) else rx_puts bs (rx_store b u))"

lemma rx_puts_spec:
  "uart_ok u \<Longrightarrow> rx_puts xs u = (rest, u') \<Longrightarrow>
   uart_ok u' \<and> (\<exists>ys. xs = ys @ rest \<and> rx_q u' = rx_q u @ ys)"
proof (induction xs arbitrary: u)
  case (Cons b xs)
  show ?case
  proof (cases "(rx_in u + 1) mod BUF_LEN = rx_out u")
    case False
    note st = rx_store_ok [OF Cons.prems(1) False, of b]
    have "rx_puts xs (rx_store b u) = (rest, u')" using Cons.prems(2) False by simp
    from Cons.IH [OF st(1) this] st(2) show ?thesis by auto
  qed (use Cons.prems in simp)
qed simp

interpretation rx: fifo rx_q uart_ok "BUF_LEN - 1" rx_puts rx_copy
proof
  fix q :: "'d uart" and xs rest q' assume "uart_ok q" "rx_puts xs q = (rest, q')"
  then show "uart_ok q' \<and> (\<exists>ys. xs = ys @ rest \<and> rx_q q' = rx_q q @ ys)" by (rule rx_puts_spec)
next
  fix q :: "'d uart" and n ys q' assume a: "uart_ok q" "rx_copy n q = (ys, q')"
  from rx_copy_spec [OF a] have "uart_ok q'" "rx_q q = ys @ rx_q q'" "length ys = min n (length (rx_q q))"
    by blast+
  then show "uart_ok q' \<and> rx_q q = ys @ rx_q q' \<and> length ys \<le> n" by (metis min.cobounded1)
next
  fix q :: "'d uart" assume "uart_ok q"
  then show "length (rx_q q) \<le> BUF_LEN - 1" using rb_bound [OF uart_okD(1)] by fastforce
qed

section \<open>Data and interrupts in flow\<close>

text \<open>
  The invariant of the running driver: \<open>T\<close> is what was accepted for transmission, sent or still
  queued; \<open>D\<close> is what was delivered to readers, after which comes what is queued; and an
  interrupt that is needed is enabled: the transmit interrupt while bytes are queued, the
  receive interrupt while the receive buffer is empty.
\<close>

definition wake :: "'d uart \<Rightarrow> bool" where
  "wake u \<longleftrightarrow> (tx_q u \<noteq> [] \<longrightarrow> irq_enable u AND CONTROL_WE_MSK \<noteq> 0) \<and>
     (rx_q u = [] \<longrightarrow> irq_enable u AND CONTROL_RE_MSK \<noteq> 0)"

definition flow :: "'d jtag_log \<Rightarrow> u8 list \<Rightarrow> u8 list \<Rightarrow> 'd uart \<Rightarrow> bool" where
  "flow L T D u \<longleftrightarrow> uart_ok u \<and> sent L (regs u) @ tx_q u = T \<and>
     received L (regs u) = D @ rx_q u \<and> wake u"

lemma mask_other:
  "(x AND NOT CONTROL_RE_MSK) AND CONTROL_WE_MSK = x AND CONTROL_WE_MSK"
  "(x AND NOT CONTROL_WE_MSK) AND CONTROL_RE_MSK = x AND CONTROL_RE_MSK"
  "(x OR CONTROL_RE_MSK) AND CONTROL_WE_MSK = x AND CONTROL_WE_MSK"
  "(x OR CONTROL_WE_MSK) AND CONTROL_RE_MSK = x AND CONTROL_RE_MSK"
  "(x OR CONTROL_WE_MSK) AND CONTROL_WE_MSK \<noteq> 0" "(x OR CONTROL_RE_MSK) AND CONTROL_RE_MSK \<noteq> 0"
  by (simp_all add: uart_masks and.assoc bit.conj_disj_distrib2)

lemma mask_nonzero [simp]: "CONTROL_RE_MSK \<noteq> 0" "CONTROL_WE_MSK \<noteq> 0"
  by (simp_all add: uart_masks)

lemma control_log:
  assumes "jtag_ok H L"
  shows "sent L (regs (IOWR_CONTROL H v u)) = sent L (regs u)"
    "received L (regs (IOWR_CONTROL H v u)) = received L (regs u)"
    "sent L (regs (snd (IORD_CONTROL H u))) = sent L (regs u)"
    "received L (regs (snd (IORD_CONTROL H u))) = received L (regs u)"
proof -
  obtain c d where r: "rd_control H (regs u) = (c, d)" by fastforce
  have "sent L d = sent L (regs u) \<and> received L d = received L (regs u)"
    using assms r unfolding jtag_ok_def by blast
  then show "sent L (regs (snd (IORD_CONTROL H u))) = sent L (regs u)"
    "received L (regs (snd (IORD_CONTROL H u))) = received L (regs u)"
    using r by (simp_all add: IORD_CONTROL_def)
  show "sent L (regs (IOWR_CONTROL H v u)) = sent L (regs u)"
    "received L (regs (IOWR_CONTROL H v u)) = received L (regs u)"
    using assms by (simp_all add: jtag_ok_def IOWR_CONTROL_def)
qed

lemma control_frame [simp]:
  "rx_buf (IOWR_CONTROL H v u) = rx_buf u" "rx_in (IOWR_CONTROL H v u) = rx_in u"
  "rx_out (IOWR_CONTROL H v u) = rx_out u" "tx_buf (IOWR_CONTROL H v u) = tx_buf u"
  "tx_in (IOWR_CONTROL H v u) = tx_in u" "tx_out (IOWR_CONTROL H v u) = tx_out u"
  "irq_enable (IOWR_CONTROL H v u) = irq_enable u" "host_inactive (IOWR_CONTROL H v u) = host_inactive u"
  "timeout (IOWR_CONTROL H v u) = timeout u"
  "rx_buf (snd (IORD_CONTROL H u)) = rx_buf u" "rx_in (snd (IORD_CONTROL H u)) = rx_in u"
  "rx_out (snd (IORD_CONTROL H u)) = rx_out u" "tx_buf (snd (IORD_CONTROL H u)) = tx_buf u"
  "tx_in (snd (IORD_CONTROL H u)) = tx_in u" "tx_out (snd (IORD_CONTROL H u)) = tx_out u"
  "irq_enable (snd (IORD_CONTROL H u)) = irq_enable u"
  "host_inactive (snd (IORD_CONTROL H u)) = host_inactive u" "timeout (snd (IORD_CONTROL H u)) = timeout u"
  by (simp_all add: IOWR_CONTROL_def IORD_CONTROL_def split_beta)

lemma uart_ok_same: "same_tx u u' \<Longrightarrow> same_rx u u' \<Longrightarrow> uart_ok u' = uart_ok u"
  by (simp add: same_defs uart_ok_def)

lemma flow_control:
  assumes "jtag_ok H L" "flow L T D u"
  shows "flow L T D (snd (IORD_CONTROL H u))" "flow L T D (IOWR_CONTROL H v u)"
  using assms control_log [OF assms(1)] by (simp_all add: flow_def wake_def uart_ok_def)

lemma flow_irq_rx:
  assumes "jtag_ok H L" "flow L T D u"
  shows "flow L T D (irq_rx H u)"
proof -
  have ok: "uart_ok u" using assms(2) by (simp add: flow_def)
  obtain data v where l: "rx_loop BUF_LEN H (push_bit 16 1, u) = (data, v)" by fastforce
  obtain bs where v: "uart_ok v" "rx_q v = rx_q u @ bs" "received L (regs v) = received L (regs u) @ bs"
    "sent L (regs v) = sent L (regs u)" "same_tx u v" "irq_enable v = irq_enable u"
    "length (rx_q v) = BUF_LEN - 1 \<or> data AND DATA_RAVAIL_MSK = 0"
    using rx_loop_spec [OF assms(1) ok l] by auto
  have fv: "flow L T D v"
    using assms(2) v by (auto simp: flow_def wake_def same_tx_def)
  show ?thesis
  proof (cases "data AND DATA_RAVAIL_MSK = 0")
    case True
    then show ?thesis using fv l by (simp add: irq_rx_def)
  next
    case False
    then have ne: "rx_q v \<noteq> []" using v(7) by (auto simp: BUF_LEN_def)
    let ?w = "v\<lparr>irq_enable := irq_enable v AND NOT CONTROL_RE_MSK\<rparr>"
    have "flow L T D ?w" using fv ne by (simp add: flow_def wake_def mask_other)
    then have "flow L T D (snd (IORD_CONTROL H (IOWR_CONTROL H (irq_enable ?w) ?w)))"
      using flow_control [OF assms(1)] by blast
    then show ?thesis using False l by (simp add: irq_rx_def Let_def)
  qed
qed

lemma flow_irq_tx:
  assumes "jtag_ok H L" "flow L T D u"
  shows "flow L T D (irq_tx H control u)"
proof -
  have ok: "uart_ok u" using assms(2) by (simp add: flow_def)
  let ?n = "unat (drop_bit 16 (control AND CONTROL_WSPACE_MSK))"
  obtain left v where l: "tx_loop ?n H u = (left, v)" by fastforce
  obtain ys where v: "uart_ok v" "tx_q u = ys @ tx_q v"
    "regs v = fold (\<lambda>b. wr_data H (scast b)) ys (regs u)" "same_rx u v" "irq_enable v = irq_enable u"
    "0 < left \<longrightarrow> tx_q v = []"
    using tx_loop_spec [OF ok l] by blast
  have fv: "flow L T D v"
    using assms(2) v sent_fold [OF assms(1), of ys "regs u"]
    by (auto simp: flow_def wake_def same_rx_def)
  show ?thesis
  proof (cases "left = 0")
    case True
    then show ?thesis using fv l by (simp add: irq_tx_def)
  next
    case False
    let ?w = "v\<lparr>irq_enable := irq_enable v AND NOT CONTROL_WE_MSK\<rparr>"
    have "flow L T D ?w" using fv v(6) False by (simp add: flow_def wake_def mask_other)
    then have "flow L T D (snd (IORD_CONTROL H (IOWR_CONTROL H (irq_enable ?w) ?w)))"
      using flow_control [OF assms(1)] by blast
    then show ?thesis using False l by (simp add: irq_tx_def Let_def)
  qed
qed

lemma flow_irq:
  assumes "jtag_ok H L" "flow L T D u" "uart_irq H u = Some u'"
  shows "flow L T D u'"
proof -
  let ?f = "\<lambda>(control, u). IORD_CONTROL H (irq_round H control u)"
  obtain c where w: "while_option (\<lambda>(control, u). control AND (CONTROL_RI_MSK OR CONTROL_WI_MSK) \<noteq> 0)
      ?f (IORD_CONTROL H u) = Some (c, u')"
    using assms(3) by (auto simp: uart_irq_def)
  have step: "flow L T D (snd (?f x))" if "flow L T D (snd x)" for x
    using that flow_irq_rx [OF assms(1)] flow_irq_tx [OF assms(1)] flow_control(1) [OF assms(1)]
    by (simp add: irq_round_def split_beta Let_def)
  show ?thesis
    using while_option_inv [where P = "\<lambda>x. flow L T D (snd x)", OF w]
      flow_control(1) [OF assms(1,2)] step by (metis snd_conv)
qed

lemma flow_timeout:
  assumes "jtag_ok H L" "flow L T D u"
  shows "flow L T D (uart_timeout H u)"
proof -
  have "flow L T D (v\<lparr>host_inactive := h\<rparr>)" if "flow L T D v" for v h
    using that by (simp add: flow_def wake_def)
  then show ?thesis
    using flow_control [OF assms(1)] assms(2) by (simp add: uart_timeout_def split_beta Let_def)
qed

text \<open>The two halves of the calls that touch the buffers.\<close>

definition accept :: "'d jtag_hw \<Rightarrow> u8 list \<Rightarrow> 'd uart \<Rightarrow> u8 list \<times> 'd uart" where
  "accept H xs u = (let x = tx_copy xs u in (fst x, enable_we H (snd x)))"

definition deliver :: "'d jtag_hw \<Rightarrow> nat \<Rightarrow> 'd uart \<Rightarrow> u8 list \<times> 'd uart" where
  "deliver H n u =
     (let (bytes, u) = rx_copy n u
      in (bytes, if bytes \<noteq> [] then
            let u = u\<lparr>irq_enable := irq_enable u OR CONTROL_RE_MSK\<rparr> in IOWR_CONTROL H (irq_enable u) u
          else u))"

lemma flow_accept:
  assumes "jtag_ok H L" "flow L T D u" "accept H xs u = (rest, u')"
  shows "\<exists>ys. xs = ys @ rest \<and> flow L (T @ ys) D u'"
proof -
  have ok: "uart_ok u" using assms(2) by (simp add: flow_def)
  obtain v where t: "tx_copy xs u = (rest, v)" and u': "u' = enable_we H v"
    using assms(3) by (cases "tx_copy xs u") (simp add: accept_def Let_def)
  obtain ys where "xs = ys @ rest" and q: "tx_q v = tx_q u @ ys"
    using tx.put_law [OF ok t] by blast
  have s: "uart_ok v" "same_rx u v" "regs v = regs u" "irq_enable v = irq_enable u"
    using tx_copy_spec [OF ok t] by blast+
  let ?w = "v\<lparr>irq_enable := irq_enable v OR CONTROL_WE_MSK\<rparr>"
  have "flow L (T @ ys) D ?w"
    using assms(2) s q by (auto simp: flow_def wake_def same_rx_def mask_other)
  then have "flow L (T @ ys) D u'" using flow_control(2) [OF assms(1)] u' by (simp add: enable_we_def Let_def)
  then show ?thesis using \<open>xs = ys @ rest\<close> by blast
qed

lemma flow_deliver:
  assumes "jtag_ok H L" "flow L T D u" "deliver H n u = (bs, u')"
  shows "flow L T (D @ bs) u' \<and> length bs = min n (length (rx_q u))"
proof -
  have ok: "uart_ok u" using assms(2) by (simp add: flow_def)
  obtain v where t: "rx_copy n u = (bs, v)"
    using assms(3) by (cases "rx_copy n u") (simp add: deliver_def Let_def)
  note sp = rx_copy_spec [OF ok t]
  have q: "rx_q u = bs @ rx_q v" by (rule rx.get_law [OF ok t, THEN conjunct2, THEN conjunct1])
  have s: "uart_ok v" "same_tx u v" "regs v = regs u" "irq_enable v = irq_enable u"
    "length bs = min n (length (rx_q u))" using sp by blast+
  show ?thesis
  proof (cases "bs = []")
    case True
    then have "u' = v" using assms(3) t by (simp add: deliver_def)
    then show ?thesis
      using True assms(2) s q by (auto simp: flow_def wake_def same_tx_def)
  next
    case False
    let ?w = "v\<lparr>irq_enable := irq_enable v OR CONTROL_RE_MSK\<rparr>"
    have "flow L T (D @ bs) ?w"
      using assms(2) s(1-4) q by (auto simp: flow_def wake_def same_tx_def mask_other)
    then have "flow L T (D @ bs) (IOWR_CONTROL H (irq_enable ?w) ?w)" by (rule flow_control(2) [OF assms(1)])
    then have "flow L T (D @ bs) u'" using False assms(3) t by (auto simp: deliver_def Let_def)
    then show ?thesis using s(5) by blast
  qed
qed

section \<open>Runs of the driver\<close>

text \<open>
  Everything that happens to the driver, in any order: interrupts whose handler returns, ticks
  of the timeout, the copying parts of write and read, and ioctl. \<open>acc\<close> are the bytes accepted
  by write, \<open>del\<close> those delivered by read.
\<close>

inductive uart_run :: "'d jtag_hw \<Rightarrow> 'd uart \<Rightarrow> u8 list \<Rightarrow> u8 list \<Rightarrow> 'd uart \<Rightarrow> bool" for H u0 where
  run_start: "uart_run H u0 [] [] u0"
| run_irq: "uart_run H u0 acc del u \<Longrightarrow> uart_irq H u = Some u' \<Longrightarrow> uart_run H u0 acc del u'"
| run_timeout: "uart_run H u0 acc del u \<Longrightarrow> uart_run H u0 acc del (uart_timeout H u)"
| run_write: "uart_run H u0 acc del u \<Longrightarrow> accept H (ys @ rest) u = (rest, u') \<Longrightarrow>
    uart_run H u0 (acc @ ys) del u'"
| run_read: "uart_run H u0 acc del u \<Longrightarrow> deliver H n u = (bs, u') \<Longrightarrow>
    uart_run H u0 acc (del @ bs) u'"
| run_ioctl: "uart_run H u0 acc del u \<Longrightarrow> uart_ioctl req arg u = (r, arg', u') \<Longrightarrow>
    uart_run H u0 acc del u'"

lemma flow_ioctl: "flow L T D u \<Longrightarrow> uart_ioctl req arg u = (r, a, u') \<Longrightarrow> flow L T D u'"
  by (auto simp: uart_ioctl_def flow_def wake_def split: if_splits)

lemma init_flow:
  assumes "jtag_ok H L"
  shows "flow L (sent L d) (received L d) (uart_init H rc (uart_instance d))"
proof -
  have e: "rb_contents (replicate BUF_LEN (0 :: u8)) 0 0 = []" by (simp add: rb_contents_def)
  have "flow L (sent L d) (received L d) ((uart_instance d)\<lparr>irq_enable := CONTROL_RE_MSK\<rparr>)"
    by (simp add: flow_def wake_def uart_instance_def uart_ok_def rb_ok_def BUF_LEN_def e [unfolded BUF_LEN_def]
        CONTROL_RE_MSK_def)
  from flow_control(2) [OF assms this, of CONTROL_RE_MSK] show ?thesis
    by (simp add: uart_init_def Let_def flow_def wake_def)
qed

lemma run_flow:
  assumes "uart_run H (uart_init H rc (uart_instance d)) acc del u" "jtag_ok H L"
  shows "flow L (sent L d @ acc) (received L d @ del) u"
  using assms(1)
proof induction
  case run_start
  then show ?case using init_flow [OF assms(2)] by simp
next
  case (run_irq acc del u u')
  then show ?case using flow_irq [OF assms(2)] by blast
next
  case (run_timeout acc del u)
  then show ?case using flow_timeout [OF assms(2)] by blast
next
  case (run_write acc del u ys rest u')
  obtain zs where "ys @ rest = zs @ rest" "flow L ((sent L d @ acc) @ zs) (received L d @ del) u'"
    using flow_accept [OF assms(2) run_write.IH run_write.hyps(2)] by blast
  then show ?case by simp
next
  case (run_read acc del u n bs u')
  then show ?case using flow_deliver [OF assms(2) run_read.IH run_read.hyps(2)] by simp
next
  case (run_ioctl acc del u req arg r arg' u')
  then show ?case using flow_ioctl by blast
qed

section \<open>Properties\<close>

text \<open>Every byte that write accepted is sent to the host exactly once and in order: at any
  moment of any run of calls, interrupts and timeouts the bytes sent, followed by those still
  queued, are exactly the bytes accepted; and at most 2047 are still queued.\<close>
theorem transmit_in_order:
  assumes "jtag_ok H L" "uart_run H (uart_init H rc (uart_instance d)) acc del u"
  shows "sent L (regs u) @ tx_q u = sent L d @ acc \<and> length (tx_q u) \<le> 2047"
proof -
  have f: "flow L (sent L d @ acc) (received L d @ del) u" by (rule run_flow [OF assms(2,1)])
  then have "length (tx_q u) \<le> BUF_LEN - 1" by (intro tx.bound) (simp add: flow_def)
  with f show ?thesis by (simp add: flow_def BUF_LEN_def)
qed

text \<open>Every byte received from the host is delivered by read exactly once and in order: the
  bytes taken from the hardware are exactly those delivered, followed by those still queued; none
  is overwritten when the buffer is full.\<close>
theorem receive_in_order:
  assumes "jtag_ok H L" "uart_run H (uart_init H rc (uart_instance d)) acc del u"
  shows "received L (regs u) = received L d @ del @ rx_q u \<and> length (rx_q u) \<le> 2047"
proof -
  have f: "flow L (sent L d @ acc) (received L d @ del) u" by (rule run_flow [OF assms(2,1)])
  then have "length (rx_q u) \<le> BUF_LEN - 1" by (intro rx.bound) (simp add: flow_def)
  with f show ?thesis by (simp add: flow_def BUF_LEN_def)
qed

text \<open>No wake-up is lost: in every run, while bytes wait to be sent the transmit interrupt is
  enabled, and while the receive buffer is empty the receive interrupt is enabled.\<close>
theorem no_lost_wakeup:
  assumes "jtag_ok H L" "uart_run H (uart_init H rc (uart_instance d)) acc del u"
  shows "(tx_q u \<noteq> [] \<longrightarrow> irq_enable u AND CONTROL_WE_MSK \<noteq> 0) \<and>
    (rx_q u = [] \<longrightarrow> irq_enable u AND CONTROL_RE_MSK \<noteq> 0)"
  using run_flow [OF assms(2,1)] by (simp add: flow_def wake_def)

section \<open>A UART for the witnesses\<close>

text \<open>Hardware with a list of bytes still to come from the host, the logs of both directions and the
  last word written to the control register.\<close>

record loop_uart =
  to_come :: "u8 list"
  was_sent :: "u8 list"
  was_read :: "u8 list"
  loop_control :: u32

definition loop_hw :: "loop_uart jtag_hw" where
  "loop_hw = \<lparr>
     rd_data = (\<lambda>d. case to_come d of [] \<Rightarrow> (0, d)
       | b # bs \<Rightarrow> (DATA_RVALID_MSK OR ucast b, d\<lparr>to_come := bs, was_read := was_read d @ [b]\<rparr>)),
     wr_data = (\<lambda>v d. d\<lparr>was_sent := was_sent d @ [ucast v]\<rparr>),
     rd_control = (\<lambda>d. (0, d)), wr_control = (\<lambda>v d. d\<lparr>loop_control := v\<rparr>)\<rparr>"

definition loop_log :: "loop_uart jtag_log" where
  "loop_log = \<lparr>sent = was_sent, received = was_read\<rparr>"

lemma data_word:
  "(DATA_RVALID_MSK OR ucast (b :: u8)) AND DATA_RVALID_MSK \<noteq> 0"
  "ucast ((DATA_RVALID_MSK OR ucast (b :: u8)) AND DATA_DATA_MSK) = b"
proof -
  have "DATA_RVALID_MSK \<noteq> 0" by (simp add: DATA_RVALID_MSK_def)
  then show "(DATA_RVALID_MSK OR ucast b) AND DATA_RVALID_MSK \<noteq> 0" by simp
  have m: "DATA_DATA_MSK = mask 8" by (simp add: DATA_DATA_MSK_def mask_eq_exp_minus_1)
  have "(DATA_RVALID_MSK OR ucast b) AND DATA_DATA_MSK = ucast b AND DATA_DATA_MSK"
    by (simp add: uart_masks bit.conj_disj_distrib2)
  moreover have "ucast (ucast b AND DATA_DATA_MSK) = b"
    unfolding m by (rule bit_word_eqI) (auto simp: bit_simps)
  ultimately show "ucast ((DATA_RVALID_MSK OR ucast b) AND DATA_DATA_MSK) = b" by simp
qed

lemma loop_ok: "jtag_ok loop_hw loop_log"
  using data_word by (auto simp: jtag_ok_def loop_hw_def loop_log_def split: list.splits)

definition loop_start :: loop_uart where
  "loop_start = \<lparr>to_come = [], was_sent = [], was_read = [], loop_control = 0\<rparr>"

lemma loop_run:
  "\<exists>ys u. uart_run loop_hw (uart_init loop_hw 0 (uart_instance loop_start)) ys [] u"
  using run_start by blast

lemma loop_run_write:
  "\<exists>u ys. uart_run loop_hw (uart_init loop_hw 0 (uart_instance loop_start)) ys [] u \<and> ys = [65]"
proof -
  let ?u = "uart_init loop_hw 0 (uart_instance loop_start)"
  obtain rest u' where a: "accept loop_hw [65] ?u = (rest, u')" by fastforce
  have f: "flow loop_log [] [] ?u"
    using init_flow [OF loop_ok, of loop_start 0] by (simp add: loop_log_def loop_start_def)
  have ok: "uart_ok ?u" using f by (simp add: flow_def)
  have "tx_room ?u = 2047" by (simp add: tx_room_def uart_init_def uart_instance_def BUF_LEN_def Let_def)
  then have "rest = []"
    using a by (simp add: accept_def Let_def tx_copy.simps [of "[65]"])
      (simp add: tx_copy.simps)
  then show ?thesis
    using uart_run.run_write [OF uart_run.run_start, of loop_hw "[65]" "[]" ?u u'] a by auto
qed

theorem transmit_in_order_witness:
  "\<exists>u. was_sent (regs u :: loop_uart) @ tx_q u = [65]"
proof -
  obtain u where "uart_run loop_hw (uart_init loop_hw 0 (uart_instance loop_start)) [65] [] u"
    using loop_run_write by blast
  from transmit_in_order [OF loop_ok this] have "was_sent (regs u) @ tx_q u = [65]"
    by (simp add: loop_log_def loop_start_def)
  then show ?thesis by blast
qed

theorem receive_in_order_witness:
  "\<exists>u. was_read (regs u :: loop_uart) = rx_q u \<and> length (rx_q u) \<le> 2047"
proof -
  obtain u ys where "uart_run loop_hw (uart_init loop_hw 0 (uart_instance loop_start)) ys [] u"
    using loop_run by blast
  from receive_in_order [OF loop_ok this] have "was_read (regs u) = rx_q u \<and> length (rx_q u) \<le> 2047"
    by (simp add: loop_log_def loop_start_def)
  then show ?thesis by blast
qed

theorem no_lost_wakeup_witness:
  "\<exists>u. uart_run loop_hw (uart_init loop_hw 0 (uart_instance loop_start)) [65] [] u \<and>
     (tx_q u \<noteq> [] \<longrightarrow> irq_enable u AND CONTROL_WE_MSK \<noteq> 0)"
proof -
  obtain u where u: "uart_run loop_hw (uart_init loop_hw 0 (uart_instance loop_start)) [65] [] u"
    using loop_run_write by blast
  with no_lost_wakeup [OF loop_ok u] show ?thesis by blast
qed

section \<open>The write call\<close>

text \<open>What happens while a call waits keeps the invariant: it is made of interrupts and ticks.\<close>

definition env_ok :: "'d jtag_log \<Rightarrow> ('d uart \<Rightarrow> 'd uart) \<Rightarrow> bool" where
  "env_ok L env \<longleftrightarrow> (\<forall>T D u. flow L T D u \<longrightarrow> flow L T D (env u))"

lemma env_okD: "env_ok L env \<Longrightarrow> flow L T D u \<Longrightarrow> flow L T D (env u)"
  by (simp add: env_ok_def)

lemma flow_spin:
  assumes "env_ok L env" "flow L T D u" "tx_spin env out u = Some u'"
  shows "flow L T D u'"
  using while_option_inv [where P = "flow L T D", OF assms(3) [unfolded tx_spin_def]]
    env_okD [OF assms(1)] assms(2) by blast

definition write_post ::
  "'d jtag_hw \<Rightarrow> 'd jtag_log \<Rightarrow> u8 list \<Rightarrow> bool \<Rightarrow> u8 list \<Rightarrow> 'd uart \<Rightarrow> u8 list \<times> 'd uart \<Rightarrow> bool" where
  "write_post H L D nb xs u r \<longleftrightarrow> (\<forall>T. flow L T D u \<longrightarrow>
     (\<exists>ys. xs = ys @ fst r \<and> flow L (T @ ys) D (snd r)) \<and>
     (fst r \<noteq> [] \<longrightarrow> nb \<or> host_inactive (snd r) \<noteq> 0))"

lemma write_post_stop:
  assumes "jtag_ok H L" "accept H xs u = (rest, v)" "\<And>T. flow L T D v \<Longrightarrow> flow L T D w"
    "rest \<noteq> [] \<longrightarrow> nb \<or> host_inactive w \<noteq> 0"
  shows "write_post H L D nb xs u (rest, w)"
  unfolding write_post_def
  using flow_accept [OF assms(1) _ assms(2)] assms(3,4) by (metis fst_conv snd_conv)

lemma write_post_more:
  assumes "jtag_ok H L" "accept H xs u = (rest, v)" "\<And>T. flow L T D v \<Longrightarrow> flow L T D w"
    "write_post H L D nb rest w r"
  shows "write_post H L D nb xs u r"
  unfolding write_post_def
proof (intro allI impI)
  fix T assume "flow L T D u"
  then obtain zs where z: "xs = zs @ rest" "flow L (T @ zs) D w"
    using flow_accept [OF assms(1) _ assms(2)] assms(3) by metis
  with assms(4) [unfolded write_post_def] obtain ys
    where y: "rest = ys @ fst r" "flow L ((T @ zs) @ ys) D (snd r)"
      "fst r \<noteq> [] \<longrightarrow> nb \<or> host_inactive (snd r) \<noteq> 0" by blast
  have "xs = (zs @ ys) @ fst r" "flow L (T @ (zs @ ys)) D (snd r)" using y z(1) by simp_all
  then show "(\<exists>ys. xs = ys @ fst r \<and> flow L (T @ ys) D (snd r)) \<and>
      (fst r \<noteq> [] \<longrightarrow> nb \<or> host_inactive (snd r) \<noteq> 0)" using y(3) by blast
qed

lemma write_loop_post:
  assumes "write_loop H env nb xs u = Some r"
  shows "jtag_ok H L \<longrightarrow> env_ok L env \<longrightarrow> write_post H L D nb xs u r"
proof (rule write_loop.raw_induct
    [where P = "\<lambda>H env nb xs u r. jtag_ok H L \<longrightarrow> env_ok L env \<longrightarrow> write_post H L D nb xs u r",
     OF _ assms], goal_cases)
  case (1 f H env nb xs u r)
  show ?case
  proof (intro impI)
    assume jo: "jtag_ok H L" and eo: "env_ok L env"
    obtain rest v where a: "accept H xs u = (rest, v)" by fastforce
    then have rv: "rest = fst (tx_copy xs u)" "v = enable_we H (snd (tx_copy xs u))"
      by (simp_all add: accept_def Let_def)
    note body = 1(2) [unfolded Let_def, folded rv]
    show "write_post H L D nb xs u r"
    proof (cases "rest = [] \<or> nb")
      case True
      then have "r = (rest, v)" using body by simp
      then show ?thesis using write_post_stop [OF jo a] True by blast
    next
      case False
      then obtain w where w: "tx_spin env (tx_out v) v = Some w"
        and k: "(if host_inactive w \<noteq> 0 then Some (rest, w) else f H env nb rest w) = Some r"
        using body by (auto simp: bind_eq_Some_conv)
      have fw: "\<And>T. flow L T D v \<Longrightarrow> flow L T D w" using flow_spin [OF eo _ w] by blast
      show ?thesis
      proof (cases "host_inactive w = 0")
        case False
        then have "r = (rest, w)" using k by simp
        then show ?thesis using write_post_stop [OF jo a fw] False by blast
      next
        case True
        then have "f H env nb rest w = Some r" using k by simp
        then have "write_post H L D nb rest w r" using 1(1) jo eo by blast
        then show ?thesis using write_post_more [OF jo a fw] by blast
      qed
    qed
  qed
qed

text \<open>
  While a call waits, the interrupt handler takes bytes from the full buffer; \<open>drains\<close> says that
  what happens between two tests of the waiting loop does so, and leaves the timeout alone.
\<close>

definition drains :: "('d uart \<Rightarrow> 'd uart) \<Rightarrow> bool" where
  "drains env \<longleftrightarrow> (\<forall>u. uart_ok u \<and> tx_q u \<noteq> [] \<longrightarrow> tx_out (env u) \<noteq> tx_out u \<and>
     length (tx_q (env u)) < length (tx_q u)) \<and> (\<forall>u. timeout (env u) = timeout u)"

lemma accept_full:
  assumes "uart_ok u" "accept H xs u = (rest, v)"
  shows "uart_ok v" "rest \<noteq> [] \<Longrightarrow> length (tx_q v) = BUF_LEN - 1" "timeout v = timeout u"
    "length rest \<le> length xs" "xs \<noteq> [] \<Longrightarrow> length (tx_q u) < BUF_LEN - 1 \<Longrightarrow> length rest < length xs"
    "host_inactive v = host_inactive u"
proof -
  obtain w where t: "tx_copy xs u = (rest, w)" and v: "v = enable_we H w"
    using assms(2) by (cases "tx_copy xs u") (simp add: accept_def Let_def)
  note sp = tx_copy_spec [OF assms(1) t]
  then obtain ys where y: "xs = ys @ rest" "tx_q w = tx_q u @ ys" by blast
  have fr: "uart_ok v = uart_ok w" "tx_q v = tx_q w" "timeout v = timeout w"
      "host_inactive v = host_inactive w"
    by (simp_all add: v enable_we_def Let_def uart_ok_def)
  show "uart_ok v" "timeout v = timeout u" "rest \<noteq> [] \<Longrightarrow> length (tx_q v) = BUF_LEN - 1"
    "host_inactive v = host_inactive u"
    unfolding fr using sp by blast+
  show "length rest \<le> length xs" using y(1) by simp
  show "length rest < length xs" if "xs \<noteq> []" "length (tx_q u) < BUF_LEN - 1"
  proof (cases "rest = []")
    case False
    then have "length (tx_q w) = BUF_LEN - 1" using sp by blast
    then show ?thesis using y that(2) by auto
  qed (use that in simp)
qed

lemma spin_drained:
  assumes "drains env" "uart_ok v" "tx_q v \<noteq> []"
  shows "tx_spin env (tx_out v) v = Some (if host_there v then env v else v)"
proof -
  have "tx_out (env v) \<noteq> tx_out v" using assms by (simp add: drains_def)
  then show ?thesis unfolding tx_spin_def
    by (subst while_option_unfold) (simp add: while_option_unfold [of _ _ "env v"])
qed

lemma write_loop_returns:
  assumes "jtag_ok H L" "env_ok L env" "drains env" "flow L T D u" "0 < timeout u"
  shows "\<exists>r. write_loop H env nb xs u = Some r"
  using assms(4,5)
proof (induction "2 * length xs + (if length (tx_q u) < BUF_LEN - 1 then 0 else 1)" arbitrary: xs u T
    rule: less_induct)
  case less
  obtain rest v where a: "accept H xs u = (rest, v)" by fastforce
  then have rv: "fst (tx_copy xs u) = rest" "enable_we H (snd (tx_copy xs u)) = v"
    by (simp_all add: accept_def Let_def)
  have ok: "uart_ok u" using less.prems(1) by (simp add: flow_def)
  note full = accept_full [OF ok a]
  obtain ys where fv: "flow L (T @ ys) D v" using flow_accept [OF assms(1) less.prems(1) a] by blast
  show ?case
  proof (cases "rest = [] \<or> nb")
    case True
    then show ?thesis by (subst write_loop.simps) (simp add: rv)
  next
    case False
    then have q: "length (tx_q v) = BUF_LEN - 1" and xs: "xs \<noteq> []" using full by auto
    then have ne: "tx_q v \<noteq> []" by (auto simp: BUF_LEN_def)
    define w where "w = (if host_there v then env v else v)"
    have sp: "tx_spin env (tx_out v) v = Some w"
      unfolding w_def by (rule spin_drained [OF assms(3) full(1) ne])
    have fw: "flow L (T @ ys) D w" by (rule flow_spin [OF assms(2) fv sp])
    show ?thesis
    proof (cases "host_inactive w = 0")
      case False
      then show ?thesis using sp by (subst write_loop.simps) (simp add: rv Let_def)
    next
      case True
      have tw: "0 < timeout w" using assms(3) less.prems(2) full(3) by (simp add: w_def drains_def)
      then have "host_there v" using True by (auto simp: w_def host_there_def split: if_splits)
      moreover have "length (tx_q (env v)) < length (tx_q v)"
        using assms(3) full(1) ne by (simp add: drains_def)
      ultimately have "length (tx_q w) < BUF_LEN - 1" using q by (simp add: w_def)
      moreover have "length rest < length xs \<or> \<not> length (tx_q u) < BUF_LEN - 1" using full(5) xs by blast
      ultimately have "\<exists>r. write_loop H env nb rest w = Some r"
        using full(4) by (intro less.hyps [OF _ fw tw]) auto
      then show ?thesis using sp True by (subst write_loop.simps) (auto simp: rv Let_def)
    qed
  qed
qed

text \<open>A write returns whenever bytes leave the full buffer while it waits, and then returns
  the number of bytes it accepted: they are the first bytes of its argument and follow what was
  accepted before; it stops short only for a non-blocking caller or when the host is inactive, and
  reports an error exactly when it accepted nothing.\<close>
theorem write_result:
  assumes "jtag_ok H L" "uart_run H (uart_init H rc (uart_instance d)) acc del u"
    and "env_ok L env" "drains env" "0 < timeout u"
  shows "\<exists>r u' ys rest. uart_write H env xs flags u = Some (r, u') \<and> xs = ys @ rest \<and>
    sent L (regs u') @ tx_q u' = sent L d @ acc @ ys \<and>
    r = (if ys \<noteq> [] then int (length ys) else if flags AND O_NONBLOCK \<noteq> 0 then - EWOULDBLOCK else - EIO) \<and>
    (rest \<noteq> [] \<longrightarrow> flags AND O_NONBLOCK \<noteq> 0 \<or> host_inactive u' \<noteq> 0)"
proof -
  let ?nb = "flags AND O_NONBLOCK \<noteq> 0" and ?T = "sent L d @ acc" and ?D = "received L d @ del"
  have f: "flow L ?T ?D u" by (rule run_flow [OF assms(2,1)])
  obtain rest u' where w: "write_loop H env ?nb xs u = Some (rest, u')"
    using write_loop_returns [OF assms(1,3,4) f assms(5)] by fast
  then have "write_post H L ?D ?nb xs u (rest, u')" using write_loop_post assms(1,3) by blast
  then obtain ys where ys: "xs = ys @ rest" "flow L (?T @ ys) ?D u'" "rest \<noteq> [] \<longrightarrow> ?nb \<or> host_inactive u' \<noteq> 0"
    using f unfolding write_post_def by (metis fst_conv snd_conv)
  have "sent L (regs u') @ tx_q u' = sent L d @ acc @ ys" using ys(2) by (simp add: flow_def)
  moreover have "uart_write H env xs flags u = Some (if ys \<noteq> [] then int (length ys)
      else if ?nb then - EWOULDBLOCK else - EIO, u')"
    using w ys(1) by (simp add: uart_write_def)
  ultimately show ?thesis using ys(1,3) by blast
qed

text \<open>The transmit half of the interrupt handler with room for one byte in the hardware.\<close>

definition one_out :: "loop_uart uart \<Rightarrow> loop_uart uart" where
  "one_out u = irq_tx loop_hw 0x10200 u"

lemma one_out_env: "env_ok loop_log one_out"
  unfolding env_ok_def one_out_def using flow_irq_tx [OF loop_ok] by blast

lemma one_out_drains: "drains one_out"
proof -
  have sp: "unat (drop_bit 16 ((0x10200 :: u32) AND CONTROL_WSPACE_MSK)) = Suc 0"
    by (simp add: uart_masks)
  have step: "tx_out (one_out u) = (tx_out u + 1) mod BUF_LEN \<and> tx_in (one_out u) = tx_in u \<and>
      tx_buf (one_out u) = tx_buf u \<and> timeout (one_out u) = timeout u" if "tx_out u \<noteq> tx_in u" for u
    unfolding one_out_def irq_tx_def sp using that by (simp add: IOWR_DATA_def)
  have idle: "timeout (one_out u) = timeout u" if "tx_out u = tx_in u" for u
    unfolding one_out_def irq_tx_def sp using that by (simp add: Let_def)
  have "tx_out (one_out u) \<noteq> tx_out u \<and> length (tx_q (one_out u)) < length (tx_q u)"
    if ok: "uart_ok u" and ne: "tx_q u \<noteq> []" for u
  proof -
    have "tx_out u \<noteq> tx_in u" using ne rb_empty [OF uart_okD(2) [OF ok]] by simp
    moreover note rb_get_one [OF uart_okD(2) [OF ok] this]
    moreover have "tx_out u < BUF_LEN" using uart_okD(2) [OF ok] by (simp add: rb_ok_def)
    ultimately show ?thesis using step by (auto simp: mod_if BUF_LEN_def)
  qed
  then show ?thesis unfolding drains_def using step idle by metis
qed

theorem write_result_witness:
  "\<exists>r u'. uart_write loop_hw one_out [72, 105] 0 (uart_init loop_hw 0 (uart_instance loop_start)) = Some (r, u') \<and>
     (r < 0 \<or> was_sent (regs u') @ tx_q u' = take (nat r) [72, 105])"
proof -
  let ?u = "uart_init loop_hw 0 (uart_instance loop_start)"
  have t: "0 < timeout ?u" by (simp add: uart_init_def uart_instance_def DEFAULT_TIMEOUT_def Let_def)
  obtain r u' ys rest where w: "uart_write loop_hw one_out [72, 105] 0 ?u = Some (r, u')"
    "[72, 105] = ys @ rest" "sent loop_log (regs u') @ tx_q u' = sent loop_log loop_start @ [] @ ys"
    "r = (if ys \<noteq> [] then int (length ys) else if (0 :: u32) AND O_NONBLOCK \<noteq> 0 then - EWOULDBLOCK else - EIO)"
    using write_result [OF loop_ok uart_run.run_start one_out_env one_out_drains t, of "[72, 105]" 0] by blast
  have "r < 0 \<or> ys = take (nat r) [72, 105]" using w(2,4) by (auto simp: EIO_def)
  moreover have "was_sent (regs u') @ tx_q u' = ys" using w(3) by (simp add: loop_log_def loop_start_def)
  ultimately show ?thesis using w(1) by auto
qed

section \<open>The host's presence\<close>

text \<open>The interrupt handler and the copying parts leave the timeout and the count alone.\<close>

definition same_host :: "'d uart \<Rightarrow> 'd uart \<Rightarrow> bool" where
  "same_host u u' \<longleftrightarrow> timeout u' = timeout u \<and> host_inactive u' = host_inactive u"

lemma rx_loop_host: "rx_loop k H (data, u) = (data', u') \<Longrightarrow> same_host u u'"
proof (induction k arbitrary: data u)
  case (Suc k)
  obtain v d where r: "rd_data H (regs u) = (v, d)" by fastforce
  show ?case
  proof (cases "(rx_in u + 1) mod BUF_LEN = rx_out u \<or> v AND DATA_RVALID_MSK = 0")
    case True
    then show ?thesis using Suc.prems r by (auto simp: IORD_DATA_def same_host_def split: if_splits)
  next
    case False
    then have "rx_loop k H (v, rx_store (ucast (v AND DATA_DATA_MSK)) (u\<lparr>regs := d\<rparr>)) = (data', u')"
      using Suc.prems r by (simp add: IORD_DATA_def)
    from Suc.IH [OF this] show ?thesis by (simp add: same_host_def rx_store_def)
  qed
qed (simp add: same_host_def)

lemma tx_loop_host: "tx_loop n H u = (left, u') \<Longrightarrow> same_host u u'"
proof (induction n arbitrary: u)
  case (Suc n)
  show ?case
  proof (cases "tx_out u = tx_in u")
    case False
    let ?v = "IOWR_DATA H (scast (tx_buf u ! tx_out u)) u"
    have "tx_loop n H (?v\<lparr>tx_out := (tx_out ?v + 1) mod BUF_LEN\<rparr>) = (left, u')"
      using Suc.prems False by (simp add: Let_def)
    from Suc.IH [OF this] show ?thesis by (simp add: same_host_def IOWR_DATA_def)
  qed (use Suc.prems in \<open>simp add: same_host_def\<close>)
qed (simp add: same_host_def)

lemma same_host_trans: "same_host u v \<Longrightarrow> same_host v w \<Longrightarrow> same_host u w"
  by (simp add: same_host_def)

lemma irq_round_host: "same_host u (irq_round H control u)"
proof -
  have rx: "same_host u (irq_rx H u)" for u
  proof -
    obtain x v where l: "rx_loop BUF_LEN H (push_bit 16 1, u) = (x, v)" by fastforce
    show ?thesis using rx_loop_host [OF l] by (simp only: irq_rx_def l) (simp add: Let_def same_host_def)
  qed
  have tx: "same_host u (irq_tx H control u)" for u
  proof -
    let ?n = "unat (drop_bit 16 (control AND CONTROL_WSPACE_MSK))"
    obtain x v where l: "tx_loop ?n H u = (x, v)" by fastforce
    show ?thesis using tx_loop_host [OF l] by (simp only: irq_tx_def l) (simp add: Let_def same_host_def)
  qed
  have "same_host u u" by (simp add: same_host_def)
  then show ?thesis using rx tx same_host_trans [OF rx tx] by (simp add: irq_round_def Let_def)
qed

lemma uart_irq_host:
  assumes "uart_irq H u = Some u'"
  shows "same_host u u'"
proof -
  let ?f = "\<lambda>(control, u). IORD_CONTROL H (irq_round H control u)"
  obtain c where w: "while_option (\<lambda>(control, u). control AND (CONTROL_RI_MSK OR CONTROL_WI_MSK) \<noteq> 0)
      ?f (IORD_CONTROL H u) = Some (c, u')"
    using assms by (auto simp: uart_irq_def)
  have step: "same_host u (snd (?f x))" if "same_host u (snd x)" for x
    using that same_host_trans [OF _ irq_round_host] by (auto simp: same_host_def split_beta)
  have start: "same_host u (snd (IORD_CONTROL H u))" by (simp add: same_host_def)
  show ?thesis
    using while_option_inv [where P = "\<lambda>x. same_host u (snd x)", OF w] start step by (metis snd_conv)
qed

text \<open>The count stays below what the timeout can be; without a system clock the timeout never
  changes.\<close>

definition host_inv :: "bool \<Rightarrow> 'd uart \<Rightarrow> bool" where
  "host_inv no_clock u \<longleftrightarrow> host_inactive u \<le> INT_MAX - 2 \<and> 2 \<le> timeout u \<and> timeout u \<le> INT_MAX \<and>
     (no_clock \<longrightarrow> timeout u = INT_MAX)"

lemma host_inv_same: "host_inv b u \<Longrightarrow> same_host u u' \<Longrightarrow> host_inv b u'"
  by (simp add: host_inv_def same_host_def)

lemma host_inv_timeout: "host_inv b u \<Longrightarrow> host_inv b (uart_timeout H u)"
proof -
  assume h: "host_inv b u"
  have "x + 1 \<le> INT_MAX - 2" if "x < INT_MAX - 2" for x :: u32
    using that by (rule inc_le)
  with h show ?thesis by (auto simp: uart_timeout_def host_inv_def Let_def IORD_CONTROL_def
        IOWR_CONTROL_def split: prod.splits if_splits)
qed

lemma ioctl_timeout:
  assumes "2 \<le> sint a" "sint a < sint INT_MAX"
  shows "2 \<le> a" "a \<le> INT_MAX"
proof -
  have "uint a = uint (word_of_int (sint a) :: u32)" by simp
  also have "\<dots> = sint a mod 2 ^ 32" by (simp only: uint_word_of_int_eq take_bit_eq_mod) simp
  also have "\<dots> = sint a" using assms by (intro mod_pos_pos_trivial) simp_all
  finally have "uint a = sint a" .
  moreover have "sint INT_MAX = 2147483647" "uint INT_MAX = 2147483647" by simp_all
  ultimately show "2 \<le> a" "a \<le> INT_MAX" using assms by (simp_all add: word_le_def)
qed

lemma host_inv_ioctl: "host_inv b u \<Longrightarrow> uart_ioctl req arg u = (r, a, u') \<Longrightarrow> host_inv b u'"
  using ioctl_timeout [of arg]
  by (auto simp: uart_ioctl_def host_inv_def split: if_splits)

lemma accept_host: "uart_ok u \<Longrightarrow> accept H xs u = (rest, v) \<Longrightarrow> same_host u v"
  by (simp add: same_host_def accept_full(3) accept_full(6))

lemma deliver_host:
  assumes "uart_ok u" "deliver H n u = (bs, v)"
  shows "same_host u v"
proof -
  obtain w where t: "rx_copy n u = (bs, w)"
    using assms(2) by (cases "rx_copy n u") (simp add: deliver_def Let_def)
  have "same_host u w" using rx_copy_spec [OF assms(1) t] by (simp add: same_host_def)
  then show ?thesis using assms(2) t by (auto simp: deliver_def Let_def same_host_def split: if_splits)
qed

text \<open>C39. The count of the host's inactivity never wraps, and stays below any timeout that means
  "never": with no system clock (the registration of the alarm fails) no run of the driver ever
  takes the host to be absent, and the ioctl requests are refused; with one, the timeout stays
  between 2 and 2147483647 ticks whatever the ioctl sets.\<close>
theorem host_presence:
  assumes "jtag_ok H L" "uart_run H (uart_init H rc (uart_instance d)) acc del u"
  shows "host_inactive u \<le> INT_MAX - 2 \<and> 2 \<le> timeout u \<and> timeout u \<le> INT_MAX \<and>
    (rc < 0 \<longrightarrow> host_there u \<and> uart_ioctl req arg u = (- ENOTTY, arg, u))"
proof -
  have "host_inv (rc < 0) u" using assms(2)
  proof induction
    case run_start
    then show ?case by (simp add: host_inv_def uart_init_def uart_instance_def Let_def DEFAULT_TIMEOUT_def)
  next
    case (run_irq acc del u u')
    then show ?case using host_inv_same uart_irq_host by blast
  next
    case (run_timeout acc del u)
    then show ?case by (simp add: host_inv_timeout)
  next
    case (run_write acc del u ys rest u')
    have "uart_ok u" using run_flow [OF run_write.hyps(1) assms(1)] by (simp add: flow_def)
    then show ?case using host_inv_same accept_host run_write by blast
  next
    case (run_read acc del u n bs u')
    have "uart_ok u" using run_flow [OF run_read.hyps(1) assms(1)] by (simp add: flow_def)
    then show ?case using host_inv_same deliver_host run_read by blast
  next
    case (run_ioctl acc del u req arg r arg' u')
    then show ?case by (simp add: host_inv_ioctl)
  qed
  then have h: "host_inactive u \<le> INT_MAX - 2" "2 \<le> timeout u" "timeout u \<le> INT_MAX"
    "rc < 0 \<longrightarrow> timeout u = INT_MAX" by (simp_all add: host_inv_def)
  moreover have "host_inactive u < INT_MAX" by (rule order.strict_trans1 [OF h(1)]) simp
  ultimately show ?thesis by (auto simp: host_there_def uart_ioctl_def)
qed

theorem host_presence_witness:
  "host_there (uart_init loop_hw (- 1) (uart_instance loop_start))"
  using host_presence [OF loop_ok uart_run.run_start, of "- 1" loop_start] by simp

end
