(* ===== verification/Hal_Log_Props.thy ===== *)
theory Hal_Log_Props
  imports Hal_Log Jtag_Props
begin

text \<open>
  What the logging facility promises: every character reaches the port in order, the echo of a
  write shows its first characters and stays inside its buffer, and the heartbeat comes once in
  so many ticks.
\<close>

section \<open>Sending\<close>

text \<open>The hardware makes room: polling its control register ends.\<close>

definition makes_room :: "'d jtag_hw \<Rightarrow> bool" where
  "makes_room H \<longleftrightarrow> (\<forall>d. \<exists>k. fst (((\<lambda>(v, d). rd_control H d) ^^ k) (rd_control H d)) AND CONTROL_WSPACE_MSK \<noteq> 0)"

lemma txchar_sends:
  assumes "jtag_ok H L" "makes_room H"
  shows "\<exists>d'. alt_log_txchar H c d = Some d' \<and> sent L d' = sent L d @ [char_byte c] \<and>
    received L d' = received L d"
proof -
  let ?g = "\<lambda>(v, d). v AND CONTROL_WSPACE_MSK = 0" and ?f = "\<lambda>(v :: u32, d). rd_control H d"
  obtain k where "\<not> ?g ((?f ^^ k) (rd_control H d))"
    using assms(2) unfolding makes_room_def split_beta by blast
  then obtain v e where w: "while_option ?g ?f (rd_control H d) = Some (v, e)"
    using while_option_returns [of ?g k ?f "rd_control H d"] by auto
  have same: "sent L (snd (rd_control H x)) = sent L x \<and> received L (snd (rd_control H x)) = received L x" for x
  proof -
    obtain v y where "rd_control H x = (v, y)" by fastforce
    then show ?thesis using assms(1) unfolding jtag_ok_def by auto
  qed
  have "sent L (snd (v, e)) = sent L d \<and> received L (snd (v, e)) = received L d"
    by (rule while_option_inv [where P = "\<lambda>x. sent L (snd x) = sent L d \<and> received L (snd x) = received L d", OF w])
      (use same in \<open>auto simp: split_beta\<close>)
  moreover have "(ucast (scast (char_byte c) :: u32) :: u8) = char_byte c"
    by (rule bit_word_eqI) (simp add: bit_simps)
  ultimately show ?thesis using w assms(1) by (simp add: alt_log_txchar_def jtag_ok_def)
qed

lemma log_send_sends:
  assumes "jtag_ok H L" "makes_room H"
  shows "\<exists>d'. log_send H cs d = Some d' \<and> sent L d' = sent L d @ map char_byte cs \<and> received L d' = received L d"
proof (induction cs arbitrary: d)
  case (Cons c cs)
  obtain e where e: "alt_log_txchar H c d = Some e" "sent L e = sent L d @ [char_byte c]" "received L e = received L d"
    using txchar_sends [OF assms] by blast
  from Cons.IH [of e] e show ?case by auto
qed simp

lemma printf_proc_sends:
  assumes "jtag_ok H L" "makes_room H" "\<forall>i \<in> set its. item_ok i" "fmt = concat (map item_source its)"
    and "items_text its args = Some out"
  shows "\<exists>d'. alt_log_printf_proc H fmt args s = Some (s\<lparr>log_regs := d'\<rparr>) \<and>
    sent L d' = sent L (log_regs s) @ map char_byte out"
  using log_send_sends [OF assms(1,2), of out "log_regs s"] log_printf_meaning [OF assms(3), of args] assms(4,5)
  by (auto simp: alt_log_printf_proc_def)

section \<open>The echo\<close>

lemma strncpy_length: "n \<le> length dst \<Longrightarrow> length (strncpy dst src n) = length dst"
proof -
  have "length (c_string (take n src)) \<le> n"
    unfolding c_string_def by (metis length_take length_takeWhile_le min.bounded_iff)
  then show "n \<le> length dst \<Longrightarrow> ?thesis" by (simp add: strncpy_def Let_def)
qed

lemma c_string_take: "CHR 0x00 \<notin> set s \<Longrightarrow> c_string s = s"
  unfolding c_string_def by auto

definition escaped :: "char \<Rightarrow> char" where
  "escaped c = (if c = CHR 0x04 then CHR ''D'' else c)"

lemma escaped_nonzero: "CHR 0x00 \<notin> set s \<Longrightarrow> CHR 0x00 \<notin> set (map escaped s)"
  by (auto simp: escaped_def split: if_splits)

lemma c_string_end: "CHR 0x00 \<notin> set s \<Longrightarrow> c_string (s @ CHR 0x00 # t) = s"
  unfolding c_string_def by (subst takeWhile_append2) auto

text \<open>The buffer after the copy: the first characters but the last of them, a line end, and the
  terminator that ends the string.\<close>

lemma echo_buffer:
  assumes "2 \<le> n" "n \<le> length p" "n + 2 \<le> length buf" "CHR 0x00 \<notin> set p"
  shows "(strncpy buf p n)[n - 1 := CHR 0x0A, n := CHR 0x0D, n + 1 := CHR 0x00] =
    take (n - 1) p @ [CHR 0x0A, CHR 0x0D, CHR 0x00] @ drop (n + 2) buf"
proof -
  have c: "c_string (take n p) = take n p" using assms(4) by (intro c_string_take) (auto dest: in_set_takeD)
  then have e: "strncpy buf p n = take n p @ drop n buf" using assms(2) by (simp add: strncpy_def Let_def min_def)
  obtain a b t where d: "drop n buf = a # b # t" using assms(3)
    by (metis drop_eq_Nil not_less_eq_eq add_2_eq_Suc' neq_Nil_conv
        Cons_nth_drop_Suc le_simps(3) add_leD1 le_Suc_ex add_Suc_right)
  have t: "t = drop (n + 2) buf"
    using d by (metis add.commute drop_drop drop_Suc_Cons drop0 numeral_2_eq_2)
  have s: "take n p = take (n - 1) p @ [p ! (n - 1)]"
    using assms(1,2) using take_Suc_conv_app_nth [of "n - 1" p] by simp
  have l: "length (take (n - 1) p) = n - 1" using assms(2) by simp
  have n: "n = Suc (n - 1)" using assms(1) by simp
  show ?thesis unfolding e s d t [symmetric] using l n
    by (simp add: list_update_append)
qed

lemma echo_buffer_escaped:
  assumes "2 \<le> n" "n \<le> length p" "n + 2 \<le> length buf" "CHR 0x00 \<notin> set p"
  defines "b \<equiv> (strncpy buf p n)[n - 1 := CHR 0x0A, n := CHR 0x0D, n + 1 := CHR 0x00]"
  shows "c_string (map escaped (take n b) @ drop n b) = map escaped (take (n - 1) p) @ [CHR 0x0A, CHR 0x0D]"
proof -
  let ?q = "take (n - 1) p"
  have b: "b = (?q @ [CHR 0x0A]) @ [CHR 0x0D, CHR 0x00] @ drop (n + 2) buf"
    unfolding b_def echo_buffer [OF assms(1-4)] by simp
  have l: "length (?q @ [CHR 0x0A]) = n" using assms(1,2) by simp
  have t: "take n b = ?q @ [CHR 0x0A]" "drop n b = [CHR 0x0D, CHR 0x00] @ drop (n + 2) buf"
    unfolding b using l by (metis append_eq_conv_conj)+
  have "CHR 0x00 \<notin> set (map escaped ?q @ [CHR 0x0A, CHR 0x0D])"
    using escaped_nonzero [of ?q] assms(4) by (auto dest: in_set_takeD)
  from c_string_end [OF this, of "drop (n + 2) buf"] show ?thesis
    unfolding t by (simp add: escaped_def)
qed

section \<open>Properties\<close>

text \<open>With the write log on, writing a text without NUL characters sends to the log port, in
  order, "Write Echo: ", all but the last of its first 15 characters with Ctrl-D shown as D, and a
  line end; the echo buffer keeps its 17 characters. Nothing is sent for fewer than two.\<close>
theorem log_write_echo:
  assumes "jtag_ok H L" "makes_room H" "CHR 0x00 \<notin> set p" "alt_log_write_on_flag s \<noteq> 0"
    and "length (alt_log_write_buf s) = 17"
  shows "\<exists>s'. alt_log_write H p s = Some s' \<and> length (alt_log_write_buf s') = 17 \<and>
    sent L (log_regs s') = sent L (log_regs s) @ map char_byte
      (if length p < 2 then [] else ''Write Echo: '' @ map escaped (take (min (length p) 15 - 1) p) @ [CHR 0x0A, CHR 0x0D])"
proof (cases "length p < 2")
  case True
  then show ?thesis using assms(4,5) by (simp add: alt_log_write_def ALT_LOG_WRITE_ECHO_LEN_def)
next
  case False
  define n where "n = min (length p) 15"
  define b where "b = (strncpy (alt_log_write_buf s) p n)[n - 1 := CHR 0x0A, n := CHR 0x0D, n + 1 := CHR 0x00]"
  define b' where "b' = map escaped (take n b) @ drop n b"
  have n: "2 \<le> n" "n \<le> length p" "n + 2 \<le> length (alt_log_write_buf s)" using False assms(5) by (auto simp: n_def)
  have echo: "c_string b' = map escaped (take (n - 1) p) @ [CHR 0x0A, CHR 0x0D]"
    unfolding b'_def b_def by (rule echo_buffer_escaped [OF n assms(3)])
  have l: "length b' = 17"
    using strncpy_length [of n "alt_log_write_buf s" p] n(3) assms(5) by (simp add: b'_def b_def)
  have nw: "\<not> n < 2" "(if ALT_LOG_WRITE_ECHO_LEN > length p then length p else ALT_LOG_WRITE_ECHO_LEN) = n"
    using n(1) by (auto simp: ALT_LOG_WRITE_ECHO_LEN_def n_def)
  have w: "alt_log_write H p s = alt_log_printf_proc H ''Write Echo: %s'' [VStr (c_string b')] (s\<lparr>alt_log_write_buf := b'\<rparr>)"
    unfolding alt_log_write_def nw(2) using assms(4) nw(1)
    by (simp only: Let_def b'_def b_def escaped_def [abs_def] if_True if_False simp_thms)
  obtain d' where "alt_log_printf_proc H ''Write Echo: %s'' [VStr (c_string b')] (s\<lparr>alt_log_write_buf := b'\<rparr>) =
      Some (s\<lparr>alt_log_write_buf := b', log_regs := d'\<rparr>)"
    "sent L d' = sent L (log_regs s) @ map char_byte (''Write Echo: '' @ c_string b')"
    using printf_proc_sends [OF assms(1,2), of "map Text ''Write Echo: '' @ [Conv False [] False String]"
        "''Write Echo: %s''" "[VStr (c_string b')]" "''Write Echo: '' @ c_string b'" "s\<lparr>alt_log_write_buf := b'\<rparr>"]
    by (auto simp: items_text_Text)
  then show ?thesis using False w l echo by (simp add: n_def)
qed

text \<open>A UART that always has room and logs its two directions.\<close>

definition room_hw :: "loop_uart jtag_hw" where
  "room_hw = loop_hw\<lparr>rd_control := (\<lambda>d. (0x10000, d))\<rparr>"

lemma room_ok: "jtag_ok room_hw loop_log" "makes_room room_hw"
proof -
  show "jtag_ok room_hw loop_log" using loop_ok by (auto simp: jtag_ok_def room_hw_def loop_hw_def)
  show "makes_room room_hw"
    unfolding makes_room_def by (intro allI exI [of _ 0]) (simp add: room_hw_def CONTROL_WSPACE_MSK_def)
qed

theorem log_write_echo_witness:
  "\<exists>s'. alt_log_write room_hw ''hello'' (alog_init True 3 loop_start) = Some s' \<and>
     was_sent (log_regs s') = map char_byte (''Write Echo: '' @ ''hell'' @ [CHR 0x0A, CHR 0x0D])"
proof -
  let ?s = "alog_init True 3 loop_start"
  have "alt_log_write_on_flag ?s \<noteq> 0" "length (alt_log_write_buf ?s) = 17"
    by (simp_all add: alog_init_def ALT_LOG_WRITE_ON_FLAG_SETTING_def ALT_LOG_WRITE_ECHO_LEN_def)
  from log_write_echo [OF room_ok _ this, of "''hello''"] show ?thesis
    by (auto simp: loop_log_def escaped_def alog_init_def loop_start_def)
qed

section \<open>The heartbeat\<close>

text \<open>Ticks of the system clock.\<close>

fun clock_ticks :: "'d jtag_hw \<Rightarrow> u32 \<Rightarrow> nat \<Rightarrow> 'd alog \<Rightarrow> 'd alog option" where
  "clock_ticks H r 0 s = Some s"
| "clock_ticks H r (Suc n) s = Option.bind (clock_ticks H r n s) (alt_log_system_clock H r)"

lemma clock_ticks_silent:
  assumes "alt_log_sys_clk_on_flag s \<noteq> 0" "alt_log_sys_clk_count s = 0" "n \<le> unat r"
  shows "clock_ticks H r n s = Some (s\<lparr>alt_log_sys_clk_count := of_nat n\<rparr>)"
  using assms(3)
proof (induction n)
  case 0
  then show ?case using assms(2) by simp
next
  case (Suc n)
  have "unat r < 2 ^ LENGTH(32)" by (rule unsigned_less)
  then have "unat (of_nat (Suc n) :: u32) = Suc n" using Suc.prems by (simp add: unsigned_of_nat take_bit_nat_eq_self del: of_nat_Suc)
  then have "\<not> r < (of_nat (Suc n) :: u32)" using Suc.prems by (simp add: word_less_nat_alt not_less)
  moreover have "(of_nat n :: u32) + 1 = of_nat (Suc n)" by simp
  ultimately show ?case using Suc assms(1)
    by (simp add: alt_log_system_clock_def ALT_LOG_SYS_CLK_INTERVAL_def Let_def del: of_nat_Suc)
qed

text \<open>The heartbeat is printed, with the number of the heartbeats before it as its time, at
  the tick after \<open>alt_ticks_per_second\<close> ticks without output, and not before: its period is one
  tick longer than the interval the settings name, and its "seconds" are that much long.\<close>
theorem heartbeat_period:
  assumes "jtag_ok H L" "makes_room H" "alt_log_sys_clk_on_flag s \<noteq> 0" "alt_log_sys_clk_count s = 0"
    and "unat r < 2 ^ 32 - 1"
  shows "(\<forall>n \<le> unat r. \<exists>s'. clock_ticks H r n s = Some s' \<and> log_regs s' = log_regs s) \<and>
    (\<exists>s'. clock_ticks H r (unat r + 1) s = Some s' \<and> alt_log_sys_clk_count s' = 0 \<and>
       alt_system_clock_in_sec s' = alt_system_clock_in_sec s + 1 \<and>
       sent L (log_regs s') = sent L (log_regs s) @ map char_byte (''System Clock On '' @
         map (digit_char False) (digits 10 (unat (alt_system_clock_in_sec s))) @ crlf))"
proof -
  let ?n = "alt_system_clock_in_sec s"
  let ?s = "s\<lparr>alt_log_sys_clk_count := 0, alt_system_clock_in_sec := ?n + 1\<rparr>"
  let ?out = "''System Clock On '' @ map (digit_char False) (digits 10 (unat ?n)) @ crlf"
  have silent: "clock_ticks H r k s = Some (s\<lparr>alt_log_sys_clk_count := of_nat k\<rparr>)" if "k \<le> unat r" for k
    by (rule clock_ticks_silent [OF assms(3,4) that])
  have "unat (r + 1) = unat r + 1" using assms(5) by (simp add: unat_add_lem [THEN iffD1])
  then have "r < r + 1" by (simp add: word_less_nat_alt)
  then have last: "clock_ticks H r (unat r + 1) s =
      alt_log_printf_proc H (''System Clock On %u'' @ crlf) [VInt ?n] ?s"
    using silent [OF order_refl] assms(3) by (simp add: alt_log_system_clock_def ALT_LOG_SYS_CLK_INTERVAL_def Let_def)
  have "items_text (map Text ''System Clock On '' @ [Conv False [] False Unsigned] @ map Text crlf) [VInt ?n] = Some ?out"
    unfolding items_text_Text by (simp add: number_def filled_def)
  from printf_proc_sends [OF assms(1,2) _ _ this, of "''System Clock On %u'' @ crlf" ?s] obtain d'
    where "alt_log_printf_proc H (''System Clock On %u'' @ crlf) [VInt ?n] ?s = Some (?s\<lparr>log_regs := d'\<rparr>)"
      "sent L d' = sent L (log_regs s) @ map char_byte ?out" by auto
  then show ?thesis unfolding last using silent by auto
qed

theorem heartbeat_period_witness:
  "\<exists>s'. clock_ticks room_hw 1000 1001 (alog_init True 1 loop_start) = Some s' \<and> alt_log_sys_clk_count s' = 0"
proof -
  let ?s = "alog_init True 1 loop_start"
  have "alt_log_sys_clk_on_flag ?s \<noteq> 0" "alt_log_sys_clk_count ?s = 0"
    by (simp_all add: alog_init_def ALT_LOG_SYS_CLK_ON_FLAG_SETTING_def)
  from heartbeat_period [OF room_ok this, of 1000] show ?thesis by auto
qed

end
