(* ===== verification/Hal_Cache.thy ===== *)
theory Hal_Cache
  imports Prelude
begin

text \<open>
  The cache operations (alt_dcache_flush.c, alt_dcache_flush_all.c, alt_dcache_flush_no_writeback.c,
  alt_icache_flush.c, alt_icache_flush_all.c, alt_remap_cached.c, alt_remap_uncached.c,
  alt_uncached_malloc.c, alt_uncached_free.c) and the copying of sections at boot (alt_load.c).
  The sizes that system.h gives are arguments; the processor of this system has no caches, so
  they are 0 there. A flush is the list of the addresses given to the flush instruction; its loop
  is a \<open>while_option\<close>, for with a line size of 0 it does not advance.
\<close>

section \<open>Flushing\<close>

definition flush_loop :: "u32 \<Rightarrow> u32 \<Rightarrow> u32 \<Rightarrow> (u32 \<times> u32 list) option" where
  "flush_loop line e start =
     while_option (\<lambda>(i, out). i < e) (\<lambda>(i, out). (i + line, out @ [i])) (start, [])"

text \<open>After the loop, an area that does not start on a line needs one line more.\<close>

definition flush_area :: "u32 \<Rightarrow> u32 \<Rightarrow> u32 \<Rightarrow> u32 list option" where
  "flush_area line start e =
     map_option (\<lambda>(i, out). if start AND (line - 1) \<noteq> 0 then out @ [i] else out) (flush_loop line e start)"

definition alt_dcache_flush :: "u32 \<Rightarrow> u32 \<Rightarrow> u32 \<Rightarrow> u32 \<Rightarrow> u32 list option" where
  "alt_dcache_flush size_d line start len = (if size_d > 0 then flush_area line start (start + len) else Some [])"

definition alt_dcache_flush_all :: "u32 \<Rightarrow> u32 \<Rightarrow> u32 list option" where
  "alt_dcache_flush_all size_d line =
     (if size_d > 0 then map_option snd (flush_loop line size_d 0) else Some [])"

definition alt_dcache_flush_no_writeback :: "u32 \<Rightarrow> u32 \<Rightarrow> u32 \<Rightarrow> u32 list option" where
  "alt_dcache_flush_no_writeback line start len = flush_area line start (start + len)"

definition alt_icache_flush :: "u32 \<Rightarrow> u32 \<Rightarrow> u32 \<Rightarrow> u32 \<Rightarrow> u32 list option" where
  "alt_icache_flush size_i line start len =
     (if size_i > 0 then
        let len = (if len > size_i then size_i else len) in flush_area line start (start + len)
      else Some [])"

definition alt_icache_flush_all :: "u32 \<Rightarrow> u32 \<Rightarrow> u32 list option" where
  "alt_icache_flush_all size_i line = (if size_i > 0 then alt_icache_flush size_i line 0 size_i else Some [])"

section \<open>Uncached memory, for a processor without data cache\<close>

definition alt_remap_cached :: "u32 \<Rightarrow> u32 \<Rightarrow> u32" where
  "alt_remap_cached p len = p"

definition alt_remap_uncached :: "u32 \<Rightarrow> u32 \<Rightarrow> u32" where
  "alt_remap_uncached p len = 0"

text \<open>\<open>malloc\<close> and \<open>free\<close> of the C library are the argument.\<close>

definition alt_uncached_malloc :: "(u32 \<Rightarrow> 'm \<Rightarrow> u32 \<times> 'm) \<Rightarrow> u32 \<Rightarrow> 'm \<Rightarrow> u32 \<times> 'm" where
  "alt_uncached_malloc malloc n m = malloc n m"

definition alt_uncached_free :: "(u32 \<Rightarrow> 'm \<Rightarrow> 'm) \<Rightarrow> u32 \<Rightarrow> 'm \<Rightarrow> 'm" where
  "alt_uncached_free free p m = free p m"

section \<open>Loading sections\<close>

text \<open>Memory by words, at their byte addresses; the copy ends when the target meets the end.\<close>

definition alt_load_section :: "u32 \<Rightarrow> u32 \<Rightarrow> u32 \<Rightarrow> (u32 \<Rightarrow> u32) \<Rightarrow> (u32 \<Rightarrow> u32) option" where
  "alt_load_section from to e mem =
     (if to \<noteq> from then
        map_option (\<lambda>(to, from, mem). mem)
          (while_option (\<lambda>(to, from, mem). to \<noteq> e)
             (\<lambda>(to, from, mem). (to + 4, from + 4, mem(to := mem from))) (to, from, mem))
      else Some mem)"

text \<open>The three sections of alt_load, each with its source, target and end; then the caches.\<close>

definition alt_load :: "(u32 \<times> u32 \<times> u32) \<Rightarrow> (u32 \<times> u32 \<times> u32) \<Rightarrow> (u32 \<times> u32 \<times> u32) \<Rightarrow>
    u32 \<Rightarrow> u32 \<Rightarrow> u32 \<Rightarrow> u32 \<Rightarrow> (u32 \<Rightarrow> u32) \<Rightarrow> ((u32 \<Rightarrow> u32) \<times> u32 list \<times> u32 list) option" where
  "alt_load rwdata exceptions rodata dsize dline isize iline mem =
     Option.bind (case rwdata of (f, t, e) \<Rightarrow> alt_load_section f t e mem) (\<lambda>mem.
     Option.bind (case exceptions of (f, t, e) \<Rightarrow> alt_load_section f t e mem) (\<lambda>mem.
     Option.bind (case rodata of (f, t, e) \<Rightarrow> alt_load_section f t e mem) (\<lambda>mem.
     Option.bind (alt_dcache_flush_all dsize dline) (\<lambda>d.
     map_option (\<lambda>i. (mem, d, i)) (alt_icache_flush_all isize iline)))))"

section \<open>Coverage of a flush\<close>











text \<open>In this system's configuration, where the line size is 0, flushing a non-empty area
  without write-back never returns; the other flushes do nothing.\<close>
theorem no_writeback_never_returns:
  assumes "start < start + len"
  shows "alt_dcache_flush_no_writeback 0 start len = None \<and> alt_dcache_flush 0 0 start len = Some [] \<and>
    alt_dcache_flush_all 0 0 = Some [] \<and> alt_icache_flush_all 0 0 = Some []"
proof -
  have "while_option (\<lambda>(i, out). i < start + len) (\<lambda>(i, out). (i + 0, out @ [i])) (start, []) = None"
  proof (rule ccontr)
    assume "\<not> ?thesis"
    then obtain i out where w: "while_option (\<lambda>(i, out). i < start + len) (\<lambda>(i, out). (i + 0, out @ [i])) (start, []) = Some (i, out)"
      by auto
    have "fst (i, out) = start"
      by (rule while_option_inv [where P = "\<lambda>x. fst x = start", OF w]) auto
    then show False using while_option_stop [OF w] assms by simp
  qed
  then show ?thesis
    by (simp add: alt_dcache_flush_no_writeback_def flush_area_def flush_loop_def alt_dcache_flush_def
        alt_dcache_flush_all_def alt_icache_flush_all_def)
qed

theorem no_writeback_never_returns_witness: "alt_dcache_flush_no_writeback 0 0x1000 4 = None"
  using no_writeback_never_returns [of "0x1000" 4] by simp

section \<open>Loading copies\<close>

lemma load_loop:
  fixes to "from" e :: u32
  assumes "unat to + 4 * n < 2 ^ 32" "unat from + 4 * n < 2 ^ 32" "unat e = unat to + 4 * n"
    and "unat from + 4 * n \<le> unat to \<or> unat to + 4 * n \<le> unat from"
  shows "\<exists>to' from' mem'. while_option (\<lambda>(to, from, mem). to \<noteq> e)
      (\<lambda>(to, from, mem). (to + 4, from + 4, mem(to := mem from))) (to, from, mem) = Some (to', from', mem') \<and>
    (\<forall>j < n. mem' (to + of_nat (4 * j)) = mem (from + of_nat (4 * j))) \<and>
    (\<forall>a. (\<forall>j < n. a \<noteq> to + of_nat (4 * j)) \<longrightarrow> mem' a = mem a)"
  using assms
proof (induction n arbitrary: to "from" mem)
  case 0
  then have "to = e" by (metis add_0_right mult_0_right unsigned_word_eqI)
  then show ?case by (simp add: while_option_unfold)
next
  case (Suc n)
  have ne: "to \<noteq> e" using Suc.prems(3) by auto
  let ?m = "mem(to := mem from)"
  have u: "unat (to + 4) = unat to + 4" "unat (from + 4) = unat from + 4"
    using unat_add_small [of to 4] unat_add_small [of "from" 4] Suc.prems(1,2) by simp_all
  have p: "unat (to + 4) + 4 * n < 2 ^ 32" "unat (from + 4) + 4 * n < 2 ^ 32" "unat e = unat (to + 4) + 4 * n"
    "unat (from + 4) + 4 * n \<le> unat (to + 4) \<or> unat (to + 4) + 4 * n \<le> unat (from + 4)"
    using Suc.prems u by auto
  obtain to' from' mem' where w: "while_option (\<lambda>(to, from, mem). to \<noteq> e)
      (\<lambda>(to, from, mem). (to + 4, from + 4, mem(to := mem from))) (to + 4, from + 4, ?m) = Some (to', from', mem')"
    "\<forall>j < n. mem' (to + 4 + of_nat (4 * j)) = ?m (from + 4 + of_nat (4 * j))"
    "\<forall>a. (\<forall>j < n. a \<noteq> to + 4 + of_nat (4 * j)) \<longrightarrow> mem' a = ?m a"
    using Suc.IH [OF p, of ?m] by blast
  have shift: "(x :: u32) + 4 + of_nat (4 * j) = x + of_nat (4 * Suc j)" for x j by simp
  have far: "from + of_nat (4 * j) \<noteq> to" "to + of_nat (4 * Suc j) \<noteq> to" if "j \<le> n" for j
  proof -
    have small: "unat (of_nat m :: u32) = m" if "m < 2 ^ 32" for m
      using that by (simp add: unsigned_of_nat take_bit_nat_eq_self)
    have off: "unat (of_nat (4 * j) :: u32) = 4 * j" "unat (of_nat (4 * Suc j) :: u32) = 4 * Suc j"
      using small [of "4 * j"] small [of "4 * Suc j"] that Suc.prems(1) by simp_all
    show "from + of_nat (4 * j) \<noteq> to"
    proof
      assume a: "from + of_nat (4 * j) = to"
      have "unat from + unat (of_nat (4 * j) :: u32) < 2 ^ LENGTH(32)" using off that Suc.prems(2) by simp
      then have "unat to = unat from + 4 * j" using a off(1) by (metis unat_add_lem)
      then show False using Suc.prems(4) that by auto
    qed
    show "to + of_nat (4 * Suc j) \<noteq> to"
      using off(2) by (metis add_cancel_right_right unsigned_0 mult_eq_0_iff nat.distinct(1) zero_neq_numeral)
  qed
  have first: "while_option (\<lambda>(to, from, mem). to \<noteq> e)
      (\<lambda>(to, from, mem). (to + 4, from + 4, mem(to := mem from))) (to, from, mem) = Some (to', from', mem')"
    using ne w(1) by (subst while_option_unfold) simp
  have copied: "mem' (to + of_nat (4 * j)) = mem (from + of_nat (4 * j))" if "j < Suc n" for j
  proof (cases j)
    case 0
    have "\<forall>j < n. to \<noteq> to + 4 + of_nat (4 * j)"
      unfolding shift using far(2) by (metis less_imp_le_nat)
    then have "mem' to = ?m to" using w(3) by blast
    then show ?thesis using 0 by simp
  next
    case (Suc k)
    then have "mem' (to + of_nat (4 * j)) = ?m (from + of_nat (4 * j))"
      using w(2) that unfolding shift by simp
    then show ?thesis using far(1) [of j] that by simp
  qed
  have "mem' a = mem a" if "\<forall>j < Suc n. a \<noteq> to + of_nat (4 * j)" for a
  proof -
    have "\<forall>j < n. a \<noteq> to + 4 + of_nat (4 * j)" using that unfolding shift by blast
    then have "mem' a = ?m a" using w(3) by blast
    moreover have "a \<noteq> to" using that [rule_format, of 0] by simp
    ultimately show ?thesis by simp
  qed
  then show ?case using first copied by blast
qed

text \<open>Loading a section terminates and copies it: with a source and a target of n words that do not
  overlap, every word of the target gets its source's value and no other word changes; a section
  that is already in its place is left alone.\<close>
theorem load_section_copies:
  fixes to "from" e :: u32
  assumes "unat to + 4 * n < 2 ^ 32" "unat from + 4 * n < 2 ^ 32" "unat e = unat to + 4 * n"
    and "unat from + 4 * n \<le> unat to \<or> unat to + 4 * n \<le> unat from"
  shows "\<exists>mem'. alt_load_section from to e mem = Some mem' \<and>
    (\<forall>j < n. mem' (to + of_nat (4 * j)) = mem (from + of_nat (4 * j))) \<and>
    (\<forall>a. (\<forall>j < n. a \<noteq> to + of_nat (4 * j)) \<longrightarrow> mem' a = mem a)"
proof (cases "to = from")
  case True
  then have "n = 0" using assms(4) by auto
  then show ?thesis using True by (simp add: alt_load_section_def)
next
  case False
  obtain to' from' mem' where w: "while_option (\<lambda>(to, from, mem). to \<noteq> e)
      (\<lambda>(to, from, mem). (to + 4, from + 4, mem(to := mem from))) (to, from, mem) = Some (to', from', mem')"
    "\<forall>j < n. mem' (to + of_nat (4 * j)) = mem (from + of_nat (4 * j))"
    "\<forall>a. (\<forall>j < n. a \<noteq> to + of_nat (4 * j)) \<longrightarrow> mem' a = mem a"
    using load_loop [OF assms, of mem] by blast
  then show ?thesis using False by (simp add: alt_load_section_def)
qed

theorem load_section_copies_witness:
  "\<exists>m. alt_load_section 0x100 0x2000 0x2008 (\<lambda>a. a) = Some m \<and> m 0x2004 = 0x104 \<and> m 0x2008 = 0x2008"
proof -
  obtain m where m: "alt_load_section 0x100 0x2000 0x2008 (\<lambda>a. a) = Some m"
    "\<forall>j < 2. m (0x2000 + of_nat (4 * j)) = 0x100 + of_nat (4 * j)"
    "\<forall>a. (\<forall>j < 2. a \<noteq> 0x2000 + of_nat (4 * j)) \<longrightarrow> m a = a"
    using load_section_copies [of "0x2000" 2 "0x100" "0x2008" "\<lambda>a. a"] by auto
  have "m 0x2004 = 0x104" using m(2) [rule_format, of 1] by simp
  moreover have "\<forall>j < 2. (0x2008 :: u32) \<noteq> 0x2000 + of_nat (4 * j)" by (auto simp: less_2_cases_iff)
  then have "m 0x2008 = 0x2008" using m(3) by blast
  ultimately show ?thesis using m(1) by blast
qed

end
