(* ===== verification/Hal_Heap.thy ===== *)
theory Hal_Heap
  imports Prelude
begin

text \<open>
  The heap (alt_sbrk.c), in the configuration built: no ALT_MAX_HEAP_BYTES and no stack check.
  The state is the end of the heap; the bounds the linker script sets are parameters. An
  increment is a signed int held in a word. The lemmas show that what is handed out is aligned,
  inside the heap and disjoint from what was handed out before.
\<close>

definition align_up :: "u32 \<Rightarrow> u32" where
  "align_up a = (a + 3) AND NOT 3"

text \<open>The result is the old end of the heap, or (caddr_t) -1; then the new end.\<close>

definition alt_sbrk :: "u32 \<Rightarrow> u32 \<Rightarrow> u32 \<Rightarrow> u32 \<times> u32" where
  "alt_sbrk heap_limit incr heap_end =
     (let heap_end = align_up heap_end
      in if heap_end + incr > heap_limit then (-1, heap_end)
         else let prev_heap_end = heap_end; heap_end = heap_end + incr
              in (prev_heap_end, heap_end))"

text \<open>A sequence of requests: the blocks handed out, and the end of the heap.\<close>

fun sbrk_run :: "u32 \<Rightarrow> u32 list \<Rightarrow> u32 \<Rightarrow> (u32 \<times> u32) list \<times> u32" where
  "sbrk_run lim [] h = ([], h)"
| "sbrk_run lim (n # ns) h =
     (let (p, h) = alt_sbrk lim n h; (bs, h) = sbrk_run lim ns h
      in (if p = -1 then bs else (p, n) # bs, h))"

section \<open>Alignment\<close>

lemma align_up_unat:
  assumes "unat a \<le> 2 ^ 32 - 4"
  shows "unat (align_up a) = (unat a + 3) div 4 * 4"
proof -
  have s: "unat (a + 3) = unat a + 3" using assms by (subst unat_add_lem [THEN iffD1]) simp_all
  have "unat (a + 3) < 2 ^ LENGTH(32)" by (rule unsigned_less)
  then have v: "take_bit 32 (unat (a + 3)) = unat (a + 3)" by (simp add: take_bit_nat_eq_self)
  have two: "2 \<le> n \<Longrightarrow> Suc (Suc (n - 2)) = n" for n by simp
  have "(3 :: u32) = mask 2" by (simp add: mask_eq_exp_minus_1)
  then have "align_up a = (a + 3) AND NOT (mask 2)" by (simp only: align_up_def)
  also have "\<dots> = push_bit 2 (drop_bit 2 (a + 3))"
    by (rule bit_word_eqI) (auto simp: bit_simps two not_less)
  finally have "align_up a = push_bit 2 (drop_bit 2 (a + 3))" .
  moreover have "(unat a + 3) div 4 * 4 < 2 ^ 32" using assms by simp
  moreover have "unat (push_bit 2 (drop_bit 2 (a + 3))) = take_bit 32 (push_bit 2 (drop_bit 2 (unat (a + 3))))"
    using v by (simp only: unsigned_push_bit_eq unsigned_drop_bit_eq) simp
  ultimately show ?thesis
    unfolding s by (simp add: take_bit_eq_mod push_bit_eq_mult drop_bit_eq_div)
qed

section \<open>What sbrk hands out\<close>

text \<open>The end of the heap, never above the limit rounded up to a word.\<close>

definition heap_inv :: "u32 \<Rightarrow> u32 \<Rightarrow> bool" where
  "heap_inv lim h \<longleftrightarrow> unat h \<le> (unat lim + 3) div 4 * 4 \<and> unat lim \<le> 2 ^ 31 - 4"

lemma align_up_inv:
  assumes "heap_inv lim h"
  shows "unat (align_up h) \<le> (unat lim + 3) div 4 * 4" "unat h \<le> unat (align_up h)" "4 dvd unat (align_up h)"
proof -
  have "(unat lim + 3) div 4 * 4 \<le> unat lim + 3" by simp
  moreover have "unat h \<le> (unat lim + 3) div 4 * 4" "unat lim \<le> 2147483644" using assms by (simp_all add: heap_inv_def)
  ultimately have "unat h \<le> 2147483647" by linarith
  then have "unat h \<le> 2 ^ 32 - 4" by simp
  note a = align_up_unat [OF this]
  have "unat h + 3 < ((unat lim + 3) div 4 + 1) * 4" using assms by (simp add: heap_inv_def)
  then have "(unat h + 3) div 4 < (unat lim + 3) div 4 + 1" by (simp add: div_less_iff_less_mult)
  then show "unat (align_up h) \<le> (unat lim + 3) div 4 * 4" unfolding a by simp
  show "unat h \<le> unat (align_up h)" unfolding a by presburger
  show "4 dvd unat (align_up h)" unfolding a by simp
qed

lemma alt_sbrk_block:
  assumes "heap_inv lim h" "unat n < 2 ^ 31" "alt_sbrk lim n h = (p, h')"
  shows "heap_inv lim h'" "unat h \<le> unat h'"
    "p \<noteq> -1 \<Longrightarrow> 4 dvd unat p \<and> unat h \<le> unat p \<and> unat p + unat n \<le> unat lim \<and> unat h' = unat p + unat n"
proof -
  let ?h = "align_up h"
  note a = align_up_inv [OF assms(1)]
  have lim: "unat lim \<le> 2 ^ 31 - 4" using assms(1) by (simp add: heap_inv_def)
  have "(unat lim + 3) div 4 * 4 \<le> unat lim + 3" by simp
  moreover have "unat lim \<le> 2147483644" using lim by simp
  ultimately have "unat ?h \<le> 2147483647" using a(1) by linarith
  then have "unat ?h + unat n < 2 ^ LENGTH(32)" using assms(2) by simp
  then have s: "unat (?h + n) = unat ?h + unat n" by (rule unat_add_lem [THEN iffD1])
  have r: "(p, h') = (if unat lim < unat ?h + unat n then (-1, ?h) else (?h, ?h + n))"
    unfolding assms(3) [symmetric] alt_sbrk_def Let_def word_less_nat_alt s by simp
  have "unat lim \<le> (unat lim + 3) div 4 * 4" by presburger
  then show "heap_inv lim h'" using r a lim s by (auto simp: heap_inv_def split: if_splits)
  show "unat h \<le> unat h'" using r a s by (auto split: if_splits)
  assume "p \<noteq> -1"
  then have c: "\<not> unat lim < unat ?h + unat n" using r by auto
  then have p: "p = ?h" "h' = ?h + n" using r by simp_all
  show "4 dvd unat p \<and> unat h \<le> unat p \<and> unat p + unat n \<le> unat lim \<and> unat h' = unat p + unat n"
    unfolding p s using a c by simp
qed

lemma sbrk_run_blocks:
  assumes "heap_inv lim h" "\<forall>n \<in> set ns. unat n < 2 ^ 31" "sbrk_run lim ns h = (bs, h')"
  shows "(\<forall>(p, n) \<in> set bs. 4 dvd unat p \<and> unat h \<le> unat p \<and> unat p + unat n \<le> unat lim) \<and>
    sorted_wrt (\<lambda>(p, n) (q, m). unat p + unat n \<le> unat q) bs"
  using assms
proof (induction ns arbitrary: h bs)
  case (Cons n ns)
  obtain p k where pk: "alt_sbrk lim n h = (p, k)" by fastforce
  obtain cs k' where c: "sbrk_run lim ns k = (cs, k')" by fastforce
  then have cs: "sbrk_run lim ns k = (cs, h')" and bs: "bs = (if p = -1 then cs else (p, n) # cs)"
    using Cons.prems(3) pk by simp_all
  note b = alt_sbrk_block [OF Cons.prems(1) _ pk]
  have ih: "(\<forall>(q, m) \<in> set cs. 4 dvd unat q \<and> unat k \<le> unat q \<and> unat q + unat m \<le> unat lim) \<and>
    sorted_wrt (\<lambda>(p, n) (q, m). unat p + unat n \<le> unat q) cs"
    using Cons.IH [OF b(1) _ cs] Cons.prems(2) by simp
  have n: "unat n < 2 ^ 31" using Cons.prems(2) by simp
  have low: "\<forall>(q, m) \<in> set cs. 4 dvd unat q \<and> unat h \<le> unat q \<and> unat q + unat m \<le> unat lim"
    using ih b(2) [OF n] by auto
  show ?case
  proof (cases "p = -1")
    case True
    then show ?thesis using bs low ih by simp
  next
    case False
    note blk = b(3) [OF n False]
    have "\<forall>(q, m) \<in> set cs. unat p + unat n \<le> unat q" using ih blk by auto
    then show ?thesis using bs low ih blk False by auto
  qed
qed simp

text \<open>C35. Whatever sequence of requests to grow the heap (no increment negative) is made to sbrk, the
  blocks it hands out are word-aligned, lie between the end of the heap at the start and the limit
  of the heap, and are disjoint and in ascending order, whichever requests fail in between. The
  limit test of the code is what keeps them inside; the comment above the function says that it
  does not check any bounds. (A negative increment moves the end back, over blocks handed out.)\<close>
theorem sbrk_blocks_disjoint:
  assumes "unat h \<le> unat lim" "unat lim \<le> 2 ^ 31 - 4" "\<forall>n \<in> set ns. unat n < 2 ^ 31"
    and "sbrk_run lim ns h = (bs, h')"
  shows "(\<forall>(p, n) \<in> set bs. 4 dvd unat p \<and> unat h \<le> unat p \<and> unat p + unat n \<le> unat lim) \<and>
    sorted_wrt (\<lambda>(p, n) (q, m). unat p + unat n \<le> unat q) bs"
proof -
  have "unat lim \<le> (unat lim + 3) div 4 * 4" by presburger
  then have "heap_inv lim h" using assms(1,2) by (simp add: heap_inv_def)
  then show ?thesis by (rule sbrk_run_blocks [OF _ assms(3,4)])
qed

theorem sbrk_blocks_disjoint_witness:
  "sbrk_run 0x8000 [10, 0x9000, 8] 0x4001 = ([(0x4004, 10), (0x4010, 8)], 0x4018) \<and>
    sorted_wrt (\<lambda>(p, n) (q, m). unat p + unat n \<le> unat q) [(0x4004 :: u32, 10 :: u32), (0x4010, 8)]"
proof -
  have r: "sbrk_run 0x8000 [10, 0x9000, 8] 0x4001 = ([(0x4004, 10), (0x4010, 8)], 0x4018)" by code_simp
  show ?thesis using sbrk_blocks_disjoint [OF _ _ _ r] r by simp
qed

text \<open>A negative increment is accepted whatever is left of the heap: its end can fall below its
  start, and the next block lies outside.\<close>

lemma sbrk_below_start:
  "alt_sbrk 0x8000 (- 0x2000) 0x4000 = (0x4000, 0x2000) \<and> fst (alt_sbrk 0x8000 16 0x2000) = 0x2000"
  by code_simp

end
