(* ===== verification/Hal_Gmon.thy ===== *)
theory Hal_Gmon
  imports Hal_Heap
begin

text \<open>
  The profiler (alt_gmon.c): a record of every call, in a hash table of functions with their
  callers, whose nodes come from slabs of the heap; and a histogram of the program counter,
  sampled at every tick. Nodes are stored by address; the bounds of the text segment and the
  limit of the heap are parameters.
\<close>

section \<open>State\<close>

record mcount_fn_arc =
  arc_next :: u32
  from_pc :: u32
  arc_count :: u32

record mcount_fn_entry =
  entry_next :: u32
  self_pc :: u32
  arc_head :: u32

record gmon =
  pcsample_need_init :: bool
  mcount_slab_ptr :: u32
  mcount_slab_size :: int
  arc_at :: "u32 \<Rightarrow> mcount_fn_arc"
  entry_at :: "u32 \<Rightarrow> mcount_fn_entry"
  mcount_fn_head :: "u32 list"
  s_pcsamples :: u32
  samples :: "u16 list"
  profile_data :: u32
  profile_rate :: u32
  sampling :: bool
  heap_end :: u32

definition PCSAMPLE_BYTES_PER_BUCKET :: u32 where "PCSAMPLE_BYTES_PER_BUCKET = 32"
definition HASH_BUCKETS :: nat where "HASH_BUCKETS = 64"
definition MCOUNT_SLAB_INCREMENT :: u32 where "MCOUNT_SLAB_INCREMENT = 1020"

text \<open>Both nodes have three words.\<close>

definition node_size :: u32 where "node_size = 12"

definition gmon_init :: "u32 \<Rightarrow> gmon" where
  "gmon_init h = \<lparr>pcsample_need_init = True, mcount_slab_ptr = 0, mcount_slab_size = 0,
     arc_at = (\<lambda>_. \<lparr>arc_next = 0, from_pc = 0, arc_count = 0\<rparr>),
     entry_at = (\<lambda>_. \<lparr>entry_next = 0, self_pc = 0, arc_head = 0\<rparr>),
     mcount_fn_head = replicate HASH_BUCKETS 0, s_pcsamples = 0, samples = [], profile_data = 0,
     profile_rate = 0, sampling = False, heap_end = h\<rparr>"

section \<open>Calls\<close>

definition gmon_sbrk :: "u32 \<Rightarrow> u32 \<Rightarrow> gmon \<Rightarrow> u32 \<times> gmon" where
  "gmon_sbrk lim n s = (let (p, h) = alt_sbrk lim n (heap_end s) in (p, s\<lparr>heap_end := h\<rparr>))"

text \<open>The comparison is unsigned. Whether sbrk could give a slab is not asked.\<close>

definition mcount_allocate :: "u32 \<Rightarrow> u32 \<Rightarrow> gmon \<Rightarrow> u32 \<times> gmon" where
  "mcount_allocate lim n s =
     (let s = (if n > of_int (mcount_slab_size s) then
                 let (p, s) = gmon_sbrk lim MCOUNT_SLAB_INCREMENT s
                 in s\<lparr>mcount_slab_ptr := p, mcount_slab_size := int (unat MCOUNT_SLAB_INCREMENT)\<rparr>
               else s);
          data = mcount_slab_ptr s
      in (data, s\<lparr>mcount_slab_ptr := mcount_slab_ptr s + n,
                  mcount_slab_size := mcount_slab_size s - int (unat n)\<rparr>))"

text \<open>The histogram: its size from the text segment, its memory from the heap, and an alarm for
  every tick. Whether sbrk succeeded is tested against NULL, which it never returns.\<close>

definition nios2_pcsample_init :: "u32 \<Rightarrow> u32 \<Rightarrow> u32 \<Rightarrow> u32 \<Rightarrow> gmon \<Rightarrow> bool \<times> gmon" where
  "nios2_pcsample_init lim low high prof_rate s =
     (if prof_rate = 0 then (True, s)
      else let size_s = (high - low) div PCSAMPLE_BYTES_PER_BUCKET;
               (p, s) = gmon_sbrk lim (size_s * 2) s;
               s = s\<lparr>s_pcsamples := p\<rparr>
           in (False, if p \<noteq> 0 then
                 s\<lparr>samples := replicate (unat size_s) 0, profile_data := p, profile_rate := prof_rate,
                   sampling := True\<rparr>
               else s))"

text \<open>\<open>b\<close> is the bucket of the hash table whose head the caller passes.\<close>

definition mcount_record ::
  "u32 \<Rightarrow> u32 \<Rightarrow> u32 \<Rightarrow> u32 \<Rightarrow> u32 \<Rightarrow> u32 \<Rightarrow> u32 \<Rightarrow> nat \<Rightarrow> gmon \<Rightarrow> gmon" where
  "mcount_record lim low high prof_rate self from fn_entry b s =
     (let s = (if pcsample_need_init s then
                 let s = s\<lparr>pcsample_need_init := False\<rparr>;
                     (r, s) = nios2_pcsample_init lim low high prof_rate s
                 in s\<lparr>pcsample_need_init := r\<rparr>
               else s);
          (fn_entry, s) =
            (if fn_entry = 0 then
               let (e, s) = mcount_allocate lim node_size s;
                   s = s\<lparr>entry_at := (entry_at s)(e := \<lparr>entry_next = mcount_fn_head s ! b, self_pc = self, arc_head = 0\<rparr>)\<rparr>
               in (e, s\<lparr>mcount_fn_head := (mcount_fn_head s)[b := e]\<rparr>)
             else (fn_entry, s));
          (a, s) = mcount_allocate lim node_size s;
          s = s\<lparr>arc_at := (arc_at s)(a := \<lparr>arc_next = arc_head (entry_at s fn_entry), from_pc = from, arc_count = 1\<rparr>)\<rparr>
      in s\<lparr>entry_at := (entry_at s)(fn_entry := (entry_at s fn_entry)\<lparr>arc_head := a\<rparr>)\<rparr>)"

section \<open>Samples\<close>

text \<open>The alarm callback with the sampled program counter; an index past the histogram is
  undefined (\<open>None\<close>). It always asks for the next tick.\<close>

definition nios2_pcsample :: "u32 \<Rightarrow> u32 \<Rightarrow> u32 \<Rightarrow> gmon \<Rightarrow> (u32 \<times> gmon) option" where
  "nios2_pcsample low high pc s =
     (if pc \<ge> low \<and> pc < high \<and> s_pcsamples s \<noteq> 0 then
        let bucket = unat ((pc - low) div PCSAMPLE_BYTES_PER_BUCKET)
        in if bucket < length (samples s)
           then Some (1, s\<lparr>samples := (samples s)[bucket := samples s ! bucket + 1]\<rparr>)
           else None
      else Some (1, s))"

section \<open>The histogram\<close>

lemma bucket_unat:
  assumes "low \<le> pc"
  shows "unat ((pc - low) div PCSAMPLE_BYTES_PER_BUCKET) = (unat pc - unat low) div 32"
  using assms by (simp add: PCSAMPLE_BYTES_PER_BUCKET_def unat_div_distrib unat_sub word_le_nat_alt)

text \<open>The sampling callback stays inside the histogram exactly for the program counters below
  the last whole bucket: when the text segment is not a multiple of 32 bytes, a sample in its last
  bytes writes past the memory taken for the histogram.\<close>
theorem pcsample_bounds:
  assumes "nios2_pcsample_init lim low high rate s = (False, s')" "s_pcsamples s' \<noteq> 0"
    and "low \<le> high" "low \<le> pc" "pc < high"
  shows "(nios2_pcsample low high pc s' = None) \<longleftrightarrow>
    unat low + (unat high - unat low) div 32 * 32 \<le> unat pc"
proof -
  have hl: "unat low \<le> unat high" "unat low \<le> unat pc" "unat pc < unat high"
    using assms(3-5) by (simp_all add: word_le_nat_alt word_less_nat_alt)
  have "length (samples s') = unat ((high - low) div PCSAMPLE_BYTES_PER_BUCKET)"
    using assms(1,2) by (auto simp: nios2_pcsample_init_def Let_def split: if_splits prod.splits)
  then have l: "length (samples s') = (unat high - unat low) div 32" using bucket_unat [OF assms(3)] by simp
  have b: "unat ((pc - low) div PCSAMPLE_BYTES_PER_BUCKET) = (unat pc - unat low) div 32"
    by (rule bucket_unat [OF assms(4)])
  have "(nios2_pcsample low high pc s' = None) \<longleftrightarrow>
      (unat high - unat low) div 32 \<le> (unat pc - unat low) div 32"
    using assms(2,4,5) by (simp add: nios2_pcsample_def Let_def b l not_less)
  also have "\<dots> \<longleftrightarrow> (unat high - unat low) div 32 * 32 \<le> unat pc - unat low"
    by (simp add: less_eq_div_iff_mult_less_eq)
  finally show ?thesis using hl by linarith
qed

theorem pcsample_bounds_witness:
  "\<exists>s'. nios2_pcsample_init 0x9000 0x100 0x128 1000 (gmon_init 0x8000) = (False, s') \<and>
    nios2_pcsample 0x100 0x128 0x120 s' = None"
proof -
  obtain r s' where r: "nios2_pcsample_init 0x9000 0x100 0x128 1000 (gmon_init 0x8000) = (r, s')" by fastforce
  moreover have "alt_sbrk 0x9000 2 0x8000 = (0x8000, 0x8002)" by code_simp
  ultimately have "r = False" "s_pcsamples s' \<noteq> 0"
    by (auto simp: nios2_pcsample_init_def gmon_sbrk_def gmon_init_def PCSAMPLE_BYTES_PER_BUCKET_def Let_def)
  then show ?thesis using pcsample_bounds [of "0x9000" "0x100" "0x128" 1000 "gmon_init 0x8000" s' "0x120"] r by simp
qed

end
