(* ===== verification/Hal_Fd_Props.thy ===== *)
theory Hal_Fd_Props
  imports Hal_Fd
begin

text \<open>
  The descriptor table of the HAL: its invariant and that every system call keeps it, the
  outcome of open on success and on every failure, exclusive access and where it leaks, the
  access modes, fcntl, and the redirection of the standard streams at startup.
\<close>

section \<open>The invariant\<close>

abbreviation used :: "'w hal \<Rightarrow> nat \<Rightarrow> bool" where
  "used s i \<equiv> fd_dev (fd_at s i) \<noteq> 0"

text \<open>
  The table has its size, the standard streams are always attached to a device, and the
  high-water mark covers every other descriptor in use.
\<close>

definition fd_wf :: "'w hal \<Rightarrow> bool" where
  "fd_wf s \<longleftrightarrow> length (alt_fd_list s) = ALT_MAX_FD \<and> -1 \<le> alt_max_fd s \<and> alt_max_fd s < int ALT_MAX_FD \<and>
     (\<forall>i < 3. used s i) \<and> (\<forall>i < ALT_MAX_FD. 3 \<le> i \<longrightarrow> used s i \<longrightarrow> int i \<le> alt_max_fd s)"

lemma fd_wf_frame [simp]:
  "fd_wf (s\<lparr>driver := w\<rparr>) = fd_wf s" "fd_wf (s\<lparr>alt_errno := e\<rparr>) = fd_wf s"
  by (simp_all add: fd_wf_def)

lemma set_fd_at [simp]:
  "i < length (alt_fd_list s) \<Longrightarrow> fd_at (set_fd i f s) j = (if j = i then f else fd_at s j)"
  "length (alt_fd_list (set_fd i f s)) = length (alt_fd_list s)"
  "alt_max_fd (set_fd i f s) = alt_max_fd s" "driver (set_fd i f s) = driver s"
  "dev_of (set_fd i f s) = dev_of s" "dev_heap (set_fd i f s) = dev_heap s"
  "alt_errno (set_fd i f s) = alt_errno s"
  by (simp_all add: set_fd_def nth_list_update)

lemma set_fd_twice [simp]: "set_fd i f (set_fd i g s) = set_fd i f s"
  by (simp add: set_fd_def)

lemma wf_length [simp]: "fd_wf s \<Longrightarrow> length (alt_fd_list s) = ALT_MAX_FD"
  by (simp add: fd_wf_def)

lemma wf_set_fd: "fd_wf s \<Longrightarrow> i < ALT_MAX_FD \<Longrightarrow> (fd_dev f = 0 \<longleftrightarrow> \<not> used s i) \<Longrightarrow> fd_wf (set_fd i f s)"
  by (auto simp: fd_wf_def)

lemma wf_release: "fd_wf s \<Longrightarrow> i < int ALT_MAX_FD \<Longrightarrow> fd_wf (alt_release_fd i s)"
  by (auto simp: fd_wf_def alt_release_fd_def)

lemma wf_fail [simp]: "fd_wf (snd (fail e s)) = fd_wf s"
  by (simp add: fail_def)

lemma find_upt: "find p [0..<n] = Some i \<Longrightarrow> i < n \<and> p i \<and> (\<forall>j < i. \<not> p j)"
  by (auto simp: find_Some_iff)

lemma get_fd_cases:
  assumes "fd_wf s" "dev \<noteq> 0" "alt_get_fd dev s = (r, s')"
  shows "(r = - EMFILE \<and> s' = s \<and> (\<forall>i < ALT_MAX_FD. used s i)) \<or>
    (\<exists>i. r = int i \<and> 3 \<le> i \<and> i < ALT_MAX_FD \<and> \<not> used s i \<and> (\<forall>j < i. used s j) \<and> fd_wf s' \<and>
      fd_at s' i = (fd_at s i)\<lparr>fd_dev := dev\<rparr> \<and> (\<forall>j. j \<noteq> i \<longrightarrow> fd_at s' j = fd_at s j) \<and>
      int i \<le> alt_max_fd s' \<and> alt_max_fd s \<le> alt_max_fd s' \<and> dev_of s' = dev_of s \<and>
      dev_heap s' = dev_heap s \<and> driver s' = driver s \<and> alt_errno s' = alt_errno s)"
proof (cases "find (\<lambda>i. \<not> used s i) [0..<ALT_MAX_FD]")
  case None
  then have "\<forall>i < ALT_MAX_FD. used s i" by (auto simp: find_None_iff)
  then show ?thesis using assms(3) None by (simp add: alt_get_fd_def)
next
  case (Some i)
  note f = find_upt [OF Some]
  have i3: "3 \<le> i"
  proof (rule ccontr)
    assume "\<not> 3 \<le> i"
    then have "i < 3" by simp
    then show False using f assms(1) by (auto simp: fd_wf_def)
  qed
  let ?s = "set_fd i ((fd_at s i)\<lparr>fd_dev := dev\<rparr>) s"
  have s': "s' = (if int i > alt_max_fd ?s then ?s\<lparr>alt_max_fd := int i\<rparr> else ?s)" "r = int i"
    using assms(3) Some by (auto simp: alt_get_fd_def Let_def)
  have "fd_wf s'" using assms(1,2) f unfolding s'(1) by (auto simp: fd_wf_def)
  then show ?thesis using s' f i3 assms(1) by (intro disjI2 exI [of _ i]) auto
qed

lemma driver_call_frame:
  assumes "driver_call rw s = Some (r, s')"
  shows "alt_fd_list s' = alt_fd_list s" "alt_max_fd s' = alt_max_fd s" "dev_of s' = dev_of s"
    "dev_heap s' = dev_heap s"
  using assms by (auto simp: driver_call_def)

lemma fd_wf_cong:
  "alt_fd_list s' = alt_fd_list s \<Longrightarrow> alt_max_fd s' = alt_max_fd s \<Longrightarrow> fd_wf s' = fd_wf s"
  by (simp add: fd_wf_def)

section \<open>Open\<close>

lemma open_status_cases:
  assumes "fd_wf s" "i < ALT_MAX_FD" "open_status i file flags mode isafs s = Some (st, s')"
  shows "fd_wf s' \<and> alt_max_fd s' = alt_max_fd s \<and> (\<forall>j. j \<noteq> i \<longrightarrow> fd_at s' j = fd_at s j) \<and>
    fd_dev (fd_at s' i) = fd_dev (fd_at s i)"
proof -
  obtain l t where l: "(if isafs then Some (0, s) else alt_file_locked i s) = Some (l, t)"
    using assms(3) by (cases "if isafs then Some (0 :: int, s) else alt_file_locked i s")
      (auto simp: open_status_def)
  have t: "fd_wf t \<and> alt_max_fd t = alt_max_fd s \<and> (\<forall>j. j \<noteq> i \<longrightarrow> fd_at t j = fd_at s j) \<and>
      fd_dev (fd_at t i) = fd_dev (fd_at s i)"
    using l assms(1,2) by (auto simp: alt_file_locked_def Let_def wf_set_fd split: if_splits)
  have "alt_fd_list s' = alt_fd_list t \<and> alt_max_fd s' = alt_max_fd t"
    using assms(3) unfolding open_status_def l
    by (auto simp: driver_call_def split: if_splits option.splits prod.splits)
  with t fd_wf_cong [of s' t] show ?thesis by simp
qed

text \<open>What open does to the table, on success and on every failure.\<close>

definition open_ok :: "'w hal \<Rightarrow> int \<Rightarrow> 'w hal \<Rightarrow> bool" where
  "open_ok s r s' \<longleftrightarrow>
     (\<exists>i. r = int i \<and> 3 \<le> i \<and> i < ALT_MAX_FD \<and> \<not> used s i \<and> (\<forall>j < i. used s j) \<and> used s' i \<and>
       (\<forall>j. j \<noteq> i \<longrightarrow> fd_at s' j = fd_at s j)) \<or>
     (r = -1 \<and> (\<forall>j < ALT_MAX_FD. (used s' j \<longleftrightarrow> used s j) \<and> (used s j \<longrightarrow> fd_at s' j = fd_at s j)))"

lemma open_outcome:
  assumes "fd_wf s" "alt_open file flags mode s = Some (r, s')"
  shows "fd_wf s' \<and> open_ok s r s'"
proof -
  obtain d0 where d0: "alt_find_dev file alt_dev_list s = Some d0"
    using assms(2) by (auto simp: alt_open_def split: option.splits)
  obtain dev where dev: "(if d0 \<noteq> 0 then Some d0 else alt_find_file file s) = Some dev"
    using assms(2) d0 by (cases "if d0 \<noteq> 0 then Some d0 else alt_find_file file s")
      (auto simp: alt_open_def)
  show ?thesis
  proof (cases "dev = 0")
    case True
    then show ?thesis
      using assms d0 dev by (auto simp: alt_open_def fail_def open_ok_def)
  next
    case nz: False
    obtain ix t where g: "alt_get_fd dev s = (ix, t)" by fastforce
    from get_fd_cases [OF assms(1) nz g] show ?thesis
    proof
      assume e: "ix = - EMFILE \<and> t = s \<and> (\<forall>i < ALT_MAX_FD. used s i)"
      then have "ix < 0" by (simp add: hal_defs)
      then have "(r, s') = fail (- ix) s"
        using assms(2) d0 dev nz g e by (simp add: alt_open_def alt_release_fd_def)
      then show ?thesis using assms(1) by (simp add: fail_def open_ok_def)
    next
      assume "\<exists>i. ix = int i \<and> 3 \<le> i \<and> i < ALT_MAX_FD \<and> \<not> used s i \<and> (\<forall>j < i. used s j) \<and> fd_wf t \<and>
        fd_at t i = (fd_at s i)\<lparr>fd_dev := dev\<rparr> \<and> (\<forall>j. j \<noteq> i \<longrightarrow> fd_at t j = fd_at s j) \<and>
        int i \<le> alt_max_fd t \<and> alt_max_fd s \<le> alt_max_fd t \<and> dev_of t = dev_of s \<and>
        dev_heap t = dev_heap s \<and> driver t = driver s \<and> alt_errno t = alt_errno s"
      then obtain i where i: "ix = int i" "3 \<le> i" "i < ALT_MAX_FD" "\<not> used s i" "\<forall>j < i. used s j"
        and t: "fd_wf t" "fd_dev (fd_at t i) = dev" "\<forall>j. j \<noteq> i \<longrightarrow> fd_at t j = fd_at s j" by auto
      let ?u = "set_fd i ((fd_at t i)\<lparr>fd_flags := flags AND NOT ALT_FD_FLAGS_MASK\<rparr>) t"
      have u: "fd_wf ?u" using t i by (intro wf_set_fd) auto
      obtain st v where o: "open_status i file flags mode (d0 = 0) ?u = Some (st, v)"
        using assms(2) d0 dev nz g i by (auto simp: alt_open_def Let_def split: option.splits)
      note v = open_status_cases [OF u i(3) o]
      have res: "(r, s') = (if st < 0 then fail (- st) (alt_release_fd (int i) v) else (int i, v))"
        using assms(2) d0 dev nz g i(1) o by (simp add: alt_open_def Let_def split: if_splits)
      show ?thesis
      proof (cases "st < 0")
        case True
        have "fd_wf (alt_release_fd (int i) v)" using v i(3) by (intro wf_release) auto
        then show ?thesis
          using res True v t(1,3) i by (auto simp: fail_def open_ok_def alt_release_fd_def)
      next
        case False
        have "fd_dev (fd_at v i) = dev" using v t(1,2) i(3) by simp
        then have "used v i" using nz by simp
        then show ?thesis using res False v t(1,3) i by (simp add: open_ok_def)
      qed
    qed
  qed
qed

section \<open>Every call keeps the invariant\<close>

datatype fd_call =
    Open string u32 u32 | Close int | Read int ptr int | Write int ptr int | Lseek int int int
  | Ioctl int u32 ptr | Fcntl int int u32 | Fstat int u32 | Isatty int u32
  | Redirect string string string

fun fd_step :: "fd_call \<Rightarrow> 'w hal \<Rightarrow> 'w hal option" where
  "fd_step (Open f fl m) s = map_option snd (alt_open f fl m s)"
| "fd_step (Close i) s = map_option snd (alt_close i s)"
| "fd_step (Read i b n) s = map_option snd (alt_read i b n s)"
| "fd_step (Write i b n) s = map_option snd (alt_write i b n s)"
| "fd_step (Lseek i p d) s = map_option snd (alt_lseek i p d s)"
| "fd_step (Ioctl i r a) s = map_option snd (alt_ioctl i r a s)"
| "fd_step (Fcntl i c a) s = map_option snd (alt_fcntl i c a s)"
| "fd_step (Fstat i st) s = map_option (snd \<circ> snd) (alt_fstat i st s)"
| "fd_step (Isatty i st) s = map_option snd (alt_isatty i st s)"
| "fd_step (Redirect so si se) s = alt_io_redirect so si se s"

lemmas call_defs = on_fd_def the_dev_def driver_result_def driver_call_def fail_def ioctl_done_def

lemma wf_close: "fd_wf s \<Longrightarrow> alt_close file s = Some (r, s') \<Longrightarrow> fd_wf s'"
  by (auto simp: alt_close_def call_defs Let_def intro!: wf_release
      split: if_splits option.splits prod.splits)

lemma wf_rw:
  "fd_wf s \<Longrightarrow> alt_read file b n s = Some (r, s') \<Longrightarrow> fd_wf s'"
  "fd_wf s \<Longrightarrow> alt_write file b n s = Some (r, s') \<Longrightarrow> fd_wf s'"
  "fd_wf s \<Longrightarrow> alt_lseek file k dir s = Some (r, s') \<Longrightarrow> fd_wf s'"
  by (auto simp: alt_read_def alt_write_def alt_lseek_def call_defs
      split: if_splits option.splits prod.splits)

lemma wf_ioctl: "fd_wf s \<Longrightarrow> alt_ioctl file q a s = Some (r, s') \<Longrightarrow> fd_wf s'"
  by (auto simp: alt_ioctl_def call_defs alt_fd_lock_def alt_fd_unlock_def wf_set_fd
      split: if_splits option.splits prod.splits)

lemma wf_fcntl: "fd_wf s \<Longrightarrow> alt_fcntl file c a s = Some (r, s') \<Longrightarrow> fd_wf s'"
  by (auto simp: alt_fcntl_def call_defs wf_set_fd split: if_splits)

lemma wf_fstat: "fd_wf s \<Longrightarrow> alt_fstat file st s = Some (r, m, s') \<Longrightarrow> fd_wf s'"
  by (auto simp: alt_fstat_def call_defs split: if_splits option.splits prod.splits)

lemma wf_isatty: "fd_wf s \<Longrightarrow> alt_isatty file st s = Some (r, s') \<Longrightarrow> fd_wf s'"
  using wf_fstat by (fastforce simp: alt_isatty_def on_fd_def split: if_splits option.splits)

lemma wf_open: "fd_wf s \<Longrightarrow> alt_open file flags mode s = Some (r, s') \<Longrightarrow> fd_wf s'"
  using open_outcome by blast

lemma wf_open_fd:
  assumes "fd_wf s" "k < 3" "alt_open_fd k name flags mode s = Some s'"
  shows "fd_wf s'"
proof -
  obtain r t where o: "alt_open name flags mode s = Some (r, t)"
    using assms(3) by (auto simp: alt_open_fd_def)
  note O = open_outcome [OF assms(1) o]
  show ?thesis
  proof (cases "r \<ge> 0")
    case True
    then obtain i where i: "r = int i" "i < ALT_MAX_FD" "used t i" using O by (auto simp: open_ok_def)
    have k: "k < ALT_MAX_FD" "used t k" using assms(2) O by (auto simp: fd_wf_def ALT_MAX_FD_def)
    have "fd_wf (set_fd k (fd_at t i) t)" using O i k by (intro wf_set_fd) auto
    then show ?thesis
      using assms(3) o i wf_release [of "set_fd k (fd_at t i) t" "int i"] by (simp add: alt_open_fd_def)
  next
    case False
    then show ?thesis using assms(3) o O by (simp add: alt_open_fd_def)
  qed
qed

text \<open>C19. The descriptor table stays well-formed under every system call, with any drivers and
  any arguments: 32 entries, the three standard streams always attached, and no descriptor in
  use above the high-water mark.\<close>
theorem fd_table_inv:
  assumes "fd_wf s" "fd_step c s = Some s'"
  shows "fd_wf s'"
proof (cases c)
  case (Redirect so si se)
  then obtain s1 s2 where o: "alt_open_fd 1 so O_WRONLY 511 s = Some s1"
    "alt_open_fd 0 si O_RDONLY 511 s1 = Some s2" "alt_open_fd 2 se O_WRONLY 511 s2 = Some s'"
    using assms(2) by (auto simp: alt_io_redirect_def split: option.splits)
  have "fd_wf s1" by (rule wf_open_fd [OF assms(1) _ o(1)]) simp
  from wf_open_fd [OF this _ o(2)] have "fd_wf s2" by simp
  from wf_open_fd [OF this _ o(3)] show ?thesis by simp
qed (use assms in \<open>auto dest: wf_open wf_close wf_rw wf_ioctl wf_fcntl wf_fstat wf_isatty\<close>)

lemma init_fd_at: "i < ALT_MAX_FD \<Longrightarrow> fd_at (hal_init devs w) i = (if i < 3 then null_fd else no_fd)"
  by (auto simp: hal_init_def nth_append ALT_MAX_FD_def)

lemma init_used: "i < ALT_MAX_FD \<Longrightarrow> used (hal_init devs w) i \<longleftrightarrow> i < 3"
  by (simp add: init_fd_at null_fd_def no_fd_def alt_dev_null_addr_def)

lemma init_wf: "fd_wf (hal_init devs w)"
proof -
  have "length (alt_fd_list (hal_init devs w)) = ALT_MAX_FD" "alt_max_fd (hal_init devs w) = -1"
    by (simp_all add: hal_init_def ALT_MAX_FD_def)
  moreover have "i < 3 \<Longrightarrow> i < ALT_MAX_FD" for i by (simp add: ALT_MAX_FD_def)
  ultimately show ?thesis using init_used [of _ devs w] by (simp add: fd_wf_def)
qed

theorem fd_table_inv_witness:
  "\<exists>s'. fd_step (Fcntl 1 F_SETFL O_APPEND) (hal_init (\<lambda>a. alt_dev_null) (0 :: nat)) = Some s' \<and> fd_wf s'"
proof -
  have "\<exists>s'. fd_step (Fcntl 1 F_SETFL O_APPEND) (hal_init (\<lambda>a. alt_dev_null) (0 :: nat)) = Some s'"
    by (simp add: alt_fcntl_def on_fd_def hal_defs)
  then obtain s' where s': "fd_step (Fcntl 1 F_SETFL O_APPEND) (hal_init (\<lambda>a. alt_dev_null) (0 :: nat)) = Some s'"
    by blast
  show ?thesis using fd_table_inv [OF init_wf s'] s' by blast
qed

text \<open>C20. An open that succeeds returns the smallest free descriptor, never a standard stream
  and never one in use, attached to a device, and changes no other entry. An open that fails
  (no such name, no free descriptor, device locked, driver error) returns -1 and leaves no
  descriptor allocated and every entry in use as it was.\<close>
theorem open_allocates:
  assumes "fd_wf s" "alt_open file flags mode s = Some (r, s')"
  shows "(\<exists>i. r = int i \<and> 3 \<le> i \<and> i < ALT_MAX_FD \<and> \<not> used s i \<and> (\<forall>j < i. used s j) \<and> used s' i \<and>
       (\<forall>j. j \<noteq> i \<longrightarrow> fd_at s' j = fd_at s j)) \<or>
     (r = -1 \<and> (\<forall>j < ALT_MAX_FD. (used s' j \<longleftrightarrow> used s j) \<and> (used s j \<longrightarrow> fd_at s' j = fd_at s j)))"
  using open_outcome [OF assms] by (simp add: open_ok_def)

lemma find_frame:
  "dev_heap s' = dev_heap s \<Longrightarrow> dev_of s' = dev_of s \<Longrightarrow>
   alt_find_dev n l s' = alt_find_dev n l s \<and> alt_find_file n s' = alt_find_file n s"
  by (simp add: alt_find_dev_def alt_find_file_def find_loop_def split: option.split)

section \<open>A board with two devices\<close>

text \<open>A state for the witnesses: a UART registered under its name, descriptors 3 and 4 open on it.\<close>

definition uart_dev :: "nat device" where
  "uart_dev = \<lparr>dev_name = Some ''/dev/uart'', dev_open = None, dev_close = None,
     dev_read = Some (\<lambda>f p n w. Some (0, w + 1)), dev_write = Some (\<lambda>f p n w. Some (n, w)), dev_lseek = None,
     dev_fstat = None, dev_ioctl = None\<rparr>"

definition uart_fd :: fd where
  "uart_fd = \<lparr>fd_dev = 9, fd_priv = 0, fd_flags = ALT_FD_DEV OR O_WRONLY\<rparr>"

definition two_open :: "nat hal" where
  "two_open = (snd (alt_dev_reg 9 (hal_init (\<lambda>a. uart_dev) 0)))
     \<lparr>alt_fd_list := replicate 3 null_fd @ replicate 2 uart_fd @ replicate 27 no_fd, alt_max_fd := 4\<rparr>"

lemma two_open_fds:
  "i < ALT_MAX_FD \<Longrightarrow> fd_at two_open i = (if i < 3 then null_fd else if i < 5 then uart_fd else no_fd)"
  by (auto simp: two_open_def nth_append ALT_MAX_FD_def nth_Cons split: nat.splits)

lemma two_open_state [simp]:
  "length (alt_fd_list two_open) = ALT_MAX_FD" "alt_max_fd two_open = 4"
  "dev_of two_open 9 = uart_dev" "dev_of two_open 4 = alt_dev_null"
  "ring (dev_heap two_open) alt_dev_list [9, 4]"
  using llist.inserted [OF init_rings(1), of 9 "\<lambda>a. uart_dev" "0 :: nat"]
  by (simp_all add: two_open_def alt_dev_reg_def alt_dev_llist_insert_def ALT_MAX_FD_def
      uart_dev_def hal_init_def alt_dev_null_addr_def alt_dev_list_def)

lemma two_open_used: "i < ALT_MAX_FD \<Longrightarrow> used two_open i \<longleftrightarrow> i < 5"
  by (simp add: two_open_fds null_fd_def no_fd_def uart_fd_def alt_dev_null_addr_def)

lemma two_open_wf: "fd_wf two_open"
proof -
  have "i < 3 \<Longrightarrow> i < ALT_MAX_FD" for i by (simp add: ALT_MAX_FD_def)
  then show ?thesis using two_open_used by (auto simp: fd_wf_def ALT_MAX_FD_def)
qed

lemma two_open_names: "names_ok two_open [9, 4]"
  by (simp add: names_ok_def uart_dev_def alt_dev_null_def)

lemma two_open_find: "alt_find_dev ''/dev/uart'' alt_dev_list two_open = Some 9"
  using find_dev_list [OF two_open_state(5) two_open_names, of "''/dev/uart''"]
  by (simp add: uart_dev_def)

section \<open>Exclusive access\<close>

lemma open_locked:
  assumes "fd_wf s" "k < ALT_MAX_FD" "used s k" "fd_flags (fd_at s k) AND ALT_FD_EXCL \<noteq> 0"
    and "alt_find_dev file alt_dev_list s = Some (fd_dev (fd_at s k))"
  shows "\<exists>s' e. alt_open file flags mode s = Some (-1, s') \<and> alt_errno s' = e \<and>
    (e = EACCES \<or> e = EMFILE) \<and> driver s' = driver s"
proof -
  let ?dev = "fd_dev (fd_at s k)"
  obtain ix t where g: "alt_get_fd ?dev s = (ix, t)" by fastforce
  from get_fd_cases [OF assms(1) _ g] assms(3)
  consider "ix = - EMFILE" "t = s"
    | i where "ix = int i" "3 \<le> i" "i < ALT_MAX_FD" "\<not> used s i" "fd_wf t"
      "fd_dev (fd_at t i) = ?dev" "\<forall>j. j \<noteq> i \<longrightarrow> fd_at t j = fd_at s j" "int i \<le> alt_max_fd t"
      "alt_max_fd s \<le> alt_max_fd t" "driver t = driver s" by auto
  then show ?thesis
  proof cases
    case 1
    then show ?thesis
      using assms(3,5) g by (simp add: alt_open_def fail_def alt_release_fd_def hal_defs)
  next
    case 2
    let ?u = "set_fd i ((fd_at t i)\<lparr>fd_flags := flags AND NOT ALT_FD_FLAGS_MASK\<rparr>) t"
    let ?v = "set_fd i ((fd_at ?u i)\<lparr>fd_flags := fd_flags (fd_at ?u i) OR ALT_FD_DEV\<rparr>) ?u"
    have ki: "k \<noteq> i" using assms(3) 2 by auto
    have "int k \<le> alt_max_fd t"
    proof (cases "k < 3")
      case True
      then show ?thesis using 2(2,8) by simp
    next
      case False
      then have "int k \<le> alt_max_fd s" using assms(1-3) by (simp add: fd_wf_def)
      then show ?thesis using 2(9) by simp
    qed
    then have k: "k \<in> set [0..<nat (alt_max_fd ?v) + 1]" "\<not> alt_max_fd ?v < 0" by auto
    have v: "fd_at ?v k = fd_at s k" "fd_dev (fd_at ?v i) = ?dev" using 2 ki by auto
    have "list_ex (\<lambda>j. fd_dev (fd_at ?v j) = fd_dev (fd_at ?v i) \<and>
        fd_flags (fd_at ?v j) AND ALT_FD_EXCL \<noteq> 0 \<and> j \<noteq> i) [0..<nat (alt_max_fd ?v) + 1]"
      unfolding list_ex_iff using k(1) by (rule bexI [rotated]) (use v assms(4) ki in simp)
    then have "alt_file_locked i ?u = Some (- EACCES, ?v)"
      unfolding alt_file_locked_def Let_def using k(2) by (simp only: if_True if_False not_False_eq_True)
    then have "open_status i file flags mode False ?u = Some (- EACCES, ?v)"
      by (simp add: open_status_def hal_defs)
    then show ?thesis
      using assms(3,5) g 2 by (simp add: alt_open_def fail_def alt_release_fd_def Let_def hal_defs)
  qed
qed

text \<open>C28. While a descriptor holds its device for exclusive access, every open of that device
  by its name fails, with EACCES (or EMFILE when the table is full), without a call of the
  driver.\<close>
theorem exclusive_blocks_open:
  assumes "fd_wf s" "k < ALT_MAX_FD" "used s k" "fd_flags (fd_at s k) AND ALT_FD_EXCL \<noteq> 0"
    and "alt_find_dev file alt_dev_list s = Some (fd_dev (fd_at s k))"
  shows "\<exists>s' e. alt_open file flags mode s = Some (-1, s') \<and> alt_errno s' = e \<and>
    (e = EACCES \<or> e = EMFILE) \<and> driver s' = driver s"
  by (rule open_locked [OF assms])

definition locked_uart :: "nat hal" where
  "locked_uart = set_fd 3 (uart_fd\<lparr>fd_flags := ALT_FD_DEV OR ALT_FD_EXCL\<rparr>) two_open"

lemma locked_fd: "fd_at locked_uart 3 = uart_fd\<lparr>fd_flags := ALT_FD_DEV OR ALT_FD_EXCL\<rparr>"
  by (simp add: locked_uart_def ALT_MAX_FD_def)

lemma locked_wf: "fd_wf locked_uart"
  unfolding locked_uart_def using two_open_used [of 3]
  by (intro wf_set_fd two_open_wf) (simp_all add: uart_fd_def ALT_MAX_FD_def)

lemma locked_find: "alt_find_dev ''/dev/uart'' alt_dev_list locked_uart = Some (fd_dev (fd_at locked_uart 3))"
  using two_open_find find_frame [of locked_uart two_open]
  by (simp add: locked_fd uart_fd_def) (simp add: locked_uart_def)

lemma locked_excl:
  "3 < ALT_MAX_FD" "used locked_uart 3" "fd_flags (fd_at locked_uart 3) AND ALT_FD_EXCL \<noteq> 0"
  by (simp_all add: locked_fd uart_fd_def hal_defs)

theorem exclusive_blocks_open_witness:
  "\<exists>s'. alt_open ''/dev/uart'' 0 0 locked_uart = Some (-1, s')"
  using exclusive_blocks_open [OF locked_wf locked_excl locked_find, of 0 0] by blast

text \<open>But a descriptor can get exclusive access while another one is open on the same
  device: the request scans the descriptors below the high-water mark only, so the descriptor at
  the mark itself, the last one opened, is overlooked.\<close>
theorem lock_misses_last_fd:
  assumes "fd_wf s" "3 \<le> k" "k < m" "int m = alt_max_fd s"
    and "fd_dev (fd_at s k) = fd_dev (fd_at s m)"
    and "\<forall>i < m. i \<noteq> k \<longrightarrow> fd_dev (fd_at s i) \<noteq> fd_dev (fd_at s k)"
    and "fd_flags (fd_at s k) AND ALT_FD_DEV \<noteq> 0"
  shows "\<exists>s'. alt_ioctl (int k) TIOCEXCL 0 s = Some (0, s') \<and>
    fd_flags (fd_at s' k) AND ALT_FD_EXCL \<noteq> 0 \<and> fd_dev (fd_at s' m) = fd_dev (fd_at s' k)"
proof -
  have m: "nat (alt_max_fd s) = m" "m < ALT_MAX_FD"
    using assms(1,4) by (auto simp: fd_wf_def)
  have "\<not> list_ex (\<lambda>i. i \<noteq> k \<and> fd_dev (fd_at s i) = fd_dev (fd_at s k)) [0..<m]"
    using assms(6) by (auto simp: list_ex_iff)
  moreover have "(x OR ALT_FD_EXCL) AND ALT_FD_EXCL \<noteq> 0" for x
    by (simp add: bit.conj_disj_distrib2 ALT_FD_EXCL_def)
  ultimately show ?thesis
    using assms(1,3,5,7) m
    by (auto simp: alt_ioctl_def on_fd_def alt_fd_lock_def ioctl_done_def)
qed

theorem lock_misses_last_fd_witness:
  "\<exists>s'. alt_ioctl 3 TIOCEXCL 0 two_open = Some (0, s') \<and> fd_dev (fd_at s' 4) = fd_dev (fd_at s' 3)"
proof -
  have a: "fd_at two_open 3 = uart_fd" "fd_at two_open 4 = uart_fd"
    by (simp_all add: two_open_fds ALT_MAX_FD_def)
  have n: "fd_dev (fd_at two_open i) \<noteq> fd_dev uart_fd" if "i < 4" "i \<noteq> 3" for i
    using that two_open_fds [of i] by (simp add: null_fd_def uart_fd_def alt_dev_null_addr_def ALT_MAX_FD_def)
  have d: "fd_flags uart_fd AND ALT_FD_DEV \<noteq> 0" by (simp add: uart_fd_def hal_defs)
  show ?thesis
    using lock_misses_last_fd [OF two_open_wf, of 3 4] a n d by simp blast
qed

theorem open_allocates_witness:
  "\<exists>r s'. alt_open ''/dev/uart'' 0 0 locked_uart = Some (r, s') \<and> (r \<ge> 3 \<or> r = -1)"
proof -
  obtain s' where s': "alt_open ''/dev/uart'' 0 0 locked_uart = Some (-1, s')"
    using open_locked [OF locked_wf locked_excl locked_find, of 0 0] by blast
  then show ?thesis using open_allocates [OF locked_wf s'] by auto
qed

section \<open>Flags\<close>

text \<open>C40. fcntl changes exactly the two flags it may change: after F_SETFL, F_GETFL returns the
  old flags with O_APPEND and O_NONBLOCK taken from the argument; the exclusive lock and the
  device mark of the descriptor, and all other descriptors, are untouched.\<close>
theorem fcntl_set_get:
  assumes "fd_wf s" "i < ALT_MAX_FD"
  shows "\<exists>s'. alt_fcntl (int i) F_SETFL arg s = Some (0, s') \<and>
    alt_fcntl (int i) F_GETFL x s' = Some
      (((fd_flags (fd_at s i) AND NOT ALT_FD_FLAGS_MASK) AND NOT ALT_FCNTL_FLAGS_MASK) OR
        (arg AND ALT_FCNTL_FLAGS_MASK), s') \<and>
    fd_flags (fd_at s' i) AND ALT_FD_FLAGS_MASK = fd_flags (fd_at s i) AND ALT_FD_FLAGS_MASK \<and>
    (\<forall>j. j \<noteq> i \<longrightarrow> fd_at s' j = fd_at s j)"
proof -
  let ?f = "fd_flags (fd_at s i)"
  let ?g = "(?f AND NOT ALT_FCNTL_FLAGS_MASK) OR (arg AND ALT_FCNTL_FLAGS_MASK)"
  have m: "ALT_FCNTL_FLAGS_MASK AND ALT_FD_FLAGS_MASK = 0" by (simp add: hal_defs)
  have b: "\<not> (bit ALT_FCNTL_FLAGS_MASK n \<and> bit ALT_FD_FLAGS_MASK n)" for n
    using arg_cong [OF m, of "\<lambda>w. bit w n"] by (simp add: bit_and_iff)
  have 1: "?g AND NOT ALT_FD_FLAGS_MASK =
      ((?f AND NOT ALT_FD_FLAGS_MASK) AND NOT ALT_FCNTL_FLAGS_MASK) OR (arg AND ALT_FCNTL_FLAGS_MASK)"
    by (rule bit_word_eqI) (use b in \<open>auto simp: bit_simps\<close>)
  have 2: "?g AND ALT_FD_FLAGS_MASK = ?f AND ALT_FD_FLAGS_MASK"
    by (rule bit_word_eqI) (use b in \<open>auto simp: bit_simps\<close>)
  have c: "F_SETFL \<noteq> F_GETFL" by (simp add: hal_defs)
  show ?thesis
    using assms 1 2 c by (simp add: alt_fcntl_def on_fd_def)
qed

theorem fcntl_set_get_witness:
  "\<exists>s'. alt_fcntl 3 F_SETFL 0x4000 two_open = Some (0, s') \<and> alt_fcntl 3 F_GETFL 0 s' = Some (0x4001, s')"
proof -
  have k: "3 < ALT_MAX_FD" by (simp add: ALT_MAX_FD_def)
  show ?thesis
    using fcntl_set_get [OF two_open_wf k, of "0x4000" 0] two_open_fds [OF k]
    by (auto simp: uart_fd_def hal_defs)
qed

section \<open>The standard streams\<close>

definition unlocked :: "'w hal \<Rightarrow> ptr \<Rightarrow> bool" where
  "unlocked s d \<longleftrightarrow> (\<forall>j < ALT_MAX_FD. fd_dev (fd_at s j) = d \<longrightarrow> fd_flags (fd_at s j) AND ALT_FD_EXCL = 0)"

lemma open_device:
  assumes "fd_wf s" "alt_find_dev n alt_dev_list s = Some d" "d \<noteq> 0" "dev_open (dev_of s d) = None"
    and "unlocked s d" "i0 < ALT_MAX_FD" "\<not> used s i0"
  shows "\<exists>i s'. alt_open n fl m s = Some (int i, s') \<and> 3 \<le> i \<and> i < ALT_MAX_FD \<and> \<not> used s i \<and> fd_wf s' \<and>
    fd_dev (fd_at s' i) = d \<and> fd_flags (fd_at s' i) = (fl AND NOT ALT_FD_FLAGS_MASK) OR ALT_FD_DEV \<and>
    (\<forall>j. j \<noteq> i \<longrightarrow> fd_at s' j = fd_at s j) \<and> dev_heap s' = dev_heap s \<and> dev_of s' = dev_of s \<and>
    driver s' = driver s"
proof -
  obtain ix t where g: "alt_get_fd d s = (ix, t)" by fastforce
  obtain i where i: "ix = int i" "3 \<le> i" "i < ALT_MAX_FD" "\<not> used s i" "fd_wf t"
      "fd_dev (fd_at t i) = d" "\<forall>j. j \<noteq> i \<longrightarrow> fd_at t j = fd_at s j" "int i \<le> alt_max_fd t"
      "dev_of t = dev_of s" "dev_heap t = dev_heap s" "driver t = driver s"
    using get_fd_cases [OF assms(1,3) g] assms(6,7) by auto
  let ?u = "set_fd i ((fd_at t i)\<lparr>fd_flags := fl AND NOT ALT_FD_FLAGS_MASK\<rparr>) t"
  let ?v = "set_fd i ((fd_at ?u i)\<lparr>fd_flags := fd_flags (fd_at ?u i) OR ALT_FD_DEV\<rparr>) ?u"
  have mx: "\<not> alt_max_fd ?v < 0" "nat (alt_max_fd ?v) + 1 \<le> ALT_MAX_FD" using i by (auto simp: fd_wf_def)
  have v: "fd_dev (fd_at ?v i) = d" "\<And>j. j \<noteq> i \<Longrightarrow> fd_at ?v j = fd_at s j" using i by auto
  have "\<not> list_ex (\<lambda>j. fd_dev (fd_at ?v j) = fd_dev (fd_at ?v i) \<and>
      fd_flags (fd_at ?v j) AND ALT_FD_EXCL \<noteq> 0 \<and> j \<noteq> i) [0..<nat (alt_max_fd ?v) + 1]"
    unfolding list_ex_iff using v mx(2) assms(5) by (force simp: unlocked_def)
  then have "alt_file_locked i ?u = Some (0, ?v)"
    unfolding alt_file_locked_def Let_def using mx(1) by (simp only: if_False)
  moreover have "dev_open (dev_of ?v (fd_dev (fd_at ?v i))) = None" using v(1) i assms(4) by simp
  ultimately have o: "open_status i n fl m False ?u = Some (0, ?v)" by (simp add: open_status_def)
  have "fd_wf ?v" using i by (intro wf_set_fd) auto
  then show ?thesis
    using assms(2,3) g i(1-4) o v i(5-11)
    by (intro exI [of _ i] exI [of _ ?v]) (simp add: alt_open_def Let_def)
qed

lemma redirect_one:
  assumes "fd_wf s" "alt_find_dev n alt_dev_list s = Some d" "d \<noteq> 0" "dev_open (dev_of s d) = None"
    and "unlocked s d" "i0 < ALT_MAX_FD" "\<not> used s i0" "k < 3"
  shows "\<exists>s'. alt_open_fd k n fl m s = Some s' \<and> fd_wf s' \<and> fd_dev (fd_at s' k) = d \<and>
    fd_flags (fd_at s' k) = (fl AND NOT ALT_FD_FLAGS_MASK) OR ALT_FD_DEV \<and>
    (\<forall>j < ALT_MAX_FD. j \<noteq> k \<longrightarrow> (used s' j \<longleftrightarrow> used s j) \<and> (used s j \<longrightarrow> fd_at s' j = fd_at s j)) \<and>
    unlocked s' d \<and> dev_heap s' = dev_heap s \<and> dev_of s' = dev_of s \<and> driver s' = driver s"
proof -
  obtain i t where o: "alt_open n fl m s = Some (int i, t)" and i: "3 \<le> i" "i < ALT_MAX_FD" "\<not> used s i"
    "fd_wf t" "fd_dev (fd_at t i) = d" "fd_flags (fd_at t i) = (fl AND NOT ALT_FD_FLAGS_MASK) OR ALT_FD_DEV"
    "\<forall>j. j \<noteq> i \<longrightarrow> fd_at t j = fd_at s j" "dev_heap t = dev_heap s" "dev_of t = dev_of s" "driver t = driver s"
    using open_device [OF assms(1-7), of fl m] by blast
  let ?s = "alt_release_fd (int i) (set_fd k (fd_at t i) t)"
  have s: "alt_open_fd k n fl m s = Some ?s" using o by (simp add: alt_open_fd_def)
  have k: "k < ALT_MAX_FD" "k \<noteq> i" using assms(8) i(1) by (simp_all add: ALT_MAX_FD_def)
  have at: "fd_at ?s j = (if j = i then (fd_at t i)\<lparr>fd_flags := 0, fd_dev := 0\<rparr>
      else if j = k then fd_at t i else fd_at s j)" if "j < ALT_MAX_FD" for j
    using that i k by (auto simp: alt_release_fd_def)
  have e: "((fl AND NOT ALT_FD_FLAGS_MASK) OR ALT_FD_DEV) AND ALT_FD_EXCL = 0"
  proof -
    have "NOT ALT_FD_FLAGS_MASK AND ALT_FD_EXCL = 0" "ALT_FD_DEV AND ALT_FD_EXCL = 0"
      by (simp_all add: hal_defs)
    then show ?thesis by (simp add: bit.conj_disj_distrib2 and.assoc)
  qed
  have "unlocked ?s d"
    using assms(3,5) i(5,6) e at by (simp add: unlocked_def)
  moreover have "fd_wf ?s" using wf_open_fd [OF assms(1,8) s] .
  moreover have "dev_heap ?s = dev_heap s" "dev_of ?s = dev_of s" "driver ?s = driver s"
    using i by (simp_all add: alt_release_fd_def)
  ultimately show ?thesis
    using s at k i(3,5,6) by (intro exI [of _ ?s]) auto
qed

lemma redirect_all:
  assumes "fd_wf s" "alt_find_dev n alt_dev_list s = Some d" "d \<noteq> 0" "dev_open (dev_of s d) = None"
    and "unlocked s d" "i0 < ALT_MAX_FD" "\<not> used s i0"
  shows "\<exists>s'. alt_io_redirect n n n s = Some s' \<and> (\<forall>k < 3. fd_dev (fd_at s' k) = d) \<and>
    fd_flags (fd_at s' 0) = O_RDONLY OR ALT_FD_DEV \<and> fd_flags (fd_at s' 1) = O_WRONLY OR ALT_FD_DEV \<and>
    fd_flags (fd_at s' 2) = O_WRONLY OR ALT_FD_DEV \<and>
    (\<forall>j < ALT_MAX_FD. 3 \<le> j \<longrightarrow> (used s' j \<longleftrightarrow> used s j)) \<and>
    fd_wf s' \<and> dev_heap s' = dev_heap s \<and> dev_of s' = dev_of s \<and> driver s' = driver s"
proof -
  have M: "3 < ALT_MAX_FD" by (simp add: ALT_MAX_FD_def)
  have i0: "\<not> i0 < 3" using assms(1,7) by (auto simp: fd_wf_def)
  note frame = find_frame [THEN conjunct1, of _ _ n alt_dev_list]
  obtain s1 where 1: "alt_open_fd 1 n O_WRONLY 511 s = Some s1" "fd_wf s1" "fd_dev (fd_at s1 1) = d"
    "fd_flags (fd_at s1 1) = (O_WRONLY AND NOT ALT_FD_FLAGS_MASK) OR ALT_FD_DEV" "unlocked s1 d"
    "dev_heap s1 = dev_heap s" "dev_of s1 = dev_of s" "driver s1 = driver s"
    "\<And>j. j < ALT_MAX_FD \<Longrightarrow> j \<noteq> 1 \<Longrightarrow> (used s1 j \<longleftrightarrow> used s j) \<and> (used s j \<longrightarrow> fd_at s1 j = fd_at s j)"
    using redirect_one [OF assms, of 1 O_WRONLY 511] by auto
  have "alt_find_dev n alt_dev_list s1 = Some d" "dev_open (dev_of s1 d) = None" "\<not> used s1 i0"
    using frame [OF 1(6,7)] assms i0 1(7,9) by auto
  from redirect_one [OF 1(2) this(1) assms(3) this(2) 1(5) assms(6) this(3), of 0 O_RDONLY 511]
  obtain s2 where 2: "alt_open_fd 0 n O_RDONLY 511 s1 = Some s2" "fd_wf s2" "fd_dev (fd_at s2 0) = d"
    "fd_flags (fd_at s2 0) = (O_RDONLY AND NOT ALT_FD_FLAGS_MASK) OR ALT_FD_DEV" "unlocked s2 d"
    "dev_heap s2 = dev_heap s1" "dev_of s2 = dev_of s1" "driver s2 = driver s1"
    "\<And>j. j < ALT_MAX_FD \<Longrightarrow> j \<noteq> 0 \<Longrightarrow> (used s2 j \<longleftrightarrow> used s1 j) \<and> (used s1 j \<longrightarrow> fd_at s2 j = fd_at s1 j)"
    by auto
  have "alt_find_dev n alt_dev_list s2 = Some d" "dev_open (dev_of s2 d) = None" "\<not> used s2 i0"
    using frame [of s2 s] assms i0 1(6,7,9) 2(6,7,9) by auto
  from redirect_one [OF 2(2) this(1) assms(3) this(2) 2(5) assms(6) this(3), of 2 O_WRONLY 511]
  obtain s3 where 3: "alt_open_fd 2 n O_WRONLY 511 s2 = Some s3" "fd_dev (fd_at s3 2) = d"
    "fd_wf s3 \<and> dev_heap s3 = dev_heap s2 \<and> dev_of s3 = dev_of s2 \<and> driver s3 = driver s2"
    "fd_flags (fd_at s3 2) = (O_WRONLY AND NOT ALT_FD_FLAGS_MASK) OR ALT_FD_DEV"
    "\<And>j. j < ALT_MAX_FD \<Longrightarrow> j \<noteq> 2 \<Longrightarrow> (used s3 j \<longleftrightarrow> used s2 j) \<and> (used s2 j \<longrightarrow> fd_at s3 j = fd_at s2 j)"
    by auto
  have f1: "fd_at s3 1 = fd_at s1 1" using 1(3) 2(9) [of 1] 3(5) [of 1] assms(3) M by simp
  have f0: "fd_at s3 0 = fd_at s2 0" using 2(3) 3(5) [of 0] assms(3) M by simp
  have w: "O_WRONLY AND NOT ALT_FD_FLAGS_MASK = O_WRONLY" "O_RDONLY AND NOT ALT_FD_FLAGS_MASK = O_RDONLY"
    by (simp_all add: hal_defs)
  have "fd_dev (fd_at s3 k) = d" if "k < 3" for k
    using that f0 f1 1(3) 2(3) 3(2) by (auto simp: numeral_3_eq_3 less_Suc_eq numeral_2_eq_2)
  moreover have "used s3 j \<longleftrightarrow> used s j" if "j < ALT_MAX_FD" "3 \<le> j" for j
    using that 1(9) [of j] 2(9) [of j] 3(5) [of j] by simp
  ultimately show ?thesis
    using 1(1,4,6-8) 2(1,4,6-8) 3(1,3,4) f0 f1 w by (simp add: alt_io_redirect_def)
qed

text \<open>At startup, alt_io_redirect attaches stdin, stdout and stderr to the named device,
  stdin for reading and the other two for writing, and gives back the descriptors it opened on
  the way: every other descriptor is in use after it exactly if it was before.\<close>
theorem io_redirect_streams:
  assumes "fd_wf s" "alt_find_dev n alt_dev_list s = Some d" "d \<noteq> 0" "dev_open (dev_of s d) = None"
    and "unlocked s d" "i0 < ALT_MAX_FD" "\<not> used s i0"
  shows "\<exists>s'. alt_io_redirect n n n s = Some s' \<and> (\<forall>k < 3. fd_dev (fd_at s' k) = d) \<and>
    fd_flags (fd_at s' 0) = O_RDONLY OR ALT_FD_DEV \<and> fd_flags (fd_at s' 1) = O_WRONLY OR ALT_FD_DEV \<and>
    fd_flags (fd_at s' 2) = O_WRONLY OR ALT_FD_DEV \<and>
    (\<forall>j < ALT_MAX_FD. 3 \<le> j \<longrightarrow> (used s' j \<longleftrightarrow> used s j))"
  using redirect_all [OF assms] by blast

theorem io_redirect_streams_witness:
  "\<exists>s'. alt_io_redirect ''/dev/uart'' ''/dev/uart'' ''/dev/uart'' two_open = Some s' \<and>
     fd_dev (fd_at s' 0) = 9 \<and> fd_flags (fd_at s' 1) = O_WRONLY OR ALT_FD_DEV"
proof -
  have "fd_flags null_fd AND ALT_FD_EXCL = 0" "fd_flags uart_fd AND ALT_FD_EXCL = 0" "fd_flags no_fd AND ALT_FD_EXCL = 0"
    by (simp_all add: null_fd_def uart_fd_def no_fd_def hal_defs)
  then have "unlocked two_open 9" by (simp add: unlocked_def two_open_fds)
  moreover have "7 < ALT_MAX_FD" by (simp add: ALT_MAX_FD_def)
  ultimately show ?thesis
    using io_redirect_streams [OF two_open_wf two_open_find, of 7] two_open_used [of 7]
    by (auto simp: uart_dev_def)
qed

end
