(* ===== verification/Hal_Proc.thy ===== *)
theory Hal_Proc
  imports Hal_Fd_Props
begin

text \<open>
  The remaining calls of the HAL's system interface: processes and signals (alt_fork.c,
  alt_execve.c, alt_getpid.c, alt_wait.c, alt_kill.c), the file calls without an implementation
  (alt_link.c, alt_unlink.c, alt_rename.c), alt_stat.c as the composition of open, fstat and
  close, the C++ constructors and destructors (alt_do_ctors.c, alt_do_dtors.c), and the named
  lists of DMA channels and flash devices (sys/alt_dma_dev.h, sys/alt_dma.h, sys/alt_flash_dev.h,
  sys/alt_flash.h and the functions that open them). The drivers' functions are parameters.
\<close>

section \<open>Calls without an implementation\<close>

definition alt_fork :: "'w hal \<Rightarrow> int \<times> 'w hal" where "alt_fork s = fail ENOSYS s"
definition alt_link :: "string \<Rightarrow> string \<Rightarrow> 'w hal \<Rightarrow> int \<times> 'w hal" where "alt_link a b s = fail ENOSYS s"
definition alt_unlink :: "string \<Rightarrow> 'w hal \<Rightarrow> int \<times> 'w hal" where "alt_unlink a s = fail ENOSYS s"
definition alt_rename :: "string \<Rightarrow> string \<Rightarrow> 'w hal \<Rightarrow> int \<times> 'w hal" where "alt_rename a b s = fail ENOSYS s"
definition alt_execve :: "string \<Rightarrow> string list \<Rightarrow> string list \<Rightarrow> 'w hal \<Rightarrow> int \<times> 'w hal" where
  "alt_execve f args env s = fail ENOSYS s"

section \<open>The one process\<close>

definition alt_getpid :: int where "alt_getpid = 0"

text \<open>The second component is the status stored.\<close>

definition alt_wait :: "'w hal \<Rightarrow> int \<times> int \<times> 'w hal" where
  "alt_wait s = (-1, 0, s\<lparr>alt_errno := ECHILD\<rparr>)"

text \<open>The signals by their names in the C library; any other number is \<open>OtherSig\<close>.\<close>

datatype signal = NoSig | SIGABRT | SIGALRM | SIGFPE | SIGILL | SIGKILL | SIGPIPE | SIGQUIT
  | SIGSEGV | SIGTERM | SIGUSR1 | SIGUSR2 | SIGBUS | SIGPOLL | SIGPROF | SIGSYS | SIGTRAP
  | SIGVTALRM | SIGXCPU | SIGXFSZ | SIGCHLD | SIGURG | OtherSig

datatype 'a outcome = Returns 'a | Exits int

definition alt_kill :: "int \<Rightarrow> signal \<Rightarrow> 'w hal \<Rightarrow> (int \<times> 'w hal) outcome" where
  "alt_kill pid sig s =
     (if pid \<le> 0 then
        (case sig of NoSig \<Rightarrow> Returns (0, s)
         | SIGCHLD \<Rightarrow> Returns (0, s)
         | SIGURG \<Rightarrow> Returns (0, s)
         | OtherSig \<Rightarrow> Returns (fail EINVAL s)
         | _ \<Rightarrow> Exits 0)
      else Returns (fail ESRCH s))"

section \<open>Stat\<close>

text \<open>\<open>mode\<close> is the third argument of open, which this call leaves out.\<close>

definition alt_stat :: "u32 \<Rightarrow> string \<Rightarrow> u32 \<Rightarrow> 'w hal \<Rightarrow> (int \<times> u32 \<times> 'w hal) option" where
  "alt_stat mode file st s =
     Option.bind (alt_open file 0 mode s) (\<lambda>(fd, s).
     Option.bind (alt_fstat fd st s) (\<lambda>(rc, m, s).
     map_option (\<lambda>(_, s). (rc, m, s)) (alt_close fd s)))"

section \<open>Constructors and destructors\<close>

text \<open>The loops run from the last entry of the table to the first.\<close>

fun ctor_loop :: "nat \<Rightarrow> ('s \<Rightarrow> 's) list \<Rightarrow> 's \<Rightarrow> 's" where
  "ctor_loop 0 fs s = s"
| "ctor_loop (Suc i) fs s = ctor_loop i fs ((fs ! i) s)"

definition do_ctors :: "('s \<Rightarrow> 's) list \<Rightarrow> 's \<Rightarrow> 's" where "do_ctors fs s = ctor_loop (length fs) fs s"
definition do_dtors :: "('s \<Rightarrow> 's) list \<Rightarrow> 's \<Rightarrow> 's" where "do_dtors fs s = ctor_loop (length fs) fs s"

lemma ctor_loop_rev: "i \<le> length fs \<Longrightarrow> ctor_loop i fs s = fold (\<lambda>f. f) (rev (take i fs)) s"
  by (induction i arbitrary: s) (simp_all add: take_Suc_conv_app_nth)

lemma do_ctors_rev: "do_ctors fs s = fold (\<lambda>f. f) (rev fs) s" "do_dtors fs s = fold (\<lambda>f. f) (rev fs) s"
  by (simp_all add: do_ctors_def do_dtors_def ctor_loop_rev)

section \<open>DMA channels\<close>

text \<open>The drivers' functions of a channel; its name is in the device list's record.\<close>

record 'w alt_dma_txchan_dev =
  tx_space :: "'w \<Rightarrow> int \<times> 'w"
  dma_send :: "ptr \<Rightarrow> u32 \<Rightarrow> ptr \<Rightarrow> ptr \<Rightarrow> 'w \<Rightarrow> int \<times> 'w"
  tx_ioctl :: "u32 \<Rightarrow> ptr \<Rightarrow> 'w \<Rightarrow> int \<times> 'w"

record 'w alt_dma_rxchan_dev =
  rx_depth :: u32
  rx_prepare :: "ptr \<Rightarrow> u32 \<Rightarrow> ptr \<Rightarrow> ptr \<Rightarrow> 'w \<Rightarrow> int \<times> 'w"
  rx_ioctl :: "u32 \<Rightarrow> ptr \<Rightarrow> 'w \<Rightarrow> int \<times> 'w"

definition alt_dma_txchan_list :: ptr where "alt_dma_txchan_list = 5"
definition alt_dma_rxchan_list :: ptr where "alt_dma_rxchan_list = 6"

definition alt_dma_txchan_reg :: "ptr \<Rightarrow> 'w hal \<Rightarrow> int \<times> 'w hal" where
  "alt_dma_txchan_reg dev s = alt_dev_llist_insert dev alt_dma_txchan_list s"

definition alt_dma_rxchan_reg :: "ptr \<Rightarrow> 'w hal \<Rightarrow> int \<times> 'w hal" where
  "alt_dma_rxchan_reg dev s = alt_dev_llist_insert dev alt_dma_rxchan_list s"

definition alt_dma_txchan_open :: "string \<Rightarrow> 'w hal \<Rightarrow> (ptr \<times> 'w hal) option" where
  "alt_dma_txchan_open name s =
     map_option (\<lambda>d. (d, if d = 0 then s\<lparr>alt_errno := ENODEV\<rparr> else s))
       (alt_find_dev name alt_dma_txchan_list s)"

definition alt_dma_rxchan_open :: "string \<Rightarrow> 'w hal \<Rightarrow> (ptr \<times> 'w hal) option" where
  "alt_dma_rxchan_open name s =
     map_option (\<lambda>d. (d, if d = 0 then s\<lparr>alt_errno := ENODEV\<rparr> else s))
       (alt_find_dev name alt_dma_rxchan_list s)"

definition alt_dma_txchan_close :: "ptr \<Rightarrow> int" where "alt_dma_txchan_close dma = 0"
definition alt_dma_rxchan_close :: "ptr \<Rightarrow> int" where "alt_dma_rxchan_close dma = 0"

text \<open>\<open>ch\<close> gives the channel record at an address.\<close>

definition alt_dma_txchan_send ::
  "(ptr \<Rightarrow> 'w alt_dma_txchan_dev) \<Rightarrow> ptr \<Rightarrow> ptr \<Rightarrow> u32 \<Rightarrow> ptr \<Rightarrow> ptr \<Rightarrow> 'w \<Rightarrow> int \<times> 'w" where
  "alt_dma_txchan_send ch dma src len fin handle w =
     (if dma \<noteq> 0 then dma_send (ch dma) src len fin handle w else (- ENODEV, w))"

definition alt_dma_txchan_space :: "(ptr \<Rightarrow> 'w alt_dma_txchan_dev) \<Rightarrow> ptr \<Rightarrow> 'w \<Rightarrow> int \<times> 'w" where
  "alt_dma_txchan_space ch dma w = (if dma \<noteq> 0 then tx_space (ch dma) w else (- ENODEV, w))"

definition alt_dma_txchan_ioctl :: "(ptr \<Rightarrow> 'w alt_dma_txchan_dev) \<Rightarrow> ptr \<Rightarrow> u32 \<Rightarrow> ptr \<Rightarrow> 'w \<Rightarrow> int \<times> 'w" where
  "alt_dma_txchan_ioctl ch dma req arg w = (if dma \<noteq> 0 then tx_ioctl (ch dma) req arg w else (- ENODEV, w))"

definition alt_dma_rxchan_prepare ::
  "(ptr \<Rightarrow> 'w alt_dma_rxchan_dev) \<Rightarrow> ptr \<Rightarrow> ptr \<Rightarrow> u32 \<Rightarrow> ptr \<Rightarrow> ptr \<Rightarrow> 'w \<Rightarrow> int \<times> 'w" where
  "alt_dma_rxchan_prepare ch dma data len fin handle w =
     (if dma \<noteq> 0 then rx_prepare (ch dma) data len fin handle w else (- ENODEV, w))"

definition alt_dma_rxchan_ioctl :: "(ptr \<Rightarrow> 'w alt_dma_rxchan_dev) \<Rightarrow> ptr \<Rightarrow> u32 \<Rightarrow> ptr \<Rightarrow> 'w \<Rightarrow> int \<times> 'w" where
  "alt_dma_rxchan_ioctl ch dma req arg w = (if dma \<noteq> 0 then rx_ioctl (ch dma) req arg w else (- ENODEV, w))"

text \<open>The depth is read through the pointer without a test.\<close>

definition alt_dma_rxchan_depth :: "(ptr \<Rightarrow> 'w alt_dma_rxchan_dev) \<Rightarrow> ptr \<Rightarrow> u32 option" where
  "alt_dma_rxchan_depth ch dma = (if dma = 0 then None else Some (rx_depth (ch dma)))"

section \<open>Flash devices\<close>

record 'w alt_flash_dev =
  fl_open :: "(ptr \<Rightarrow> string \<Rightarrow> 'w \<Rightarrow> ptr \<times> 'w) option"
  fl_close :: "(ptr \<Rightarrow> 'w \<Rightarrow> int \<times> 'w) option"
  fl_write :: "ptr \<Rightarrow> int \<Rightarrow> ptr \<Rightarrow> int \<Rightarrow> 'w \<Rightarrow> int \<times> 'w"
  fl_read :: "ptr \<Rightarrow> int \<Rightarrow> ptr \<Rightarrow> int \<Rightarrow> 'w \<Rightarrow> int \<times> 'w"
  fl_get_info :: "ptr \<Rightarrow> int \<times> ptr \<times> int"
  fl_erase_block :: "ptr \<Rightarrow> int \<Rightarrow> 'w \<Rightarrow> int \<times> 'w"
  fl_write_block :: "ptr \<Rightarrow> int \<Rightarrow> int \<Rightarrow> ptr \<Rightarrow> int \<Rightarrow> 'w \<Rightarrow> int \<times> 'w"
  fl_lock :: "ptr \<Rightarrow> u32 \<Rightarrow> 'w \<Rightarrow> int \<times> 'w"

definition alt_flash_dev_list :: ptr where "alt_flash_dev_list = 7"

definition alt_flash_device_register :: "ptr \<Rightarrow> 'w hal \<Rightarrow> int \<times> 'w hal" where
  "alt_flash_device_register fd s = alt_dev_llist_insert fd alt_flash_dev_list s"

definition alt_flash_open_dev :: "(ptr \<Rightarrow> 'w alt_flash_dev) \<Rightarrow> string \<Rightarrow> 'w hal \<Rightarrow> (ptr \<times> 'w hal) option" where
  "alt_flash_open_dev fl name s =
     map_option (\<lambda>dev. if dev \<noteq> 0 then
           (case fl_open (fl dev) of
              Some f \<Rightarrow> let (p, w) = f dev name (driver s) in (p, s\<lparr>driver := w\<rparr>)
            | None \<Rightarrow> (dev, s))
         else (dev, s))
       (alt_find_dev name alt_flash_dev_list s)"

definition alt_flash_close_dev :: "(ptr \<Rightarrow> 'w alt_flash_dev) \<Rightarrow> ptr \<Rightarrow> 'w \<Rightarrow> 'w" where
  "alt_flash_close_dev fl fd w =
     (if fd \<noteq> 0 then (case fl_close (fl fd) of Some f \<Rightarrow> snd (f fd w) | None \<Rightarrow> w) else w)"

definition alt_write_flash :: "(ptr \<Rightarrow> 'w alt_flash_dev) \<Rightarrow> ptr \<Rightarrow> int \<Rightarrow> ptr \<Rightarrow> int \<Rightarrow> 'w \<Rightarrow> int \<times> 'w" where
  "alt_write_flash fl fd off src n w = fl_write (fl fd) fd off src n w"

definition alt_read_flash :: "(ptr \<Rightarrow> 'w alt_flash_dev) \<Rightarrow> ptr \<Rightarrow> int \<Rightarrow> ptr \<Rightarrow> int \<Rightarrow> 'w \<Rightarrow> int \<times> 'w" where
  "alt_read_flash fl fd off dest n w = fl_read (fl fd) fd off dest n w"

text \<open>The result, the address of the table of regions and their number.\<close>

definition alt_get_flash_info :: "(ptr \<Rightarrow> 'w alt_flash_dev) \<Rightarrow> ptr \<Rightarrow> int \<times> ptr \<times> int" where
  "alt_get_flash_info fl fd = fl_get_info (fl fd) fd"

definition alt_lock_flash :: "(ptr \<Rightarrow> 'w alt_flash_dev) \<Rightarrow> ptr \<Rightarrow> u32 \<Rightarrow> 'w \<Rightarrow> int \<times> 'w" where
  "alt_lock_flash fl fd sectors w = fl_lock (fl fd) fd sectors w"

definition alt_erase_flash_block :: "(ptr \<Rightarrow> 'w alt_flash_dev) \<Rightarrow> ptr \<Rightarrow> int \<Rightarrow> int \<Rightarrow> 'w \<Rightarrow> int \<times> 'w" where
  "alt_erase_flash_block fl fd off n w = fl_erase_block (fl fd) fd off w"

definition alt_write_flash_block ::
  "(ptr \<Rightarrow> 'w alt_flash_dev) \<Rightarrow> ptr \<Rightarrow> int \<Rightarrow> int \<Rightarrow> ptr \<Rightarrow> int \<Rightarrow> 'w \<Rightarrow> int \<times> 'w" where
  "alt_write_flash_block fl fd block off data n w = fl_write_block (fl fd) fd block off data n w"

section \<open>Lemmas\<close>

text \<open>Kill ends the program exactly for the terminating signals sent to itself.\<close>

lemma kill_exits: "(\<exists>c. alt_kill pid sig s = Exits c) \<longleftrightarrow>
    pid \<le> 0 \<and> sig \<notin> {NoSig, SIGCHLD, SIGURG, OtherSig}"
  by (cases sig) (auto simp: alt_kill_def)

lemma kill_returns: "alt_kill pid sig s = Returns (r, s') \<Longrightarrow> (r = 0 \<and> s' = s) \<or>
    (r = -1 \<and> s' = s\<lparr>alt_errno := (if pid > 0 then ESRCH else EINVAL)\<rparr>)"
  by (cases sig) (auto simp: alt_kill_def fail_def split: if_splits)

lemma registered:
  assumes "ring (dev_heap s) list xs" "names_ok s xs" "dev \<noteq> 0" "dev \<notin> set (list # xs)"
    and "dev_name (dev_of s dev) = Some n" "NUL \<notin> set n"
  shows "\<exists>s'. alt_dev_llist_insert dev list s = (0, s') \<and> ring (dev_heap s') list (dev # xs) \<and>
    names_ok s' (dev # xs) \<and> dev_of s' = dev_of s \<and> alt_fd_list s' = alt_fd_list s \<and> driver s' = driver s"
  using assms llist.inserted [OF assms(1,4)]
  by (simp add: alt_dev_llist_insert_def names_ok_def)

section \<open>Stat leaves the table as it was\<close>

text \<open>What close does to an open descriptor above the standard streams.\<close>

lemma close_open_fd:
  assumes "fd_wf s" "3 \<le> i" "i < ALT_MAX_FD" "used s i" "alt_close (int i) s = Some (r, s')"
  shows "fd_wf s' \<and> \<not> used s' i \<and> (\<forall>j. j \<noteq> i \<longrightarrow> fd_at s' j = fd_at s j)"
proof -
  let ?c = "case dev_close (dev_of s (fd_dev (fd_at s i))) of None \<Rightarrow> Some (0, s)
    | Some f \<Rightarrow> driver_call (f (fd_at s i) (driver s)) s"
  have "map_option (\<lambda>(rval, s). let s = alt_release_fd (int i) s in
      if rval < 0 then fail (- rval) s else (0, s)) ?c = Some (r, s')"
    using assms(3-5) unfolding alt_close_def on_fd_def the_dev_def nat_int by simp
  then obtain v t where t: "?c = Some (v, t)" and s': "alt_fd_list s' = alt_fd_list (alt_release_fd (int i) t)"
    by (auto simp: fail_def Let_def split: if_splits)
  have "alt_fd_list t = alt_fd_list s"
    using t driver_call_frame(1) by (cases "dev_close (dev_of s (fd_dev (fd_at s i)))") auto
  then show ?thesis
    using wf_close [OF assms(1,5)] s' assms(1-3) by (simp add: alt_release_fd_def set_fd_def)
qed

lemma fstat_frame:
  assumes "alt_fstat file st s = Some (r, m, s')"
  shows "alt_fd_list s' = alt_fd_list s \<and> alt_max_fd s' = alt_max_fd s"
  using assms by (auto simp: alt_fstat_def call_defs split: if_splits option.splits prod.splits)

text \<open>C37. stat leaves every descriptor that was in use as it was and leaks none: the table has the
  same descriptors in use after it. When the open inside it fails, the result is -1 with the
  caller's buffer untouched, but the errno is always EBADFD, since the fstat and close that follow
  on the descriptor -1 overwrite the one open had set.\<close>
theorem stat_leaves_table:
  assumes "fd_wf s" "alt_stat mode file st s = Some (rc, m, s')"
  shows "fd_wf s' \<and> (\<forall>j < ALT_MAX_FD. (used s' j \<longleftrightarrow> used s j) \<and> (used s j \<longrightarrow> fd_at s' j = fd_at s j)) \<and>
    (\<forall>t. alt_open file 0 mode s = Some (-1, t) \<longrightarrow> rc = -1 \<and> m = st \<and> alt_errno s' = EBADFD)"
proof -
  obtain fd s1 rc2 s2 where o: "alt_open file 0 mode s = Some (fd, s1)"
    and f: "alt_fstat fd st s1 = Some (rc, m, s2)" and c: "alt_close fd s2 = Some (rc2, s')"
    using assms(2) by (auto simp: alt_stat_def bind_eq_Some_conv)
  note O = open_outcome [OF assms(1) o]
  have w2: "fd_wf s2" using wf_fstat [OF _ f] O by blast
  note F = fstat_frame [OF f]
  show ?thesis
  proof (cases "fd = -1")
    case True
    then have "rc = -1" "m = st" "s' = s1\<lparr>alt_errno := EBADFD\<rparr>"
      using f c by (auto simp: alt_fstat_def alt_close_def on_fd_def fail_def)
    then show ?thesis using O True o by (auto simp: open_ok_def)
  next
    case False
    then obtain i where i: "fd = int i" "3 \<le> i" "i < ALT_MAX_FD" "\<not> used s i" "used s1 i"
      and s1: "\<forall>j. j \<noteq> i \<longrightarrow> fd_at s1 j = fd_at s j" using O by (auto simp: open_ok_def)
    have "used s2 i" using i(5) F by simp
    from close_open_fd [OF w2 i(2,3) this] c i(1)
    have C: "fd_wf s'" "\<not> used s' i" "\<forall>j. j \<noteq> i \<longrightarrow> fd_at s' j = fd_at s2 j" by auto
    have "fd_at s' j = fd_at s j" if "j \<noteq> i" for j using that C(3) F s1 by simp
    then have "\<forall>j < ALT_MAX_FD. (used s' j \<longleftrightarrow> used s j) \<and> (used s j \<longrightarrow> fd_at s' j = fd_at s j)"
      using C(2) i(4) by metis
    then show ?thesis using C(1) o False by simp
  qed
qed

lemma two_open_files: "ring (dev_heap two_open) alt_fs_list []"
  by (simp add: two_open_def alt_dev_reg_def alt_dev_llist_insert_def uart_dev_def hal_init_def
      initial_heap_def ring_def alt_llist_insert_def Let_def hal_defs)

theorem stat_leaves_table_witness:
  "\<exists>s'. alt_stat 0 ''/dev/none'' 7 two_open = Some (-1, 7, s') \<and> fd_wf s' \<and> alt_errno s' = EBADFD \<and>
     (\<forall>j < ALT_MAX_FD. used s' j \<longleftrightarrow> used two_open j)"
proof -
  have "alt_find_dev ''/dev/none'' alt_dev_list two_open = Some 0"
    using find_dev_list [OF two_open_state(5) two_open_names, of "''/dev/none''"]
    by (simp add: uart_dev_def alt_dev_null_def)
  moreover have "alt_find_file ''/dev/none'' two_open = Some 0"
    using find_loop_ring [OF two_open_files, of "file_match ''/dev/none''"] by (simp add: alt_find_file_def)
  ultimately have o: "alt_open ''/dev/none'' 0 0 two_open = Some (-1, two_open\<lparr>alt_errno := ENODEV\<rparr>)"
    by (simp add: alt_open_def fail_def)
  then obtain s' where s: "alt_stat 0 ''/dev/none'' 7 two_open = Some (-1, 7, s')"
    by (simp add: alt_stat_def alt_fstat_def alt_close_def on_fd_def fail_def)
  from stat_leaves_table [OF two_open_wf s] o s show ?thesis by blast
qed

section \<open>Channels by name\<close>

text \<open>A registered transmit channel is the one opened by its name, also when an older channel
  has the same name; a name nobody registered opens as NULL with errno ENODEV, and every operation
  on that result but the depth, which has no test, returns -ENODEV and leaves the world as it is.\<close>
theorem dma_open_by_name:
  assumes "ring (dev_heap s) alt_dma_txchan_list xs" "names_ok s xs" "dev \<noteq> 0"
    and "dev \<notin> set (alt_dma_txchan_list # xs)" "dev_name (dev_of s dev) = Some n" "NUL \<notin> set n" "NUL \<notin> set k"
    and "\<forall>e \<in> set (dev # xs). dev_name (dev_of s e) \<noteq> Some k"
  shows "\<exists>s'. alt_dma_txchan_reg dev s = (0, s') \<and> alt_dma_txchan_open n s' = Some (dev, s') \<and>
    alt_dma_txchan_open k s' = Some (0, s'\<lparr>alt_errno := ENODEV\<rparr>) \<and>
    alt_dma_txchan_send tx 0 src len fin h w = (- ENODEV, w) \<and> alt_dma_txchan_space tx 0 w = (- ENODEV, w) \<and>
    alt_dma_txchan_ioctl tx 0 req arg w = (- ENODEV, w)"
proof -
  obtain s' where s': "alt_dma_txchan_reg dev s = (0, s')" "ring (dev_heap s') alt_dma_txchan_list (dev # xs)"
    "names_ok s' (dev # xs)" "dev_of s' = dev_of s"
    using registered [OF assms(1-6)] assms(3) by (auto simp: alt_dma_txchan_reg_def)
  have "alt_find_dev n alt_dma_txchan_list s' = Some dev"
    using find_dev_list [OF s'(2,3) assms(6)] assms(5) s'(4) by simp
  moreover have "filter (\<lambda>e. dev_name (dev_of s' e) = Some k) (dev # xs) = []"
    using assms(8) s'(4) by (simp add: filter_empty_conv)
  then have "alt_find_dev k alt_dma_txchan_list s' = Some 0"
    using find_dev_list [OF s'(2,3) assms(7)] by simp
  ultimately show ?thesis
    using s'(1) assms(3)
    by (simp add: alt_dma_txchan_open_def alt_dma_txchan_send_def alt_dma_txchan_space_def alt_dma_txchan_ioctl_def)
qed

definition dma_board :: "nat hal" where
  "dma_board = hal_init (\<lambda>a. uart_dev\<lparr>dev_name := Some ''/dev/dma''\<rparr>) 0"

theorem dma_open_by_name_witness:
  "\<exists>s'. alt_dma_txchan_reg 9 dma_board = (0, s') \<and> alt_dma_txchan_open ''/dev/dma'' s' = Some (9, s') \<and>
     alt_dma_txchan_open ''/dev/none'' s' = Some (0, s'\<lparr>alt_errno := ENODEV\<rparr>)"
proof -
  have "ring (dev_heap dma_board) alt_dma_txchan_list []"
    by (simp add: dma_board_def hal_init_def initial_heap_def ring_def alt_dma_txchan_list_def
        alt_dev_list_def alt_fs_list_def alt_dev_null_addr_def)
  moreover have "names_ok dma_board []" by (simp add: names_ok_def)
  moreover have "dev_name (dev_of dma_board 9) = Some ''/dev/dma''"
    by (simp add: dma_board_def hal_init_def alt_dev_null_addr_def)
  ultimately show ?thesis
    using dma_open_by_name [of dma_board "[]" 9 "''/dev/dma''" "''/dev/none''"]
    by (simp add: alt_dma_txchan_list_def) metis
qed

end
