(* ===== verification/Hal_Irq.thy ===== *)
theory Hal_Irq
  imports Hal_Llist Hal_Errno
begin

text \<open>
  Interrupts (sys/alt_irq.h, priv/alt_legacy_irq.h, alt_irq_vars.c, alt_irq_register.c,
  alt_iic_isr_register.c, alt_iic.c, alt_irq_handler.c, altera_nios2_gen2_irq.c) and the
  exception causes (alt_instruction_exception_entry.c). The control registers of the processor
  are part of the state; the devices are a state of any type, with a function \<open>lines\<close> for the
  interrupt requests they raise, and the service routines are the parameter \<open>isr\<close>, which runs
  the code at an address with its context, and gives \<open>None\<close> when that does not return.
\<close>

section \<open>State\<close>

record 'w irqs =
  status :: u32
  ienable :: u32
  alt_irq_active :: u32
  alt_priority_mask :: u32
  alt_irq :: "(ptr \<times> ptr) list"
  devices :: 'w

definition ALT_NIRQ :: u32 where [hal_defs]: "ALT_NIRQ = 32"
definition NIOS2_STATUS_PIE_MSK :: u32 where [hal_defs]: "NIOS2_STATUS_PIE_MSK = 0x00000001"

definition irqs_init :: "'w \<Rightarrow> 'w irqs" where
  "irqs_init w = \<lparr>status = 0, ienable = 0, alt_irq_active = 0, alt_priority_mask = -1,
     alt_irq = replicate 32 (0, 0), devices = w\<rparr>"

section \<open>The status register (sys/alt_irq.h)\<close>

definition alt_irq_enabled :: "'w irqs \<Rightarrow> u32" where
  "alt_irq_enabled s = status s AND NIOS2_STATUS_PIE_MSK"

definition alt_irq_disable_all :: "'w irqs \<Rightarrow> u32 \<times> 'w irqs" where
  "alt_irq_disable_all s = (status s, s\<lparr>status := status s AND NOT NIOS2_STATUS_PIE_MSK\<rparr>)"

definition alt_irq_enable_all :: "u32 \<Rightarrow> 'w irqs \<Rightarrow> 'w irqs" where
  "alt_irq_enable_all ctx s = s\<lparr>status := ctx\<rparr>"

definition alt_irq_cpu_enable_interrupts :: "'w irqs \<Rightarrow> 'w irqs" where
  "alt_irq_cpu_enable_interrupts s = s\<lparr>status := NIOS2_STATUS_PIE_MSK\<rparr>"

text \<open>The processor presents the requests that are enabled.\<close>

definition alt_irq_pending :: "('w \<Rightarrow> u32) \<Rightarrow> 'w irqs \<Rightarrow> u32" where
  "alt_irq_pending lines s = lines (devices s) AND ienable s"

definition altera_nios2_gen2_irq_init :: "'w irqs \<Rightarrow> 'w irqs" where
  "altera_nios2_gen2_irq_init s = s\<lparr>ienable := 0\<rparr>"

definition alt_irq_init :: "'w irqs \<Rightarrow> 'w irqs" where
  "alt_irq_init s = alt_irq_cpu_enable_interrupts (altera_nios2_gen2_irq_init s)"

section \<open>Single interrupts (priv/alt_legacy_irq.h)\<close>

text \<open>\<open>1 << id\<close>; a shift of 32 or more is undefined in C, and the callers pass less.\<close>

definition irq_bit :: "u32 \<Rightarrow> u32" where
  "irq_bit i = push_bit (unat i) 1"

definition alt_irq_disable :: "u32 \<Rightarrow> 'w irqs \<Rightarrow> int \<times> 'w irqs" where
  "alt_irq_disable i s =
     (let (ctx, s) = alt_irq_disable_all s;
          s = s\<lparr>alt_irq_active := alt_irq_active s AND NOT (irq_bit i)\<rparr>;
          s = s\<lparr>ienable := alt_irq_active s\<rparr>
      in (0, alt_irq_enable_all ctx s))"

definition alt_irq_enable :: "u32 \<Rightarrow> 'w irqs \<Rightarrow> int \<times> 'w irqs" where
  "alt_irq_enable i s =
     (let (ctx, s) = alt_irq_disable_all s;
          s = s\<lparr>alt_irq_active := alt_irq_active s OR irq_bit i\<rparr>;
          s = s\<lparr>ienable := alt_irq_active s\<rparr>
      in (0, alt_irq_enable_all ctx s))"

definition alt_irq_interruptible :: "u32 \<Rightarrow> 'w irqs \<Rightarrow> u32 \<times> 'w irqs" where
  "alt_irq_interruptible priority s =
     (let old_priority = alt_priority_mask s;
          s = s\<lparr>alt_priority_mask := irq_bit priority - 1\<rparr>;
          s = s\<lparr>ienable := alt_irq_active s AND alt_priority_mask s\<rparr>
      in (old_priority, s\<lparr>status := 1\<rparr>))"

definition alt_irq_non_interruptible :: "u32 \<Rightarrow> 'w irqs \<Rightarrow> 'w irqs" where
  "alt_irq_non_interruptible m s =
     (let s = s\<lparr>status := 0\<rparr>;
          s = s\<lparr>alt_priority_mask := m\<rparr>
      in s\<lparr>ienable := m AND alt_irq_active s\<rparr>)"

section \<open>Registration\<close>

definition alt_irq_register :: "u32 \<Rightarrow> ptr \<Rightarrow> ptr \<Rightarrow> 'w irqs \<Rightarrow> int \<times> 'w irqs" where
  "alt_irq_register i ctxt handler s =
     (if i < ALT_NIRQ then
        let (st, s) = alt_irq_disable_all s;
            s = s\<lparr>alt_irq := (alt_irq s)[unat i := (handler, ctxt)]\<rparr>;
            (rc, s) = (if handler \<noteq> 0 then alt_irq_enable i s else alt_irq_disable i s)
        in (rc, alt_irq_enable_all st s)
      else (- EINVAL, s))"

definition alt_ic_irq_enable :: "u32 \<Rightarrow> u32 \<Rightarrow> 'w irqs \<Rightarrow> int \<times> 'w irqs" where
  "alt_ic_irq_enable ic_id irq s = alt_irq_enable irq s"

definition alt_ic_irq_disable :: "u32 \<Rightarrow> u32 \<Rightarrow> 'w irqs \<Rightarrow> int \<times> 'w irqs" where
  "alt_ic_irq_disable ic_id irq s = alt_irq_disable irq s"

definition alt_ic_irq_enabled :: "u32 \<Rightarrow> u32 \<Rightarrow> 'w irqs \<Rightarrow> u32" where
  "alt_ic_irq_enabled ic_id irq s = (if ienable s AND irq_bit irq \<noteq> 0 then 1 else 0)"

text \<open>
  This function copies the number into a signed int before it compares it, so that one of 2^31
  or more is negative and passes: the entry it then writes is before the table (\<open>None\<close>).
\<close>

definition alt_iic_isr_register ::
  "u32 \<Rightarrow> u32 \<Rightarrow> ptr \<Rightarrow> ptr \<Rightarrow> 'w irqs \<Rightarrow> (int \<times> 'w irqs) option" where
  "alt_iic_isr_register ic_id irq isr isr_context s =
     (let id = sint irq
      in if id < sint ALT_NIRQ then
           if id < 0 then None
           else let (st, s) = alt_irq_disable_all s;
                    s = s\<lparr>alt_irq := (alt_irq s)[nat id := (isr, isr_context)]\<rparr>;
                    (rc, s) = (if isr \<noteq> 0 then alt_ic_irq_enable ic_id irq s else alt_ic_irq_disable ic_id irq s)
                in Some (rc, alt_irq_enable_all st s)
         else Some (- EINVAL, s))"

definition alt_ic_isr_register ::
  "u32 \<Rightarrow> u32 \<Rightarrow> ptr \<Rightarrow> ptr \<Rightarrow> 'w irqs \<Rightarrow> (int \<times> 'w irqs) option" where
  "alt_ic_isr_register ic_id irq isr isr_context s = alt_iic_isr_register ic_id irq isr isr_context s"

section \<open>The handler (alt_irq_handler.c)\<close>

text \<open>
  The scan for the first pending request shifts a mask until it meets one; with none pending
  the mask becomes 0 and the scan does not end.
\<close>

definition irq_scan :: "u32 \<Rightarrow> u32 option" where
  "irq_scan active =
     map_option fst (while_option (\<lambda>(i, m). active AND m = 0) (\<lambda>(i :: u32, m). (i + 1, push_bit 1 m)) (0, 1))"

definition irq_service ::
  "(ptr \<Rightarrow> ptr \<Rightarrow> 'w irqs \<Rightarrow> 'w irqs option) \<Rightarrow> u32 \<Rightarrow> 'w irqs \<Rightarrow> 'w irqs option" where
  "irq_service isr active s =
     Option.bind (irq_scan active) (\<lambda>i. isr (fst (alt_irq s ! unat i)) (snd (alt_irq s ! unat i)) s)"

partial_function (option) irq_loop ::
  "('w \<Rightarrow> u32) \<Rightarrow> (ptr \<Rightarrow> ptr \<Rightarrow> 'w irqs \<Rightarrow> 'w irqs option) \<Rightarrow> u32 \<Rightarrow> 'w irqs \<Rightarrow> 'w irqs option" where
  "irq_loop lines isr active s =
     Option.bind (irq_service isr active s) (\<lambda>s.
       if alt_irq_pending lines s \<noteq> 0 then irq_loop lines isr (alt_irq_pending lines s) s else Some s)"

definition alt_irq_handler ::
  "('w \<Rightarrow> u32) \<Rightarrow> (ptr \<Rightarrow> ptr \<Rightarrow> 'w irqs \<Rightarrow> 'w irqs option) \<Rightarrow> 'w irqs \<Rightarrow> 'w irqs option" where
  "alt_irq_handler lines isr s = irq_loop lines isr (alt_irq_pending lines s) s"

section \<open>Exception causes (alt_instruction_exception_entry.c)\<close>

text \<open>The causes of sys/alt_exceptions.h by their numbers; an enum holds any int.\<close>

definition NIOS2_EXCEPTION_CAUSE_NOT_PRESENT :: int where "NIOS2_EXCEPTION_CAUSE_NOT_PRESENT = -1"

datatype alt_exception_cause = RESET | CPU_ONLY_RESET_REQUEST | INTERRUPT | TRAP_INST
  | UNIMPLEMENTED_INST | ILLEGAL_INST | MISALIGNED_DATA_ADDR | MISALIGNED_TARGET_PC
  | DIVISION_ERROR | SUPERVISOR_ONLY_INST_ADDR | SUPERVISOR_ONLY_INST | SUPERVISOR_ONLY_DATA_ADDR
  | TLB_MISS | TLB_EXECUTE_PERM_VIOLATION | TLB_READ_PERM_VIOLATION | TLB_WRITE_PERM_VIOLATION
  | MPU_INST_REGION_VIOLATION | MPU_DATA_REGION_VIOLATION | ECC_TLB_ERR | ECC_FETCH_ERR
  | ECC_REGISTER_FILE_ERR | ECC_DATA_ERR | ECC_DATA_CACHE_WRITEBACK_ERR

fun cause_number :: "alt_exception_cause \<Rightarrow> int" where
  "cause_number RESET = 0"
| "cause_number CPU_ONLY_RESET_REQUEST = 1"
| "cause_number INTERRUPT = 2"
| "cause_number TRAP_INST = 3"
| "cause_number UNIMPLEMENTED_INST = 4"
| "cause_number ILLEGAL_INST = 5"
| "cause_number MISALIGNED_DATA_ADDR = 6"
| "cause_number MISALIGNED_TARGET_PC = 7"
| "cause_number DIVISION_ERROR = 8"
| "cause_number SUPERVISOR_ONLY_INST_ADDR = 9"
| "cause_number SUPERVISOR_ONLY_INST = 10"
| "cause_number SUPERVISOR_ONLY_DATA_ADDR = 11"
| "cause_number TLB_MISS = 12"
| "cause_number TLB_EXECUTE_PERM_VIOLATION = 13"
| "cause_number TLB_READ_PERM_VIOLATION = 14"
| "cause_number TLB_WRITE_PERM_VIOLATION = 15"
| "cause_number MPU_INST_REGION_VIOLATION = 16"
| "cause_number MPU_DATA_REGION_VIOLATION = 17"
| "cause_number ECC_TLB_ERR = 18"
| "cause_number ECC_FETCH_ERR = 19"
| "cause_number ECC_REGISTER_FILE_ERR = 20"
| "cause_number ECC_DATA_ERR = 21"
| "cause_number ECC_DATA_CACHE_WRITEBACK_ERR = 22"

definition alt_exception_cause_generated_bad_addr :: "int \<Rightarrow> int" where
  "alt_exception_cause_generated_bad_addr c =
     (if c \<in> cause_number ` {SUPERVISOR_ONLY_DATA_ADDR, MISALIGNED_DATA_ADDR, MISALIGNED_TARGET_PC,
            TLB_READ_PERM_VIOLATION, TLB_WRITE_PERM_VIOLATION, MPU_DATA_REGION_VIOLATION, ECC_DATA_ERR}
      then 1
      else if c \<in> cause_number ` {TLB_MISS, ECC_TLB_ERR} then 0
      else 0)"

text \<open>
  The entry for exceptions without extra information: with a handler registered its result;
  without one the processor breaks into the debugger, after which the instruction is reissued.
\<close>

datatype exception_outcome = Handled int | Break_then int

definition alt_instruction_exception_entry ::
  "(int \<Rightarrow> u32 \<Rightarrow> u32 \<Rightarrow> int) option \<Rightarrow> u32 \<Rightarrow> exception_outcome" where
  "alt_instruction_exception_entry handler exception_pc =
     (let cause = NIOS2_EXCEPTION_CAUSE_NOT_PRESENT; badaddr = 0
      in case handler of Some h \<Rightarrow> Handled (h cause exception_pc badaddr) | None \<Rightarrow> Break_then 0)"

section \<open>Lemmas\<close>

lemma irq_bit_bit: "i < 32 \<Longrightarrow> bit (irq_bit i) n \<longleftrightarrow> n = unat i"
  by (auto simp: irq_bit_def bit_simps word_less_nat_alt)

text \<open>The scan finds the least pending request, and only then ends.\<close>

lemma irq_scan_zero: "irq_scan 0 = None"
proof (cases "irq_scan 0")
  case (Some i)
  then obtain m where "while_option (\<lambda>(i, m). (0 :: u32) AND m = 0) (\<lambda>(i :: u32, m). (i + 1, push_bit 1 m)) (0, 1) = Some (i, m)"
    by (auto simp: irq_scan_def)
  then show ?thesis using while_option_stop by fastforce
qed

lemma irq_scan_from:
  fixes active :: u32
  assumes "bit active k" "\<forall>n < k. \<not> bit active n" "j \<le> k"
  shows "while_option (\<lambda>(i, m). active AND m = 0) (\<lambda>(i :: u32, m). (i + 1, push_bit 1 m))
    (of_nat j, 2 ^ j) = Some (of_nat k, 2 ^ k)"
  using assms(3)
proof (induction "k - j" arbitrary: j)
  case 0
  then have "j = k" by simp
  then show ?case using assms(1) by (subst while_option_unfold) (simp add: and_exp_eq_0_iff_not_bit)
next
  case (Suc d)
  then have "j < k" by simp
  have "(of_nat j :: u32) + 1 = of_nat (Suc j)" by simp
  then show ?case using Suc.hyps(1) [of "Suc j"] Suc.hyps(2) \<open>j < k\<close> assms(2)
    by (subst while_option_unfold) (simp add: and_exp_eq_0_iff_not_bit mult.commute del: of_nat_Suc)
qed

lemma irq_scan_least:
  assumes "active \<noteq> 0"
  shows "\<exists>k < 32. irq_scan active = Some (of_nat k) \<and> bit active k \<and> (\<forall>n < k. \<not> bit active n)"
proof -
  define k where "k = (LEAST n. bit active n)"
  obtain n where "bit active n" using assms by (metis bit_eqI bit_0_eq bot_apply bot_bool_def)
  then have k: "bit active k" "\<forall>n < k. \<not> bit active n"
    unfolding k_def by (auto intro: LeastI dest: not_less_Least)
  from irq_scan_from [OF this, of 0] have "irq_scan active = Some (of_nat k)" by (simp add: irq_scan_def)
  moreover have "k < 32" using bit_imp_le_length [OF k(1)] by simp
  ultimately show ?thesis using k by blast
qed

end
