(* ===== verification/Hal_Irq_Props.thy ===== *)
theory Hal_Irq_Props
  imports Hal_Irq
begin

text \<open>
  What the interrupt component promises: every pending request is served once, the least number
  first, and the handler returns; registration enters the routine and enables its request, by
  either interface; and critical sections restore the processor's state.
\<close>

section \<open>Serving\<close>

abbreviation serve ::
  "(ptr \<Rightarrow> ptr \<Rightarrow> 'w irqs \<Rightarrow> 'w irqs option) \<Rightarrow> (ptr \<times> ptr) list \<Rightarrow> nat \<Rightarrow> 'w irqs \<Rightarrow> 'w irqs option" where
  "serve isr T i s \<equiv> isr (fst (T ! i)) (snd (T ! i)) s"

fun serve_all ::
  "(ptr \<Rightarrow> ptr \<Rightarrow> 'w irqs \<Rightarrow> 'w irqs option) \<Rightarrow> (ptr \<times> ptr) list \<Rightarrow> nat list \<Rightarrow> 'w irqs \<Rightarrow> 'w irqs option" where
  "serve_all isr T [] s = Some s"
| "serve_all isr T (i # is) s = Option.bind (serve isr T i s) (serve_all isr T is)"

text \<open>
  What a service routine owes the handler: it returns, withdraws its own request, leaves the
  others as they are and does not change the table.
\<close>

definition acks :: "('w \<Rightarrow> u32) \<Rightarrow> (ptr \<Rightarrow> ptr \<Rightarrow> 'w irqs \<Rightarrow> 'w irqs option) \<Rightarrow> (ptr \<times> ptr) list \<Rightarrow> bool" where
  "acks lines isr T \<longleftrightarrow> (\<forall>s i. alt_irq s = T \<and> bit (alt_irq_pending lines s) i \<longrightarrow>
     (\<exists>s'. serve isr T i s = Some s' \<and> alt_irq s' = T \<and>
       alt_irq_pending lines s' = alt_irq_pending lines s AND NOT (2 ^ i)))"

lemma acksD:
  "acks lines isr T \<Longrightarrow> alt_irq s = T \<Longrightarrow> bit (alt_irq_pending lines s) i \<Longrightarrow>
   \<exists>s'. serve isr T i s = Some s' \<and> alt_irq s' = T \<and>
     alt_irq_pending lines s' = alt_irq_pending lines s AND NOT (2 ^ i)"
  by (simp add: acks_def)

definition requests :: "u32 \<Rightarrow> nat list" where
  "requests a = filter (bit a) [0..<32]"

lemma requests_empty: "requests a = [] \<longleftrightarrow> a = 0"
proof
  assume "requests a = []"
  then have "\<not> bit a n" for n using bit_imp_le_length [of a n] by (auto simp: requests_def filter_empty_conv)
  then show "a = 0" by (intro bit_eqI) simp
qed (simp add: requests_def)

lemma requests_least:
  assumes "bit a k" "\<forall>n < k. \<not> bit a n" "k < 32"
  shows "requests a = k # requests (a AND NOT (2 ^ k))"
proof -
  let ?b = "a AND NOT (2 ^ k)"
  have b: "bit ?b n \<longleftrightarrow> bit a n \<and> n \<noteq> k" for n using bit_imp_le_length [of a n] by (auto simp: bit_simps)
  have s: "[0..<32] = [0..<k] @ k # [Suc k..<32]"
    using assms(3) by (metis upt_conv_Cons upt_add_eq_append [of 0 k "32 - k"] le0 add_diff_inverse_nat less_imp_le_nat not_less)
  have pre: "filter (bit a) [0..<k] = []" "filter (bit ?b) [0..<k] = []"
    using assms(2) b by (simp_all add: filter_empty_conv)
  have post: "filter (bit a) [Suc k..<32] = filter (bit ?b) [Suc k..<32]"
    using b by (intro filter_cong) auto
  have "requests a = k # filter (bit a) [Suc k..<32]" using assms(1) pre s by (simp add: requests_def)
  moreover have "requests ?b = filter (bit ?b) [Suc k..<32]" using b [of k] pre s by (simp add: requests_def)
  ultimately show ?thesis using post by simp
qed

lemma irq_service_least:
  assumes "a \<noteq> 0" "alt_irq s = T"
  shows "irq_service isr a s = serve isr T (hd (requests a)) s \<and> bit a (hd (requests a)) \<and>
    requests a = hd (requests a) # requests (a AND NOT (2 ^ hd (requests a)))"
proof -
  obtain k where k: "k < 32" "irq_scan a = Some (of_nat k)" "bit a k" "\<forall>n < k. \<not> bit a n"
    using irq_scan_least [OF assms(1)] by blast
  have r: "requests a = k # requests (a AND NOT (2 ^ k))" by (rule requests_least [OF k(3,4,1)])
  have "unat (of_nat k :: u32) = k" using k(1) by (simp add: unsigned_of_nat take_bit_nat_eq_self)
  then show ?thesis using k r assms(2) by (simp add: irq_service_def)
qed

lemma irq_loop_serves:
  assumes "acks lines isr T" "alt_irq s = T" "a = alt_irq_pending lines s" "a \<noteq> 0"
  shows "\<exists>s'. irq_loop lines isr a s = Some s' \<and> serve_all isr T (requests a) s = Some s' \<and>
    alt_irq_pending lines s' = 0 \<and> alt_irq s' = T"
  using assms(2-4)
proof (induction "length (requests a)" arbitrary: a s rule: less_induct)
  case less
  let ?k = "hd (requests a)"
  let ?b = "a AND NOT (2 ^ ?k)"
  note sv = irq_service_least [OF less.prems(3,1), of isr]
  obtain t where t: "serve isr T ?k s = Some t" and ack: "alt_irq t = T" "alt_irq_pending lines t = ?b"
    using acksD [OF assms(1) less.prems(1)] sv less.prems(2) by auto
  have f: "serve_all isr T (requests a) s = serve_all isr T (requests ?b) t"
    using sv t serve_all.simps(2) [of isr T ?k "requests ?b" s] by simp
  show ?case
  proof (cases "?b = 0")
    case True
    then have "requests ?b = []" by (simp add: requests_empty)
    then show ?thesis using sv t ack True f by (subst irq_loop.simps) simp
  next
    case False
    have "length (requests ?b) < length (requests a)" using sv by (metis length_Cons lessI)
    from less.hyps [OF this ack(1) ack(2) [symmetric] False] show ?thesis
      using sv t ack(2) False f by (subst irq_loop.simps) simp
  qed
qed

section \<open>Properties\<close>

text \<open>C13. With at least one request pending and service routines that withdraw their requests, the
  handler returns after running the registered routine of every pending request exactly once, in
  ascending order of their numbers, and leaves nothing pending.\<close>
theorem irq_handler_serves_all:
  assumes "acks lines isr (alt_irq s)" "alt_irq_pending lines s \<noteq> 0"
  shows "\<exists>s'. alt_irq_handler lines isr s = Some s' \<and> alt_irq_pending lines s' = 0 \<and>
    serve_all isr (alt_irq s) (filter (bit (alt_irq_pending lines s)) [0..<32]) s = Some s'"
  using irq_loop_serves [OF assms(1) refl refl assms(2)] by (auto simp: alt_irq_handler_def requests_def)

text \<open>Devices that are their request lines, and a routine that clears the line of its context.\<close>

definition line_isr :: "ptr \<Rightarrow> ptr \<Rightarrow> u32 irqs \<Rightarrow> u32 irqs option" where
  "line_isr h c s = Some (s\<lparr>devices := devices s AND NOT (2 ^ c)\<rparr>)"

definition line_table :: "(ptr \<times> ptr) list" where
  "line_table = map (\<lambda>i. (100, i)) [0..<32]"

lemma line_acks: "acks (\<lambda>w. w) line_isr line_table"
proof -
  have "alt_irq_pending (\<lambda>w. w) (s\<lparr>devices := devices s AND NOT (2 ^ snd (line_table ! i))\<rparr>) =
      alt_irq_pending (\<lambda>w. w) s AND NOT (2 ^ i)"
    if "bit (alt_irq_pending (\<lambda>w. w) s) i" for s :: "u32 irqs" and i
  proof -
    have "i < 32" using bit_imp_le_length [OF that] by simp
    then show ?thesis by (simp add: alt_irq_pending_def line_table_def ac_simps)
  qed
  then show ?thesis by (simp add: acks_def line_isr_def)
qed

theorem irq_handler_serves_all_witness:
  "\<exists>s'. alt_irq_handler (\<lambda>w. w) line_isr
      ((irqs_init 0x21)\<lparr>alt_irq := line_table, ienable := 0xFF\<rparr>) = Some s' \<and> alt_irq_pending (\<lambda>w. w) s' = 0"
proof -
  let ?s = "(irqs_init 0x21)\<lparr>alt_irq := line_table, ienable := 0xFF\<rparr> :: u32 irqs"
  have "acks (\<lambda>w. w) line_isr (alt_irq ?s)" "alt_irq_pending (\<lambda>w. w) ?s \<noteq> 0"
    using line_acks by (simp_all add: alt_irq_pending_def irqs_init_def)
  from irq_handler_serves_all [OF this] show ?thesis by blast
qed

text \<open>Entered with no enabled request pending, the handler never returns.\<close>
theorem irq_handler_spurious:
  assumes "alt_irq_pending lines s = 0"
  shows "alt_irq_handler lines isr s = None"
  unfolding alt_irq_handler_def by (subst irq_loop.simps) (simp add: assms irq_service_def irq_scan_zero)

theorem irq_handler_spurious_witness: "alt_irq_handler (\<lambda>w. w) line_isr (irqs_init 4) = None"
  by (rule irq_handler_spurious) (simp add: alt_irq_pending_def irqs_init_def)

section \<open>Registration\<close>

definition irq_sync :: "'w irqs \<Rightarrow> bool" where
  "irq_sync s \<longleftrightarrow> ienable s = alt_irq_active s \<and> length (alt_irq s) = 32"

lemma sint_cases: "sint i = (if unat i < 2 ^ 31 then int (unat i) else int (unat i) - 2 ^ 32)" for i :: u32
proof -
  have "uint i = uint (word_of_int (sint i) :: u32)" by simp
  also have "\<dots> = sint i mod 2 ^ 32" by (simp only: uint_word_of_int_eq take_bit_eq_mod) simp
  finally have "int (unat i) = sint i mod 2 ^ 32" by simp
  then obtain n where u: "int n = sint i mod 2 ^ 32" "unat i = n" by blast
  have lo: "- (2 ^ 31) \<le> sint i" "sint i < 2 ^ 31" using sint_greater_eq [of i] sint_less [of i] by simp_all
  show ?thesis
  proof (cases "sint i < 0")
    case True
    have "sint i mod 2 ^ 32 = (sint i + 2 ^ 32) mod 2 ^ 32" by simp
    also have "\<dots> = sint i + 2 ^ 32" using True lo by (intro mod_pos_pos_trivial) simp_all
    finally have "int n = sint i + 2 ^ 32" using u by simp
    then show ?thesis unfolding u(2) using lo True by auto
  next
    case False
    then have "sint i mod 2 ^ 32 = sint i" using lo by (intro mod_pos_pos_trivial) simp_all
    then have "int n = sint i" using u by simp
    then show ?thesis unfolding u(2) using lo False by auto
  qed
qed

text \<open>The two registration functions agree: for every number below 2^31 the enhanced interface
  does what the legacy one does, which refuses numbers above 31 with EINVAL; for the others the
  legacy function still refuses while the enhanced one writes before the table.\<close>
theorem register_interfaces_agree:
  "alt_ic_isr_register ic i h c s =
     (if unat i < 2 ^ 31 then Some (alt_irq_register i c h s) else None) \<and>
   (32 \<le> unat i \<longrightarrow> alt_irq_register i c h s = (- EINVAL, s))"
proof (intro conjI impI)
  have n: "sint ALT_NIRQ = 32" by (simp add: ALT_NIRQ_def)
  show "alt_ic_isr_register ic i h c s = (if unat i < 2 ^ 31 then Some (alt_irq_register i c h s) else None)"
  proof (cases "unat i < 2 ^ 31")
    case True
    then have si: "sint i = int (unat i)" by (simp only: sint_cases if_True)
    have lt: "sint i < sint ALT_NIRQ \<longleftrightarrow> i < ALT_NIRQ" unfolding si n
      by (simp add: ALT_NIRQ_def word_less_def)
    have pos: "\<not> sint i < 0" "nat (sint i) = unat i" unfolding si by simp_all
    show ?thesis using True
      by (simp only: alt_ic_isr_register_def alt_iic_isr_register_def alt_irq_register_def lt pos
          alt_ic_irq_enable_def alt_ic_irq_disable_def Let_def split_beta if_True if_False split: if_split) simp
  next
    case False
    have "uint i < 2 ^ LENGTH(32)" by (rule unsigned_less)
    then have "sint i < 0" using False by (simp add: sint_cases)
    then show ?thesis using False n by (simp add: alt_ic_isr_register_def alt_iic_isr_register_def)
  qed
  assume "32 \<le> unat i"
  then show "alt_irq_register i c h s = (- EINVAL, s)"
    by (simp add: alt_irq_register_def ALT_NIRQ_def word_less_nat_alt)
qed

theorem register_interfaces_agree_witness:
  "alt_irq_register 40 0 7 (irqs_init (0 :: nat)) = (- EINVAL, irqs_init 0)"
  using register_interfaces_agree [of 0 40 7 0 "irqs_init (0 :: nat)"] by simp

text \<open>Registering a routine enters it, with its context, for exactly its number, and enables
  exactly that request; registering NULL disables it; the status register ends as it was.\<close>
theorem register_enters:
  assumes "i < 32" "irq_sync s"
  shows "\<exists>s'. alt_irq_register i c h s = (0, s') \<and> irq_sync s' \<and> status s' = status s \<and>
    alt_irq s' = (alt_irq s)[unat i := (h, c)] \<and>
    (\<forall>n < 32. bit (ienable s') n \<longleftrightarrow> (if n = unat i then h \<noteq> 0 else bit (ienable s) n)) \<and>
    alt_ic_irq_enabled 0 i s' = (if h \<noteq> 0 then 1 else 0)"
proof -
  have i: "unat i < 32" using assms(1) by (simp add: word_less_nat_alt)
  let ?e = "if h \<noteq> 0 then ienable s OR irq_bit i else ienable s AND NOT (irq_bit i)"
  let ?s = "s\<lparr>ienable := ?e, alt_irq_active := ?e, alt_irq := (alt_irq s)[unat i := (h, c)]\<rparr>"
  have r: "alt_irq_register i c h s = (0, ?s)"
    using assms by (simp add: alt_irq_register_def ALT_NIRQ_def alt_irq_disable_all_def alt_irq_enable_all_def
        alt_irq_enable_def alt_irq_disable_def Let_def irq_sync_def)
  have b: "bit ?e n \<longleftrightarrow> (if n = unat i then h \<noteq> 0 else bit (ienable s) n)" if "n < 32" for n
    using that irq_bit_bit [OF assms(1), of n] by (auto simp: bit_simps)
  have "(?e AND irq_bit i \<noteq> 0) = (h \<noteq> 0)"
    using b [OF i] by (simp add: irq_bit_def and_exp_eq_0_iff_not_bit)
  then show ?thesis using r b assms(2) by (simp add: irq_sync_def alt_ic_irq_enabled_def)
qed

theorem register_enters_witness:
  "\<exists>s'. alt_irq_register 5 1 7 (irqs_init (0 :: nat)) = (0, s') \<and> alt_ic_irq_enabled 0 5 s' = 1"
  using register_enters [of 5 "irqs_init (0 :: nat)" 1 7] by (auto simp: irq_sync_def irqs_init_def)

section \<open>Critical sections and priorities\<close>

text \<open>A critical section restores the status register, nested ones too, around code that leaves
  it alone.\<close>

lemma critical_section:
  "alt_irq_disable_all s = (ctx, s1) \<Longrightarrow> alt_irq_enabled s1 = 0 \<and> alt_irq_enable_all ctx s1 = s"
  by (auto simp: alt_irq_disable_all_def alt_irq_enable_all_def alt_irq_enabled_def NIOS2_STATUS_PIE_MSK_def
      and.assoc)

text \<open>The enabled requests are the active ones below the priority; enabling one inside an
  interruptible section forgets the priority.\<close>

lemma interruptible_masks:
  assumes "p < 32" "alt_irq_interruptible p s = (old, s')"
  shows "bit (ienable s') n \<longleftrightarrow> bit (alt_irq_active s) n \<and> n < unat p"
proof -
  have "irq_bit p - 1 = mask (unat p)" by (simp add: irq_bit_def mask_eq_exp_minus_1)
  then show ?thesis using assms bit_imp_le_length [of "alt_irq_active s" n]
    by (auto simp: alt_irq_interruptible_def Let_def bit_simps)
qed

lemma enable_forgets_priority:
  assumes "alt_irq_interruptible p s = (old, s1)" "alt_irq_enable i s1 = (r, s2)"
  shows "ienable s2 = alt_irq_active s OR irq_bit i"
  using assms by (auto simp: alt_irq_interruptible_def alt_irq_enable_def Let_def alt_irq_disable_all_def
      alt_irq_enable_all_def)

end
