(* ===== verification/Hal_Alarm.thy ===== *)
theory Hal_Alarm
  imports Hal_Llist Hal_Errno
begin

text \<open>
  alt_alarm_start.c and alt_tick.c: the alarms of the HAL. An alarm is an element of the list
  alt_alarm_list with the tick at which it is due, a flag that tells whether the tick counter
  has to roll over before, and a callback. The counter and the due time are 32 bits wide; the
  relation \<open>armed\<close> gives them their meaning on an unbounded count of ticks.

  The callbacks are code of the drivers: a parameter, a function of the callback's address, its
  context and the rest of the world. A callback that itself starts or stops alarms is outside
  the model.
\<close>

section \<open>State\<close>

record alarm =
  time :: u32
  rollover :: bool
  callback :: ptr
  context_of :: ptr

record 'w clock =
  heap :: llist_heap
  alarms :: "ptr \<Rightarrow> alarm"
  alt_nticks :: u32
  alt_tick_rate :: u32
  world :: 'w

definition alt_alarm_list :: ptr where
  "alt_alarm_list = 1"

type_synonym 'w callbacks = "ptr \<Rightarrow> ptr \<Rightarrow> 'w \<Rightarrow> u32 \<times> 'w"

definition alt_sysclk_init :: "u32 \<Rightarrow> 'w clock \<Rightarrow> int \<times> 'w clock" where
  "alt_sysclk_init n s =
     (if alt_tick_rate s = 0 then (0, s\<lparr>alt_tick_rate := n\<rparr>) else (-1, s))"

section \<open>Operations\<close>

definition alt_alarm_start :: "ptr \<Rightarrow> u32 \<Rightarrow> ptr \<Rightarrow> ptr \<Rightarrow> 'w clock \<Rightarrow> int \<times> 'w clock" where
  "alt_alarm_start a n cb ctx s =
     (if alt_tick_rate s \<noteq> 0 then
        (if a \<noteq> 0 then
           let current = alt_nticks s;
               t = n + current + 1;
               al = \<lparr>time = t, rollover = t < current, callback = cb, context_of = ctx\<rparr>
           in (0, s\<lparr>alarms := (alarms s)(a := al),
                    heap := alt_llist_insert alt_alarm_list a (heap s)\<rparr>)
         else (- EINVAL, s))
      else (- ENOTSUP, s))"

definition alt_alarm_stop :: "ptr \<Rightarrow> 'w clock \<Rightarrow> 'w clock" where
  "alt_alarm_stop a s = s\<lparr>heap := alt_llist_remove a (heap s)\<rparr>"

text \<open>The body of the loop of alt_tick, for one alarm.\<close>

definition tick_alarm :: "'w callbacks \<Rightarrow> ptr \<Rightarrow> 'w clock \<Rightarrow> 'w clock" where
  "tick_alarm cb a s =
     (let al = alarms s a;
          al = (if rollover al \<and> alt_nticks s = 0 then al\<lparr>rollover := False\<rparr> else al)
      in if time al \<le> alt_nticks s \<and> \<not> rollover al then
           let (next_callback, w) = cb (callback al) (context_of al) (world s);
               s = s\<lparr>alarms := (alarms s)(a := al), world := w\<rparr>
           in if next_callback = 0 then alt_alarm_stop a s
              else let al = al\<lparr>time := time al + next_callback\<rparr>;
                       al = (if time al < alt_nticks s then al\<lparr>rollover := True\<rparr> else al)
                   in s\<lparr>alarms := (alarms s)(a := al)\<rparr>
         else s\<lparr>alarms := (alarms s)(a := al)\<rparr>)"

text \<open>The loop reads the next element before the callback may unlink the current one.\<close>

definition tick_loop :: "'w callbacks \<Rightarrow> ptr \<times> 'w clock \<Rightarrow> (ptr \<times> 'w clock) option" where
  "tick_loop cb = while_option (\<lambda>(a, s). a \<noteq> alt_alarm_list)
     (\<lambda>(a, s). (next_of (heap s) a, tick_alarm cb a s))"

definition alt_tick :: "'w callbacks \<Rightarrow> 'w clock \<Rightarrow> 'w clock option" where
  "alt_tick cb s =
     (let s = s\<lparr>alt_nticks := alt_nticks s + 1\<rparr>
      in map_option snd (tick_loop cb (next_of (heap s) alt_alarm_list, s)))"

fun alt_ticks :: "'w callbacks \<Rightarrow> nat \<Rightarrow> 'w clock \<Rightarrow> 'w clock option" where
  "alt_ticks cb 0 s = Some s"
| "alt_ticks cb (Suc k) s = (case alt_tick cb s of None \<Rightarrow> None | Some s' \<Rightarrow> alt_ticks cb k s')"

section \<open>The loop visits every alarm once\<close>

lemma tick_alarm_frame:
  "alt_nticks (tick_alarm cb a s) = alt_nticks s"
  "alt_tick_rate (tick_alarm cb a s) = alt_tick_rate s"
  "b \<noteq> a \<Longrightarrow> alarms (tick_alarm cb a s) b = alarms s b"
  by (simp_all add: tick_alarm_def alt_alarm_stop_def Let_def split_beta)

text \<open>Whether the alarm is unlinked: it fires, and the callback returns zero.\<close>

definition fires :: "ptr \<Rightarrow> 'w clock \<Rightarrow> bool" where
  "fires a s \<longleftrightarrow> time (alarms s a) \<le> alt_nticks s \<and>
     (\<not> rollover (alarms s a) \<or> alt_nticks s = 0)"

definition calls :: "'w callbacks \<Rightarrow> ptr \<Rightarrow> 'w clock \<Rightarrow> u32 \<times> 'w" where
  "calls cb a s = cb (callback (alarms s a)) (context_of (alarms s a)) (world s)"

lemma tick_alarm_heap:
  "heap (tick_alarm cb a s) =
     (if fires a s \<and> fst (calls cb a s) = 0 then alt_llist_remove a (heap s) else heap s)"
  by (auto simp: tick_alarm_def fires_def calls_def alt_alarm_stop_def Let_def split_beta)

lemma tick_alarm_world:
  "world (tick_alarm cb a s) = (if fires a s then snd (calls cb a s) else world s)"
  by (auto simp: tick_alarm_def fires_def calls_def alt_alarm_stop_def Let_def split_beta)

lemma tick_alarm_ring:
  assumes "ring (heap s) alt_alarm_list (ys @ z # zs)"
  shows "ring (heap (tick_alarm cb z s)) alt_alarm_list
    (ys @ (if fires z s \<and> fst (calls cb z s) = 0 then [] else [z]) @ zs)"
proof -
  have "z \<notin> set ys" using llist.entries_distinct [OF assms] by auto
  then show ?thesis
    using llist.removed [OF assms, of z] assms by (simp add: tick_alarm_heap remove1_append)
qed

lemma tick_loop_fold:
  assumes "ring (heap s) alt_alarm_list (ys @ zs)"
  shows "tick_loop cb (case zs of [] \<Rightarrow> alt_alarm_list | z # _ \<Rightarrow> z, s) =
    Some (alt_alarm_list, fold (tick_alarm cb) zs s)"
  using assms
proof (induction zs arbitrary: s ys)
  case Nil
  then show ?case by (simp add: tick_loop_def while_option_unfold)
next
  case (Cons z zs)
  have nz: "z \<noteq> alt_alarm_list" using llist.entries_distinct [OF Cons.prems] by auto
  have nx: "next_of (heap s) z = (case zs of [] \<Rightarrow> alt_alarm_list | y # _ \<Rightarrow> y)"
    using llist.walk [of "heap s" alt_alarm_list "ys @ [z]" zs] Cons.prems by simp
  have r: "ring (heap (tick_alarm cb z s)) alt_alarm_list
      ((ys @ (if fires z s \<and> fst (calls cb z s) = 0 then [] else [z])) @ zs)"
    using tick_alarm_ring [OF Cons.prems] by simp
  show ?case
    using Cons.IH [OF r] nz nx by (simp add: tick_loop_def while_option_unfold)
qed

lemma alt_tick_fold:
  assumes "ring (heap s) alt_alarm_list xs"
  shows "alt_tick cb s = Some (fold (tick_alarm cb) xs (s\<lparr>alt_nticks := alt_nticks s + 1\<rparr>))"
proof -
  have "next_of (heap s) alt_alarm_list = (case xs of [] \<Rightarrow> alt_alarm_list | z # _ \<Rightarrow> z)"
    using llist.walk [of "heap s" alt_alarm_list "[]" xs] assms by simp
  then show ?thesis
    using tick_loop_fold [of "s\<lparr>alt_nticks := alt_nticks s + 1\<rparr>" "[]" xs cb] assms
    by (simp add: alt_tick_def)
qed

section \<open>The meaning of the due time\<close>

text \<open>
  With \<open>N\<close> ticks since reset, the alarm is due at tick \<open>T\<close>: later than now by less than
  2^32 ticks, and flagged exactly when the counter rolls over in between.
\<close>

definition armed :: "nat \<Rightarrow> nat \<Rightarrow> alarm \<Rightarrow> bool" where
  "armed N T al \<longleftrightarrow> time al = of_nat T \<and> N < T \<and> T < N + 2 ^ 32 \<and>
     (rollover al \<longleftrightarrow> T div 2 ^ 32 \<noteq> N div 2 ^ 32)"

lemma u32_le: "(of_nat a :: u32) \<le> of_nat b \<longleftrightarrow> a mod 2 ^ 32 \<le> b mod 2 ^ 32"
  by (simp add: word_le_nat_alt unat_of_nat)

lemma u32_less: "(of_nat a :: u32) < of_nat b \<longleftrightarrow> a mod 2 ^ 32 < b mod 2 ^ 32"
  by (simp add: word_less_nat_alt unat_of_nat)

lemma u32_zero: "(of_nat a :: u32) = 0 \<longleftrightarrow> a mod 2 ^ 32 = 0"
  by (simp add: word_unat_eq_iff unat_of_nat)

text \<open>Two counts less than 2^32 apart lie in the same period of the counter or in the next.\<close>

lemma period_cases:
  fixes N T :: nat
  assumes "N \<le> T" "T < N + 2 ^ 32"
  obtains (same) "T div 2 ^ 32 = N div 2 ^ 32" "N mod 2 ^ 32 \<le> T mod 2 ^ 32"
      "T - N = T mod 2 ^ 32 - N mod 2 ^ 32"
  | (later) "T div 2 ^ 32 = N div 2 ^ 32 + 1" "T mod 2 ^ 32 < N mod 2 ^ 32"
proof -
  let ?B = "2 ^ 32 :: nat"
  have N: "N = N div ?B * ?B + N mod ?B" and T: "T = T div ?B * ?B + T mod ?B" by simp_all
  have m: "N mod ?B < ?B" "T mod ?B < ?B" by simp_all
  have "T div ?B = N div ?B \<or> T div ?B = N div ?B + 1"
  proof -
    have "N div ?B \<le> T div ?B" using assms(1) by (rule div_le_mono)
    moreover have "T div ?B \<le> (N + ?B) div ?B" using assms(2) by (intro div_le_mono) simp
    moreover have "(N + ?B) div ?B = N div ?B + 1" by simp
    ultimately show ?thesis by linarith
  qed
  then show thesis
  proof
    assume e: "T div ?B = N div ?B"
    then have "T = N div ?B * ?B + T mod ?B" using T by simp
    then show thesis using same e N assms(1) by linarith
  next
    assume e: "T div ?B = N div ?B + 1"
    then have "T = N div ?B * ?B + ?B + T mod ?B" using T by simp
    then show thesis using later e N assms(2) by linarith
  qed
qed

lemma armed_flag:
  assumes "time al = of_nat T" "N < T" "T < N + 2 ^ 32"
    "rollover al \<longleftrightarrow> (of_nat T :: u32) < of_nat N"
  shows "armed N T al"
  using assms period_cases [of N T] unfolding armed_def u32_less by force

text \<open>One tick later the alarm fires exactly if it is due, and otherwise stays armed.\<close>

lemma armed_tick:
  assumes "armed N T (alarms s a)" "alt_nticks s = of_nat (Suc N)"
  shows "fires a s \<longleftrightarrow> T = Suc N"
    and "T \<noteq> Suc N \<Longrightarrow> armed (Suc N) T (alarms (tick_alarm cb a s) a)"
proof -
  let ?al = "alarms s a"
  have t: "time ?al = of_nat T" and b: "Suc N \<le> T" "T < Suc N + 2 ^ 32"
    and f: "rollover ?al \<longleftrightarrow> T div 2 ^ 32 \<noteq> N div 2 ^ 32"
    using assms(1) by (auto simp: armed_def)
  have le: "T < N + 2 ^ 32" using assms(1) by (simp add: armed_def)
  have r: "(rollover ?al \<and> alt_nticks s \<noteq> 0) \<longleftrightarrow> T div 2 ^ 32 \<noteq> Suc N div 2 ^ 32"
  proof (cases "Suc N mod 2 ^ 32 = 0")
    case True
    then have z: "alt_nticks s = 0" by (simp only: assms(2) u32_zero)
    show ?thesis using period_cases [OF b] z True by auto
  next
    case False
    then have "Suc N div 2 ^ 32 = N div 2 ^ 32" by (simp add: div_Suc)
    moreover have "alt_nticks s \<noteq> 0" using False assms(2) u32_zero [of "Suc N"] by metis
    ultimately show ?thesis using f by simp
  qed
  show F: "fires a s \<longleftrightarrow> T = Suc N"
    using b
  proof (cases rule: period_cases)
    case same
    then have "\<not> (rollover ?al \<and> alt_nticks s \<noteq> 0)" using r by simp
    moreover have "time ?al \<le> alt_nticks s \<longleftrightarrow> T = Suc N"
      using same b(1) unfolding t assms(2) u32_le by linarith
    ultimately show ?thesis by (auto simp: fires_def)
  next
    case later
    then have "rollover ?al \<and> alt_nticks s \<noteq> 0" using r by simp
    moreover have "T \<noteq> Suc N" using later by auto
    ultimately show ?thesis by (simp add: fires_def)
  qed
  assume n: "T \<noteq> Suc N"
  then have "alarms (tick_alarm cb a s) a =
      (if rollover ?al \<and> alt_nticks s = 0 then ?al\<lparr>rollover := False\<rparr> else ?al)"
    using F by (auto simp: tick_alarm_def fires_def Let_def)
  moreover have "Suc N < T" using n b by simp
  ultimately show "armed (Suc N) T (alarms (tick_alarm cb a s) a)"
    using t r b f by (auto simp: armed_def)
qed

text \<open>An alarm that fires and is not stopped is armed again, its callback's answer later.\<close>

lemma armed_again:
  assumes "armed N (Suc N) (alarms s a)" "alt_nticks s = of_nat (Suc N)"
    and "calls cb a s = (c, w)" "c \<noteq> 0"
  shows "armed (Suc N) (Suc N + unat c) (alarms (tick_alarm cb a s) a)"
proof -
  have F: "fires a s" using armed_tick(1) [OF assms(1,2)] by simp
  let ?al = "alarms s a"
  have t: "time ?al = of_nat (Suc N)" using assms(1) by (simp add: armed_def)
  have c: "of_nat (Suc N + unat c) = time ?al + c" by (simp add: t)
  have "alarms (tick_alarm cb a s) a =
      (let al = (if rollover ?al \<and> alt_nticks s = 0 then ?al\<lparr>rollover := False\<rparr> else ?al);
           al = al\<lparr>time := time al + c\<rparr>
       in if time al < alt_nticks s then al\<lparr>rollover := True\<rparr> else al)"
    using F assms(3,4) by (auto simp: tick_alarm_def fires_def calls_def Let_def)
  moreover have "\<not> (rollover ?al \<and> alt_nticks s \<noteq> 0)" using F by (simp add: fires_def)
  ultimately have "time (alarms (tick_alarm cb a s) a) = of_nat (Suc N + unat c)"
    "rollover (alarms (tick_alarm cb a s) a) \<longleftrightarrow>
       (of_nat (Suc N + unat c) :: u32) < of_nat (Suc N)"
    unfolding c by (auto simp: Let_def assms(2))
  moreover have "0 < unat c" "unat c < 2 ^ 32"
    using assms(4) unsigned_less [of c] by (auto simp: unat_gt_0)
  ultimately show ?thesis by (intro armed_flag) auto
qed

section \<open>A tick of the clock\<close>

definition call_all :: "'w callbacks \<Rightarrow> (ptr \<Rightarrow> alarm) \<Rightarrow> ptr list \<Rightarrow> 'w \<Rightarrow> 'w" where
  "call_all cb al xs w = fold (\<lambda>a w. snd (cb (callback (al a)) (context_of (al a)) w)) xs w"

lemma call_all_cong:
  "(\<And>a. a \<in> set xs \<Longrightarrow> al a = al' a) \<Longrightarrow> call_all cb al xs w = call_all cb al' xs w"
  unfolding call_all_def by (rule fold_cong) auto

text \<open>What the callback of \<open>a\<close> answers in a tick in which the alarms of \<open>xs\<close> are due: it is called
  after those before it.\<close>

definition answer :: "'w callbacks \<Rightarrow> (ptr \<Rightarrow> alarm) \<Rightarrow> ptr list \<Rightarrow> 'w \<Rightarrow> ptr \<Rightarrow> u32" where
  "answer cb al xs w a =
     fst (cb (callback (al a)) (context_of (al a)) (call_all cb al (takeWhile (\<lambda>b. b \<noteq> a) xs) w))"

lemma answer_cong:
  assumes "\<And>b. b \<in> set (a # xs) \<Longrightarrow> al b = al' b"
  shows "answer cb al xs w a = answer cb al' xs w a"
proof -
  have "call_all cb al (takeWhile (\<lambda>b. b \<noteq> a) xs) w = call_all cb al' (takeWhile (\<lambda>b. b \<noteq> a) xs) w"
    by (rule call_all_cong) (use assms in \<open>auto dest: set_takeWhileD\<close>)
  then show ?thesis using assms by (simp add: answer_def)
qed

lemma answer_Cons: "a \<noteq> z \<Longrightarrow> answer cb al (z # xs) w a = answer cb al xs (call_all cb al [z] w) a"
  by (simp add: answer_def call_all_def)

lemma answer_first: "answer cb al (a # xs) w a = fst (cb (callback (al a)) (context_of (al a)) w)"
  by (simp add: answer_def call_all_def)

lemma tick_alarm_target:
  "callback (alarms (tick_alarm cb a s) a) = callback (alarms s a)"
  "context_of (alarms (tick_alarm cb a s) a) = context_of (alarms s a)"
  by (simp_all add: tick_alarm_def alt_alarm_stop_def Let_def split_beta)

text \<open>The alarms that go on after the tick, and when each is then due.\<close>

definition goes_on :: "nat \<Rightarrow> (ptr \<Rightarrow> nat) \<Rightarrow> (ptr \<Rightarrow> u32) \<Rightarrow> ptr \<Rightarrow> bool" where
  "goes_on N due ans a \<longleftrightarrow> (due a = Suc N \<longrightarrow> ans a \<noteq> 0)"

definition next_due :: "nat \<Rightarrow> (ptr \<Rightarrow> nat) \<Rightarrow> (ptr \<Rightarrow> u32) \<Rightarrow> ptr \<Rightarrow> nat" where
  "next_due N due ans a = (if due a = Suc N then Suc N + unat (ans a) else due a)"

lemma filter_goes_on_cong:
  "(\<And>b. b \<in> set xs \<Longrightarrow> ans b = ans' b) \<Longrightarrow> filter (goes_on N due ans) xs = filter (goes_on N due ans') xs"
  by (rule filter_cong) (simp_all add: goes_on_def)

lemma fold_tick:
  fixes cb :: "'w callbacks" and s :: "'w clock"
  assumes "ring (heap s) alt_alarm_list (ys @ zs)" "alt_nticks s = of_nat (Suc N)"
    and "\<And>z. z \<in> set zs \<Longrightarrow> armed N (due z) (alarms s z)"
  defines "s' \<equiv> fold (tick_alarm cb) zs s"
    and "ans \<equiv> answer cb (alarms s) (filter (\<lambda>z. due z = Suc N) zs) (world s)"
  shows "alt_nticks s' = of_nat (Suc N) \<and> (\<forall>a. a \<notin> set zs \<longrightarrow> alarms s' a = alarms s a) \<and>
    world s' = call_all cb (alarms s) (filter (\<lambda>z. due z = Suc N) zs) (world s) \<and>
    ring (heap s') alt_alarm_list (ys @ filter (goes_on N due ans) zs) \<and>
    (\<forall>z \<in> set zs. callback (alarms s' z) = callback (alarms s z) \<and> context_of (alarms s' z) = context_of (alarms s z) \<and>
       (goes_on N due ans z \<longrightarrow> armed (Suc N) (next_due N due ans z) (alarms s' z)))"
  using assms(1-3) unfolding s'_def ans_def
proof (induction zs arbitrary: s ys)
  case Nil
  then show ?case by (simp add: call_all_def)
next
  case (Cons z zs)
  let ?s = "tick_alarm cb z s"
  let ?keep = "if fires z s \<and> fst (calls cb z s) = 0 then [] else [z]"
  let ?due = "filter (\<lambda>z. due z = Suc N)"
  let ?ans = "answer cb (alarms s) (?due (z # zs)) (world s)"
  let ?ans1 = "answer cb (alarms ?s) (?due zs) (world ?s)"
  have z: "z \<notin> set zs" using llist.entries_distinct [OF Cons.prems(1)] by simp
  have r: "ring (heap ?s) alt_alarm_list ((ys @ ?keep) @ zs)"
    using tick_alarm_ring [OF Cons.prems(1)] by simp
  have n: "alt_nticks ?s = of_nat (Suc N)" using Cons.prems(2) by (simp add: tick_alarm_frame)
  have o: "alarms ?s b = alarms s b" if "b \<noteq> z" for b using that by (rule tick_alarm_frame)
  have o': "alarms ?s b = alarms s b" if "b \<in> set zs" for b using that z o by metis
  have a: "armed N (due b) (alarms ?s b)" if "b \<in> set zs" for b
    using o' [OF that] Cons.prems(3) [of b] that by simp
  have Z: "armed N (due z) (alarms s z)" using Cons.prems(3) by simp
  note F = armed_tick(1) [OF Z Cons.prems(2)]
  let ?s' = "fold (tick_alarm cb) zs ?s"
  have IH: "alt_nticks ?s' = of_nat (Suc N)" "\<And>b. b \<notin> set zs \<Longrightarrow> alarms ?s' b = alarms ?s b"
    "world ?s' = call_all cb (alarms ?s) (?due zs) (world ?s)"
    "ring (heap ?s') alt_alarm_list ((ys @ ?keep) @ filter (goes_on N due ?ans1) zs)"
    "\<And>b. b \<in> set zs \<Longrightarrow> callback (alarms ?s' b) = callback (alarms ?s b) \<and>
       context_of (alarms ?s' b) = context_of (alarms ?s b) \<and>
       (goes_on N due ?ans1 b \<longrightarrow> armed (Suc N) (next_due N due ?ans1 b) (alarms ?s' b))"
    using Cons.IH [OF r n a] by blast+
  have w: "world ?s = (if due z = Suc N then call_all cb (alarms s) [z] (world s) else world s)"
    using F by (simp add: tick_alarm_world calls_def call_all_def)
  have world: "world ?s' = call_all cb (alarms s) (?due (z # zs)) (world s)"
  proof -
    have "call_all cb (alarms ?s) (?due zs) v = call_all cb (alarms s) (?due zs) v" for v
      by (rule call_all_cong) (auto intro: o')
    then show ?thesis using IH(3) w by (simp add: call_all_def)
  qed
  have same: "?ans1 b = ?ans b" if "b \<in> set zs" for b
  proof -
    have "?ans1 b = answer cb (alarms s) (?due zs) (world ?s) b"
      by (rule answer_cong) (use o' that in auto)
    moreover have "b \<noteq> z" using that z by blast
    ultimately show ?thesis using w by (simp add: answer_Cons)
  qed
  have first: "goes_on N due ?ans z \<longleftrightarrow> \<not> (fires z s \<and> fst (calls cb z s) = 0)"
    "due z = Suc N \<Longrightarrow> ?ans z = fst (calls cb z s)"
    using F by (auto simp: goes_on_def answer_first calls_def)
  have "filter (goes_on N due ?ans1) zs = filter (goes_on N due ?ans) zs"
    by (rule filter_goes_on_cong) (rule same)
  then have ring: "ring (heap ?s') alt_alarm_list (ys @ filter (goes_on N due ?ans) (z # zs))"
    using IH(4) first(1) by (simp only: append_assoc filter.simps append_Cons append_Nil split: if_split) auto
  have "callback (alarms ?s' b) = callback (alarms s b) \<and> context_of (alarms ?s' b) = context_of (alarms s b) \<and>
      (goes_on N due ?ans b \<longrightarrow> armed (Suc N) (next_due N due ?ans b) (alarms ?s' b))"
    if b: "b \<in> set (z # zs)" for b
  proof (cases "b = z")
    case False
    then have "b \<in> set zs" using b by simp
    from this have "goes_on N due ?ans1 b = goes_on N due ?ans b" "next_due N due ?ans1 b = next_due N due ?ans b"
      by (simp_all only: goes_on_def next_due_def same)
    then show ?thesis using IH(5) [OF \<open>b \<in> set zs\<close>] unfolding o' [OF \<open>b \<in> set zs\<close>] by metis
  next
    case True
    have "armed (Suc N) (next_due N due ?ans z) (alarms ?s z)" if g: "goes_on N due ?ans z"
    proof (cases "due z = Suc N")
      case True
      then show ?thesis
        using armed_again [of N s z cb "?ans z" "snd (calls cb z s)"] Z Cons.prems(2) first(2) g
        by (simp add: goes_on_def next_due_def)
    next
      case False
      then show ?thesis using armed_tick(2) [OF Z Cons.prems(2)] by (simp add: next_due_def)
    qed
    then show ?thesis using True IH(2) [OF z] by (simp add: tick_alarm_target)
  qed
  moreover have "\<forall>b. b \<notin> set (z # zs) \<longrightarrow> alarms ?s' b = alarms s b" using IH(2) o by auto
  ultimately show ?case using IH(1) world ring by (simp only: fold_simps) blast
qed

text \<open>C17. alt_tick always returns; it calls the callbacks of exactly the alarms that are due at
  this tick, in the order of the list and once each, also when the 32-bit tick counter rolls
  over. An alarm that is not due stays in the list, armed for the time it had. An alarm that was
  due and whose callback answers a number other than 0 stays in the list too, armed for that
  many ticks later; one whose callback answers 0 is unlinked. So the list is the old one, in its
  order, without exactly the latter, and every alarm keeps its callback and context.\<close>
theorem alt_tick_fires_due:
  fixes cb :: "'w callbacks" and s :: "'w clock"
  assumes "ring (heap s) alt_alarm_list xs" "alt_nticks s = of_nat N"
    and "\<And>a. a \<in> set xs \<Longrightarrow> armed N (due a) (alarms s a)"
  defines "ans \<equiv> answer cb (alarms s) (filter (\<lambda>a. due a = Suc N) xs) (world s)"
  shows "\<exists>s'. alt_tick cb s = Some s' \<and> alt_nticks s' = of_nat (Suc N) \<and>
    world s' = call_all cb (alarms s) (filter (\<lambda>a. due a = Suc N) xs) (world s) \<and>
    ring (heap s') alt_alarm_list (filter (\<lambda>a. due a = Suc N \<longrightarrow> ans a \<noteq> 0) xs) \<and>
    (\<forall>a \<in> set xs. callback (alarms s' a) = callback (alarms s a) \<and> context_of (alarms s' a) = context_of (alarms s a) \<and>
       (due a \<noteq> Suc N \<longrightarrow> armed (Suc N) (due a) (alarms s' a)) \<and>
       (due a = Suc N \<longrightarrow> ans a \<noteq> 0 \<longrightarrow> armed (Suc N) (Suc N + unat (ans a)) (alarms s' a)))"
proof -
  let ?s = "s\<lparr>alt_nticks := alt_nticks s + 1\<rparr>"
  have "alt_nticks ?s = of_nat (Suc N)" using assms(2) by simp
  note f = fold_tick [of ?s "[]" xs N due cb, OF _ this]
  let ?t = "fold (tick_alarm cb) xs ?s"
  have t: "alt_nticks ?t = of_nat (Suc N)"
    "world ?t = call_all cb (alarms s) (filter (\<lambda>a. due a = Suc N) xs) (world s)"
    "ring (heap ?t) alt_alarm_list (filter (goes_on N due ans) xs)"
    "\<And>a. a \<in> set xs \<Longrightarrow> callback (alarms ?t a) = callback (alarms s a) \<and> context_of (alarms ?t a) = context_of (alarms s a)"
    "\<And>a. a \<in> set xs \<Longrightarrow> goes_on N due ans a \<Longrightarrow> armed (Suc N) (next_due N due ans a) (alarms ?t a)"
    using f assms(1,3) unfolding ans_def by simp_all
  have "armed (Suc N) (due a) (alarms ?t a)" if "a \<in> set xs" "due a \<noteq> Suc N" for a
    using t(5) [OF that(1)] that(2) by (simp add: goes_on_def next_due_def)
  moreover have "armed (Suc N) (Suc N + unat (ans a)) (alarms ?t a)"
    if "a \<in> set xs" "due a = Suc N" "ans a \<noteq> 0" for a
    using t(5) [OF that(1)] that(2,3) by (simp add: goes_on_def next_due_def)
  ultimately show ?thesis
    using t(1-4) by (intro exI [of _ ?t]) (simp add: alt_tick_fold [OF assms(1)] goes_on_def [abs_def])
qed

section \<open>The life of one alarm\<close>

lemma started_armed:
  assumes "alt_nticks s = of_nat N" "unat n + 1 < 2 ^ 32" "alt_tick_rate s \<noteq> 0" "a \<noteq> 0"
  shows "armed N (N + unat n + 1) (alarms (snd (alt_alarm_start a n f c s)) a)"
proof -
  have "n + alt_nticks s + 1 = of_nat (N + unat n + 1)" using assms(1) by (simp add: algebra_simps)
  then show ?thesis
    using assms by (intro armed_flag) (auto simp: alt_alarm_start_def Let_def algebra_simps)
qed

lemma started_ring:
  assumes "ring (heap s) alt_alarm_list xs" "a \<notin> set (alt_alarm_list # xs)"
    "alt_tick_rate s \<noteq> 0" "a \<noteq> 0"
  shows "ring (heap (snd (alt_alarm_start a n f c s))) alt_alarm_list (a # xs)"
  using llist.inserted [OF assms(1,2)] assms(3,4) by (simp add: alt_alarm_start_def Let_def)

text \<open>The only alarm: nothing happens for \<open>k\<close> ticks before it is due.\<close>

lemma quiet_ticks:
  assumes "ring (heap s) alt_alarm_list [a]" "alt_nticks s = of_nat N"
    and "armed N T (alarms s a)" "N + k < T"
  shows "\<exists>s'. alt_ticks cb k s = Some s' \<and> ring (heap s') alt_alarm_list [a] \<and>
    alt_nticks s' = of_nat (N + k) \<and> armed (N + k) T (alarms s' a) \<and> world s' = world s \<and>
    callback (alarms s' a) = callback (alarms s a) \<and> context_of (alarms s' a) = context_of (alarms s a)"
  using assms
proof (induction k arbitrary: s N)
  case (Suc k)
  let ?s = "s\<lparr>alt_nticks := alt_nticks s + 1\<rparr>"
  let ?t = "tick_alarm cb a ?s"
  have n: "alt_nticks ?s = of_nat (Suc N)" using Suc.prems(2) by simp
  have a: "armed N T (alarms ?s a)" using Suc.prems(3) by simp
  have "\<not> fires a ?s" using armed_tick(1) [OF a n] Suc.prems(4) by simp
  then have t: "heap ?t = heap s" "world ?t = world s" "alt_nticks ?t = of_nat (Suc N)"
    "callback (alarms ?t a) = callback (alarms s a)" "context_of (alarms ?t a) = context_of (alarms s a)"
    using n by (simp_all add: tick_alarm_heap tick_alarm_world tick_alarm_frame)
      (auto simp: tick_alarm_def fires_def Let_def)
  have "armed (Suc N) T (alarms ?t a)" using armed_tick(2) [OF a n] Suc.prems(4) by simp
  from Suc.IH [of ?t "Suc N", OF _ t(3) this] Suc.prems(1,4) t show ?case
    by (simp add: alt_tick_fold [OF Suc.prems(1)])
qed simp

text \<open>C18. An alarm started with nticks = n, on an empty list, is called at the (n+1)-th tick
  after the call and not before, whatever the value of the 32-bit counter was and whether or not
  it rolls over in between; this holds for every n below 2^32 - 1.\<close>
theorem alarm_fires_exactly:
  fixes s :: "'w clock" and n :: u32 and f c :: ptr
  assumes "ring (heap s) alt_alarm_list []" "alt_tick_rate s \<noteq> 0" "a \<noteq> 0" "a \<noteq> alt_alarm_list"
    and "unat n + 1 < 2 ^ 32"
  defines "s1 \<equiv> snd (alt_alarm_start a n f c s)"
  shows "\<exists>t t'. alt_ticks cb (unat n) s1 = Some t \<and> world t = world s \<and>
    alt_tick cb t = Some t' \<and> world t' = snd (cb f c (world s))"
proof -
  let ?N = "unat (alt_nticks s)"
  have N: "alt_nticks s = of_nat ?N" by simp
  have w: "world s1 = world s" "alt_nticks s1 = alt_nticks s" "callback (alarms s1 a) = f"
    "context_of (alarms s1 a) = c"
    using assms(2,3) by (simp_all add: s1_def alt_alarm_start_def Let_def)
  have r: "ring (heap s1) alt_alarm_list [a]"
    unfolding s1_def by (rule started_ring) (use assms in auto)
  have A: "armed ?N (?N + unat n + 1) (alarms s1 a)"
    unfolding s1_def by (rule started_armed [OF N assms(5,2,3)])
  obtain t where t: "alt_ticks cb (unat n) s1 = Some t" "ring (heap t) alt_alarm_list [a]"
    "alt_nticks t = of_nat (?N + unat n)" "armed (?N + unat n) (?N + unat n + 1) (alarms t a)"
    "world t = world s1" "callback (alarms t a) = f" "context_of (alarms t a) = c"
    using quiet_ticks [OF r _ A, of "unat n" cb] w N by auto
  let ?t = "t\<lparr>alt_nticks := alt_nticks t + 1\<rparr>"
  have "fires a ?t"
    using armed_tick(1) [of "?N + unat n" "?N + unat n + 1" ?t a] t(3,4) by simp
  then have "world (tick_alarm cb a ?t) = snd (cb f c (world s))"
    using t(5-7) w(1) by (simp add: tick_alarm_world calls_def)
  then show ?thesis
    using t(1,5) w(1) by (simp add: alt_tick_fold [OF t(2)])
qed

text \<open>
  The bound is sharp. With n = 2^32 - 1 the due time wraps around to the current tick, which is
  not flagged as a roll-over, and the alarm fires at the next tick.
\<close>

definition clock_at :: "u32 \<Rightarrow> nat clock" where
  "clock_at k = \<lparr>heap = ALT_LLIST_HEAD alt_alarm_list \<lparr>next_of = id, prev_of = id\<rparr>,
     alarms = (\<lambda>a. \<lparr>time = 0, rollover = False, callback = 0, context_of = 0\<rparr>),
     alt_nticks = k, alt_tick_rate = 1000, world = 0\<rparr>"

lemma clock_ring: "ring (heap (clock_at k)) alt_alarm_list []"
  by (simp add: clock_at_def ring_empty)

definition count_calls :: "nat callbacks" where
  "count_calls f c w = (of_nat c, w + 1)"

theorem alarm_fires_exactly_witness:
  "\<exists>t t'. alt_ticks count_calls 2 (snd (alt_alarm_start 7 2 0 0 (clock_at 0xFFFFFFFE))) = Some t \<and>
     world t = 0 \<and> alt_tick count_calls t = Some t' \<and> world t' = 1"
  using alarm_fires_exactly [OF clock_ring, of "0xFFFFFFFE" 7 2 count_calls 0 0]
  by (simp add: clock_at_def alt_alarm_list_def count_calls_def)

text \<open>A periodic alarm: its callback asks for three more ticks.\<close>

definition every_third :: "nat callbacks" where
  "every_third f c w = (3, w + 1)"

theorem alt_tick_fires_due_witness:
  "\<exists>s'. alt_tick every_third (snd (alt_alarm_start 7 0 0 0 (clock_at 0xFFFFFFFE))) = Some s' \<and>
     world s' = 1 \<and> ring (heap s') alt_alarm_list [7] \<and> armed 0xFFFFFFFF (0xFFFFFFFF + 3) (alarms s' 7)"
proof -
  let ?s = "snd (alt_alarm_start 7 0 0 0 (clock_at 0xFFFFFFFE))"
  have r: "ring (heap ?s) alt_alarm_list [7]"
    by (rule started_ring [OF clock_ring]) (simp_all add: clock_at_def alt_alarm_list_def)
  have n: "alt_nticks ?s = of_nat 0xFFFFFFFE" "world ?s = 0"
    by (simp_all add: alt_alarm_start_def clock_at_def Let_def)
  have "armed 0xFFFFFFFE (0xFFFFFFFE + unat (0 :: u32) + 1) (alarms ?s 7)"
    by (rule started_armed) (simp_all add: clock_at_def)
  then have A: "a \<in> set [7] \<Longrightarrow> armed 0xFFFFFFFE (Suc 0xFFFFFFFE) (alarms ?s a)" for a by simp
  show ?thesis
    using alt_tick_fires_due [where due = "\<lambda>a. Suc 0xFFFFFFFE" and cb = every_third, OF r n(1) A] n(2)
    by (auto simp: call_all_def answer_first every_third_def)
qed

text \<open>An alarm started with the largest number of ticks, 2^32 - 1, fires at the very next
  tick instead of after 2^32 ticks, at any value of the counter.\<close>
theorem alarm_longest_fires_at_once:
  assumes "ring (heap s) alt_alarm_list []" "alt_tick_rate s \<noteq> 0" "a \<noteq> 0" "a \<noteq> alt_alarm_list"
    and "alt_nticks s \<noteq> 0xFFFFFFFF"
  shows "\<exists>t. alt_tick cb (snd (alt_alarm_start a 0xFFFFFFFF f c s)) = Some t \<and>
    world t = snd (cb f c (world s))"
proof -
  let ?s = "snd (alt_alarm_start a 0xFFFFFFFF f c s)"
  let ?t = "?s\<lparr>alt_nticks := alt_nticks ?s + 1\<rparr>"
  have r: "ring (heap ?s) alt_alarm_list [a]" by (rule started_ring) (use assms in auto)
  have m1: "(0xFFFFFFFF :: u32) = - 1" by simp
  have al: "alarms ?s a = \<lparr>time = alt_nticks s, rollover = False, callback = f, context_of = c\<rparr>"
    "alt_nticks ?s = alt_nticks s" "world ?s = world s"
    using assms(2,3) m1 by (simp_all add: alt_alarm_start_def Let_def m1)
  have "alt_nticks s \<le> alt_nticks s + 1"
  proof -
    have "unat (alt_nticks s) \<noteq> 0xFFFFFFFF" using assms(5) by (auto simp: word_unat_eq_iff)
    moreover have "unat (alt_nticks s) < 2 ^ LENGTH(32)" by (rule unsigned_less)
    ultimately have "unat (alt_nticks s) + 1 < 2 ^ 32" by simp
    then show ?thesis by (simp add: word_le_nat_alt unat_word_ariths)
  qed
  then have "fires a ?t" using al by (simp add: fires_def)
  then have "world (tick_alarm cb a ?t) = snd (cb f c (world s))"
    using al by (simp add: tick_alarm_world calls_def)
  then show ?thesis by (simp add: alt_tick_fold [OF r])
qed

theorem alarm_longest_fires_at_once_witness:
  "\<exists>t. alt_tick count_calls (snd (alt_alarm_start 7 0xFFFFFFFF 0 0 (clock_at 5))) = Some t \<and> world t = 1"
  using alarm_longest_fires_at_once [OF clock_ring, of 5 7 count_calls 0 0]
  by (simp add: clock_at_def alt_alarm_list_def count_calls_def)

end
