(* ===== verification/Hal_Boot.thy ===== *)
theory Hal_Boot
  imports Hal_Proc Hal_Irq_Props Hal_Alarm Jtag_Props
begin

text \<open>
  The start of the system (alt_sys_init.c, alt_main.c, the device instance of
  altera_avalon_jtag_uart_fd.h): how the interrupt controller, the UART driver, the device list
  and the standard streams are put together before main is called. The state nests the
  components: the interrupt state holds as its devices the file layer, whose driver state is the
  UART with the memory the calls' buffers are in; the alarm clock is beside them. No interrupt is
  served while the system starts.
\<close>

section \<open>The UART as a device\<close>

record 'd jtag_world =
  jtag :: "'d uart"
  memory :: "ptr \<Rightarrow> u8"

definition store_bytes :: "ptr \<Rightarrow> u8 list \<Rightarrow> (ptr \<Rightarrow> u8) \<Rightarrow> ptr \<Rightarrow> u8" where
  "store_bytes p bs mm = (\<lambda>a. if p \<le> a \<and> a < p + length bs then bs ! (a - p) else mm a)"

definition jtag_read_fd ::
  "'d jtag_hw \<Rightarrow> ('d uart \<Rightarrow> 'd uart) \<Rightarrow> fd \<Rightarrow> ptr \<Rightarrow> int \<Rightarrow> 'd jtag_world \<Rightarrow> (int \<times> 'd jtag_world) option" where
  "jtag_read_fd H env f p n w =
     map_option (\<lambda>(r, bs, u). (r, w\<lparr>jtag := u, memory := store_bytes p bs (memory w)\<rparr>))
       (uart_read_fd H env f n (jtag w))"

definition jtag_write_fd ::
  "'d jtag_hw \<Rightarrow> ('d uart \<Rightarrow> 'd uart) \<Rightarrow> fd \<Rightarrow> ptr \<Rightarrow> int \<Rightarrow> 'd jtag_world \<Rightarrow> (int \<times> 'd jtag_world) option" where
  "jtag_write_fd H env f p n w =
     map_option (\<lambda>(r, u). (r, w\<lparr>jtag := u\<rparr>))
       (uart_write_fd H env f (map (memory w) [p..<p + nat n]) (jtag w))"

definition jtag_close_fd :: "('d uart \<Rightarrow> 'd uart) \<Rightarrow> fd \<Rightarrow> 'd jtag_world \<Rightarrow> (int \<times> 'd jtag_world) option" where
  "jtag_close_fd env f w = map_option (\<lambda>(r, u). (r, w\<lparr>jtag := u\<rparr>)) (uart_close_fd env f (jtag w))"

text \<open>The word an ioctl argument points to is four bytes of the memory, the low one first.\<close>

definition load_word :: "(ptr \<Rightarrow> u8) \<Rightarrow> ptr \<Rightarrow> u32" where
  "load_word mm p = ucast (mm p) OR push_bit 8 (ucast (mm (p + 1))) OR
     push_bit 16 (ucast (mm (p + 2))) OR push_bit 24 (ucast (mm (p + 3)))"

definition word_bytes :: "u32 \<Rightarrow> u8 list" where
  "word_bytes v = [ucast v, ucast (drop_bit 8 v), ucast (drop_bit 16 v), ucast (drop_bit 24 v)]"

definition jtag_ioctl_fd :: "fd \<Rightarrow> u32 \<Rightarrow> ptr \<Rightarrow> 'd jtag_world \<Rightarrow> (int \<times> 'd jtag_world) option" where
  "jtag_ioctl_fd f req arg w =
     (let (r, v, u) = uart_ioctl_fd f req (load_word (memory w) arg) (jtag w)
      in Some (r, w\<lparr>jtag := u, memory := store_bytes arg (word_bytes v) (memory w)\<rparr>))"

definition JTAG_UART_0_NAME :: string where "JTAG_UART_0_NAME = ''/dev/jtag_uart_0''"
definition JTAG_UART_0_IRQ :: u32 where "JTAG_UART_0_IRQ = 0"

definition jtag_uart_dev_instance :: "'d jtag_hw \<Rightarrow> ('d uart \<Rightarrow> 'd uart) \<Rightarrow> 'd jtag_world device" where
  "jtag_uart_dev_instance H env = \<lparr>dev_name = Some JTAG_UART_0_NAME, dev_open = None,
     dev_close = Some (jtag_close_fd env), dev_read = Some (jtag_read_fd H env),
     dev_write = Some (jtag_write_fd H env), dev_lseek = None, dev_fstat = None,
     dev_ioctl = Some jtag_ioctl_fd\<rparr>"

section \<open>The system\<close>

record 'd system =
  cpu :: "'d jtag_world hal irqs"
  clk :: "unit clock"

text \<open>The addresses of the device, its state, its alarm and its two callbacks.\<close>

definition jtag_uart_0 :: ptr where "jtag_uart_0 = 9"
definition jtag_state :: ptr where "jtag_state = 10"
definition jtag_alarm :: ptr where "jtag_alarm = 11"
definition jtag_irq_fn :: ptr where "jtag_irq_fn = 12"
definition jtag_timeout_fn :: ptr where "jtag_timeout_fn = 13"

abbreviation on_driver :: "('w \<Rightarrow> 'w) \<Rightarrow> 'w hal irqs \<Rightarrow> 'w hal irqs" where
  "on_driver f s \<equiv> s\<lparr>devices := (devices s)\<lparr>driver := f (driver (devices s))\<rparr>\<rparr>"

text \<open>
  The whole of altera_avalon_jtag_uart_init, in its order: the receive interrupt is enabled at the
  device before its handler is registered with the processor; then the count of the host's
  inactivity and the alarm, for want of which the timeout is disabled. \<open>uart_init\<close> is what the
  statements together do to the UART.
\<close>

definition jtag_init :: "'d jtag_hw \<Rightarrow> u32 \<Rightarrow> u32 \<Rightarrow> 'd system \<Rightarrow> 'd system option" where
  "jtag_init H ic irq b =
     (let c = on_driver (\<lambda>w. w\<lparr>jtag := (jtag w)\<lparr>irq_enable := CONTROL_RE_MSK\<rparr>\<rparr>) (cpu b);
          c = on_driver (\<lambda>w. w\<lparr>jtag := IOWR_CONTROL H (irq_enable (jtag w)) (jtag w)\<rparr>) c
      in map_option (\<lambda>(_, c).
           let c = on_driver (\<lambda>w. w\<lparr>jtag := (jtag w)\<lparr>host_inactive := 0\<rparr>\<rparr>) c;
               (rc, k) = alt_alarm_start jtag_alarm (alt_tick_rate (clk b)) jtag_timeout_fn jtag_state (clk b)
           in \<lparr>cpu = (if rc < 0 then on_driver (\<lambda>w. w\<lparr>jtag := (jtag w)\<lparr>timeout := INT_MAX\<rparr>\<rparr>) c else c),
               clk = k\<rparr>)
         (alt_ic_isr_register ic irq jtag_irq_fn jtag_state c))"

definition alt_sys_init :: "'d jtag_hw \<Rightarrow> 'd system \<Rightarrow> 'd system option" where
  "alt_sys_init H b =
     map_option (\<lambda>b. b\<lparr>cpu := (cpu b)\<lparr>devices := snd (alt_dev_reg jtag_uart_0 (devices (cpu b)))\<rparr>\<rparr>)
       (jtag_init H 0 JTAG_UART_0_IRQ b)"

text \<open>alt_main up to the call of main, with the constructors of the program.\<close>

definition alt_main_start :: "'d jtag_hw \<Rightarrow> ('d system \<Rightarrow> 'd system) list \<Rightarrow> 'd system \<Rightarrow> 'd system option" where
  "alt_main_start H ctors b =
     Option.bind (alt_sys_init H (b\<lparr>cpu := alt_irq_init (cpu b)\<rparr>)) (\<lambda>b.
     map_option (\<lambda>h. do_ctors ctors (b\<lparr>cpu := (cpu b)\<lparr>devices := h\<rparr>\<rparr>))
       (alt_io_redirect JTAG_UART_0_NAME JTAG_UART_0_NAME JTAG_UART_0_NAME (devices (cpu b))))"

text \<open>And after it, if main returns: the standard output is closed, the destructors run and the
  processor stops with the program's result.\<close>

definition alt_main ::
  "'d jtag_hw \<Rightarrow> ('d system \<Rightarrow> 'd system) list \<Rightarrow> ('d system \<Rightarrow> 'd system) list \<Rightarrow>
   ('d system \<Rightarrow> (int \<times> 'd system) option) \<Rightarrow> 'd system \<Rightarrow> (int \<times> 'd system) option" where
  "alt_main H ctors dtors prog b =
     Option.bind (alt_main_start H ctors b) (\<lambda>b.
     Option.bind (prog b) (\<lambda>(result, b).
     map_option (\<lambda>(_, h). (result, do_dtors dtors (b\<lparr>cpu := (cpu b)\<lparr>devices := h\<rparr>\<rparr>)))
       (alt_close 1 (devices (cpu b)))))"

text \<open>The memory as the startup code leaves it, with any contents of the hardware and the buffers.
  No device of this system is its system clock, so that nobody sets a tick rate.\<close>

definition clock_init :: "unit clock" where
  "clock_init = \<lparr>heap = \<lparr>next_of = id, prev_of = id\<rparr>,
     alarms = (\<lambda>_. \<lparr>time = 0, rollover = False, callback = 0, context_of = 0\<rparr>),
     alt_nticks = 0, alt_tick_rate = 0, world = ()\<rparr>"

definition system_init :: "'d jtag_hw \<Rightarrow> ('d uart \<Rightarrow> 'd uart) \<Rightarrow> 'd \<Rightarrow> (ptr \<Rightarrow> u8) \<Rightarrow> 'd system" where
  "system_init H env d mm = \<lparr>
     cpu = irqs_init (hal_init (\<lambda>a. jtag_uart_dev_instance H env) \<lparr>jtag = uart_instance d, memory = mm\<rparr>),
     clk = clock_init\<rparr>"

section \<open>The system's interrupts\<close>

text \<open>The request line of the UART, given by a function of its registers, and the code that the
  table of service routines leads to: the UART's handler, or no code at all.\<close>

definition jtag_line :: "('d \<Rightarrow> bool) \<Rightarrow> 'd jtag_world hal \<Rightarrow> u32" where
  "jtag_line line h = (if line (regs (jtag (driver h))) then irq_bit JTAG_UART_0_IRQ else 0)"

definition system_isr ::
  "'d jtag_hw \<Rightarrow> ptr \<Rightarrow> ptr \<Rightarrow> 'd jtag_world hal irqs \<Rightarrow> 'd jtag_world hal irqs option" where
  "system_isr H f c s =
     (if f = jtag_irq_fn \<and> c = jtag_state
      then map_option (\<lambda>u. on_driver (\<lambda>w. w\<lparr>jtag := u\<rparr>) s) (uart_irq H (jtag (driver (devices s))))
      else None)"

section \<open>What the start leaves\<close>

text \<open>The device list, the streams and the interrupt of a started system; \<open>u\<close> is its UART.\<close>

definition started :: "'d jtag_hw \<Rightarrow> ('d uart \<Rightarrow> 'd uart) \<Rightarrow> 'd jtag_world \<Rightarrow> 'd jtag_world hal irqs \<Rightarrow> bool" where
  "started H env w c \<longleftrightarrow>
     fd_wf (devices c) \<and> ring (dev_heap (devices c)) alt_dev_list [jtag_uart_0, alt_dev_null_addr] \<and>
     dev_of (devices c) jtag_uart_0 = jtag_uart_dev_instance H env \<and> driver (devices c) = w \<and>
     (\<forall>k < 3. fd_dev (fd_at (devices c) k) = jtag_uart_0) \<and>
     fd_flags (fd_at (devices c) 0) = O_RDONLY OR ALT_FD_DEV \<and>
     fd_flags (fd_at (devices c) 1) = O_WRONLY OR ALT_FD_DEV \<and>
     fd_flags (fd_at (devices c) 2) = O_WRONLY OR ALT_FD_DEV \<and>
     (\<forall>j < ALT_MAX_FD. used (devices c) j \<longleftrightarrow> j < 3) \<and>
     alt_irq c ! unat JTAG_UART_0_IRQ = (jtag_irq_fn, jtag_state) \<and> ienable c = irq_bit JTAG_UART_0_IRQ \<and>
     status c = NIOS2_STATUS_PIE_MSK"

end
