(* ===== verification/Jtag_Steps.thy ===== *)
theory Jtag_Steps
  imports Jtag_Uart
begin

text \<open>
  The write and read calls of the JTAG UART driver one access to shared memory at a time, so that
  interrupts can be modelled where they really arrive: between any two of the steps, while the
  processor accepts them. A call is a program counter and the record of its local variables;
  \<open>wstep\<close> and \<open>rstep\<close> are the statements of the two functions, in their order. The copying by
  memcpy goes byte by byte. The interrupt handler and the timeout callback run with interrupts
  disabled, so they are single steps (\<open>uart_irq\<close>, \<open>uart_timeout\<close> of Jtag_Uart).
\<close>

section \<open>The write call\<close>

datatype wpc =
    W_loop | W_out | W_room | W_copy nat | W_publish
  | W_disable | W_or | W_iowr | W_restore
  | W_left | W_wait_out | W_wait_host | W_inactive | W_return

text \<open>\<open>w_ptr\<close> is \<open>ptr - start\<close>; \<open>w_context\<close> is the result of \<open>alt_irq_disable_all\<close>.\<close>

record wcall =
  w_text :: "u8 list"
  w_flags :: u32
  w_ptr :: nat
  w_count :: nat
  w_in :: nat
  w_out :: nat
  w_n :: nat
  w_context :: bool

definition write_start :: "u8 list \<Rightarrow> u32 \<Rightarrow> wcall" where
  "write_start xs flags = \<lparr>w_text = xs, w_flags = flags, w_ptr = 0, w_count = length xs, w_in = 0,
     w_out = 0, w_n = 0, w_context = False\<rparr>"

definition nonblock :: "u32 \<Rightarrow> bool" where
  "nonblock flags \<longleftrightarrow> flags AND O_NONBLOCK \<noteq> 0"

text \<open>One step: the next program point, the local variables, whether the processor accepts
  interrupts, and the driver's state.\<close>

fun wstep :: "'d jtag_hw \<Rightarrow> wpc \<Rightarrow> wcall \<Rightarrow> bool \<Rightarrow> 'd uart \<Rightarrow> wpc \<times> wcall \<times> bool \<times> 'd uart" where
  "wstep H W_loop w on u =
     (if w_count w > 0 then (W_out, w\<lparr>w_in := tx_in u\<rparr>, on, u) else (W_disable, w, on, u))"
| "wstep H W_out w on u = (W_room, w\<lparr>w_out := tx_out u\<rparr>, on, u)"
| "wstep H W_room w on u =
     (let n = (if w_in w < w_out w then w_out w - 1 - w_in w
               else if w_out w > 0 then BUF_LEN - w_in w else BUF_LEN - 1 - w_in w)
      in if n = 0 then (W_disable, w, on, u)
         else (W_copy 0, w\<lparr>w_n := (if n > w_count w then w_count w else n)\<rparr>, on, u))"
| "wstep H (W_copy i) w on u =
     (if i < w_n w
      then (W_copy (i + 1), w, on, u\<lparr>tx_buf := (tx_buf u)[w_in w + i := w_text w ! (w_ptr w + i)]\<rparr>)
      else (W_publish, w, on, u))"
| "wstep H W_publish w on u =
     (W_loop, w\<lparr>w_ptr := w_ptr w + w_n w, w_count := w_count w - w_n w\<rparr>, on,
      u\<lparr>tx_in := (w_in w + w_n w) mod BUF_LEN\<rparr>)"
| "wstep H W_disable w on u = (W_or, w\<lparr>w_context := on\<rparr>, False, u)"
| "wstep H W_or w on u = (W_iowr, w, on, u\<lparr>irq_enable := irq_enable u OR CONTROL_WE_MSK\<rparr>)"
| "wstep H W_iowr w on u = (W_restore, w, on, IOWR_CONTROL H (irq_enable u) u)"
| "wstep H W_restore w on u = (W_left, w, w_context w, u)"
| "wstep H W_left w on u =
     (if w_count w > 0 then (if nonblock (w_flags w) then W_return else W_wait_out, w, on, u)
      else (W_return, w, on, u))"
| "wstep H W_wait_out w on u = (if w_out w = tx_out u then W_wait_host else W_inactive, w, on, u)"
| "wstep H W_wait_host w on u = (if host_there u then W_wait_out else W_inactive, w, on, u)"
| "wstep H W_inactive w on u = (if host_inactive u \<noteq> 0 then W_return else W_loop, w, on, u)"
| "wstep H W_return w on u = (W_return, w, on, u)"

definition write_value :: "wcall \<Rightarrow> int" where
  "write_value w =
     (if w_ptr w \<noteq> 0 then int (w_ptr w) else if nonblock (w_flags w) then - EWOULDBLOCK else - EIO)"

section \<open>The read call\<close>

datatype rpc =
    R_while | R_in | R_out | R_room | R_copy nat | R_publish
  | R_got | R_wait_in | R_wait_host | R_moved | R_test
  | R_disable | R_or | R_iowr | R_restore | R_return

text \<open>\<open>r_bytes\<close> is the part of the caller's buffer that was written, \<open>r_ptr\<close> is \<open>ptr - buffer\<close>. A
  negative space is no space.\<close>

record rcall =
  r_bytes :: "u8 list"
  r_flags :: u32
  r_ptr :: nat
  r_space :: nat
  r_in :: nat
  r_out :: nat
  r_n :: nat
  r_context :: bool

definition read_start :: "int \<Rightarrow> u32 \<Rightarrow> rcall" where
  "read_start space flags = \<lparr>r_bytes = [], r_flags = flags, r_ptr = 0, r_space = nat space, r_in = 0,
     r_out = 0, r_n = 0, r_context = False\<rparr>"

fun rstep :: "'d jtag_hw \<Rightarrow> rpc \<Rightarrow> rcall \<Rightarrow> bool \<Rightarrow> 'd uart \<Rightarrow> rpc \<times> rcall \<times> bool \<times> 'd uart" where
  "rstep H R_while r on u = (if r_space r > 0 then R_in else R_test, r, on, u)"
| "rstep H R_in r on u = (R_out, r\<lparr>r_in := rx_in u\<rparr>, on, u)"
| "rstep H R_out r on u = (R_room, r\<lparr>r_out := rx_out u\<rparr>, on, u)"
| "rstep H R_room r on u =
     (let n = (if r_in r \<ge> r_out r then r_in r - r_out r else BUF_LEN - r_out r)
      in if n = 0 then (R_got, r, on, u)
         else (R_copy 0, r\<lparr>r_n := (if n > r_space r then r_space r else n)\<rparr>, on, u))"
| "rstep H (R_copy i) r on u =
     (if i < r_n r
      then (R_copy (i + 1), r\<lparr>r_bytes := r_bytes r @ [rx_buf u ! (r_out r + i)]\<rparr>, on, u)
      else (R_publish, r, on, u))"
| "rstep H R_publish r on u =
     (if r_space r - r_n r > 0 then R_in else R_got,
      r\<lparr>r_ptr := r_ptr r + r_n r, r_space := r_space r - r_n r\<rparr>, on,
      u\<lparr>rx_out := (r_out r + r_n r) mod BUF_LEN\<rparr>)"
| "rstep H R_got r on u =
     (if r_ptr r \<noteq> 0 \<or> nonblock (r_flags r) then R_test else R_wait_in, r, on, u)"
| "rstep H R_wait_in r on u = (if r_in r = rx_in u then R_wait_host else R_moved, r, on, u)"
| "rstep H R_wait_host r on u = (if host_there u then R_wait_in else R_moved, r, on, u)"
| "rstep H R_moved r on u = (if r_in r = rx_in u then R_test else R_while, r, on, u)"
| "rstep H R_test r on u = (if r_ptr r \<noteq> 0 then R_disable else R_return, r, on, u)"
| "rstep H R_disable r on u = (R_or, r\<lparr>r_context := on\<rparr>, False, u)"
| "rstep H R_or r on u = (R_iowr, r, on, u\<lparr>irq_enable := irq_enable u OR CONTROL_RE_MSK\<rparr>)"
| "rstep H R_iowr r on u = (R_restore, r, on, IOWR_CONTROL H (irq_enable u) u)"
| "rstep H R_restore r on u = (R_return, r, r_context r, u)"
| "rstep H R_return r on u = (R_return, r, on, u)"

definition read_value :: "rcall \<Rightarrow> int" where
  "read_value r =
     (if r_ptr r \<noteq> 0 then int (r_ptr r) else if nonblock (r_flags r) then - EWOULDBLOCK else - EIO)"

section \<open>The machine\<close>

text \<open>
  The program makes one call at a time. A configuration also keeps what the program knows from
  the results of its calls: \<open>c_acc\<close>, the bytes that finished write calls said they took, and
  \<open>c_del\<close>, the bytes that finished read calls said they stored.
\<close>

datatype thread = Idle | Writing wpc wcall | Reading rpc rcall

record 'd config =
  c_acc :: "u8 list"
  c_del :: "u8 list"
  c_thread :: thread
  c_irq :: bool
  c_uart :: "'d uart"

definition config_start :: "'d uart \<Rightarrow> 'd config" where
  "config_start u = \<lparr>c_acc = [], c_del = [], c_thread = Idle, c_irq = True, c_uart = u\<rparr>"

inductive istep :: "'d jtag_hw \<Rightarrow> 'd config \<Rightarrow> 'd config \<Rightarrow> bool" for H where
  istep_irq: "uart_irq H u = Some u' \<Longrightarrow>
    istep H \<lparr>c_acc = acc, c_del = del, c_thread = t, c_irq = True, c_uart = u\<rparr>
      \<lparr>c_acc = acc, c_del = del, c_thread = t, c_irq = True, c_uart = u'\<rparr>"
| istep_timeout: "istep H \<lparr>c_acc = acc, c_del = del, c_thread = t, c_irq = True, c_uart = u\<rparr>
      \<lparr>c_acc = acc, c_del = del, c_thread = t, c_irq = True, c_uart = uart_timeout H u\<rparr>"
| istep_ioctl: "uart_ioctl req arg u = (rc, arg', u') \<Longrightarrow>
    istep H \<lparr>c_acc = acc, c_del = del, c_thread = Idle, c_irq = on, c_uart = u\<rparr>
      \<lparr>c_acc = acc, c_del = del, c_thread = Idle, c_irq = on, c_uart = u'\<rparr>"
| istep_write: "istep H \<lparr>c_acc = acc, c_del = del, c_thread = Idle, c_irq = on, c_uart = u\<rparr>
      \<lparr>c_acc = acc, c_del = del, c_thread = Writing W_loop (write_start xs flags), c_irq = on, c_uart = u\<rparr>"
| istep_wstep: "wstep H pc w on u = (pc', w', on', u') \<Longrightarrow>
    istep H \<lparr>c_acc = acc, c_del = del, c_thread = Writing pc w, c_irq = on, c_uart = u\<rparr>
      \<lparr>c_acc = acc, c_del = del, c_thread = Writing pc' w', c_irq = on', c_uart = u'\<rparr>"
| istep_wrote: "istep H \<lparr>c_acc = acc, c_del = del, c_thread = Writing W_return w, c_irq = on, c_uart = u\<rparr>
      \<lparr>c_acc = acc @ take (nat (write_value w)) (w_text w), c_del = del, c_thread = Idle, c_irq = on,
       c_uart = u\<rparr>"
| istep_read: "istep H \<lparr>c_acc = acc, c_del = del, c_thread = Idle, c_irq = on, c_uart = u\<rparr>
      \<lparr>c_acc = acc, c_del = del, c_thread = Reading R_while (read_start space flags), c_irq = on, c_uart = u\<rparr>"
| istep_rstep: "rstep H pc r on u = (pc', r', on', u') \<Longrightarrow>
    istep H \<lparr>c_acc = acc, c_del = del, c_thread = Reading pc r, c_irq = on, c_uart = u\<rparr>
      \<lparr>c_acc = acc, c_del = del, c_thread = Reading pc' r', c_irq = on', c_uart = u'\<rparr>"
| istep_got: "istep H \<lparr>c_acc = acc, c_del = del, c_thread = Reading R_return r, c_irq = on, c_uart = u\<rparr>
      \<lparr>c_acc = acc, c_del = del @ take (nat (read_value r)) (r_bytes r), c_thread = Idle, c_irq = on,
       c_uart = u\<rparr>"

inductive_cases istepE: "istep H c c'"

text \<open>The configurations that can occur, from the initialised driver on.\<close>

definition interleaving :: "'d jtag_hw \<Rightarrow> int \<Rightarrow> 'd \<Rightarrow> 'd config \<Rightarrow> bool" where
  "interleaving H rc d c \<longleftrightarrow> (istep H)\<^sup>*\<^sup>* (config_start (uart_init H rc (uart_instance d))) c"

end
