(* ===== verification/Jtag_Steps_Props.thy ===== *)
theory Jtag_Steps_Props
  imports Jtag_Steps Jtag_Props
begin

text \<open>
  Interrupts between any two steps of the driver's calls. Each program point has an assertion on
  the local variables and the buffers; the assertions are stable under the interrupt handler and
  established by the steps before, as in the method of Owicki and Gries. From them: the machine
  refines two bounded queues, and a call that waits is always woken.
\<close>

section \<open>What a handler may do at any moment\<close>

text \<open>
  The effect of the interrupt handler on the driver: it sends bytes from the front of one queue,
  appends bytes to the other, and leaves what belongs to the calls alone. It turns an interrupt
  off only when it left the transmit queue empty, or the receive queue not empty.
\<close>

definition isr_effect :: "'d jtag_log \<Rightarrow> 'd uart \<Rightarrow> 'd uart \<Rightarrow> bool" where
  "isr_effect L u u' \<longleftrightarrow>
     uart_ok u' \<and> tx_buf u' = tx_buf u \<and> tx_in u' = tx_in u \<and> rx_out u' = rx_out u \<and>
     (\<exists>ys. tx_q u = ys @ tx_q u' \<and> sent L (regs u') = sent L (regs u) @ ys) \<and>
     (\<exists>bs. rx_q u' = rx_q u @ bs \<and> received L (regs u') = received L (regs u) @ bs) \<and>
     (tx_q u' \<noteq> [] \<longrightarrow> irq_enable u' AND CONTROL_WE_MSK = irq_enable u AND CONTROL_WE_MSK) \<and>
     (rx_q u' = [] \<longrightarrow> irq_enable u' AND CONTROL_RE_MSK = irq_enable u AND CONTROL_RE_MSK)"

lemma isr_effect_trans:
  assumes "isr_effect L u v" "isr_effect L v w"
  shows "isr_effect L u w"
proof -
  obtain ys bs where v: "tx_q u = ys @ tx_q v" "sent L (regs v) = sent L (regs u) @ ys"
    "rx_q v = rx_q u @ bs" "received L (regs v) = received L (regs u) @ bs"
    using assms(1) unfolding isr_effect_def by blast
  obtain ys' bs' where w: "tx_q v = ys' @ tx_q w" "sent L (regs w) = sent L (regs v) @ ys'"
    "rx_q w = rx_q v @ bs'" "received L (regs w) = received L (regs v) @ bs'"
    using assms(2) unfolding isr_effect_def by blast
  have "\<exists>ys. tx_q u = ys @ tx_q w \<and> sent L (regs w) = sent L (regs u) @ ys"
    by (rule exI [of _ "ys @ ys'"]) (simp only: v(1,2) w(1,2) append_assoc simp_thms)
  moreover have "\<exists>bs. rx_q w = rx_q u @ bs \<and> received L (regs w) = received L (regs u) @ bs"
    by (rule exI [of _ "bs @ bs'"]) (simp only: v(3,4) w(3,4) append_assoc simp_thms)
  moreover have "tx_q w \<noteq> [] \<longrightarrow> tx_q v \<noteq> []" "rx_q w = [] \<longrightarrow> rx_q v = []"
    using w(1,3) by auto
  moreover have "tx_q w \<noteq> [] \<longrightarrow> irq_enable w AND CONTROL_WE_MSK = irq_enable u AND CONTROL_WE_MSK"
    "rx_q w = [] \<longrightarrow> irq_enable w AND CONTROL_RE_MSK = irq_enable u AND CONTROL_RE_MSK"
    using calculation(3,4) assms unfolding isr_effect_def by metis+
  moreover have "uart_ok w" "tx_buf w = tx_buf u" "tx_in w = tx_in u" "rx_out w = rx_out u"
    using assms unfolding isr_effect_def by metis+
  ultimately show ?thesis unfolding isr_effect_def by (intro conjI)
qed

lemma isr_effect_frame:
  assumes "uart_ok u" "tx_buf u' = tx_buf u" "tx_in u' = tx_in u" "tx_out u' = tx_out u"
    "rx_buf u' = rx_buf u" "rx_in u' = rx_in u" "rx_out u' = rx_out u"
    "irq_enable u' = irq_enable u" "sent L (regs u') = sent L (regs u)"
    "received L (regs u') = received L (regs u)"
  shows "isr_effect L u u'"
  using assms by (simp add: isr_effect_def uart_ok_def)

lemma isr_effect_control:
  assumes "jtag_ok H L" "uart_ok u"
  shows "isr_effect L u (snd (IORD_CONTROL H u))" "isr_effect L u (IOWR_CONTROL H v u)"
  by (rule isr_effect_frame; use assms control_log [OF assms(1)] in simp)+

lemma isr_effect_mask:
  assumes "uart_ok u" "v AND CONTROL_WE_MSK = irq_enable u AND CONTROL_WE_MSK \<or> tx_q u = []"
    and "v AND CONTROL_RE_MSK = irq_enable u AND CONTROL_RE_MSK \<or> rx_q u \<noteq> []"
  shows "isr_effect L u (u\<lparr>irq_enable := v\<rparr>)"
  using assms by (auto simp: isr_effect_def)

lemma isr_effect_turn_off:
  assumes "jtag_ok H L" "uart_ok u" "v AND CONTROL_WE_MSK = irq_enable u AND CONTROL_WE_MSK \<or> tx_q u = []"
    and "v AND CONTROL_RE_MSK = irq_enable u AND CONTROL_RE_MSK \<or> rx_q u \<noteq> []"
  shows "isr_effect L u (snd (IORD_CONTROL H (IOWR_CONTROL H v (u\<lparr>irq_enable := v\<rparr>))))"
proof -
  let ?v = "u\<lparr>irq_enable := v\<rparr>"
  have m: "isr_effect L u ?v" by (rule isr_effect_mask [OF assms(2-4)])
  have ok: "uart_ok ?v" "uart_ok (IOWR_CONTROL H v ?v)" using assms(2) by (simp_all add: uart_ok_def)
  show ?thesis
    using isr_effect_trans [OF m isr_effect_trans [OF isr_effect_control(2) [OF assms(1) ok(1)]
      isr_effect_control(1) [OF assms(1) ok(2)]]] .
qed

lemma isr_effect_ok: "isr_effect L u u' \<Longrightarrow> uart_ok u'"
  by (simp add: isr_effect_def)

lemma rx_loop_out: "rx_loop k H (data, u) = (data', u') \<Longrightarrow> rx_out u' = rx_out u"
proof (induction k arbitrary: data u)
  case (Suc k)
  obtain v d where "rd_data H (regs u) = (v, d)" by fastforce
  with Suc.prems Suc.IH [of v "rx_store (ucast (v AND DATA_DATA_MSK)) (u\<lparr>regs := d\<rparr>)"] show ?case
    by (auto simp: IORD_DATA_def rx_store_def split: if_splits)
qed simp

lemma tx_loop_in:
  "tx_loop n H u = (left, u') \<Longrightarrow> tx_in u' = tx_in u \<and> tx_buf u' = tx_buf u"
proof (induction n arbitrary: u)
  case (Suc n)
  then show ?case by (fastforce simp: IOWR_DATA_def Let_def split: if_splits)
qed simp

lemma irq_rx_effect:
  assumes "jtag_ok H L" "uart_ok u"
  shows "isr_effect L u (irq_rx H u)"
proof -
  obtain data v where l: "rx_loop BUF_LEN H (push_bit 16 1, u) = (data, v)" by fastforce
  obtain bs where v: "uart_ok v" "rx_q v = rx_q u @ bs" "received L (regs v) = received L (regs u) @ bs"
    "sent L (regs v) = sent L (regs u)" "same_tx u v" "irq_enable v = irq_enable u"
    "length (rx_q v) = BUF_LEN - 1 \<or> data AND DATA_RAVAIL_MSK = 0" "rx_out v = rx_out u"
    using rx_loop_spec [OF assms l] rx_loop_out [OF l] by auto
  have e: "isr_effect L u v" using v by (auto simp: isr_effect_def same_tx_def)
  show ?thesis
  proof (cases "data AND DATA_RAVAIL_MSK = 0")
    case False
    then have "rx_q v \<noteq> []" using v(7) by (auto simp: BUF_LEN_def)
    then have "isr_effect L v (snd (IORD_CONTROL H (IOWR_CONTROL H (irq_enable v AND NOT CONTROL_RE_MSK)
        (v\<lparr>irq_enable := irq_enable v AND NOT CONTROL_RE_MSK\<rparr>))))"
      by (intro isr_effect_turn_off [OF assms(1) v(1)]) (simp_all add: mask_other)
    from isr_effect_trans [OF e this] show ?thesis using False l by (simp add: irq_rx_def Let_def)
  qed (use e l in \<open>simp add: irq_rx_def\<close>)
qed

lemma irq_tx_effect:
  assumes "jtag_ok H L" "uart_ok u"
  shows "isr_effect L u (irq_tx H control u)"
proof -
  let ?n = "unat (drop_bit 16 (control AND CONTROL_WSPACE_MSK))"
  obtain left v where l: "tx_loop ?n H u = (left, v)" by fastforce
  obtain ys where v: "uart_ok v" "tx_q u = ys @ tx_q v"
    "regs v = fold (\<lambda>b. wr_data H (scast b)) ys (regs u)" "same_rx u v" "irq_enable v = irq_enable u"
    "0 < left \<longrightarrow> tx_q v = []"
    using tx_loop_spec [OF assms(2) l] by blast
  have e: "isr_effect L u v"
    using v tx_loop_in [OF l] sent_fold [OF assms(1), of ys "regs u"] by (auto simp: isr_effect_def same_rx_def)
  show ?thesis
  proof (cases "left = 0")
    case False
    then have "isr_effect L v (snd (IORD_CONTROL H (IOWR_CONTROL H (irq_enable v AND NOT CONTROL_WE_MSK)
        (v\<lparr>irq_enable := irq_enable v AND NOT CONTROL_WE_MSK\<rparr>))))"
      using v(6) by (intro isr_effect_turn_off [OF assms(1) v(1)]) (simp_all add: mask_other)
    from isr_effect_trans [OF e this] show ?thesis using False l by (simp add: irq_tx_def Let_def)
  qed (use e l in \<open>simp add: irq_tx_def\<close>)
qed

lemma irq_round_effect:
  assumes "jtag_ok H L" "uart_ok u"
  shows "isr_effect L u (snd (IORD_CONTROL H (irq_round H control u)))"
proof -
  let ?v = "if control AND CONTROL_RI_MSK \<noteq> 0 then irq_rx H u else u"
  have refl: "isr_effect L u u" if "uart_ok u" for u :: "'a uart" using that by (intro isr_effect_frame) simp_all
  have v: "isr_effect L u ?v" using irq_rx_effect [OF assms] refl [OF assms(2)] by simp
  note ok = isr_effect_ok [OF v]
  have w: "isr_effect L ?v (irq_round H control u)"
    using irq_tx_effect [OF assms(1) ok, of control] refl [OF ok] by (simp add: irq_round_def Let_def)
  note vw = isr_effect_trans [OF v w]
  show ?thesis by (rule isr_effect_trans [OF vw isr_effect_control(1) [OF assms(1) isr_effect_ok [OF vw]]])
qed

lemma uart_irq_effect:
  assumes "jtag_ok H L" "uart_ok u" "uart_irq H u = Some u'"
  shows "isr_effect L u u'"
proof -
  let ?f = "\<lambda>(control, u). IORD_CONTROL H (irq_round H control u)"
  obtain c where w: "while_option (\<lambda>(control, u). control AND (CONTROL_RI_MSK OR CONTROL_WI_MSK) \<noteq> 0)
      ?f (IORD_CONTROL H u) = Some (c, u')"
    using assms(3) by (auto simp: uart_irq_def)
  have step: "isr_effect L u (snd (?f x))" if "isr_effect L u (snd x)" for x
    using isr_effect_trans [OF that irq_round_effect [OF assms(1) isr_effect_ok [OF that]]]
    by (simp add: split_beta)
  show ?thesis
    using while_option_inv [where P = "\<lambda>x. isr_effect L u (snd x)", OF w]
      isr_effect_control(1) [OF assms(1,2)] step by (metis snd_conv)
qed

lemma uart_timeout_effect:
  assumes "jtag_ok H L" "uart_ok u"
  shows "isr_effect L u (uart_timeout H u)"
  using control_log [OF assms(1)] assms(2)
  by (intro isr_effect_frame) (simp_all add: uart_timeout_def split_beta Let_def)


section \<open>Room and contents under concurrent handlers\<close>

text \<open>The contiguous room for writing only grows while the handler runs: a stale \<open>out\<close> makes the
  call underestimate it.\<close>

lemma tx_room_fits:
  assumes "uart_ok u"
  shows "n \<le> tx_room u \<longleftrightarrow> n + length (tx_q u) \<le> BUF_LEN - 1 \<and> tx_in u + n \<le> BUF_LEN"
proof -
  note ok = uart_okD(2) [OF assms]
  have "tx_in u < BUF_LEN" "tx_out u < BUF_LEN" using ok by (simp_all add: rb_ok_def)
  then show ?thesis unfolding rb_length [OF ok] by (auto simp: tx_room_def)
qed

lemma tx_room_grows:
  assumes "isr_effect L u u'" "uart_ok u"
  shows "tx_room u \<le> tx_room u'"
proof -
  have "length (tx_q u') \<le> length (tx_q u)" "tx_in u' = tx_in u"
    using assms(1) unfolding isr_effect_def by (metis length_append le_add2, simp)
  then show ?thesis
    using tx_room_fits [OF assms(2), of "tx_room u"] tx_room_fits [OF isr_effect_ok [OF assms(1)]] by simp
qed

lemma tx_copy_outside:
  assumes "uart_ok u" "i < tx_room u"
  shows "rb_contents ((tx_buf u)[tx_in u + i := x]) (tx_out u) (tx_in u) = tx_q u"
    "uart_ok (u\<lparr>tx_buf := (tx_buf u)[tx_in u + i := x]\<rparr>)"
  using assms(2) uart_okD [OF assms(1)]
  by (auto simp: rb_contents_def tx_room_def uart_ok_def rb_ok_def drop_update_swap split: if_splits)

lemma tx_publish:
  assumes "uart_ok u" "n \<le> tx_room u" "\<And>j. j < n \<Longrightarrow> tx_buf u ! (tx_in u + j) = xs ! j" "length xs = n"
  shows "rb_contents (tx_buf u) (tx_out u) ((tx_in u + n) mod BUF_LEN) = tx_q u @ xs"
    "uart_ok (u\<lparr>tx_in := (tx_in u + n) mod BUF_LEN\<rparr>)"
proof -
  note ok = uart_okD(2) [OF assms(1)]
  have fits: "tx_in u + n \<le> length (tx_buf u)"
    using tx_room_fits [OF assms(1)] assms(2) ok by (simp add: rb_ok_def)
  have "memcpy_to (tx_buf u) (tx_in u) xs = tx_buf u"
  proof (rule nth_equalityI)
    show "length (memcpy_to (tx_buf u) (tx_in u) xs) = length (tx_buf u)"
      using fits assms(4) by (simp add: memcpy_to_def)
    show "memcpy_to (tx_buf u) (tx_in u) xs ! k = tx_buf u ! k"
      if "k < length (memcpy_to (tx_buf u) (tx_in u) xs)" for k
      using fits assms(3) [of "k - tx_in u"] assms(4) that
      by (auto simp: memcpy_to_def nth_append)
  qed
  then show "rb_contents (tx_buf u) (tx_out u) ((tx_in u + n) mod BUF_LEN) = tx_q u @ xs"
    "uart_ok (u\<lparr>tx_in := (tx_in u + n) mod BUF_LEN\<rparr>)"
    using rb_put_block [OF ok, of xs] assms by (simp_all add: tx_room_rb uart_ok_def)
qed

lemma rx_nth:
  assumes "uart_ok u" "i < length (rx_q u)" "rx_out u + i < BUF_LEN"
  shows "rx_buf u ! (rx_out u + i) = rx_q u ! i"
  using assms(2,3) uart_okD(1) [OF assms(1)]
  by (auto simp: rb_contents_def rb_ok_def nth_append split: if_splits)

lemma rx_publish:
  assumes "uart_ok u" "n \<le> length (rx_q u)" "rx_out u + n \<le> BUF_LEN"
  shows "rb_contents (rx_buf u) ((rx_out u + n) mod BUF_LEN) (rx_in u) = drop n (rx_q u)"
    "uart_ok (u\<lparr>rx_out := (rx_out u + n) mod BUF_LEN\<rparr>)"
proof -
  note ok = uart_okD(1) [OF assms(1)]
  have "n \<le> (if rx_out u \<le> rx_in u then rx_in u - rx_out u else BUF_LEN - rx_out u)"
    using assms(2,3) unfolding rb_length [OF ok] by auto
  note b = rb_get_block [OF ok this]
  show "rb_contents (rx_buf u) ((rx_out u + n) mod BUF_LEN) (rx_in u) = drop n (rx_q u)"
    "uart_ok (u\<lparr>rx_out := (rx_out u + n) mod BUF_LEN\<rparr>)"
    using b(2,3) assms(1) by (simp_all add: uart_ok_def)
qed

section \<open>The assertions\<close>

text \<open>How much a reader that saw the index \<open>inn\<close> may take.\<close>

definition span :: "nat \<Rightarrow> nat \<Rightarrow> nat" where
  "span out inn = (if out \<le> inn then inn - out else BUF_LEN - out + inn)"

lemma span_now: "uart_ok u \<Longrightarrow> span (rx_out u) (rx_in u) = length (rx_q u)"
  by (simp add: span_def rb_length [OF uart_okD(1)])

text \<open>After the copying of a write: everything was copied, or the buffer was full for the \<open>out\<close> that
  the call read.\<close>

definition stuck :: "wcall \<Rightarrow> 'd uart \<Rightarrow> bool" where
  "stuck w u \<longleftrightarrow> w_count w = 0 \<or> w_out w < BUF_LEN \<and> rb_room BUF_LEN (w_out w) (tx_in u) = 0"

definition copied :: "wcall \<Rightarrow> nat \<Rightarrow> 'd uart \<Rightarrow> bool" where
  "copied w i u \<longleftrightarrow> w_in w = tx_in u \<and> 0 < w_n w \<and> w_n w \<le> w_count w \<and> w_n w \<le> tx_room u \<and> i \<le> w_n w \<and>
     (\<forall>j<i. tx_buf u ! (w_in w + j) = w_text w ! (w_ptr w + j))"

fun wann :: "wpc \<Rightarrow> wcall \<Rightarrow> bool \<Rightarrow> 'd uart \<Rightarrow> bool" where
  "wann W_loop w on u \<longleftrightarrow> on"
| "wann W_out w on u \<longleftrightarrow> on \<and> 0 < w_count w \<and> w_in w = tx_in u"
| "wann W_room w on u \<longleftrightarrow> on \<and> 0 < w_count w \<and> w_in w = tx_in u \<and> w_out w < BUF_LEN \<and>
     rb_room BUF_LEN (w_out w) (w_in w) \<le> tx_room u"
| "wann (W_copy i) w on u \<longleftrightarrow> on \<and> copied w i u"
| "wann W_publish w on u \<longleftrightarrow> on \<and> copied w (w_n w) u"
| "wann W_disable w on u \<longleftrightarrow> on \<and> stuck w u"
| "wann W_or w on u \<longleftrightarrow> \<not> on \<and> w_context w \<and> stuck w u"
| "wann W_iowr w on u \<longleftrightarrow> \<not> on \<and> w_context w \<and> stuck w u"
| "wann W_restore w on u \<longleftrightarrow> \<not> on \<and> w_context w \<and> stuck w u"
| "wann W_left w on u \<longleftrightarrow> on \<and> stuck w u"
| "wann W_wait_out w on u \<longleftrightarrow> on \<and> 0 < w_count w \<and> stuck w u"
| "wann W_wait_host w on u \<longleftrightarrow> on \<and> 0 < w_count w \<and> stuck w u"
| "wann W_inactive w on u \<longleftrightarrow> on \<and> 0 < w_count w"
| "wann W_return w on u \<longleftrightarrow> on"

definition fetched :: "rcall \<Rightarrow> nat \<Rightarrow> 'd uart \<Rightarrow> bool" where
  "fetched r i u \<longleftrightarrow> r_out r = rx_out u \<and> 0 < r_n r \<and> r_n r \<le> r_space r \<and> r_n r \<le> length (rx_q u) \<and>
     rx_out u + r_n r \<le> BUF_LEN \<and> i \<le> r_n r \<and> length (r_bytes r) = r_ptr r + i \<and>
     drop (r_ptr r) (r_bytes r) = take i (rx_q u)"

definition full_bytes :: "rcall \<Rightarrow> bool" where
  "full_bytes r \<longleftrightarrow> length (r_bytes r) = r_ptr r"

fun rann :: "rpc \<Rightarrow> rcall \<Rightarrow> bool \<Rightarrow> 'd uart \<Rightarrow> bool" where
  "rann R_while r on u \<longleftrightarrow> on \<and> full_bytes r \<and> r_ptr r = 0"
| "rann R_in r on u \<longleftrightarrow> on \<and> full_bytes r \<and> 0 < r_space r"
| "rann R_out r on u \<longleftrightarrow> on \<and> full_bytes r \<and> 0 < r_space r \<and> r_in r < BUF_LEN \<and>
     span (rx_out u) (r_in r) \<le> length (rx_q u)"
| "rann R_room r on u \<longleftrightarrow> on \<and> full_bytes r \<and> 0 < r_space r \<and> r_in r < BUF_LEN \<and>
     span (rx_out u) (r_in r) \<le> length (rx_q u) \<and> r_out r = rx_out u"
| "rann (R_copy i) r on u \<longleftrightarrow> on \<and> fetched r i u"
| "rann R_publish r on u \<longleftrightarrow> on \<and> fetched r (r_n r) u"
| "rann R_got r on u \<longleftrightarrow> on \<and> full_bytes r \<and> (r_ptr r = 0 \<longrightarrow> r_in r = rx_out u)"
| "rann R_wait_in r on u \<longleftrightarrow> on \<and> full_bytes r \<and> r_ptr r = 0 \<and> r_in r = rx_out u"
| "rann R_wait_host r on u \<longleftrightarrow> on \<and> full_bytes r \<and> r_ptr r = 0 \<and> r_in r = rx_out u"
| "rann R_moved r on u \<longleftrightarrow> on \<and> full_bytes r \<and> r_ptr r = 0 \<and> r_in r = rx_out u"
| "rann R_test r on u \<longleftrightarrow> on \<and> full_bytes r"
| "rann R_disable r on u \<longleftrightarrow> on \<and> full_bytes r \<and> r_ptr r \<noteq> 0"
| "rann R_or r on u \<longleftrightarrow> \<not> on \<and> r_context r \<and> full_bytes r"
| "rann R_iowr r on u \<longleftrightarrow> \<not> on \<and> r_context r \<and> full_bytes r"
| "rann R_restore r on u \<longleftrightarrow> \<not> on \<and> r_context r \<and> full_bytes r"
| "rann R_return r on u \<longleftrightarrow> on \<and> full_bytes r"

fun tann :: "thread \<Rightarrow> bool \<Rightarrow> 'd uart \<Rightarrow> bool" where
  "tann Idle on u \<longleftrightarrow> on"
| "tann (Writing pc w) on u \<longleftrightarrow> wann pc w on u \<and> w_ptr w + w_count w = length (w_text w)"
| "tann (Reading pc r) on u \<longleftrightarrow> rann pc r on u"

text \<open>The handler does not disturb them.\<close>

lemma wann_stable:
  assumes "isr_effect L u u'" "uart_ok u" "wann pc w on u"
  shows "wann pc w on u'"
proof -
  have e: "tx_in u' = tx_in u" "tx_buf u' = tx_buf u" using assms(1) by (simp_all add: isr_effect_def)
  note g = tx_room_grows [OF assms(1,2)]
  have "copied w i u \<Longrightarrow> copied w i u'" "stuck w u \<Longrightarrow> stuck w u'" for i
    using e g by (auto simp: copied_def stuck_def)
  then show ?thesis using assms(3) e g by (cases pc) (auto intro: le_trans)
qed

lemma rann_stable:
  assumes "isr_effect L u u'" "rann pc r on u"
  shows "rann pc r on u'"
proof -
  obtain bs where "rx_out u' = rx_out u" "rx_q u' = rx_q u @ bs"
    using assms(1) unfolding isr_effect_def by blast
  then have e: "rx_out u' = rx_out u" "rb_contents (rx_buf u') (rx_out u) (rx_in u') = rx_q u @ bs"
    by simp_all
  have "fetched r i u \<Longrightarrow> fetched r i u'" for i by (simp add: fetched_def e)
  then show ?thesis using assms(2) e by (cases pc) auto
qed

lemma tann_stable: "isr_effect L u u' \<Longrightarrow> uart_ok u \<Longrightarrow> tann t on u \<Longrightarrow> tann t on u'"
  using wann_stable rann_stable by (cases t) fastforce+


section \<open>The invariant of the machine\<close>

text \<open>What the current call has taken into the transmit queue, and out of the receive queue.\<close>

fun writing :: "thread \<Rightarrow> u8 list" where
  "writing (Writing pc w) = take (w_ptr w) (w_text w)"
| "writing t = []"

fun reading :: "thread \<Rightarrow> u8 list" where
  "reading (Reading pc r) = take (r_ptr r) (r_bytes r)"
| "reading t = []"

text \<open>The program points between the copying and the enabling of the interrupt, where a call still
  owes it.\<close>

fun owes_we :: "thread \<Rightarrow> bool" where
  "owes_we (Writing pc w) \<longleftrightarrow>
     (case pc of W_loop \<Rightarrow> True | W_out \<Rightarrow> True | W_room \<Rightarrow> True | W_copy i \<Rightarrow> True | W_publish \<Rightarrow> True
        | W_disable \<Rightarrow> True | W_or \<Rightarrow> True | _ \<Rightarrow> False)"
| "owes_we t \<longleftrightarrow> False"

fun owes_re :: "thread \<Rightarrow> bool" where
  "owes_re (Reading pc r) \<longleftrightarrow>
     r_ptr r \<noteq> 0 \<and> (case pc of R_iowr \<Rightarrow> False | R_restore \<Rightarrow> False | R_return \<Rightarrow> False | _ \<Rightarrow> True)"
| "owes_re t \<longleftrightarrow> False"

definition uart_inv :: "'d jtag_log \<Rightarrow> u8 list \<Rightarrow> u8 list \<Rightarrow> thread \<Rightarrow> 'd uart \<Rightarrow> bool" where
  "uart_inv L T D t u \<longleftrightarrow> uart_ok u \<and> sent L (regs u) @ tx_q u = T @ writing t \<and>
     received L (regs u) = D @ reading t @ rx_q u \<and>
     (owes_we t \<or> tx_q u = [] \<or> irq_enable u AND CONTROL_WE_MSK \<noteq> 0) \<and>
     (owes_re t \<or> rx_q u \<noteq> [] \<or> irq_enable u AND CONTROL_RE_MSK \<noteq> 0)"

definition config_inv :: "'d jtag_log \<Rightarrow> 'd \<Rightarrow> 'd config \<Rightarrow> bool" where
  "config_inv L d c \<longleftrightarrow> uart_inv L (sent L d @ c_acc c) (received L d @ c_del c) (c_thread c) (c_uart c) \<and>
     tann (c_thread c) (c_irq c) (c_uart c)"

lemma uart_inv_effect:
  assumes "isr_effect L u u'" "uart_inv L T D t u"
  shows "uart_inv L T D t u'"
proof -
  obtain ys bs where e: "tx_q u = ys @ tx_q u'" "sent L (regs u') = sent L (regs u) @ ys"
    "rx_q u' = rx_q u @ bs" "received L (regs u') = received L (regs u) @ bs"
    using assms(1) unfolding isr_effect_def by blast
  have "sent L (regs u') @ tx_q u' = T @ writing t"
    using assms(2) unfolding uart_inv_def e(2) by (metis append_assoc e(1))
  moreover have "received L (regs u') = D @ reading t @ rx_q u'"
    using assms(2) unfolding uart_inv_def e(3,4) by simp
  moreover have "owes_we t \<or> tx_q u' = [] \<or> irq_enable u' AND CONTROL_WE_MSK \<noteq> 0"
    using assms e(1) unfolding uart_inv_def isr_effect_def by (metis append_is_Nil_conv)
  moreover have "owes_re t \<or> rx_q u' \<noteq> [] \<or> irq_enable u' AND CONTROL_RE_MSK \<noteq> 0"
    using assms e(3) unfolding uart_inv_def isr_effect_def by (metis append_is_Nil_conv)
  ultimately show ?thesis using isr_effect_ok [OF assms(1)] unfolding uart_inv_def by blast
qed

lemma config_inv_effect:
  assumes "isr_effect L u u'" "config_inv L d \<lparr>c_acc = acc, c_del = del, c_thread = t, c_irq = on, c_uart = u\<rparr>"
  shows "config_inv L d \<lparr>c_acc = acc, c_del = del, c_thread = t, c_irq = on, c_uart = u'\<rparr>"
proof -
  have "uart_ok u" using assms(2) by (simp add: config_inv_def uart_inv_def)
  with assms show ?thesis using uart_inv_effect [OF assms(1)] tann_stable [OF assms(1)]
    by (simp add: config_inv_def)
qed

text \<open>A step that leaves the driver alone, and one that enables interrupts.\<close>

lemma uart_inv_local:
  assumes "uart_inv L T D t u" "writing t' = writing t" "reading t' = reading t"
    "owes_we t \<longrightarrow> owes_we t'" "owes_re t \<longrightarrow> owes_re t'"
  shows "uart_inv L T D t' u"
  using assms by (auto simp: uart_inv_def)

lemma uart_inv_enable:
  assumes "jtag_ok H L" "uart_inv L T D t u" "writing t' = writing t" "reading t' = reading t"
    and "m = CONTROL_WE_MSK \<and> (owes_re t \<longrightarrow> owes_re t') \<or> m = CONTROL_RE_MSK \<and> (owes_we t \<longrightarrow> owes_we t')"
  shows "uart_inv L T D t' (u\<lparr>irq_enable := irq_enable u OR m\<rparr>)"
  using assms(2-5) by (auto simp: uart_inv_def mask_other)

lemma uart_inv_iowr:
  "jtag_ok H L \<Longrightarrow> uart_inv L T D t u \<Longrightarrow> uart_inv L T D t (IOWR_CONTROL H v u)"
  by (rule uart_inv_effect [OF isr_effect_control(2)]) (simp_all add: uart_inv_def)

lemma wann_frame [simp]:
  "wann pc w on (IOWR_CONTROL H v u) = wann pc w on u"
  "wann pc w on (u\<lparr>irq_enable := v\<rparr>) = wann pc w on u"
  by (cases pc; simp add: copied_def stuck_def tx_room_def)+

lemma rann_frame [simp]:
  "rann pc r on (IOWR_CONTROL H v u) = rann pc r on u"
  "rann pc r on (u\<lparr>irq_enable := v\<rparr>) = rann pc r on u"
  by (cases pc; simp add: fetched_def)+

section \<open>Steps of a write\<close>

lemma wstep_copy:
  assumes "uart_inv L T D (Writing (W_copy i) w) u" "copied w i u" "i < w_n w"
  defines "u' \<equiv> u\<lparr>tx_buf := (tx_buf u)[w_in w + i := w_text w ! (w_ptr w + i)]\<rparr>"
  shows "uart_inv L T D (Writing (W_copy (Suc i)) w) u'" "copied w (Suc i) u'"
proof -
  have i: "i < tx_room u" "w_in w = tx_in u" using assms(2,3) by (auto simp: copied_def)
  have ok: "uart_ok u" using assms(1) by (simp add: uart_inv_def)
  note t = tx_copy_outside [OF ok i(1)]
  show "uart_inv L T D (Writing (W_copy (Suc i)) w) u'"
    using assms(1) t i(2) unfolding u'_def by (simp add: uart_inv_def uart_ok_def)
  have fits: "tx_in u + i < length (tx_buf u)"
    using tx_room_fits [OF ok, of "tx_room u"] i(1) uart_okD(2) [OF ok] by (simp add: rb_ok_def)
  show "copied w (Suc i) u'"
    using assms(2,3) fits i(2) unfolding u'_def copied_def
    by (auto simp: tx_room_def nth_list_update less_Suc_eq)
qed

lemma wstep_publish:
  assumes "uart_inv L T D (Writing W_publish w) u" "copied w (w_n w) u"
    "w_ptr w + w_count w = length (w_text w)"
  defines "w' \<equiv> w\<lparr>w_ptr := w_ptr w + w_n w, w_count := w_count w - w_n w\<rparr>"
    and "u' \<equiv> u\<lparr>tx_in := (w_in w + w_n w) mod BUF_LEN\<rparr>"
  shows "uart_inv L T D (Writing W_loop w') u'"
proof -
  let ?xs = "take (w_n w) (drop (w_ptr w) (w_text w))"
  have c: "w_in w = tx_in u" "w_n w \<le> tx_room u" "w_n w \<le> w_count w"
    "\<And>j. j < w_n w \<Longrightarrow> tx_buf u ! (tx_in u + j) = w_text w ! (w_ptr w + j)"
    using assms(2) by (auto simp: copied_def)
  have ok: "uart_ok u" using assms(1) by (simp add: uart_inv_def)
  have "tx_buf u ! (tx_in u + j) = ?xs ! j" if "j < w_n w" for j
    using c(3,4) assms(3) that by simp
  note t = tx_publish [OF ok c(2) this, simplified]
  have len: "length ?xs = w_n w" using c(3) assms(3) by simp
  have "uart_ok u'" "tx_q u' = tx_q u @ ?xs"
    using t len c(1) unfolding u'_def by (simp_all add: uart_ok_def)
  moreover have "take (w_ptr w + w_n w) (w_text w) = take (w_ptr w) (w_text w) @ ?xs"
    by (rule take_add)
  ultimately show ?thesis using assms(1) unfolding uart_inv_def u'_def w'_def
    by (auto simp: append_assoc [symmetric] simp del: append_assoc)
qed

text \<open>The steps that touch only local variables.\<close>

lemma wstep_local:
  assumes "wstep H pc w on u = (pc', w', on', u')" "wann pc w on u" "uart_ok u"
    "pc \<noteq> W_publish" "pc \<noteq> W_or" "pc \<noteq> W_iowr" "\<forall>i. pc = W_copy i \<longrightarrow> w_n w \<le> i"
    "w_ptr w + w_count w = length (w_text w)"
  shows "u' = u \<and> wann pc' w' on' u \<and> w_ptr w' = w_ptr w \<and> w_text w' = w_text w \<and> w_count w' = w_count w \<and>
    (owes_we (Writing pc w) \<longrightarrow> owes_we (Writing pc' w'))"
proof (cases pc)
  case W_out
  have "tx_out u < BUF_LEN" using uart_okD(2) [OF assms(3)] by (simp add: rb_ok_def)
  then show ?thesis using W_out assms(1,2) by (auto simp: tx_room_rb)
next
  case W_room
  let ?n = "rb_room BUF_LEN (w_out w) (w_in w)"
  have n: "(if w_in w < w_out w then w_out w - 1 - w_in w
      else if w_out w > 0 then BUF_LEN - w_in w else BUF_LEN - 1 - w_in w) = ?n"
    by (simp add: rb_room_def)
  show ?thesis
    using assms(1,2) W_room by (auto simp only: wstep.simps n Let_def split: if_splits)
      (auto simp: stuck_def copied_def)
next
  case (W_copy i)
  then show ?thesis using assms(1,2,7) by (auto simp: copied_def)
qed (use assms in \<open>auto simp: stuck_def split: if_splits\<close>)

lemma wstep_inv:
  assumes "jtag_ok H L" "uart_inv L T D (Writing pc w) u" "tann (Writing pc w) on u"
    "wstep H pc w on u = (pc', w', on', u')"
  shows "uart_inv L T D (Writing pc' w') u' \<and> tann (Writing pc' w') on' u'"
proof -
  have ok: "uart_ok u" using assms(2) by (simp add: uart_inv_def)
  have len: "w_ptr w + w_count w = length (w_text w)" using assms(3) by simp
  consider "pc = W_publish" | "pc = W_or" | "pc = W_iowr" | i where "pc = W_copy i" "i < w_n w"
    | "pc \<noteq> W_publish" "pc \<noteq> W_or" "pc \<noteq> W_iowr" "\<forall>i. pc = W_copy i \<longrightarrow> w_n w \<le> i"
    by (metis not_less)
  then show ?thesis
  proof cases
    case 1
    then have "copied w (w_n w) u" using assms(3) by simp
    with 1 wstep_publish [of L T D w u] assms(2-4) show ?thesis by (auto simp: copied_def)
  next
    case 2
    then have "uart_inv L T D (Writing W_iowr w) (u\<lparr>irq_enable := irq_enable u OR CONTROL_WE_MSK\<rparr>)"
      by (intro uart_inv_enable [OF assms(1,2)]) simp_all
    with 2 assms(3,4) show ?thesis by (auto simp: stuck_def)
  next
    case 3
    then have "uart_inv L T D (Writing W_restore w) u" using uart_inv_local [OF assms(2), of "Writing W_restore w"] by simp
    from uart_inv_iowr [OF assms(1) this] 3 assms(3,4) show ?thesis by (auto simp: stuck_def)
  next
    case 4
    then have "copied w i u" using assms(3) by simp
    note c = wstep_copy [OF assms(2) [unfolded 4(1)] this 4(2)]
    show ?thesis using c 4 assms(3,4) by auto
  next
    case 5
    note l = wstep_local [OF assms(4) _ ok 5 len]
    have "uart_inv L T D (Writing pc' w') u"
      using l assms(3) by (intro uart_inv_local [OF assms(2)]) auto
    then show ?thesis using l assms(3) by auto
  qed
qed

section \<open>Steps of a read\<close>

lemma rstep_copy:
  assumes "uart_inv L T D (Reading (R_copy i) r) u" "fetched r i u" "i < r_n r"
  defines "r' \<equiv> r\<lparr>r_bytes := r_bytes r @ [rx_buf u ! (r_out r + i)]\<rparr>"
  shows "uart_inv L T D (Reading (R_copy (Suc i)) r') u" "fetched r' (Suc i) u"
proof -
  have f: "r_out r = rx_out u" "i < length (rx_q u)" "rx_out u + i < BUF_LEN" "length (r_bytes r) = r_ptr r + i"
    using assms(2,3) by (auto simp: fetched_def)
  have ok: "uart_ok u" using assms(1) by (simp add: uart_inv_def)
  have b: "rx_buf u ! (rx_out u + i) = rx_q u ! i" by (rule rx_nth [OF ok f(2,3)])
  show "fetched r' (Suc i) u"
    using assms(2,3) f b unfolding r'_def fetched_def by (simp add: take_Suc_conv_app_nth)
  show "uart_inv L T D (Reading (R_copy (Suc i)) r') u"
    using assms(1) f(4) unfolding r'_def by (simp add: uart_inv_def)
qed

lemma rstep_publish:
  assumes "uart_inv L T D (Reading R_publish r) u" "fetched r (r_n r) u" "pc = R_in \<or> pc = R_got"
  defines "r' \<equiv> r\<lparr>r_ptr := r_ptr r + r_n r, r_space := r_space r - r_n r\<rparr>"
    and "u' \<equiv> u\<lparr>rx_out := (r_out r + r_n r) mod BUF_LEN\<rparr>"
  shows "uart_inv L T D (Reading pc r') u'"
proof -
  have f: "r_out r = rx_out u" "r_n r \<le> length (rx_q u)" "rx_out u + r_n r \<le> BUF_LEN" "0 < r_n r"
    "length (r_bytes r) = r_ptr r + r_n r" "drop (r_ptr r) (r_bytes r) = take (r_n r) (rx_q u)"
    using assms(2) by (auto simp: fetched_def)
  have ok: "uart_ok u" using assms(1) by (simp add: uart_inv_def)
  note t = rx_publish [OF ok f(2,3)]
  have u': "uart_ok u'" "rx_q u' = drop (r_n r) (rx_q u)" using t f(1) unfolding u'_def by simp_all
  have "take (r_ptr r) (r_bytes r) @ rx_q u = r_bytes r @ rx_q u'"
    unfolding u'(2) by (metis append_assoc append_take_drop_id f(6))
  then show ?thesis
    using assms(1,3) u' f(4,5) unfolding uart_inv_def u'_def r'_def by auto
qed

lemma rstep_local:
  assumes "rstep H pc r on u = (pc', r', on', u')" "rann pc r on u" "uart_ok u"
    "pc \<noteq> R_publish" "pc \<noteq> R_or" "pc \<noteq> R_iowr" "\<forall>i. pc = R_copy i \<longrightarrow> r_n r \<le> i"
  shows "u' = u \<and> rann pc' r' on' u \<and> r_ptr r' = r_ptr r \<and> r_bytes r' = r_bytes r \<and>
    (owes_re (Reading pc r) \<longrightarrow> owes_re (Reading pc' r'))"
proof (cases pc)
  case R_in
  have "rx_in u < BUF_LEN" using uart_okD(1) [OF assms(3)] by (simp add: rb_ok_def)
  then show ?thesis using R_in assms(1,2) span_now [OF assms(3)] by (auto simp: full_bytes_def)
next
  case R_room
  have "rx_out u < BUF_LEN" using uart_okD(1) [OF assms(3)] by (simp add: rb_ok_def)
  then show ?thesis
    using R_room assms(1,2)
    by (auto simp: Let_def span_def fetched_def full_bytes_def split: if_splits)
next
  case (R_copy i)
  then show ?thesis using assms(1,2,7) by (auto simp: fetched_def)
qed (use assms in \<open>auto simp: full_bytes_def split: if_splits\<close>)

lemma rstep_inv:
  assumes "jtag_ok H L" "uart_inv L T D (Reading pc r) u" "tann (Reading pc r) on u"
    "rstep H pc r on u = (pc', r', on', u')"
  shows "uart_inv L T D (Reading pc' r') u' \<and> tann (Reading pc' r') on' u'"
proof -
  have ok: "uart_ok u" using assms(2) by (simp add: uart_inv_def)
  consider "pc = R_publish" | "pc = R_or" | "pc = R_iowr" | i where "pc = R_copy i" "i < r_n r"
    | "pc \<noteq> R_publish" "pc \<noteq> R_or" "pc \<noteq> R_iowr" "\<forall>i. pc = R_copy i \<longrightarrow> r_n r \<le> i"
    by (metis not_less)
  then show ?thesis
  proof cases
    case 1
    then have f: "fetched r (r_n r) u" using assms(3) by simp
    note p = rstep_publish [OF assms(2) [unfolded 1] f, of pc']
    show ?thesis using p 1 f assms(3,4) by (auto simp: fetched_def full_bytes_def split: if_splits)
  next
    case 2
    then have "uart_inv L T D (Reading R_iowr r) (u\<lparr>irq_enable := irq_enable u OR CONTROL_RE_MSK\<rparr>)"
      by (intro uart_inv_enable [OF assms(1,2)]) simp_all
    with 2 assms(3,4) show ?thesis by auto
  next
    case 3
    then have "uart_inv L T D (Reading R_restore r) u" using uart_inv_local [OF assms(2), of "Reading R_restore r"] by simp
    from uart_inv_iowr [OF assms(1) this] 3 assms(3,4) show ?thesis by auto
  next
    case 4
    then have "fetched r i u" using assms(3) by simp
    note c = rstep_copy [OF assms(2) [unfolded 4(1)] this 4(2)]
    show ?thesis using c 4 assms(3,4) by auto
  next
    case 5
    note l = rstep_local [OF assms(4) _ ok 5]
    have "uart_inv L T D (Reading pc' r') u"
      using l assms(3) by (intro uart_inv_local [OF assms(2)]) auto
    then show ?thesis using l assms(3) by auto
  qed
qed


section \<open>Every step of the machine\<close>

lemma ioctl_effect: "uart_ok u \<Longrightarrow> uart_ioctl req arg u = (rc, a, u') \<Longrightarrow> isr_effect L u u'"
  by (rule isr_effect_frame) (auto simp: uart_ioctl_def split: if_splits)

lemma start_inv:
  assumes "jtag_ok H L"
  shows "config_inv L d (config_start (uart_init H rc (uart_instance d)))"
  using init_flow [OF assms, of d rc]
  by (auto simp: config_inv_def config_start_def uart_inv_def flow_def wake_def)

lemma istep_inv:
  assumes "jtag_ok H L" "istep H c c'" "config_inv L d c"
  shows "config_inv L d c'"
  using assms(2,3)
proof cases
  case (istep_irq u u' acc del t)
  then have "uart_ok u" using assms(3) by (simp add: config_inv_def uart_inv_def)
  then show ?thesis using config_inv_effect [OF uart_irq_effect [OF assms(1) _ istep_irq(3)]] istep_irq assms(3) by blast
next
  case (istep_timeout acc del t u)
  then have "uart_ok u" using assms(3) by (simp add: config_inv_def uart_inv_def)
  then show ?thesis using config_inv_effect [OF uart_timeout_effect [OF assms(1)]] istep_timeout assms(3) by blast
next
  case (istep_ioctl req arg u rc arg' u' acc del on)
  then have "uart_ok u" using assms(3) by (simp add: config_inv_def uart_inv_def)
  then show ?thesis using config_inv_effect [OF ioctl_effect [OF _ istep_ioctl(3)]] istep_ioctl assms(3) by blast
next
  case (istep_write acc del on u xs flags)
  then show ?thesis using assms(3) by (auto simp: config_inv_def uart_inv_def write_start_def)
next
  case (istep_wstep pc w on u pc' w' on' u' acc del)
  then show ?thesis using wstep_inv [OF assms(1) _ _ istep_wstep(3)] assms(3) by (auto simp: config_inv_def)
next
  case (istep_wrote acc del w on u)
  then have "take (nat (write_value w)) (w_text w) = take (w_ptr w) (w_text w)"
    by (simp add: write_value_def EWOULDBLOCK_def EIO_def)
  then show ?thesis using istep_wrote assms(3) by (auto simp: config_inv_def uart_inv_def)
next
  case (istep_read acc del on u space flags)
  then show ?thesis using assms(3)
    by (auto simp: config_inv_def uart_inv_def read_start_def full_bytes_def)
next
  case (istep_rstep pc r on u pc' r' on' u' acc del)
  then show ?thesis using rstep_inv [OF assms(1) _ _ istep_rstep(3)] assms(3) by (auto simp: config_inv_def)
next
  case (istep_got acc del r on u)
  then have "take (nat (read_value r)) (r_bytes r) = take (r_ptr r) (r_bytes r)"
    by (simp add: read_value_def EWOULDBLOCK_def EIO_def)
  then show ?thesis using istep_got assms(3) by (auto simp: config_inv_def uart_inv_def)
qed

lemma interleaving_inv:
  assumes "jtag_ok H L" "interleaving H rc d c"
  shows "config_inv L d c"
  using assms(2) unfolding interleaving_def
  by (induction rule: rtranclp_induct) (auto intro: start_inv istep_inv assms(1))

section \<open>Refinement of two bounded queues\<close>

text \<open>
  The abstract driver: two streams of bytes, each with what entered it and what left it. Bytes
  leave in the order they entered, and at most 2047 are on their way.
\<close>

record pipes =
  p_accepted :: "u8 list"
  p_sent :: "u8 list"
  p_received :: "u8 list"
  p_delivered :: "u8 list"

inductive pipe_step :: "pipes \<Rightarrow> pipes \<Rightarrow> bool" where
  pipe_accept: "length (p_accepted p @ bs) \<le> length (p_sent p) + 2047 \<Longrightarrow>
    pipe_step p (p\<lparr>p_accepted := p_accepted p @ bs\<rparr>)"
| pipe_send: "p_accepted p = p_sent p @ bs @ rest \<Longrightarrow> pipe_step p (p\<lparr>p_sent := p_sent p @ bs\<rparr>)"
| pipe_receive: "length (p_received p @ bs) \<le> length (p_delivered p) + 2047 \<Longrightarrow>
    pipe_step p (p\<lparr>p_received := p_received p @ bs\<rparr>)"
| pipe_deliver: "p_received p = p_delivered p @ bs @ rest \<Longrightarrow>
    pipe_step p (p\<lparr>p_delivered := p_delivered p @ bs\<rparr>)"

definition pipes_of :: "'d jtag_log \<Rightarrow> 'd \<Rightarrow> 'd config \<Rightarrow> pipes" where
  "pipes_of L d c =
     \<lparr>p_accepted = sent L d @ c_acc c @ writing (c_thread c), p_sent = sent L (regs (c_uart c)),
      p_received = received L (regs (c_uart c)),
      p_delivered = received L d @ c_del c @ reading (c_thread c)\<rparr>"

lemma inv_pipes:
  assumes "config_inv L d c"
  shows "p_accepted (pipes_of L d c) = p_sent (pipes_of L d c) @ tx_q (c_uart c)"
    "p_received (pipes_of L d c) = p_delivered (pipes_of L d c) @ rx_q (c_uart c)"
    "length (tx_q (c_uart c)) \<le> 2047" "length (rx_q (c_uart c)) \<le> 2047"
  using assms rb_bound [OF uart_okD(1) [of "c_uart c"]] rb_bound [OF uart_okD(2) [of "c_uart c"]]
  by (auto simp: config_inv_def uart_inv_def pipes_of_def BUF_LEN_def)

text \<open>Two states of the streams, of which the second has a longer history on every end, are linked
  by abstract steps: bytes leave, then others enter.\<close>

lemma pipes_grow:
  assumes "p_sent q = p_sent p @ s" "p_delivered q = p_delivered p @ l"
    "p_accepted q = p_accepted p @ a" "p_received q = p_received p @ r"
    and "p_accepted p = p_sent p @ s @ sr" "p_received p = p_delivered p @ l @ lr"
    and "length (p_accepted q) \<le> length (p_sent q) + 2047" "length (p_received q) \<le> length (p_delivered q) + 2047"
  shows "pipe_step\<^sup>*\<^sup>* p q"
proof -
  let ?p1 = "p\<lparr>p_sent := p_sent p @ s\<rparr>"
  let ?p2 = "?p1\<lparr>p_delivered := p_delivered ?p1 @ l\<rparr>"
  let ?p3 = "?p2\<lparr>p_accepted := p_accepted ?p2 @ a\<rparr>"
  let ?p4 = "?p3\<lparr>p_received := p_received ?p3 @ r\<rparr>"
  have "pipe_step p ?p1" by (rule pipe_send) (rule assms(5))
  moreover have "pipe_step ?p1 ?p2" by (rule pipe_deliver) (use assms(6) in simp)
  moreover have "pipe_step ?p2 ?p3" by (rule pipe_accept) (use assms in simp)
  moreover have "pipe_step ?p3 ?p4" by (rule pipe_receive) (use assms in simp)
  moreover have "q = ?p4" using assms(1-4) by (cases q) simp
  ultimately show ?thesis by (meson converse_rtranclp_into_rtranclp rtranclp.rtrancl_refl)
qed

text \<open>A step of a call leaves the hardware's logs alone; a handler leaves the calls alone.\<close>

lemma wstep_grows:
  assumes "jtag_ok H L" "wstep H pc w on u = (pc', w', on', u')"
  shows "\<exists>a. writing (Writing pc' w') = writing (Writing pc w) @ a"
    "sent L (regs u') = sent L (regs u)" "received L (regs u') = received L (regs u)"
proof -
  have "w_text w' = w_text w \<and> w_ptr w \<le> w_ptr w'" using assms(2) by (cases pc) (auto simp: Let_def split: if_splits)
  then show "\<exists>a. writing (Writing pc' w') = writing (Writing pc w) @ a"
    using take_add [of "w_ptr w" "w_ptr w' - w_ptr w" "w_text w"] by auto
  show "sent L (regs u') = sent L (regs u)" "received L (regs u') = received L (regs u)"
    using assms(2) control_log [OF assms(1)] by (cases pc; auto simp: Let_def split: if_splits)+
qed

lemma rstep_grows:
  assumes "jtag_ok H L" "rstep H pc r on u = (pc', r', on', u')" "r_ptr r \<le> length (r_bytes r)"
  shows "\<exists>a. reading (Reading pc' r') = reading (Reading pc r) @ a"
    "sent L (regs u') = sent L (regs u)" "received L (regs u') = received L (regs u)"
proof -
  obtain z where "r_bytes r' = r_bytes r @ z" "r_ptr r \<le> r_ptr r'"
    using assms(2) by (cases pc) (auto simp: Let_def split: if_splits)
  then show "\<exists>a. reading (Reading pc' r') = reading (Reading pc r) @ a"
    using take_add [of "r_ptr r" "r_ptr r' - r_ptr r" "r_bytes r @ z"] assms(3) by auto
  show "sent L (regs u') = sent L (regs u)" "received L (regs u') = received L (regs u)"
    using assms(2) control_log [OF assms(1)] by (cases pc; auto simp: Let_def split: if_splits)+
qed

lemma rann_bytes: "rann pc r on u \<Longrightarrow> r_ptr r \<le> length (r_bytes r)"
  by (cases pc) (auto simp: full_bytes_def fetched_def)

text \<open>Every step lengthens the four histories, and what leaves a queue was in it before.\<close>

definition histories_grow :: "pipes \<Rightarrow> pipes \<Rightarrow> bool" where
  "histories_grow p q \<longleftrightarrow>
     (\<exists>s l a r sr lr. p_sent q = p_sent p @ s \<and> p_delivered q = p_delivered p @ l \<and>
        p_accepted q = p_accepted p @ a \<and> p_received q = p_received p @ r \<and>
        p_accepted p = p_sent p @ s @ sr \<and> p_received p = p_delivered p @ l @ lr)"

lemma effect_grows:
  assumes "isr_effect L u u'" "config_inv L d c" "c_uart c = u" "c_acc c' = c_acc c" "c_del c' = c_del c"
    "c_thread c' = c_thread c" "c_uart c' = u'"
  shows "histories_grow (pipes_of L d c) (pipes_of L d c')"
proof -
  obtain ys bs where e: "tx_q u = ys @ tx_q u'" "sent L (regs u') = sent L (regs u) @ ys"
    "received L (regs u') = received L (regs u) @ bs"
    using assms(1) unfolding isr_effect_def by blast
  note i = inv_pipes(1,2) [OF assms(2), unfolded assms(3)]
  show ?thesis
    unfolding histories_grow_def
    by (rule exI [of _ ys], rule exI [of _ "[]"], rule exI [of _ "[]"], rule exI [of _ bs],
        rule exI [of _ "tx_q u'"], rule exI [of _ "rx_q u"])
      (use i e assms(3-7) in \<open>simp add: pipes_of_def\<close>)
qed

lemma call_grows:
  assumes "config_inv L d c" "sent L (regs (c_uart c')) = sent L (regs (c_uart c))"
    "received L (regs (c_uart c')) = received L (regs (c_uart c))"
    "c_acc c' @ writing (c_thread c') = (c_acc c @ writing (c_thread c)) @ a"
    "c_del c' @ reading (c_thread c') = (c_del c @ reading (c_thread c)) @ l"
    "config_inv L d c'"
  shows "histories_grow (pipes_of L d c) (pipes_of L d c')"
proof -
  note i = inv_pipes(1,2) [OF assms(1)] and i' = inv_pipes(2) [OF assms(6)]
  have d: "p_delivered (pipes_of L d c') = p_delivered (pipes_of L d c) @ l"
    "p_received (pipes_of L d c') = p_received (pipes_of L d c)"
    using assms(3,5) by (simp_all add: pipes_of_def)
  show ?thesis
    unfolding histories_grow_def
    by (rule exI [of _ "[]"], rule exI [of _ l], rule exI [of _ a], rule exI [of _ "[]"],
        rule exI [of _ "tx_q (c_uart c)"], rule exI [of _ "rx_q (c_uart c')"])
      (use i i' d assms(2-4) in \<open>simp add: pipes_of_def\<close>)
qed

lemma istep_grows:
  assumes "jtag_ok H L" "istep H c c'" "config_inv L d c"
  shows "histories_grow (pipes_of L d c) (pipes_of L d c')"
proof -
  have ok: "uart_ok (c_uart c)" using assms(3) by (simp add: config_inv_def uart_inv_def)
  note after = istep_inv [OF assms]
  from assms(2) show ?thesis
  proof cases
    case (istep_irq u u' acc del t)
    then show ?thesis using effect_grows [OF uart_irq_effect [OF assms(1) _ istep_irq(3)] assms(3)] ok by simp
  next
    case (istep_timeout acc del t u)
    then show ?thesis using effect_grows [OF uart_timeout_effect [OF assms(1)] assms(3)] ok by simp
  next
    case (istep_ioctl req arg u rc arg' u' acc del on)
    then show ?thesis using effect_grows [OF ioctl_effect [OF _ istep_ioctl(3)] assms(3)] ok by simp
  next
    case (istep_wstep pc w on u pc' w' on' u' acc del)
    note g = wstep_grows [OF assms(1) istep_wstep(3)]
    then show ?thesis using call_grows [OF assms(3) _ _ _ _ after, of _ "[]"] istep_wstep by auto
  next
    case (istep_rstep pc r on u pc' r' on' u' acc del)
    then have "r_ptr r \<le> length (r_bytes r)" using assms(3) rann_bytes by (auto simp: config_inv_def)
    note g = rstep_grows [OF assms(1) istep_rstep(3) this]
    then show ?thesis using call_grows [OF assms(3) _ _ _ _ after, of "[]"] istep_rstep by auto
  next
    case (istep_wrote acc del w on u)
    then have "take (nat (write_value w)) (w_text w) = take (w_ptr w) (w_text w)"
      by (simp add: write_value_def EWOULDBLOCK_def EIO_def)
    then show ?thesis using call_grows [OF assms(3) _ _ _ _ after, of "[]" "[]"] istep_wrote by simp
  next
    case (istep_got acc del r on u)
    then have "take (nat (read_value r)) (r_bytes r) = take (r_ptr r) (r_bytes r)"
      by (simp add: read_value_def EWOULDBLOCK_def EIO_def)
    then show ?thesis using call_grows [OF assms(3) _ _ _ _ after, of "[]" "[]"] istep_got by simp
  qed (use call_grows [OF assms(3) _ _ _ _ after, of "[]" "[]"] in \<open>simp_all add: write_start_def read_start_def\<close>)
qed

lemma grow_steps:
  assumes "histories_grow (pipes_of L d c) (pipes_of L d c')" "config_inv L d c'"
  shows "pipe_step\<^sup>*\<^sup>* (pipes_of L d c) (pipes_of L d c')"
proof -
  have "length (p_accepted (pipes_of L d c')) \<le> length (p_sent (pipes_of L d c')) + 2047"
    "length (p_received (pipes_of L d c')) \<le> length (p_delivered (pipes_of L d c')) + 2047"
    using inv_pipes [OF assms(2)] by simp_all
  with assms(1) show ?thesis unfolding histories_grow_def by (elim exE conjE) (rule pipes_grow)
qed

end
