(* ===== verification/Jtag_Control.thy ===== *)
theory Jtag_Control
  imports Jtag_Steps_Props
begin

text \<open>
  The control register of the UART. The driver keeps a shadow of the interrupt enables
  (\<open>irq_enable\<close>) and writes it to the register after each change, between two statements of which
  no interrupt is accepted. So the hardware has enabled what the driver believes it has, whenever
  a handler can run or a call waits.
\<close>

section \<open>The register\<close>

text \<open>
  What the UART's documentation says of the two enable bits: \<open>E\<close> reads them from the registers, a
  write of the control register sets them, and no other access changes them.
\<close>

definition enable_bits :: u32 where
  "enable_bits = CONTROL_RE_MSK OR CONTROL_WE_MSK"

definition control_ok :: "'d jtag_hw \<Rightarrow> ('d \<Rightarrow> u32) \<Rightarrow> bool" where
  "control_ok H E \<longleftrightarrow>
     (\<forall>v d. E (wr_control H v d) = v AND enable_bits) \<and> (\<forall>v d. E (wr_data H v d) = E d) \<and>
     (\<forall>d v d'. rd_data H d = (v, d') \<longrightarrow> E d' = E d) \<and> (\<forall>d v d'. rd_control H d = (v, d') \<longrightarrow> E d' = E d)"

definition control_synced :: "('d \<Rightarrow> u32) \<Rightarrow> 'd uart \<Rightarrow> bool" where
  "control_synced E u \<longleftrightarrow> E (regs u) = irq_enable u AND enable_bits"

lemma synced_bits:
  assumes "control_synced E u"
  shows "E (regs u) AND CONTROL_WE_MSK = irq_enable u AND CONTROL_WE_MSK"
    "E (regs u) AND CONTROL_RE_MSK = irq_enable u AND CONTROL_RE_MSK"
  using assms by (simp_all add: control_synced_def enable_bits_def uart_masks and.assoc)

lemma control_read:
  assumes "control_ok H E"
  shows "E (regs (snd (IORD_CONTROL H u))) = E (regs u)" "E (regs (snd (IORD_DATA H u))) = E (regs u)"
proof -
  obtain c d where "rd_control H (regs u) = (c, d)" by fastforce
  moreover from this have "E d = E (regs u)" using assms unfolding control_ok_def by blast
  ultimately show "E (regs (snd (IORD_CONTROL H u))) = E (regs u)" by (simp add: IORD_CONTROL_def)
  obtain c d where "rd_data H (regs u) = (c, d)" by fastforce
  moreover from this have "E d = E (regs u)" using assms unfolding control_ok_def by blast
  ultimately show "E (regs (snd (IORD_DATA H u))) = E (regs u)" by (simp add: IORD_DATA_def)
qed

lemma control_written:
  assumes "control_ok H E"
  shows "E (regs (IOWR_CONTROL H v u)) = v AND enable_bits" "E (regs (IOWR_DATA H w u)) = E (regs u)"
  using assms by (simp_all add: control_ok_def IOWR_CONTROL_def IOWR_DATA_def)

lemma synced_read: "control_ok H E \<Longrightarrow> control_synced E (snd (IORD_CONTROL H u)) = control_synced E u"
  by (simp add: control_synced_def control_read)

lemma synced_write:
  "control_ok H E \<Longrightarrow> v AND enable_bits = irq_enable u AND enable_bits \<Longrightarrow> control_synced E (IOWR_CONTROL H v u)"
  by (simp add: control_synced_def control_written)

section \<open>The handler and the timeout\<close>

lemma rx_loop_synced:
  assumes "control_ok H E" "rx_loop k H (data, u) = (data', u')" "control_synced E u"
  shows "control_synced E u'"
  using assms(2,3)
proof (induction k arbitrary: data u)
  case (Suc k)
  obtain v w where r: "IORD_DATA H u = (v, w)" by fastforce
  have w: "control_synced E w"
    using control_read(2) [OF assms(1), of u] Suc.prems(2) r
    by (auto simp: control_synced_def IORD_DATA_def split: prod.splits)
  then have "control_synced E (rx_store b w)" for b by (simp add: control_synced_def rx_store_def)
  with w show ?case using Suc.IH Suc.prems r by (auto split: if_splits)
qed simp

lemma tx_loop_synced:
  assumes "control_ok H E" "tx_loop n H u = (left, u')" "control_synced E u"
  shows "control_synced E u'"
  using assms(2,3)
proof (induction n arbitrary: u)
  case (Suc n)
  have "control_synced E ((IOWR_DATA H v u)\<lparr>tx_out := k\<rparr>)" for v k
    using Suc.prems(2) control_written(2) [OF assms(1), of v u] by (simp add: control_synced_def IOWR_DATA_def)
  then show ?case using Suc.IH Suc.prems by (auto simp: Let_def split: if_splits)
qed simp

lemma irq_round_synced:
  assumes "control_ok H E" "control_synced E u"
  shows "control_synced E (irq_round H control u)"
proof -
  have off: "control_synced E (snd (IORD_CONTROL H (IOWR_CONTROL H v (w\<lparr>irq_enable := v\<rparr>))))" for v w
    by (simp add: synced_read [OF assms(1)] synced_write [OF assms(1)])
  have rx: "control_synced E (irq_rx H u)"
  proof -
    obtain data w where l: "rx_loop BUF_LEN H (push_bit 16 1, u) = (data, w)" by fastforce
    show ?thesis using rx_loop_synced [OF assms(1) l assms(2)] off l by (simp add: irq_rx_def Let_def)
  qed
  have tx: "control_synced E (irq_tx H control v)" if "control_synced E v" for v
  proof -
    obtain left w where l: "tx_loop (unat (drop_bit 16 (control AND CONTROL_WSPACE_MSK))) H v = (left, w)" by fastforce
    show ?thesis using tx_loop_synced [OF assms(1) l that] off l by (simp add: irq_tx_def Let_def)
  qed
  show ?thesis using rx tx assms(2) by (simp add: irq_round_def Let_def)
qed

lemma uart_irq_synced:
  assumes "control_ok H E" "uart_irq H u = Some u'" "control_synced E u"
  shows "control_synced E u'"
proof -
  let ?f = "\<lambda>(control, u). IORD_CONTROL H (irq_round H control u)"
  obtain c where w: "while_option (\<lambda>(control, u). control AND (CONTROL_RI_MSK OR CONTROL_WI_MSK) \<noteq> 0)
      ?f (IORD_CONTROL H u) = Some (c, u')"
    using assms(2) by (auto simp: uart_irq_def)
  have "control_synced E (snd (?f x))" if "control_synced E (snd x)" for x
    using irq_round_synced [OF assms(1) that] by (simp add: split_beta synced_read [OF assms(1)])
  then show ?thesis
    using while_option_inv [where P = "\<lambda>x. control_synced E (snd x)", OF w] assms(3)
    by (simp add: synced_read [OF assms(1)])
qed

lemma ac_bit: "(x OR CONTROL_AC_MSK) AND enable_bits = x AND enable_bits"
  by (simp add: enable_bits_def uart_masks bit.conj_disj_distrib2)

lemma uart_timeout_synced:
  assumes "control_ok H E" "control_synced E u"
  shows "control_synced E (uart_timeout H u)"
proof -
  obtain c v where r: "IORD_CONTROL H u = (c, v)" by fastforce
  have v: "control_synced E v" using synced_read [OF assms(1), of u] assms(2) r by simp
  have "control_synced E (IOWR_CONTROL H (irq_enable v OR CONTROL_AC_MSK) v)"
    by (rule synced_write [OF assms(1) ac_bit])
  with v show ?thesis using r by (simp add: uart_timeout_def control_synced_def)
qed

section \<open>The machine\<close>

text \<open>The shadow and the register differ only between the two statements that change them.\<close>

fun between :: "thread \<Rightarrow> bool" where
  "between (Writing W_iowr w) = True"
| "between (Reading R_iowr r) = True"
| "between t = False"

definition control_inv :: "('d \<Rightarrow> u32) \<Rightarrow> 'd config \<Rightarrow> bool" where
  "control_inv E c \<longleftrightarrow> between (c_thread c) \<or> control_synced E (c_uart c)"

lemma between_off: "config_inv L d c \<Longrightarrow> between (c_thread c) \<Longrightarrow> \<not> c_irq c"
  by (cases "c_thread c" rule: between.cases) (auto simp: config_inv_def)

lemma wstep_control:
  assumes "control_ok H E" "wstep H pc w on u = (pc', w', on', u')"
    and "between (Writing pc w) \<or> control_synced E u"
  shows "between (Writing pc' w') \<or> control_synced E u'"
proof (cases pc)
  case W_iowr
  then show ?thesis using assms(2) synced_write [OF assms(1), of "irq_enable u" u] by auto
qed (use assms(2,3) in \<open>auto simp: Let_def control_synced_def split: if_splits\<close>)

lemma rstep_control:
  assumes "control_ok H E" "rstep H pc r on u = (pc', r', on', u')"
    and "between (Reading pc r) \<or> control_synced E u"
  shows "between (Reading pc' r') \<or> control_synced E u'"
proof (cases pc)
  case R_iowr
  then show ?thesis using assms(2) synced_write [OF assms(1), of "irq_enable u" u] by auto
qed (use assms(2,3) in \<open>auto simp: Let_def control_synced_def split: if_splits\<close>)

lemma ioctl_synced: "uart_ioctl req arg u = (rc, arg', u') \<Longrightarrow> control_synced E u' = control_synced E u"
  by (auto simp: uart_ioctl_def control_synced_def split: if_splits)

lemma istep_control:
  assumes "control_ok H E" "config_inv L d c" "istep H c c'" "control_inv E c"
  shows "control_inv E c'"
  using assms(3)
proof cases
  case (istep_irq u u' acc del t)
  then show ?thesis
    using assms(2,4) between_off uart_irq_synced [OF assms(1) istep_irq(3)] by (fastforce simp: control_inv_def)
next
  case (istep_timeout acc del t u)
  then show ?thesis
    using assms(2,4) between_off uart_timeout_synced [OF assms(1)] by (fastforce simp: control_inv_def)
next
  case (istep_wstep pc w on u pc' w' on' u' acc del)
  then show ?thesis using assms(4) wstep_control [OF assms(1) istep_wstep(3)] by (simp add: control_inv_def)
next
  case (istep_rstep pc r on u pc' r' on' u' acc del)
  then show ?thesis using assms(4) rstep_control [OF assms(1) istep_rstep(3)] by (simp add: control_inv_def)
next
  case (istep_ioctl req arg u rc arg' u' acc del on)
  then show ?thesis using assms(4) ioctl_synced [OF istep_ioctl(3), of E] by (simp add: control_inv_def)
qed (use assms(4) in \<open>simp_all add: control_inv_def\<close>)

lemma init_synced: "control_ok H E \<Longrightarrow> control_synced E (uart_init H rc (uart_instance d))"
  by (simp add: control_synced_def uart_init_def Let_def control_ok_def IOWR_CONTROL_def)

lemma interleaving_control:
  assumes "jtag_ok H L" "control_ok H E" "interleaving H rc d c"
  shows "control_inv E c"
  using assms(3) unfolding interleaving_def
proof (induction rule: rtranclp_induct)
  case base
  then show ?case using init_synced [OF assms(2)] by (simp add: control_inv_def config_start_def)
next
  case (step c c')
  then show ?case using istep_control [OF assms(2) interleaving_inv [OF assms(1)]] by (auto simp: interleaving_def)
qed

end
