(* ===== verification/Jtag_Calls.thy ===== *)
theory Jtag_Calls
  imports Jtag_Control
begin

text \<open>
  The calls of Jtag_Uart, in which interrupts arrive only while a call waits, are among the
  behaviours of the machine of Jtag_Steps: what a call returns and the state it leaves are those
  of one interleaving of its statements with the handlers.
\<close>

section \<open>What happens while a call waits\<close>

definition handler_step :: "'d jtag_hw \<Rightarrow> 'd uart \<Rightarrow> 'd uart \<Rightarrow> bool" where
  "handler_step H u u' \<longleftrightarrow> uart_irq H u = Some u' \<or> u' = uart_timeout H u"

definition handlers_only :: "'d jtag_hw \<Rightarrow> ('d uart \<Rightarrow> 'd uart) \<Rightarrow> bool" where
  "handlers_only H env \<longleftrightarrow> (\<forall>u. (handler_step H)\<^sup>*\<^sup>* u (env u))"

abbreviation idle :: "u8 list \<Rightarrow> u8 list \<Rightarrow> 'd uart \<Rightarrow> 'd config" where
  "idle acc del u \<equiv> \<lparr>c_acc = acc, c_del = del, c_thread = Idle, c_irq = True, c_uart = u\<rparr>"

abbreviation in_write :: "u8 list \<Rightarrow> u8 list \<Rightarrow> wpc \<Rightarrow> wcall \<Rightarrow> 'd uart \<Rightarrow> 'd config" where
  "in_write acc del pc w u \<equiv> \<lparr>c_acc = acc, c_del = del, c_thread = Writing pc w, c_irq = True, c_uart = u\<rparr>"

abbreviation in_read :: "u8 list \<Rightarrow> u8 list \<Rightarrow> rpc \<Rightarrow> rcall \<Rightarrow> 'd uart \<Rightarrow> 'd config" where
  "in_read acc del pc r u \<equiv> \<lparr>c_acc = acc, c_del = del, c_thread = Reading pc r, c_irq = True, c_uart = u\<rparr>"

lemma handlers_run:
  assumes "(handler_step H)\<^sup>*\<^sup>* u u'"
  shows "(istep H)\<^sup>*\<^sup>* \<lparr>c_acc = acc, c_del = del, c_thread = t, c_irq = True, c_uart = u\<rparr>
    \<lparr>c_acc = acc, c_del = del, c_thread = t, c_irq = True, c_uart = u'\<rparr>"
  using assms
proof induction
  case (step v w)
  from step.hyps(2) have "istep H \<lparr>c_acc = acc, c_del = del, c_thread = t, c_irq = True, c_uart = v\<rparr>
      \<lparr>c_acc = acc, c_del = del, c_thread = t, c_irq = True, c_uart = w\<rparr>"
    unfolding handler_step_def using istep_irq istep_timeout by metis
  with step.IH show ?case by (rule rtranclp.rtrancl_into_rtrancl)
qed simp

lemma handlers_ok:
  assumes "(handler_step H)\<^sup>*\<^sup>* u u'" "jtag_ok H L" "uart_ok u"
  shows "uart_ok u'"
  using assms(1,3)
proof induction
  case (step v w)
  then show ?case
    using uart_irq_effect [OF assms(2)] uart_timeout_effect [OF assms(2)] isr_effect_ok
    unfolding handler_step_def by metis
qed simp

text \<open>One statement, put before a run.\<close>

lemma write_step:
  assumes "wstep H pc w on u = (pc', w', on', u')"
    and "(istep H)\<^sup>*\<^sup>* \<lparr>c_acc = acc, c_del = del, c_thread = Writing pc' w', c_irq = on', c_uart = u'\<rparr> c"
  shows "(istep H)\<^sup>*\<^sup>* \<lparr>c_acc = acc, c_del = del, c_thread = Writing pc w, c_irq = on, c_uart = u\<rparr> c"
  using istep_wstep [OF assms(1)] assms(2) by (rule converse_rtranclp_into_rtranclp)

lemma read_step:
  assumes "rstep H pc r on u = (pc', r', on', u')"
    and "(istep H)\<^sup>*\<^sup>* \<lparr>c_acc = acc, c_del = del, c_thread = Reading pc' r', c_irq = on', c_uart = u'\<rparr> c"
  shows "(istep H)\<^sup>*\<^sup>* \<lparr>c_acc = acc, c_del = del, c_thread = Reading pc r, c_irq = on, c_uart = u\<rparr> c"
  using istep_rstep [OF assms(1)] assms(2) by (rule converse_rtranclp_into_rtranclp)

section \<open>The copying of a write\<close>

lemma memcpy_to_Cons:
  assumes "k + length (x # xs) \<le> length buf"
  shows "memcpy_to buf k (x # xs) = memcpy_to (buf[k := x]) (k + 1) xs"
  using assms by (simp add: memcpy_to_def take_Suc_conv_app_nth)

lemma write_copy_run:
  assumes "i \<le> w_n w" "w_in w + w_n w \<le> length (tx_buf u)" "w_ptr w + w_n w \<le> length (w_text w)"
  shows "(istep H)\<^sup>*\<^sup>* (in_write acc del (W_copy i) w u)
    (in_write acc del W_publish w
       (u\<lparr>tx_buf := memcpy_to (tx_buf u) (w_in w + i) (take (w_n w - i) (drop (w_ptr w + i) (w_text w)))\<rparr>))"
  using assms
proof (induction "w_n w - i" arbitrary: i u)
  case 0
  then show ?case by (intro write_step [of H "W_copy i" w True u W_publish w True u]) (simp_all add: memcpy_to_def)
next
  case (Suc k)
  let ?x = "w_text w ! (w_ptr w + i)" and ?u = "u\<lparr>tx_buf := (tx_buf u)[w_in w + i := w_text w ! (w_ptr w + i)]\<rparr>"
  have d: "take (w_n w - i) (drop (w_ptr w + i) (w_text w)) =
      ?x # take (w_n w - Suc i) (drop (w_ptr w + Suc i) (w_text w))"
    using Suc.hyps(2) Suc.prems(3)
    by (subst Cons_nth_drop_Suc [symmetric]) (simp_all add: take_Cons' Suc_diff_Suc)
  have "memcpy_to (tx_buf u) (w_in w + i) (take (w_n w - i) (drop (w_ptr w + i) (w_text w))) =
      memcpy_to (tx_buf ?u) (w_in w + Suc i) (take (w_n w - Suc i) (drop (w_ptr w + Suc i) (w_text w)))"
    unfolding d using Suc.prems(2,3) Suc.hyps(2) by (subst memcpy_to_Cons) auto
  moreover have "(istep H)\<^sup>*\<^sup>* (in_write acc del (W_copy (Suc i)) w ?u)
      (in_write acc del W_publish w (?u\<lparr>tx_buf := memcpy_to (tx_buf ?u) (w_in w + Suc i)
         (take (w_n w - Suc i) (drop (w_ptr w + Suc i) (w_text w)))\<rparr>))"
    using Suc.hyps(2) Suc.prems by (intro Suc.hyps(1)) simp_all
  ultimately show ?case
    using Suc.hyps(2) by (intro write_step [of H "W_copy i" w True u "W_copy (Suc i)" w True ?u]) simp_all
qed

text \<open>The call holds in its variables what the list argument of \<open>tx_copy\<close> holds.\<close>

definition write_at :: "u8 list \<Rightarrow> u32 \<Rightarrow> u8 list \<Rightarrow> wcall \<Rightarrow> bool" where
  "write_at xs flags rest w \<longleftrightarrow> w_text w = xs \<and> w_flags w = flags \<and> w_ptr w + w_count w = length xs \<and>
     drop (w_ptr w) xs = rest"

lemma write_at_count: "write_at xs flags rest w \<Longrightarrow> w_count w = length rest"
  by (auto simp: write_at_def)

lemma wstep_room:
  assumes "w_in w = tx_in u" "w_out w = tx_out u"
  shows "wstep H W_room w on u =
    (if tx_room u = 0 then (W_disable, w, on, u)
     else (W_copy 0, w\<lparr>w_n := min (tx_room u) (w_count w)\<rparr>, on, u))"
  by (simp only: wstep.simps assms tx_room_def [symmetric]) (simp add: Let_def min_def)

lemma write_phase:
  assumes "uart_ok u" "tx_copy ys u = (rest, u')" "write_at xs flags ys w"
  shows "\<exists>w'. (istep H)\<^sup>*\<^sup>* (in_write acc del W_loop w u) (in_write acc del W_disable w' u') \<and>
    write_at xs flags rest w' \<and> (rest \<noteq> [] \<longrightarrow> w_out w' = tx_out u')"
  using assms
proof (induction ys u arbitrary: w rule: tx_copy.induct)
  case (1 ys u)
  note cnt = write_at_count [OF 1(4)]
  show ?case
  proof (cases "ys = []")
    case True
    then have "rest = ys" "u' = u" using 1(3) by (simp_all add: tx_copy.simps)
    then show ?thesis
      using True cnt 1(4) by (intro exI [of _ w]) (simp add: write_step [of H W_loop w True u W_disable w True u])
  next
    case ne: False
    let ?v = "w\<lparr>w_in := tx_in u, w_out := tx_out u\<rparr>"
    have to_room: "(istep H)\<^sup>*\<^sup>* (in_write acc del W_loop w u) c"
      if "(istep H)\<^sup>*\<^sup>* (in_write acc del W_room ?v u) c" for c
      using that ne cnt
      by (intro write_step [of H W_loop w True u W_out "w\<lparr>w_in := tx_in u\<rparr>" True u]
            write_step [of H W_out _ True u W_room ?v True u]) simp_all
    show ?thesis
    proof (cases "tx_room u = 0")
      case True
      then have e: "rest = ys" "u' = u" using 1(3) by (simp_all add: tx_copy.simps)
      have "wstep H W_room ?v True u = (W_disable, ?v, True, u)"
        using True by (simp add: wstep_room del: wstep.simps)
      then have "(istep H)\<^sup>*\<^sup>* (in_write acc del W_room ?v u) (in_write acc del W_disable ?v u)"
        by (rule write_step) simp
      then show ?thesis using to_room e 1(4) by (intro exI [of _ ?v]) (simp add: write_at_def)
    next
      case False
      define k where "k = min (tx_room u) (length ys)"
      define v where "v = ?v\<lparr>w_n := k\<rparr>"
      define u1 where "u1 = u\<lparr>tx_buf := memcpy_to (tx_buf u) (tx_in u) (take k ys), tx_in := (tx_in u + k) mod BUF_LEN\<rparr>"
      define w1 where "w1 = v\<lparr>w_ptr := w_ptr w + k, w_count := w_count w - k\<rparr>"
      have k: "k \<le> tx_room u" "k \<le> length ys" "w_ptr w + k \<le> length xs"
        using 1(4) cnt by (auto simp: k_def write_at_def)
      have tx: "w_text w = xs" "drop (w_ptr w) xs = ys" using 1(4) by (auto simp: write_at_def)
      have fits: "tx_in u + k \<le> length (tx_buf u)"
        using tx_room_fits [OF 1(2)] k(1) uart_okD(2) [OF 1(2)] by (simp add: rb_ok_def)
      have r1: "wstep H W_room ?v True u = (W_copy 0, v, True, u)"
        using False cnt by (simp add: wstep_room v_def k_def del: wstep.simps)
      have r2: "(istep H)\<^sup>*\<^sup>* (in_write acc del (W_copy 0) v u)
          (in_write acc del W_publish v (u\<lparr>tx_buf := memcpy_to (tx_buf u) (tx_in u) (take k ys)\<rparr>))"
        using write_copy_run [of 0 v u H acc del] fits k(3) tx by (simp add: v_def)
      have r3: "wstep H W_publish v True (u\<lparr>tx_buf := memcpy_to (tx_buf u) (tx_in u) (take k ys)\<rparr>) =
          (W_loop, w1, True, u1)"
        by (simp add: v_def w1_def u1_def)
      note run = to_room [OF write_step [OF r1 rtranclp.rtrancl_into_rtrancl [OF r2 istep_wstep [OF r3]]]]
      have r: "tx_copy (drop k ys) u1 = (rest, u')"
        using 1(3) ne False unfolding k_def u1_def by (subst (asm) tx_copy.simps) (simp add: Let_def)
      have "length (take k ys) \<le> rb_room BUF_LEN (tx_out u) (tx_in u)" using k(1) by (simp add: tx_room_rb)
      then have ok1: "uart_ok u1"
        using rb_put_block(2) [OF uart_okD(2) [OF 1(2)], of "take k ys"] 1(2) k(2)
        by (simp add: u1_def uart_ok_def)
      have at1: "write_at xs flags (drop k ys) w1"
        using 1(4) k tx by (auto simp: w1_def v_def write_at_def add.commute)
      have "\<not> (ys = [] \<or> tx_room u = 0)" using ne False by simp
      from 1(1) [OF this refl, folded k_def, folded u1_def, OF ok1 r at1] obtain w'
        where "(istep H)\<^sup>*\<^sup>* (in_write acc del W_loop w1 u1) (in_write acc del W_disable w' u')"
          "write_at xs flags rest w'" "rest \<noteq> [] \<longrightarrow> w_out w' = tx_out u'"
        by (elim exE conjE)
      then show ?thesis using run by (meson rtranclp_trans)
    qed
  qed
qed


section \<open>The write call\<close>

lemma write_enable:
  "(istep H)\<^sup>*\<^sup>* (in_write acc del W_disable w u)
     (in_write acc del W_left (w\<lparr>w_context := True\<rparr>) (enable_we H u))"
proof -
  let ?w = "w\<lparr>w_context := True\<rparr>" and ?u = "u\<lparr>irq_enable := irq_enable u OR CONTROL_WE_MSK\<rparr>"
  show ?thesis
    by (rule write_step [of H W_disable w True u W_or ?w False u],
        simp, rule write_step [of H W_or ?w False u W_iowr ?w False ?u],
        simp, rule write_step [of H W_iowr ?w False ?u W_restore ?w False "enable_we H u"],
        simp add: enable_we_def Let_def,
        rule write_step [of H W_restore ?w False "enable_we H u" W_left ?w True "enable_we H u"], simp_all)
qed

lemma spin_run:
  assumes "handlers_only H env" "tx_spin env (w_out w) u = Some u'"
  shows "(istep H)\<^sup>*\<^sup>* (in_write acc del W_wait_out w u) (in_write acc del W_inactive w u')"
proof -
  let ?run = "\<lambda>v. (istep H)\<^sup>*\<^sup>* (in_write acc del W_wait_out w u) (in_write acc del W_wait_out w v)"
  have "?run u'"
  proof (rule while_option_inv [OF assms(2) [unfolded tx_spin_def]])
    fix v assume r: "?run v" and b: "w_out w = tx_out v \<and> host_there v"
    have "(istep H)\<^sup>*\<^sup>* (in_write acc del W_wait_out w v) (in_write acc del W_wait_out w v)"
      by (rule write_step [of H W_wait_out w True v W_wait_host w True v], simp add: b,
          rule write_step [of H W_wait_host w True v W_wait_out w True v], simp_all add: b)
    moreover have "(istep H)\<^sup>*\<^sup>* (in_write acc del W_wait_out w v) (in_write acc del W_wait_out w (env v))"
      using assms(1) by (intro handlers_run) (simp add: handlers_only_def)
    ultimately show "?run (env v)" using r by (meson rtranclp_trans)
  qed simp
  moreover have "(istep H)\<^sup>*\<^sup>* (in_write acc del W_wait_out w u') (in_write acc del W_inactive w u')"
  proof (cases "w_out w = tx_out u'")
    case True
    then have "\<not> host_there u'" using while_option_stop [OF assms(2) [unfolded tx_spin_def]] by simp
    with True show ?thesis
      by (intro write_step [of H W_wait_out w True u' W_wait_host w True u']
          write_step [of H W_wait_host w True u' W_inactive w True u']) simp_all
  next
    case False
    then show ?thesis by (intro write_step [of H W_wait_out w True u' W_inactive w True u']) simp_all
  qed
  ultimately show ?thesis by (rule rtranclp_trans)
qed

lemma spin_ok:
  assumes "handlers_only H env" "jtag_ok H L" "uart_ok u" "tx_spin env out u = Some u'"
  shows "uart_ok u'"
  using while_option_inv [where P = uart_ok, OF assms(4) [unfolded tx_spin_def]]
    handlers_ok [OF _ assms(2)] assms(1,3) unfolding handlers_only_def by blast

text \<open>The run that belongs to a result of the loop: \<open>r\<close> is the rest that was not accepted and the
  driver's state.\<close>

definition write_run :: "'d jtag_hw \<Rightarrow> u8 list \<Rightarrow> u8 list \<Rightarrow> u8 list \<Rightarrow> u32 \<Rightarrow> u8 list \<Rightarrow> 'd uart \<Rightarrow>
    u8 list \<times> 'd uart \<Rightarrow> bool" where
  "write_run H acc del xs flags ys u r \<longleftrightarrow> (\<forall>w. write_at xs flags ys w \<longrightarrow>
     (\<exists>w'. (istep H)\<^sup>*\<^sup>* (in_write acc del W_loop w u) (in_write acc del W_return w' (snd r)) \<and>
       write_at xs flags (fst r) w'))"

lemma write_loop_run:
  assumes "write_loop H env nb ys u = Some r"
  shows "nb = nonblock flags \<longrightarrow> jtag_ok H L \<longrightarrow> handlers_only H env \<longrightarrow> uart_ok u \<longrightarrow>
    write_run H acc del xs flags ys u r"
proof (rule write_loop.raw_induct
    [where P = "\<lambda>H env nb ys u r. nb = nonblock flags \<longrightarrow> jtag_ok H L \<longrightarrow> handlers_only H env \<longrightarrow>
       uart_ok u \<longrightarrow> write_run H acc del xs flags ys u r", OF _ assms], goal_cases)
  case (1 f H env nb ys u r)
  show ?case unfolding write_run_def
  proof (intro impI allI)
    fix w assume nb: "nb = nonblock flags" and jo: "jtag_ok H L" and eo: "handlers_only H env"
      and ok: "uart_ok u" and at: "write_at xs flags ys w"
    obtain rest u1 where c: "tx_copy ys u = (rest, u1)" by fastforce
    define v where "v = enable_we H u1"
    note body = 1(2) [unfolded Let_def c fst_conv snd_conv, folded v_def]
    obtain w1 where p: "(istep H)\<^sup>*\<^sup>* (in_write acc del W_loop w u) (in_write acc del W_disable w1 u1)"
      "write_at xs flags rest w1" "rest \<noteq> [] \<longrightarrow> w_out w1 = tx_out u1"
      using write_phase [OF ok c at] by blast
    define w2 where "w2 = w1\<lparr>w_context := True\<rparr>"
    have at2: "write_at xs flags rest w2" using p(2) by (simp add: w2_def write_at_def)
    have ok1: "uart_ok v"
    proof -
      have "uart_ok u1" using tx_copy_spec [OF ok c] by blast
      then show ?thesis by (simp add: v_def enable_we_def Let_def uart_ok_def)
    qed
    have left: "(istep H)\<^sup>*\<^sup>* (in_write acc del W_loop w u) (in_write acc del W_left w2 v)"
      using rtranclp_trans [OF p(1) write_enable] by (simp add: w2_def v_def)
    have fl: "w_flags w2 = flags" using at2 by (simp add: write_at_def)
    note cnt = write_at_count [OF at2]
    show "\<exists>w'. (istep H)\<^sup>*\<^sup>* (in_write acc del W_loop w u) (in_write acc del W_return w' (snd r)) \<and>
        write_at xs flags (fst r) w'"
    proof (cases "rest = [] \<or> nb")
      case True
      then have r: "r = (rest, v)" using body by simp
      have "istep H (in_write acc del W_left w2 v) (in_write acc del W_return w2 v)"
        using True cnt fl nb by (intro istep_wstep) auto
      then show ?thesis using rtranclp.rtrancl_into_rtrancl [OF left] at2 r by auto
    next
      case False
      then obtain v' where s: "tx_spin env (tx_out v) v = Some v'"
        and k: "(if host_inactive v' \<noteq> 0 then Some (rest, v') else f H env nb rest v') = Some r"
        using body by (auto simp: bind_eq_Some_conv)
      have "istep H (in_write acc del W_left w2 v) (in_write acc del W_wait_out w2 v)"
        using False cnt fl nb by (intro istep_wstep) auto
      moreover have "w_out w2 = tx_out v"
        using p(3) False by (simp add: w2_def v_def enable_we_def Let_def)
      then have "(istep H)\<^sup>*\<^sup>* (in_write acc del W_wait_out w2 v) (in_write acc del W_inactive w2 v')"
        using spin_run [OF eo, of w2 v v'] s by simp
      ultimately have ina: "(istep H)\<^sup>*\<^sup>* (in_write acc del W_loop w u) (in_write acc del W_inactive w2 v')"
        using left by (meson rtranclp.rtrancl_into_rtrancl rtranclp_trans)
      show ?thesis
      proof (cases "host_inactive v' = 0")
        case True
        then have "istep H (in_write acc del W_inactive w2 v') (in_write acc del W_loop w2 v')"
          by (intro istep_wstep) simp
        note loop = rtranclp.rtrancl_into_rtrancl [OF ina this]
        have "f H env nb rest v' = Some r" using k True by simp
        then have "write_run H acc del xs flags rest v' r"
          using 1(1) nb jo eo spin_ok [OF eo jo ok1 s] by blast
        then show ?thesis unfolding write_run_def using at2 loop by (meson rtranclp_trans)
      next
        case False
        then have "r = (rest, v')" using k by simp
        moreover have "istep H (in_write acc del W_inactive w2 v') (in_write acc del W_return w2 v')"
          using False by (intro istep_wstep) simp
        ultimately show ?thesis using rtranclp.rtrancl_into_rtrancl [OF ina] at2 by auto
      qed
    qed
  qed
qed

lemma write_call_run:
  assumes "jtag_ok H L" "uart_ok u" "handlers_only H env" "uart_write H env xs flags u = Some (v, u')"
  shows "(istep H)\<^sup>*\<^sup>* (idle acc del u) (idle (acc @ take (nat v) xs) del u')"
proof -
  obtain rest where l: "write_loop H env (nonblock flags) xs u = Some (rest, u')"
    and v: "v = (if length rest \<noteq> length xs then int (length xs - length rest)
      else if nonblock flags then - EWOULDBLOCK else - EIO)"
    using assms(4) by (auto simp: uart_write_def nonblock_def)
  let ?w = "write_start xs flags"
  have at: "write_at xs flags xs ?w" by (simp add: write_at_def write_start_def)
  obtain w' where run: "(istep H)\<^sup>*\<^sup>* (in_write acc del W_loop ?w u) (in_write acc del W_return w' u')"
    and at': "write_at xs flags rest w'"
    using write_loop_run [OF l] assms(1-3) at unfolding write_run_def by fastforce
  have "w_ptr w' = length xs - length rest" "length rest \<le> length xs" "w_flags w' = flags" "w_text w' = xs"
    using at' write_at_count [OF at'] by (auto simp: write_at_def)
  then have "write_value w' = v" using v by (auto simp: write_value_def)
  then have "istep H (in_write acc del W_return w' u') (idle (acc @ take (nat v) xs) del u')"
    using istep_wrote [of H acc del w' True u'] \<open>w_text w' = xs\<close> by simp
  with run show ?thesis
    by (meson converse_rtranclp_into_rtranclp istep_write rtranclp.rtrancl_into_rtrancl)
qed


section \<open>The read call\<close>

lemma read_copy_run:
  assumes "i \<le> r_n r" "r_out r + r_n r \<le> length (rx_buf u)"
  shows "(istep H)\<^sup>*\<^sup>* (in_read acc del (R_copy i) r u)
    (in_read acc del R_publish
       (r\<lparr>r_bytes := r_bytes r @ take (r_n r - i) (drop (r_out r + i) (rx_buf u))\<rparr>) u)"
  using assms
proof (induction "r_n r - i" arbitrary: i r)
  case 0
  then show ?case by (intro read_step [of H "R_copy i" r True u R_publish r True u]) simp_all
next
  case (Suc k)
  let ?r = "r\<lparr>r_bytes := r_bytes r @ [rx_buf u ! (r_out r + i)]\<rparr>"
  have d: "take (r_n r - i) (drop (r_out r + i) (rx_buf u)) =
      rx_buf u ! (r_out r + i) # take (r_n r - Suc i) (drop (r_out r + Suc i) (rx_buf u))"
    using Suc.hyps(2) Suc.prems(2)
    by (subst Cons_nth_drop_Suc [symmetric]) (simp_all add: take_Cons' Suc_diff_Suc)
  have "(istep H)\<^sup>*\<^sup>* (in_read acc del (R_copy (Suc i)) ?r u)
      (in_read acc del R_publish
         (?r\<lparr>r_bytes := r_bytes ?r @ take (r_n ?r - Suc i) (drop (r_out ?r + Suc i) (rx_buf u))\<rparr>) u)"
    using Suc.hyps(2) Suc.prems by (intro Suc.hyps(1)) simp_all
  then show ?case
    using Suc.hyps(2) unfolding d
    by (intro read_step [of H "R_copy i" r True u "R_copy (Suc i)" ?r True u]) simp_all
qed

lemma rstep_room:
  assumes "r_in r = rx_in u" "r_out r = rx_out u"
  shows "rstep H R_room r on u =
    (if rx_chunk u = 0 then (R_got, r, on, u)
     else (R_copy 0, r\<lparr>r_n := min (rx_chunk u) (r_space r)\<rparr>, on, u))"
  by (simp only: rstep.simps assms rx_chunk_def [symmetric]) (simp add: Let_def min_def)

text \<open>The inner loop, entered with room in the caller's buffer.\<close>

lemma read_phase:
  assumes "uart_ok u" "rx_copy n u = (bs, u')" "r_space r = n" "0 < n" "full_bytes r"
  shows "\<exists>r'. (istep H)\<^sup>*\<^sup>* (in_read acc del R_in r u) (in_read acc del R_got r' u') \<and>
    r_bytes r' = r_bytes r @ bs \<and> full_bytes r' \<and> r_flags r' = r_flags r \<and> (bs = [] \<longrightarrow> r_in r' = rx_in u' \<and> r_space r' = n)"
  using assms
proof (induction n u arbitrary: r bs rule: rx_copy.induct)
  case (1 n u)
  let ?v = "r\<lparr>r_in := rx_in u, r_out := rx_out u\<rparr>"
  have to_room: "(istep H)\<^sup>*\<^sup>* (in_read acc del R_in r u) c"
    if "(istep H)\<^sup>*\<^sup>* (in_read acc del R_room ?v u) c" for c
    using that
    by (intro read_step [of H R_in r True u R_out "r\<lparr>r_in := rx_in u\<rparr>" True u]
          read_step [of H R_out _ True u R_room ?v True u]) simp_all
  show ?case
  proof (cases "rx_chunk u = 0")
    case True
    then have e: "bs = []" "u' = u" using 1(3) by (simp_all add: rx_copy.simps)
    have "rstep H R_room ?v True u = (R_got, ?v, True, u)" using True by (simp add: rstep_room del: rstep.simps)
    then have "(istep H)\<^sup>*\<^sup>* (in_read acc del R_room ?v u) (in_read acc del R_got ?v u)"
      by (rule read_step) simp
    then show ?thesis using to_room e 1(4,6) by (intro exI [of _ ?v]) (simp add: full_bytes_def)
  next
    case False
    define k where "k = min (rx_chunk u) n"
    define v where "v = ?v\<lparr>r_n := k\<rparr>"
    define b where "b = take k (drop (rx_out u) (rx_buf u))"
    define u1 where "u1 = u\<lparr>rx_out := (rx_out u + k) mod BUF_LEN\<rparr>"
    define v1 where "v1 = v\<lparr>r_bytes := r_bytes r @ b\<rparr>"
    define r1 where "r1 = v1\<lparr>r_ptr := r_ptr r + k, r_space := n - k\<rparr>"
    have k: "0 < k" using False 1(5) by (simp add: k_def)
    note ok = uart_okD(1) [OF 1(2)]
    have fits: "rx_out u + k \<le> length (rx_buf u)"
      using ok by (auto simp: k_def rx_chunk_def rb_ok_def)
    have lb: "length b = k" using fits by (simp add: b_def)
    then have ne: "b \<noteq> []" using k by auto
    have r1: "rstep H R_room ?v True u = (R_copy 0, v, True, u)"
      using False 1(4) by (simp add: rstep_room v_def k_def del: rstep.simps)
    have r2: "(istep H)\<^sup>*\<^sup>* (in_read acc del (R_copy 0) v u) (in_read acc del R_publish v1 u)"
      using read_copy_run [of 0 v u H acc del] fits by (simp add: v_def v1_def b_def)
    have r3: "rstep H R_publish v1 True u = (if 0 < n - k then R_in else R_got, r1, True, u1)"
      using 1(4) by (simp add: r1_def v1_def v_def u1_def)
    note run = to_room [OF read_step [OF r1 rtranclp.rtrancl_into_rtrancl [OF r2 istep_rstep [OF r3]]]]
    have full: "full_bytes r1" using 1(6) lb by (simp add: r1_def v1_def v_def full_bytes_def)
    obtain more where r: "rx_copy (n - k) u1 = (more, u')" and bs: "bs = b @ more"
      using 1(3,5) False unfolding k_def u1_def b_def
      by (subst (asm) rx_copy.simps) (auto simp: Let_def split: prod.splits)
    have ok1: "uart_ok u1"
      using rb_get_block(3) [OF ok, of k] 1(2) by (simp add: u1_def uart_ok_def k_def rx_chunk_def)
    have fl: "r_bytes r1 = r_bytes r @ b" "r_flags r1 = r_flags r" "r_space r1 = n - k"
      by (simp_all add: r1_def v1_def v_def)
    show ?thesis
    proof (cases "0 < n - k")
      case True
      have "\<not> (n = 0 \<or> rx_chunk u = 0)" using False 1(5) by simp
      from 1(1) [OF this refl refl, folded k_def, folded u1_def, OF ok1 r fl(3) True full] obtain r'
        where "(istep H)\<^sup>*\<^sup>* (in_read acc del R_in r1 u1) (in_read acc del R_got r' u')"
          "r_bytes r' = r_bytes r1 @ more" "full_bytes r'" "r_flags r' = r_flags r1"
        by (elim exE conjE)
      then show ?thesis using run True fl bs ne by (intro exI [of _ r']) (auto intro: rtranclp_trans)
    next
      case False
      then have "more = [] \<and> u' = u1" using r by (simp add: rx_copy.simps)
      then show ?thesis using run False fl bs ne full by (intro exI [of _ r1]) auto
    qed
  qed
qed

lemma rx_spin_run:
  assumes "handlers_only H env" "rx_spin env (r_in r) u = Some u'"
  shows "(istep H)\<^sup>*\<^sup>* (in_read acc del R_wait_in r u) (in_read acc del R_moved r u')"
proof -
  let ?run = "\<lambda>v. (istep H)\<^sup>*\<^sup>* (in_read acc del R_wait_in r u) (in_read acc del R_wait_in r v)"
  have "?run u'"
  proof (rule while_option_inv [OF assms(2) [unfolded rx_spin_def]])
    fix v assume run: "?run v" and b: "r_in r = rx_in v \<and> host_there v"
    have "(istep H)\<^sup>*\<^sup>* (in_read acc del R_wait_in r v) (in_read acc del R_wait_in r v)"
      by (rule read_step [of H R_wait_in r True v R_wait_host r True v], simp add: b,
          rule read_step [of H R_wait_host r True v R_wait_in r True v], simp_all add: b)
    moreover have "(istep H)\<^sup>*\<^sup>* (in_read acc del R_wait_in r v) (in_read acc del R_wait_in r (env v))"
      using assms(1) by (intro handlers_run) (simp add: handlers_only_def)
    ultimately show "?run (env v)" using run by (meson rtranclp_trans)
  qed simp
  moreover have "(istep H)\<^sup>*\<^sup>* (in_read acc del R_wait_in r u') (in_read acc del R_moved r u')"
  proof (cases "r_in r = rx_in u'")
    case True
    then have "\<not> host_there u'" using while_option_stop [OF assms(2) [unfolded rx_spin_def]] by simp
    with True show ?thesis
      by (intro read_step [of H R_wait_in r True u' R_wait_host r True u']
          read_step [of H R_wait_host r True u' R_moved r True u']) simp_all
  next
    case False
    then show ?thesis by (intro read_step [of H R_wait_in r True u' R_moved r True u']) simp_all
  qed
  ultimately show ?thesis by (rule rtranclp_trans)
qed

lemma rx_spin_ok:
  assumes "handlers_only H env" "jtag_ok H L" "uart_ok u" "rx_spin env inn u = Some u'"
  shows "uart_ok u'"
  using while_option_inv [where P = uart_ok, OF assms(4) [unfolded rx_spin_def]]
    handlers_ok [OF _ assms(2)] assms(1,3) unfolding handlers_only_def by blast

definition read_run :: "'d jtag_hw \<Rightarrow> u8 list \<Rightarrow> u8 list \<Rightarrow> u32 \<Rightarrow> nat \<Rightarrow> 'd uart \<Rightarrow> u8 list \<times> 'd uart \<Rightarrow> bool" where
  "read_run H acc del flags n u x \<longleftrightarrow> (\<forall>r. r_space r = n \<and> r_flags r = flags \<and> r_bytes r = [] \<and> r_ptr r = 0 \<longrightarrow>
     (\<exists>r'. (istep H)\<^sup>*\<^sup>* (in_read acc del R_while r u) (in_read acc del R_test r' (snd x)) \<and>
       r_bytes r' = fst x \<and> full_bytes r' \<and> r_flags r' = flags))"

lemma read_loop_run:
  assumes "read_loop env nb n u = Some x"
  shows "nb = nonblock flags \<longrightarrow> 0 < n \<longrightarrow> jtag_ok H L \<longrightarrow> handlers_only H env \<longrightarrow> uart_ok u \<longrightarrow>
    read_run H acc del flags n u x"
proof (rule read_loop.raw_induct
    [where P = "\<lambda>env nb n u x. nb = nonblock flags \<longrightarrow> 0 < n \<longrightarrow> jtag_ok H L \<longrightarrow> handlers_only H env \<longrightarrow>
       uart_ok u \<longrightarrow> read_run H acc del flags n u x", OF _ assms], goal_cases)
  case (1 f env nb n u x)
  show ?case unfolding read_run_def
  proof (intro impI allI)
    fix r :: rcall assume nb: "nb = nonblock flags" and n: "0 < n" and jo: "jtag_ok H L" and eo: "handlers_only H env"
      and ok: "uart_ok u" and r: "r_space r = n \<and> r_flags r = flags \<and> r_bytes r = [] \<and> r_ptr r = 0"
    obtain bs v where c: "rx_copy n u = (bs, v)" by fastforce
    note body = 1(2) [unfolded Let_def c fst_conv snd_conv]
    have "full_bytes r" using r by (simp add: full_bytes_def)
    from read_phase [OF ok c _ n this, of H acc del] r obtain w where
      p: "(istep H)\<^sup>*\<^sup>* (in_read acc del R_in r u) (in_read acc del R_got w v)"
        "r_bytes w = bs" "full_bytes w" "r_flags w = flags" "bs = [] \<longrightarrow> r_in w = rx_in v \<and> r_space w = n"
      by auto
    have got: "(istep H)\<^sup>*\<^sup>* (in_read acc del R_while r u) (in_read acc del R_got w v)"
      using p(1) n r by (intro read_step [of H R_while r True u R_in r True u]) simp_all
    have ptr: "r_ptr w = length bs" using p(2,3) by (simp add: full_bytes_def)
    have okv: "uart_ok v" using rx_copy_spec [OF ok c] by blast
    show "\<exists>r'. (istep H)\<^sup>*\<^sup>* (in_read acc del R_while r u) (in_read acc del R_test r' (snd x)) \<and>
        r_bytes r' = fst x \<and> full_bytes r' \<and> r_flags r' = flags"
    proof (cases "bs \<noteq> [] \<or> nb")
      case True
      then have "x = (bs, v)" using body by simp
      moreover have "istep H (in_read acc del R_got w v) (in_read acc del R_test w v)"
        using True ptr p(4) nb by (intro istep_rstep) auto
      ultimately show ?thesis using rtranclp.rtrancl_into_rtrancl [OF got] p(2-4) by auto
    next
      case False
      then obtain v' where s: "rx_spin env (rx_in v) v = Some v'"
        and k: "(if rx_in v = rx_in v' then Some ([], v') else f env nb n v') = Some x"
        using body by (auto simp: bind_eq_Some_conv)
      have w: "r_in w = rx_in v" "r_space w = n" "r_ptr w = 0" "r_bytes w = []" using p(2,5) ptr False by auto
      have "istep H (in_read acc del R_got w v) (in_read acc del R_wait_in w v)"
        using False ptr p(4) nb by (intro istep_rstep) auto
      moreover have "(istep H)\<^sup>*\<^sup>* (in_read acc del R_wait_in w v) (in_read acc del R_moved w v')"
        using rx_spin_run [OF eo, of w v v'] s w(1) by simp
      ultimately have mv: "(istep H)\<^sup>*\<^sup>* (in_read acc del R_while r u) (in_read acc del R_moved w v')"
        using got by (meson rtranclp.rtrancl_into_rtrancl rtranclp_trans)
      show ?thesis
      proof (cases "rx_in v = rx_in v'")
        case True
        then have "x = ([], v')" using k by simp
        moreover have "istep H (in_read acc del R_moved w v') (in_read acc del R_test w v')"
          using True w(1) by (intro istep_rstep) simp
        ultimately show ?thesis using rtranclp.rtrancl_into_rtrancl [OF mv] p(3,4) w(4) by auto
      next
        case False
        then have "istep H (in_read acc del R_moved w v') (in_read acc del R_while w v')"
          using w(1) by (intro istep_rstep) simp
        note loop = rtranclp.rtrancl_into_rtrancl [OF mv this]
        have "f env nb n v' = Some x" using k False by simp
        then have "read_run H acc del flags n v' x"
          using 1(1) nb n jo eo rx_spin_ok [OF eo jo okv s] by blast
        then obtain r' where "(istep H)\<^sup>*\<^sup>* (in_read acc del R_while w v') (in_read acc del R_test r' (snd x))"
          and fin: "r_bytes r' = fst x" "full_bytes r'" "r_flags r' = flags"
          unfolding read_run_def using w p(4) by blast
        from rtranclp_trans [OF loop this(1)] fin show ?thesis by blast
      qed
    qed
  qed
qed

lemma read_enable:
  "(istep H)\<^sup>*\<^sup>* (in_read acc del R_disable r u)
     (in_read acc del R_return (r\<lparr>r_context := True\<rparr>)
        (IOWR_CONTROL H (irq_enable u OR CONTROL_RE_MSK) (u\<lparr>irq_enable := irq_enable u OR CONTROL_RE_MSK\<rparr>)))"
proof -
  let ?r = "r\<lparr>r_context := True\<rparr>" and ?u = "u\<lparr>irq_enable := irq_enable u OR CONTROL_RE_MSK\<rparr>"
  let ?v = "IOWR_CONTROL H (irq_enable u OR CONTROL_RE_MSK) ?u"
  show ?thesis
    by (rule read_step [of H R_disable r True u R_or ?r False u],
        simp, rule read_step [of H R_or ?r False u R_iowr ?r False ?u],
        simp, rule read_step [of H R_iowr ?r False ?u R_restore ?r False ?v], simp,
        rule read_step [of H R_restore ?r False ?v R_return ?r True ?v], simp_all)
qed

lemma read_finish:
  assumes "r_bytes r = bs" "full_bytes r" "r_flags r = flags"
  shows "(istep H)\<^sup>*\<^sup>* (in_read acc del R_test r u)
    (idle acc (del @ bs)
       (if bs \<noteq> [] then IOWR_CONTROL H (irq_enable u OR CONTROL_RE_MSK)
          (u\<lparr>irq_enable := irq_enable u OR CONTROL_RE_MSK\<rparr>) else u))"
proof (cases "bs = []")
  case True
  then have "istep H (in_read acc del R_test r u) (in_read acc del R_return r u)"
    using assms by (intro istep_rstep) (simp add: full_bytes_def)
  moreover have "istep H (in_read acc del R_return r u) (idle acc del u)"
    using istep_got [of H acc del r True u] assms True by (simp add: full_bytes_def)
  ultimately show ?thesis using True by (simp add: converse_rtranclp_into_rtranclp)
next
  case False
  let ?v = "IOWR_CONTROL H (irq_enable u OR CONTROL_RE_MSK) (u\<lparr>irq_enable := irq_enable u OR CONTROL_RE_MSK\<rparr>)"
  let ?r = "r\<lparr>r_context := True\<rparr>"
  have ptr: "r_ptr r \<noteq> 0" using assms(1,2) False by (metis full_bytes_def length_0_conv)
  have "istep H (in_read acc del R_test r u) (in_read acc del R_disable r u)"
    using ptr by (intro istep_rstep) simp
  moreover have "istep H (in_read acc del R_return ?r ?v) (idle acc (del @ bs) ?v)"
    using istep_got [of H acc del ?r True ?v] assms(1,2) ptr by (auto simp: full_bytes_def read_value_def)
  ultimately show ?thesis
    using False read_enable [of H acc del r u]
    by (simp add: converse_rtranclp_into_rtranclp rtranclp.rtrancl_into_rtrancl)
qed

lemma read_call_run:
  assumes "jtag_ok H L" "uart_ok u" "handlers_only H env" "uart_read H env space flags u = Some (v, bs, u')"
  shows "(istep H)\<^sup>*\<^sup>* (idle acc del u) (idle acc (del @ bs) u')"
proof -
  let ?r = "read_start space flags"
  obtain w where l: "(if space > 0 then read_loop env (nonblock flags) (nat space) u else Some ([], u)) = Some (bs, w)"
    and u': "u' = (if bs \<noteq> [] then IOWR_CONTROL H (irq_enable w OR CONTROL_RE_MSK)
        (w\<lparr>irq_enable := irq_enable w OR CONTROL_RE_MSK\<rparr>) else w)"
    using assms(4) by (auto simp: uart_read_def nonblock_def Let_def split: if_splits)
  have "\<exists>r'. (istep H)\<^sup>*\<^sup>* (in_read acc del R_while ?r u) (in_read acc del R_test r' w) \<and>
      r_bytes r' = bs \<and> full_bytes r' \<and> r_flags r' = flags"
  proof (cases "space > 0")
    case True
    then have "read_run H acc del flags (nat space) u (bs, w)"
      using l read_loop_run [of env "nonblock flags" "nat space" u "(bs, w)" flags H L acc del] assms(1-3) by simp
    then show ?thesis unfolding read_run_def by (simp add: read_start_def)
  next
    case False
    then have "bs = [] \<and> w = u" using l by simp
    with False show ?thesis
      by (intro exI [of _ ?r] conjI read_step [of H R_while ?r True u R_test ?r True u])
        (simp_all add: read_start_def full_bytes_def)
  qed
  then obtain r' where run: "(istep H)\<^sup>*\<^sup>* (in_read acc del R_while ?r u) (in_read acc del R_test r' w)"
    and fin: "r_bytes r' = bs" "full_bytes r'" "r_flags r' = flags" by blast
  have "istep H (idle acc del u) (in_read acc del R_while ?r u)" by (rule istep_read)
  with run read_finish [OF fin, of H acc del w] show ?thesis
    unfolding u' by (meson converse_rtranclp_into_rtranclp rtranclp_trans)
qed


section \<open>Properties\<close>

text \<open>C10. The driver refines two bounded queues: every step of the machine, be it one statement of a
  write or read call, the interrupt handler between any two of them, or a timeout, is a sequence
  of steps of the abstract driver, which accepts bytes, sends the oldest ones, receives bytes and
  delivers the oldest ones, with at most 2047 on their way in each direction.\<close>
theorem uart_refines_pipes:
  assumes "jtag_ok H L" "interleaving H rc d c" "istep H c c'"
  shows "pipe_step\<^sup>*\<^sup>* (pipes_of L d c) (pipes_of L d c')"
proof -
  have i: "config_inv L d c" by (rule interleaving_inv [OF assms(1,2)])
  show ?thesis by (rule grow_steps [OF istep_grows [OF assms(1,3) i] istep_inv [OF assms(1,3) i]])
qed

text \<open>C11. Whatever interrupts came between the statements of the calls, the results of the calls are
  the truth: when no call is running, the bytes sent and still queued are exactly those that the
  results of write said were taken, the bytes received are those that the results of read returned
  and those queued, and each interrupt that is needed is enabled: in the driver's shadow, and in
  the hardware where the enable bits of its control register are what was last written to them.\<close>
theorem interleaved_results:
  assumes "jtag_ok H L"
    and "interleaving H rc d \<lparr>c_acc = acc, c_del = del, c_thread = Idle, c_irq = on, c_uart = u\<rparr>"
  shows "sent L (regs u) @ tx_q u = sent L d @ acc \<and> received L (regs u) = received L d @ del @ rx_q u \<and>
    length (tx_q u) \<le> 2047 \<and> length (rx_q u) \<le> 2047 \<and> on \<and>
    (tx_q u \<noteq> [] \<longrightarrow> irq_enable u AND CONTROL_WE_MSK \<noteq> 0) \<and>
    (rx_q u = [] \<longrightarrow> irq_enable u AND CONTROL_RE_MSK \<noteq> 0) \<and>
    (\<forall>E. control_ok H E \<longrightarrow> E (regs u) = irq_enable u AND (CONTROL_RE_MSK OR CONTROL_WE_MSK))"
proof -
  have "E (regs u) = irq_enable u AND (CONTROL_RE_MSK OR CONTROL_WE_MSK)" if "control_ok H E" for E
    using interleaving_control [OF assms(1) that assms(2)]
    by (simp add: control_inv_def control_synced_def enable_bits_def)
  then show ?thesis
    using interleaving_inv [OF assms] inv_pipes(3,4) [OF interleaving_inv [OF assms]]
    by (auto simp: config_inv_def uart_inv_def)
qed

text \<open>C12. A call that waits can be woken: at the tests of its waiting loop the processor accepts
  interrupts, and as long as the index it watches has not moved, a write waits for a full transmit
  buffer with the transmit interrupt enabled in the UART's control register, and a read for an empty
  receive buffer with the receive interrupt enabled there: \<open>E\<close> reads the enable bits of the
  hardware, which only a write of the register changes.\<close>
theorem waiting_is_woken:
  assumes "jtag_ok H L" "control_ok H E" "interleaving H rc d c"
  shows "(c_thread c = Writing W_wait_out w \<or> c_thread c = Writing W_wait_host w \<longrightarrow>
      w_out w = tx_out (c_uart c) \<longrightarrow>
      c_irq c \<and> length (tx_q (c_uart c)) = 2047 \<and> E (regs (c_uart c)) AND CONTROL_WE_MSK \<noteq> 0) \<and>
    (c_thread c = Reading R_wait_in r \<or> c_thread c = Reading R_wait_host r \<longrightarrow>
      r_in r = rx_in (c_uart c) \<longrightarrow>
      c_irq c \<and> rx_q (c_uart c) = [] \<and> E (regs (c_uart c)) AND CONTROL_RE_MSK \<noteq> 0)"
proof -
  have i: "uart_inv L (sent L d @ c_acc c) (received L d @ c_del c) (c_thread c) (c_uart c)"
    "tann (c_thread c) (c_irq c) (c_uart c)"
    using interleaving_inv [OF assms(1,3)] by (simp_all add: config_inv_def)
  have ok: "uart_ok (c_uart c)" using i(1) by (simp add: uart_inv_def)
  note full = rb_room_zero [OF uart_okD(2) [OF ok]] and none = rb_empty [OF uart_okD(1) [OF ok]]
  have "length (tx_q (c_uart c)) = 2047 \<Longrightarrow> tx_q (c_uart c) \<noteq> []" by auto
  moreover have "E (regs (c_uart c)) AND CONTROL_WE_MSK = irq_enable (c_uart c) AND CONTROL_WE_MSK"
    "E (regs (c_uart c)) AND CONTROL_RE_MSK = irq_enable (c_uart c) AND CONTROL_RE_MSK"
    if "\<not> between (c_thread c)"
    using interleaving_control [OF assms] that synced_bits by (auto simp: control_inv_def)
  ultimately show ?thesis
    using i full none by (auto simp: stuck_def uart_inv_def BUF_LEN_def)
qed

text \<open>C27. The calls as single functions, with interrupts only while they wait, are behaviours of the
  machine: a run in which a call is made, and what its waiting loop runs is made of handlers, ends
  in a configuration of the machine with the same results and the same state of the driver.\<close>
theorem calls_are_interleavings:
  assumes "jtag_ok H L" "handlers_only H env" "interleaving H rc d (idle acc del u)"
  shows "(\<forall>xs flags v u'. uart_write H env xs flags u = Some (v, u') \<longrightarrow>
      interleaving H rc d (idle (acc @ take (nat v) xs) del u')) \<and>
    (\<forall>space flags v bs u'. uart_read H env space flags u = Some (v, bs, u') \<longrightarrow>
      interleaving H rc d (idle acc (del @ bs) u'))"
proof -
  have ok: "uart_ok u" using interleaving_inv [OF assms(1,3)] by (simp add: config_inv_def uart_inv_def)
  then show ?thesis
    using write_call_run [OF assms(1) ok assms(2)] read_call_run [OF assms(1) ok assms(2)] assms(3)
    unfolding interleaving_def by (meson rtranclp_trans)
qed

section \<open>Concrete interleavings\<close>

abbreviation loop_init :: "loop_uart uart" where
  "loop_init \<equiv> uart_init loop_hw 0 (uart_instance loop_start)"

lemma loop_init_ok: "uart_ok loop_init"
  using init_flow [OF loop_ok, of loop_start 0] by (simp add: flow_def)

lemma loop_idle: "interleaving loop_hw 0 loop_start (idle [] [] loop_init)"
  by (simp add: interleaving_def config_start_def)

lemma interleaving_step:
  "interleaving H rc d c \<Longrightarrow> (istep H)\<^sup>*\<^sup>* c c' \<Longrightarrow> interleaving H rc d c'"
  unfolding interleaving_def by (rule rtranclp_trans)

text \<open>A write of one byte, before it publishes it.\<close>

lemma loop_publish:
  "\<exists>w u. interleaving loop_hw 0 loop_start (in_write [] [] W_publish w u) \<and> w_text w = [65] \<and>
     w_ptr w = 0 \<and> w_n w = 1"
proof -
  let ?w0 = "write_start [65] 0" and ?u = loop_init
  let ?w1 = "?w0\<lparr>w_in := tx_in ?u\<rparr>"
  let ?w2 = "?w1\<lparr>w_out := tx_out ?u\<rparr>"
  let ?w3 = "?w2\<lparr>w_n := 1\<rparr>"
  have z: "tx_in ?u = 0" "tx_out ?u = 0" by (simp_all add: uart_init_def uart_instance_def Let_def)
  have len: "length (tx_buf ?u) = BUF_LEN" using uart_okD(2) [OF loop_init_ok] by (simp add: rb_ok_def)
  have room: "tx_room ?u = 2047" using z by (simp add: tx_room_def BUF_LEN_def)
  have "istep loop_hw (idle [] [] ?u) (in_write [] [] W_loop ?w0 ?u)" by (rule istep_write)
  moreover have "istep loop_hw (in_write [] [] W_loop ?w0 ?u) (in_write [] [] W_out ?w1 ?u)"
    by (rule istep_wstep) (simp add: write_start_def)
  moreover have "istep loop_hw (in_write [] [] W_out ?w1 ?u) (in_write [] [] W_room ?w2 ?u)"
    by (rule istep_wstep) simp
  moreover have "istep loop_hw (in_write [] [] W_room ?w2 ?u) (in_write [] [] (W_copy 0) ?w3 ?u)"
    by (rule istep_wstep) (simp add: wstep_room room write_start_def del: wstep.simps)
  moreover obtain u' where "(istep loop_hw)\<^sup>*\<^sup>* (in_write [] [] (W_copy 0) ?w3 ?u) (in_write [] [] W_publish ?w3 u')"
    using write_copy_run [of 0 ?w3 ?u loop_hw "[]" "[]"] z len by (auto simp: write_start_def BUF_LEN_def)
  ultimately have "(istep loop_hw)\<^sup>*\<^sup>* (idle [] [] ?u) (in_write [] [] W_publish ?w3 u')"
    by (meson converse_rtranclp_into_rtranclp)
  from interleaving_step [OF loop_idle this] show ?thesis
    by (intro exI [of _ ?w3] exI [of _ u']) (simp add: write_start_def)
qed

theorem uart_refines_pipes_witness:
  "\<exists>c c'. istep loop_hw c c' \<and> p_accepted (pipes_of loop_log loop_start c) = [] \<and>
     p_accepted (pipes_of loop_log loop_start c') = [65] \<and>
     pipe_step\<^sup>*\<^sup>* (pipes_of loop_log loop_start c) (pipes_of loop_log loop_start c')"
proof -
  obtain w u where c: "interleaving loop_hw 0 loop_start (in_write [] [] W_publish w u)" "w_text w = [65]"
    "w_ptr w = 0" "w_n w = 1" using loop_publish by blast
  let ?c = "in_write [] [] W_publish w u"
  let ?c' = "in_write [] [] W_loop (w\<lparr>w_ptr := w_ptr w + w_n w, w_count := w_count w - w_n w\<rparr>)
      (u\<lparr>tx_in := (w_in w + w_n w) mod BUF_LEN\<rparr>)"
  have s: "istep loop_hw ?c ?c'" by (rule istep_wstep) simp
  from uart_refines_pipes [OF loop_ok c(1) s] s c(2-4) show ?thesis
    by (intro exI [of _ ?c] exI [of _ ?c']) (simp add: pipes_of_def loop_log_def loop_start_def)
qed

lemma loop_write:
  "\<exists>u. uart_write loop_hw (uart_timeout loop_hw) [65] 0 loop_init = Some (1, u)"
proof -
  obtain rest v where t: "tx_copy [65] loop_init = (rest, v)" by fastforce
  have room: "tx_room loop_init = 2047"
    by (simp add: uart_init_def uart_instance_def Let_def tx_room_def BUF_LEN_def)
  have "rest = []" using t by (simp add: tx_copy.simps [of "[65]"] room) (simp add: tx_copy.simps)
  then show ?thesis using t by (simp add: uart_write_def write_loop.simps Let_def)
qed

lemma timeout_only: "handlers_only H (uart_timeout H)"
  by (auto simp: handlers_only_def handler_step_def)

theorem calls_are_interleavings_witness:
  "\<exists>u. interleaving loop_hw 0 loop_start (idle [65] [] u)"
proof -
  obtain u where "uart_write loop_hw (uart_timeout loop_hw) [65] 0 loop_init = Some (1, u)"
    using loop_write by blast
  with calls_are_interleavings [OF loop_ok timeout_only loop_idle] show ?thesis by fastforce
qed

theorem interleaved_results_witness:
  "\<exists>u. interleaving loop_hw 0 loop_start (idle [65] [] u) \<and> was_sent (regs u) @ tx_q u = [65] \<and>
     was_read (regs u) = rx_q u"
proof -
  obtain u where "uart_write loop_hw (uart_timeout loop_hw) [65] 0 loop_init = Some (1, u)"
    using loop_write by blast
  from write_call_run [OF loop_ok loop_init_ok timeout_only this, of "[]" "[]"]
  have c: "interleaving loop_hw 0 loop_start (idle [65] [] u)"
    using interleaving_step [OF loop_idle] by simp
  with interleaved_results [OF loop_ok c] show ?thesis
    by (intro exI [of _ u]) (simp add: loop_log_def loop_start_def)
qed

theorem waiting_is_woken_witness:
  "\<exists>r. interleaving loop_hw 0 loop_start (in_read [] [] R_wait_in r loop_init) \<and>
     rx_q loop_init = [] \<and> loop_control (regs loop_init) AND CONTROL_RE_MSK \<noteq> 0"
proof -
  have ctl: "control_ok loop_hw (\<lambda>d. loop_control d AND enable_bits)"
    by (auto simp: control_ok_def loop_hw_def split: list.splits)
  let ?u = loop_init and ?r0 = "read_start 1 0"
  let ?r1 = "?r0\<lparr>r_in := rx_in ?u\<rparr>"
  let ?r2 = "?r1\<lparr>r_out := rx_out ?u\<rparr>"
  have chunk: "rx_chunk ?u = 0" "rx_in ?u = 0"
    by (simp_all add: rx_chunk_def uart_init_def uart_instance_def Let_def)
  have "istep loop_hw (idle [] [] ?u) (in_read [] [] R_while ?r0 ?u)" by (rule istep_read)
  moreover have "istep loop_hw (in_read [] [] R_while ?r0 ?u) (in_read [] [] R_in ?r0 ?u)"
    by (rule istep_rstep) (simp add: read_start_def)
  moreover have "istep loop_hw (in_read [] [] R_in ?r0 ?u) (in_read [] [] R_out ?r1 ?u)"
    by (rule istep_rstep) simp
  moreover have "istep loop_hw (in_read [] [] R_out ?r1 ?u) (in_read [] [] R_room ?r2 ?u)"
    by (rule istep_rstep) simp
  moreover have "istep loop_hw (in_read [] [] R_room ?r2 ?u) (in_read [] [] R_got ?r2 ?u)"
    by (rule istep_rstep) (simp add: rstep_room chunk del: rstep.simps)
  moreover have "istep loop_hw (in_read [] [] R_got ?r2 ?u) (in_read [] [] R_wait_in ?r2 ?u)"
    by (rule istep_rstep) (simp add: read_start_def nonblock_def)
  ultimately have "(istep loop_hw)\<^sup>*\<^sup>* (idle [] [] ?u) (in_read [] [] R_wait_in ?r2 ?u)"
    by (meson converse_rtranclp_into_rtranclp rtranclp.rtrancl_refl)
  note c = interleaving_step [OF loop_idle this]
  have "(x AND enable_bits) AND CONTROL_RE_MSK = x AND CONTROL_RE_MSK" for x
    by (simp add: enable_bits_def uart_masks and.assoc)
  with waiting_is_woken [OF loop_ok ctl c, of _ ?r2] c show ?thesis by (intro exI [of _ ?r2]) simp
qed

end
