(* ===== verification/Hal_Boot_Props.thy ===== *)
theory Hal_Boot_Props
  imports Hal_Boot Jtag_Calls
begin

text \<open>
  What the start of the system establishes, and the path of the program's output from the write
  calls to the host: the file layer, the UART driver and the interrupt handler together.
\<close>

section \<open>The start\<close>

lemma irq_setup:
  "\<exists>rc c. alt_ic_isr_register 0 JTAG_UART_0_IRQ jtag_irq_fn jtag_state (alt_irq_init (irqs_init w)) = Some (rc, c) \<and>
     devices c = w \<and> alt_irq c ! unat JTAG_UART_0_IRQ = (jtag_irq_fn, jtag_state) \<and>
     ienable c = irq_bit JTAG_UART_0_IRQ \<and> status c = NIOS2_STATUS_PIE_MSK"
  by (simp add: alt_ic_isr_register_def alt_iic_isr_register_def JTAG_UART_0_IRQ_def ALT_NIRQ_def
      alt_irq_disable_all_def alt_irq_enable_all_def alt_ic_irq_enable_def alt_irq_enable_def
      alt_irq_init_def alt_irq_cpu_enable_interrupts_def altera_nios2_gen2_irq_init_def irqs_init_def
      jtag_irq_fn_def Let_def)

abbreviation fresh_jtag :: "'d jtag_hw \<Rightarrow> 'd \<Rightarrow> (ptr \<Rightarrow> u8) \<Rightarrow> 'd jtag_world" where
  "fresh_jtag H d mm \<equiv> \<lparr>jtag = uart_init H (- ENOTSUP) (uart_instance d), memory = mm\<rparr>"

text \<open>The device list after the registration, and the redirection of the streams on it.\<close>

lemma registered_jtag:
  fixes w :: "'d jtag_world" and H :: "'d jtag_hw" and env :: "'d uart \<Rightarrow> 'd uart"
  defines "h \<equiv> snd (alt_dev_reg jtag_uart_0 (hal_init (\<lambda>a. jtag_uart_dev_instance H env) w))"
  shows "fd_wf h" "ring (dev_heap h) alt_dev_list [jtag_uart_0, alt_dev_null_addr]"
    "alt_find_dev JTAG_UART_0_NAME alt_dev_list h = Some jtag_uart_0" "unlocked h jtag_uart_0"
    "dev_of h jtag_uart_0 = jtag_uart_dev_instance H env" "driver h = w"
    "i < ALT_MAX_FD \<Longrightarrow> used h i \<longleftrightarrow> i < 3"
proof -
  let ?h0 = "hal_init (\<lambda>a. jtag_uart_dev_instance H env) w"
  have h: "h = ?h0\<lparr>dev_heap := alt_llist_insert alt_dev_list jtag_uart_0 (dev_heap ?h0)\<rparr>"
    by (simp add: h_def alt_dev_reg_def alt_dev_llist_insert_def hal_init_def jtag_uart_dev_instance_def
        jtag_uart_0_def alt_dev_null_addr_def)
  then show f: "fd_wf h" "driver h = w" "dev_of h jtag_uart_0 = jtag_uart_dev_instance H env"
    "i < ALT_MAX_FD \<Longrightarrow> used h i \<longleftrightarrow> i < 3"
    using init_wf init_used by (auto simp: fd_wf_def hal_init_def jtag_uart_0_def alt_dev_null_addr_def)
  show r: "ring (dev_heap h) alt_dev_list [jtag_uart_0, alt_dev_null_addr]"
    using llist.inserted [OF init_rings(1), of jtag_uart_0] h
    by (simp add: jtag_uart_0_def alt_dev_null_addr_def alt_dev_list_def)
  have "dev_of h alt_dev_null_addr = alt_dev_null" using h by (simp add: hal_init_def)
  then have "names_ok h [jtag_uart_0, alt_dev_null_addr]"
    using f(3) by (simp add: names_ok_def jtag_uart_dev_instance_def alt_dev_null_def JTAG_UART_0_NAME_def)
  from find_dev_list [OF r this, of JTAG_UART_0_NAME]
  show "alt_find_dev JTAG_UART_0_NAME alt_dev_list h = Some jtag_uart_0"
    using f(3) by (simp add: JTAG_UART_0_NAME_def jtag_uart_dev_instance_def)
  have "fd_at h j = fd_at ?h0 j" for j using h by simp
  then have "fd_dev (fd_at h j) \<noteq> jtag_uart_0" if "j < ALT_MAX_FD" for j
    using that by (simp add: init_fd_at null_fd_def no_fd_def jtag_uart_0_def alt_dev_null_addr_def)
  then show "unlocked h jtag_uart_0" by (auto simp: unlocked_def)
qed

lemma sys_init_ends:
  "\<exists>c. alt_sys_init H ((system_init H env d mm)\<lparr>cpu := alt_irq_init (cpu (system_init H env d mm))\<rparr>) =
       Some \<lparr>cpu = c, clk = clock_init\<rparr> \<and>
     devices c = snd (alt_dev_reg jtag_uart_0 (hal_init (\<lambda>a. jtag_uart_dev_instance H env) (fresh_jtag H d mm))) \<and>
     alt_irq c ! unat JTAG_UART_0_IRQ = (jtag_irq_fn, jtag_state) \<and>
     ienable c = irq_bit JTAG_UART_0_IRQ \<and> status c = NIOS2_STATUS_PIE_MSK"
proof -
  let ?inst = "\<lambda>a. jtag_uart_dev_instance H env"
  let ?u = "IOWR_CONTROL H CONTROL_RE_MSK ((uart_instance d)\<lparr>irq_enable := CONTROL_RE_MSK\<rparr>)"
  let ?w0 = "hal_init ?inst \<lparr>jtag = uart_instance d, memory = mm\<rparr>"
  let ?w1 = "hal_init ?inst \<lparr>jtag = ?u, memory = mm\<rparr>"
  obtain rc c where c: "alt_ic_isr_register 0 JTAG_UART_0_IRQ jtag_irq_fn jtag_state (alt_irq_init (irqs_init ?w1)) = Some (rc, c)"
    "devices c = ?w1" "alt_irq c ! unat JTAG_UART_0_IRQ = (jtag_irq_fn, jtag_state)"
    "ienable c = irq_bit JTAG_UART_0_IRQ" "status c = NIOS2_STATUS_PIE_MSK"
    using irq_setup [of ?w1] by (elim exE conjE) (rule that)
  have on: "on_driver (\<lambda>_. \<lparr>jtag = ?u, memory = mm\<rparr>) (alt_irq_init (irqs_init ?w0)) = alt_irq_init (irqs_init ?w1)"
    by (simp add: alt_irq_init_def irqs_init_def hal_init_def altera_nios2_gen2_irq_init_def
        alt_irq_cpu_enable_interrupts_def)
  have fresh: "?u\<lparr>host_inactive := 0, timeout := INT_MAX\<rparr> = uart_init H (- ENOTSUP) (uart_instance d)"
    by (simp add: uart_init_def Let_def ENOTSUP_def)
  have w: "driver ?w1 = \<lparr>jtag = ?u, memory = mm\<rparr>" "driver (devices (alt_irq_init (irqs_init ?w0))) = \<lparr>jtag = uart_instance d, memory = mm\<rparr>"
    "?w1\<lparr>driver := fresh_jtag H d mm\<rparr> = hal_init ?inst (fresh_jtag H d mm)"
    by (simp_all add: hal_init_def alt_irq_init_def irqs_init_def altera_nios2_gen2_irq_init_def
        alt_irq_cpu_enable_interrupts_def)
  have "jtag_init H 0 JTAG_UART_0_IRQ ((system_init H env d mm)\<lparr>cpu := alt_irq_init (cpu (system_init H env d mm))\<rparr>) =
      Some \<lparr>cpu = c\<lparr>devices := ?w1\<lparr>driver := fresh_jtag H d mm\<rparr>\<rparr>, clk = clock_init\<rparr>"
    using c(1,2) w(1,2) on fresh
    by (simp add: jtag_init_def system_init_def clock_init_def alt_alarm_start_def IOWR_CONTROL_def ENOTSUP_def Let_def)
  then show ?thesis using c(3-5) w(3) by (simp add: alt_sys_init_def)
qed

lemma system_starts_from:
  "\<exists>b. alt_main_start H ctors (system_init H env d mm) = Some (do_ctors ctors b) \<and>
     started H env (fresh_jtag H d mm) (cpu b) \<and>
     timeout (jtag (driver (devices (cpu b)))) = INT_MAX \<and> clk b = clock_init"
proof -
  obtain c where c: "alt_sys_init H ((system_init H env d mm)\<lparr>cpu := alt_irq_init (cpu (system_init H env d mm))\<rparr>) =
       Some \<lparr>cpu = c, clk = clock_init\<rparr>"
     and d: "devices c = snd (alt_dev_reg jtag_uart_0 (hal_init (\<lambda>a. jtag_uart_dev_instance H env) (fresh_jtag H d mm)))"
     and i: "alt_irq c ! unat JTAG_UART_0_IRQ = (jtag_irq_fn, jtag_state)"
     "ienable c = irq_bit JTAG_UART_0_IRQ" "status c = NIOS2_STATUS_PIE_MSK" using sys_init_ends [of H env d mm] by blast
  note reg = registered_jtag [where H = H and env = env and w = "fresh_jtag H d mm", folded d]
  have no_open: "dev_open (dev_of (devices c) jtag_uart_0) = None" "jtag_uart_0 \<noteq> 0"
    by (simp add: reg(5) jtag_uart_dev_instance_def, simp add: jtag_uart_0_def)
  have "3 < ALT_MAX_FD" "\<not> used (devices c) 3" using reg(7) [of 3] by (simp_all add: ALT_MAX_FD_def)
  from redirect_all [OF reg(1,3) no_open(2,1) reg(4) this] obtain h where
    r: "alt_io_redirect JTAG_UART_0_NAME JTAG_UART_0_NAME JTAG_UART_0_NAME (devices c) = Some h"
    and k: "\<forall>k < 3. fd_dev (fd_at h k) = jtag_uart_0" and fl: "fd_flags (fd_at h 0) = O_RDONLY OR ALT_FD_DEV"
    "fd_flags (fd_at h 1) = O_WRONLY OR ALT_FD_DEV" "fd_flags (fd_at h 2) = O_WRONLY OR ALT_FD_DEV"
    and u: "\<forall>j < ALT_MAX_FD. 3 \<le> j \<longrightarrow> (used h j \<longleftrightarrow> used (devices c) j)"
    and rest: "fd_wf h" "dev_heap h = dev_heap (devices c)" "dev_of h = dev_of (devices c)" "driver h = driver (devices c)"
    by blast
  have "used h j \<longleftrightarrow> j < 3" if "j < ALT_MAX_FD" for j
    using that u reg(7) [OF that] k no_open(2) by (cases "j < 3") auto
  then have "started H env (fresh_jtag H d mm) (c\<lparr>devices := h\<rparr>)"
    using reg(2,5,6) rest k fl i by (simp add: started_def)
  moreover have "timeout (jtag (driver h)) = INT_MAX"
    using rest(4) reg(6) by (simp add: uart_init_def Let_def ENOTSUP_def)
  ultimately show ?thesis
    using c r by (intro exI [of _ "\<lparr>cpu = c\<lparr>devices := h\<rparr>, clk = clock_init\<rparr>"]) (simp add: alt_main_start_def)
qed

text \<open>C8. The start of the system succeeds from reset, whatever the hardware: before main is called
  (and the constructors run) the three standard streams are open on the UART, stdin for reading and
  the others for writing, no other descriptor is in use, the device list holds the UART and the
  null device, exactly the UART's interrupt is enabled and leads to its handler with its state, and
  the driver, for want of a system clock, will never take the host to be absent.\<close>
theorem system_starts:
  "\<exists>b. alt_main_start H ctors (system_init H env d mm) = Some (do_ctors ctors b) \<and>
     started H env (fresh_jtag H d mm) (cpu b) \<and>
     timeout (jtag (driver (devices (cpu b)))) = INT_MAX \<and> clk b = clock_init"
  by (rule system_starts_from)

section \<open>From the write call to the host\<close>

text \<open>A text that fits goes into the buffer whole, whatever the flags.\<close>

lemma write_fits:
  assumes "jtag_ok H L" "flow L T D u" "xs \<noteq> []" "length (tx_q u) + length xs \<le> 2047"
  shows "\<exists>v. uart_write H env xs fl u = Some (int (length xs), v) \<and> flow L (T @ xs) D v"
proof -
  obtain rest v where t: "tx_copy xs u = (rest, v)" by fastforce
  have ok: "uart_ok u" using assms(2) by (simp add: flow_def)
  note sp = tx_copy_spec [OF ok t]
  obtain ys where ys: "xs = ys @ rest" "tx_q v = tx_q u @ ys" using sp by blast
  have "rest = []"
  proof (rule ccontr)
    assume "rest \<noteq> []"
    then have "length (tx_q u) + length ys = 2047" "length rest > 0" using sp ys by (auto simp: BUF_LEN_def)
    then show False using ys(1) assms(4) by (cases rest) auto
  qed
  then have "write_loop H env (fl AND O_NONBLOCK \<noteq> 0) xs u = Some ([], enable_we H v)"
    using t by (subst write_loop.simps) simp
  then have w: "uart_write H env xs fl u = Some (int (length xs), enable_we H v)"
    using assms(3) by (simp add: uart_write_def)
  have "accept H xs u = ([], enable_we H v)" using t \<open>rest = []\<close> by (simp add: accept_def)
  from flow_accept [OF assms(1,2) this] show ?thesis using w by auto
qed

text \<open>The handler, entered for the UART alone, runs the UART's service routine once.\<close>

lemma handler_runs_uart:
  assumes "alt_irq c ! unat JTAG_UART_0_IRQ = (jtag_irq_fn, jtag_state)" "ienable c = irq_bit JTAG_UART_0_IRQ"
    and "line (regs (jtag (driver (devices c))))" "uart_irq H (jtag (driver (devices c))) = Some u'" "\<not> line (regs u')"
  shows "alt_irq_handler (jtag_line line) (system_isr H) c = Some (on_driver (\<lambda>w. w\<lparr>jtag := u'\<rparr>) c)"
proof -
  have p: "alt_irq_pending (jtag_line line) c = 1"
    using assms(2,3) by (simp add: alt_irq_pending_def jtag_line_def irq_bit_def JTAG_UART_0_IRQ_def)
  have "irq_scan 1 = Some 0" using irq_scan_from [of 1 0 0] by (simp add: irq_scan_def)
  then have s: "irq_service (system_isr H) 1 c = Some (on_driver (\<lambda>w. w\<lparr>jtag := u'\<rparr>) c)"
    using assms(1,4) by (simp add: irq_service_def system_isr_def JTAG_UART_0_IRQ_def)
  have "alt_irq_pending (jtag_line line) (on_driver (\<lambda>w. w\<lparr>jtag := u'\<rparr>) c) = 0"
    using assms(5) by (simp add: alt_irq_pending_def jtag_line_def)
  then show ?thesis unfolding alt_irq_handler_def p using s by (subst irq_loop.simps) simp
qed

subsection \<open>Runs of the standard output\<close>

text \<open>
  A started system: writes of any length to the two output streams, the processor's interrupt
  handler, the alarm's callback, and the program storing to its memory, in any order. The list is
  what the writes have accepted: as many bytes of each buffer as the call returned, none if it
  returned an error.
\<close>

inductive out_run ::
  "'d jtag_hw \<Rightarrow> 'd jtag_world hal irqs \<Rightarrow> u8 list \<Rightarrow> 'd jtag_world hal irqs \<Rightarrow> bool" for H c0 where
  out_start: "out_run H c0 [] c0"
| out_write: "out_run H c0 T c \<Longrightarrow> fno = 1 \<or> fno = 2 \<Longrightarrow> alt_write fno p n (devices c) = Some (r, h) \<Longrightarrow>
    out_run H c0 (T @ take (nat r) (map (memory (driver (devices c))) [p..<p + nat n])) (c\<lparr>devices := h\<rparr>)"
| out_irq: "out_run H c0 T c \<Longrightarrow> alt_irq_handler (jtag_line line) (system_isr H) c = Some c' \<Longrightarrow> out_run H c0 T c'"
| out_tick: "out_run H c0 T c \<Longrightarrow> out_run H c0 T (on_driver (\<lambda>w. w\<lparr>jtag := uart_timeout H (jtag w)\<rparr>) c)"
| out_store: "out_run H c0 T c \<Longrightarrow> out_run H c0 T (on_driver (\<lambda>w. w\<lparr>memory := mm\<rparr>) c)"

text \<open>The invariant of a run: the tables of the start, the flow of the bytes, the control register.\<close>

definition out_inv ::
  "'d jtag_hw \<Rightarrow> ('d uart \<Rightarrow> 'd uart) \<Rightarrow> 'd jtag_log \<Rightarrow> ('d \<Rightarrow> u32) \<Rightarrow> u8 list \<Rightarrow> u8 list \<Rightarrow>
   'd jtag_world hal irqs \<Rightarrow> bool" where
  "out_inv H env L E T D c \<longleftrightarrow> started H env (driver (devices c)) c \<and>
     flow L T D (jtag (driver (devices c))) \<and> control_synced E (jtag (driver (devices c)))"

lemma started_frame:
  assumes "started H env w c"
  shows "started H env w' (c\<lparr>devices := (devices c)\<lparr>driver := w'\<rparr>\<rparr>)"
    "started H env w' (c\<lparr>devices := (devices c)\<lparr>driver := w', alt_errno := e\<rparr>\<rparr>)"
  using assms by (simp_all add: started_def)

lemma out_inv_step:
  assumes "out_inv H env L E T D c" "flow L T' D (jtag w)" "control_synced E (jtag w)"
  shows "out_inv H env L E T' D (c\<lparr>devices := (devices c)\<lparr>driver := w\<rparr>\<rparr>)"
    "out_inv H env L E T' D (c\<lparr>devices := (devices c)\<lparr>driver := w, alt_errno := e\<rparr>\<rparr>)"
  using assms started_frame by (auto simp: out_inv_def)

lemma handlers_keep:
  assumes "(handler_step H)\<^sup>*\<^sup>* u v" "jtag_ok H L" "control_ok H E"
  shows "(flow L T D u \<longrightarrow> flow L T D v) \<and> (control_synced E u \<longrightarrow> control_synced E v)"
  using assms(1)
proof (induction rule: rtranclp_induct)
  case (step v w)
  then show ?case
    using flow_irq [OF assms(2)] uart_irq_synced [OF assms(3)] flow_timeout [OF assms(2)] uart_timeout_synced [OF assms(3)]
    by (auto simp: handler_step_def)
qed simp

lemma handlers_env:
  assumes "handlers_only H env" "jtag_ok H L" "control_ok H E"
  shows "env_ok L env" "control_synced E u \<Longrightarrow> control_synced E (env u)"
  using handlers_keep assms unfolding env_ok_def handlers_only_def by blast+

subsubsection \<open>One write\<close>

lemma enable_we_synced: "control_ok H E \<Longrightarrow> control_synced E (enable_we H u)"
  by (simp add: enable_we_def Let_def synced_write)

lemma spin_synced:
  assumes "\<And>u. control_synced E u \<Longrightarrow> control_synced E (env u)" "tx_spin env out u = Some v" "control_synced E u"
  shows "control_synced E v"
  using while_option_inv [where P = "control_synced E", OF assms(2) [unfolded tx_spin_def]] assms(1,3) by blast

lemma write_loop_synced:
  assumes "write_loop H env nb xs u = Some r"
  shows "control_ok H E \<longrightarrow> (\<forall>u. control_synced E u \<longrightarrow> control_synced E (env u)) \<longrightarrow> control_synced E (snd r)"
proof (rule write_loop.raw_induct
    [where P = "\<lambda>H env nb xs u r. control_ok H E \<longrightarrow> (\<forall>u. control_synced E u \<longrightarrow> control_synced E (env u)) \<longrightarrow>
       control_synced E (snd r)", OF _ assms], goal_cases)
  case (1 f H env nb xs u r)
  show ?case
  proof (intro impI)
    assume co: "control_ok H E" and eo: "\<forall>u. control_synced E u \<longrightarrow> control_synced E (env u)"
    define v where "v = enable_we H (snd (tx_copy xs u))"
    have v: "control_synced E v" unfolding v_def by (rule enable_we_synced [OF co])
    note body = 1(2) [unfolded Let_def, folded v_def]
    show "control_synced E (snd r)"
    proof (cases "fst (tx_copy xs u) = [] \<or> nb")
      case True
      then show ?thesis using body v by auto
    next
      case False
      then obtain w where w: "tx_spin env (tx_out v) v = Some w"
        and k: "(if host_inactive w \<noteq> 0 then Some (fst (tx_copy xs u), w) else f H env nb (fst (tx_copy xs u)) w) = Some r"
        using body by (auto simp: bind_eq_Some_conv)
      have "control_synced E w" using spin_synced [OF _ w v] eo by blast
      then show ?thesis using k 1(1) co eo by (auto split: if_splits)
    qed
  qed
qed

text \<open>What a call of the driver's write function did, whatever it returns.\<close>

lemma uart_write_effect:
  assumes "uart_write H env xs fl u = Some (r, v)" "jtag_ok H L" "env_ok L env" "control_ok H E"
    and "\<And>u. control_synced E u \<Longrightarrow> control_synced E (env u)" "flow L T D u" "control_synced E u"
  shows "flow L (T @ take (nat r) xs) D v \<and> control_synced E v \<and> (r < 0 \<or> 1 \<le> r \<and> r \<le> int (length xs))"
proof -
  let ?nb = "fl AND O_NONBLOCK \<noteq> 0"
  obtain rest where w: "write_loop H env ?nb xs u = Some (rest, v)"
    and r: "r = (if length rest \<noteq> length xs then int (length xs - length rest) else if ?nb then - EWOULDBLOCK else - EIO)"
    using assms(1) by (auto simp: uart_write_def)
  have "write_post H L D ?nb xs u (rest, v)" using write_loop_post [OF w] assms(2,3) by blast
  then obtain ys where ys: "xs = ys @ rest" "flow L (T @ ys) D v"
    using assms(6) unfolding write_post_def by (metis fst_conv snd_conv)
  have "control_synced E v" using write_loop_synced [OF w, of E] assms(4,5) by simp
  moreover have "take (nat r) xs = ys" "r < 0 \<or> 1 \<le> r \<and> r \<le> int (length xs)"
    using r ys(1) by (auto simp: EWOULDBLOCK_def EIO_def Suc_le_eq)
  ultimately show ?thesis using ys(2) by simp
qed

text \<open>The write call on either stream reaches the driver with the bytes of the memory.\<close>

lemma output_stream: "fno = 1 \<or> fno = 2 \<Longrightarrow> nat fno < 3 \<and> 0 \<le> fno \<and> (nat fno = 1 \<or> nat fno = 2)"
  by auto

lemma write_on_jtag:
  assumes "started H env w c" "fno = 1 \<or> fno = 2"
  shows "alt_write fno p n (devices c) =
    driver_result (jtag_write_fd H env (fd_at (devices c) (nat fno)) p n w) (devices c)"
    "fd_flags (fd_at (devices c) (nat fno)) = O_WRONLY OR ALT_FD_DEV"
proof -
  note f = output_stream [OF assms(2)]
  show fl: "fd_flags (fd_at (devices c) (nat fno)) = O_WRONLY OR ALT_FD_DEV"
    using f assms(1) by (auto simp: started_def)
  have "(O_WRONLY OR ALT_FD_DEV) AND O_ACCMODE \<noteq> O_RDONLY" by (simp add: hal_defs)
  moreover have "fd_dev (fd_at (devices c) (nat fno)) = jtag_uart_0" "jtag_uart_0 \<noteq> 0" "nat fno < ALT_MAX_FD"
    using f assms(1) by (simp_all add: started_def jtag_uart_0_def ALT_MAX_FD_def)
  ultimately show "alt_write fno p n (devices c) =
      driver_result (jtag_write_fd H env (fd_at (devices c) (nat fno)) p n w) (devices c)"
    using f assms(1) fl by (simp add: started_def alt_write_def on_fd_def the_dev_def jtag_uart_dev_instance_def)
qed

lemma write_keeps:
  assumes "out_inv H env L E T D c" "jtag_ok H L" "control_ok H E" "handlers_only H env"
    and "fno = 1 \<or> fno = 2" "alt_write fno p n (devices c) = Some (r, h)"
  shows "out_inv H env L E (T @ take (nat r) (map (memory (driver (devices c))) [p..<p + nat n])) D (c\<lparr>devices := h\<rparr>) \<and>
    (r = - 1 \<or> 1 \<le> r \<and> r \<le> n)"
proof -
  let ?w = "driver (devices c)" and ?xs = "map (memory (driver (devices c))) [p..<p + nat n]"
  have st: "started H env ?w c" and fl: "flow L T D (jtag ?w)" and sy: "control_synced E (jtag ?w)"
    using assms(1) by (simp_all add: out_inv_def)
  note wr = write_on_jtag [OF st assms(5)]
  obtain q v where q: "uart_write H env ?xs (O_WRONLY OR ALT_FD_DEV) (jtag ?w) = Some (q, v)"
    and rh: "(r, h) = (if q < 0 then fail (- q) ((devices c)\<lparr>driver := ?w\<lparr>jtag := v\<rparr>\<rparr>) else (q, (devices c)\<lparr>driver := ?w\<lparr>jtag := v\<rparr>\<rparr>))"
    using assms(6) wr by (auto simp: driver_result_def driver_call_def jtag_write_fd_def uart_write_fd_def split: if_splits)
  have e: "flow L (T @ take (nat q) ?xs) D v" "control_synced E v" "q < 0 \<or> 1 \<le> q \<and> q \<le> int (length ?xs)"
    using uart_write_effect [OF q assms(2) handlers_env(1) [OF assms(4,2,3)] assms(3) handlers_env(2) [OF assms(4,2,3)] fl sy] by blast+
  show ?thesis
  proof (cases "q < 0")
    case True
    then have "r = - 1" "h = (devices c)\<lparr>driver := ?w\<lparr>jtag := v\<rparr>, alt_errno := - q\<rparr>" using rh by (simp_all add: fail_def)
    then show ?thesis using out_inv_step(2) [OF assms(1), of T "?w\<lparr>jtag := v\<rparr>" "- q"] e True by simp
  next
    case False
    then have "r = q" "h = (devices c)\<lparr>driver := ?w\<lparr>jtag := v\<rparr>\<rparr>" using rh by simp_all
    then show ?thesis using out_inv_step(1) [OF assms(1), of "T @ take (nat q) ?xs" "?w\<lparr>jtag := v\<rparr>"] e False
      by (auto split: if_splits)
  qed
qed

subsubsection \<open>The interrupt handler\<close>

lemma irq_loop_keeps:
  assumes "irq_loop lines isr a s = Some t"
  shows "(\<forall>f x s s'. P s \<and> isr f x s = Some s' \<longrightarrow> P s') \<longrightarrow> P s \<longrightarrow> P t"
proof (rule irq_loop.raw_induct
    [where P = "\<lambda>lines isr a s t. (\<forall>f x s s'. P s \<and> isr f x s = Some s' \<longrightarrow> P s') \<longrightarrow> P s \<longrightarrow> P t",
     OF _ assms], goal_cases)
  case (1 f lines isr a s t)
  show ?case
  proof (intro impI)
    assume k: "\<forall>f x s s'. P s \<and> isr f x s = Some s' \<longrightarrow> P s'" and p: "P s"
    obtain s' where s': "irq_service isr a s = Some s'"
      and r: "(if alt_irq_pending lines s' \<noteq> 0 then f lines isr (alt_irq_pending lines s') s' else Some s') = Some t"
      using 1(2) by (auto simp: bind_eq_Some_conv)
    obtain i :: u32 where "isr (fst (alt_irq s ! unat i)) (snd (alt_irq s ! unat i)) s = Some s'"
      using s' unfolding irq_service_def bind_eq_Some_conv by blast
    then have p': "P s'" using k p by blast
    show "P t"
    proof (cases "alt_irq_pending lines s' \<noteq> 0")
      case True
      then have "f lines isr (alt_irq_pending lines s') s' = Some t" using r by simp
      from 1(1) [OF this] show ?thesis using k p' by blast
    next
      case False
      then show ?thesis using r p' by simp
    qed
  qed
qed

lemma irq_keeps:
  assumes "out_inv H env L E T D c" "jtag_ok H L" "control_ok H E"
    and "alt_irq_handler (jtag_line line) (system_isr H) c = Some c'"
  shows "out_inv H env L E T D c'"
proof -
  have keeps: "out_inv H env L E T D s'" if i: "out_inv H env L E T D s" and q: "system_isr H f x s = Some s'" for f x s s'
  proof -
    obtain u where u: "uart_irq H (jtag (driver (devices s))) = Some u"
      "s' = on_driver (\<lambda>w. w\<lparr>jtag := u\<rparr>) s" using q by (auto simp: system_isr_def split: if_splits)
    have "flow L T D u" "control_synced E u"
      using i flow_irq [OF assms(2) _ u(1)] uart_irq_synced [OF assms(3) u(1)] by (simp_all add: out_inv_def)
    then show ?thesis using out_inv_step(1) [OF i, of T "(driver (devices s))\<lparr>jtag := u\<rparr>"] u(2) by simp
  qed
  show ?thesis
    using irq_loop_keeps [OF assms(4) [unfolded alt_irq_handler_def], of "out_inv H env L E T D"] assms(1) keeps by blast
qed

subsubsection \<open>Any run\<close>

lemma out_run_inv:
  assumes "out_run H c0 T c" "out_inv H env L E S D c0" "jtag_ok H L" "control_ok H E" "handlers_only H env"
  shows "out_inv H env L E (S @ T) D c"
  using assms(1)
proof induction
  case (out_write T c fno p n r h)
  then show ?case using write_keeps [OF out_write.IH assms(3,4,5) out_write.hyps(2,3)] by simp
next
  case (out_irq T c line c')
  then show ?case using irq_keeps [OF _ assms(3,4)] by blast
next
  case (out_tick T c)
  then show ?case
    using out_inv_step(1) [OF out_tick.IH, of "S @ T" "(driver (devices c))\<lparr>jtag := uart_timeout H (jtag (driver (devices c)))\<rparr>"]
      flow_timeout [OF assms(3)] uart_timeout_synced [OF assms(4)] by (simp add: out_inv_def)
next
  case (out_store T c mm)
  then show ?case
    using out_inv_step(1) [OF out_store.IH, of "S @ T" "(driver (devices c))\<lparr>memory := mm\<rparr>"] by (simp add: out_inv_def)
qed (use assms(2) in simp)

lemma started_inv:
  assumes "jtag_ok H L" "control_ok H E" "alt_main_start H [] (system_init H env d mm) = Some b"
  shows "out_inv H env L E (sent L d) (received L d) (cpu b)"
proof -
  have "started H env (fresh_jtag H d mm) (cpu b)"
    using system_starts_from [of H "[]" env d mm] assms(3) by (auto simp: do_ctors_rev)
  moreover from this have "driver (devices (cpu b)) = fresh_jtag H d mm" by (simp add: started_def)
  ultimately show ?thesis using init_flow [OF assms(1)] init_synced [OF assms(2)] by (simp add: out_inv_def)
qed

text \<open>C6. The path of the program's output. After the start, in any run of writes of any length to
  the standard output and the standard error, interrupts, alarm ticks and stores to the memory:
  each write that returns gives -1 or the number, at least one and at most its length, of the bytes
  of its buffer that it took; the bytes sent to the host followed by those still queued are exactly
  those taken, in order; at most 2047 are queued, and while any is, the hardware's transmit
  interrupt is enabled. (While a write waits, interrupts and ticks come between its tests.) A write
  that fits in the room left returns and takes the whole buffer; and when the UART requests its
  interrupt and the driver gets it to withdraw the request, the processor's handler runs the driver
  once and returns.\<close>
theorem stdout_to_host:
  fixes c :: "'d jtag_world hal irqs"
  defines "u \<equiv> jtag (driver (devices c))"
  assumes "jtag_ok H L" "control_ok H E" "handlers_only H env"
    and "alt_main_start H [] (system_init H env d mm) = Some b" "out_run H (cpu b) T c"
  shows "sent L (regs u) @ tx_q u = sent L d @ T \<and> length (tx_q u) \<le> 2047 \<and>
    (tx_q u \<noteq> [] \<longrightarrow> E (regs u) AND CONTROL_WE_MSK \<noteq> 0) \<and>
    (\<forall>fno p n. fno = 1 \<or> fno = 2 \<longrightarrow>
       (\<forall>r h. alt_write fno p n (devices c) = Some (r, h) \<longrightarrow> r = - 1 \<or> 1 \<le> r \<and> r \<le> n) \<and>
       (0 < n \<and> int (length (tx_q u)) + n \<le> 2047 \<longrightarrow> (\<exists>h. alt_write fno p n (devices c) = Some (n, h)))) \<and>
    (\<forall>line u'. line (regs u) \<and> uart_irq H u = Some u' \<and> \<not> line (regs u') \<longrightarrow>
       alt_irq_handler (jtag_line line) (system_isr H) c = Some (on_driver (\<lambda>w. w\<lparr>jtag := u'\<rparr>) c))"
proof -
  have inv: "out_inv H env L E (sent L d @ T) (received L d) c"
    using out_run_inv [OF assms(6) started_inv [OF assms(2,3,5)] assms(2,3,4)] .
  then have st: "started H env (driver (devices c)) c" and fl: "flow L (sent L d @ T) (received L d) u"
    and sy: "control_synced E u" by (simp_all add: out_inv_def u_def)
  have fits: "\<exists>h. alt_write fno p n (devices c) = Some (n, h)"
    if f: "fno = 1 \<or> fno = 2" and n: "0 < n" "int (length (tx_q u)) + n \<le> 2047" for fno p n
  proof -
    let ?xs = "map (memory (driver (devices c))) [p..<p + nat n]"
    have "length (tx_q u) + nat n \<le> 2047" using n by linarith
    then obtain v where "uart_write H env ?xs (O_WRONLY OR ALT_FD_DEV) u = Some (n, v)"
      using write_fits [OF assms(2) fl, of ?xs env "O_WRONLY OR ALT_FD_DEV"] n by auto
    then show ?thesis using write_on_jtag [OF st f] n(1)
      by (simp add: driver_result_def driver_call_def jtag_write_fd_def uart_write_fd_def u_def)
  qed
  have q: "sent L (regs u) @ tx_q u = sent L d @ T" "length (tx_q u) \<le> 2047"
    "tx_q u \<noteq> [] \<longrightarrow> E (regs u) AND CONTROL_WE_MSK \<noteq> 0"
    using fl rb_bound [OF uart_okD(2), of u] synced_bits(1) [OF sy] by (auto simp: flow_def wake_def BUF_LEN_def)
  have irq: "alt_irq_handler (jtag_line line) (system_isr H) c = Some (on_driver (\<lambda>w. w\<lparr>jtag := u'\<rparr>) c)"
    if "line (regs u)" "uart_irq H u = Some u'" "\<not> line (regs u')" for line u'
    using handler_runs_uart [of c line H u'] that st by (simp add: started_def u_def)
  have res: "r = - 1 \<or> 1 \<le> r \<and> r \<le> n"
    if "fno = 1 \<or> fno = 2" "alt_write fno p n (devices c) = Some (r, h)" for fno p n r h
    using write_keeps [OF inv assms(2,3,4) that] by blast
  show ?thesis using q by (intro conjI allI impI) (use fits res irq in \<open>simp_all\<close>)
qed

section \<open>A UART that takes what it is given\<close>

text \<open>For the witnesses: hardware with room for 64 bytes that requests its interrupt while the
  transmit interrupt is enabled.\<close>

record wi_uart =
  was :: "u8 list"
  ctl :: u32

definition wi_line :: "wi_uart \<Rightarrow> bool" where
  "wi_line d \<longleftrightarrow> ctl d AND CONTROL_WE_MSK \<noteq> 0"

definition wi_hw :: "wi_uart jtag_hw" where
  "wi_hw = \<lparr>rd_data = (\<lambda>d. (0, d)), wr_data = (\<lambda>v d. d\<lparr>was := was d @ [ucast v]\<rparr>),
     rd_control = (\<lambda>d. (if wi_line d then CONTROL_WI_MSK OR push_bit 16 64 else 0, d)),
     wr_control = (\<lambda>v d. d\<lparr>ctl := v\<rparr>)\<rparr>"

definition wi_log :: "wi_uart jtag_log" where
  "wi_log = \<lparr>sent = was, received = (\<lambda>d. [])\<rparr>"

lemma wi_ok: "jtag_ok wi_hw wi_log"
  by (simp add: jtag_ok_def wi_hw_def wi_log_def)

lemma wi_irq:
  assumes "uart_ok u" "length (tx_q u) < 64" "wi_line (regs u)"
  shows "\<exists>v. uart_irq wi_hw u = Some v \<and> \<not> wi_line (regs v) \<and> tx_q v = []"
proof -
  let ?c = "CONTROL_WI_MSK OR push_bit 16 64 :: u32"
  have c: "IORD_CONTROL wi_hw w = (if wi_line (regs w) then ?c else 0, w)" for w
    by (simp add: IORD_CONTROL_def wi_hw_def)
  have m: "?c AND CONTROL_RI_MSK = 0" "?c AND CONTROL_WI_MSK \<noteq> 0" "?c AND (CONTROL_RI_MSK OR CONTROL_WI_MSK) \<noteq> 0"
    "unat (drop_bit 16 (?c AND CONTROL_WSPACE_MSK)) = 64"
    by (simp_all add: uart_masks)
  obtain left v where l: "tx_loop 64 wi_hw u = (left, v)" by fastforce
  obtain ys where ys: "tx_q u = ys @ tx_q v" "length ys = 64 - left" "left \<le> 64" "0 < left \<longrightarrow> tx_q v = []"
    using tx_loop_spec [OF assms(1) l] by blast
  then have z: "left > 0" "tx_q v = []" using assms(2) by (cases "left = 0"; auto)+
  let ?e = "irq_enable v AND NOT CONTROL_WE_MSK"
  let ?v = "IOWR_CONTROL wi_hw ?e (v\<lparr>irq_enable := ?e\<rparr>)"
  have off: "\<not> wi_line (regs ?v)" by (simp add: wi_line_def IOWR_CONTROL_def wi_hw_def and.assoc)
  have "irq_round wi_hw ?c u = ?v"
    unfolding irq_round_def irq_tx_def using m l z(1) c by (simp add: Let_def)
  then have "uart_irq wi_hw u = Some ?v"
    unfolding uart_irq_def c using assms(3) m(3) off
    by (subst while_option_unfold, simp add: c) (simp add: while_option_unfold)
  then show ?thesis using off z(2) by (intro exI [of _ ?v]) simp
qed

definition wi_enabled :: "wi_uart \<Rightarrow> u32" where
  "wi_enabled d = ctl d AND enable_bits"

lemma wi_control: "control_ok wi_hw wi_enabled"
  by (simp add: control_ok_def wi_hw_def wi_enabled_def)

text \<open>One letter, from reset to the host.\<close>

theorem stdout_to_host_witness:
  "\<exists>b c. alt_main_start wi_hw [] (system_init wi_hw id \<lparr>was = [], ctl = 0\<rparr> (\<lambda>_. 65)) = Some b \<and>
     out_run wi_hw (cpu b) [65] c \<and> was (regs (jtag (driver (devices c)))) = [65]"
proof -
  let ?d = "\<lparr>was = [], ctl = 0\<rparr>" and ?mm = "\<lambda>_. 65 :: u8" and ?u = "\<lambda>c. jtag (driver (devices c))"
  obtain b where b: "alt_main_start wi_hw [] (system_init wi_hw id ?d ?mm) = Some b"
    and w: "driver (devices (cpu b)) = fresh_jtag wi_hw ?d ?mm"
    using system_starts_from [of wi_hw "[]" id ?d ?mm] by (auto simp: started_def do_ctors_rev)
  have env: "handlers_only wi_hw id" by (simp add: handlers_only_def)
  note out = stdout_to_host [OF wi_ok wi_control env b]
  have q0: "tx_q (?u (cpu b)) = []" "memory (driver (devices (cpu b))) = ?mm"
    using w by (simp_all add: uart_init_def uart_instance_def IOWR_CONTROL_def rb_contents_def Let_def)
  obtain h where h: "alt_write 1 7 1 (devices (cpu b)) = Some (1, h)"
  proof -
    have "int (length (tx_q (?u (cpu b)))) + 1 \<le> 2047" using q0(1) by simp
    then have "\<exists>h. alt_write 1 7 1 (devices (cpu b)) = Some (1, h)"
      using out [OF out_start] zero_less_one [where 'a = int] by blast
    then show ?thesis using that by blast
  qed
  let ?c = "(cpu b)\<lparr>devices := h\<rparr>"
  have r1: "out_run wi_hw (cpu b) [65] ?c" using out_write [OF out_start _ h] q0(2) by simp
  have o1: "was (regs (?u ?c)) @ tx_q (?u ?c) = [65]"
    using out [OF r1, THEN conjunct1] by (simp add: wi_log_def)
  have we: "tx_q (?u ?c) \<noteq> [] \<longrightarrow> wi_enabled (regs (?u ?c)) AND CONTROL_WE_MSK \<noteq> 0"
    using out [OF r1] by blast
  have irq: "\<And>v. wi_line (regs (?u ?c)) \<Longrightarrow> uart_irq wi_hw (?u ?c) = Some v \<Longrightarrow> \<not> wi_line (regs v) \<Longrightarrow>
       alt_irq_handler (jtag_line wi_line) (system_isr wi_hw) ?c = Some (on_driver (\<lambda>w. w\<lparr>jtag := v\<rparr>) ?c)"
    using out [OF r1] by blast
  show ?thesis
  proof (cases "tx_q (?u ?c) = []")
    case True
    then show ?thesis using b r1 o1 by auto
  next
    case False
    then have l: "wi_line (regs (?u ?c))" using we by (simp add: wi_line_def wi_enabled_def enable_bits_def uart_masks and.assoc)
    have "length (tx_q (?u ?c)) < 64" using o1 by (cases "was (regs (?u ?c))") auto
    moreover have "uart_ok (?u ?c)"
      using out_run_inv [OF r1 started_inv [OF wi_ok wi_control b] wi_ok wi_control env] by (simp add: out_inv_def flow_def)
    ultimately obtain v where v: "uart_irq wi_hw (?u ?c) = Some v" "\<not> wi_line (regs v)" "tx_q v = []"
      using wi_irq l by blast
    from out_irq [OF r1 irq [OF l v(1,2)]]
    have r2: "out_run wi_hw (cpu b) [65] (on_driver (\<lambda>w. w\<lparr>jtag := v\<rparr>) ?c)" .
    from out [OF r2, THEN conjunct1] v(3) have "was (regs v) = [65]" by (simp add: wi_log_def)
    then show ?thesis using b r2 by (intro exI [of _ b] exI [of _ "on_driver (\<lambda>w. w\<lparr>jtag := v\<rparr>) ?c"]) simp
  qed
qed

end
