(* ===== verification/Chip_Peripherals.thy ===== *)
theory Chip_Peripherals
  imports Chip_Tables
begin

text \<open>
  The registers of the USB chip beyond its serial interface engines, from cy7c67200.h: a register is
  its addresses (more than one name may stand for an address, and a register may exist several
  times), the masks of its fields and the values the header gives for a field. The header describes
  the serial interfaces a second time, in the words of the chip's own software; the theorem says
  where the two descriptions agree and names every place where they do not.
\<close>

record chip_register =
  reg_at :: "(string \<times> u16) list"
  reg_fields :: "(string \<times> u16) list"
  reg_values :: "(string \<times> u16) list"

section \<open>The processor, memory and timers\<close>

definition R_CPU_FLAGS :: chip_register where
  "R_CPU_FLAGS = \<lparr>
     reg_at = [(''CPU_FLAGS_REG'', 0xC000), (''flags'', 0xC000)],
     reg_fields = [(''GLOBAL_IRQ_EN'', 0x0010), (''NEG_FLG'', 0x0008), (''OVF_FLG'', 0x0004),
       (''CARRY_FLG'', 0x0002), (''ZER0_FLG'', 0x0001)],
     reg_values = [] \<rparr>"

definition R_BANK :: chip_register where
  "R_BANK = \<lparr>
     reg_at = [(''BANK_REG'', 0xC002), (''regbuf'', 0xC002)],
     reg_fields = [(''BANK'', 0xFFE0)],
     reg_values = [] \<rparr>"

definition R_CPU_SPEED :: chip_register where
  "R_CPU_SPEED = \<lparr>
     reg_at = [(''CPU_SPEED_REG'', 0xC008), (''P_SPEED'', 0xC008)],
     reg_fields = [(''CPU_SPEED'', 0x000F)],
     reg_values = [] \<rparr>"

definition R_POWER_CTL :: chip_register where
  "R_POWER_CTL = \<lparr>
     reg_at = [(''POWER_CTL_REG'', 0xC00A)],
     reg_fields = [(''HOST2_WAKE_EN'', 0x4000), (''DEV2_WAKE_EN'', 0x4000),
       (''HOST1_WAKE_EN'', 0x1000), (''DEV1_WAKE_EN'', 0x1000), (''OTG_WAKE_EN'', 0x0800),
       (''HSS_WAKE_EN'', 0x0200), (''SPI_WAKE_EN'', 0x0100), (''HPI_WAKE_EN'', 0x0080),
       (''GPIO_WAKE_EN'', 0x0010), (''SLEEP_EN'', 0x0002), (''HALT_EN'', 0x0001)],
     reg_values = [] \<rparr>"

definition R_BKPT :: chip_register where
  "R_BKPT = \<lparr>
     reg_at = [(''BKPT_REG'', 0xC014)],
     reg_fields = [],
     reg_values = [] \<rparr>"

definition R_USB_DIAG :: chip_register where
  "R_USB_DIAG = \<lparr>
     reg_at = [(''USB_DIAG_REG'', 0xC03C)],
     reg_fields = [(''c2B_DIAG_EN'', 0x8000), (''c2A_DIAG_EN'', 0x4000), (''c1B_DIAG_EN'', 0x2000),
       (''c1A_DIAG_EN'', 0x1000), (''PULLDOWN_EN'', 0x0040), (''LS_PULLUP_EN'', 0x0020),
       (''FS_PULLUP_EN'', 0x0010), (''FORCE_SEL'', 0x0007)],
     reg_values = [(''ASSERT_SE0'', 0x0004), (''TOGGLE_JK'', 0x0002), (''ASSERT_J'', 0x0001),
       (''ASSERT_K'', 0x0000)] \<rparr>"

definition R_MEM_DIAG :: chip_register where
  "R_MEM_DIAG = \<lparr>
     reg_at = [(''MEM_DIAG_REG'', 0xC03E)],
     reg_fields = [(''FAST_REFRESH_EN'', 0x8000), (''MEM_ARB_SEL'', 0x0700),
       (''MONITOR_EN'', 0x0001)],
     reg_values = [(''MEM_ARB_7'', 0x0700), (''MEM_ARB_6'', 0x0600), (''MEM_ARB_5'', 0x0500),
       (''MEM_ARB_4'', 0x0400), (''MEM_ARB_3'', 0x0300), (''MEM_ARB_2'', 0x0200),
       (''MEM_ARB_1'', 0x0100), (''MEM_ARB_0'', 0x0000)] \<rparr>"

definition R_PGn_MAP :: chip_register where
  "R_PGn_MAP = \<lparr>
     reg_at = [(''PG1_MAP_REG'', 0xC018), (''PG2_MAP_REG'', 0xC01A)],
     reg_fields = [],
     reg_values = [] \<rparr>"

definition R_DRAM_CTL :: chip_register where
  "R_DRAM_CTL = \<lparr>
     reg_at = [(''DRAM_CTL_REG'', 0xC038)],
     reg_fields = [(''DRAM_DIS'', 0x0008), (''TURBO_EN'', 0x0004), (''PAGE_MODE_EN'', 0x0002),
       (''REFRESH_EN'', 0x0001)],
     reg_values = [] \<rparr>"

definition R_XMEM_CTL :: chip_register where
  "R_XMEM_CTL = \<lparr>
     reg_at = [(''XMEM_CTL_REG'', 0xC03A), (''X_MEM_CNTRL'', 0xC03A)],
     reg_fields = [(''XRAM_MERGE_EN'', 0x2000), (''XROM_MERGE_EN'', 0x1000),
       (''XMEM_WIDTH_SEL'', 0x0800), (''XMEM_WAIT_SEL'', 0x0700), (''XROM_WIDTH_SEL'', 0x0080),
       (''XROM_WAIT_SEL'', 0x0070), (''XRAM_WIDTH_SEL'', 0x0008), (''XRAM_WAIT_SEL'', 0x0007)],
     reg_values = [(''XMEM_8'', 0x0800), (''XMEM_16'', 0x0000), (''XROM_8'', 0x0080),
       (''XROM_16'', 0x0000), (''XRAM_8'', 0x0008), (''XRAM_16'', 0x0000)] \<rparr>"

definition R_WDT :: chip_register where
  "R_WDT = \<lparr>
     reg_at = [(''WDT_REG'', 0xC00C)],
     reg_fields = [(''WDT_TIMEOUT_FLG'', 0x0020), (''WDT_PERIOD_SEL'', 0x0018),
       (''WDT_LOCK_EN'', 0x0004), (''WDT_EN'', 0x0002), (''WDT_RST_STB'', 0x0001)],
     reg_values = [(''WDT_64MS'', 0x0003), (''WDT_21MS'', 0x0002), (''WDT_5MS'', 0x0001),
       (''WDT_1MS'', 0x0000)] \<rparr>"

definition R_TMRn :: chip_register where
  "R_TMRn = \<lparr>
     reg_at = [(''TMR0_REG'', 0xC010), (''TIMER_0'', 0xC010), (''TMR1_REG'', 0xC012),
       (''TIMER_1'', 0xC012)],
     reg_fields = [],
     reg_values = [] \<rparr>"

definition memory_begins :: "(string \<times> u16) list" where
  "memory_begins = [
     (''XRAM_BEGIN'', 0x4000), (''XROM_BEGIN'', 0xC100), (''IROM_BEGIN'', 0xE000)]"

section \<open>The on-the-go controller, the pins and the parallel ports\<close>

definition R_OTG_CTL :: chip_register where
  "R_OTG_CTL = \<lparr>
     reg_at = [(''OTG_CTL_REG'', 0xC098)],
     reg_fields = [(''OTG_RX_DIS'', 0x1000), (''CHG_PUMP_EN'', 0x0800), (''VBUS_DISCH_EN'', 0x0400),
       (''DPLUS_PULLUP_EN'', 0x0200), (''DMINUS_PULLUP_EN'', 0x0100),
       (''DPLUS_PULLDOWN_EN'', 0x0080), (''DMINUS_PULLDOWN_EN'', 0x0040),
       (''OTG_DATA_STAT'', 0x0004), (''OTG_ID_STAT'', 0x0002), (''VBUS_VALID_FLG'', 0x0001)],
     reg_values = [] \<rparr>"

definition R_GPIO_CTL :: chip_register where
  "R_GPIO_CTL = \<lparr>
     reg_at = [(''GPIO_CTL_REG'', 0xC006), (''GPIO_CONFIG'', 0xC006), (''GPIO_CNTRL'', 0xC01C)],
     reg_fields = [(''GPIO_WP_EN'', 0x8000), (''GPIO_SAS_EN'', 0x0800), (''GPIO_MODE_SEL'', 0x0700),
       (''GPIO_HSS_EN'', 0x0080), (''GPIO_HSS_XD_EN'', 0x0040), (''GPIO_SPI_EN'', 0x0020),
       (''GPIO_SPI_XD_EN'', 0x0010), (''GPIO_IRQ1_POL_SEL'', 0x0008), (''GPIO_IRQ1_EN'', 0x0004),
       (''GPIO_IRQ0_POL_SEL'', 0x0002), (''GPIO_IRQ0_EN'', 0x0001)],
     reg_values = [(''DIAG_MODE'', 0x0007), (''SCAN_MODE'', 0x0006), (''HPI_MODE'', 0x0005),
       (''IDE_MODE'', 0x0004), (''EPP_MODE'', 0x0002), (''FLASH_MODE'', 0x0001),
       (''GPIO_MODE'', 0x0000)] \<rparr>"

definition R_GPIOn :: chip_register where
  "R_GPIOn = \<lparr>
     reg_at = [(''GPIO0_OUT_DATA_REG'', 0xC01E), (''GPIO1_OUT_DATA_REG'', 0xC024),
       (''GPIO0_IN_DATA_REG'', 0xC020), (''GPIO1_IN_DATA_REG'', 0xC026),
       (''GPIO0_DIR_REG'', 0xC022), (''GPIO1_DIR_REG'', 0xC028), (''GPIO_HI_IO'', 0xC024),
       (''GPIO_HI_ENB'', 0xC028)],
     reg_fields = [],
     reg_values = [] \<rparr>"

definition R_EPP_CTL :: chip_register where
  "R_EPP_CTL = \<lparr>
     reg_at = [(''EPP_CTL_REG'', 0xC046)],
     reg_fields = [(''EPP_MODE_SEL'', 0x8000), (''EPP_SELECT_STAT'', 0x4000),
       (''EPP_nFAULT_STAT'', 0x2000), (''EPP_pERROR_STAT'', 0x1000), (''EPP_nRESET_EN'', 0x0020),
       (''EPP_nDSTRB_EN'', 0x0010), (''EPP_nASTRB_EN'', 0x0008), (''EPP_nWRITE_EN'', 0x0004),
       (''EPP_IRQ_STAT'', 0x0002), (''EPP_WAIT_STAT'', 0x0001), (''EPP_nINIT_EN'', 0x0020),
       (''EPP_nAUTOFD_EN'', 0x0010), (''EPP_ASELECT_EN'', 0x0008), (''EPP_nSTROBE_EN'', 0x0004),
       (''EPP_nACK_STAT'', 0x0002), (''EPP_BUSY_STAT'', 0x0001)],
     reg_values = [] \<rparr>"

definition R_EPP_DATA :: chip_register where
  "R_EPP_DATA = \<lparr>
     reg_at = [(''EPP_DATA_REG'', 0xC040)],
     reg_fields = [(''EPP_DATA'', 0x00FF)],
     reg_values = [] \<rparr>"

definition R_EPP_BFR_READ :: chip_register where
  "R_EPP_BFR_READ = \<lparr>
     reg_at = [(''EPP_BFR_READ_REG'', 0xC042)],
     reg_fields = [(''EPP_BFR'', 0x00FF)],
     reg_values = [] \<rparr>"

definition R_EPP_ADDR :: chip_register where
  "R_EPP_ADDR = \<lparr>
     reg_at = [(''EPP_ADDR_REG'', 0xC044)],
     reg_fields = [(''EPP_ADDR'', 0x00FF)],
     reg_values = [] \<rparr>"

definition R_IDE_MODE :: chip_register where
  "R_IDE_MODE = \<lparr>
     reg_at = [(''IDE_MODE_REG'', 0xC048)],
     reg_fields = [(''IDE_MODE_SEL'', 0x0007)],
     reg_values = [(''MODE_DIS'', 0x0007), (''MODE_PIO4'', 0x0004), (''MODE_PIO3'', 0x0003),
       (''MODE_PIO2'', 0x0002), (''MODE_PIO1'', 0x0001), (''MODE_PIO0'', 0x0000)] \<rparr>"

definition R_IDE_START_ADDR :: chip_register where
  "R_IDE_START_ADDR = \<lparr>
     reg_at = [(''IDE_START_ADDR_REG'', 0xC04A)],
     reg_fields = [],
     reg_values = [] \<rparr>"

definition R_IDE_STOP_ADDR :: chip_register where
  "R_IDE_STOP_ADDR = \<lparr>
     reg_at = [(''IDE_STOP_ADDR_REG'', 0xC04C)],
     reg_fields = [],
     reg_values = [] \<rparr>"

definition R_IDE_CTL :: chip_register where
  "R_IDE_CTL = \<lparr>
     reg_at = [(''IDE_CTL_REG'', 0xC04E)],
     reg_fields = [(''IDE_DIR_SEL'', 0x0008), (''IDE_IRQ_EN'', 0x0004), (''IDE_DONE_FLG'', 0x0002),
       (''IDE_EN'', 0x0001)],
     reg_values = [(''WR_EXT'', 0x0008), (''RD_EXT'', 0x0000)] \<rparr>"

definition R_IDE_PIO :: chip_register where
  "R_IDE_PIO = \<lparr>
     reg_at = [(''IDE_PIO_DATA_REG'', 0xC050), (''IDE_PIO_ERR_REG'', 0xC052),
       (''IDE_PIO_SCT_CNT_REG'', 0xC054), (''IDE_PIO_SCT_NUM_REG'', 0xC056),
       (''IDE_PIO_CYL_LO_REG'', 0xC058), (''IDE_PIO_CYL_HI_REG'', 0xC05A),
       (''IDE_PIO_DEV_HD_REG'', 0xC05C), (''IDE_PIO_CMD_REG'', 0xC05E),
       (''IDE_PIO_DEV_CTL_REG'', 0xC06C)],
     reg_fields = [],
     reg_values = [] \<rparr>"

definition R_MDMA_MODE :: chip_register where
  "R_MDMA_MODE = \<lparr>
     reg_at = [(''MDMA_MODE_REG'', 0xC048)],
     reg_fields = [(''MDMA_PROTOCOL_SEL'', 0x0008), (''MDMA_MODE_SEL'', 0x0007)],
     reg_values = [(''MDMA_DIS'', 0x0007), (''MDMA_16'', 0x0006), (''MDMA_8'', 0x0005)] \<rparr>"

definition R_MDMA_START_ADDR :: chip_register where
  "R_MDMA_START_ADDR = \<lparr>
     reg_at = [(''MDMA_START_ADDR_REG'', 0xC04A)],
     reg_fields = [],
     reg_values = [] \<rparr>"

definition R_MDMA_STOP_ADDR :: chip_register where
  "R_MDMA_STOP_ADDR = \<lparr>
     reg_at = [(''MDMA_STOP_ADDR_REG'', 0xC04C)],
     reg_fields = [],
     reg_values = [] \<rparr>"

definition R_MDMA_CTL :: chip_register where
  "R_MDMA_CTL = \<lparr>
     reg_at = [(''MDMA_CTL_REG'', 0xC04E)],
     reg_fields = [(''MDMA_DIR_SEL'', 0x0008), (''MDMA_IRQ_EN'', 0x0004),
       (''MDMA_DONE_FLG'', 0x0002), (''MDMA_EN'', 0x0001)],
     reg_values = [] \<rparr>"

section \<open>The serial interfaces\<close>

definition R_HSS_Ctl :: chip_register where
  "R_HSS_Ctl = \<lparr>
     reg_at = [(''HSS_Ctl_REG'', 0xC070)],
     reg_fields = [(''HSS_EN'', 0x8000), (''RTS_POL_SEL'', 0x4000), (''CTS_POL_SEL'', 0x2000),
       (''XOFF'', 0x1000), (''XOFF_EN'', 0x0800), (''CTS_EN'', 0x0400), (''RX_IRQ_EN'', 0x0200),
       (''HSS_DONE_IRQ_EN'', 0x0100), (''TX_DONE_IRQ_FLG'', 0x0080), (''RX_DONE_IRQ_FLG'', 0x0040),
       (''ONE_STOP_BIT'', 0x0020), (''HSS_TX_RDY'', 0x0010), (''PACKET_MODE_SEL'', 0x0008),
       (''RX_OVF_FLG'', 0x0004), (''RX_PKT_RDY_FLG'', 0x0002), (''RX_RDY_FLG'', 0x0001)],
     reg_values = [(''RTS_POL_LO'', 0x4000), (''RTS_POL_HI'', 0x0000), (''CTS_POL_LO'', 0x2000),
       (''CTS_POL_HI'', 0x0000)] \<rparr>"

definition R_HSS_BAUD :: chip_register where
  "R_HSS_BAUD = \<lparr>
     reg_at = [(''HSS_BAUD_REG'', 0xC072)],
     reg_fields = [(''HSS_BAUD_SEL'', 0x1FFF)],
     reg_values = [] \<rparr>"

definition R_HSS_TX_GAP :: chip_register where
  "R_HSS_TX_GAP = \<lparr>
     reg_at = [(''HSS_TX_GAP_REG'', 0xC074)],
     reg_fields = [(''TX_GAP_SEL'', 0x00FF)],
     reg_values = [] \<rparr>"

definition R_HSS_DATA :: chip_register where
  "R_HSS_DATA = \<lparr>
     reg_at = [(''HSS_DATA_REG'', 0xC076)],
     reg_fields = [(''HSS_DATA'', 0x00FF)],
     reg_values = [] \<rparr>"

definition R_HSS_RX_ADDR :: chip_register where
  "R_HSS_RX_ADDR = \<lparr>
     reg_at = [(''HSS_RX_ADDR_REG'', 0xC078)],
     reg_fields = [],
     reg_values = [] \<rparr>"

definition R_HSS_RX_CTR :: chip_register where
  "R_HSS_RX_CTR = \<lparr>
     reg_at = [(''HSS_RX_CTR_REG'', 0xC07A)],
     reg_fields = [(''HSS_RX_CTR'', 0x03FF)],
     reg_values = [] \<rparr>"

definition R_HSS_TX_ADDR :: chip_register where
  "R_HSS_TX_ADDR = \<lparr>
     reg_at = [(''HSS_TX_ADDR_REG'', 0xC07C)],
     reg_fields = [],
     reg_values = [] \<rparr>"

definition R_HSS_TX_CTR :: chip_register where
  "R_HSS_TX_CTR = \<lparr>
     reg_at = [(''HSS_TX_CTR_REG'', 0xC07E)],
     reg_fields = [(''HSS_TX_CTR'', 0x03FF)],
     reg_values = [] \<rparr>"

definition R_SPI_CFG :: chip_register where
  "R_SPI_CFG = \<lparr>
     reg_at = [(''SPI_CFG_REG'', 0xC0C8)],
     reg_fields = [(''c3WIRE_EN'', 0x8000), (''PHASE_SEL'', 0x0400), (''SCK_POL_SEL'', 0x2000),
       (''SCALE_SEL'', 0x1E00), (''MSTR_ACTIVE_EN'', 0x0080), (''MSTR_EN'', 0x0040),
       (''SS_EN'', 0x0020), (''SS_DLY_SEL'', 0x001F)],
     reg_values = [(''SPI_SCALE_1E'', 0x1E00), (''SPI_SCALE_1C'', 0x1C00),
       (''SPI_SCALE_1A'', 0x1A00), (''SPI_SCALE_18'', 0x1800), (''SPI_SCALE_16'', 0x1600),
       (''SPI_SCALE_14'', 0x1400), (''SPI_SCALE_12'', 0x1200), (''SPI_SCALE_10'', 0x1000),
       (''SPI_SCALE_0E'', 0x0E00), (''SPI_SCALE_0C'', 0x0C00), (''SPI_SCALE_0A'', 0x0A00),
       (''SPI_SCALE_08'', 0x0800), (''SPI_SCALE_06'', 0x0600), (''SPI_SCALE_04'', 0x0400),
       (''SPI_SCALE_02'', 0x0200), (''SPI_SCALE_00'', 0x0000)] \<rparr>"

definition R_SPI_CTL :: chip_register where
  "R_SPI_CTL = \<lparr>
     reg_at = [(''SPI_CTL_REG'', 0xC0CA)],
     reg_fields = [(''SCK_STROBE'', 0x8000), (''FIFO_INIT'', 0x4000), (''BYTE_MODE'', 0x2000),
       (''FULL_DUPLEX'', 0x1000), (''SS_MANUAL'', 0x0800), (''READ_EN'', 0x0400),
       (''SPI_TX_RDY'', 0x0200), (''RX_DATA_RDY'', 0x0100), (''TX_EMPTY'', 0x0080),
       (''RX_FULL'', 0x0020), (''TX_BIT_LEN'', 0x0031), (''RX_BIT_LEN'', 0x0007)],
     reg_values = [] \<rparr>"

definition R_SPI_IRQ_EN :: chip_register where
  "R_SPI_IRQ_EN = \<lparr>
     reg_at = [(''SPI_IRQ_EN_REG'', 0xC0CC)],
     reg_fields = [(''SPI_RX_IRQ_EN'', 0x0004), (''SPI_TX_IRQ_EN'', 0x0002),
       (''SPI_XFR_IRQ_EN'', 0x0001)],
     reg_values = [] \<rparr>"

definition R_SPI_STAT :: chip_register where
  "R_SPI_STAT = \<lparr>
     reg_at = [(''SPI_STAT_REG'', 0xC0CE)],
     reg_fields = [(''SPI_FIFO_ERROR_FLG'', 0x0100), (''SPI_RX_IRQ_FLG'', 0x0004),
       (''SPI_TX_IRQ_FLG'', 0x0002), (''SPI_XFR_IRQ_FLG'', 0x0001)],
     reg_values = [] \<rparr>"

definition R_SPI_IRQ_CLR :: chip_register where
  "R_SPI_IRQ_CLR = \<lparr>
     reg_at = [(''SPI_IRQ_CLR_REG'', 0xC0D0)],
     reg_fields = [(''SPI_TX_IRQ_CLR'', 0x0002), (''SPI_XFR_IRQ_CLR'', 0x0001)],
     reg_values = [] \<rparr>"

definition R_SPI_CRC_CTL :: chip_register where
  "R_SPI_CRC_CTL = \<lparr>
     reg_at = [(''SPI_CRC_CTL_REG'', 0xC0D2)],
     reg_fields = [(''CRC_MODE'', 0xC000), (''CRC_EN'', 0x2000), (''CRC_CLR'', 0x1000),
       (''RX_CRC'', 0x0800), (''ONE_IN_CRC'', 0x0400), (''ZERO_IN_CRC'', 0x0200)],
     reg_values = [(''POLYNOMIAL_3'', 0x0003), (''POLYNOMIAL_2'', 0x0002),
       (''POLYNOMIAL_1'', 0x0001), (''POLYNOMIAL_0'', 0x0000)] \<rparr>"

definition R_SPI_CRC_VALUE :: chip_register where
  "R_SPI_CRC_VALUE = \<lparr>
     reg_at = [(''SPI_CRC_VALUE_REG'', 0xC0D4)],
     reg_fields = [],
     reg_values = [] \<rparr>"

definition R_SPI_DATA :: chip_register where
  "R_SPI_DATA = \<lparr>
     reg_at = [(''SPI_DATA_REG'', 0xC0D6)],
     reg_fields = [(''SPI_DATA'', 0x00FF)],
     reg_values = [] \<rparr>"

definition R_SPI_TX_ADDR :: chip_register where
  "R_SPI_TX_ADDR = \<lparr>
     reg_at = [(''SPI_TX_ADDR_REG'', 0xC0D8)],
     reg_fields = [],
     reg_values = [] \<rparr>"

definition R_SPI_TX_CNT :: chip_register where
  "R_SPI_TX_CNT = \<lparr>
     reg_at = [(''SPI_TX_CNT_REG'', 0xC0DA)],
     reg_fields = [(''SPI_TX_CNT'', 0x07FF)],
     reg_values = [] \<rparr>"

definition R_SPI_RX_ADDR :: chip_register where
  "R_SPI_RX_ADDR = \<lparr>
     reg_at = [(''SPI_RX_ADDR_REG'', 0xC0DC)],
     reg_fields = [],
     reg_values = [] \<rparr>"

definition R_SPI_RX_CNT :: chip_register where
  "R_SPI_RX_CNT = \<lparr>
     reg_at = [(''SPI_RX_CNT_REG'', 0xC0DE)],
     reg_fields = [(''SPI_RX_CNT'', 0x07FF)],
     reg_values = [] \<rparr>"

definition R_UART_CTL :: chip_register where
  "R_UART_CTL = \<lparr>
     reg_at = [(''UART_CTL_REG'', 0xC0E0), (''UART_CNTL'', 0xC0E0)],
     reg_fields = [(''UART_SCALE_SEL'', 0x0010), (''UART_BAUD_SEL'', 0x000E), (''UART_EN'', 0x0001)],
     reg_values = [(''UART_7K2'', 0x000F), (''UART_9K6'', 0x000E), (''UART_14K4'', 0x000C),
       (''UART_19K2'', 0x000D), (''UART_28K8'', 0x000B), (''UART_38K4'', 0x000A),
       (''UART_57K6'', 0x0009), (''UART_115K2'', 0x0008)] \<rparr>"

definition R_UART_STAT :: chip_register where
  "R_UART_STAT = \<lparr>
     reg_at = [(''UART_STAT_REG'', 0xC0E2), (''UART_STATUS'', 0xC0E2)],
     reg_fields = [(''UART_RX_FULL'', 0x0002), (''UART_TX_EMPTY'', 0x0001)],
     reg_values = [] \<rparr>"

definition R_UART_DATA :: chip_register where
  "R_UART_DATA = \<lparr>
     reg_at = [(''UART_DATA_REG'', 0xC0E4), (''UART_RX_REG'', 0xC0E4), (''UART_TX_REG'', 0xC0E4)],
     reg_fields = [(''UART_DATA'', 0x00FF)],
     reg_values = [] \<rparr>"

definition R_PWM_CTL :: chip_register where
  "R_PWM_CTL = \<lparr>
     reg_at = [(''PWM_CTL_REG'', 0xC0E6)],
     reg_fields = [(''PWM_EN'', 0x8000), (''PWM_PRESCALE_SEL'', 0x0E00), (''PWM_MODE_SEL'', 0x0100),
       (''PWM3_POL_SEL'', 0x0080), (''PWM2_POL_SEL'', 0x0040), (''PWM1_POL_SEL'', 0x0020),
       (''PWM0_POL_SEL'', 0x0010), (''PWM3_EN'', 0x0008), (''PWM2_EN'', 0x0004),
       (''PWM1_EN'', 0x0002), (''PWM0_EN'', 0x0001)],
     reg_values = [(''PWM_5K9'', 0x0007), (''PWM_23K5'', 0x0006), (''PWM_93K8'', 0x0005),
       (''PWM_375K'', 0x0004), (''PWM_1M5'', 0x0003), (''PWM_6M'', 0x0002), (''PWM_24M'', 0x0001),
       (''PWM_48M'', 0x0000)] \<rparr>"

definition R_PWM_MAX_CNT :: chip_register where
  "R_PWM_MAX_CNT = \<lparr>
     reg_at = [(''PWM_MAX_CNT_REG'', 0xC0E8)],
     reg_fields = [(''PWM_MAX_CNT'', 0x03FF)],
     reg_values = [] \<rparr>"

definition R_PWMn_START :: chip_register where
  "R_PWMn_START = \<lparr>
     reg_at = [(''PWM0_START_REG'', 0xC0EA), (''PWM1_START_REG'', 0xC0EE),
       (''PWM2_START_REG'', 0xC0F2), (''PWM3_START_REG'', 0xC0F6)],
     reg_fields = [(''PWM_START_CNT'', 0x03FF)],
     reg_values = [] \<rparr>"

definition R_PWMn_STOP :: chip_register where
  "R_PWMn_STOP = \<lparr>
     reg_at = [(''PWM0_STOP_REG'', 0xC0EC), (''PWM1_STOP_REG'', 0xC0F0),
       (''PWM2_STOP_REG'', 0xC0F4), (''PWM3_STOP_REG'', 0xC0F8)],
     reg_fields = [(''PWM_STOP_CNT'', 0x03FF)],
     reg_values = [] \<rparr>"

definition R_PWM_CYCLE_CNT :: chip_register where
  "R_PWM_CYCLE_CNT = \<lparr>
     reg_at = [(''PWM_CYCLE_CNT_REG'', 0xC0FA)],
     reg_fields = [],
     reg_values = [] \<rparr>"

definition UART_STAT_alias :: "(string \<times> u16) list" where
  "UART_STAT_alias = [
     (''UART_RX_BUFF_FULL'', 0x0002)]"

section \<open>The same registers in the memory map of the chip's own software\<close>

text \<open>Addresses (\<open>ADR\<close>), offsets in a register file (\<open>AFE\<close>), numbers of bits (\<open>BIT\<close>) and
  masks (\<open>BM\<close>), positions (\<open>POS\<close>) and widths (\<open>SIZ\<close>) of wider fields.\<close>

definition HSS_memmap :: "(string \<times> u16) list" where
  "HSS_memmap = [
     (''HSS_RGN'', 0xC070), (''HSS_STS_REG'', 0xC070), (''HSS_Ctl_ADR'', 0xC070),
     (''HSS_Ctl_MSK'', 0x0000), (''HSS_Ctl_RxRst_BIT'', 0x0002), (''HSS_Ctl_RxRst_BM'', 0x0004),
     (''HSS_Ctl_PacketMode_BIT'', 0x0003), (''HSS_Ctl_PacketMode_BM'', 0x0008),
     (''HSS_Ctl_OneStop_BIT'', 0x0005), (''HSS_Ctl_OneStop_BM'', 0x0020),
     (''HSS_Ctl_RBkDoneClr_BIT'', 0x0006), (''HSS_Ctl_RBkDoneClr_BM'', 0x0040),
     (''HSS_Ctl_TBkDoneClr_BIT'', 0x0007), (''HSS_Ctl_TBkDoneClr_BM'', 0x0080),
     (''HSS_Ctl_DoneIntrEnab_BIT'', 0x0008), (''HSS_Ctl_DoneIntrEnab_BM'', 0x0100),
     (''HSS_Ctl_RxIntrEnab_BIT'', 0x0009), (''HSS_Ctl_RxIntrEnab_BM'', 0x0200),
     (''HSS_Ctl_CTSenab_BIT'', 0x000A), (''HSS_Ctl_CTSenab_BM'', 0x0400),
     (''HSS_Ctl_XOFFenab_BIT'', 0x000B), (''HSS_Ctl_XOFFenab_BM'', 0x0800),
     (''HSS_Ctl_CTSpolarity_BIT'', 0x000D), (''HSS_Ctl_CTSpolarity_BM'', 0x2000),
     (''HSS_Ctl_RTSpolarity_BIT'', 0x000E), (''HSS_Ctl_RTSpolarity_BM'', 0x4000),
     (''HSS_Ctl_Enable_BIT'', 0x000F), (''HSS_Ctl_Enable_BM'', 0x8000),
     (''HSS_Ctl_RxRdy_BIT'', 0x0000), (''HSS_Ctl_RxRdy_BM'', 0x0001),
     (''HSS_Ctl_RxPktRdy_BIT'', 0x0001), (''HSS_Ctl_RxPktRdy_BM'', 0x0002),
     (''HSS_Ctl_RxErr_BIT'', 0x0002), (''HSS_Ctl_RxErr_BM'', 0x0004),
     (''HSS_Ctl_TxRdy_BIT'', 0x0004), (''HSS_Ctl_TxRdy_BM'', 0x0010),
     (''HSS_Ctl_RBkDone_BIT'', 0x0006), (''HSS_Ctl_RBkDone_BM'', 0x0040),
     (''HSS_Ctl_TBkDone_BIT'', 0x0007), (''HSS_Ctl_TBkDone_BM'', 0x0080),
     (''HSS_Ctl_XOFFstate_BIT'', 0x000C), (''HSS_Ctl_OFFstate_BM'', 0x1000),
     (''HSS_BAUDRATE_REG'', 0xC072), (''HSS_BAUDRate_ADR'', 0xC072), (''HSS_BAUDRate_MSK'', 0x0000),
     (''HSS_BAUDRate_Rate_POS'', 0x0000), (''HSS_BAUDRate_Rate_SIZ'', 0x000D),
     (''HSS_GAP_REG'', 0xC074), (''HSS_GAP_ADR'', 0xC074), (''HSS_GAP_MSK'', 0x0000),
     (''HSS_GAP_GAP_POS'', 0x0000), (''HSS_GAP_GAP_SIZ'', 0x0010), (''HSS_RX_DATA_REG'', 0xC076),
     (''HSS_TX_DATA_REG'', 0xC076), (''HSS_Data_ADR'', 0xC076), (''HSS_Data_MSK'', 0x0000),
     (''HSS_Data_Data_POS'', 0x0000), (''HSS_Data_Data_SIZ'', 0x0008),
     (''HSS_RX_BLK_ADDR_REG'', 0xC078), (''HSS_RxBlkAddr_ADR'', 0xC078),
     (''HSS_RxBlkAddr_MSK'', 0x0000), (''HSS_RxBlkAddr_Addr_POS'', 0x0000),
     (''HSS_RxBlkAddr_Addr_SIZ'', 0x0010), (''HSS_RX_BLK_LEN_REG'', 0xC07A),
     (''HSS_RxBlkLen_ADR'', 0xC07A), (''HSS_RxBlkLen_MSK'', 0x0000), (''HSS_RxBlkLen_POS'', 0x0000),
     (''HSS_RxBlkLen_SIZ'', 0x000A), (''HSS_TX_BLK_ADDR_REG'', 0xC07C),
     (''HSS_TxBlkAddr_ADR'', 0xC07C), (''HSS_TxBlkAddr_MSK'', 0x0000),
     (''HSS_TxBlkAddr_Addr_POS'', 0x0000), (''HSS_TxBlkAddr_Addr_SIZ'', 0x0010),
     (''HSS_TX_BLK_LEN_REG'', 0xC07E), (''HSS_TxBlkLen_ADR'', 0xC07E),
     (''HSS_TxBlkLen_MSK'', 0x0000), (''HSS_TxBlkLen_POS'', 0x0000), (''HSS_TxBlkLen_SIZ'', 0x000A)]"

definition SPI_memmap_cfg :: "(string \<times> u16) list" where
  "SPI_memmap_cfg = [
     (''SPI_RGN'', 0xC0C0), (''SPI_Cfg_AFE'', 0x0008), (''SPI_Cfg_ADR'', 0xC0C8),
     (''SPI_Cfg_3WireNot4_BIT'', 0x000F), (''SPI_Cfg_3WireNot4_BM'', 0x8000),
     (''SPI_Cfg_CPHA_BIT'', 0x000E), (''SPI_Cfg_CPHA_BM'', 0x4000), (''SPI_Cfg_CPOL_BIT'', 0x000D),
     (''SPI_Cfg_CPOL_BM'', 0x2000), (''SPI_Cfg_Sel_SIZ'', 0x0004), (''SPI_Cfg_Sel_POS'', 0x0009),
     (''SPI_Cfg_Sel_250'', 0x000B), (''SPI_Cfg_Sel_250_BM'', 0x1600), (''SPI_Cfg_Sel_375'', 0x000A),
     (''SPI_Cfg_Sel_375_BM'', 0x1400), (''SPI_Cfg_Sel_500'', 0x0009),
     (''SPI_Cfg_Sel_500_BM'', 0x1200), (''SPI_Cfg_Sel_750'', 0x0008),
     (''SPI_Cfg_Sel_750_BM'', 0x1000), (''SPI_Cfg_Sel_1000'', 0x0007),
     (''SPI_Cfg_Sel_1000_BM'', 0x0E00), (''SPI_Cfg_Sel_1500'', 0x0006),
     (''SPI_Cfg_Sel_1500_BM'', 0x0C00), (''SPI_Cfg_Sel_2M'', 0x0005),
     (''SPI_Cfg_Sel_2M_BM'', 0x0A00), (''SPI_Cfg_Sel_3M'', 0x0004), (''SPI_Cfg_Sel_3M_BM'', 0x0800),
     (''SPI_Cfg_Sel_4M'', 0x0003), (''SPI_Cfg_Sel_4M_BM'', 0x0600), (''SPI_Cfg_Sel_6M'', 0x0002),
     (''SPI_Cfg_Sel_6M_BM'', 0x0400), (''SPI_Cfg_Sel_8M'', 0x0001), (''SPI_Cfg_Sel_8M_BM'', 0x0200),
     (''SPI_Cfg_Sel_12M'', 0x0000), (''SPI_Cfg_Sel_12M_BM'', 0x0000),
     (''SPI_Cfg_RedLine_BIT'', 0x0008), (''SPI_Cfg_RedLine_BM'', 0x0100),
     (''SPI_Cfg_MstrActive_BIT'', 0x0007), (''SPI_Cfg_MstrActive_BM'', 0x0080),
     (''SPI_Cfg_MstrNotSlv_BIT'', 0x0006), (''SPI_Cfg_MstrNotSlv_BM'', 0x0040),
     (''SPI_Cfg_SSEn_BIT'', 0x0005), (''SPI_Cfg_SSEn_BM'', 0x0020), (''SPI_Cfg_SSDly_SIZ'', 0x0005),
     (''SPI_Cfg_SSDly_POS'', 0x0000), (''SPI_Cfg_SSDly_Manual'', 0x0000),
     (''SPI_Cfg_SSDly_2'', 0x0002), (''SPI_Cfg_SSDly_2_BM'', 0x0002)]"

definition SPI_memmap_ctl :: "(string \<times> u16) list" where
  "SPI_memmap_ctl = [
     (''SPI_Ctl_AFE'', 0x000A), (''SPI_Ctl_ADR'', 0xC0CA), (''SPI_Ctl_SCKStrobe_BIT'', 0x000F),
     (''SPI_Ctl_SCKStrobe_BM'', 0x8000), (''SPI_Ctl_FIFOInit_BIT'', 0x000E),
     (''SPI_Ctl_FIFOInit_BM'', 0x4000), (''SPI_Ctl_ByteMode_BIT'', 0x000D),
     (''SPI_Ctl_ByteMode_BM'', 0x2000), (''SPI_Ctl_FullDuplex_BIT'', 0x000C),
     (''SPI_Ctl_FullDuplex_BM'', 0x1000), (''SPI_Ctl_SSManVal_BIT'', 0x000B),
     (''SPI_Ctl_SSManVal_BM'', 0x0800), (''SPI_Ctl_DoRead_BIT'', 0x000A),
     (''SPI_Ctl_DoRead_BM'', 0x0400), (''SPI_Ctl_TxRdy_BIT'', 0x0009),
     (''SPI_Ctl_TxRdy_BM'', 0x0200), (''SPI_Ctl_RxDatRdy_BIT'', 0x0008),
     (''SPI_Ctl_RxDatRdy_BM'', 0x0100), (''SPI_Ctl_TxEmpty_BIT'', 0x0007),
     (''SPI_Ctl_TxEmpty_BM'', 0x0080), (''SPI_Ctl_RxFull_BIT'', 0x0006),
     (''SPI_Ctl_RxFull_BM'', 0x0040), (''SPI_Ctl_TxBitLen_POS'', 0x0003),
     (''SPI_Ctl_TxBitLen_SIZ'', 0x0003), (''SPI_Ctl_TxBitLen_FullByte'', 0x0000),
     (''SPI_Ctl_TxBitLen_FullByte_BM'', 0x0000), (''SPI_Ctl_RxBitLen_POS'', 0x0000),
     (''SPI_Ctl_RxBitLen_SIZ'', 0x0003), (''SPI_Ctl_RxBitLen_FullByte'', 0x0000),
     (''SPI_Ctl_RxBitLen_FullByte_BM'', 0x0000), (''SPI_Int_XfrBk_BIT'', 0x0000),
     (''SPI_Int_Tx_BIT'', 0x0001), (''SPI_Int_Rx_BIT'', 0x0002), (''SPI_Int_FIFOErr_BIT'', 0x0007),
     (''SPI_IntEnab_AFE'', 0x000C), (''SPI_IntEnab_ADR'', 0xC0CC), (''SPI_IntEnab_Rx_BM'', 0x0004),
     (''SPI_IntEnab_Tx_BM'', 0x0002), (''SPI_IntEnab_XfrBk_BM'', 0x0001),
     (''SPI_IntVal_AFE'', 0x000E), (''SPI_IntVal_ADR'', 0xC0CE),
     (''SPI_IntVal_FIFOErr_BM'', 0x0080), (''SPI_IntVal_Rx_BM'', 0x0004),
     (''SPI_IntVal_Tx_BM'', 0x0002), (''SPI_IntVal_XfrBk_BM'', 0x0001),
     (''SPI_IntClr_AFE'', 0x0010), (''SPI_IntClr_ADR'', 0xC0D0), (''SPI_IntClr_Tx_BM'', 0x0002),
     (''SPI_IntClr_XfrBk_BM'', 0x0001)]"

definition SPI_memmap_data :: "(string \<times> u16) list" where
  "SPI_memmap_data = [
     (''SPI_CRCCtl_AFE'', 0x0012), (''SPI_CRCCtl_ADR'', 0xC0D2), (''SPI_CRCCtl_Mode_POS'', 0x000E),
     (''SPI_CRCCtl_Mode_SIZ'', 0x0002), (''SPI_CRCCtl_Mode_MMC'', 0x0000),
     (''SPI_CRCCtl_Mode_MMC_BM'', 0x0000), (''SPI_CRCCtl_Mode_CRC7'', 0x0001),
     (''SPI_CRCCtl_Mode_CRC7_BM'', 0x4000), (''SPI_CRCCtl_Mode_MS'', 0x0002),
     (''SPI_CRCCtl_Mode_MS_BM'', 0x8000), (''SPI_CRCCtl_Mode_Res'', 0x0003),
     (''SPI_CRCCtl_Mode_Res_BM'', 0xC000), (''SPI_CRCCtl_Active_BIT'', 0x000D),
     (''SPI_CRCCtl_Active_BM'', 0x2000), (''SPI_CRCCtl_Clear_BIT'', 0x000C),
     (''SPI_CRCCtl_Clear_BM'', 0x1000), (''SPI_CRCCtl_RxNotTx_BIT'', 0x000B),
     (''SPI_CRCCtl_RxNotTx_BM'', 0x0800), (''SPI_CRCCtl_OR_BIT'', 0x000A),
     (''SPI_CRCCtl_OR_BM'', 0x0400), (''SPI_CRCCtl_NAND_BIT'', 0x0009),
     (''SPI_CRCCtl_NAND_BM'', 0x0200), (''SPI_CRCVal_AFE'', 0x0014), (''SPI_CRCVal_ADR'', 0xC0D4),
     (''SPI_CRCVal_Port_POS'', 0x0000), (''SPI_CRCVal_Port_SIZ'', 0x0010),
     (''SPI_TxRxData_AFE'', 0x0016), (''SPI_TxRxData_ADR'', 0xC0D6),
     (''SPI_TxRxData_Port_POS'', 0x0000), (''SPI_TxRxData_Port_SIZ'', 0x0008),
     (''SPI_TxBlk_AFE'', 0x0018), (''SPI_TxBlk_ADR'', 0xC0D8), (''SPI_TxBlk_Base_POS'', 0x0000),
     (''SPI_TxBlk_Base_SIZ'', 0x0010), (''SPI_TxLen_AFE'', 0x001A), (''SPI_TxLen_ADR'', 0xC0DA),
     (''SPI_TxLen_Bytes_POS'', 0x0000), (''SPI_TxLen_Bytes_SIZ'', 0x0010),
     (''SPI_RxBlk_AFE'', 0x001C), (''SPI_RxBlk_ADR'', 0xC0DC), (''SPI_RxBlk_Base_POS'', 0x0000),
     (''SPI_RxBlk_Base_SIZ'', 0x0010), (''SPI_RxLen_AFE'', 0x001E), (''SPI_RxLen_ADR'', 0xC0DE),
     (''SPI_RxLen_Bytes_POS'', 0x0000), (''SPI_RxLen_Bytes_SIZ'', 0x0010)]"

definition IDE_memmap :: "(string \<times> u16) list" where
  "IDE_memmap = [
     (''IDE_RGN'', 0xC050), (''IDE_Data_ADR'', 0xC050), (''IDE_Data_MSK'', 0x0000),
     (''IDE_Data_Data_POS'', 0x0000), (''IDE_Data_Data_SIZ'', 0x0010),
     (''IDE_FeaturesStat_ADR'', 0xC052), (''IDE_FeaturesStat_MSK'', 0x0000),
     (''IDE_FeaturesStat_Data_POS'', 0x0000), (''IDE_FeaturesStat_Data_SIZ'', 0x0008),
     (''IDE_SectCount_ADR'', 0xC054), (''IDE_SectCount_MSK'', 0x0000),
     (''IDE_SectCount_Count_POS'', 0x0000), (''IDE_SectCount_Count_SIZ'', 0x0008),
     (''IDE_SectorNum_ADR'', 0xC056), (''IDE_SectorNum_MSK'', 0x0000),
     (''IDE_SectorNum_Count_POS'', 0x0000), (''IDE_SectorNum_Count_SIZ'', 0x0008),
     (''IDE_CylLow_ADR'', 0xC058), (''IDE_CylLow_MSK'', 0x0000), (''IDE_CylLow_Cyl_POS'', 0x0000),
     (''IDE_CylLow_Cyl_SIZ'', 0x0008), (''IDE_CylHigh_ADR'', 0xC05A), (''IDE_CylHigh_MSK'', 0x0000),
     (''IDE_CylHigh_Cyl_POS'', 0x0000), (''IDE_CylHigh_Cyl_SIZ'', 0x0008),
     (''IDE_DrvHead_ADR'', 0xC05C), (''IDE_DrvHead_MSK'', 0x0000),
     (''IDE_DrvHead_Reg_POS'', 0x0000), (''IDE_DrvHead_Reg_SIZ'', 0x0008),
     (''IDE_CmdStatus_ADR'', 0xC05E), (''IDE_CmdStatus_MSK'', 0x0000),
     (''IDE_CmdStatus_Reg_POS'', 0x0000), (''IDE_CmdStatus_Reg_SIZ'', 0x0008),
     (''IDE_AltStat_ADR'', 0xC06C), (''IDE_AltStat_MSK'', 0x0000),
     (''IDE_AltStat_Reg_POS'', 0x0000), (''IDE_AltStat_Reg_SIZ'', 0x0008)]"

section \<open>What the descriptions have to satisfy\<close>

definition peripherals :: "chip_register list" where
  "peripherals = [
     R_CPU_FLAGS, R_BANK, R_CPU_SPEED, R_POWER_CTL, R_BKPT, R_USB_DIAG, R_MEM_DIAG, R_PGn_MAP,
     R_DRAM_CTL, R_XMEM_CTL, R_WDT, R_TMRn, R_OTG_CTL, R_GPIO_CTL, R_GPIOn, R_EPP_CTL,
     R_EPP_DATA, R_EPP_BFR_READ, R_EPP_ADDR, R_IDE_MODE, R_IDE_START_ADDR, R_IDE_STOP_ADDR,
     R_IDE_CTL, R_IDE_PIO, R_MDMA_MODE, R_MDMA_START_ADDR, R_MDMA_STOP_ADDR, R_MDMA_CTL,
     R_HSS_Ctl, R_HSS_BAUD, R_HSS_TX_GAP, R_HSS_DATA, R_HSS_RX_ADDR, R_HSS_RX_CTR, R_HSS_TX_ADDR,
     R_HSS_TX_CTR, R_SPI_CFG, R_SPI_CTL, R_SPI_IRQ_EN, R_SPI_STAT, R_SPI_IRQ_CLR, R_SPI_CRC_CTL,
     R_SPI_CRC_VALUE, R_SPI_DATA, R_SPI_TX_ADDR, R_SPI_TX_CNT, R_SPI_RX_ADDR, R_SPI_RX_CNT,
     R_UART_CTL, R_UART_STAT, R_UART_DATA, R_PWM_CTL, R_PWM_MAX_CNT, R_PWMn_START, R_PWMn_STOP,
     R_PWM_CYCLE_CNT]"

text \<open>The fields of a register that overlap without being names of the same bits.\<close>

fun field_overlaps :: "(string \<times> u16) list \<Rightarrow> (string \<times> string) list" where
  "field_overlaps [] = []"
| "field_overlaps ((n, m) # fs) =
     map (\<lambda>(k, _). (n, k)) (filter (\<lambda>(_, v). v AND m \<noteq> 0 \<and> v \<noteq> m) fs) @ field_overlaps fs"

text \<open>The values given for a field that lie in no field of the register where they are.\<close>

definition values_outside :: "chip_register \<Rightarrow> string list" where
  "values_outside r =
     map fst (filter (\<lambda>(_, v). list_all (\<lambda>(_, m). v AND m \<noteq> v) (reg_fields r)) (reg_values r))"

text \<open>The addresses of each register as numbers, and those that belong to two registers.\<close>

definition addresses :: "chip_register list \<Rightarrow> int list list" where
  "addresses = map (map (uint \<circ> snd) \<circ> reg_at)"

fun shared_addresses :: "int list list \<Rightarrow> int list" where
  "shared_addresses [] = []"
| "shared_addresses (xs # xss) = filter (\<lambda>a. list_ex (\<lambda>ys. List.member ys a) xss) xs @ shared_addresses xss"

text \<open>Two spellings of the same bits: for a register and a table of the second description, the name of a
  mask in the one and in the other; and the name of a mask with that of a field that the second
  description gives by position and width.\<close>

type_synonym spelling = "chip_register \<times> (string \<times> u16) list \<times> (string \<times> string) list"

definition same_bits :: "spelling list" where
  "same_bits = [
     (R_HSS_Ctl, HSS_memmap, [
        (''HSS_EN'', ''HSS_Ctl_Enable_BM''), (''RTS_POL_SEL'', ''HSS_Ctl_RTSpolarity_BM''),
        (''CTS_POL_SEL'', ''HSS_Ctl_CTSpolarity_BM''), (''XOFF'', ''HSS_Ctl_OFFstate_BM''),
        (''XOFF_EN'', ''HSS_Ctl_XOFFenab_BM''), (''CTS_EN'', ''HSS_Ctl_CTSenab_BM''),
        (''RX_IRQ_EN'', ''HSS_Ctl_RxIntrEnab_BM''), (''HSS_DONE_IRQ_EN'',
        ''HSS_Ctl_DoneIntrEnab_BM''), (''TX_DONE_IRQ_FLG'', ''HSS_Ctl_TBkDone_BM''),
        (''RX_DONE_IRQ_FLG'', ''HSS_Ctl_RBkDone_BM''), (''ONE_STOP_BIT'',
        ''HSS_Ctl_OneStop_BM''), (''HSS_TX_RDY'', ''HSS_Ctl_TxRdy_BM''), (''PACKET_MODE_SEL'',
        ''HSS_Ctl_PacketMode_BM''), (''RX_OVF_FLG'', ''HSS_Ctl_RxErr_BM''), (''RX_PKT_RDY_FLG'',
        ''HSS_Ctl_RxPktRdy_BM''), (''RX_RDY_FLG'', ''HSS_Ctl_RxRdy_BM'')]),
     (R_SPI_CFG, SPI_memmap_cfg, [
        (''c3WIRE_EN'', ''SPI_Cfg_3WireNot4_BM''), (''PHASE_SEL'', ''SPI_Cfg_CPHA_BM''),
        (''SCK_POL_SEL'', ''SPI_Cfg_CPOL_BM''), (''MSTR_ACTIVE_EN'', ''SPI_Cfg_MstrActive_BM''),
        (''MSTR_EN'', ''SPI_Cfg_MstrNotSlv_BM''), (''SS_EN'', ''SPI_Cfg_SSEn_BM'')]),
     (R_SPI_CTL, SPI_memmap_ctl, [
        (''SCK_STROBE'', ''SPI_Ctl_SCKStrobe_BM''), (''FIFO_INIT'', ''SPI_Ctl_FIFOInit_BM''),
        (''BYTE_MODE'', ''SPI_Ctl_ByteMode_BM''), (''FULL_DUPLEX'', ''SPI_Ctl_FullDuplex_BM''),
        (''SS_MANUAL'', ''SPI_Ctl_SSManVal_BM''), (''READ_EN'', ''SPI_Ctl_DoRead_BM''),
        (''SPI_TX_RDY'', ''SPI_Ctl_TxRdy_BM''), (''RX_DATA_RDY'', ''SPI_Ctl_RxDatRdy_BM''),
        (''TX_EMPTY'', ''SPI_Ctl_TxEmpty_BM''), (''RX_FULL'', ''SPI_Ctl_RxFull_BM'')]),
     (R_SPI_IRQ_EN, SPI_memmap_ctl, [
        (''SPI_RX_IRQ_EN'', ''SPI_IntEnab_Rx_BM''), (''SPI_TX_IRQ_EN'', ''SPI_IntEnab_Tx_BM''),
        (''SPI_XFR_IRQ_EN'', ''SPI_IntEnab_XfrBk_BM'')]),
     (R_SPI_STAT, SPI_memmap_ctl, [
        (''SPI_FIFO_ERROR_FLG'', ''SPI_IntVal_FIFOErr_BM''), (''SPI_RX_IRQ_FLG'',
        ''SPI_IntVal_Rx_BM''), (''SPI_TX_IRQ_FLG'', ''SPI_IntVal_Tx_BM''), (''SPI_XFR_IRQ_FLG'',
        ''SPI_IntVal_XfrBk_BM'')]),
     (R_SPI_IRQ_CLR, SPI_memmap_ctl, [
        (''SPI_TX_IRQ_CLR'', ''SPI_IntClr_Tx_BM''), (''SPI_XFR_IRQ_CLR'',
        ''SPI_IntClr_XfrBk_BM'')]),
     (R_SPI_CRC_CTL, SPI_memmap_data, [
        (''CRC_EN'', ''SPI_CRCCtl_Active_BM''), (''CRC_CLR'', ''SPI_CRCCtl_Clear_BM''),
        (''RX_CRC'', ''SPI_CRCCtl_RxNotTx_BM''), (''ONE_IN_CRC'', ''SPI_CRCCtl_OR_BM''),
        (''ZERO_IN_CRC'', ''SPI_CRCCtl_NAND_BM'')])]"

definition same_field :: "spelling list" where
  "same_field = [
     (R_HSS_BAUD, HSS_memmap, [
        (''HSS_BAUD_SEL'', ''HSS_BAUDRate_Rate'')]),
     (R_HSS_TX_GAP, HSS_memmap, [
        (''TX_GAP_SEL'', ''HSS_GAP_GAP'')]),
     (R_HSS_DATA, HSS_memmap, [
        (''HSS_DATA'', ''HSS_Data_Data'')]),
     (R_HSS_RX_CTR, HSS_memmap, [
        (''HSS_RX_CTR'', ''HSS_RxBlkLen'')]),
     (R_HSS_TX_CTR, HSS_memmap, [
        (''HSS_TX_CTR'', ''HSS_TxBlkLen'')]),
     (R_SPI_CFG, SPI_memmap_cfg, [
        (''SCALE_SEL'', ''SPI_Cfg_Sel''), (''SS_DLY_SEL'', ''SPI_Cfg_SSDly'')]),
     (R_SPI_CTL, SPI_memmap_ctl, [
        (''TX_BIT_LEN'', ''SPI_Ctl_TxBitLen''), (''RX_BIT_LEN'', ''SPI_Ctl_RxBitLen'')]),
     (R_SPI_CRC_CTL, SPI_memmap_data, [
        (''CRC_MODE'', ''SPI_CRCCtl_Mode'')]),
     (R_SPI_DATA, SPI_memmap_data, [
        (''SPI_DATA'', ''SPI_TxRxData_Port'')]),
     (R_SPI_TX_CNT, SPI_memmap_data, [
        (''SPI_TX_CNT'', ''SPI_TxLen_Bytes'')]),
     (R_SPI_RX_CNT, SPI_memmap_data, [
        (''SPI_RX_CNT'', ''SPI_RxLen_Bytes'')])]"

definition bits_differ :: "spelling \<Rightarrow> (string \<times> string) list" where
  "bits_differ = (\<lambda>(r, t, ps). filter (\<lambda>(n, k). map_of (reg_fields r) n \<noteq> map_of t k) ps)"

definition field_mask :: "(string \<times> u16) list \<Rightarrow> string \<Rightarrow> u16 option" where
  "field_mask t k =
     (case map_of t (k @ ''_POS'') of None \<Rightarrow> None
      | Some p \<Rightarrow> (case map_of t (k @ ''_SIZ'') of None \<Rightarrow> None
                   | Some s \<Rightarrow> Some (push_bit (unat p) (word_of_int (2 ^ unat s - 1)))))"

definition fields_differ :: "spelling \<Rightarrow> (string \<times> string) list" where
  "fields_differ = (\<lambda>(r, t, ps). filter (\<lambda>(n, k). map_of (reg_fields r) n \<noteq> field_mask t k) ps)"

definition memmap :: "(string \<times> u16) list" where
  "memmap = HSS_memmap @ SPI_memmap_cfg @ SPI_memmap_ctl @ SPI_memmap_data @ IDE_memmap"

text \<open>A mask next to the number of its bit, and an address next to its offset in the register file.\<close>

definition bit_mask :: "(string \<times> u16) \<times> (string \<times> u16) \<Rightarrow> bool" where
  "bit_mask = (\<lambda>((n, i), (k, m)).
     if take 4 (rev n) = ''TIB_'' \<and> take 3 (rev k) = ''MB_'' then m = push_bit (unat i) 1 else True)"

definition register_offset :: "(string \<times> u16) \<times> (string \<times> u16) \<Rightarrow> bool" where
  "register_offset = (\<lambda>((n, i), (k, a)).
     if take 4 (rev n) = ''EFA_'' \<and> take 4 (rev k) = ''RDA_'' then a = 0xC0C0 + i else True)"

text \<open>The registers that the second description places in a register file.\<close>

definition memmap_addresses :: "int list" where
  "memmap_addresses = map (uint \<circ> snd) (filter (\<lambda>(n, _). take 4 (rev n) = ''RDA_'') memmap)"

lemma peripheral_overlaps:
  "concat (map (\<lambda>r. field_overlaps (reg_fields r)) peripherals) =
     [(''PHASE_SEL'', ''SCALE_SEL''), (''RX_FULL'', ''TX_BIT_LEN''), (''TX_BIT_LEN'', ''RX_BIT_LEN'')]"
  by code_simp

lemma peripheral_values:
  "concat (map values_outside peripherals) =
     [''WDT_64MS'', ''DIAG_MODE'', ''SCAN_MODE'', ''HPI_MODE'', ''POLYNOMIAL_3'', ''POLYNOMIAL_2'',
      ''POLYNOMIAL_1'', ''UART_7K2'', ''UART_19K2'', ''UART_28K8'', ''UART_57K6'', ''PWM_5K9'',
      ''PWM_23K5'', ''PWM_93K8'', ''PWM_1M5'']"
  by code_simp

lemma peripheral_addresses:
  "shared_addresses (addresses peripherals) = [0xC048, 0xC04A, 0xC04C, 0xC04E]"
  "list_all (\<lambda>a. 0xC000 \<le> a \<and> a < 0xC100 \<and> a mod 2 = 0) (concat (addresses peripherals))"
  by code_simp+

lemma memmap_bits:
  "list_all (\<lambda>t. list_all bit_mask (zip t (tl t))) [HSS_memmap, SPI_memmap_cfg, SPI_memmap_ctl, SPI_memmap_data]"
  by code_simp

lemma memmap_offsets:
  "list_all (\<lambda>t. list_all register_offset (zip t (tl t))) [SPI_memmap_cfg, SPI_memmap_ctl, SPI_memmap_data]"
  by code_simp

lemma memmap_addresses_known:
  "list_all (\<lambda>a. List.member (concat (addresses peripherals)) a) memmap_addresses"
  by code_simp

lemma spelled_bits:
  "concat (map bits_differ same_bits) =
     [(''PHASE_SEL'', ''SPI_Cfg_CPHA_BM''), (''RX_FULL'', ''SPI_Ctl_RxFull_BM''),
      (''SPI_FIFO_ERROR_FLG'', ''SPI_IntVal_FIFOErr_BM'')]"
  by code_simp

lemma spelled_fields:
  "concat (map fields_differ same_field) =
     [(''TX_GAP_SEL'', ''HSS_GAP_GAP''), (''TX_BIT_LEN'', ''SPI_Ctl_TxBitLen''),
      (''SPI_TX_CNT'', ''SPI_TxLen_Bytes''), (''SPI_RX_CNT'', ''SPI_RxLen_Bytes'')]"
  by code_simp

text \<open>The registers of the chip's peripherals: all lie at even addresses of the control page, and two
  registers share an address only where the disk interface and the memory transfer unit are one; the
  fields of a register do not overlap but for three pairs, all in the two control registers of
  the synchronous serial port; a mask of the header's second description is the bit whose number it
  gives, and an address of that port its base and offset; and the two descriptions give the same bits
  to the same flags with three exceptions and the same masks to the same fields with four.\<close>
theorem peripheral_map:
  "list_all (\<lambda>a. 0xC000 \<le> a \<and> a < 0xC100 \<and> a mod 2 = 0) (concat (addresses peripherals)) \<and>
   shared_addresses (addresses peripherals) = [0xC048, 0xC04A, 0xC04C, 0xC04E] \<and>
   concat (map (\<lambda>r. field_overlaps (reg_fields r)) peripherals) =
     [(''PHASE_SEL'', ''SCALE_SEL''), (''RX_FULL'', ''TX_BIT_LEN''), (''TX_BIT_LEN'', ''RX_BIT_LEN'')] \<and>
   list_all (\<lambda>t. list_all bit_mask (zip t (tl t))) [HSS_memmap, SPI_memmap_cfg, SPI_memmap_ctl, SPI_memmap_data] \<and>
   list_all (\<lambda>t. list_all register_offset (zip t (tl t))) [SPI_memmap_cfg, SPI_memmap_ctl, SPI_memmap_data] \<and>
   concat (map bits_differ same_bits) =
     [(''PHASE_SEL'', ''SPI_Cfg_CPHA_BM''), (''RX_FULL'', ''SPI_Ctl_RxFull_BM''),
      (''SPI_FIFO_ERROR_FLG'', ''SPI_IntVal_FIFOErr_BM'')] \<and>
   concat (map fields_differ same_field) =
     [(''TX_GAP_SEL'', ''HSS_GAP_GAP''), (''TX_BIT_LEN'', ''SPI_Ctl_TxBitLen''),
      (''SPI_TX_CNT'', ''SPI_TxLen_Bytes''), (''SPI_RX_CNT'', ''SPI_RxLen_Bytes'')]"
  using peripheral_addresses peripheral_overlaps memmap_bits memmap_offsets spelled_bits spelled_fields by blast

end
