(* ===== verification/Chip_Usb.thy ===== *)
theory Chip_Usb
  imports Chip_Tables Td_List
begin

text \<open>
  The vocabulary of the USB transactions in cy7c67200.h, lcp_cmd.h and lcp_data.h: three
  descriptions of the registers of the serial interface engines, the requests and descriptors of the
  USB specification, and the protocol between the processor and the chip's control program. The
  theorems say where the descriptions agree, and that the requests the program makes are spelled
  in this vocabulary.
\<close>

section \<open>The descriptions at the head of the header\<close>

text \<open>A first description of the registers of the serial interface engines: a macro with an argument
  gives its bit when the argument is not zero.\<close>

definition ENDPOINT_CTL_macros :: "(string \<times> u16) list" where
  "ENDPOINT_CTL_macros = [
     (''DEVICE_ENDPOINTn_ARM_EN'', 0x0001), (''DEVICE_ENDPOINTn_Enable'', 0x0002),
     (''DEVICE_ENDPOINTn_Direction_Selection'', 0x0004), (''DEVICE_ENDPOINTn_NAK_INT_EN'', 0x0008),
     (''DEVICE_ENDPOINTn_ISO_EN'', 0x0010), (''DEVICE_ENDPOINTn_Stall_EN'', 0x0020),
     (''DEVICE_ENDPOINTn_Seq_Sel'', 0x0040), (''DEVICE_ENDPOINT0_Inout_Ignore'', 0x0080)]"

definition ENDPOINT_STAT_macros :: "(string \<times> u16) list" where
  "ENDPOINT_STAT_macros = [
     (''USB_DEVICE_ENDPOINTn_Status_REG'', 0x0206), (''DEVICE_ENDPOINTn_ACK_FLAG'', 0x0001),
     (''DEVICE_ENDPOINTn_Error_FLAG'', 0x0002), (''DEVICE_ENDPOINTn_Timeout_FLAG'', 0x0004),
     (''DEVICE_ENDPOINTn_Sequence_FLAG'', 0x0008), (''DEVICE_ENDPOINTn_Setup_FLAG'', 0x0010),
     (''DEVICE_ENDPOINTn_Length_Exception_FLAG'', 0x0020), (''DEVICE_ENDPOINTn_NAK_FLAG'', 0x0040),
     (''DEVICE_ENDPOINTn_Stall_FLAG'', 0x0080), (''DEVICE_ENDPOINTn_IN_Exception_FLAG'', 0x0100),
     (''DEVICE_ENDPOINTn_OUT_Exception_FLAG'', 0x0200),
     (''DEVICE_ENDPOINTn_Underflow_FLAG'', 0x0400), (''DEVICE_ENDPOINTn_Overflow_FLAG'', 0x0800)]"

definition DEVICE_INT_EN_macros :: "(string \<times> u16) list" where
  "DEVICE_INT_EN_macros = [
     (''USB_DEVICE_INT_EN_REG'', 0xC08C), (''DEVICE_EPO_INT_EN'', 0x0001),
     (''DEVICE_EP1_INT_EN'', 0x0002), (''DEVICE_EP2_INT_EN'', 0x0004),
     (''DEVICE_EP3_INT_EN'', 0x0008), (''DEVICE_EP4_INT_EN'', 0x0010),
     (''DEVICE_EP5_INT_EN'', 0x0020), (''DEVICE_EP6_INT_EN'', 0x0040),
     (''DEVICE_EP7_INT_EN'', 0x0080), (''DEVICE_USB_ResetDetect_INT_EN'', 0x0100),
     (''DEVICE_SOF_EOP_INT_EN'', 0x0200), (''DEVICE_SOF_EOP_Timeout_INT_EN'', 0x0800),
     (''DEVICE_ID_INT_EN'', 0x4000), (''DEVICE_VBUS_INT_EN'', 0x8000)]"

definition DEVICE_STAT_macros :: "(string \<times> u16) list" where
  "DEVICE_STAT_macros = [
     (''USB_DEVICE_Address_REG'', 0xC08E), (''USB_DEVICEn_Status_REG'', 0xC090),
     (''DEVICE_EP0_INT_Flag'', 0x0001), (''DEVICE_EP1_INT_Flag'', 0x0002),
     (''DEVICE_EP2_INT_Flag'', 0x0004), (''DEVICE_EP3_INT_Flag'', 0x0008),
     (''DEVICE_EP4_INT_Flag'', 0x0010), (''DEVICE_EP5_INT_Flag'', 0x0020),
     (''DEVICE_EP6_INT_Flag'', 0x0040), (''DEVICE_EP7_INT_Flag'', 0x0080),
     (''DEVICE_Reset_INT_Flag'', 0x0100), (''DEVICE_SOF_EOP_INT_Flag'', 0x0200),
     (''DEVICE_OTG_ID_INT_Flag'', 0x4000), (''DEVICE_VBUS_INT_Flag'', 0x8000),
     (''USB_DEVICEn_FrameNum_REG'', 0xC092), (''DEVICE_FrameNum'', 0x07FF),
     (''DEVICE_SOF_EOP_Timeout_INT_Count'', 0x7000), (''DEVICE_SOF_EOP_INT_Flag1'', 0x8000),
     (''DEVICE_SOF_EOP_COUNT_REG'', 0x3FFF)]"

definition HOST_macros :: "(string \<times> u16) list" where
  "HOST_macros = [
     (''USB_HOSTn_CTL_REG'', 0xC0A0), (''HOST_ARM_EN'', 0x0001), (''HOST_ISO_EN'', 0x0010),
     (''HOST_SYN_EN'', 0x0020), (''HOST_SEQ_SEL'', 0x0040), (''HOST_PRE_EN'', 0x0080),
     (''USB_HOSTn_Address_REG'', 0xC0A2), (''USB_HOSTn_Count_REG'', 0xC0A4),
     (''HOST_COUNT_MASK'', 0x03FF), (''USB_HOSTn_PID_REG'', 0xC0A6),
     (''HOST_ENDPOINT_SEL'', 0x000F), (''HOST_PID_SEL'', 0x00F0),
     (''USB_HOSTn_Count_Result_REG'', 0xC0A8), (''HOST_Count_Result_MASK'', 0xFFFF),
     (''USB_HOSTn_Device_Address_REG'', 0xC0A8), (''HOST_Device_Address_MASK'', 0x007F),
     (''USB_HOSTn_INT_EN_REG'', 0xC0AC), (''HOST_DONE_INT_EN'', 0x0001),
     (''HOST_CON_CHANGE_EN'', 0x0010), (''HOST_WAKE_INT_EN'', 0x0040),
     (''HOST_SOF_EOP_INT_EN'', 0x0200), (''HOST_OTG_ID_INT_EN'', 0x4000),
     (''HOST_VBUS_INT_EN'', 0x8000)]"

definition HOST_STAT_macros :: "(string \<times> u16) list" where
  "HOST_STAT_macros = [
     (''USB_HOSTn_STATUS_REG'', 0xC0B0), (''HOST_DONE_INT_FLAG'', 0x0001),
     (''HOST_SE0_FLAG'', 0x0002), (''HOST_CONNECT_CHANGE_INT_FLAG'', 0x0010),
     (''HOST_WAKE_INT_FLAG'', 0x0040), (''HOST_SOF_EOP_INT_FLAG'', 0x0200),
     (''HOST_OTG_ID_INT_FLAG'', 0x4000), (''HOST_VBUS_INT_FLAG'', 0x8000),
     (''USB_HOSTn_SOF_EOP_COUNT_REG'', 0xC0B2), (''HOST_SOF_EOP_COUNT_MASK'', 0x3FFF),
     (''USB_HOSTn_SOF_EOP_COUNT_REG1'', 0xC0B4), (''HOST_SOF_EOP_COUNT_MASK'', 0x3FFF),
     (''USB_HOSTn_FRAME_COUNT_REG1'', 0xC0B6), (''HOST_FRAME_COUNT_MASK'', 0x07FF)]"

definition HPI_macros :: "(string \<times> u16) list" where
  "HPI_macros = [
     (''HPI_BreakPoint_REG'', 0x0140), (''HPI_INT_ROUTING_REG'', 0x0142), (''HPI_SWAP_EN'', 0x0000),
     (''HPI_ROUTE_EN'', 0xFECE), (''HPI_SIEmsg1_REG'', 0x0144), (''HPI_SIEmsg2_REG'', 0x0148),
     (''HPI_SIEmsg_MASK'', 0xFFFF), (''HPI_Mailbox_REG'', 0xC0C6), (''HPI_Mailbox_MASK'', 0xFFFF)]"

definition HPI_STATUS_macros :: "(string \<times> u16) list" where
  "HPI_STATUS_macros = [
     (''HPI_STATUS_Mailbox_Out_FLAG'', 0x0001), (''HPI_STATUS_RESET1_FLAG'', 0x0002),
     (''HPI_STATUS_DONE1_FLAG'', 0x0004), (''HPI_STATUS_DONE2_FLAG'', 0x0008),
     (''HPI_STATUS_SIE1msg_FLAG'', 0x0010), (''HPI_STATUS_SIE2msg_FLAG'', 0x0020),
     (''HPI_STATUS_Resume1_FLAG'', 0x0040), (''HPI_STATUS_Resume2_FLAG'', 0x0080),
     (''HPI_STATUS_Mailbox_In_FLAG'', 0x0100), (''HPI_STATUS_SOF_EOP1_FLAG'', 0x0400),
     (''HPI_STATUS_SOF_EOP2_FLAG'', 0x1000), (''HPI_STATUS_SOF_OTG_ID_FLAG'', 0x4000),
     (''HPI_STATUS_VBUS_FLAG'', 0x8000)]"

section \<open>The registers of the data sheet\<close>

definition USB_MODE_values :: "(string \<times> u16) list" where
  "USB_MODE_values = [
     (''HOST_MODE'', 0x0200), (''DEVICE_MODE'', 0x0000), (''LOW_SPEED'', 0xFFFF),
     (''FULL_SPEED'', 0x0000), (''B_SPEED_LOW'', 0x0800), (''B_SPEED_FULL'', 0x0000),
     (''A_SPEED_LOW'', 0x0400), (''A_SPEED_FULL'', 0x0000), (''FORCE_K'', 0x0078),
     (''FORCE_SE0'', 0x0050), (''FORCE_J'', 0x0028), (''FORCE_NORMAL'', 0x0000),
     (''A_FORCE_K'', 0x0018), (''A_FORCE_SE0'', 0x0010), (''A_FORCE_J'', 0x0008),
     (''A_FORCE_NORMAL'', 0x0000), (''B_FORCE_K'', 0x0060), (''B_FORCE_SE0'', 0x0040),
     (''B_FORCE_J'', 0x0020), (''B_FORCE_NORMAL'', 0x0000)]"

definition HOST_CTL_fields :: "(string \<times> u16) list" where
  "HOST_CTL_fields = [
     (''PREAMBLE_EN'', 0x0080), (''SEQ_SEL'', 0x0040), (''SYNC_EN'', 0x0020), (''ISO_EN'', 0x0010),
     (''TIMEOUT_SEL'', 0x0008), (''DIR_SEL'', 0x0004), (''EN'', 0x0002), (''ARM_EN'', 0x0001),
     (''BSY_FLG'', 0x0001)]"

definition HOST_CTL_bits :: "(string \<times> u16) list" where
  "HOST_CTL_bits = [
     (''bmHOST_HCTL_ARM'', 0x0001), (''bmHOST_HCTL_ISOCH'', 0x0010),
     (''bmHOST_HCTL_AFTERSOF'', 0x0020), (''bmHOST_HCTL_DT'', 0x0040),
     (''bmHOST_HCTL_PREAMBLE'', 0x0080)]"

definition HOST_CNT_fields :: "(string \<times> u16) list" where
  "HOST_CNT_fields = [
     (''PORT_SEL'', 0x4000), (''HOST_CNT'', 0x03FF), (''bmHOST_PORT_SEL'', 0x4000)]"

definition HOST_PID_bits :: "(string \<times> u16) list" where
  "HOST_PID_bits = [
     (''bmHOST_STATMASK_ACK'', 0x0001), (''bmHOST_STATMASK_ERROR'', 0x0002),
     (''bmHOST_STATMASK_TMOUT'', 0x0004), (''bmHOST_STATMASK_SEQ'', 0x0008),
     (''bmHOST_STATMASK_SETUP'', 0x0010), (''bmHOST_STATMASK_OVF'', 0x0020),
     (''bmHOST_STATMASK_NAK'', 0x0040), (''bmHOST_STATMASK_STALL'', 0x0080)]"

definition HOST_PID_fields :: "(string \<times> u16) list" where
  "HOST_PID_fields = [
     (''PID_SEL'', 0x00F0), (''EP_SEL'', 0x000F)]"

definition PID_values :: "(string \<times> u16) list" where
  "PID_values = [
     (''SETUP_PID'', 0x000D), (''IN_PID'', 0x0009), (''OUT_PID'', 0x0001), (''SOF_PID'', 0x0005),
     (''PRE_PID'', 0x000C), (''NAK_PID'', 0x000A), (''STALL_PID'', 0x000E), (''DATA0_PID'', 0x0003),
     (''DATA1_PID'', 0x000B)]"

definition LYBERTY_values :: "(string \<times> u16) list" where
  "LYBERTY_values = [
     (''cPortA'', 0x0000), (''cPortB'', 0x0001), (''cPortC'', 0x0002), (''cPortD'', 0x0003),
     (''cPID_SETUP'', 0x000D), (''cPID_IN'', 0x0009), (''cPID_OUT'', 0x0001),
     (''cPID_SOF'', 0x0005), (''cPID_PRE'', 0x000C), (''cPID_NAK'', 0x000A),
     (''cPID_STALL'', 0x000E), (''cPID_DATA0'', 0x0003), (''cPID_DATA1'', 0x000B),
     (''cPID_ACK'', 0x0002)]"

definition HOST_EP_STAT_fields :: "(string \<times> u16) list" where
  "HOST_EP_STAT_fields = [
     (''STALL_FLG'', 0x0080), (''NAK_FLG'', 0x0040), (''OVERFLOW_FLG'', 0x0020),
     (''SEQ_STAT'', 0x0008), (''TIMEOUT_FLG'', 0x0004), (''ERROR_FLG'', 0x0002),
     (''ACK_FLG'', 0x0001)]"

definition DEV_IRQ_EN_fields :: "(string \<times> u16) list" where
  "DEV_IRQ_EN_fields = [
     (''WAKE_IRQ_EN'', 0x0400), (''RST_IRQ_EN'', 0x0100), (''EP7_IRQ_EN'', 0x0080),
     (''EP6_IRQ_EN'', 0x0040), (''EP5_IRQ_EN'', 0x0020), (''EP4_IRQ_EN'', 0x0010),
     (''EP3_IRQ_EN'', 0x0008), (''EP2_IRQ_EN'', 0x0004), (''EP1_IRQ_EN'', 0x0002),
     (''EP0_IRQ_EN'', 0x0001)]"

definition DEV_STAT_fields :: "(string \<times> u16) list" where
  "DEV_STAT_fields = [
     (''WAKE_IRQ_FLG'', 0x0400), (''RST_IRQ_FLG'', 0x0100), (''EP7_IRQ_FLG'', 0x0080),
     (''EP6_IRQ_FLG'', 0x0040), (''EP5_IRQ_FLG'', 0x0020), (''EP4_IRQ_FLG'', 0x0010),
     (''EP3_IRQ_FLG'', 0x0008), (''EP2_IRQ_FLG'', 0x0004), (''EP1_IRQ_FLG'', 0x0002),
     (''EP0_IRQ_FLG'', 0x0001)]"

definition HPI_STAT_fields :: "(string \<times> u16) list" where
  "HPI_STAT_fields = [
     (''VBUS_FLG'', 0x8000), (''ID_FLG'', 0x4000), (''SOFEOP2_FLG'', 0x1000),
     (''SOFEOP1_FLG'', 0x0400), (''RST2_FLG'', 0x0200), (''MBX_IN_FLG'', 0x0100),
     (''RESUME2_FLG'', 0x0080), (''RESUME1_FLG'', 0x0040), (''DONE2_FLG'', 0x0008),
     (''DONE1_FLG'', 0x0004), (''RST1_FLG'', 0x0002), (''MBX_OUT_FLG'', 0x0001)]"

definition HPI_STAT_aliases :: "(string \<times> u16) list" where
  "HPI_STAT_aliases = [
     (''HOST2_SOF_EOP_FLG'', 0x1000), (''HOST1_SOF_EOP_FLG'', 0x0400),
     (''DEV2_SOF_EOP_FLG'', 0x1000), (''DEV1_SOF_EOP_FLG'', 0x0400), (''HOST2_RST_FLG'', 0x0200),
     (''HOST1_RST_FLG'', 0x0002), (''DEV2_RST_FLG'', 0x0200), (''DEV1_RST_FLG'', 0x0002),
     (''HOST2_RESUME_FLG'', 0x0080), (''HOST1_RESUME_FLG'', 0x0040), (''DEV2_RESUME_FLG'', 0x0080),
     (''DEV1_RESUME_FLG'', 0x0040), (''HOST2_DONE_FLG'', 0x0008), (''HOST1_DONE_FLG'', 0x0004),
     (''DEV2_DONE_FLG'', 0x0008), (''DEV1_DONE_FLG'', 0x0004)]"

definition HPI_DATA_port :: "(string \<times> u16) list" where
  "HPI_DATA_port = [
     (''HPI_DATA_PORT'', 0x0000)]"

definition HPI_ADDR_port :: "(string \<times> u16) list" where
  "HPI_ADDR_port = [
     (''HPI_ADDR_PORT'', 0x0002)]"

definition HPI_MBX_port :: "(string \<times> u16) list" where
  "HPI_MBX_port = [
     (''HPI_MBX_PORT'', 0x0001)]"

definition HPI_STAT_port :: "(string \<times> u16) list" where
  "HPI_STAT_port = [
     (''HPI_STAT_PORT'', 0x0003)]"

section \<open>The header of the slave driver\<close>

definition SIE_offsets :: "(string \<times> u16) list" where
  "SIE_offsets = [
     (''O_SIE_CTRL0'', 0x0000), (''O_SIE_BASE'', 0x0002), (''O_SIE_LENGTH'', 0x0004),
     (''O_SIE_PORT_SEL'', 0x0004), (''O_SIE_PID'', 0x0006), (''O_SIE_CTRL5'', 0x000A),
     (''O_SIE_INT_EN'', 0x000C), (''O_SIE_USB_ADDR'', 0x000E), (''O_SIE_INT_STATUS'', 0x0010),
     (''O_SIE_SOF_LO'', 0x0012), (''O_SIE_PORT_SPD_SEL'', 0x0012), (''O_SIE_SOF_HI'', 0x0014)]"

definition EP_banks :: "(string \<times> u16) list" where
  "EP_banks = [
     (''O_EP_BANK'', 0x0010), (''NUM_EP_PER_SIE'', 0x0008), (''O_SIE1_EP_BASE'', 0x0000),
     (''O_SIE2_EP_BASE'', 0x0080), (''SIE_EP_BASE'', 0x0200), (''SIE1_EP_BASE'', 0x0200),
     (''SIE2_EP_BASE'', 0x0280), (''O_EP0_BANK'', 0x0000), (''O_EP1_BANK'', 0x0010),
     (''O_EP2_BANK'', 0x0020), (''O_EP3_BANK'', 0x0030), (''O_EP4_BANK'', 0x0040),
     (''O_EP5_BANK'', 0x0050), (''O_EP6_BANK'', 0x0060), (''O_EP7_BANK'', 0x0070)]"

definition SIE1_EP_bases :: "(string \<times> u16) list" where
  "SIE1_EP_bases = [
     (''SIE1_EP0_BASE'', 0x0200), (''SIE1_EP1_BASE'', 0x0210), (''SIE1_EP2_BASE'', 0x0220),
     (''SIE1_EP3_BASE'', 0x0230), (''SIE1_EP4_BASE'', 0x0240), (''SIE1_EP5_BASE'', 0x0250),
     (''SIE1_EP6_BASE'', 0x0260), (''SIE1_EP7_BASE'', 0x0270)]"

definition SIE2_EP_bases :: "(string \<times> u16) list" where
  "SIE2_EP_bases = [
     (''SIE2_EP0_BASE'', 0x0280), (''SIE2_EP1_BASE'', 0x0290), (''SIE2_EP2_BASE'', 0x02A0),
     (''SIE2_EP3_BASE'', 0x02B0), (''SIE2_EP4_BASE'', 0x02C0), (''SIE2_EP5_BASE'', 0x02D0),
     (''SIE2_EP6_BASE'', 0x02E0), (''SIE2_EP7_BASE'', 0x02F0)]"

definition EP_offsets :: "(string \<times> u16) list" where
  "EP_offsets = [
     (''O_EP_CONTROL'', 0x0000), (''O_EP_BASE_ADDR'', 0x0002), (''O_EP_BASE_LENGTH'', 0x0004),
     (''O_EP_PACKET_STAT'', 0x0006), (''O_EP_XFER_COUNT'', 0x0008), (''O_EP_MAX_BYTES'', 0x000A),
     (''O_EP_GF_BYTES_LEFT'', 0x000C), (''O_EP_P_GF'', 0x000E)]"

definition EP_CTRL_bits :: "(string \<times> u16) list" where
  "EP_CTRL_bits = [
     (''bmEP_CTRL_STICKY'', 0x0080), (''bmEP_CTRL_DATA1'', 0x0040), (''bmEP_CTRL_STALL'', 0x0020),
     (''bmEP_CTRL_ISO'', 0x0010), (''bmEP_CTRL_NDS_B'', 0x0008), (''bmEP_CTRL_DIR_IN'', 0x0004),
     (''bmEP_CTRL_ENB'', 0x0002), (''bmEP_CTRL_ARM'', 0x0001), (''bmEP_CTRL_EP'', 0x0070),
     (''EP_CTRL_OUT'', 0x0000)]"

definition EP_PSR_bits :: "(string \<times> u16) list" where
  "EP_PSR_bits = [
     (''bmEP_PSR_ACK'', 0x0001), (''bmEP_PSR_ERR'', 0x0002), (''bmEP_PSR_TO'', 0x0004),
     (''bmEP_PSR_DAT1'', 0x0008), (''bmEP_PSR_SETUP'', 0x0010), (''bmEP_PSR_OVERFLOW'', 0x0020),
     (''bmEP_PSR_NAK'', 0x0040), (''bmEP_PSR_STALL'', 0x0080), (''bmEP_PSR_IN_ERR'', 0x0100),
     (''bmEP_PSR_OUT_ERR'', 0x0200)]"

definition ISR_bits :: "(string \<times> u16) list" where
  "ISR_bits = [
     (''bmISR_EP0'', 0x0001), (''bmISR_EP1'', 0x0002), (''bmISR_EP2'', 0x0004),
     (''bmISR_EP3'', 0x0008), (''bmISR_EP4'', 0x0010), (''bmISR_EP5'', 0x0020),
     (''bmISR_EP6'', 0x0040), (''bmISR_EP7'', 0x0080), (''bmISR_USB_RESET'', 0x0100),
     (''bmISR_SOF'', 0x0200), (''bmISR_WAKEUP'', 0x0400), (''bmISR_USBA'', 0x0001),
     (''bmISR_ALL'', 0x0F6F)]"

definition CTRL_bits :: "(string \<times> u16) list" where
  "CTRL_bits = [
     (''bmCTRL_USB_ENABLE'', 0x0001), (''bmCTRL_SUSPEND'', 0x0004), (''bmCTRL_STANDBY'', 0x0040),
     (''bmCTRL_PULLUP_AC'', 0x0080), (''bmCTRL_PULLUP_BD'', 0x0100), (''bmCTRL_HOST_MODE'', 0x0200),
     (''bmCTRL_PORTAC_LOWSPD'', 0x0400), (''bmCTRL_PORTBD_LOWSPD'', 0x0800),
     (''CTRL_SLAVE_MODE'', 0x0000), (''bmCTRL_FORCE_NORMAL'', 0x0000),
     (''bmCTRL_FORCE_SEO'', 0x0010), (''bmCTRL_FORCE_K'', 0x0018), (''bmCTRL_FORCE_J'', 0x0008),
     (''bmPSPD_LOW_SPEED_AC'', 0x4000), (''bmPSPD_LOW_SPEED_BD'', 0x8000),
     (''PSPD_FULL_SPEED'', 0x0000), (''bmPSEL_BD'', 0x4000), (''PSEL_AC'', 0x0000),
     (''SUSB_NUM_EPS_ALL'', 0x0010), (''SUSB_NUM_EPS_PER_SIE'', 0x0008)]"

text \<open>The requests and descriptors of the USB specification.\<close>

definition device_requests :: "(string \<times> u16) list" where
  "device_requests = [
     (''DR_GET_STATUS'', 0x0000), (''DR_CLEAR_FEATURE'', 0x0001), (''DR_SET_FEATURE'', 0x0003),
     (''DR_SET_ADDRESS'', 0x0005), (''DR_GET_DESCRIPTOR'', 0x0006), (''DR_SET_DESCRIPTOR'', 0x0007),
     (''DR_GET_CONFIG'', 0x0008), (''DR_SET_CONFIG'', 0x0009), (''DR_GET_INTERFACE'', 0x0010),
     (''DR_SET_INTERFACE'', 0x0011)]"

definition request_offsets :: "(string \<times> u16) list" where
  "request_offsets = [
     (''O_DR_REQTYPE'', 0x0000), (''O_DR_REQ'', 0x0001), (''O_DR_VALUE'', 0x0002),
     (''O_DR_VALUE_LOBYTE'', 0x0002), (''O_DR_VALUE_HIBYTE'', 0x0003), (''O_DR_INDEX'', 0x0004),
     (''O_DR_LEN'', 0x0006)]"

definition descriptor_types :: "(string \<times> u16) list" where
  "descriptor_types = [
     (''DEVICE'', 0x0001), (''CONFIGURATION'', 0x0002), (''STRING'', 0x0003),
     (''INTERFACE'', 0x0004), (''ENDPOINT'', 0x0005)]"

definition request_types :: "(string \<times> u16) list" where
  "request_types = [
     (''bmRT_DEVICE2HOST'', 0x0080), (''bmRT_VENDOR_REQ'', 0x0040), (''bmRT_CLASS_REQ'', 0x0020),
     (''bmRT_INTERFACE'', 0x0001), (''bmRT_ENDPOINT'', 0x0002), (''bmRT_RECIPIENT_BITS'', 0x000F),
     (''RT_DEVICE'', 0x0000)]"

definition endpoint_types :: "(string \<times> u16) list" where
  "endpoint_types = [
     (''EP_TYPE_CONTROL'', 0x0000), (''EP_TYPE_ISO'', 0x0001), (''EP_TYPE_BULK'', 0x0002),
     (''EP_TYPE_INT'', 0x0003), (''EP0_BUFFER_LEN'', 0x0040), (''EP1_BUFFER_LEN'', 0x0040),
     (''EP2_BUFFER_LEN'', 0x0040)]"

definition slave_errors :: "(string \<times> u16) list" where
  "slave_errors = [
     (''SUSB_ERR_NONE'', 0x0000), (''SUSB_ERR_OUT_OF_RANGE'', 0x0001),
     (''SUSB_ERR_WRONG_DIR'', 0x0002), (''SUSB_ERR_NULL_FRAME'', 0x0003),
     (''SUSB_ERR_BAD_TRANS_TYPE'', 0x0004), (''SUSB_ERR_OVERFLOW'', 0x0005),
     (''SUSB_ERR_SETUP_TERMINATION'', 0x0006), (''SUSB_ERR_EP_Q_FULL'', 0x0007),
     (''SUSB_ERR_EP_STALLED'', 0x0008), (''SUSB_ERR_EP_NOT_ENABLED'', 0x0009),
     (''SUSB_ERR_BAD_STATE_REQ'', 0x000A), (''bmGENEP_REGS_LOADED'', 0x8000)]"

definition device_descriptor :: "(string \<times> u16) list" where
  "device_descriptor = [
     (''O_DD_LENGTH'', 0x0000), (''O_DD_TYPE'', 0x0001), (''O_DD_USB_VERSION'', 0x0002),
     (''O_DD_CLASS'', 0x0004), (''O_DD_SUBCLASS'', 0x0005), (''O_DD_PROTOCOL'', 0x0006),
     (''O_DD_EP0_MAX_BYTES'', 0x0007), (''O_DD_VID'', 0x0008), (''O_DD_PID'', 0x000A),
     (''O_DD_DEVICE_VERSION'', 0x000C), (''O_DD_MFR_STRING_IDX'', 0x000E),
     (''O_DD_PRODUCT_STRING_IDX'', 0x000F), (''O_DD_SN'', 0x0010), (''O_DD_NUM_CONFIGS'', 0x0011)]"

definition config_descriptor :: "(string \<times> u16) list" where
  "config_descriptor = [
     (''O_CD_LENGTH'', 0x0000), (''O_CD_TYPE'', 0x0001), (''O_CD_TOTAL_LENGTH'', 0x0002),
     (''O_CD_NUM_IFS'', 0x0004), (''O_CD_CONFIG_NUM'', 0x0005), (''O_CD_STRING_IDX'', 0x0006),
     (''O_CD_ATTRIBUTES'', 0x0007), (''O_CD_MAX_POWER'', 0x0008)]"

definition config_attributes :: "(string \<times> u16) list" where
  "config_attributes = [
     (''bmCDATTR_RSVD'', 0x001F), (''bmCDATTR_RWAKEUP'', 0x0020), (''bmCDATTR_SELF_PWR'', 0x0040),
     (''bmCDATTR_BUS_PWR'', 0x0080)]"

definition interface_descriptor :: "(string \<times> u16) list" where
  "interface_descriptor = [
     (''O_ID_LENGTH'', 0x0000), (''O_ID_TYPE'', 0x0001), (''O_ID_IF_NUM'', 0x0002),
     (''O_ID_ALT_SETTING'', 0x0003), (''O_ID_NUM_EPS'', 0x0004), (''O_ID_IF_CLASS'', 0x0005),
     (''O_ID_IF_SUBCLASS'', 0x0006), (''O_ID_IF_PROTO'', 0x0007), (''O_ID_STRING_IDX'', 0x0008)]"

definition endpoint_descriptor :: "(string \<times> u16) list" where
  "endpoint_descriptor = [
     (''O_ED_LENGTH'', 0x0000), (''O_ED_TYPE'', 0x0001), (''O_ED_ADDRESS'', 0x0002),
     (''O_ED_ATTRIBUTES'', 0x0003), (''O_ED_MAX_BYTES'', 0x0004), (''O_ED_ITERVAL'', 0x0006),
     (''O_SD_LENGTH'', 0x0000), (''O_SD_TYPE'', 0x0001)]"

definition endpoint_address_bits :: "(string \<times> u16) list" where
  "endpoint_address_bits = [
     (''bmEDADDR_EP_NUM'', 0x0007), (''bmEDADDR_UNUSED'', 0x0070), (''bmEDADDR_DIR_IN'', 0x0080),
     (''bmEDATTR_CONTROL'', 0x0000), (''bmEDATTR_ISO'', 0x0001), (''bmEDATTR_BULK'', 0x0010),
     (''bmEDATTR_INT'', 0x0011), (''bmEDATTR_UNUSED'', 0x00FC)]"

definition slave_states :: "(string \<times> u16) list" where
  "slave_states = [
     (''bmGS_REMOTE_WAKEUP'', 0x0002), (''bmGS_SELF_POWERED'', 0x0001), (''bmGS_EP_HALT'', 0x0001),
     (''F_SEL_EP_HALT'', 0x0000), (''F_SEL_RMT_WAKEUP'', 0x0001), (''F_SEL_TEST_MODE'', 0x0002),
     (''SUSB_STATE_DEFAULT'', 0x0000), (''SUSB_STATE_ADDRESSED'', 0x000C),
     (''SUSB_STATE_CONFIGD'', 0x0018)]"

definition software_interrupt_numbers :: "(string \<times> u16) list" where
  "software_interrupt_numbers = [
     (''I2C_INT'', 0x0040), (''LI2C_INT'', 0x0041), (''UART_INT'', 0x0042), (''SCAN_INT'', 0x0043),
     (''ALLOC_INT'', 0x0044), (''IDLE_INT'', 0x0046), (''IDLER_INT'', 0x0047),
     (''INSERT_IDLE_INT'', 0x0048), (''PUSHALL_INT'', 0x0049), (''POPALL_INT'', 0x004A),
     (''FREE_INT'', 0x004B), (''REDO_ARENA'', 0x004C), (''HW_SWAP_REG'', 0x004D),
     (''HW_REST_REG'', 0x004E), (''SCAN_DECODE_INT'', 0x004F)]"

definition host_interrupts :: "(string \<times> u16) list" where
  "host_interrupts = [
     (''HUSB_SIE1_INIT_INT'', 0x0072), (''HUSB_SIE2_INIT_INT'', 0x0073),
     (''HUSB_RESET_INT'', 0x0074), (''SUSB1_OTG_DESC_VEC'', 0x00EE), (''PWR_DOWN_INT'', 0x0078),
     (''SEND_HOST_CMD_INT'', 0x0079), (''PROCESS_PORT_CMD_INT'', 0x007A),
     (''PROCESS_CRB_INT'', 0x007B)]"

section \<open>The communication protocol\<close>

text \<open>Commands to the chip's control program, its answers, and the messages it leaves in the message
  registers (lcp_cmd.h).\<close>

definition LCP_ports :: "(string \<times> u16) list" where
  "LCP_ports = [
     (''PORT_CMD_PROC'', 0x0000), (''CP_GET_PORT_LIST'', 0x0000), (''CP_SINGLE_PORT_MODE'', 0x0001),
     (''CP_MULTI_PORT_MODE'', 0x0002), (''PORT_HUSB'', 0x0001), (''PORT_SUSB'', 0x0002),
     (''PORT_SPI'', 0x0003), (''PORT_HSS'', 0x0004), (''PORT_IDE'', 0x0005), (''PORT_HPI'', 0x0006),
     (''PORT_DRAM'', 0x0007)]"

definition LCP_commands :: "(string \<times> u16) list" where
  "LCP_commands = [
     (''COMM_RESET'', 0xFA50), (''COMM_JUMP2CODE'', 0xCE00), (''COMM_EXEC_INT'', 0xCE01),
     (''COMM_READ_CTRL_REG'', 0xCE02), (''COMM_WRITE_CTRL_REG'', 0xCE03),
     (''COMM_CALL_CODE'', 0xCE04), (''COMM_READ_XMEM'', 0xCE05), (''COMM_WRITE_XMEM'', 0xCE06),
     (''COMM_CONFIG'', 0xCE07), (''COMM_READ_MEM'', 0xCE08), (''COMM_WRITE_MEM'', 0xCE09)]"

definition LCP_answers :: "(string \<times> u16) list" where
  "LCP_answers = [
     (''COMM_ACK'', 0x0FED), (''COMM_NAK'', 0xDEAD)]"

definition SUSB_messages :: "(string \<times> u16) list" where
  "SUSB_messages = [
     (''SUSB_EP0_MSG'', 0x0001), (''SUSB_EP1_MSG'', 0x0002), (''SUSB_EP2_MSG'', 0x0004),
     (''SUSB_EP3_MSG'', 0x0008), (''SUSB_EP4_MSG'', 0x0010), (''SUSB_EP5_MSG'', 0x0020),
     (''SUSB_EP6_MSG'', 0x0040), (''SUSB_EP7_MSG'', 0x0080), (''SUSB_RST_MSG'', 0x0100),
     (''SUSB_SOF_MSG'', 0x0200), (''SUSB_CFG_MSG'', 0x0400), (''SUSB_SUS_MSG'', 0x0800),
     (''SUSB_VBUS_MSG'', 0x8000), (''SUSB_ID_MSG'', 0x4000)]"

definition HUSB_messages :: "(string \<times> u16) list" where
  "HUSB_messages = [
     (''HUSB_TDListDone'', 0x1000), (''HUSB_SOF'', 0x2000), (''HUSB_ARMV'', 0x0001),
     (''HUSB_AINS_FS'', 0x0002), (''HUSB_AINS_LS'', 0x0004), (''HUSB_AWakeUp'', 0x0008),
     (''HUSB_BRMV'', 0x0010), (''HUSB_BINS_FS'', 0x0020), (''HUSB_BINS_LS'', 0x0040),
     (''HUSB_BWakeUp'', 0x0080)]"

text \<open>The common data area (lcp_data.h).\<close>

definition LCP_data :: "(string \<times> u16) list" where
  "LCP_data = [
     (''_start_of_comm'', 0x019A), (''lcp_table'', 0x019A), (''snd_msg'', 0x019C),
     (''lcp_sema'', 0x019E), (''lcp_chain'', 0x01A0), (''lcp_rsp'', 0x01A2),
     (''HUSB_SIE1_pCurrentTDPtr'', 0x01B0), (''HUSB_SIE2_pCurrentTDPtr'', 0x01B2),
     (''HUSB_pEOT'', 0x01B4), (''HUSB_SIE1_pTDListDone_Sem'', 0x01B6),
     (''HUSB_SIE2_pTDListDone_Sem'', 0x01B8)]"

definition LCP_port_data :: "(string \<times> u16) list" where
  "LCP_port_data = [
     (''COMM_PORT_CMD'', 0x01BA), (''COMM_PORT_DATA'', 0x01BC), (''COMM_MEM_ADDR'', 0x01BC),
     (''COMM_MEM_LEN'', 0x01BE), (''COMM_LAST_DATA'', 0x01C0), (''COMM_CTRL_REG_ADDR'', 0x01BC),
     (''COMM_CTRL_REG_DATA'', 0x01BE), (''COMM_CTRL_REG_LOGIC'', 0x01C0)]"

definition LCP_logic :: "(string \<times> u16) list" where
  "LCP_logic = [
     (''REG_WRITE_FLG'', 0x0000), (''REG_AND_FLG'', 0x0001), (''REG_OR_FLG'', 0x0002)]"

definition LCP_code_data :: "(string \<times> u16) list" where
  "LCP_code_data = [
     (''COMM_BAUD_RATE'', 0x01BC), (''COMM_TIMEOUT'', 0x01BE), (''COMM_CODE_ADDR'', 0x01BC)]"

definition LCP_registers :: "(string \<times> u16) list" where
  "LCP_registers = [
     (''COMM_INT_NUM'', 0x01C2), (''COMM_R0'', 0x01C4), (''COMM_R1'', 0x01C6),
     (''COMM_R2'', 0x01C8), (''COMM_R3'', 0x01CA), (''COMM_R4'', 0x01CC), (''COMM_R5'', 0x01CE),
     (''COMM_R6'', 0x01D0), (''COMM_R7'', 0x01D2), (''COMM_R8'', 0x01D4), (''COMM_R9'', 0x01D6),
     (''COMM_R10'', 0x01D8), (''COMM_R11'', 0x01DA), (''COMM_R12'', 0x01DC), (''COMM_R13'', 0x01DE)]"

section \<open>Three descriptions of the same registers\<close>

definition masks_missing :: "(string \<times> u16) list \<Rightarrow> (string \<times> u16) list \<Rightarrow> string list" where
  "masks_missing t u = map fst (filter (\<lambda>(_, v). list_all (\<lambda>(_, w). w \<noteq> v) u) t)"

lemma engine_descriptions:
  "[map_of HOST_macros ''USB_HOSTn_CTL_REG'', map_of HOST_macros ''USB_HOSTn_Address_REG'',
    map_of HOST_macros ''USB_HOSTn_Count_REG'', map_of HOST_macros ''USB_HOSTn_PID_REG'',
    map_of HOST_macros ''USB_HOSTn_Count_Result_REG'', map_of HOST_macros ''USB_HOSTn_INT_EN_REG'',
    map_of HOST_STAT_macros ''USB_HOSTn_STATUS_REG''] =
   map (Some \<circ> snd) [HOSTn_CTL, HOSTn_ADDR, HOSTn_CNT, HOSTn_PID, HOSTn_CTR, HOSTn_IRQ_EN, HOSTn_STAT]"
  by code_simp

lemma port_descriptions:
  "HPI_DATA_port = [(''HPI_DATA_PORT'', ucast HPI_DATA)]" "HPI_MBX_port = [(''HPI_MBX_PORT'', ucast HPI_MAILBOX)]"
  "HPI_ADDR_port = [(''HPI_ADDR_PORT'', ucast HPI_ADDR)]" "HPI_STAT_port = [(''HPI_STAT_PORT'', ucast HPI_STATUS)]"
  by code_simp+

lemma status_descriptions:
  "masks_missing HPI_STAT_fields HPI_STATUS_macros = [''RST2_FLG'']"
  "masks_missing HPI_STATUS_macros HPI_STAT_fields = [''HPI_STATUS_SIE1msg_FLAG'', ''HPI_STATUS_SIE2msg_FLAG'']"
  "masks_missing HPI_STAT_aliases HPI_STAT_fields = []"
  by code_simp+

lemma control_descriptions:
  "masks_missing HOST_CTL_fields EP_CTRL_bits = []" "masks_missing ENDPOINT_CTL_macros EP_CTRL_bits = []"
  "masks_missing HOST_CTL_bits HOST_CTL_fields = []" "masks_missing EP_CTRL_bits HOST_CTL_fields = [''bmEP_CTRL_EP'', ''EP_CTRL_OUT'']"
  "masks_missing HOST_EP_STAT_fields EP_PSR_bits = []" "masks_missing HOST_PID_bits EP_PSR_bits = []"
  "masks_missing DEV_IRQ_EN_fields ISR_bits = []" "map snd DEV_STAT_fields = map snd DEV_IRQ_EN_fields"
  by code_simp+

text \<open>The first description calls the overflow flag of an endpoint 0x0800; the other two call it 0x0020.\<close>

lemma overflow_contradicts:
  "map_of ENDPOINT_STAT_macros ''DEVICE_ENDPOINTn_Overflow_FLAG'' = Some 0x0800"
  "map_of HOST_EP_STAT_fields ''OVERFLOW_FLG'' = Some 0x0020" "map_of EP_PSR_bits ''bmEP_PSR_OVERFLOW'' = Some 0x0020"
  by code_simp+

lemma endpoint_banks:
  "map (map snd) [SIE1_EP_bases, SIE2_EP_bases] =
     map (\<lambda>b. map (\<lambda>(_, k). b + k) (drop 7 EP_banks)) [0x0200, 0x0280]"
  by code_simp

lemma endpoint_offsets:
  "map (\<lambda>(_, k). map (map (\<lambda>(_, b). b + k)) [SIE1_EP_bases, SIE2_EP_bases]) (take 5 EP_offsets) =
     [DEVn_EPm_CTL, DEVn_EPm_ADDR, DEVn_EPm_CNT, DEVn_EPm_STAT, DEVn_EPm_CTR]"
  by code_simp

lemma engine_offsets:
  "map (\<lambda>n. map_option ((+) 0xC0A0) (map_of SIE_offsets n))
     [''O_SIE_CTRL0'', ''O_SIE_BASE'', ''O_SIE_LENGTH'', ''O_SIE_PID'', ''O_SIE_CTRL5'', ''O_SIE_INT_EN'',
      ''O_SIE_USB_ADDR'', ''O_SIE_INT_STATUS'', ''O_SIE_SOF_LO'', ''O_SIE_SOF_HI''] =
   map (Some \<circ> snd) [HOSTn_CTL, HOSTn_ADDR, HOSTn_CNT, HOSTn_PID, USBn_CTL, HOSTn_IRQ_EN, DEVn_ADDR, HOSTn_STAT,
      HOSTn_SOF_EOP_CNT, HOSTn_SOF_EOP_CTR]"
  by code_simp

text \<open>The attributes of an endpoint are the binary digits of its type, written in hexadecimal.\<close>

lemma attributes_contradict:
  "map (map_of endpoint_types) [''EP_TYPE_ISO'', ''EP_TYPE_BULK'', ''EP_TYPE_INT''] = [Some 1, Some 2, Some 3]"
  "map (map_of endpoint_address_bits) [''bmEDATTR_ISO'', ''bmEDATTR_BULK'', ''bmEDATTR_INT''] = [Some 1, Some 0x10, Some 0x11]"
  by code_simp+

section \<open>The protocol\<close>

lemma protocol_constants:
  "map (map_of LCP_commands) [''COMM_RESET'', ''COMM_EXEC_INT''] = [Some COMM_RESET, Some COMM_EXEC_INT]"
  "map_of LCP_answers ''COMM_ACK'' = Some COMM_ACK" "map_of HUSB_messages ''HUSB_TDListDone'' = Some HUSB_TDListDone"
  "map (map_of LCP_data) [''HUSB_SIE1_pCurrentTDPtr'', ''HUSB_pEOT''] = [Some HUSB_SIE1_pCurrentTDPtr, Some HUSB_pEOT]"
  "map snd LCP_registers = COMM_INT_NUM # COMM_R"
  "map (map_of host_interrupts) [''HUSB_SIE1_INIT_INT'', ''HUSB_RESET_INT''] = [Some HUSB_SIE1_INIT_INT, Some HUSB_RESET_INT]"
  by code_simp+

text \<open>The messages of a message register: each is a bit, and the end of a descriptor list shares its bit
  with no other message of the host driver or of the slave driver.\<close>

lemma messages_apart:
  "disjoint_masks (map snd SUSB_messages)" "disjoint_masks (map snd HUSB_messages)"
  "list_all (\<lambda>(_, m). HUSB_TDListDone AND m = 0) (SUSB_messages @ tl HUSB_messages)"
  by code_simp+

text \<open>The common data area has a word for each entry and no gap inside its groups.\<close>

definition consecutive :: "(string \<times> u16) list \<Rightarrow> bool" where
  "consecutive t = list_all (\<lambda>((_, a), (_, b)). b = a + 2) (zip t (tl t))"

lemma data_area:
  "consecutive LCP_registers" "consecutive (drop 6 LCP_data)" "consecutive (tl (take 6 LCP_data))"
  by code_simp+

section \<open>The requests of the program\<close>

text \<open>The standard requests the program makes, with the names that the header has for them.\<close>

definition standard_requests :: "(usb_req \<times> string) list" where
  "standard_requests = [
     (Set_Address, ''DR_SET_ADDRESS''), (Device_Desc1, ''DR_GET_DESCRIPTOR''), (Device_Desc2, ''DR_GET_DESCRIPTOR''),
     (Config_Desc1, ''DR_GET_DESCRIPTOR''), (Config_Desc2, ''DR_GET_DESCRIPTOR''), (Set_Config, ''DR_SET_CONFIG''),
     (Hid_Desc, ''DR_GET_DESCRIPTOR''), (Report_Desc, ''DR_GET_DESCRIPTOR'')]"

definition standard_descriptors :: "(usb_req \<times> string) list" where
  "standard_descriptors = [
     (Device_Desc1, ''DEVICE''), (Device_Desc2, ''DEVICE''), (Config_Desc1, ''CONFIGURATION''),
     (Config_Desc2, ''CONFIGURATION'')]"

lemma standard_codes:
  "list_all (\<lambda>(r, n). map_of device_requests n = Some (rq_request (request_spec r))) standard_requests"
  "list_all (\<lambda>(r, n). map_option (push_bit 8) (map_of descriptor_types n) = Some (rq_value (request_spec r)))
     standard_descriptors"
  by code_simp+

lemma request_directions:
  "list_all (\<lambda>r. map_option (\<lambda>m. rq_type (request_spec r) AND m \<noteq> 0) (map_of request_types ''bmRT_DEVICE2HOST'')
       = Some (0 < rq_fetch (request_spec r)))
     [Set_Address, Device_Desc1, Device_Desc2, Config_Desc1, Config_Desc2, Set_Config, Class_Request, Hid_Desc,
      Report_Desc]"
  by code_simp

lemma request_lengths:
  "map_option ((+) 1) (map_of device_descriptor ''O_DD_NUM_CONFIGS'') = Some (rq_length (request_spec Device_Desc2))"
  "map_option ((+) 1) (map_of config_descriptor ''O_CD_MAX_POWER'') = Some (rq_length (request_spec Config_Desc1))"
  "map_option ((+) 1) (map_of device_descriptor ''O_DD_EP0_MAX_BYTES'') = Some (rq_length (request_spec Device_Desc1))"
  by code_simp+

lemma packet_identifiers:
  "map (map_of PID_values) [''SETUP_PID'', ''IN_PID'', ''OUT_PID''] = [Some PID_SETUP, Some PID_IN, Some PID_OUT]"
  "map (map_of LYBERTY_values) [''cPID_SETUP'', ''cPID_IN'', ''cPID_OUT''] = [Some PID_SETUP, Some PID_IN, Some PID_OUT]"
  by code_simp+

lemma host_masks:
  "map_of HOST_CNT_fields ''HOST_CNT'' = Some 0x03FF" "map_of HOST_PID_fields ''PID_SEL'' = Some 0x00F0"
  "map_of HOST_PID_fields ''EP_SEL'' = Some 0x000F" "map_of HOST_CTL_fields ''ARM_EN'' = Some 0x0001"
  "map_of HOST_CTL_fields ''SEQ_SEL'' = Some 0x0040"
  by code_simp+

lemma bit_by_mask: "bit (w :: u16) 0 \<longleftrightarrow> w AND 0x0001 \<noteq> 0" "bit w 6 \<longleftrightarrow> w AND 0x0040 \<noteq> 0"
  using bit_iff_and_push_bit_not_eq_0 [of w 0] bit_iff_and_push_bit_not_eq_0 [of w 6] by simp_all

lemma pid_by_mask: "drop_bit 4 (w :: u16) AND 0xF = drop_bit 4 (w AND 0x00F0)"
  by simp

lemma td_by_masks:
  "\<forall>m a. td_length (td_at m a) = m (a + 2) AND 0x03FF \<and> td_pid (td_at m a) = drop_bit 4 (m (a + 4) AND 0x00F0) \<and>
     td_endpoint (td_at m a) = m (a + 4) AND 0x000F \<and> td_armed (td_at m a) = (m (a + 6) AND 0x0001 \<noteq> 0) \<and>
     td_data1 (td_at m a) = (m (a + 6) AND 0x0040 \<noteq> 0)"
  by (simp only: td_at_def td.select_convs bit_by_mask pid_by_mask simp_thms)

text \<open>The requests the program makes are spelled in the vocabulary of the chip's header: every
  standard request has the code and every descriptor the type that the header names, the direction bit
  is set exactly in the requests that fetch data, the two descriptors fetched whole are as long as
  the header's layouts of them and the first fetch of the device descriptor ends just after its packet
  size; and the words of a transfer descriptor are divided as the host registers are: length, packet
  identifier, endpoint, armed bit and data toggle by the masks of those registers.\<close>
theorem requests_in_vocabulary:
  "list_all (\<lambda>(r, n). map_of device_requests n = Some (rq_request (request_spec r))) standard_requests \<and>
   list_all (\<lambda>(r, n). map_option (push_bit 8) (map_of descriptor_types n) = Some (rq_value (request_spec r)))
     standard_descriptors \<and>
   list_all (\<lambda>r. map_option (\<lambda>m. rq_type (request_spec r) AND m \<noteq> 0) (map_of request_types ''bmRT_DEVICE2HOST'')
       = Some (0 < rq_fetch (request_spec r)))
     [Set_Address, Device_Desc1, Device_Desc2, Config_Desc1, Config_Desc2, Set_Config, Class_Request, Hid_Desc,
      Report_Desc] \<and>
   map_option ((+) 1) (map_of device_descriptor ''O_DD_NUM_CONFIGS'') = Some (rq_length (request_spec Device_Desc2)) \<and>
   map_option ((+) 1) (map_of config_descriptor ''O_CD_MAX_POWER'') = Some (rq_length (request_spec Config_Desc1)) \<and>
   map_option ((+) 1) (map_of device_descriptor ''O_DD_EP0_MAX_BYTES'') = Some (rq_length (request_spec Device_Desc1)) \<and>
   map (map_of PID_values) [''SETUP_PID'', ''IN_PID'', ''OUT_PID''] = [Some PID_SETUP, Some PID_IN, Some PID_OUT] \<and>
   (\<exists>cnt pid ep arm seq.
      map_of HOST_CNT_fields ''HOST_CNT'' = Some cnt \<and> map_of HOST_PID_fields ''PID_SEL'' = Some pid \<and>
      map_of HOST_PID_fields ''EP_SEL'' = Some ep \<and> map_of HOST_CTL_fields ''ARM_EN'' = Some arm \<and>
      map_of HOST_CTL_fields ''SEQ_SEL'' = Some seq \<and>
      (\<forall>m a. td_length (td_at m a) = m (a + 2) AND cnt \<and> td_pid (td_at m a) = drop_bit 4 (m (a + 4) AND pid) \<and>
         td_endpoint (td_at m a) = m (a + 4) AND ep \<and> td_armed (td_at m a) = (m (a + 6) AND arm \<noteq> 0) \<and>
         td_data1 (td_at m a) = (m (a + 6) AND seq \<noteq> 0)))"
  by (intro conjI standard_codes request_directions request_lengths packet_identifiers(1) exI)
    (rule host_masks td_by_masks)+

end
