(* ===== verification/System_Config.thy ===== *)
theory System_Config
  imports Prelude
begin

text \<open>
  The parameters of the hardware in the generated header system.h: the parallel ports, the UART, the
  memory and the processor, each the record of its macros, numbers as integers and the rest as
  strings. Macros with no value, which only say that something is there, and the timings of the
  memory that are not whole numbers are left out.
\<close>

section \<open>The devices and the processor\<close>

record pio =
  pio_base :: int
  pio_bit_clearing_edge_register :: int
  pio_bit_modifying_output_register :: int
  pio_capture :: int
  pio_data_width :: int
  pio_do_test_bench_wiring :: int
  pio_driven_sim_value :: int
  pio_edge_type :: string
  pio_freq :: int
  pio_has_in :: int
  pio_has_out :: int
  pio_has_tri :: int
  pio_irq :: int
  pio_irq_interrupt_controller_id :: int
  pio_irq_type :: string
  pio_name :: string
  pio_reset_value :: int
  pio_span :: int
  pio_type :: string

definition KEYCODE :: pio where
  "KEYCODE = \<lparr>
     pio_base = 0x10001080, pio_bit_clearing_edge_register = 0,
     pio_bit_modifying_output_register = 0, pio_capture = 0, pio_data_width = 16,
     pio_do_test_bench_wiring = 0, pio_driven_sim_value = 0, pio_edge_type = ''NONE'',
     pio_freq = 50000000, pio_has_in = 0, pio_has_out = 1, pio_has_tri = 0, pio_irq = - 1,
     pio_irq_interrupt_controller_id = - 1, pio_irq_type = ''NONE'', pio_name = ''/dev/keycode'',
     pio_reset_value = 0, pio_span = 16, pio_type = ''altera_avalon_pio''\<rparr>"

definition OTG_HPI_ADDRESS :: pio where
  "OTG_HPI_ADDRESS = \<lparr>
     pio_base = 0x10001070, pio_bit_clearing_edge_register = 0,
     pio_bit_modifying_output_register = 0, pio_capture = 0, pio_data_width = 2,
     pio_do_test_bench_wiring = 0, pio_driven_sim_value = 0, pio_edge_type = ''NONE'',
     pio_freq = 50000000, pio_has_in = 0, pio_has_out = 1, pio_has_tri = 0, pio_irq = - 1,
     pio_irq_interrupt_controller_id = - 1, pio_irq_type = ''NONE'',
     pio_name = ''/dev/otg_hpi_address'', pio_reset_value = 0, pio_span = 16,
     pio_type = ''altera_avalon_pio''\<rparr>"

definition OTG_HPI_CS :: pio where
  "OTG_HPI_CS = \<lparr>
     pio_base = 0x10001030, pio_bit_clearing_edge_register = 0,
     pio_bit_modifying_output_register = 0, pio_capture = 0, pio_data_width = 1,
     pio_do_test_bench_wiring = 0, pio_driven_sim_value = 0, pio_edge_type = ''NONE'',
     pio_freq = 50000000, pio_has_in = 0, pio_has_out = 1, pio_has_tri = 0, pio_irq = - 1,
     pio_irq_interrupt_controller_id = - 1, pio_irq_type = ''NONE'',
     pio_name = ''/dev/otg_hpi_cs'', pio_reset_value = 0, pio_span = 16,
     pio_type = ''altera_avalon_pio''\<rparr>"

definition OTG_HPI_DATA :: pio where
  "OTG_HPI_DATA = \<lparr>
     pio_base = 0x10001060, pio_bit_clearing_edge_register = 0,
     pio_bit_modifying_output_register = 0, pio_capture = 0, pio_data_width = 16,
     pio_do_test_bench_wiring = 0, pio_driven_sim_value = 0, pio_edge_type = ''NONE'',
     pio_freq = 50000000, pio_has_in = 1, pio_has_out = 1, pio_has_tri = 0, pio_irq = - 1,
     pio_irq_interrupt_controller_id = - 1, pio_irq_type = ''NONE'',
     pio_name = ''/dev/otg_hpi_data'', pio_reset_value = 0, pio_span = 16,
     pio_type = ''altera_avalon_pio''\<rparr>"

definition OTG_HPI_R :: pio where
  "OTG_HPI_R = \<lparr>
     pio_base = 0x10001050, pio_bit_clearing_edge_register = 0,
     pio_bit_modifying_output_register = 0, pio_capture = 0, pio_data_width = 1,
     pio_do_test_bench_wiring = 0, pio_driven_sim_value = 0, pio_edge_type = ''NONE'',
     pio_freq = 50000000, pio_has_in = 0, pio_has_out = 1, pio_has_tri = 0, pio_irq = - 1,
     pio_irq_interrupt_controller_id = - 1, pio_irq_type = ''NONE'',
     pio_name = ''/dev/otg_hpi_r'', pio_reset_value = 0, pio_span = 16,
     pio_type = ''altera_avalon_pio''\<rparr>"

definition OTG_HPI_RESET :: pio where
  "OTG_HPI_RESET = \<lparr>
     pio_base = 0x10001020, pio_bit_clearing_edge_register = 0,
     pio_bit_modifying_output_register = 0, pio_capture = 0, pio_data_width = 1,
     pio_do_test_bench_wiring = 0, pio_driven_sim_value = 0, pio_edge_type = ''NONE'',
     pio_freq = 50000000, pio_has_in = 0, pio_has_out = 1, pio_has_tri = 0, pio_irq = - 1,
     pio_irq_interrupt_controller_id = - 1, pio_irq_type = ''NONE'',
     pio_name = ''/dev/otg_hpi_reset'', pio_reset_value = 0, pio_span = 16,
     pio_type = ''altera_avalon_pio''\<rparr>"

definition OTG_HPI_W :: pio where
  "OTG_HPI_W = \<lparr>
     pio_base = 0x10001040, pio_bit_clearing_edge_register = 0,
     pio_bit_modifying_output_register = 0, pio_capture = 0, pio_data_width = 1,
     pio_do_test_bench_wiring = 0, pio_driven_sim_value = 0, pio_edge_type = ''NONE'',
     pio_freq = 50000000, pio_has_in = 0, pio_has_out = 1, pio_has_tri = 0, pio_irq = - 1,
     pio_irq_interrupt_controller_id = - 1, pio_irq_type = ''NONE'',
     pio_name = ''/dev/otg_hpi_w'', pio_reset_value = 0, pio_span = 16,
     pio_type = ''altera_avalon_pio''\<rparr>"

record jtag_config =
  jtagc_base :: int
  jtagc_irq :: int
  jtagc_irq_interrupt_controller_id :: int
  jtagc_name :: string
  jtagc_read_depth :: int
  jtagc_read_threshold :: int
  jtagc_span :: int
  jtagc_type :: string
  jtagc_write_depth :: int
  jtagc_write_threshold :: int

definition JTAG_UART_0 :: jtag_config where
  "JTAG_UART_0 = \<lparr>
     jtagc_base = 0x100010b8, jtagc_irq = 0, jtagc_irq_interrupt_controller_id = 0,
     jtagc_name = ''/dev/jtag_uart_0'', jtagc_read_depth = 64, jtagc_read_threshold = 8,
     jtagc_span = 8, jtagc_type = ''altera_avalon_jtag_uart'', jtagc_write_depth = 64,
     jtagc_write_threshold = 8\<rparr>"

record sdram_config =
  sdram_base :: int
  sdram_cas_latency :: int
  sdram_init_refresh_commands :: int
  sdram_irq :: int
  sdram_irq_interrupt_controller_id :: int
  sdram_is_initialized :: int
  sdram_name :: string
  sdram_register_data_in :: int
  sdram_sdram_addr_width :: int
  sdram_sdram_bank_width :: int
  sdram_sdram_col_width :: int
  sdram_sdram_data_width :: int
  sdram_sdram_num_banks :: int
  sdram_sdram_num_chipselects :: int
  sdram_sdram_row_width :: int
  sdram_shared_data :: int
  sdram_sim_model_base :: int
  sdram_span :: int
  sdram_starvation_indicator :: int
  sdram_tristate_bridge_slave :: string
  sdram_type :: string
  sdram_t_mrd :: int

definition SDRAM :: sdram_config where
  "SDRAM = \<lparr>
     sdram_base = 0x8000000, sdram_cas_latency = 3, sdram_init_refresh_commands = 2,
     sdram_irq = - 1, sdram_irq_interrupt_controller_id = - 1, sdram_is_initialized = 1,
     sdram_name = ''/dev/sdram'', sdram_register_data_in = 1, sdram_sdram_addr_width = 0x19,
     sdram_sdram_bank_width = 2, sdram_sdram_col_width = 10, sdram_sdram_data_width = 32,
     sdram_sdram_num_banks = 4, sdram_sdram_num_chipselects = 1, sdram_sdram_row_width = 13,
     sdram_shared_data = 0, sdram_sim_model_base = 0, sdram_span = 134217728,
     sdram_starvation_indicator = 0, sdram_tristate_bridge_slave = '''',
     sdram_type = ''altera_avalon_new_sdram_controller'', sdram_t_mrd = 3\<rparr>"

record cpu_config =
  cpu_architecture :: string
  cpu_big_endian :: int
  cpu_break_addr :: int
  cpu_cpu_freq :: int
  cpu_cpu_id_size :: int
  cpu_cpu_id_value :: int
  cpu_cpu_implementation :: string
  cpu_data_addr_width :: int
  cpu_dcache_line_size :: int
  cpu_dcache_line_size_log2 :: int
  cpu_dcache_size :: int
  cpu_exception_addr :: int
  cpu_flash_accelerator_lines :: int
  cpu_flash_accelerator_line_size :: int
  cpu_freq :: int
  cpu_hardware_divide_present :: int
  cpu_hardware_multiply_present :: int
  cpu_hardware_mulx_present :: int
  cpu_has_debug_core :: int
  cpu_icache_line_size :: int
  cpu_icache_line_size_log2 :: int
  cpu_icache_size :: int
  cpu_inst_addr_width :: int
  cpu_name :: string
  cpu_oci_version :: int
  cpu_reset_addr :: int

definition ALT_CPU :: cpu_config where
  "ALT_CPU = \<lparr>
     cpu_architecture = ''altera_nios2_gen2'', cpu_big_endian = 0, cpu_break_addr = 0x10000820,
     cpu_cpu_freq = 50000000, cpu_cpu_id_size = 1, cpu_cpu_id_value = 0x00000000,
     cpu_cpu_implementation = ''tiny'', cpu_data_addr_width = 0x1d, cpu_dcache_line_size = 0,
     cpu_dcache_line_size_log2 = 0, cpu_dcache_size = 0, cpu_exception_addr = 0x08000020,
     cpu_flash_accelerator_lines = 0, cpu_flash_accelerator_line_size = 0, cpu_freq = 50000000,
     cpu_hardware_divide_present = 0, cpu_hardware_multiply_present = 0,
     cpu_hardware_mulx_present = 0, cpu_has_debug_core = 1, cpu_icache_line_size = 0,
     cpu_icache_line_size_log2 = 0, cpu_icache_size = 0, cpu_inst_addr_width = 0x1d,
     cpu_name = ''nios2_gen2_0'', cpu_oci_version = 1, cpu_reset_addr = 0x08000000\<rparr>"

record nios2_config =
  nios2_big_endian :: int
  nios2_break_addr :: int
  nios2_cpu_freq :: int
  nios2_cpu_id_size :: int
  nios2_cpu_id_value :: int
  nios2_cpu_implementation :: string
  nios2_data_addr_width :: int
  nios2_dcache_line_size :: int
  nios2_dcache_line_size_log2 :: int
  nios2_dcache_size :: int
  nios2_exception_addr :: int
  nios2_flash_accelerator_lines :: int
  nios2_flash_accelerator_line_size :: int
  nios2_hardware_divide_present :: int
  nios2_hardware_multiply_present :: int
  nios2_hardware_mulx_present :: int
  nios2_has_debug_core :: int
  nios2_icache_line_size :: int
  nios2_icache_line_size_log2 :: int
  nios2_icache_size :: int
  nios2_inst_addr_width :: int
  nios2_oci_version :: int
  nios2_reset_addr :: int

definition NIOS2 :: nios2_config where
  "NIOS2 = \<lparr>
     nios2_big_endian = 0, nios2_break_addr = 0x10000820, nios2_cpu_freq = 50000000,
     nios2_cpu_id_size = 1, nios2_cpu_id_value = 0x00000000, nios2_cpu_implementation = ''tiny'',
     nios2_data_addr_width = 0x1d, nios2_dcache_line_size = 0, nios2_dcache_line_size_log2 = 0,
     nios2_dcache_size = 0, nios2_exception_addr = 0x08000020, nios2_flash_accelerator_lines = 0,
     nios2_flash_accelerator_line_size = 0, nios2_hardware_divide_present = 0,
     nios2_hardware_multiply_present = 0, nios2_hardware_mulx_present = 0,
     nios2_has_debug_core = 1, nios2_icache_line_size = 0, nios2_icache_line_size_log2 = 0,
     nios2_icache_size = 0, nios2_inst_addr_width = 0x1d, nios2_oci_version = 1,
     nios2_reset_addr = 0x08000000\<rparr>"

definition cpu_numbers :: "cpu_config \<Rightarrow> int list" where
  "cpu_numbers c = [
     cpu_big_endian c, cpu_break_addr c, cpu_cpu_freq c, cpu_cpu_id_size c, cpu_cpu_id_value c,
     cpu_data_addr_width c, cpu_dcache_line_size c, cpu_dcache_line_size_log2 c,
     cpu_dcache_size c, cpu_exception_addr c, cpu_flash_accelerator_lines c,
     cpu_flash_accelerator_line_size c, cpu_hardware_divide_present c,
     cpu_hardware_multiply_present c, cpu_hardware_mulx_present c, cpu_has_debug_core c,
     cpu_icache_line_size c, cpu_icache_line_size_log2 c, cpu_icache_size c,
     cpu_inst_addr_width c, cpu_oci_version c, cpu_reset_addr c]"

definition nios2_numbers :: "nios2_config \<Rightarrow> int list" where
  "nios2_numbers c = [
     nios2_big_endian c, nios2_break_addr c, nios2_cpu_freq c, nios2_cpu_id_size c,
     nios2_cpu_id_value c, nios2_data_addr_width c, nios2_dcache_line_size c,
     nios2_dcache_line_size_log2 c, nios2_dcache_size c, nios2_exception_addr c,
     nios2_flash_accelerator_lines c, nios2_flash_accelerator_line_size c,
     nios2_hardware_divide_present c, nios2_hardware_multiply_present c,
     nios2_hardware_mulx_present c, nios2_has_debug_core c, nios2_icache_line_size c,
     nios2_icache_line_size_log2 c, nios2_icache_size c, nios2_inst_addr_width c,
     nios2_oci_version c, nios2_reset_addr c]"

section \<open>What the parameters have to satisfy\<close>

definition pios :: "pio list" where
  "pios = [KEYCODE, OTG_HPI_ADDRESS, OTG_HPI_CS, OTG_HPI_DATA, OTG_HPI_R, OTG_HPI_RESET, OTG_HPI_W]"

lemmas pio_defs = pios_def KEYCODE_def OTG_HPI_ADDRESS_def OTG_HPI_CS_def OTG_HPI_DATA_def OTG_HPI_R_def
  OTG_HPI_RESET_def OTG_HPI_W_def

text \<open>The bytes of the memory from its geometry.\<close>

definition sdram_bytes :: "sdram_config \<Rightarrow> int" where
  "sdram_bytes c = sdram_sdram_num_chipselects c * sdram_sdram_num_banks c * 2 ^ nat (sdram_sdram_row_width c) *
     2 ^ nat (sdram_sdram_col_width c) * (sdram_sdram_data_width c div 8)"

lemma sdram_geometry:
  "sdram_bytes SDRAM = sdram_span SDRAM" "sdram_sdram_num_banks SDRAM = 2 ^ nat (sdram_sdram_bank_width SDRAM)"
  "sdram_sdram_addr_width SDRAM = sdram_sdram_bank_width SDRAM + sdram_sdram_row_width SDRAM + sdram_sdram_col_width SDRAM"
  by (simp_all add: sdram_bytes_def SDRAM_def)

lemma legacy_prefix:
  "nios2_numbers NIOS2 = cpu_numbers ALT_CPU" "nios2_cpu_implementation NIOS2 = cpu_cpu_implementation ALT_CPU"
  by (simp_all add: nios2_numbers_def cpu_numbers_def NIOS2_def ALT_CPU_def)

lemma pios_uniform:
  "list_all (\<lambda>p. pio_type p = ''altera_avalon_pio'' \<and> pio_span p = 16 \<and> pio_irq p = - 1 \<and> pio_has_out p = 1 \<and>
     pio_freq p = cpu_freq ALT_CPU \<and> pio_reset_value p = 0) pios"
  by (simp add: pio_defs ALT_CPU_def)

lemma input_port: "filter (\<lambda>p. pio_has_in p = 1) pios = [OTG_HPI_DATA]"
  by (simp add: pio_defs)

lemma pio_names: "distinct (map pio_name pios)" "distinct (map pio_base pios)"
  by (simp_all add: pio_defs)

text \<open>Out of reset every output is 0, so the chip select and both strobes of the host port, which are active low,
  are on until the program's first stores; the chip's own reset is on as well.\<close>

lemma strobes_at_reset: "map pio_reset_value [OTG_HPI_CS, OTG_HPI_R, OTG_HPI_W, OTG_HPI_RESET] = [0, 0, 0, 0]"
  by (simp add: pio_defs)

end
