(* ===== verification/Memory_Map.thy ===== *)
theory Memory_Map
  imports System_Config
begin

text \<open>
  The address map of the processor (system.h, linker.h). system.h is generated from the hardware
  design; the application and the HAL rely on its base addresses, spans and widths, which are the
  definitions here.
\<close>

section \<open>The devices\<close>

datatype bus_device =
    Jtag_Uart_0 | Keycode | Onchip_Memory2_0 | Otg_Hpi_Address | Otg_Hpi_Cs | Otg_Hpi_Data
  | Otg_Hpi_R | Otg_Hpi_Reset | Otg_Hpi_W | Sdram | Sdram_Pll | Sysid_Qsys_0

definition JTAG_UART_0_BASE :: nat where "JTAG_UART_0_BASE = nat (jtagc_base JTAG_UART_0)"
definition KEYCODE_BASE :: nat where "KEYCODE_BASE = nat (pio_base KEYCODE)"
definition OTG_HPI_ADDRESS_BASE :: nat where "OTG_HPI_ADDRESS_BASE = nat (pio_base OTG_HPI_ADDRESS)"
definition OTG_HPI_CS_BASE :: nat where "OTG_HPI_CS_BASE = nat (pio_base OTG_HPI_CS)"
definition OTG_HPI_DATA_BASE :: nat where "OTG_HPI_DATA_BASE = nat (pio_base OTG_HPI_DATA)"
definition OTG_HPI_R_BASE :: nat where "OTG_HPI_R_BASE = nat (pio_base OTG_HPI_R)"
definition OTG_HPI_RESET_BASE :: nat where "OTG_HPI_RESET_BASE = nat (pio_base OTG_HPI_RESET)"
definition OTG_HPI_W_BASE :: nat where "OTG_HPI_W_BASE = nat (pio_base OTG_HPI_W)"
definition SDRAM_BASE :: nat where "SDRAM_BASE = nat (sdram_base SDRAM)"
definition ONCHIP_MEMORY2_0_BASE :: nat where "ONCHIP_MEMORY2_0_BASE = 0x100010a0"
definition ONCHIP_MEMORY2_0_SPAN :: nat where "ONCHIP_MEMORY2_0_SPAN = 16"
definition SDRAM_PLL_BASE :: nat where "SDRAM_PLL_BASE = 0x10001090"
definition SDRAM_PLL_SPAN :: nat where "SDRAM_PLL_SPAN = 16"
definition SYSID_QSYS_0_BASE :: nat where "SYSID_QSYS_0_BASE = 0x100010c0"
definition SYSID_QSYS_0_SPAN :: nat where "SYSID_QSYS_0_SPAN = 8"

lemma port_bases:
  "JTAG_UART_0_BASE = 0x100010b8" "KEYCODE_BASE = 0x10001080" "OTG_HPI_ADDRESS_BASE = 0x10001070"
  "OTG_HPI_CS_BASE = 0x10001030" "OTG_HPI_DATA_BASE = 0x10001060" "OTG_HPI_R_BASE = 0x10001050"
  "OTG_HPI_RESET_BASE = 0x10001020" "OTG_HPI_W_BASE = 0x10001040" "SDRAM_BASE = 0x8000000"
  by (simp_all add: JTAG_UART_0_BASE_def KEYCODE_BASE_def OTG_HPI_ADDRESS_BASE_def OTG_HPI_CS_BASE_def
      OTG_HPI_DATA_BASE_def OTG_HPI_R_BASE_def OTG_HPI_RESET_BASE_def OTG_HPI_W_BASE_def SDRAM_BASE_def
      JTAG_UART_0_def SDRAM_def pio_defs)

lemmas bases = port_bases ONCHIP_MEMORY2_0_BASE_def ONCHIP_MEMORY2_0_SPAN_def SDRAM_PLL_BASE_def
  SDRAM_PLL_SPAN_def SYSID_QSYS_0_BASE_def SYSID_QSYS_0_SPAN_def

text \<open>Device, base and span.\<close>

definition bus_devices :: "(bus_device \<times> nat \<times> nat) list" where
  "bus_devices =
     [(Jtag_Uart_0, JTAG_UART_0_BASE, nat (jtagc_span JTAG_UART_0)), (Keycode, KEYCODE_BASE, nat (pio_span KEYCODE)),
      (Onchip_Memory2_0, ONCHIP_MEMORY2_0_BASE, ONCHIP_MEMORY2_0_SPAN),
      (Otg_Hpi_Address, OTG_HPI_ADDRESS_BASE, nat (pio_span OTG_HPI_ADDRESS)),
      (Otg_Hpi_Cs, OTG_HPI_CS_BASE, nat (pio_span OTG_HPI_CS)), (Otg_Hpi_Data, OTG_HPI_DATA_BASE, nat (pio_span OTG_HPI_DATA)),
      (Otg_Hpi_R, OTG_HPI_R_BASE, nat (pio_span OTG_HPI_R)), (Otg_Hpi_Reset, OTG_HPI_RESET_BASE, nat (pio_span OTG_HPI_RESET)),
      (Otg_Hpi_W, OTG_HPI_W_BASE, nat (pio_span OTG_HPI_W)), (Sdram, SDRAM_BASE, nat (sdram_span SDRAM)),
      (Sdram_Pll, SDRAM_PLL_BASE, SDRAM_PLL_SPAN), (Sysid_Qsys_0, SYSID_QSYS_0_BASE, SYSID_QSYS_0_SPAN)]"

lemma bus_devices_list:
  "bus_devices =
     [(Jtag_Uart_0, 0x100010b8, 8), (Keycode, 0x10001080, 16), (Onchip_Memory2_0, 0x100010a0, 16),
      (Otg_Hpi_Address, 0x10001070, 16), (Otg_Hpi_Cs, 0x10001030, 16), (Otg_Hpi_Data, 0x10001060, 16),
      (Otg_Hpi_R, 0x10001050, 16), (Otg_Hpi_Reset, 0x10001020, 16), (Otg_Hpi_W, 0x10001040, 16),
      (Sdram, 0x8000000, 134217728), (Sdram_Pll, 0x10001090, 16), (Sysid_Qsys_0, 0x100010c0, 8)]"
  by (simp add: bus_devices_def bases JTAG_UART_0_def SDRAM_def pio_defs)

definition ALT_STDOUT_BASE :: nat where "ALT_STDOUT_BASE = 0x100010b8"

text \<open>linker.h: the regions in which the linker places the program.\<close>

definition linker_regions :: "(nat \<times> nat) list" where
  "linker_regions = [(0x100010a0, 16), (0x8000000, 32), (0x8000020, 134217696)]"

section \<open>Decoding an address\<close>

text \<open>The device an address belongs to, with the offset in it.\<close>

definition bus_decode :: "nat \<Rightarrow> (bus_device \<times> nat) option" where
  "bus_decode a = map_option (\<lambda>(d, b, n). (d, a - b)) (find (\<lambda>(d, b, n). b \<le> a \<and> a < b + n) bus_devices)"

fun disjoint_from :: "nat \<times> nat \<Rightarrow> (nat \<times> nat) list \<Rightarrow> bool" where
  "disjoint_from (b, n) xs = list_all (\<lambda>(c, m). b + n \<le> c \<or> c + m \<le> b) xs"

fun pairwise_disjoint :: "(nat \<times> nat) list \<Rightarrow> bool" where
  "pairwise_disjoint [] = True"
| "pairwise_disjoint (x # xs) = (disjoint_from x xs \<and> pairwise_disjoint xs)"

lemma disjoint_index:
  assumes "pairwise_disjoint xs" "i < j" "j < length xs" "fst (xs ! i) \<le> a" "a < fst (xs ! i) + snd (xs ! i)"
  shows "\<not> (fst (xs ! j) \<le> a \<and> a < fst (xs ! j) + snd (xs ! j))"
  using assms
proof (induction xs arbitrary: i j)
  case (Cons x xs)
  show ?case
  proof (cases i)
    case 0
    obtain j' where j: "j = Suc j'" using Cons.prems(2) by (cases j) simp_all
    then have "xs ! j' \<in> set xs" using Cons.prems(3) by simp
    moreover have "disjoint_from x xs" using Cons.prems(1) by simp
    ultimately show ?thesis using 0 j Cons.prems(4,5) by (cases x) (fastforce simp: list_all_iff)
  next
    case (Suc i')
    obtain j' where "j = Suc j'" using Cons.prems(2) by (cases j) simp_all
    with Suc show ?thesis using Cons.IH [of i' j'] Cons.prems by simp
  qed
qed simp

text \<open>The address map is sound: the devices do not overlap and lie in the processor's address space,
  so every address belongs to at most one; the memory is as large as its banks, rows and columns
  make it; the reset and exception vectors and the program's linker regions are in memory, the
  regions one after the other; and the standard output is the UART.\<close>
theorem memory_map_sound:
  "distinct (map fst bus_devices) \<and> pairwise_disjoint (map snd bus_devices) \<and>
   list_all (\<lambda>(d, b, n). b + n \<le> 2 ^ nat (cpu_data_addr_width ALT_CPU) \<and> b mod n = 0) bus_devices \<and>
   sdram_bytes SDRAM = sdram_span SDRAM \<and>
   map_option fst (bus_decode (nat (cpu_reset_addr ALT_CPU))) = Some Sdram \<and>
   map_option fst (bus_decode (nat (cpu_exception_addr ALT_CPU))) = Some Sdram \<and>
   pairwise_disjoint linker_regions \<and>
   list_all (\<lambda>(b, n). map_option fst (bus_decode b) = map_option fst (bus_decode (b + n - 1))) linker_regions \<and>
   bus_decode ALT_STDOUT_BASE = Some (Jtag_Uart_0, 0)"
  by (simp add: bus_devices_list ALT_CPU_def ALT_STDOUT_BASE_def linker_regions_def bus_decode_def sdram_geometry)

end
