(* ===== verification/Hpi_Port.thy ===== *)
theory Hpi_Port
  imports Io_Handler
begin

text \<open>
  hpi_io_intf.sv: the registers between the software's parallel ports and the pins of the USB chip.
  The pins the software sets are \<open>hpi_pins\<close> of Io_Handler. The chip's control pins follow one
  clock later; the data lines are driven from a register, but the driver is enabled by the
  software's write pin itself, without a register.
\<close>

record hpi_port =
  from_sw_data_out_buffer :: u16
  OTG_ADDR :: "2 word"
  OTG_RD_N :: bool
  OTG_WR_N :: bool
  OTG_CS_N :: bool
  OTG_RST_N :: bool
  from_sw_data_in :: u16

definition hpi_port_reset :: hpi_port where
  "hpi_port_reset = \<lparr>from_sw_data_out_buffer = 0, OTG_ADDR = 0, OTG_RD_N = False, OTG_WR_N = False,
     OTG_CS_N = False, OTG_RST_N = False, from_sw_data_in = 0\<rparr>"

text \<open>A clock: \<open>sw\<close> are the software's pins and \<open>bus\<close> is the value of the data lines before the edge.\<close>

definition hpi_port_step :: "bool \<Rightarrow> hpi_pins \<Rightarrow> u16 \<Rightarrow> hpi_port \<Rightarrow> hpi_port" where
  "hpi_port_step rst sw bus p =
     (if rst then hpi_port_reset
      else \<lparr>from_sw_data_out_buffer = pin_data sw, OTG_ADDR = pin_address sw, OTG_RD_N = pin_r sw,
            OTG_WR_N = pin_w sw, OTG_CS_N = pin_cs sw, OTG_RST_N = pin_reset sw, from_sw_data_in = bus\<rparr>)"

text \<open>What this side drives on the data lines; \<open>None\<close> is high impedance.\<close>

definition OTG_DATA :: "hpi_pins \<Rightarrow> hpi_port \<Rightarrow> u16 option" where
  "OTG_DATA sw p = (if \<not> pin_w sw then Some (from_sw_data_out_buffer p) else None)"

text \<open>The pins as the chip sees them; \<open>float\<close> is what an undriven data line reads as.\<close>

definition chip_side :: "u16 \<Rightarrow> hpi_pins \<Rightarrow> hpi_port \<Rightarrow> hpi_pins" where
  "chip_side float sw p = \<lparr>pin_address = OTG_ADDR p,
     pin_data = (case OTG_DATA sw p of Some d \<Rightarrow> d | None \<Rightarrow> float),
     pin_r = OTG_RD_N p, pin_cs = OTG_CS_N p, pin_w = OTG_WR_N p, pin_reset = OTG_RST_N p\<rparr>"

lemmas hpi_port_defs = hpi_port_step_def OTG_DATA_def chip_side_def

text \<open>Pins that the software holds for two clocks arrive at the chip as they are, with the data while
  the write pin is low; held for a third clock, the software reads what the chip put on the data
  lines in the second. The software changes one pin per store, which takes several clocks, so
  the pins of Io_Handler are those of the chip.\<close>
theorem hpi_port_transparent:
  "let p = hpi_port_step False sw bus2 (hpi_port_step False sw bus1 p0)
   in chip_side float sw p = (if pin_w sw then sw\<lparr>pin_data := float\<rparr> else sw) \<and>
      from_sw_data_in (hpi_port_step False sw bus3 p) = bus3"
  by (simp add: hpi_port_defs Let_def)

text \<open>The data lines are released a clock before the write strobe ends: whenever the chip sees a
  write strobe rise, nothing drives its data lines at that edge, neither before nor after it, and the
  word it latches is whatever the lines float at. Only lines that keep their charge for the clock
  deliver the word the software wrote.\<close>
theorem write_data_released:
  assumes "write_strobe (chip_side float sw p) (chip_side float sw (hpi_port_step False sw bus p))"
  shows "OTG_DATA sw p = None \<and> OTG_DATA sw (hpi_port_step False sw bus p) = None \<and>
    pin_data (chip_side float sw (hpi_port_step False sw bus p)) = float"
  using assms by (simp add: write_strobe_def hpi_port_defs)

text \<open>The pins at the end of a write of \<open>0x1234\<close>: the write pin low for two clocks, then high.\<close>

theorem write_data_released_witness:
  "let lo = \<lparr>pin_address = 2, pin_data = 0x1234, pin_r = True, pin_cs = False, pin_w = False, pin_reset = True\<rparr>;
       hi = lo\<lparr>pin_w := True\<rparr>;
       p = hpi_port_step False lo 0x1234 (hpi_port_step False lo 0x1234 hpi_port_reset)
   in pin_data (chip_side 0xFFFF hi (hpi_port_step False hi 0xFFFF p)) = 0xFFFF"
proof -
  let ?lo = "\<lparr>pin_address = 2, pin_data = 0x1234, pin_r = True, pin_cs = False, pin_w = False, pin_reset = True\<rparr>"
  let ?hi = "?lo\<lparr>pin_w := True\<rparr>"
  let ?p = "hpi_port_step False ?lo 0x1234 (hpi_port_step False ?lo 0x1234 hpi_port_reset)"
  have "write_strobe (chip_side 0xFFFF ?hi ?p) (chip_side 0xFFFF ?hi (hpi_port_step False ?hi 0xFFFF ?p))"
    by (simp add: write_strobe_def hpi_port_defs)
  from write_data_released [OF this] show ?thesis by (simp add: Let_def)
qed

section \<open>A write access through the registers\<close>

text \<open>What the chip sees of the last two pin changes of a write, the write pin rising and the chip select
  rising, each held for two clocks: one write strobe, of the addressed port.\<close>

definition hold :: "hpi_pins \<Rightarrow> u16 \<Rightarrow> hpi_port \<Rightarrow> hpi_port" where
  "hold sw bus p = hpi_port_step False sw bus (hpi_port_step False sw bus p)"

lemma strobe_through_port:
  fixes bus :: u16 and p0 :: hpi_port
  assumes "\<not> pin_w lo" "\<not> pin_cs lo" "pin_reset lo"
  defines "hi \<equiv> lo\<lparr>pin_w := True\<rparr>"
  defines "p \<equiv> hold lo bus p0"
  shows "\<not> write_strobe (chip_side f lo p) (chip_side f hi p)"
    "write_strobe (chip_side f hi p) (chip_side f hi (hpi_port_step False hi bus p))"
    "pin_address (chip_side f hi (hpi_port_step False hi bus p)) = pin_address lo"
  using assms(1-3) by (simp_all add: write_strobe_def hpi_port_defs hi_def p_def hold_def)

end
