(* ===== verification/Vga.thy ===== *)
theory Vga
  imports Prelude
begin

text \<open>
  VGA_controller.sv: the raster of the display, whose vertical sync is the frame clock of the
  game. The registers are a record, a rising edge of the pixel clock is the function
  \<open>vga_step\<close>: every register takes a value computed from the registers before the edge.
\<close>

type_synonym u10 = "10 word"

section \<open>The registers and the pixel clock\<close>

record vga =
  VGA_HS :: bool
  VGA_VS :: bool
  VGA_BLANK_N :: bool
  h_counter :: u10
  v_counter :: u10

definition H_TOTAL :: u10 where "H_TOTAL = 800"
definition V_TOTAL :: u10 where "V_TOTAL = 525"

text \<open>The registers under reset, which is also how the device powers up.\<close>

definition vga_reset :: vga where
  "vga_reset = \<lparr>VGA_HS = False, VGA_VS = False, VGA_BLANK_N = False, h_counter = 0, v_counter = 0\<rparr>"

definition vga_comb :: "vga \<Rightarrow> vga" where
  "vga_comb g =
     (let h_in = (if h_counter g + 1 = H_TOTAL then 0 else h_counter g + 1);
          v_in = (if h_counter g + 1 = H_TOTAL
                  then (if v_counter g + 1 = V_TOTAL then 0 else v_counter g + 1) else v_counter g)
      in \<lparr>VGA_HS = \<not> (656 \<le> h_in \<and> h_in < 752), VGA_VS = \<not> (490 \<le> v_in \<and> v_in < 492),
          VGA_BLANK_N = (h_in < 640 \<and> v_in < 480), h_counter = h_in, v_counter = v_in\<rparr>)"

definition vga_step :: "bool \<Rightarrow> vga \<Rightarrow> vga" where
  "vga_step rst g = (if rst then vga_reset else vga_comb g)"

section \<open>The raster\<close>

text \<open>The pixel of the raster, counted in reading order from the top left corner of the screen
  through both blanking intervals; a frame has \<open>frame_pixels\<close> of them.\<close>

definition frame_pixels :: nat where "frame_pixels = 420000"

definition vga_at :: "nat \<Rightarrow> vga" where
  "vga_at p = \<lparr>VGA_HS = \<not> (656 \<le> p mod 800 \<and> p mod 800 < 752),
     VGA_VS = \<not> (490 \<le> p div 800 mod 525 \<and> p div 800 mod 525 < 492),
     VGA_BLANK_N = (p mod 800 < 640 \<and> p div 800 mod 525 < 480),
     h_counter = of_nat (p mod 800), v_counter = of_nat (p div 800 mod 525)\<rparr>"

lemma unat_u10: "n < 1024 \<Longrightarrow> unat (of_nat n :: u10) = n"
  by (simp add: unsigned_of_nat take_bit_nat_eq_self)

lemma of_nat_u10_less: "n < 1024 \<Longrightarrow> m < 1024 \<Longrightarrow> (of_nat n :: u10) < of_nat m \<longleftrightarrow> n < m"
  by (simp add: word_less_nat_alt unat_u10)

lemma of_nat_u10_le: "n < 1024 \<Longrightarrow> m < 1024 \<Longrightarrow> (of_nat n :: u10) \<le> of_nat m \<longleftrightarrow> n \<le> m"
  by (simp add: word_le_nat_alt unat_u10)

lemma of_nat_u10_eq: "n < 1024 \<Longrightarrow> m < 1024 \<Longrightarrow> (of_nat n :: u10) = of_nat m \<longleftrightarrow> n = m"
  by (auto simp: word_unat_eq_iff unat_u10)

lemma counters_step:
  assumes "h < 800" "v < 525"
  shows "vga_comb \<lparr>VGA_HS = a, VGA_VS = b, VGA_BLANK_N = c, h_counter = of_nat h, v_counter = of_nat v\<rparr> =
    (let h' = (h + 1) mod 800; v' = (if h + 1 = 800 then (v + 1) mod 525 else v)
     in \<lparr>VGA_HS = \<not> (656 \<le> h' \<and> h' < 752), VGA_VS = \<not> (490 \<le> v' \<and> v' < 492),
         VGA_BLANK_N = (h' < 640 \<and> v' < 480), h_counter = of_nat h', v_counter = of_nat v'\<rparr>)"
proof -
  define h' where "h' = (h + 1) mod 800"
  define v' where "v' = (if h + 1 = 800 then (v + 1) mod 525 else v)"
  have b: "h' < 800" "v' < 525" using assms(2) by (simp_all add: h'_def v'_def)
  have w: "(of_nat h :: u10) + 1 = H_TOTAL \<longleftrightarrow> h + 1 = 800" "(of_nat v :: u10) + 1 = V_TOTAL \<longleftrightarrow> v + 1 = 525"
    using of_nat_u10_eq [of "h + 1" 800] of_nat_u10_eq [of "v + 1" 525] assms
    by (simp_all add: H_TOTAL_def V_TOTAL_def add.commute)
  have h: "(if (of_nat h :: u10) + 1 = H_TOTAL then 0 else of_nat h + 1) = of_nat h'"
    using assms(1) unfolding w by (simp add: h'_def add.commute)
  have v: "(if (of_nat h :: u10) + 1 = H_TOTAL
      then (if (of_nat v :: u10) + 1 = V_TOTAL then 0 else of_nat v + 1) else of_nat v) = of_nat v'"
    using assms(2) unfolding w by (simp add: v'_def add.commute)
  have "(656 :: u10) \<le> of_nat h' \<longleftrightarrow> 656 \<le> h'" "(of_nat h' :: u10) < 752 \<longleftrightarrow> h' < 752" "(of_nat h' :: u10) < 640 \<longleftrightarrow> h' < 640"
    "(490 :: u10) \<le> of_nat v' \<longleftrightarrow> 490 \<le> v'" "(of_nat v' :: u10) < 492 \<longleftrightarrow> v' < 492" "(of_nat v' :: u10) < 480 \<longleftrightarrow> v' < 480"
    using of_nat_u10_le [of 656 h'] of_nat_u10_less [of h' 752] of_nat_u10_less [of h' 640]
      of_nat_u10_le [of 490 v'] of_nat_u10_less [of v' 492] of_nat_u10_less [of v' 480] b by simp_all
  then show ?thesis
    unfolding vga_comb_def vga.simps h v Let_def by (simp add: h'_def v'_def)
qed

lemma row_next: "(p + 1) div 800 = (if p mod 800 + 1 = 800 then p div 800 + 1 else p div 800)" for p :: nat
  by (simp add: div_Suc mod_Suc)

lemma vga_at_Suc: "vga_comb (vga_at p) = vga_at (p + 1)"
proof -
  have m: "(p mod 800 + 1) mod 800 = (p + 1) mod 800" by presburger
  have d: "(if p mod 800 + 1 = 800 then (p div 800 mod 525 + 1) mod 525 else p div 800 mod 525) = (p + 1) div 800 mod 525"
    unfolding row_next by (simp add: mod_Suc_eq)
  show ?thesis
    unfolding vga_at_def [of p] by (subst counters_step) (simp, simp, simp only: m d Let_def vga_at_def)
qed

lemma vga_at_mod: "vga_at (p mod frame_pixels) = vga_at p"
proof -
  have "p mod frame_pixels mod 800 = p mod 800" by (simp add: frame_pixels_def mod_mod_cancel)
  moreover have "p mod frame_pixels div 800 mod 525 = p div 800 mod 525"
    using mod_mult2_eq [of p 800 525] by (simp add: frame_pixels_def)
  ultimately show ?thesis by (simp add: vga_at_def)
qed

lemma vga_run_at: "(vga_step False ^^ n) (vga_at p) = vga_at (p + n)"
  by (induction n) (simp_all add: vga_step_def vga_at_Suc [simplified])

text \<open>After reset the two counters are those of pixel 0, while the sync outputs are low until the
  first edge.\<close>

lemma vga_first: "vga_step False vga_reset = vga_at 1"
proof -
  have "vga_comb vga_reset = vga_comb (vga_at 0)"
    by (simp add: vga_comb_def vga_reset_def vga_at_def)
  then show ?thesis by (simp add: vga_step_def vga_at_Suc [of 0, simplified])
qed

lemma vga_run_reset: "0 < n \<Longrightarrow> (vga_step False ^^ n) vga_reset = vga_at n"
  using vga_run_at [of "n - 1" 1] vga_first by (cases n) (simp_all add: funpow_swap1)

text \<open>The display timing: \<open>n\<close> pixel clocks after reset the registers show pixel \<open>n\<close> of the
  raster, with the sync pulses and the visible area at their places; so the raster repeats every
  800 * 525 pixels, every coordinate fits its counter, and in each frame the vertical sync, the
  frame clock of the game, falls and rises exactly once.\<close>
theorem vga_timing:
  assumes "0 < n"
  defines "g \<equiv> (vga_step False ^^ n) vga_reset"
  shows "unat (h_counter g) = n mod 800 \<and> unat (v_counter g) = n div 800 mod 525 \<and>
    (VGA_BLANK_N g \<longleftrightarrow> n mod 800 < 640 \<and> n div 800 mod 525 < 480) \<and>
    (VGA_HS g \<longleftrightarrow> \<not> (656 \<le> n mod 800 \<and> n mod 800 < 752)) \<and>
    (VGA_VS g \<and> \<not> VGA_VS ((vga_step False ^^ (n - 1)) vga_reset) \<longleftrightarrow> n = 1 \<or> n mod 420000 = 393600)"
proof -
  have g: "g = vga_at n" using vga_run_reset [OF assms(1)] by (simp add: g_def)
  have vs: "VGA_VS (vga_at m) \<longleftrightarrow> m mod 420000 < 392000 \<or> 393600 \<le> m mod 420000" for m
  proof -
    define q where "q = m mod 420000"
    have q: "q < 420000" by (simp add: q_def)
    then have "q div 800 mod 525 = q div 800" by simp
    moreover have "490 \<le> q div 800 \<and> q div 800 < 492 \<longleftrightarrow> 392000 \<le> q \<and> q < 393600"
      by (simp add: div_less_iff_less_mult less_eq_div_iff_mult_less_eq)
    ultimately have "VGA_VS (vga_at q) \<longleftrightarrow> q < 392000 \<or> 393600 \<le> q" by (auto simp: vga_at_def)
    then show ?thesis using vga_at_mod [of m] by (simp add: q_def frame_pixels_def)
  qed
  have "n mod 800 < 1024" "n div 800 mod 525 < 1024"
    using mod_less_divisor [of 800 n] mod_less_divisor [of 525 "n div 800"] by linarith+
  then have cnt: "unat (h_counter g) = n mod 800" "unat (v_counter g) = n div 800 mod 525"
    unfolding g by (simp_all add: vga_at_def unat_u10)
  have edge: "VGA_VS (vga_at n) \<and> \<not> VGA_VS (vga_at (n - 1)) \<longleftrightarrow> n mod 420000 = 393600"
  proof -
    obtain m where m: "n = Suc m" using assms(1) by (cases n) simp_all
    have "m mod 420000 < 420000" by simp
    then show ?thesis unfolding vs m diff_Suc_1 mod_Suc by (auto split: if_splits)
  qed
  show ?thesis
  proof (cases "n = 1")
    case True
    then show ?thesis using cnt vs [of 1] unfolding g by (simp add: vga_at_def vga_reset_def)
  next
    case False
    then have "(vga_step False ^^ (n - 1)) vga_reset = vga_at (n - 1)"
      using assms(1) by (intro vga_run_reset) simp
    then show ?thesis using cnt edge False unfolding g by (simp add: vga_at_def)
  qed
qed

theorem vga_timing_witness:
  "VGA_VS ((vga_step False ^^ 393600) vga_reset) \<and> \<not> VGA_VS ((vga_step False ^^ 393599) vga_reset)"
proof -
  have e: "(0 :: nat) < 393600" "(393600 :: nat) mod 420000 = 393600" "393600 - 1 = (393599 :: nat)" by simp_all
  show ?thesis using vga_timing [OF e(1)] unfolding e(3) by (elim conjE) (simp only: e(2) simp_thms)
qed

end
