(* ===== verification/Game_Cannon.thy ===== *)
theory Game_Cannon
  imports Vga
begin

text \<open>
  The player's side of the game hardware: the decoding of the keycode port in final_project.sv,
  the cannon (cannon.sv) and the seven-segment digits (HexDriver.sv). Registers are records, a
  rising edge of the 50 MHz clock is a step function; the cannon advances on the rising edge of the
  frame clock, which it detects itself. The coordinates are 10 bits wide and wrap; the distances of
  the pixel test are 32-bit signed and cannot overflow, so they are integers here.
\<close>

section \<open>The keys\<close>

text \<open>The two keycodes are the bytes of the port; the keys are those of the USB HID usage table.\<close>

definition key_down :: "u8 \<Rightarrow> u16 \<Rightarrow> bool" where
  "key_down k keycode \<longleftrightarrow> ucast (drop_bit 8 keycode) = k \<or> (ucast keycode :: u8) = k"

definition space_key :: "u16 \<Rightarrow> bool" where "space_key = key_down 0x2c"
definition left_key :: "u16 \<Rightarrow> bool" where "left_key = key_down 0x50"
definition right_key :: "u16 \<Rightarrow> bool" where "right_key = key_down 0x4f"

section \<open>The cannon\<close>

definition Cannon_X_Center :: u10 where "Cannon_X_Center = 320"
definition Cannon_Y_Reset_pos :: u10 where "Cannon_Y_Reset_pos = 470"
definition Cannon_X_Min :: u10 where "Cannon_X_Min = 0"
definition Cannon_X_Max :: u10 where "Cannon_X_Max = 639"
definition Cannon_X_Step :: u10 where "Cannon_X_Step = 2"
definition Cannon_Size :: u10 where "Cannon_Size = 4"

lemmas cannon_consts = Cannon_X_Center_def Cannon_Y_Reset_pos_def Cannon_X_Min_def Cannon_X_Max_def
  Cannon_X_Step_def Cannon_Size_def

record edge_detector =
  frame_clk_delayed :: bool
  frame_clk_rising_edge :: bool

definition edge_step :: "bool \<Rightarrow> edge_detector \<Rightarrow> edge_detector" where
  "edge_step frame_clk e = \<lparr>frame_clk_delayed = frame_clk,
     frame_clk_rising_edge = (frame_clk \<and> \<not> frame_clk_delayed e)\<rparr>"

record cannon =
  Cannon_X_Pos :: u10
  Cannon_Y_Pos :: u10
  Cannon_X_Motion :: u10
  Cannon_Y_Motion :: u10

definition cannon_reset :: cannon where
  "cannon_reset = \<lparr>Cannon_X_Pos = Cannon_X_Center, Cannon_Y_Pos = Cannon_Y_Reset_pos,
     Cannon_X_Motion = 0, Cannon_Y_Motion = 0\<rparr>"

text \<open>The combinational block in a clock cycle with a rising edge of the frame clock: the motion of the
  next frame from the keys, the position from the motion of this frame.\<close>

definition cannon_frame :: "bool \<Rightarrow> bool \<Rightarrow> cannon \<Rightarrow> cannon" where
  "cannon_frame left right c =
     (let (xm, ym) =
        (if left then (if Cannon_X_Pos c \<le> Cannon_X_Min + Cannon_Size then 0 else NOT Cannon_X_Step + 1, 0)
         else if right then
           (if Cannon_X_Pos c + Cannon_Size \<ge> Cannon_X_Max then 0 else Cannon_X_Step, 0)
         else (0, Cannon_Y_Motion c))
      in \<lparr>Cannon_X_Pos = Cannon_X_Pos c + Cannon_X_Motion c, Cannon_Y_Pos = Cannon_Y_Pos c + Cannon_Y_Motion c,
          Cannon_X_Motion = xm, Cannon_Y_Motion = ym\<rparr>)"

definition cannon_comb :: "bool \<Rightarrow> bool \<Rightarrow> bool \<Rightarrow> cannon \<Rightarrow> cannon" where
  "cannon_comb rising left right c = (if rising then cannon_frame left right c else c)"

definition cannon_step :: "bool \<Rightarrow> bool \<Rightarrow> bool \<Rightarrow> bool \<Rightarrow> cannon \<Rightarrow> cannon" where
  "cannon_step rst rising left right c = (if rst then cannon_reset else cannon_comb rising left right c)"

definition is_cannon :: "u10 \<Rightarrow> u10 \<Rightarrow> cannon \<Rightarrow> bool" where
  "is_cannon DrawX DrawY c =
     (let DistX = uint DrawX - uint (Cannon_X_Pos c); DistY = uint DrawY - uint (Cannon_Y_Pos c);
          Size = uint Cannon_Size
      in DistX * DistX + DistY * DistY \<le> Size * Size)"

section \<open>Where the cannon can be\<close>

text \<open>The invariant: on its row, at an even column, and with room for its motion.\<close>

definition cannon_ok :: "cannon \<Rightarrow> bool" where
  "cannon_ok c \<longleftrightarrow> Cannon_Y_Pos c = 470 \<and> Cannon_Y_Motion c = 0 \<and> even (unat (Cannon_X_Pos c)) \<and>
     2 \<le> unat (Cannon_X_Pos c) \<and> unat (Cannon_X_Pos c) \<le> 638 \<and>
     (Cannon_X_Motion c = 0 \<or> Cannon_X_Motion c = 2 \<and> unat (Cannon_X_Pos c) \<le> 636 \<or>
      Cannon_X_Motion c = - 2 \<and> 4 \<le> unat (Cannon_X_Pos c))"

lemma cannon_reset_ok: "cannon_ok cannon_reset"
  by (simp add: cannon_ok_def cannon_reset_def cannon_consts)

lemma unat_move:
  fixes x :: u10
  assumes "unat x < 1022"
  shows "unat (x + 2) = unat x + 2" "2 \<le> unat x \<Longrightarrow> unat (x + - 2) = unat x - 2"
    "x \<le> 4 \<longleftrightarrow> unat x \<le> 4"
proof -
  have "unat x + unat (2 :: u10) < 2 ^ LENGTH(10)" using assms by simp
  then show "unat (x + 2) = unat x + 2" by (subst unat_add_lem [THEN iffD1]) simp_all
  show "2 \<le> unat x \<Longrightarrow> unat (x + - 2) = unat x - 2"
    by (simp add: unat_sub [of 2 x, simplified] word_le_nat_alt)
  show "x \<le> 4 \<longleftrightarrow> unat x \<le> 4" by (simp add: word_le_nat_alt)
qed

lemma right_edge:
  fixes x :: u10
  assumes "unat x \<le> 638"
  shows "x + 4 \<ge> 639 \<longleftrightarrow> 635 \<le> unat x"
proof -
  have "unat x + unat (4 :: u10) < 2 ^ LENGTH(10)" using assms by simp
  then have "unat (x + 4) = unat x + 4" by (subst unat_add_lem [THEN iffD1]) simp_all
  then show ?thesis by (simp add: word_le_nat_alt)
qed

text \<open>One frame over plain numbers.\<close>

definition cannon_col :: "cannon \<Rightarrow> int" where "cannon_col c = uint (Cannon_X_Pos c)"

lemma cannon_frame_ok:
  assumes "cannon_ok c"
  shows "cannon_ok (cannon_frame l r c)"
proof -
  let ?x = "unat (Cannon_X_Pos c)"
  note a = assms [unfolded cannon_ok_def]
  have "unat (Cannon_X_Pos c + Cannon_X_Motion c) =
      (if Cannon_X_Motion c = 0 then ?x else if Cannon_X_Motion c = 2 then ?x + 2 else ?x - 2)"
    using a unat_move [of "Cannon_X_Pos c"] by auto
  then have x: "unat (Cannon_X_Pos (cannon_frame l r c)) \<le> ?x + 2" "?x \<le> unat (Cannon_X_Pos (cannon_frame l r c)) + 2"
    "even (unat (Cannon_X_Pos (cannon_frame l r c)))" "2 \<le> unat (Cannon_X_Pos (cannon_frame l r c))"
    "unat (Cannon_X_Pos (cannon_frame l r c)) \<le> 638"
    using a by (auto simp: cannon_frame_def split_beta Let_def split: if_splits)
  have m: "Cannon_X_Motion (cannon_frame l r c) =
      (if l then (if ?x \<le> 4 then 0 else - 2) else if r then (if 635 \<le> ?x then 0 else 2) else 0)"
    using a unat_move(3) [of "Cannon_X_Pos c"] right_edge [of "Cannon_X_Pos c"]
    by (simp add: cannon_frame_def cannon_consts)
  have y: "Cannon_Y_Pos (cannon_frame l r c) = 470" "Cannon_Y_Motion (cannon_frame l r c) = 0"
    using a by (simp_all add: cannon_frame_def split_beta Let_def)
  have "even ?x" using a by blast
  then have "?x \<le> 4 \<or> 6 \<le> ?x" "635 \<le> ?x \<or> ?x \<le> 634" by presburger+
  then show ?thesis unfolding cannon_ok_def m using x y by auto
qed

lemma cannon_step_ok: "cannon_ok c \<Longrightarrow> cannon_ok (cannon_step rst rising l r c)"
  using cannon_frame_ok cannon_reset_ok by (simp add: cannon_step_def cannon_comb_def)

text \<open>The motion of the next frame and the column of the next frame, over plain numbers.\<close>

lemma cannon_frame_motion:
  assumes "cannon_ok c"
  shows "Cannon_X_Motion (cannon_frame l r c) =
      (if l then (if unat (Cannon_X_Pos c) \<le> 4 then 0 else - 2)
       else if r then (if 635 \<le> unat (Cannon_X_Pos c) then 0 else 2) else 0)"
  using assms unat_move(3) [of "Cannon_X_Pos c"] right_edge [of "Cannon_X_Pos c"]
  by (simp add: cannon_ok_def cannon_frame_def cannon_consts)

lemma cannon_frame_pos:
  assumes "cannon_ok c"
  shows "unat (Cannon_X_Pos (cannon_frame l r c)) =
    (if Cannon_X_Motion c = 0 then unat (Cannon_X_Pos c)
     else if Cannon_X_Motion c = 2 then unat (Cannon_X_Pos c) + 2 else unat (Cannon_X_Pos c) - 2)"
  using assms unat_move [of "Cannon_X_Pos c"]
  by (auto simp: cannon_ok_def cannon_frame_def split_beta Let_def)

text \<open>Holding a key: after the frame that sees it the cannon moves two columns a frame, until it has
  passed the border test by one step.\<close>

lemma hold_left:
  assumes "cannon_ok c" "Cannon_X_Motion c = 0" "4 < unat (Cannon_X_Pos c)"
  shows "unat (Cannon_X_Pos ((cannon_frame True r ^^ Suc k) c)) = max 2 (unat (Cannon_X_Pos c) - 2 * k) \<and>
    cannon_ok ((cannon_frame True r ^^ Suc k) c) \<and>
    Cannon_X_Motion ((cannon_frame True r ^^ Suc k) c) =
      (if unat (Cannon_X_Pos c) < 2 * k + 4 then 0 else - 2)"
proof (induction k)
  case 0
  then show ?case
    using assms cannon_frame_ok [OF assms(1)] cannon_frame_pos [OF assms(1)] cannon_frame_motion [OF assms(1)] by simp
next
  case (Suc k)
  let ?c = "(cannon_frame True r ^^ Suc k) c"
  have ok: "cannon_ok ?c" using Suc by blast
  obtain m where m: "unat (Cannon_X_Pos c) = 2 * m" using assms(1) by (auto simp: cannon_ok_def)
  show ?case
    using Suc cannon_frame_ok [OF ok, of True r] cannon_frame_pos [OF ok, of True r]
      cannon_frame_motion [OF ok, of True r] assms(3)
    unfolding m by (auto simp: max_def split: if_splits) presburger+
qed

lemma hold_right:
  assumes "cannon_ok c" "Cannon_X_Motion c = 0" "unat (Cannon_X_Pos c) < 635"
  shows "unat (Cannon_X_Pos ((cannon_frame False True ^^ Suc k) c)) = min 638 (unat (Cannon_X_Pos c) + 2 * k) \<and>
    cannon_ok ((cannon_frame False True ^^ Suc k) c) \<and>
    Cannon_X_Motion ((cannon_frame False True ^^ Suc k) c) =
      (if 636 < unat (Cannon_X_Pos c) + 2 * k then 0 else 2)"
proof (induction k)
  case 0
  then show ?case
    using assms cannon_frame_ok [OF assms(1)] cannon_frame_pos [OF assms(1)] cannon_frame_motion [OF assms(1)] by simp
next
  case (Suc k)
  let ?c = "(cannon_frame False True ^^ Suc k) c"
  have ok: "cannon_ok ?c" using Suc by blast
  obtain m where m: "unat (Cannon_X_Pos c) = 2 * m" using assms(1) by (auto simp: cannon_ok_def)
  show ?case
    using Suc cannon_frame_ok [OF ok, of False True] cannon_frame_pos [OF ok, of False True]
      cannon_frame_motion [OF ok, of False True] assms(3)
    unfolding m by (auto simp: min_def split: if_splits) presburger+
qed

text \<open>C22. The cannon stays on its row and on the screen whatever keys are pressed: in every run of the
  clock from reset its row is 470, its column is even and between 2 and 638. (Both borders are
  passed by one step of the tests at 4 and 635, since the test looks at the column before the
  motion of the frame is added.)\<close>
theorem cannon_on_screen:
  "let c = fold (\<lambda>(rst, rising, l, r). cannon_step rst rising l r) inputs cannon_reset
   in Cannon_Y_Pos c = 470 \<and> 2 \<le> unat (Cannon_X_Pos c) \<and> unat (Cannon_X_Pos c) \<le> 638 \<and>
     even (unat (Cannon_X_Pos c))"
proof -
  have "cannon_ok (fold (\<lambda>(rst, rising, l, r). cannon_step rst rising l r) inputs cannon_reset)"
    by (rule fold_inv [where P = cannon_ok]) (auto intro: cannon_reset_ok cannon_step_ok)
  then show ?thesis by (simp add: cannon_ok_def Let_def)
qed

text \<open>Holding an arrow key moves a resting cannon: nothing in the frame that first sees the key, then
  two columns a frame, until it stops at column 2 on the left or 638 on the right; the left arrow
  wins when both are held.\<close>
theorem cannon_moves:
  assumes "cannon_ok c" "Cannon_X_Motion c = 0"
  shows "(4 < unat (Cannon_X_Pos c) \<longrightarrow>
      unat (Cannon_X_Pos ((cannon_frame True r ^^ Suc k) c)) = max 2 (unat (Cannon_X_Pos c) - 2 * k)) \<and>
    (unat (Cannon_X_Pos c) < 635 \<longrightarrow>
      unat (Cannon_X_Pos ((cannon_frame False True ^^ Suc k) c)) = min 638 (unat (Cannon_X_Pos c) + 2 * k))"
  using hold_left [OF assms, where r = r and k = k] hold_right [OF assms, where k = k] by blast

theorem cannon_moves_witness:
  "unat (Cannon_X_Pos ((cannon_frame True False ^^ Suc 200) cannon_reset)) = 2 \<and>
   unat (Cannon_X_Pos ((cannon_frame False True ^^ Suc 10) cannon_reset)) = 340"
proof -
  have "Cannon_X_Motion cannon_reset = 0" "unat (Cannon_X_Pos cannon_reset) = 320"
    by (simp_all add: cannon_reset_def cannon_consts)
  with cannon_moves [OF cannon_reset_ok, where r = False and k = 200]
    cannon_moves [OF cannon_reset_ok, where r = False and k = 10]
  show ?thesis by (simp del: funpow.simps)
qed

section \<open>The digits\<close>

text \<open>HexDriver.sv: the segments, active low, of a hexadecimal digit; and the eight digits of
  final_project.sv. The port connection of the fourth digit has five bits, \<open>keycode[15:11]\<close>, of which
  the four-bit port takes the lower four.\<close>

definition HexDriver :: "4 word \<Rightarrow> 7 word" where
  "HexDriver d = [0x40, 0x79, 0x24, 0x30, 0x19, 0x12, 0x02, 0x78,
     0x00, 0x10, 0x08, 0x03, 0x46, 0x21, 0x06, 0x0E] ! unat d"

definition HEX_display :: "u16 \<Rightarrow> 7 word list" where
  "HEX_display keycode = map (\<lambda>i. HexDriver (ucast (drop_bit i keycode))) [0, 4, 8, 11]"

text \<open>Different digits have different segments.\<close>

lemma HexDriver_inj: "inj HexDriver"
proof (rule injI)
  let ?L = "[0x40, 0x79, 0x24, 0x30, 0x19, 0x12, 0x02, 0x78,
     0x00, 0x10, 0x08, 0x03, 0x46, 0x21, 0x06, 0x0E] :: 7 word list"
  fix a b assume "HexDriver a = HexDriver b"
  then have e: "?L ! unat a = ?L ! unat b" by (simp only: HexDriver_def)
  have "distinct ?L" "length ?L = 16" by simp_all
  moreover have "unat a < 16" "unat b < 16" using unsigned_less [of a] unsigned_less [of b] by simp_all
  ultimately have "unat a = unat b" using e nth_eq_iff_index_eq by metis
  then show "a = b" by (rule word_unat_eq_iff [THEN iffD2])
qed

lemma hex_digit_four: "HEX_display keycode ! 3 = HexDriver (ucast (drop_bit 12 keycode)) \<longleftrightarrow>
    (ucast (drop_bit 11 keycode) :: 4 word) = ucast (drop_bit 12 keycode)"
  using HexDriver_inj by (auto simp: HEX_display_def inj_eq)

end
