(* ===== verification/Game_Laser.thy ===== *)
theory Game_Laser
  imports Game_Cannon
begin

text \<open>
  The shot of the cannon (laser.sv). Its column is taken from the cannon through the register
  \<open>laser_X_Motion\<close>, which holds a column and not a motion. The registers \<open>key_press\<close> and
  \<open>key_press_in\<close> of the source, which nothing reads, are left out.
\<close>

definition laser_X_Center :: u10 where "laser_X_Center = 320"
definition laser_Y_Reset_pos :: u10 where "laser_Y_Reset_pos = 470"
definition laser_Y_Min :: u10 where "laser_Y_Min = 0"
definition laser_Y_Step :: u10 where "laser_Y_Step = 7"
definition laser_Size :: u10 where "laser_Size = 2"

lemmas laser_consts = laser_X_Center_def laser_Y_Reset_pos_def laser_Y_Min_def laser_Y_Step_def laser_Size_def

record laser =
  laser_X_Pos :: u10
  laser_Y_Pos :: u10
  laser_X_Motion :: u10
  laser_Y_Motion :: u10
  laser_on :: bool

definition laser_reset :: laser where
  "laser_reset = \<lparr>laser_X_Pos = laser_X_Center, laser_Y_Pos = laser_Y_Reset_pos,
     laser_X_Motion = 0, laser_Y_Motion = 0, laser_on = False\<rparr>"

text \<open>The combinational block of a frame: the assignments of the two branches of the case in their
  order, on the next values \<open>n\<close>, which start as the present ones. \<open>cx\<close> is the next column of
  the cannon.\<close>

definition laser_frame :: "bool \<Rightarrow> u10 \<Rightarrow> laser \<Rightarrow> laser" where
  "laser_frame key cx q =
     (let n = q;
          n = (if laser_on q \<and> laser_Y_Pos q \<le> laser_Y_Min + laser_Size
               then n\<lparr>laser_X_Motion := cx, laser_Y_Motion := NOT laser_Y_Step + 1,
                      laser_Y_Pos := laser_Y_Pos q + laser_Y_Motion q, laser_on := False\<rparr>
               else n);
          n = (if laser_on q \<and> laser_Y_Pos q > laser_Y_Min + laser_Size
               then n\<lparr>laser_X_Motion := laser_X_Motion q, laser_Y_Motion := NOT laser_Y_Step + 1,
                      laser_Y_Pos := laser_Y_Pos q + laser_Y_Motion q, laser_on := True\<rparr>
               else if key
               then n\<lparr>laser_X_Motion := cx, laser_Y_Pos := laser_Y_Reset_pos,
                      laser_Y_Motion := NOT laser_Y_Step + 1, laser_on := True\<rparr>
               else n\<lparr>laser_X_Motion := cx, laser_Y_Motion := 0, laser_Y_Pos := 470, laser_on := False\<rparr>)
      in n\<lparr>laser_X_Pos := laser_X_Motion q\<rparr>)"

definition laser_comb :: "bool \<Rightarrow> bool \<Rightarrow> u10 \<Rightarrow> laser \<Rightarrow> laser" where
  "laser_comb rising key cx q = (if rising then laser_frame key cx q else q)"

definition laser_step :: "bool \<Rightarrow> bool \<Rightarrow> bool \<Rightarrow> u10 \<Rightarrow> laser \<Rightarrow> laser" where
  "laser_step rst rising key cx q = (if rst then laser_reset else laser_comb rising key cx q)"

definition is_laser :: "u10 \<Rightarrow> u10 \<Rightarrow> laser \<Rightarrow> bool" where
  "is_laser DrawX DrawY q =
     (let DistX = uint DrawX - uint (laser_X_Pos q); DistY = uint DrawY - uint (laser_Y_Pos q);
          Size = uint laser_Size
      in DistX * DistX + DistY * DistY \<le> Size * Size \<and> laser_on q)"

section \<open>The shot as a state machine\<close>

text \<open>
  What the registers mean: no shot, or a shot that has flown \<open>k\<close> frames in the column it was
  fired at. A frame advances a flying shot by seven rows; after 67 frames it is at row 1 and ends,
  and a new one starts if the key is down.
\<close>

datatype shot = Ready | Flying nat u10

fun shot_frame :: "bool \<Rightarrow> u10 \<Rightarrow> shot \<Rightarrow> shot" where
  "shot_frame key cx Ready = (if key then Flying 0 cx else Ready)"
| "shot_frame key cx (Flying k x) =
     (if k < 67 then Flying (Suc k) x else if key then Flying 0 cx else Ready)"

fun shot_abs :: "laser \<Rightarrow> shot \<Rightarrow> bool" where
  "shot_abs q Ready \<longleftrightarrow> \<not> laser_on q \<and> laser_Y_Pos q = 470 \<and> laser_Y_Motion q = 0"
| "shot_abs q (Flying k x) \<longleftrightarrow> laser_on q \<and> k \<le> 67 \<and> unat (laser_Y_Pos q) = 470 - 7 * k \<and>
     laser_Y_Motion q = - 7 \<and> laser_X_Motion q = x \<and> (0 < k \<longrightarrow> laser_X_Pos q = x)"

lemma laser_reset_ready: "shot_abs laser_reset Ready"
  by (simp add: laser_reset_def laser_consts)

lemma unat_climb: "7 \<le> unat y \<Longrightarrow> unat (y + - 7) = unat y - 7" for y :: u10
  by (simp add: unat_sub [of 7 y, simplified] word_le_nat_alt)

lemma laser_frame_abs:
  assumes "shot_abs q s"
  shows "shot_abs (laser_frame key cx q) (shot_frame key cx s)"
proof (cases s)
  case Ready
  then show ?thesis using assms by (simp add: laser_frame_def laser_consts)
next
  case (Flying k x)
  then have a: "laser_on q" "k \<le> 67" "unat (laser_Y_Pos q) = 470 - 7 * k" "laser_Y_Motion q = - 7"
    "laser_X_Motion q = x" using assms by auto
  have top: "laser_Y_Pos q \<le> 2 \<longleftrightarrow> k = 67" using a(2,3) by (simp add: word_le_nat_alt) arith
  show ?thesis
  proof (cases "k = 67")
    case True
    then show ?thesis using Flying a top by (auto simp: laser_frame_def laser_consts not_le [symmetric])
  next
    case False
    then have "7 \<le> unat (laser_Y_Pos q)" using a(2,3) by simp
    note y = unat_climb [OF this]
    show ?thesis
      using False Flying a top y by (simp add: laser_frame_def laser_consts not_le [symmetric])
  qed
qed

lemma laser_step_abs: "\<exists>s. shot_abs q s \<Longrightarrow> \<exists>s. shot_abs (laser_step rst rising key cx q) s"
  using laser_reset_ready laser_frame_abs by (simp only: laser_step_def laser_comb_def split: if_split) blast

lemma shot_abs_det: "shot_abs q s \<Longrightarrow> laser_on q \<longleftrightarrow> s \<noteq> Ready"
  by (cases s) auto

text \<open>A shot that was fired flies its 67 frames whatever keys are pressed and wherever the cannon goes.\<close>

lemma flight:
  assumes "length ks = k" "k \<le> 67"
  shows "fold (\<lambda>(key, cx). shot_frame key cx) ks (Flying 0 x) = Flying k x"
  using assms
proof (induction ks arbitrary: k rule: rev_induct)
  case (snoc a ks)
  then show ?case by (cases a) auto
qed simp

lemma laser_run_abs:
  assumes "shot_abs q s"
  shows "shot_abs (fold (\<lambda>(key, cx). laser_frame key cx) ks q) (fold (\<lambda>(key, cx). shot_frame key cx) ks s)"
  using assms by (induction ks arbitrary: q s) (auto intro: laser_frame_abs)

text \<open>C23. The registers of the shot implement the state machine of a single shot: whatever the keys and
  the columns of the cannon in the frames since reset, the shot is visible exactly while the
  machine has one in flight, at the row that its number of frames gives, and in the column it was
  fired at.\<close>
theorem laser_refines_shot:
  "let q = fold (\<lambda>(key, cx). laser_frame key cx) ks laser_reset;
       s = fold (\<lambda>(key, cx). shot_frame key cx) ks Ready
   in case s of Ready \<Rightarrow> \<not> laser_on q
      | Flying k x \<Rightarrow> laser_on q \<and> k \<le> 67 \<and> unat (laser_Y_Pos q) = 470 - 7 * k \<and>
          (k = 0 \<or> laser_X_Pos q = x)"
proof -
  have "shot_abs (fold (\<lambda>(key, cx). laser_frame key cx) ks laser_reset)
      (fold (\<lambda>(key, cx). shot_frame key cx) ks Ready)"
    by (rule laser_run_abs [OF laser_reset_ready])
  then show ?thesis by (cases "fold (\<lambda>(key, cx). shot_frame key cx) ks Ready") (auto simp: Let_def)
qed

text \<open>One key press fires one shot: fired at column \<open>cx\<close>, it is at row 470 - 7 k in that column after k
  more frames, for k up to 67, whatever happens on the keyboard meanwhile; in the 68th frame it
  ends, and a new one starts at the cannon exactly if the key is down.\<close>
theorem laser_flight:
  fixes cx :: u10
  assumes "shot_abs q Ready" "length ks \<le> 67"
  defines "q' \<equiv> fold (\<lambda>(key, cx). laser_frame key cx) ks (laser_frame True cx q)"
  shows "laser_on q' \<and> unat (laser_Y_Pos q') = 470 - 7 * length ks \<and> (ks = [] \<or> laser_X_Pos q' = cx) \<and>
    (length ks = 67 \<longrightarrow> laser_on (laser_frame key cx' q') = key \<and> laser_Y_Pos (laser_frame key cx' q') = 470)"
proof -
  have "shot_abs (laser_frame True cx q) (Flying 0 cx)" using laser_frame_abs [OF assms(1), of True cx] by simp
  from laser_run_abs [OF this, of ks] have a: "shot_abs q' (Flying (length ks) cx)"
    using flight [OF refl assms(2)] by (simp add: q'_def)
  have "laser_on (laser_frame key cx' q') = key \<and> laser_Y_Pos (laser_frame key cx' q') = 470" if "length ks = 67"
    using laser_frame_abs [OF a, of key cx'] that
    by (cases key) (auto simp: word_unat_eq_iff)
  then show ?thesis using a by auto
qed

theorem laser_flight_witness:
  "laser_on (laser_frame False 7 (laser_frame True 320 laser_reset)) \<and>
   unat (laser_Y_Pos (laser_frame False 7 (laser_frame True 320 laser_reset))) = 463 \<and>
   laser_X_Pos (laser_frame False 7 (laser_frame True 320 laser_reset)) = 320"
  using laser_flight [OF laser_reset_ready, of "[(False, 7)]" 320] by simp

end
