(* ===== verification/Game_Top.thy ===== *)
theory Game_Top
  imports Game_Laser
begin

text \<open>
  The clocked parts of final_project.sv together: the reset synchroniser, the pixel clock, the raster,
  the cannon and the shot. A step is a rising edge of the 50 MHz clock; every register takes a value
  computed from the registers before the edge. The raster is clocked by VGA_CLK, a register of the
  50 MHz domain, so it advances in the steps in which VGA_CLK rises. Whether the raster then sees the
  reset of before or of after the edge is a race between two signals that change together: it is the
  parameter \<open>late\<close>, and no result depends on it.
\<close>

section \<open>The registers and the clock\<close>

record game =
  Reset_h :: bool
  VGA_CLK :: bool
  raster :: vga
  cannon_edge :: edge_detector
  laser_edge :: edge_detector
  the_cannon :: cannon
  the_laser :: laser

definition game_step :: "bool \<Rightarrow> bool \<Rightarrow> u16 \<Rightarrow> game \<Rightarrow> game" where
  "game_step late KEY0 keycode g =
     (let left = left_key keycode; right = right_key keycode; space = space_key keycode;
          cannon_in = cannon_comb (frame_clk_rising_edge (cannon_edge g)) left right (the_cannon g);
          clk = (if Reset_h g then False else \<not> VGA_CLK g)
      in \<lparr>Reset_h = (\<not> KEY0), VGA_CLK = clk,
          raster = (if \<not> VGA_CLK g \<and> clk then vga_step (if late then \<not> KEY0 else Reset_h g) (raster g)
                    else raster g),
          cannon_edge = edge_step (VGA_VS (raster g)) (cannon_edge g),
          laser_edge = edge_step (VGA_VS (raster g)) (laser_edge g),
          the_cannon = cannon_step (Reset_h g) (frame_clk_rising_edge (cannon_edge g)) left right (the_cannon g),
          the_laser = laser_step (Reset_h g) (frame_clk_rising_edge (laser_edge g)) space
            (Cannon_X_Pos cannon_in) (the_laser g)\<rparr>)"

text \<open>color_mapper: the colour of a pixel, red, green and blue.\<close>

definition color_mapper :: "bool \<Rightarrow> bool \<Rightarrow> u8 \<times> u8 \<times> u8" where
  "color_mapper on_cannon on_laser =
     (if on_cannon then (0x55, 0xff, 0x55) else if on_laser then (0xff, 0xff, 0xff) else (0, 0, 0))"

definition pixel :: "game \<Rightarrow> u8 \<times> u8 \<times> u8" where
  "pixel g = color_mapper
     (is_cannon (h_counter (raster g)) (v_counter (raster g)) (the_cannon g))
     (is_laser (h_counter (raster g)) (v_counter (raster g)) (the_laser g))"

section \<open>The reset\<close>

text \<open>
  The reset button stops VGA_CLK, so the raster is not clocked while the reset is held: its own
  synchronous reset is not seen, and the raster goes on where it was.
\<close>

lemma reset_holds:
  assumes "Reset_h g"
  shows "Reset_h ((game_step late False k ^^ n) g) \<and> raster ((game_step late False k ^^ n) g) = raster g"
  by (induction n) (auto simp: game_step_def Let_def assms)

lemma reset_players:
  assumes "Reset_h g"
  shows "the_cannon (game_step late KEY0 k g) = cannon_reset" "the_laser (game_step late KEY0 k g) = laser_reset"
  using assms by (simp_all add: game_step_def Let_def cannon_step_def laser_step_def)

section \<open>One frame of the clock\<close>

text \<open>The clock cycles of a frame, counted from a pixel clock edge: in cycle \<open>t\<close> the raster is at pixel
  \<open>t div 2\<close>, and the two edge detectors have seen the frame clock of the two cycles before.\<close>

definition vs_at :: "nat \<Rightarrow> bool" where "vs_at t \<longleftrightarrow> VGA_VS (vga_at (t div 2))"

definition detector_at :: "nat \<Rightarrow> edge_detector" where
  "detector_at t = \<lparr>frame_clk_delayed = vs_at (t + 1), frame_clk_rising_edge = (vs_at (t + 1) \<and> \<not> vs_at t)\<rparr>"

text \<open>A running game: cycle \<open>t + 2\<close>.\<close>

definition playing :: "nat \<Rightarrow> game \<Rightarrow> bool" where
  "playing t g \<longleftrightarrow> \<not> Reset_h g \<and> VGA_CLK g = even t \<and> raster g = vga_at ((t + 2) div 2) \<and>
     cannon_edge g = detector_at t \<and> laser_edge g = detector_at t"

definition players :: "game \<Rightarrow> cannon \<times> laser" where
  "players g = (the_cannon g, the_laser g)"

definition players_frame :: "u16 \<Rightarrow> cannon \<times> laser \<Rightarrow> cannon \<times> laser" where
  "players_frame k = (\<lambda>(c, q). let c' = cannon_frame (left_key k) (right_key k) c
     in (c', laser_frame (space_key k) (Cannon_X_Pos c') q))"

abbreviation tick_at :: "nat \<Rightarrow> bool" where
  "tick_at t \<equiv> frame_clk_rising_edge (detector_at t)"

lemma half_Suc: "Suc t div 2 = (if even t then t div 2 else Suc (t div 2))"
  by (simp add: div_Suc mod_Suc) presburger

lemma playing_step:
  assumes "playing t g"
  shows "playing (Suc t) (game_step late True k g)"
    "players (game_step late True k g) = (if tick_at t then players_frame k (players g) else players g)"
proof -
  have vs: "VGA_VS (raster g) = vs_at (t + 2)" using assms by (simp add: playing_def vs_at_def)
  have "raster (game_step late True k g) = vga_at ((Suc t + 2) div 2)"
    using assms by (simp add: playing_def game_step_def Let_def vga_step_def vga_at_Suc [simplified] half_Suc)
  moreover have "edge_step (vs_at (t + 2)) (detector_at t) = detector_at (Suc t)"
    by (simp add: edge_step_def detector_at_def)
  ultimately show "playing (Suc t) (game_step late True k g)"
    using assms vs by (simp add: playing_def game_step_def Let_def)
  show "players (game_step late True k g) = (if tick_at t then players_frame k (players g) else players g)"
    using assms by (simp add: playing_def game_step_def Let_def players_def players_frame_def cannon_step_def
        cannon_comb_def laser_step_def laser_comb_def)
qed

lemma playing_run: "playing t g \<Longrightarrow> playing (t + n) ((game_step late True k ^^ n) g)"
  by (induction n) (simp_all add: playing_step(1))

lemma players_idle:
  assumes "playing t g" "\<And>i. i < n \<Longrightarrow> \<not> tick_at (t + i)"
  shows "players ((game_step late True k ^^ n) g) = players g"
  using assms(2)
proof (induction n)
  case (Suc n)
  then show ?case using playing_step(2) [OF playing_run [OF assms(1), of n late k], of late k] by simp
qed simp

text \<open>The frame clock rises once in 840000 cycles.\<close>

lemma vs_at_iff: "vs_at t \<longleftrightarrow> t mod 840000 < 784000 \<or> 787200 \<le> t mod 840000"
proof -
  define q where "q = t div 2 mod 420000"
  have q: "q < 420000" "q = t mod 840000 div 2"
    using mod_mult2_eq [of t 2 420000] by (simp_all add: q_def)
  have "q div 800 mod 525 = q div 800" using q(1) by simp
  moreover have "490 \<le> q div 800 \<and> q div 800 < 492 \<longleftrightarrow> 392000 \<le> q \<and> q < 393600"
    by (simp add: div_less_iff_less_mult less_eq_div_iff_mult_less_eq)
  ultimately have "VGA_VS (vga_at q) \<longleftrightarrow> q < 392000 \<or> 393600 \<le> q" by (auto simp: vga_at_def)
  moreover have "vs_at t = VGA_VS (vga_at q)"
    using vga_at_mod [of "t div 2"] by (simp add: vs_at_def q_def frame_pixels_def)
  ultimately show ?thesis
    using q(2) by (simp add: div_less_iff_less_mult less_eq_div_iff_mult_less_eq)
qed

lemma tick_at_iff: "tick_at t \<longleftrightarrow> t mod 840000 = 787199"
proof -
  have "t mod 840000 < 840000" by simp
  then show ?thesis by (auto simp: detector_at_def vs_at_iff mod_Suc split: if_splits)
qed

definition frame_clocks :: nat where "frame_clocks = 840000"

lemma one_tick:
  "\<exists>i < frame_clocks. tick_at (t + i) \<and> (\<forall>j < frame_clocks. j \<noteq> i \<longrightarrow> \<not> tick_at (t + j))"
proof -
  define r where "r = t mod 840000"
  define i where "i = (if r \<le> 787199 then 787199 - r else 787199 + 840000 - r)"
  have r: "r < 840000" by (simp add: r_def)
  have tj: "(t + j) mod 840000 = (if r + j < 840000 then r + j else r + j - 840000)" if "j < 840000" for j
  proof -
    have "(t + j) mod 840000 = (r + j) mod 840000" unfolding r_def by (rule mod_add_left_eq [symmetric])
    then show ?thesis using that r by (simp add: le_mod_geq not_less)
  qed
  have i: "i < 840000" using r by (auto simp: i_def)
  have "(t + j) mod 840000 = 787199 \<longleftrightarrow> j = i" if "j < 840000" for j
    unfolding tj [OF that] using r that by (simp add: i_def) linarith
  then show ?thesis
    unfolding tick_at_iff frame_clocks_def using i by blast
qed

lemma frame_players:
  assumes "playing t g"
  shows "players ((game_step late True k ^^ frame_clocks) g) = players_frame k (players g)"
proof -
  obtain i where i: "i < frame_clocks" "tick_at (t + i)" "\<And>j. j < frame_clocks \<Longrightarrow> j \<noteq> i \<Longrightarrow> \<not> tick_at (t + j)"
    using one_tick by blast
  let ?f = "game_step late True k"
  let ?g = "(?f ^^ i) g"
  have p: "playing (t + i) ?g" "playing (Suc (t + i)) (?f ?g)"
    using playing_run [OF assms] playing_step(1) by blast+
  have "\<not> tick_at (Suc (t + i) + j)" if "j < frame_clocks - Suc i" for j
    using i(3) [of "Suc i + j"] that by (simp add: add.assoc)
  then have "players ((?f ^^ (frame_clocks - Suc i)) (?f ?g)) = players (?f ?g)" by (rule players_idle [OF p(2)])
  moreover have "(?f ^^ (frame_clocks - Suc i)) (?f ?g) = (?f ^^ frame_clocks) g"
  proof -
    have e: "frame_clocks = (frame_clocks - Suc i) + Suc i" using i(1) by simp
    show ?thesis by (subst (2) e) (simp only: funpow_add comp_apply funpow.simps)
  qed
  moreover have "players ?g = players g"
    using i by (intro players_idle [OF assms]) simp
  ultimately show ?thesis using playing_step(2) [OF p(1), of late k] i(2) by simp
qed

lemma frames_players:
  assumes "playing t g"
  shows "players ((game_step late True k ^^ (frame_clocks * n)) g) = (players_frame k ^^ n) (players g)"
proof (induction n)
  case (Suc n)
  have "(game_step late True k ^^ (frame_clocks * Suc n)) g =
      (game_step late True k ^^ frame_clocks) ((game_step late True k ^^ (frame_clocks * n)) g)"
    by (simp add: funpow_add)
  then show ?case using Suc frame_players [OF playing_run [OF assms]] by simp
qed simp

end
