(* ===== verification/Game_Play.thy ===== *)
theory Game_Play
  imports Game_Top App_Props
begin

text \<open>
  The game as a whole: how the hardware starts, what its frames do, and what a key on the USB keyboard
  does to the cannon, from the chip's memory through the keyboard loop of main.c, the keycode port
  and the frames of the display.
\<close>

section \<open>The start of the hardware\<close>

text \<open>One step, register by register.\<close>

lemma game_step_registers:
  "Reset_h (game_step late key k g) = (\<not> key)"
  "VGA_CLK (game_step late key k g) = (\<not> Reset_h g \<and> \<not> VGA_CLK g)"
  "raster (game_step late key k g) =
     (if \<not> VGA_CLK g \<and> \<not> Reset_h g then vga_step (late \<and> \<not> key) (raster g) else raster g)"
  "cannon_edge (game_step late key k g) = edge_step (VGA_VS (raster g)) (cannon_edge g)"
  "laser_edge (game_step late key k g) = edge_step (VGA_VS (raster g)) (laser_edge g)"
  by (simp_all add: game_step_def Let_def)

lemma players_step:
  assumes "\<not> Reset_h g" "frame_clk_rising_edge (laser_edge g) = frame_clk_rising_edge (cannon_edge g)"
  shows "players (game_step late key k g) =
    (if frame_clk_rising_edge (cannon_edge g) then players_frame k (players g) else players g)"
  using assms by (simp add: game_step_def Let_def players_def players_frame_def cannon_step_def
      cannon_comb_def laser_step_def laser_comb_def)

text \<open>
  The reset does not reach the raster, which goes on from the counters it has. They are on the
  raster when the device has cleared its registers at power-up, and stay there.
\<close>

definition on_raster :: "vga \<Rightarrow> bool" where
  "on_raster v \<longleftrightarrow> h_counter v < H_TOTAL \<and> v_counter v < V_TOTAL"

lemma vga_at_on_raster: "on_raster (vga_at p)"
  using of_nat_u10_less [of "p mod 800" 800] of_nat_u10_less [of "p div 800 mod 525" 525]
    mod_less_divisor [of 800 p] mod_less_divisor [of 525 "p div 800"]
  by (simp add: on_raster_def vga_at_def H_TOTAL_def V_TOTAL_def)

lemma on_raster_at:
  assumes "on_raster v"
  shows "\<exists>q. vga_comb v = vga_at q"
proof -
  let ?h = "unat (h_counter v)" and ?v = "unat (v_counter v)"
  let ?p = "800 * ?v + ?h"
  have b: "?h < 800" "?v < 525"
    using assms by (simp_all add: on_raster_def word_less_nat_alt H_TOTAL_def V_TOTAL_def)
  have p: "?p mod 800 = ?h" "?p div 800 mod 525 = ?v" using b by simp_all
  have c: "h_counter (vga_at ?p) = h_counter v" "v_counter (vga_at ?p) = v_counter v"
    unfolding vga_at_def vga.select_convs p by simp_all
  have "vga_comb v = vga_comb (vga_at ?p)" unfolding vga_comb_def c ..
  then show ?thesis using vga_at_Suc by metis
qed

lemma game_on_raster: "on_raster (raster g) \<Longrightarrow> on_raster (raster (game_step late key k g))"
proof -
  assume r: "on_raster (raster g)"
  obtain q where "vga_comb (raster g) = vga_at q" using on_raster_at [OF r] by blast
  then have "on_raster (vga_comb (raster g))" using vga_at_on_raster by simp
  moreover have "on_raster vga_reset" by (simp add: on_raster_def vga_reset_def H_TOTAL_def V_TOTAL_def)
  ultimately show ?thesis using r by (simp add: game_step_registers vga_step_def)
qed

text \<open>The button held: what the players and the frame detectors are after two cycles of it.\<close>

abbreviation start_players :: "cannon \<times> laser" where
  "start_players \<equiv> (cannon_reset, laser_reset)"

definition button_held :: "(bool \<times> u16) list \<Rightarrow> game \<Rightarrow> game" where
  "button_held ins g = fold (\<lambda>(late, k). game_step late False k) ins g"

lemma held_on_raster: "on_raster (raster g) \<Longrightarrow> on_raster (raster (button_held ins g))"
  unfolding button_held_def
  by (rule fold_inv [where P = "\<lambda>g. on_raster (raster g)"]) (auto intro: game_on_raster)

lemma held_twice:
  fixes g :: game
  assumes "2 \<le> length ins"
  defines "g' \<equiv> button_held ins g"
  shows "Reset_h g'" "players g' = start_players" "frame_clk_delayed (cannon_edge g') = VGA_VS (raster g')"
    "frame_clk_delayed (laser_edge g') = VGA_VS (raster g')"
proof -
  obtain xs a b where "ins = xs @ [a, b]"
  proof -
    obtain ys b where y: "ins = ys @ [b]" using assms(1) by (cases ins rule: rev_cases) simp_all
    obtain xs a where "ys = xs @ [a]" using assms(1) y by (cases ys rule: rev_cases) simp_all
    with y show ?thesis using that by simp
  qed
  moreover obtain l1 k1 l2 k2 where "a = (l1, k1)" "b = (l2, k2)" by fastforce
  ultimately obtain h where g': "g' = game_step l2 False k2 (game_step l1 False k1 h)"
    by (auto simp: g'_def button_held_def)
  have r: "Reset_h (game_step l1 False k1 h)" by (simp add: game_step_registers)
  show "Reset_h g'" unfolding g' by (simp add: game_step_registers)
  show "players g' = start_players" unfolding g' players_def by (simp only: reset_players [OF r])
  show "frame_clk_delayed (cannon_edge g') = VGA_VS (raster g')" "frame_clk_delayed (laser_edge g') = VGA_VS (raster g')"
    unfolding g' by (simp_all add: game_step_registers edge_step_def)
qed

text \<open>The four steps after the button is released.\<close>

lemma release:
  fixes late :: bool and k :: u16
  assumes "on_raster (raster g)" "Reset_h g" "players g = start_players"
    and "frame_clk_delayed (cannon_edge g) = VGA_VS (raster g)" "frame_clk_delayed (laser_edge g) = VGA_VS (raster g)"
  defines "f \<equiv> game_step late True k"
  shows "\<exists>t. playing t (f (f (f (f g))))"
    "players (f g) = start_players" "players (f (f g)) = start_players" "players (f (f (f g))) = start_players"
    "players (f (f (f (f g)))) \<in> {start_players, players_frame k start_players}"
proof -
  let ?g1 = "f g"
  let ?g2 = "f ?g1"
  let ?g3 = "f ?g2"
  let ?g4 = "f ?g3"
  note regs = game_step_registers [where late = late and key = True and k = k, folded f_def]
  have g1: "\<not> Reset_h ?g1" "\<not> VGA_CLK ?g1" "raster ?g1 = raster g"
    "cannon_edge ?g1 = \<lparr>frame_clk_delayed = VGA_VS (raster g), frame_clk_rising_edge = False\<rparr>"
    "laser_edge ?g1 = \<lparr>frame_clk_delayed = VGA_VS (raster g), frame_clk_rising_edge = False\<rparr>"
    using assms(2,4,5) by (simp_all add: regs edge_step_def)
  show p1: "players ?g1 = start_players" unfolding f_def players_def by (simp only: reset_players [OF assms(2)])
  obtain q where q: "vga_step False (raster g) = vga_at q"
    using on_raster_at [OF assms(1)] by (auto simp: vga_step_def)
  have g2: "\<not> Reset_h ?g2" "VGA_CLK ?g2" "raster ?g2 = vga_at q"
    "cannon_edge ?g2 = \<lparr>frame_clk_delayed = VGA_VS (raster g), frame_clk_rising_edge = False\<rparr>"
    "laser_edge ?g2 = \<lparr>frame_clk_delayed = VGA_VS (raster g), frame_clk_rising_edge = False\<rparr>"
    using g1 q by (simp_all add: regs(1,2) regs(3-5) [of ?g1] edge_step_def)
  let ?r = "VGA_VS (vga_at q) \<and> \<not> VGA_VS (raster g)"
  have g3: "\<not> Reset_h ?g3" "\<not> VGA_CLK ?g3" "raster ?g3 = vga_at q"
    "cannon_edge ?g3 = \<lparr>frame_clk_delayed = VGA_VS (vga_at q), frame_clk_rising_edge = ?r\<rparr>"
    "laser_edge ?g3 = \<lparr>frame_clk_delayed = VGA_VS (vga_at q), frame_clk_rising_edge = ?r\<rparr>"
    using g2 by (simp_all add: regs(1,2) regs(3-5) [of ?g2] edge_step_def)
  have "raster ?g4 = vga_at (q + 1)" using g3 by (simp add: regs(3) [of ?g3] vga_step_def vga_at_Suc [simplified])
  moreover have "cannon_edge ?g4 = detector_at (2 * q)" "laser_edge ?g4 = detector_at (2 * q)"
    using g3 by (simp_all add: regs(4,5) [of ?g3] edge_step_def detector_at_def vs_at_def)
  moreover have "\<not> Reset_h ?g4" "VGA_CLK ?g4" using g3(1,2) by (simp_all add: regs(1,2))
  ultimately have "playing (2 * q) ?g4" by (simp add: playing_def)
  then show "\<exists>t. playing t ?g4" ..
  note moves = players_step [where late = late and key = True and k = k, folded f_def]
  show p2: "players ?g2 = start_players" using moves [of ?g1] g1 p1 by simp
  show p3: "players ?g3 = start_players" using moves [of ?g2] g2 p2 by simp
  show "players ?g4 \<in> {start_players, players_frame k start_players}" using moves [of ?g3] g3 p3 by simp
qed

text \<open>C24. Whatever the registers hold (at power-up, or after any use), as long as the counters of the
  raster are on the raster: holding the reset button for at least two clock cycles and releasing it
  starts a game. The cannon is in the middle of its row and at rest and no shot is under way for
  the first three cycles; in the fourth the raster runs and both frame detectors are in step with
  it, and the players are still at their start or one frame on.\<close>
theorem game_starts:
  fixes late :: bool and k :: u16
  assumes "on_raster (raster g)" "2 \<le> length ins"
  defines "g' \<equiv> \<lambda>n. (game_step late True k ^^ n) (button_held ins g)"
  shows "(\<forall>n < 4. the_cannon (g' n) = cannon_reset \<and> the_laser (g' n) = laser_reset) \<and>
    (\<exists>t. playing t (g' 4)) \<and>
    (the_cannon (g' 4), the_laser (g' 4)) \<in>
      {(cannon_reset, laser_reset), players_frame k (cannon_reset, laser_reset)}"
proof -
  note h = held_twice [OF assms(2), of g]
  note r = release [OF held_on_raster [OF assms(1)] h, of late k]
  have e: "g' 1 = game_step late True k (button_held ins g)" "g' 2 = game_step late True k (g' 1)"
    "g' 3 = game_step late True k (g' 2)" "g' 4 = game_step late True k (g' 3)" "g' 0 = button_held ins g"
    by (simp_all add: g'_def eval_nat_numeral)
  have "players (g' n) = start_players" if "n < 4" for n
  proof -
    consider "n = 0" | "n = 1" | "n = 2" | "n = 3" using \<open>n < 4\<close> by linarith
    then show ?thesis using h(2) r(2-4) by cases (simp_all only: e)
  qed
  moreover have "\<exists>t. playing t (g' 4)" using r(1) by (simp only: e)
  moreover have "players (g' 4) \<in> {start_players, players_frame k start_players}" using r(5) by (simp only: e)
  ultimately show ?thesis by (simp add: players_def)
qed

section \<open>The frames of the game\<close>

text \<open>C21. The clocked hardware is a game of frames: over n periods of 840000 cycles of the 50 MHz clock,
  from any cycle of a running game, cannon and shot make exactly n frame steps, the shot with the
  column the cannon moves to in the same frame.\<close>
theorem game_frames:
  fixes k :: u16 and late :: bool and n :: nat
  assumes "playing t g"
  defines "g' \<equiv> (game_step late True k ^^ (frame_clocks * n)) g"
  shows "(the_cannon g', the_laser g') = (players_frame k ^^ n) (the_cannon g, the_laser g) \<and>
    playing (t + frame_clocks * n) g'"
  using frames_players [OF assms(1), where late = late and k = k and n = n]
    playing_run [OF assms(1)] unfolding g'_def players_def by blast

section \<open>From the keyboard to the cannon\<close>

lemma players_cannon: "fst ((players_frame k ^^ n) x) = (cannon_frame (left_key k) (right_key k) ^^ n) (fst x)"
  by (induction n) (simp_all add: players_frame_def split_beta Let_def)

lemma game_cannon:
  assumes "playing t g"
  shows "the_cannon ((game_step late True k ^^ (frame_clocks * n)) g) =
    (cannon_frame (left_key k) (right_key k) ^^ n) (the_cannon g)"
  using arg_cong [OF frames_players [OF assms, where late = late and k = k and n = n], of fst] unfolding players_cannon
  by (simp add: players_def)

lemma hold_none: "cannon_ok c \<Longrightarrow> Cannon_X_Motion c = 0 \<Longrightarrow> (cannon_frame False False ^^ n) c = c"
  by (induction n) (simp_all add: cannon_ok_def cannon_frame_def)

lemma key_moves_cannon:
  fixes late :: bool
  assumes "playing t g" "cannon_ok (the_cannon g)" "Cannon_X_Motion (the_cannon g) = 0"
  defines "x \<equiv> unat (Cannon_X_Pos (the_cannon g))"
  defines "x' \<equiv> \<lambda>k n. unat (Cannon_X_Pos (the_cannon ((game_step late True k ^^ (frame_clocks * Suc n)) g)))"
  shows "(left_key k \<longrightarrow> 4 < x \<longrightarrow> x' k n = max 2 (x - 2 * n)) \<and>
    (right_key k \<longrightarrow> \<not> left_key k \<longrightarrow> x < 635 \<longrightarrow> x' k n = min 638 (x + 2 * n)) \<and>
    (\<not> left_key k \<longrightarrow> \<not> right_key k \<longrightarrow> x' k n = x)"
  unfolding x_def x'_def game_cannon [OF assms(1)]
  using hold_left [OF assms(2,3), where r = "right_key k" and k = n] hold_right [OF assms(2,3), where k = n]
    hold_none [OF assms(2,3), of "Suc n"] by auto

text \<open>C2. From the keyboard to the screen: let a round of the keyboard loop find its message at the
  board \<open>b\<close> and the list of its poll done at the board \<open>b1\<close>, and let the port keep its
  value for n + 1 frames of a running game. Then a resting cannon has moved as the two keycodes say
  that this round's chip holds at 0x051E: left by two columns a frame after the first if one of them
  is the left arrow, else right if one is the right arrow, and not at all otherwise, up to the borders.\<close>
theorem keyboard_moves_cannon:
  assumes "otg_chip C V" "bus_idle (brd s)" "main_step C (Key_Loop, s) = Some (l, s')"
    and "issue_until_msg C (key_request (toggle s + 1) (data_size s) C)
      (key_request (toggle s + 1) (data_size s) C (brd s)) = Some (v, b)"
    and "UsbWaitTDListDone C b = Some (HUSB_TDListDone, b1)" "quiet V (chip_state b1)"
    and "playing t g" "cannon_ok (the_cannon g)" "Cannon_X_Motion (the_cannon g) = 0"
  shows "let k = mem V (chip_state b1) 0x051E; x = unat (Cannon_X_Pos (the_cannon g));
         g' = (game_step late True (keycode_pio (brd s')) ^^ (frame_clocks * Suc n)) g;
         x' = unat (Cannon_X_Pos (the_cannon g'))
     in (left_key k \<longrightarrow> 4 < x \<longrightarrow> x' = max 2 (x - 2 * n)) \<and>
        (right_key k \<longrightarrow> \<not> left_key k \<longrightarrow> x < 635 \<longrightarrow> x' = min 638 (x + 2 * n)) \<and>
        (\<not> left_key k \<longrightarrow> \<not> right_key k \<longrightarrow> x' = x)"
proof -
  have "polled C s b b1" using assms(4,5) by (auto simp: polled_def)
  from key_published_mem [OF assms(1-3) this assms(6)]
  have k: "keycode_pio (brd s') = mem V (chip_state b1) 0x051E" .
  show ?thesis unfolding Let_def k by (rule key_moves_cannon [OF assms(7-9)])
qed

section \<open>A game for the witnesses\<close>

definition demo_game :: game where
  "demo_game = \<lparr>Reset_h = False, VGA_CLK = True, raster = vga_at 1, cannon_edge = detector_at 0,
     laser_edge = detector_at 0, the_cannon = cannon_reset, the_laser = laser_reset\<rparr>"

lemma demo_playing: "playing 0 demo_game"
  by (simp add: playing_def demo_game_def)

lemma left_arrow: "left_key 0x0050" "\<not> right_key 0x0050"
  by (simp_all add: left_key_def right_key_def key_down_def)

lemma demo_rest: "cannon_ok (the_cannon demo_game)" "Cannon_X_Motion (the_cannon demo_game) = 0"
    "unat (Cannon_X_Pos (the_cannon demo_game)) = 320"
  using cannon_reset_ok by (simp_all add: demo_game_def) (simp_all add: cannon_reset_def cannon_consts)

theorem game_frames_witness:
  "the_cannon ((game_step False True 0 ^^ (frame_clocks * 1)) demo_game) = cannon_reset"
proof -
  have "\<not> left_key 0" "\<not> right_key 0" by (simp_all add: left_key_def right_key_def key_down_def)
  moreover have "cannon_frame False False cannon_reset = cannon_reset"
    by (simp add: cannon_frame_def cannon_reset_def cannon_consts)
  ultimately show ?thesis
    using game_frames [OF demo_playing, where late = False and k = 0 and n = 1]
    by (simp add: players_frame_def Let_def demo_game_def)
qed

text \<open>The device at power-up, all registers cleared.\<close>

definition game_power_up :: game where
  "game_power_up = \<lparr>Reset_h = False, VGA_CLK = False, raster = vga_reset,
     cannon_edge = \<lparr>frame_clk_delayed = False, frame_clk_rising_edge = False\<rparr>,
     laser_edge = \<lparr>frame_clk_delayed = False, frame_clk_rising_edge = False\<rparr>,
     the_cannon = \<lparr>Cannon_X_Pos = 0, Cannon_Y_Pos = 0, Cannon_X_Motion = 0, Cannon_Y_Motion = 0\<rparr>,
     the_laser = \<lparr>laser_X_Pos = 0, laser_Y_Pos = 0, laser_X_Motion = 0, laser_Y_Motion = 0, laser_on = False\<rparr>\<rparr>"

theorem game_starts_witness:
  "\<exists>t. playing t ((game_step True True 0 ^^ 4) (button_held [(True, 0), (True, 0)] game_power_up))"
  using game_starts [where g = game_power_up and ins = "[(True, 0), (True, 0)]" and late = True and k = 0]
  by (simp add: on_raster_def game_power_up_def vga_reset_def H_TOTAL_def V_TOTAL_def)

text \<open>A keyboard with the left arrow down: its chip holds the key at 0x051E when the list is done, and
  ten frames later the cannon has gone from column 320 to column 302.\<close>

theorem keyboard_moves_cannon_witness:
  "\<exists>s' v b b1. main_step (host_chip 0x0050) (Key_Loop, demo_app) = Some (Key_Loop, s') \<and>
     issue_until_msg (host_chip 0x0050) (key_request 1 8 (host_chip 0x0050))
       (key_request 1 8 (host_chip 0x0050) host_board) = Some (v, b) \<and>
     UsbWaitTDListDone (host_chip 0x0050) b = Some (HUSB_TDListDone, b1) \<and>
     h_ram (chip_state b1) 0x051E = 0x0050 \<and>
     unat (Cannon_X_Pos (the_cannon ((game_step False True (keycode_pio (brd s')) ^^ (frame_clocks * Suc 9)) demo_game))) = 302"
proof -
  let ?C = "host_chip 0x0050" and ?V = "host_otg 0x0050"
  obtain s' where m: "main_step ?C (Key_Loop, demo_app) = Some (Key_Loop, s')" using demo_key_step by blast
  have d: "toggle demo_app = 0" "data_size demo_app = 8" "brd demo_app = host_board" by (simp_all add: demo_app_def)
  have q: "quiet ?V c" "mem ?V c = h_ram c" for c by (simp_all add: host_otg_def)
  obtain b b1 where p: "polled ?C demo_app b b1" "mem ?V (chip_state b1) 0x051E = 0x0050"
    using host_polled [OF host_chip_ok demo_ready d(2)] by blast
  then obtain v where w: "issue_until_msg ?C (key_request (toggle demo_app + 1) (data_size demo_app) ?C)
      (key_request (toggle demo_app + 1) (data_size demo_app) ?C (brd demo_app)) = Some (v, b)"
    "UsbWaitTDListDone ?C b = Some (HUSB_TDListDone, b1)" unfolding polled_def by blast
  have "unat (Cannon_X_Pos (the_cannon ((game_step False True (keycode_pio (brd s')) ^^ (frame_clocks * Suc 9)) demo_game))) =
      max 2 (320 - 2 * 9)"
    using keyboard_moves_cannon [OF host_chip_otg ready_idle [OF demo_ready] m w q(1) demo_playing demo_rest(1,2),
        where late = False and n = 9, unfolded Let_def demo_rest(3) p(2)] left_arrow by simp
  moreover have "max 2 (320 - 2 * 9) = (302 :: nat)" by simp
  ultimately show ?thesis using m w p(2) unfolding d q by auto
qed

end
