(* ===== verification/Sprite_Tool.thy ===== *)
theory Sprite_Tool
  imports Prelude
begin

text \<open>
  SpriteBinaryGenerator.c, the host tool that turns a sprite written as text, one palette index a
  line, into the words loaded into the board's memory. Files are their contents; \<open>fgets\<close> and
  \<open>strtol\<close> are the C library's. The host is little-endian with a signed char and a 64-bit long.
\<close>

section \<open>Reading a line\<close>

text \<open>\<open>fgets\<close> with room for \<open>n\<close> characters and the terminator: up to the end of the line, which it keeps.
  The result is the line and the rest of the file.\<close>

fun fgets :: "nat \<Rightarrow> string \<Rightarrow> string \<times> string" where
  "fgets 0 cs = ([], cs)"
| "fgets (Suc n) [] = ([], [])"
| "fgets (Suc n) (c # cs) =
     (if c = CHR 0x0A then ([c], cs) else let (l, rest) = fgets n cs in (c # l, rest))"

lemma fgets_length: "fgets n cs = (l, rest) \<Longrightarrow> length rest \<le> length cs"
  by (induction n cs arbitrary: l rule: fgets.induct) (fastforce split: if_splits prod.splits)+

lemma fgets_progress: "0 < n \<Longrightarrow> cs \<noteq> [] \<Longrightarrow> fgets n cs = (l, rest) \<Longrightarrow> length rest < length cs"
  using fgets_length by (cases n; cases cs) (fastforce split: if_splits prod.splits)+

section \<open>Converting a number\<close>

definition c_isspace :: "char \<Rightarrow> bool" where
  "c_isspace c \<longleftrightarrow> c \<in> {CHR '' '', CHR 0x09, CHR 0x0A, CHR 0x0B, CHR 0x0C, CHR 0x0D}"

definition c_digit :: "char \<Rightarrow> int option" where
  "c_digit c = (if 48 \<le> (of_char c :: int) \<and> (of_char c :: int) \<le> 57 then Some (of_char c - 48) else None)"

fun dec_value :: "int \<Rightarrow> string \<Rightarrow> int" where
  "dec_value acc [] = acc"
| "dec_value acc (c # cs) = (case c_digit c of Some d \<Rightarrow> dec_value (acc * 10 + d) cs | None \<Rightarrow> acc)"

definition LONG_MAX :: int where "LONG_MAX = 2 ^ 63 - 1"

text \<open>\<open>strtol\<close> in base 10: white space, a sign, digits; out of range it stops at the limits.\<close>

definition strtol :: "string \<Rightarrow> int" where
  "strtol cs =
     (let cs = dropWhile c_isspace cs;
          v = (case cs of [] \<Rightarrow> 0
                 | c # r \<Rightarrow> if c = CHR ''-'' then - dec_value 0 r else if c = CHR ''+'' then dec_value 0 r
                            else dec_value 0 cs)
      in max (- LONG_MAX - 1) (min LONG_MAX v))"

section \<open>The program\<close>

text \<open>\<open>value = (char) strtol(...)\<close>, of which the first two bytes are written.\<close>

definition value_bytes :: "string \<Rightarrow> u8 list" where
  "value_bytes l =
     (let c = (word_of_int (strtol l) :: u8); v = (scast c :: u64)
      in [ucast v, ucast (drop_bit 8 v)])"

function sprite_loop :: "string \<Rightarrow> u8 list" where
  "sprite_loop cs =
     (if cs = [] then [] else let (l, rest) = fgets 19 cs in value_bytes l @ sprite_loop rest)"
  by pat_completeness auto
termination
proof (relation "measure length", goal_cases)
  case (2 cs p l rest)
  then show ?case using fgets_progress [of 19 cs l rest] by simp
qed simp

declare sprite_loop.simps [simp del]

text \<open>\<open>main\<close>: the input file, if there is one, and the output file before and after, with the exit code. The
  output file is opened, and so emptied, before the input is known to exist.\<close>

definition sprite_main :: "string option \<Rightarrow> u8 list \<Rightarrow> int \<times> u8 list" where
  "sprite_main input output =
     (let output = [] in case input of None \<Rightarrow> (- 1, output) | Some cs \<Rightarrow> (0, output @ sprite_loop cs))"

section \<open>What is written\<close>

text \<open>The decimal digits of a number.\<close>

fun decimal :: "nat \<Rightarrow> string" where
  "decimal n = (if n < 10 then [char_of (48 + n)] else decimal (n div 10) @ [char_of (48 + n mod 10)])"

declare decimal.simps [simp del]

lemma decimal_char: "d < 10 \<Longrightarrow> of_char (char_of (48 + d) :: char) = (48 + int d)"
proof -
  assume "d < 10"
  then have "(of_char (char_of (48 + d) :: char) :: nat) = 48 + d" by simp
  then show ?thesis by (metis of_nat_of_char of_nat_add of_nat_numeral)
qed

lemma c_digit_decimal: "d < 10 \<Longrightarrow> c_digit (char_of (48 + d)) = Some (int d)"
  by (simp add: c_digit_def decimal_char)

lemma dec_value_append:
  "\<forall>c \<in> set xs. c_digit c \<noteq> None \<Longrightarrow> dec_value acc (xs @ ys) = dec_value (dec_value acc xs) ys"
  by (induction xs arbitrary: acc) (auto split: option.splits)

lemma decimal_digits: "\<forall>c \<in> set (decimal n). c_digit c \<noteq> None"
proof (induction n rule: decimal.induct)
  case (1 n)
  then show ?case
    by (subst decimal.simps) (auto simp: c_digit_decimal)
qed

lemma digits_split: "int (n div 10) * 10 + int (n mod 10) = int n"
  using div_mult_mod_eq [of n 10] by linarith

lemma dec_value_decimal: "dec_value 0 (decimal n) = int n"
proof (induction n rule: decimal.induct)
  case (1 n)
  then show ?case
    using digits_split [of n]
    by (subst decimal.simps) (auto simp: c_digit_decimal dec_value_append [OF decimal_digits])
qed

lemma decimal_not_empty: "decimal n \<noteq> []"
  by (subst decimal.simps) simp

lemma decimal_length: "n < 1000 \<Longrightarrow> length (decimal n) \<le> 3"
  by (subst decimal.simps, subst decimal.simps, subst decimal.simps) simp

lemma fgets_line: "CHR 0x0A \<notin> set l \<Longrightarrow> length l < n \<Longrightarrow> fgets n (l @ CHR 0x0A # rest) = (l @ [CHR 0x0A], rest)"
  by (induction l arbitrary: n; case_tac n) auto

lemma line_feed_no_digit: "CHR 0x0A \<notin> set (decimal n)"
  using decimal_digits [of n] by (auto simp: c_digit_def)

lemma digit_bounds: "c_digit c \<noteq> None \<Longrightarrow> \<not> c_isspace c \<and> c \<noteq> CHR ''-'' \<and> c \<noteq> CHR ''+''"
  by (auto simp: c_digit_def c_isspace_def split: if_splits)

lemma strtol_decimal: "int n \<le> LONG_MAX \<Longrightarrow> strtol (decimal n @ [CHR 0x0A]) = int n"
proof -
  assume n: "int n \<le> LONG_MAX"
  obtain c cs where d: "decimal n = c # cs"
    using decimal_not_empty [of n] by (cases "decimal n") auto
  have c: "\<not> c_isspace c" "c \<noteq> CHR ''-''" "c \<noteq> CHR ''+''"
    using digit_bounds [of c] decimal_digits [of n] d by auto
  have v: "dec_value 0 (c # cs @ [CHR 0x0A]) = int n"
    using dec_value_append [OF decimal_digits, of 0 n "[CHR 0x0A]"] dec_value_decimal [of n] d
    by (simp add: c_digit_def)
  have "strtol (decimal n @ [CHR 0x0A]) = max (- LONG_MAX - 1) (min LONG_MAX (dec_value 0 (c # cs @ [CHR 0x0A])))"
    using c by (simp add: strtol_def d Let_def)
  then show ?thesis using n by (simp only: v)
qed

lemma value_bytes_small: "n < 128 \<Longrightarrow> value_bytes (decimal n @ [CHR 0x0A]) = [of_nat n, 0]"
proof -
  assume n: "n < 128"
  have "strtol (decimal n @ [CHR 0x0A]) = int n"
    by (rule strtol_decimal) (use n in \<open>simp add: LONG_MAX_def\<close>)
  moreover have "list_all (\<lambda>k. ucast (scast (word_of_nat k :: u8) :: u64) = (word_of_nat k :: u8)
      \<and> ucast (drop_bit 8 (scast (word_of_nat k :: u8) :: u64)) = (0 :: u8)) [0..<128]"
    by code_simp
  ultimately show ?thesis using n by (simp add: value_bytes_def Let_def list_all_iff)
qed

lemma sprite_loop_line:
  "CHR 0x0A \<notin> set l \<Longrightarrow> length l < 19
   \<Longrightarrow> sprite_loop (l @ CHR 0x0A # rest) = value_bytes (l @ [CHR 0x0A]) @ sprite_loop rest"
  by (subst sprite_loop.simps) (simp add: fgets_line)

text \<open>A file with one palette index below 128 a line becomes one little-endian 16-bit word for each
  line, in order, and the tool succeeds; whatever the output file held before is gone.\<close>
theorem sprite_words:
  assumes "\<forall>n \<in> set ns. n < 128"
  shows "sprite_main (Some (concat (map (\<lambda>n. decimal n @ [CHR 0x0A]) ns))) old
       = (0, concat (map (\<lambda>n. [word_of_nat n, 0]) ns))"
proof -
  have "sprite_loop (concat (map (\<lambda>n. decimal n @ [CHR 0x0A]) ns)) = concat (map (\<lambda>n. [word_of_nat n, 0]) ns)"
    using assms
  proof (induction ns)
    case Nil
    then show ?case by (simp add: sprite_loop.simps)
  next
    case (Cons n ns)
    have "length (decimal n) < 19" using decimal_length [of n] Cons.prems by simp
    then show ?case
      using Cons sprite_loop_line [OF line_feed_no_digit] by (simp add: value_bytes_small)
  qed
  then show ?thesis by (simp add: sprite_main_def)
qed

theorem sprite_words_witness:
  "sprite_main (Some (concat (map (\<lambda>n. decimal n @ [CHR 0x0A]) [3, 0, 127]))) [9] = (0, [3, 0, 0, 0, 127, 0])"
  by (subst sprite_words) simp_all

text \<open>An index of 128 or more does not survive the cast to a character: the word written is not the index.\<close>

lemma sprite_cast: "value_bytes (''200'' @ [CHR 0x0A]) = [200, 255]"
  by code_simp

text \<open>When the input cannot be opened the output file has already been emptied.\<close>

lemma sprite_no_input: "sprite_main None old = (- 1, [])"
  by (simp add: sprite_main_def)

end
