(* ===== verification/Gmon_Graph.thy ===== *)
theory Gmon_Graph
  imports Hal_Gmon
begin

text \<open>
  The call graph of the profiler: what the linked nodes of alt_gmon.c mean. A bucket of the hash table
  is a list of functions, each with the list of its callers and how often they were counted. The
  lemma \<open>call_recorded\<close> says that recording a call is the obvious operation on these lists, and that the nodes
  it takes from the slabs are always new ones.
\<close>

section \<open>Linked nodes\<close>

fun chain :: "(u32 \<Rightarrow> u32) \<Rightarrow> u32 \<Rightarrow> u32 list \<Rightarrow> bool" where
  "chain nxt p [] \<longleftrightarrow> p = 0"
| "chain nxt p (a # as) \<longleftrightarrow> p = a \<and> a \<noteq> 0 \<and> chain nxt (nxt a) as"

lemma chain_cong: "(\<And>x. x \<in> set xs \<Longrightarrow> nxt x = nxt' x) \<Longrightarrow> chain nxt p xs = chain nxt' p xs"
  by (induction xs arbitrary: p) auto

text \<open>The shape of a bucket: the address of each function's node with those of its arcs.\<close>

type_synonym shape = "(u32 \<times> u32 list) list"

definition nodes :: "shape \<Rightarrow> u32 list" where
  "nodes sh = concat (map (\<lambda>(e, as). e # as) sh)"

lemma nodes_simps [simp]: "nodes [] = []" "nodes ((e, as) # sh) = e # as @ nodes sh"
  by (simp_all add: nodes_def)

lemma shape_nodes: "(e, as) \<in> set sh \<Longrightarrow> e \<in> set (nodes sh) \<and> set as \<subseteq> set (nodes sh)"
  by (auto simp: nodes_def)

definition bucket_at :: "gmon \<Rightarrow> nat \<Rightarrow> shape \<Rightarrow> bool" where
  "bucket_at s b sh \<longleftrightarrow>
     chain (\<lambda>e. entry_next (entry_at s e)) (mcount_fn_head s ! b) (map fst sh) \<and>
     (\<forall>(e, as) \<in> set sh. chain (\<lambda>a. arc_next (arc_at s a)) (arc_head (entry_at s e)) as)"

definition graph_inv :: "gmon \<Rightarrow> shape list \<Rightarrow> bool" where
  "graph_inv s shs \<longleftrightarrow>
     length shs = HASH_BUCKETS \<and> length (mcount_fn_head s) = HASH_BUCKETS \<and>
     (\<forall>b < HASH_BUCKETS. bucket_at s b (shs ! b) \<and> distinct (nodes (shs ! b))) \<and>
     (\<forall>b < HASH_BUCKETS. \<forall>c < HASH_BUCKETS. b \<noteq> c \<longrightarrow> set (nodes (shs ! b)) \<inter> set (nodes (shs ! c)) = {})"

text \<open>The call graph in a bucket: functions, with callers and counts.\<close>

definition arcs_of :: "gmon \<Rightarrow> u32 list \<Rightarrow> (u32 \<times> u32) list" where
  "arcs_of s as = map (\<lambda>a. (from_pc (arc_at s a), arc_count (arc_at s a))) as"

definition call_graph :: "gmon \<Rightarrow> shape \<Rightarrow> (u32 \<times> (u32 \<times> u32) list) list" where
  "call_graph s sh = map (\<lambda>(e, as). (self_pc (entry_at s e), arcs_of s as)) sh"

text \<open>Recording a call: a new arc in front of the function's, the function in front of the bucket if it
  is new there.\<close>

definition record_arc ::
  "u32 \<Rightarrow> u32 \<Rightarrow> (u32 \<times> (u32 \<times> u32) list) list \<Rightarrow> (u32 \<times> (u32 \<times> u32) list) list" where
  "record_arc self caller g =
     (if self \<in> set (map fst g)
      then map (\<lambda>(f, as). if f = self then (f, (caller, 1) # as) else (f, as)) g
      else (self, [(caller, 1)]) # g)"

text \<open>What the assembly that calls __mcount_record has looked up: the node of the function in its bucket.\<close>

definition lookup_fn :: "gmon \<Rightarrow> u32 \<Rightarrow> shape \<Rightarrow> u32" where
  "lookup_fn s self sh =
     (case find (\<lambda>e. self_pc (entry_at s e) = self) (map fst sh) of None \<Rightarrow> 0 | Some e \<Rightarrow> e)"

section \<open>Nodes from the slabs\<close>

definition alloc_inv :: "u32 \<Rightarrow> gmon \<Rightarrow> bool" where
  "alloc_inv lim s \<longleftrightarrow> heap_inv lim (heap_end s) \<and> 0 < unat (heap_end s) \<and> 0 \<le> mcount_slab_size s \<and>
     mcount_slab_size s \<le> 1020 \<and> int (unat (mcount_slab_ptr s)) + mcount_slab_size s \<le> int (unat (heap_end s)) \<and>
     (0 < mcount_slab_size s \<longrightarrow> 0 < unat (mcount_slab_ptr s))"

text \<open>A node is used when it lies below what the slab has left.\<close>

definition used :: "gmon \<Rightarrow> u32 \<Rightarrow> bool" where
  "used s x \<longleftrightarrow> x \<noteq> 0 \<and> unat x + 12 \<le> unat (mcount_slab_ptr s)"

lemma sbrk_growth:
  assumes "heap_inv lim h" "unat n < 2 ^ 30" "alt_sbrk lim n h = (p, h')"
  shows "unat h' \<le> unat h + 3 + unat n" "unat h + 3 + unat n \<le> unat lim \<Longrightarrow> p \<noteq> -1"
proof -
  have "(unat lim + 3) div 4 * 4 \<le> unat lim + 3" by simp
  moreover have "unat h \<le> (unat lim + 3) div 4 * 4" "unat lim \<le> 2147483644"
    using assms(1) by (simp_all add: heap_inv_def)
  ultimately have b: "unat h \<le> unat lim + 3" "unat lim \<le> 2147483644" by linarith+
  then have "unat h \<le> 2 ^ 32 - 4" by simp
  note a = align_up_unat [OF this]
  have up: "unat (align_up h) \<le> unat h + 3" unfolding a by simp
  have "unat (align_up h) + unat n < 2 ^ LENGTH(32)" using up b assms(2) by simp
  then have s: "unat (align_up h + n) = unat (align_up h) + unat n" by (rule unat_add_lem [THEN iffD1])
  have r: "(p, h') = (if unat lim < unat (align_up h) + unat n then (-1, align_up h) else (align_up h, align_up h + n))"
    unfolding assms(3) [symmetric] alt_sbrk_def Let_def word_less_nat_alt s by simp
  show "unat h' \<le> unat h + 3 + unat n" using r up s by (auto split: if_splits)
  have "unat (- 1 :: u32) = 4294967295" by (simp add: unsigned_minus_1_eq_mask mask_eq_exp_minus_1)
  moreover assume "unat h + 3 + unat n \<le> unat lim"
  ultimately show "p \<noteq> -1" using r up b by (auto split: if_splits)
qed

text \<open>An allocation with room in the heap gives a new node and changes nothing else.\<close>

definition same_graph :: "gmon \<Rightarrow> gmon \<Rightarrow> bool" where
  "same_graph s s' \<longleftrightarrow> entry_at s' = entry_at s \<and> arc_at s' = arc_at s \<and> mcount_fn_head s' = mcount_fn_head s"

lemma small_size: "0 \<le> i \<Longrightarrow> i \<le> 1020 \<Longrightarrow> word_of_int i < node_size \<longleftrightarrow> i < 12"
  by (simp add: node_size_def word_less_def uint_word_of_int)

lemma allocate_node:
  assumes "alloc_inv lim s" "unat (heap_end s) + 1023 \<le> unat lim" "mcount_allocate lim node_size s = (a, s')"
  shows "alloc_inv lim s'" "same_graph s s'" "unat (heap_end s') \<le> unat (heap_end s) + 1023"
    "used s' a" "\<And>x. used s x \<Longrightarrow> used s' x \<and> x \<noteq> a"
proof -
  note inv = assms(1) [unfolded alloc_inv_def]
  have lim: "unat lim \<le> 2147483644" using inv by (simp add: heap_inv_def)
  have "int (unat (mcount_slab_ptr s)) \<le> int (unat (heap_end s))" using inv by linarith
  then have below: "unat (mcount_slab_ptr s) \<le> unat (heap_end s)" by (simp only: of_nat_le_iff)
  obtain s1 where s1: "alloc_inv lim s1" "same_graph s s1" "unat (heap_end s1) \<le> unat (heap_end s) + 1023"
    "12 \<le> mcount_slab_size s1" "\<And>x. used s x \<Longrightarrow> used s1 x"
    and r: "a = mcount_slab_ptr s1" "s' = s1\<lparr>mcount_slab_ptr := mcount_slab_ptr s1 + 12,
      mcount_slab_size := mcount_slab_size s1 - 12\<rparr>"
  proof (cases "mcount_slab_size s < 12")
    case False
    then show ?thesis
      using that [of s] assms(1,3) inv small_size [of "mcount_slab_size s"]
      by (simp add: mcount_allocate_def same_graph_def node_size_def) fastforce
  next
    case True
    obtain p h where k: "alt_sbrk lim MCOUNT_SLAB_INCREMENT (heap_end s) = (p, h)" by fastforce
    have n: "unat MCOUNT_SLAB_INCREMENT = 1020" by (simp add: MCOUNT_SLAB_INCREMENT_def)
    note blk = alt_sbrk_block [OF _ _ k, unfolded n] and gr = sbrk_growth [OF _ _ k, unfolded n]
    have p: "unat (heap_end s) \<le> unat p" "unat h = unat p + 1020" "heap_inv lim h" "unat h \<le> unat (heap_end s) + 1023"
      using blk gr inv assms(2) by simp_all
    show ?thesis
    proof (rule that [of "s\<lparr>heap_end := h, mcount_slab_ptr := p, mcount_slab_size := 1020\<rparr>"])
      show "used s x \<Longrightarrow> used (s\<lparr>heap_end := h, mcount_slab_ptr := p, mcount_slab_size := 1020\<rparr>) x" for x
        using p(1) below by (simp add: used_def)
    qed (use p inv assms(3) True small_size [of "mcount_slab_size s"] in
        \<open>auto simp: alloc_inv_def same_graph_def mcount_allocate_def gmon_sbrk_def k n node_size_def Let_def\<close>)
  qed
  note inv1 = s1(1) [unfolded alloc_inv_def]
  have pos: "0 < unat (mcount_slab_ptr s1)" using inv1 s1(4) by linarith
  have "int (unat (mcount_slab_ptr s1)) + 12 \<le> int (unat (heap_end s1))" using inv1 s1(4) by linarith
  then have "unat (mcount_slab_ptr s1) + 12 \<le> unat (heap_end s1)" by linarith
  then have "unat (mcount_slab_ptr s1) + 12 < 2 ^ LENGTH(32)" using s1(3) assms(2) lim by simp
  then have u: "unat (mcount_slab_ptr s1 + 12) = unat (mcount_slab_ptr s1) + 12"
    using unat_add_lem [of "mcount_slab_ptr s1" 12] by simp
  show "alloc_inv lim s'" using inv1 s1(4) u by (simp add: alloc_inv_def r)
  show "same_graph s s'" using s1(2) by (simp add: same_graph_def r)
  show "unat (heap_end s') \<le> unat (heap_end s) + 1023" using s1(3) by (simp add: r)
  show "used s' a" using pos u by (auto simp: used_def r)
  show "used s' x \<and> x \<noteq> a" if "used s x" for x
    using s1(5) [OF that] u by (auto simp: used_def r)
qed

section \<open>Linking a node\<close>

lemma same_graph_inv: "same_graph s s' \<Longrightarrow> graph_inv s shs \<Longrightarrow> graph_inv s' shs"
  by (simp add: same_graph_def graph_inv_def bucket_at_def)

lemma same_graph_call: "same_graph s s' \<Longrightarrow> call_graph s' sh = call_graph s sh"
  by (simp add: same_graph_def call_graph_def arcs_of_def)

definition add_entry :: "u32 \<Rightarrow> nat \<Rightarrow> u32 \<Rightarrow> gmon \<Rightarrow> gmon" where
  "add_entry self b e s =
     s\<lparr>entry_at := (entry_at s)(e := \<lparr>entry_next = mcount_fn_head s ! b, self_pc = self, arc_head = 0\<rparr>),
       mcount_fn_head := (mcount_fn_head s)[b := e]\<rparr>"

definition add_arc :: "u32 \<Rightarrow> u32 \<Rightarrow> u32 \<Rightarrow> gmon \<Rightarrow> gmon" where
  "add_arc caller e a s =
     s\<lparr>arc_at := (arc_at s)(a := \<lparr>arc_next = arc_head (entry_at s e), from_pc = caller, arc_count = 1\<rparr>),
       entry_at := (entry_at s)(e := (entry_at s e)\<lparr>arc_head := a\<rparr>)\<rparr>"

definition shape_arc :: "u32 \<Rightarrow> u32 \<Rightarrow> shape \<Rightarrow> shape" where
  "shape_arc e a = map (\<lambda>(f, as). if f = e then (f, a # as) else (f, as))"

lemma shape_arc_fst [simp]: "map fst (shape_arc e a sh) = map fst sh"
  by (induction sh) (auto simp: shape_arc_def)

lemma shape_arc_nodes:
  assumes "distinct (nodes sh)" "a \<notin> set (nodes sh)"
  shows "distinct (nodes (shape_arc e a sh)) \<and> set (nodes (shape_arc e a sh)) \<subseteq> insert a (set (nodes sh))"
  using assms
proof (induction sh)
  case (Cons x sh)
  obtain f as where x: "x = (f, as)" by fastforce
  show ?case
  proof (cases "f = e")
    case True
    have "shape_arc e a sh = sh"
      unfolding shape_arc_def by (rule map_idI) (use Cons.prems(1) x True shape_nodes in fastforce)
    then show ?thesis using Cons.prems x True by (auto simp: shape_arc_def)
  next
    case False
    have "shape_arc e a (x # sh) = (f, as) # shape_arc e a sh" using x False by (simp add: shape_arc_def)
    then show ?thesis using Cons x by (auto simp: x)
  qed
qed (simp add: shape_arc_def)

text \<open>A node that is in no bucket can be linked; the other buckets do not notice.\<close>

lemma add_entry_chain:
  assumes "e \<notin> set (nodes sh)"
  shows "chain (\<lambda>x. entry_next (entry_at (add_entry self b e s) x)) p (map fst sh) =
      chain (\<lambda>x. entry_next (entry_at s x)) p (map fst sh)"
    and "(f, as) \<in> set sh \<Longrightarrow> entry_at (add_entry self b e s) f = entry_at s f"
proof -
  have ne: "f \<noteq> e" if "(f, as) \<in> set sh" for f as using shape_nodes [OF that] assms by auto
  show "chain (\<lambda>x. entry_next (entry_at (add_entry self b e s) x)) p (map fst sh) =
      chain (\<lambda>x. entry_next (entry_at s x)) p (map fst sh)"
    by (rule chain_cong) (use ne in \<open>fastforce simp: add_entry_def\<close>)
  show "(f, as) \<in> set sh \<Longrightarrow> entry_at (add_entry self b e s) f = entry_at s f"
    using ne by (auto simp: add_entry_def)
qed

lemma add_entry_call:
  assumes "e \<notin> set (nodes sh)"
  shows "call_graph (add_entry self b e s) sh = call_graph s sh"
  unfolding call_graph_def
  by (rule map_cong) (use add_entry_chain(2) [OF assms] in \<open>auto simp: arcs_of_def\<close>, auto simp: add_entry_def)

lemma add_entry_arcs:
  assumes "e \<notin> set (nodes sh)" "bucket_at s c sh" "(f, as) \<in> set sh"
  shows "chain (\<lambda>a. arc_next (arc_at (add_entry self b e s) a)) (arc_head (entry_at (add_entry self b e s) f)) as"
  using assms(2,3) unfolding bucket_at_def add_entry_chain(2) [OF assms(1,3)] by (auto simp: add_entry_def)

lemma add_entry_other:
  assumes "bucket_at s c sh" "c \<noteq> b" "e \<notin> set (nodes sh)"
  shows "bucket_at (add_entry self b e s) c sh"
  unfolding bucket_at_def add_entry_chain(1) [OF assms(3)]
  using assms(1,2) add_entry_arcs [OF assms(3,1)] by (auto simp: bucket_at_def add_entry_def)

lemma add_entry_bucket:
  assumes "bucket_at s b sh" "b < length (mcount_fn_head s)" "e \<notin> set (nodes sh)" "e \<noteq> 0"
  shows "bucket_at (add_entry self b e s) b ((e, []) # sh)"
    "call_graph (add_entry self b e s) ((e, []) # sh) = (self, []) # call_graph s sh"
proof -
  have "mcount_fn_head (add_entry self b e s) ! b = e"
    "entry_at (add_entry self b e s) e = \<lparr>entry_next = mcount_fn_head s ! b, self_pc = self, arc_head = 0\<rparr>"
    using assms(2) by (simp_all add: add_entry_def)
  then show "bucket_at (add_entry self b e s) b ((e, []) # sh)"
    using assms(1,4) add_entry_chain(1) [OF assms(3)] add_entry_arcs [OF assms(3,1)] by (auto simp: bucket_at_def)
  show "call_graph (add_entry self b e s) ((e, []) # sh) = (self, []) # call_graph s sh"
    using add_entry_call [OF assms(3)] by (simp add: call_graph_def arcs_of_def) (simp add: add_entry_def)
qed

lemma add_arc_other:
  assumes "bucket_at s c sh" "a \<notin> set (nodes sh)" "e \<notin> set (nodes sh)"
  shows "bucket_at (add_arc caller e a s) c sh" "call_graph (add_arc caller e a s) sh = call_graph s sh"
proof -
  have nx: "(\<lambda>x. entry_next (entry_at (add_arc caller e a s) x)) = (\<lambda>x. entry_next (entry_at s x))"
    by (auto simp: add_arc_def)
  have ne: "f \<noteq> e \<and> a \<notin> set as" if "(f, as) \<in> set sh" for f as using shape_nodes [OF that] assms(2,3) by auto
  have "chain (\<lambda>x. arc_next (arc_at (add_arc caller e a s) x)) p as = chain (\<lambda>x. arc_next (arc_at s x)) p as"
    if "a \<notin> set as" for p as
    by (rule chain_cong) (use that in \<open>auto simp: add_arc_def\<close>)
  with ne show "bucket_at (add_arc caller e a s) c sh"
    using assms(1) unfolding bucket_at_def nx by (fastforce simp: add_arc_def)
  show "call_graph (add_arc caller e a s) sh = call_graph s sh"
    using ne by (fastforce simp: call_graph_def arcs_of_def add_arc_def)
qed

lemma add_arc_bucket:
  assumes "bucket_at s c sh" "distinct (nodes sh)" "a \<notin> set (nodes sh)" "a \<noteq> 0"
  shows "bucket_at (add_arc caller e a s) c (shape_arc e a sh)"
    "call_graph (add_arc caller e a s) (shape_arc e a sh) =
      map (\<lambda>(f, as). (self_pc (entry_at s f), (if f = e then [(caller, 1)] else []) @ arcs_of s as)) sh"
proof -
  have nx: "(\<lambda>x. entry_next (entry_at (add_arc caller e a s) x)) = (\<lambda>x. entry_next (entry_at s x))"
    by (auto simp: add_arc_def)
  have ne: "a \<notin> set as" if "(f, as) \<in> set sh" for f as using shape_nodes [OF that] assms(3) by auto
  have ch: "chain (\<lambda>x. arc_next (arc_at (add_arc caller e a s) x)) p as = chain (\<lambda>x. arc_next (arc_at s x)) p as"
    if "a \<notin> set as" for p as
    by (rule chain_cong) (use that in \<open>auto simp: add_arc_def\<close>)
  have old: "chain (\<lambda>x. arc_next (arc_at s x)) (arc_head (entry_at s f)) as" if "(f, as) \<in> set sh" for f as
    using assms(1) that by (auto simp: bucket_at_def)
  have "chain (\<lambda>x. arc_next (arc_at (add_arc caller e a s) x)) (arc_head (entry_at (add_arc caller e a s) f)) as'"
    if "(f, as') \<in> set (shape_arc e a sh)" for f as'
  proof -
    obtain as where m: "(f, as) \<in> set sh" "as' = (if f = e then a # as else as)"
      using \<open>(f, as') \<in> set (shape_arc e a sh)\<close> by (auto simp: shape_arc_def split: if_splits)
    have "arc_head (entry_at (add_arc caller e a s) f) = (if f = e then a else arc_head (entry_at s f))"
      "arc_next (arc_at (add_arc caller e a s) a) = arc_head (entry_at s e)" by (simp_all add: add_arc_def)
    then show ?thesis using m ch [OF ne [OF m(1)]] old [OF m(1)] assms(4) by auto
  qed
  then show "bucket_at (add_arc caller e a s) c (shape_arc e a sh)"
    using assms(1) unfolding bucket_at_def nx shape_arc_fst by (auto simp: add_arc_def)
  show "call_graph (add_arc caller e a s) (shape_arc e a sh) =
      map (\<lambda>(f, as). (self_pc (entry_at s f), (if f = e then [(caller, 1)] else []) @ arcs_of s as)) sh"
    using ne by (fastforce simp: call_graph_def arcs_of_def add_arc_def shape_arc_def)
qed

section \<open>Recording a call\<close>

text \<open>The invariant: slabs and buckets are in order, every linked node is a used one, and a bucket has a
  function once.\<close>

definition gmon_inv :: "u32 \<Rightarrow> gmon \<Rightarrow> shape list \<Rightarrow> bool" where
  "gmon_inv lim s shs \<longleftrightarrow> alloc_inv lim s \<and> graph_inv s shs \<and>
     (\<forall>b < HASH_BUCKETS. \<forall>x \<in> set (nodes (shs ! b)). used s x) \<and>
     (\<forall>b < HASH_BUCKETS. distinct (map fst (call_graph s (shs ! b))))"

lemma graph_update:
  assumes "graph_inv s shs" "b < HASH_BUCKETS" "length (mcount_fn_head s') = HASH_BUCKETS"
    and "bucket_at s' b sh" "distinct (nodes sh)" "set (nodes sh) \<subseteq> insert x (set (nodes (shs ! b)))"
    and "\<And>c. c < HASH_BUCKETS \<Longrightarrow> x \<notin> set (nodes (shs ! c))"
    and "\<And>c. c < HASH_BUCKETS \<Longrightarrow> c \<noteq> b \<Longrightarrow> bucket_at s' c (shs ! c)"
  shows "graph_inv s' (shs[b := sh])"
proof -
  have l: "length shs = HASH_BUCKETS"
    and d: "\<And>c. c < HASH_BUCKETS \<Longrightarrow> distinct (nodes (shs ! c))"
    and dis: "\<And>c d. c < HASH_BUCKETS \<Longrightarrow> d < HASH_BUCKETS \<Longrightarrow> c \<noteq> d \<Longrightarrow>
      set (nodes (shs ! c)) \<inter> set (nodes (shs ! d)) = {}"
    using assms(1) by (auto simp: graph_inv_def)
  have new: "set (nodes sh) \<inter> set (nodes (shs ! c)) = {}" if "c < HASH_BUCKETS" "c \<noteq> b" for c
    using assms(6) assms(7) [OF that(1)] dis [OF assms(2) that(1)] that(2) by blast
  have "set (nodes (shs[b := sh] ! c)) \<inter> set (nodes (shs[b := sh] ! d)) = {}"
    if "c < HASH_BUCKETS" "d < HASH_BUCKETS" "c \<noteq> d" for c d
    using that new [of c] new [of d] dis [OF that] l by (cases "c = b"; cases "d = b") (auto simp: Int_commute)
  moreover have "bucket_at s' c (shs[b := sh] ! c) \<and> distinct (nodes (shs[b := sh] ! c))" if "c < HASH_BUCKETS" for c
    using assms(4,5) assms(8) [OF that] d [OF that] l that by (cases "c = b") auto
  ultimately show ?thesis using l assms(3) unfolding graph_inv_def by simp
qed

lemma lookup_found:
  assumes "lookup_fn s self sh = e" "e \<noteq> 0"
  shows "e \<in> set (map fst sh)" "self_pc (entry_at s e) = self"
  using assms find_Some_iff [of "\<lambda>e. self_pc (entry_at s e) = self" "map fst sh" e]
  by (auto simp: lookup_fn_def split: option.splits)

lemma lookup_none:
  assumes "lookup_fn s self sh = 0" "0 \<notin> set (map fst sh)"
  shows "self \<notin> set (map fst (call_graph s sh))"
proof
  assume "self \<in> set (map fst (call_graph s sh))"
  then obtain e where e: "e \<in> set (map fst sh)" "self_pc (entry_at s e) = self" by (fastforce simp: call_graph_def)
  show False
  proof (cases "find (\<lambda>e. self_pc (entry_at s e) = self) (map fst sh)")
    case None
    then show ?thesis using e unfolding find_None_iff by blast
  next
    case (Some f)
    then have "f \<in> set (map fst sh)" unfolding find_Some_iff by (auto intro: nth_mem)
    then show ?thesis using assms Some by (simp add: lookup_fn_def)
  qed
qed

text \<open>One arc more: in the slabs, in the buckets and in the graph.\<close>

lemma arc_recorded:
  fixes caller :: u32
  assumes "gmon_inv lim s shs" "b < HASH_BUCKETS" "e \<in> set (map fst (shs ! b))"
    and "unat (heap_end s) + 1023 \<le> unat lim" "mcount_allocate lim node_size s = (a, s1)"
  defines "s' \<equiv> add_arc caller e a s1" and "shs' \<equiv> shs[b := shape_arc e a (shs ! b)]"
  shows "gmon_inv lim s' shs'" "c < HASH_BUCKETS \<Longrightarrow> c \<noteq> b \<Longrightarrow> call_graph s' (shs' ! c) = call_graph s (shs ! c)"
    "call_graph s' (shs' ! b) =
      map (\<lambda>(f, as). (self_pc (entry_at s f), (if f = e then [(caller, 1)] else []) @ arcs_of s as)) (shs ! b)"
proof -
  note al = allocate_node [OF _ assms(4,5)]
  have inv: "alloc_inv lim s" "graph_inv s shs" using assms(1) by (simp_all add: gmon_inv_def)
  have g1: "graph_inv s1 shs" using same_graph_inv al(2) inv by blast
  then have l: "length shs = HASH_BUCKETS" "length (mcount_fn_head s1) = HASH_BUCKETS"
    and bk: "\<And>c. c < HASH_BUCKETS \<Longrightarrow> bucket_at s1 c (shs ! c)"
    and ds: "\<And>c. c < HASH_BUCKETS \<Longrightarrow> distinct (nodes (shs ! c))"
    and dis: "\<And>c d. c < HASH_BUCKETS \<Longrightarrow> d < HASH_BUCKETS \<Longrightarrow> c \<noteq> d \<Longrightarrow>
      set (nodes (shs ! c)) \<inter> set (nodes (shs ! d)) = {}" by (auto simp: graph_inv_def)
  have fresh: "a \<notin> set (nodes (shs ! c))" if "c < HASH_BUCKETS" for c
    using al(5) [OF inv(1)] assms(1) that by (auto simp: gmon_inv_def)
  have a0: "a \<noteq> 0" using al(4) [OF inv(1)] by (simp add: used_def)
  have "e \<in> set (nodes (shs ! b))" using assms(3) shape_nodes by fastforce
  then have eo: "e \<notin> set (nodes (shs ! c))" if "c < HASH_BUCKETS" "c \<noteq> b" for c
    using dis [OF assms(2) that(1)] that(2) by blast
  note other = add_arc_other [OF bk fresh eo] and this_b = add_arc_bucket [OF bk [OF assms(2)] ds [OF assms(2)] fresh [OF assms(2)] a0]
  note nd = shape_arc_nodes [OF ds [OF assms(2)] fresh [OF assms(2)], of e]
  have cg: "call_graph s1 sh = call_graph s sh" for sh by (rule same_graph_call) (rule al(2) [OF inv(1)])
  have en: "entry_at s1 = entry_at s" "arcs_of s1 = arcs_of s"
    using al(2) [OF inv(1)] by (auto simp: same_graph_def arcs_of_def)
  show oc: "call_graph s' (shs' ! c) = call_graph s (shs ! c)" if "c < HASH_BUCKETS" "c \<noteq> b" for c
    using other(2) [OF that(1) that(1) that] that cg by (simp add: s'_def shs'_def)
  show bc: "call_graph s' (shs' ! b) =
      map (\<lambda>(f, as). (self_pc (entry_at s f), (if f = e then [(caller, 1)] else []) @ arcs_of s as)) (shs ! b)"
    using this_b(2) l assms(2) by (simp add: s'_def shs'_def en)
  have "graph_inv s' shs'" unfolding s'_def shs'_def
  proof (rule graph_update [OF g1 assms(2) _ this_b(1)])
    show "length (mcount_fn_head (add_arc caller e a s1)) = HASH_BUCKETS" using l by (simp add: add_arc_def)
    show "bucket_at (add_arc caller e a s1) c (shs ! c)" if "c < HASH_BUCKETS" "c \<noteq> b" for c
      by (rule other(1) [OF that(1) that(1) that])
    show "distinct (nodes (shape_arc e a (shs ! b)))" "set (nodes (shape_arc e a (shs ! b))) \<subseteq> insert a (set (nodes (shs ! b)))"
      using nd by blast+
  qed (use fresh in simp_all)
  moreover have "alloc_inv lim s'" "\<And>x. used s' x = used s1 x"
    using al(1) [OF inv(1)] by (auto simp: s'_def add_arc_def alloc_inv_def used_def)
  moreover have "used s1 x" if "c < HASH_BUCKETS" "x \<in> set (nodes (shs' ! c))" for c x
  proof -
    have "x = a \<or> x \<in> set (nodes (shs ! c))"
      using that nd l assms(2) by (cases "c = b") (auto simp: shs'_def)
    then show ?thesis using al(4,5) [OF inv(1)] assms(1) that(1) by (auto simp: gmon_inv_def)
  qed
  moreover have "map fst (call_graph s' (shs' ! c)) = map fst (call_graph s (shs ! c))" if "c < HASH_BUCKETS" for c
    using oc [OF that] bc by (cases "c = b") (auto simp: call_graph_def)
  ultimately show "gmon_inv lim s' shs'" using assms(1) by (simp add: gmon_inv_def)
qed

lemma entry_recorded:
  fixes self :: u32
  assumes "gmon_inv lim s shs" "b < HASH_BUCKETS" "self \<notin> set (map fst (call_graph s (shs ! b)))"
    and "unat (heap_end s) + 1023 \<le> unat lim" "mcount_allocate lim node_size s = (e, s1)"
  defines "s' \<equiv> add_entry self b e s1" and "shs' \<equiv> shs[b := (e, []) # shs ! b]"
  shows "gmon_inv lim s' shs'" "c < HASH_BUCKETS \<Longrightarrow> c \<noteq> b \<Longrightarrow> call_graph s' (shs' ! c) = call_graph s (shs ! c)"
    "call_graph s' (shs' ! b) = (self, []) # call_graph s (shs ! b)"
    "unat (heap_end s') \<le> unat (heap_end s) + 1023"
proof -
  note al = allocate_node [OF _ assms(4,5)]
  have inv: "alloc_inv lim s" "graph_inv s shs" using assms(1) by (simp_all add: gmon_inv_def)
  have g1: "graph_inv s1 shs" using same_graph_inv al(2) inv by blast
  then have l: "length shs = HASH_BUCKETS" "length (mcount_fn_head s1) = HASH_BUCKETS"
    and bk: "\<And>c. c < HASH_BUCKETS \<Longrightarrow> bucket_at s1 c (shs ! c)"
    and ds: "\<And>c. c < HASH_BUCKETS \<Longrightarrow> distinct (nodes (shs ! c))" by (auto simp: graph_inv_def)
  have fresh: "e \<notin> set (nodes (shs ! c))" if "c < HASH_BUCKETS" for c
    using al(5) [OF inv(1)] assms(1) that by (auto simp: gmon_inv_def)
  have e0: "e \<noteq> 0" using al(4) [OF inv(1)] by (simp add: used_def)
  have bl: "b < length (mcount_fn_head s1)" using l assms(2) by simp
  note other = add_entry_other [OF bk _ fresh] and this_b = add_entry_bucket [OF bk [OF assms(2)] bl fresh [OF assms(2)] e0]
  have cg: "call_graph s1 sh = call_graph s sh" for sh by (rule same_graph_call) (rule al(2) [OF inv(1)])
  show oc: "call_graph s' (shs' ! c) = call_graph s (shs ! c)" if "c < HASH_BUCKETS" "c \<noteq> b" for c
    using add_entry_call [OF fresh [OF that(1)]] that cg by (simp add: s'_def shs'_def)
  show bc: "call_graph s' (shs' ! b) = (self, []) # call_graph s (shs ! b)"
    using this_b(2) l assms(2) cg by (simp add: s'_def shs'_def)
  show "unat (heap_end s') \<le> unat (heap_end s) + 1023"
    using al(3) [OF inv(1)] by (simp add: s'_def add_entry_def)
  have "graph_inv s' shs'" unfolding s'_def shs'_def
  proof (rule graph_update [OF g1 assms(2) _ this_b(1)])
    show "length (mcount_fn_head (add_entry self b e s1)) = HASH_BUCKETS" using l by (simp add: add_entry_def)
    show "bucket_at (add_entry self b e s1) c (shs ! c)" if "c < HASH_BUCKETS" "c \<noteq> b" for c
      by (rule other [OF that(1) that(2) that(1)])
    show "distinct (nodes ((e, []) # shs ! b))" "set (nodes ((e, []) # shs ! b)) \<subseteq> insert e (set (nodes (shs ! b)))"
      using ds [OF assms(2)] fresh [OF assms(2)] by simp_all
  qed (use fresh in simp_all)
  moreover have "alloc_inv lim s'" "\<And>x. used s' x = used s1 x"
    using al(1) [OF inv(1)] by (auto simp: s'_def add_entry_def alloc_inv_def used_def)
  moreover have "used s1 x" if "c < HASH_BUCKETS" "x \<in> set (nodes (shs' ! c))" for c x
  proof -
    have "x = e \<or> x \<in> set (nodes (shs ! c))"
      using that l assms(2) by (cases "c = b") (auto simp: shs'_def)
    then show ?thesis using al(4,5) [OF inv(1)] assms(1) that(1) by (auto simp: gmon_inv_def)
  qed
  moreover have "distinct (map fst (call_graph s' (shs' ! c)))" if "c < HASH_BUCKETS" for c
    using oc [OF that] bc assms(1,3) that by (cases "c = b") (auto simp: gmon_inv_def)
  ultimately show "gmon_inv lim s' shs'" by (simp add: gmon_inv_def)
qed

text \<open>The first call may start the sampling, which takes the histogram from the heap.\<close>

definition start_sampling :: "u32 \<Rightarrow> u32 \<Rightarrow> u32 \<Rightarrow> u32 \<Rightarrow> gmon \<Rightarrow> gmon" where
  "start_sampling lim low high rate s =
     (if pcsample_need_init s then
        let s = s\<lparr>pcsample_need_init := False\<rparr>; (r, s) = nios2_pcsample_init lim low high rate s
        in s\<lparr>pcsample_need_init := r\<rparr>
      else s)"

lemma mcount_record_parts:
  "mcount_record lim low high rate self caller fn b s =
     (let s = start_sampling lim low high rate s;
          (e, s) = (if fn = 0 then let (e, s) = mcount_allocate lim node_size s in (e, add_entry self b e s) else (fn, s));
          (a, s) = mcount_allocate lim node_size s
      in add_arc caller e a s)"
  by (simp add: mcount_record_def start_sampling_def add_entry_def add_arc_def Let_def split: prod.splits)

lemma histogram_size: "unat ((high - low :: u32) div PCSAMPLE_BYTES_PER_BUCKET * 2) \<le> unat (high - low)"
  "unat ((high - low :: u32) div PCSAMPLE_BYTES_PER_BUCKET * 2) < 2 ^ 30"
proof -
  have d: "unat ((high - low) div PCSAMPLE_BYTES_PER_BUCKET) = unat (high - low) div 32"
    by (simp add: PCSAMPLE_BYTES_PER_BUCKET_def unat_div_distrib)
  have u: "unat (high - low) < 2 ^ 32" using unsigned_less [of "high - low"] by simp
  then have "unat (high - low) div 32 < 2 ^ 27" by (simp add: div_less_iff_less_mult)
  then have "unat ((high - low) div PCSAMPLE_BYTES_PER_BUCKET * 2) = unat (high - low) div 32 * 2"
    by (subst unat_mult_lem [THEN iffD1]) (simp_all add: d)
  then show "unat ((high - low) div PCSAMPLE_BYTES_PER_BUCKET * 2) \<le> unat (high - low)"
    "unat ((high - low) div PCSAMPLE_BYTES_PER_BUCKET * 2) < 2 ^ 30"
    using \<open>unat (high - low) div 32 < 2 ^ 27\<close> by simp_all
qed

lemma sampling_keeps:
  fixes low high rate :: u32
  assumes "gmon_inv lim s shs"
  defines "s1 \<equiv> start_sampling lim low high rate s"
  shows "gmon_inv lim s1 shs" "same_graph s s1" "unat (heap_end s1) \<le> unat (heap_end s) + 3 + unat (high - low)"
proof -
  obtain p h where k: "alt_sbrk lim ((high - low) div PCSAMPLE_BYTES_PER_BUCKET * 2) (heap_end s) = (p, h)" by fastforce
  have inv: "alloc_inv lim s" "heap_inv lim (heap_end s)" using assms(1) by (simp_all add: gmon_inv_def alloc_inv_def)
  note n = histogram_size [of high low]
  have n': "unat ((high - low) div PCSAMPLE_BYTES_PER_BUCKET * 2) < 2 ^ 31" using n(2) by simp
  have h: "heap_inv lim h" "unat (heap_end s) \<le> unat h" "unat h \<le> unat (heap_end s) + 3 + unat (high - low)"
    using alt_sbrk_block(1,2) [OF inv(2) n' k] sbrk_growth(1) [OF inv(2) n(2) k] n(1) by simp_all
  have e: "(heap_end s1 = heap_end s \<or> heap_end s1 = h) \<and> same_graph s s1 \<and> mcount_slab_ptr s1 = mcount_slab_ptr s \<and>
      mcount_slab_size s1 = mcount_slab_size s"
    by (simp add: s1_def start_sampling_def nios2_pcsample_init_def gmon_sbrk_def k Let_def same_graph_def)
  then show sg: "same_graph s s1" "unat (heap_end s1) \<le> unat (heap_end s) + 3 + unat (high - low)" using h by auto
  have "unat (heap_end s) \<le> unat (heap_end s1)" using e h(2) by auto
  then have "int (unat (heap_end s)) \<le> int (unat (heap_end s1))" by (simp only: of_nat_le_iff)
  then have "alloc_inv lim s1" using e h inv unfolding alloc_inv_def by auto
  moreover have "used s1 x = used s x" for x using e by (simp add: used_def)
  ultimately show "gmon_inv lim s1 shs"
    using assms(1) same_graph_inv [OF sg(1)] same_graph_call [OF sg(1)] by (simp add: gmon_inv_def)
qed

text \<open>What the two allocations give together, over what the assembly found.\<close>

lemma found_recorded:
  assumes "distinct (map (\<lambda>(e, as). self_pc (entry_at s e)) sh)" "e \<in> set (map fst sh)" "self_pc (entry_at s e) = self"
  shows "map (\<lambda>(f, as). (self_pc (entry_at s f), (if f = e then [(caller, 1)] else []) @ arcs_of s as)) sh =
    record_arc self caller (call_graph s sh)"
proof -
  have "self \<in> set (map fst (call_graph s sh))" using assms(2,3) by (force simp: call_graph_def)
  moreover have "self_pc (entry_at s f) = self \<longleftrightarrow> f = e" if "(f, as) \<in> set sh" for f as
  proof -
    obtain bs where "(e, bs) \<in> set sh" using assms(2) by auto
    then show ?thesis using that assms(1,3) by (auto simp: distinct_map inj_on_def)
  qed
  ultimately show ?thesis by (auto simp: record_arc_def call_graph_def)
qed

text \<open>At the start nothing is recorded.\<close>

lemma gmon_init_inv:
  assumes "heap_inv lim h" "0 < unat h"
  shows "gmon_inv lim (gmon_init h) (replicate HASH_BUCKETS [])"
  using assms by (simp add: gmon_inv_def alloc_inv_def graph_inv_def gmon_init_def bucket_at_def call_graph_def)

text \<open>Recording a call is the obvious operation on the call graph: in the bucket of the function the
  function gets a new caller counted once, after being entered in front if it was not there, and the
  other buckets stay as they are. The nodes are new memory whatever was recorded before: slabs and
  lists stay well-formed, no two nodes share an address, and every function stays in its bucket once,
  as long as the heap has room, also when the call is the one that starts the sampling.\<close>
lemma call_recorded:
  fixes low high rate caller self :: u32
  assumes "gmon_inv lim s shs" "b < HASH_BUCKETS" "unat (heap_end s) + unat (high - low) + 2100 \<le> unat lim"
  defines "s' \<equiv> mcount_record lim low high rate self caller (lookup_fn s self (shs ! b)) b s"
  shows "\<exists>shs'. gmon_inv lim s' shs' \<and>
    (\<forall>c < HASH_BUCKETS. call_graph s' (shs' ! c) =
       (if c = b then record_arc self caller (call_graph s (shs ! c)) else call_graph s (shs ! c)))"
proof -
  define s1 where "s1 = start_sampling lim low high rate s"
  note sm = sampling_keeps [OF assms(1), of low high rate, folded s1_def]
  have cg: "call_graph s1 sh = call_graph s sh" for sh by (rule same_graph_call) (rule sm(2))
  have room: "unat (heap_end s1) + 2046 \<le> unat lim" using sm(3) assms(3) by linarith
  have lk: "lookup_fn s1 = lookup_fn s" using sm(2) by (simp add: lookup_fn_def same_graph_def fun_eq_iff)
  have l: "length shs = HASH_BUCKETS" using assms(1) by (simp add: gmon_inv_def graph_inv_def)
  show ?thesis
  proof (cases "lookup_fn s self (shs ! b) = 0")
    case False
    define e where "e = lookup_fn s self (shs ! b)"
    have e: "e \<in> set (map fst (shs ! b))" "self_pc (entry_at s1 e) = self"
      using lookup_found [of s1 self "shs ! b" e] False by (simp_all add: lk e_def)
    obtain a s2 where a: "mcount_allocate lim node_size s1 = (a, s2)" by fastforce
    have s': "s' = add_arc caller e a s2"
      using False by (simp add: s'_def mcount_record_parts Let_def s1_def [symmetric] a e_def)
    note rc = arc_recorded [OF sm(1) assms(2) e(1) _ a, where caller = caller, folded s']
    have "distinct (map (\<lambda>(e, as). self_pc (entry_at s1 e)) (shs ! b))"
      using sm(1) assms(2) by (simp add: gmon_inv_def call_graph_def comp_def case_prod_beta')
    note fr = found_recorded [OF this e, where caller = caller]
    show ?thesis using rc room fr cg
      by (intro exI [of _ "shs[b := shape_arc e a (shs ! b)]"]) simp
  next
    case True
    have "0 \<notin> set (map fst (shs ! b))"
      using assms(1,2) shape_nodes by (fastforce simp: gmon_inv_def used_def)
    then have new: "self \<notin> set (map fst (call_graph s1 (shs ! b)))" using lookup_none [OF True] by (simp add: cg)
    obtain e s2 where e: "mcount_allocate lim node_size s1 = (e, s2)" by fastforce
    define s3 where "s3 = add_entry self b e s2"
    obtain a s4 where a: "mcount_allocate lim node_size s3 = (a, s4)" by fastforce
    have s': "s' = add_arc caller e a s4"
      using True by (simp add: s'_def mcount_record_parts Let_def s1_def [symmetric] e s3_def [symmetric] a)
    define shs1 where "shs1 = shs[b := (e, []) # shs ! b]"
    note er = entry_recorded [OF sm(1) assms(2) new _ e, folded s3_def shs1_def]
    have b1: "shs1 ! b = (e, []) # shs ! b" using l assms(2) by (simp add: shs1_def)
    have g3: "gmon_inv lim s3 shs1" "unat (heap_end s3) + 1023 \<le> unat lim" using er(1,4) room by simp_all
    have em: "e \<in> set (map fst (shs1 ! b))" by (simp add: b1)
    note rc = arc_recorded [OF g3(1) assms(2) em g3(2) a, where caller = caller, folded s']
    have sp: "self_pc (entry_at s3 e) = self" by (simp add: s3_def add_entry_def)
    have "distinct (map (\<lambda>(e, as). self_pc (entry_at s3 e)) (shs1 ! b))"
      using g3(1) assms(2) by (simp add: gmon_inv_def call_graph_def comp_def case_prod_beta')
    note fr = found_recorded [OF this em sp, where caller = caller]
    have same: "map (\<lambda>(f, as). if f = self then (f, (caller, 1) # as) else (f, as)) (call_graph s (shs ! b)) =
        call_graph s (shs ! b)"
      by (rule map_idI) (use new cg in force)
    have "call_graph s' (shs1[b := shape_arc e a (shs1 ! b)] ! b) = record_arc self caller ((self, []) # call_graph s (shs ! b))"
      using rc(3) fr er(3) room cg by simp
    also have "\<dots> = record_arc self caller (call_graph s (shs ! b))"
      using new cg same by (simp add: record_arc_def)
    finally show ?thesis using rc er room cg
      by (intro exI [of _ "shs1[b := shape_arc e a (shs1 ! b)]"]) simp
  qed
qed

end
