(* ===== verification/Mcount.thy ===== *)
theory Mcount
  imports Gmon_Graph
begin

text \<open>
  The profiler's entry (alt_mcount.S), which the compiler calls at the start of every function: it looks
  up the function and its caller in the linked nodes and counts the arc, or has __mcount_record add it.
  The theorem says that over any run of the program the nodes hold for every function and caller
  just how often the one called the other.
\<close>

section \<open>The search\<close>

text \<open>The bucket: bits 5 to 10 of the address.\<close>

definition mcount_bucket :: "u32 \<Rightarrow> nat" where
  "mcount_bucket self = unat (drop_bit 5 self AND 63)"

text \<open>The two loops, over functions and over callers; 0 stands for the end of a list. The second does not
  look whether its first node is there.\<close>

partial_function (option) find_entry :: "gmon \<Rightarrow> u32 \<Rightarrow> u32 \<Rightarrow> u32 option" where
  "find_entry s self p =
     (if p = 0 then Some 0
      else if self_pc (entry_at s p) = self then Some p
      else find_entry s self (entry_next (entry_at s p)))"

partial_function (option) find_arc :: "gmon \<Rightarrow> u32 \<Rightarrow> u32 \<Rightarrow> u32 option" where
  "find_arc s caller p =
     (if from_pc (arc_at s p) = caller then Some p
      else if arc_next (arc_at s p) = 0 then Some 0
      else find_arc s caller (arc_next (arc_at s p)))"

definition count_found :: "u32 \<Rightarrow> gmon \<Rightarrow> gmon" where
  "count_found a s = s\<lparr>arc_at := (arc_at s)(a := (arc_at s a)\<lparr>arc_count := arc_count (arc_at s a) + 1\<rparr>)\<rparr>"

definition mcount :: "u32 \<Rightarrow> u32 \<Rightarrow> u32 \<Rightarrow> u32 \<Rightarrow> u32 \<Rightarrow> u32 \<Rightarrow> gmon \<Rightarrow> gmon option" where
  "mcount lim low high rate self caller s =
     (let b = mcount_bucket self
      in Option.bind (find_entry s self (mcount_fn_head s ! b)) (\<lambda>e.
         if e = 0 then Some (mcount_record lim low high rate self caller 0 b s)
         else Option.bind (find_arc s caller (arc_head (entry_at s e))) (\<lambda>a.
           if a = 0 then Some (mcount_record lim low high rate self caller e b s)
           else Some (count_found a s))))"

fun mcount_run :: "u32 \<Rightarrow> u32 \<Rightarrow> u32 \<Rightarrow> u32 \<Rightarrow> (u32 \<times> u32) list \<Rightarrow> gmon \<Rightarrow> gmon option" where
  "mcount_run lim low high rate [] s = Some s"
| "mcount_run lim low high rate ((self, caller) # calls) s =
     Option.bind (mcount lim low high rate self caller s) (mcount_run lim low high rate calls)"

lemma mcount_bucket_less: "mcount_bucket self < HASH_BUCKETS"
proof -
  have "drop_bit 5 self AND 63 \<le> 63" by (rule word_and_le1)
  then have "unat (drop_bit 5 self AND 63) \<le> unat (63 :: u32)" by (simp only: word_le_nat_alt)
  then show ?thesis by (simp add: mcount_bucket_def HASH_BUCKETS_def)
qed

text \<open>On the lists of the invariant both loops end with the first match.\<close>

definition first_match :: "('a \<Rightarrow> bool) \<Rightarrow> 'a list \<Rightarrow> 'a::zero" where
  "first_match P xs = (case find P xs of None \<Rightarrow> 0 | Some x \<Rightarrow> x)"

lemma find_entry_chain:
  "chain (\<lambda>e. entry_next (entry_at s e)) p es \<Longrightarrow>
   find_entry s self p = Some (first_match (\<lambda>e. self_pc (entry_at s e) = self) es)"
  by (induction es arbitrary: p) (simp_all add: find_entry.simps first_match_def)

lemma find_arc_chain:
  "chain (\<lambda>a. arc_next (arc_at s a)) p as \<Longrightarrow> as \<noteq> [] \<Longrightarrow>
   find_arc s caller p = Some (first_match (\<lambda>a. from_pc (arc_at s a) = caller) as)"
proof (induction as arbitrary: p)
  case (Cons a as)
  then show ?case by (cases as) (simp_all add: find_arc.simps [of s caller a] first_match_def)
qed simp

section \<open>The tally\<close>

definition tally_of :: "(u32 \<times> (u32 \<times> u32) list) list \<Rightarrow> u32 \<Rightarrow> u32 \<Rightarrow> u32 option" where
  "tally_of g self caller = Option.bind (map_of g self) (\<lambda>as. map_of as caller)"

definition tally :: "gmon \<Rightarrow> shape list \<Rightarrow> u32 \<times> u32 \<Rightarrow> u32 option" where
  "tally s shs = (\<lambda>(self, caller). tally_of (call_graph s (shs ! mcount_bucket self)) self caller)"

definition count_call :: "u32 \<times> u32 \<Rightarrow> (u32 \<times> u32 \<Rightarrow> u32 option) \<Rightarrow> u32 \<times> u32 \<Rightarrow> u32 option" where
  "count_call c m = m(c \<mapsto> (case m c of None \<Rightarrow> 1 | Some n \<Rightarrow> n + 1))"

text \<open>No function is listed without a caller.\<close>

definition mcount_inv :: "u32 \<Rightarrow> gmon \<Rightarrow> shape list \<Rightarrow> bool" where
  "mcount_inv lim s shs \<longleftrightarrow> gmon_inv lim s shs \<and> (\<forall>b < HASH_BUCKETS. [] \<notin> snd ` set (call_graph s (shs ! b)))"

lemma record_arc_tally:
  assumes "distinct (map fst g)"
  shows "tally_of (record_arc self caller g) f c = (if f = self \<and> c = caller then Some 1 else tally_of g f c)"
proof (cases "self \<in> set (map fst g)")
  case False
  then have "map_of g self = None" by (simp add: map_of_eq_None_iff)
  then show ?thesis using False by (auto simp: record_arc_def tally_of_def)
next
  case True
  have "map_of (map (\<lambda>(f, as). if f = self then (f, (caller, 1) # as) else (f, as)) g) f =
      map_option (\<lambda>as. if f = self then (caller, 1 :: u32) # as else as) (map_of g f)" for f
    by (induction g) auto
  moreover have "map_of g self \<noteq> None" using True by (simp add: map_of_eq_None_iff)
  ultimately show ?thesis using True by (cases "map_of g f") (auto simp: record_arc_def tally_of_def)
qed

lemma record_arc_full: "[] \<notin> snd ` set g \<Longrightarrow> [] \<notin> snd ` set (record_arc self caller g)"
  by (auto simp: record_arc_def split: if_splits)

section \<open>Counting a known arc\<close>

lemma arcs_of_simps [simp]:
  "arcs_of s [] = []" "arcs_of s (a # as) = (from_pc (arc_at s a), arc_count (arc_at s a)) # arcs_of s as"
  by (simp_all add: arcs_of_def)

lemma nodes_unique:
  assumes "distinct (nodes sh)" "(f, bs) \<in> set sh" "(e, as) \<in> set sh" "f = e \<or> set bs \<inter> set as \<noteq> {}"
  shows "f = e \<and> bs = as"
  using assms
proof (induction sh)
  case (Cons x sh)
  obtain g cs where x: "x = (g, cs)" by fastforce
  have "g \<notin> set (nodes sh)" "set cs \<inter> set (nodes sh) = {}" "distinct (nodes sh)" using Cons.prems(1) by (auto simp: x)
  then have new: "g \<noteq> h \<and> set cs \<inter> set ds = {}" if "(h, ds) \<in> set sh" for h ds using shape_nodes [OF that] by blast
  show ?case using Cons new \<open>distinct (nodes sh)\<close> by (auto simp: x)
qed simp

lemma count_found_simps [simp]:
  "entry_at (count_found a s) = entry_at s" "mcount_fn_head (count_found a s) = mcount_fn_head s"
  "heap_end (count_found a s) = heap_end s" "pcsample_need_init (count_found a s) = pcsample_need_init s"
  "arc_next (arc_at (count_found a s) x) = arc_next (arc_at s x)" "from_pc (arc_at (count_found a s) x) = from_pc (arc_at s x)"
  "alloc_inv lim (count_found a s) = alloc_inv lim s" "used (count_found a s) x = used s x"
  by (simp_all add: count_found_def alloc_inv_def used_def)

lemma count_found_arcs: "a \<notin> set as \<Longrightarrow> arcs_of (count_found a s) as = arcs_of s as"
  by (auto simp: arcs_of_def count_found_def)

lemma count_found_inv: "gmon_inv lim s shs \<Longrightarrow> gmon_inv lim (count_found a s) shs"
  by (simp add: gmon_inv_def graph_inv_def bucket_at_def call_graph_def comp_def case_prod_beta')

lemma count_arcs:
  assumes "find (\<lambda>a. from_pc (arc_at s a) = caller) as = Some a" "distinct as"
  shows "map_of (arcs_of s as) caller = Some (arc_count (arc_at s a))"
    "map_of (arcs_of (count_found a s) as) = (map_of (arcs_of s as))(caller \<mapsto> arc_count (arc_at s a) + 1)"
    "a \<in> set as"
proof -
  have "map_of (arcs_of s as) caller = Some (arc_count (arc_at s a)) \<and>
    map_of (arcs_of (count_found a s) as) = (map_of (arcs_of s as))(caller \<mapsto> arc_count (arc_at s a) + 1) \<and> a \<in> set as"
    using assms
  proof (induction as)
    case (Cons x as)
    show ?case
    proof (cases "from_pc (arc_at s x) = caller")
      case True
      then have "x = a" using Cons.prems(1) by simp
      then show ?thesis using True Cons.prems(2) count_found_arcs [of x as s]
        by (simp add: fun_eq_iff) (simp add: count_found_def)
    next
      case False
      then have f: "find (\<lambda>a. from_pc (arc_at s a) = caller) as = Some a" using Cons.prems(1) by simp
      note ih = Cons.IH [OF f]
      then have "a \<noteq> x" using Cons.prems(2) by auto
      then have "arc_at (count_found a s) x = arc_at s x" by (simp add: count_found_def)
      then show ?thesis using ih Cons.prems(2) False by (auto simp: fun_eq_iff)
    qed
  qed simp
  then show "map_of (arcs_of s as) caller = Some (arc_count (arc_at s a))"
    "map_of (arcs_of (count_found a s) as) = (map_of (arcs_of s as))(caller \<mapsto> arc_count (arc_at s a) + 1)"
    "a \<in> set as" by blast+
qed

lemma map_of_call_graph:
  assumes "distinct (map fst (call_graph s sh))" "(e, as) \<in> set sh"
  shows "map_of (call_graph s sh) (self_pc (entry_at s e)) = Some (arcs_of s as)"
  using assms by (intro map_of_is_SomeI) (force simp: call_graph_def)+

lemma map_of_other_key:
  assumes "\<And>x bs. (x, bs) \<in> set sh \<Longrightarrow> k x = f \<Longrightarrow> F bs = G bs"
  shows "map_of (map (\<lambda>(x, bs). (k x, F bs)) sh) f = map_of (map (\<lambda>(x, bs). (k x, G bs)) sh) f"
  using assms
proof (induction sh)
  case (Cons y sh)
  have "map_of (map (\<lambda>(x, bs). (k x, F bs)) sh) f = map_of (map (\<lambda>(x, bs). (k x, G bs)) sh) f"
    by (rule Cons.IH) (use Cons.prems in auto)
  then show ?case using Cons.prems [of "fst y" "snd y"] by (cases y) auto
qed simp

lemma found_counted:
  fixes self caller :: u32
  assumes "mcount_inv lim s shs" "e \<noteq> 0" "a \<noteq> 0" "b = mcount_bucket self"
    and "first_match (\<lambda>e. self_pc (entry_at s e) = self) (map fst (shs ! b)) = e"
    and "(e, as) \<in> set (shs ! b)" "first_match (\<lambda>a. from_pc (arc_at s a) = caller) as = a"
  shows "mcount_inv lim (count_found a s) shs" "tally (count_found a s) shs = count_call (self, caller) (tally s shs)"
    "tally s shs (self, caller) \<noteq> None"
proof -
  have g: "gmon_inv lim s shs" and b: "b < HASH_BUCKETS" using assms(1,4) mcount_bucket_less by (simp_all add: mcount_inv_def)
  have f: "find (\<lambda>a. from_pc (arc_at s a) = caller) as = Some a" using assms(3,7) by (auto simp: first_match_def split: option.splits)
  have "find (\<lambda>e. self_pc (entry_at s e) = self) (map fst (shs ! b)) = Some e"
    using assms(2,5) by (auto simp: first_match_def split: option.splits)
  then have sp: "self_pc (entry_at s e) = self" by (auto simp: find_Some_iff)
  have nd: "distinct (nodes (shs ! b))" using g b by (simp add: gmon_inv_def graph_inv_def)
  then have "distinct as" using assms(6) by (auto simp: nodes_def distinct_concat_iff)
  note c = count_arcs [OF f this]
  have here: "a \<in> set (nodes (shs ! b))" using c(3) assms(6) shape_nodes by blast
  have only: "bs = as \<and> f = e" if "(f, bs) \<in> set (shs ! b)" "f = e \<or> a \<in> set bs" for f bs
    using nodes_unique [OF nd that(1) assms(6)] that(2) c(3) by blast
  have other: "a \<notin> set (nodes (shs ! c))" if "c < HASH_BUCKETS" "c \<noteq> b" for c
    using g b here that by (auto simp: gmon_inv_def graph_inv_def)
  have same: "call_graph (count_found a s) (shs ! c) = call_graph s (shs ! c)" if "c < HASH_BUCKETS" "c \<noteq> b" for c
    unfolding call_graph_def using other [OF that] by (auto dest!: shape_nodes intro!: count_found_arcs)
  have d: "distinct (map fst (call_graph s (shs ! b)))" "distinct (map fst (call_graph (count_found a s) (shs ! b)))"
    using g count_found_inv [OF g] b by (simp_all add: gmon_inv_def)
  have look: "map_of (call_graph s (shs ! b)) self = Some (arcs_of s as)"
    "map_of (call_graph (count_found a s) (shs ! b)) self = Some (arcs_of (count_found a s) as)"
    using map_of_call_graph [OF d(1) assms(6)] map_of_call_graph [OF d(2) assms(6)] sp by simp_all
  show "tally s shs (self, caller) \<noteq> None" using look c(1) assms(4) by (simp add: tally_def tally_of_def)
  have pc_only: "self_pc (entry_at s f) = self \<longleftrightarrow> f = e" if "(f, bs) \<in> set (shs ! b)" for f bs
  proof -
    have "inj_on (\<lambda>(e, as). self_pc (entry_at s e)) (set (shs ! b))"
      using d(1) by (simp add: call_graph_def distinct_map comp_def case_prod_beta')
    then show ?thesis using that assms(6) sp by (fastforce simp: inj_on_def)
  qed
  have rest: "map_of (call_graph (count_found a s) (shs ! b)) f = map_of (call_graph s (shs ! b)) f" if "f \<noteq> self" for f
    unfolding call_graph_def count_found_simps
  proof (rule map_of_other_key)
    fix x bs assume x: "(x, bs) \<in> set (shs ! b)" "self_pc (entry_at s x) = f"
    then have "x \<noteq> e" using sp that by auto
    then have "a \<notin> set bs" using only [OF x(1)] by blast
    then show "arcs_of (count_found a s) bs = arcs_of s bs" by (rule count_found_arcs)
  qed
  have full: "[] \<in> snd ` set (call_graph (count_found a s) sh) \<longleftrightarrow> [] \<in> snd ` set (call_graph s sh)" for sh
    by (force simp: call_graph_def arcs_of_def)
  show "mcount_inv lim (count_found a s) shs"
    using assms(1) count_found_inv full by (simp add: mcount_inv_def)
  have "tally (count_found a s) shs (f, c) = count_call (self, caller) (tally s shs) (f, c)" for f c
  proof (cases "mcount_bucket f = b")
    case False
    then show ?thesis
      using same [OF mcount_bucket_less] assms(4) by (auto simp: tally_def count_call_def)
  next
    case True
    then show ?thesis
      using look rest [of f] c assms(4) by (cases "f = self") (auto simp: tally_def tally_of_def count_call_def)
  qed
  then show "tally (count_found a s) shs = count_call (self, caller) (tally s shs)" by auto
qed

section \<open>Adding an arc\<close>

text \<open>What the heap may still have to give: the histogram, once, beside the nodes.\<close>

definition heap_reach :: "u32 \<Rightarrow> gmon \<Rightarrow> nat" where
  "heap_reach hist s = unat (heap_end s) + (if pcsample_need_init s then 3 + unat hist else 0)"

lemma record_growth:
  fixes low high rate :: u32
  assumes "gmon_inv lim s shs" "unat (heap_end s) + unat (high - low) + 2100 \<le> unat lim"
  shows "heap_reach (high - low) (mcount_record lim low high rate self caller fn b s) \<le> heap_reach (high - low) s + 2046"
proof -
  define s1 where "s1 = start_sampling lim low high rate s"
  note sm = sampling_keeps [OF assms(1), of low high rate, folded s1_def]
  have h1: "heap_reach (high - low) s1 \<le> heap_reach (high - low) s"
  proof (cases "pcsample_need_init s \<and> rate \<noteq> 0")
    case True
    then have "\<not> pcsample_need_init s1"
      by (simp add: s1_def start_sampling_def nios2_pcsample_init_def gmon_sbrk_def Let_def split: prod.splits)
    then show ?thesis using True sm(3) by (simp add: heap_reach_def)
  next
    case False
    then have "heap_end s1 = heap_end s \<and> pcsample_need_init s1 = pcsample_need_init s"
      by (auto simp: s1_def start_sampling_def nios2_pcsample_init_def)
    then show ?thesis by (simp add: heap_reach_def)
  qed
  have step: "heap_reach z t \<le> heap_reach z u + 1023 \<and> alloc_inv lim t \<and> unat (heap_end t) \<le> unat (heap_end u) + 1023"
    if "alloc_inv lim u" "unat (heap_end u) + 1023 \<le> unat lim" "mcount_allocate lim node_size u = (a, t)" for u t a z
  proof -
    have "pcsample_need_init t = pcsample_need_init u"
      using that(3) by (auto simp: mcount_allocate_def gmon_sbrk_def Let_def split: if_splits prod.splits)
    then show ?thesis using allocate_node(1,3) [OF that] by (simp add: heap_reach_def)
  qed
  have a1: "alloc_inv lim s1" using sm(1) by (simp add: gmon_inv_def)
  have room: "unat (heap_end s1) + 2046 \<le> unat lim" using sm(3) assms(2) by linarith
  show ?thesis
  proof (cases "fn = 0")
    case True
    obtain e s2 where e: "mcount_allocate lim node_size s1 = (e, s2)" by fastforce
    define s3 where "s3 = add_entry self b e s2"
    obtain a s4 where a: "mcount_allocate lim node_size s3 = (a, s4)" by fastforce
    note 1 = step [OF a1 _ e, of "high - low"]
    have s3: "alloc_inv lim s3" "heap_end s3 = heap_end s2" "heap_reach z s3 = heap_reach z s2" for z
      using 1 room by (simp_all add: s3_def add_entry_def alloc_inv_def heap_reach_def)
    note 2 = step [OF s3(1) _ a, of "high - low"]
    have "mcount_record lim low high rate self caller fn b s = add_arc caller e a s4"
      using True by (simp add: mcount_record_parts Let_def s1_def [symmetric] e s3_def [symmetric] a)
    then show ?thesis using 1 2 s3 h1 room by (simp add: heap_reach_def add_arc_def)
  next
    case False
    obtain a s4 where a: "mcount_allocate lim node_size s1 = (a, s4)" by fastforce
    note 1 = step [OF a1 _ a, of "high - low"]
    have "mcount_record lim low high rate self caller fn b s = add_arc caller fn a s4"
      using False by (simp add: mcount_record_parts Let_def s1_def [symmetric] a)
    then show ?thesis using 1 h1 room by (simp add: heap_reach_def add_arc_def)
  qed
qed

lemma recorded_counted:
  fixes low high rate caller self :: u32
  assumes "mcount_inv lim s shs" "b = mcount_bucket self" "unat (heap_end s) + unat (high - low) + 2100 \<le> unat lim"
    and "tally s shs (self, caller) = None"
  defines "s' \<equiv> mcount_record lim low high rate self caller (lookup_fn s self (shs ! b)) b s"
  obtains shs' where "mcount_inv lim s' shs'" "tally s' shs' = count_call (self, caller) (tally s shs)"
proof -
  have g: "gmon_inv lim s shs" and b: "b < HASH_BUCKETS" using assms(1,2) mcount_bucket_less by (simp_all add: mcount_inv_def)
  obtain shs' where r: "gmon_inv lim s' shs'"
    "\<forall>c < HASH_BUCKETS. call_graph s' (shs' ! c) = (if c = b then record_arc self caller (call_graph s (shs ! c)) else call_graph s (shs ! c))"
    using call_recorded [OF g b assms(3)] unfolding s'_def by blast
  have d: "distinct (map fst (call_graph s (shs ! b)))" using g b by (simp add: gmon_inv_def)
  have "mcount_inv lim s' shs'"
    using r assms(1) record_arc_full by (simp add: mcount_inv_def)
  moreover have "tally s' shs' (f, c) = count_call (self, caller) (tally s shs) (f, c)" for f c
    using r(2) mcount_bucket_less [of f] record_arc_tally [OF d] assms(2,4)
    by (cases "f = self \<and> c = caller") (auto simp: tally_def count_call_def)
  then have "tally s' shs' = count_call (self, caller) (tally s shs)" by auto
  ultimately show ?thesis by (rule that)
qed

lemma mcount_step:
  fixes low high rate caller self :: u32
  assumes "mcount_inv lim s shs" "tally s shs (self, caller) = None \<longrightarrow> unat (heap_end s) + unat (high - low) + 2100 \<le> unat lim"
  obtains s' shs' where "mcount lim low high rate self caller s = Some s'" "mcount_inv lim s' shs'"
    "tally s' shs' = count_call (self, caller) (tally s shs)"
    "heap_reach (high - low) s' \<le> heap_reach (high - low) s + (if tally s shs (self, caller) = None then 2046 else 0)"
proof -
  define b where "b = mcount_bucket self"
  have g: "gmon_inv lim s shs" and b: "b < HASH_BUCKETS" using assms(1) mcount_bucket_less by (simp_all add: mcount_inv_def b_def)
  have bk: "bucket_at s b (shs ! b)" using g b by (simp add: gmon_inv_def graph_inv_def)
  define e where "e = lookup_fn s self (shs ! b)"
  have fe: "find_entry s self (mcount_fn_head s ! b) = Some e"
    using bk find_entry_chain by (simp add: bucket_at_def e_def lookup_fn_def first_match_def)
  have nz: "x \<noteq> 0" if "x \<in> set (nodes (shs ! b))" for x using g b that by (auto simp: gmon_inv_def used_def)
  note known = that
  have new: thesis
    if m: "mcount lim low high rate self caller s = Some (mcount_record lim low high rate self caller e b s)"
      and n: "tally s shs (self, caller) = None"
  proof -
    have room: "unat (heap_end s) + unat (high - low) + 2100 \<le> unat lim" using assms(2) n by blast
    obtain shs' where "mcount_inv lim (mcount_record lim low high rate self caller e b s) shs'"
      "tally (mcount_record lim low high rate self caller e b s) shs' = count_call (self, caller) (tally s shs)"
      unfolding e_def by (rule recorded_counted [OF assms(1) b_def room n])
    then show thesis by (rule known [OF m]) (use record_growth [OF g room] n in simp)
  qed
  show thesis
  proof (cases "e = 0")
    case True
    have "0 \<notin> set (map fst (shs ! b))" using nz shape_nodes by force
    then have "self \<notin> set (map fst (call_graph s (shs ! b)))" using True by (intro lookup_none) (simp_all add: e_def [symmetric])
    then have "tally s shs (self, caller) = None" by (simp add: tally_def tally_of_def b_def [symmetric] map_of_eq_None_iff [THEN iffD2])
    then show thesis using new fe True by (simp add: mcount_def b_def [symmetric])
  next
    case False
    then obtain as where as: "(e, as) \<in> set (shs ! b)" "self_pc (entry_at s e) = self"
      using lookup_found [of s self "shs ! b" e] e_def by auto
    have d: "distinct (map fst (call_graph s (shs ! b)))" using g b by (simp add: gmon_inv_def)
    have "arcs_of s as \<in> snd ` set (call_graph s (shs ! b))" using as(1) by (force simp: call_graph_def)
    then have "as \<noteq> []" using assms(1) b by (force simp: mcount_inv_def)
    moreover have "chain (\<lambda>a. arc_next (arc_at s a)) (arc_head (entry_at s e)) as" using bk as(1) by (auto simp: bucket_at_def)
    ultimately have fa: "find_arc s caller (arc_head (entry_at s e)) = Some (first_match (\<lambda>a. from_pc (arc_at s a) = caller) as)"
      by (rule find_arc_chain [rotated])
    define a where "a = first_match (\<lambda>a. from_pc (arc_at s a) = caller) as"
    show thesis
    proof (cases "a = 0")
      case True
      have "find (\<lambda>a. from_pc (arc_at s a) = caller) as = None"
      proof (rule ccontr)
        assume "find (\<lambda>a. from_pc (arc_at s a) = caller) as \<noteq> None"
        then obtain x where x: "find (\<lambda>a. from_pc (arc_at s a) = caller) as = Some x" by blast
        then have "x = a" by (simp add: a_def first_match_def)
        moreover have "x \<in> set as" using x by (auto simp: find_Some_iff)
        ultimately show False using True nz shape_nodes [OF as(1)] by blast
      qed
      then have "map_of (arcs_of s as) caller = None"
        by (auto simp: find_None_iff arcs_of_def map_of_eq_None_iff)
      then have "tally s shs (self, caller) = None"
        using map_of_call_graph [OF d as(1)] as(2) by (simp add: tally_def tally_of_def b_def [symmetric])
      then show thesis using new fe fa True False by (simp add: mcount_def b_def [symmetric] a_def)
    next
      case nz: False
      have fm: "first_match (\<lambda>e. self_pc (entry_at s e) = self) (map fst (shs ! b)) = e"
        by (simp add: e_def lookup_fn_def first_match_def)
      note fc = found_counted [OF assms(1) False nz b_def fm as(1) a_def [symmetric]]
      have "mcount lim low high rate self caller s = Some (count_found a s)"
        using fe fa nz False by (simp add: mcount_def b_def [symmetric] a_def)
      then show thesis using known fc by (simp add: heap_reach_def)
    qed
  qed
qed

section \<open>Runs of the program\<close>

text \<open>What a sequence of calls should leave: how often each function and caller occur in it.\<close>

definition call_counts :: "(u32 \<times> u32) list \<Rightarrow> u32 \<times> u32 \<Rightarrow> u32 option" where
  "call_counts calls c = (if c \<in> set calls then Some (of_nat (count_list calls c)) else None)"

lemma call_counts_simps: "call_counts [] = Map.empty" "call_counts (cs @ [c]) = count_call c (call_counts cs)"
  by (auto simp: call_counts_def count_call_def fun_eq_iff add.commute)

lemma init_counted:
  assumes "heap_inv lim h" "0 < unat h"
  shows "mcount_inv lim (gmon_init h) (replicate HASH_BUCKETS [])" "tally (gmon_init h) (replicate HASH_BUCKETS []) = Map.empty"
    "heap_reach hist (gmon_init h) = unat h + 3 + unat hist"
  using gmon_init_inv [OF assms]
  by (auto simp: mcount_inv_def tally_def tally_of_def call_graph_def mcount_bucket_less heap_reach_def gmon_init_def)

lemma mcount_run_counts:
  fixes low high rate :: u32
  assumes "mcount_inv lim s shs" "tally s shs = call_counts ds"
    and "heap_reach (high - low) s \<le> n + 2046 * card (set ds)"
    and "n + 2046 * card (set (ds @ cs)) + unat (high - low) + 2100 \<le> unat lim"
  shows "\<exists>s' shs'. mcount_run lim low high rate cs s = Some s' \<and> mcount_inv lim s' shs' \<and>
    tally s' shs' = call_counts (ds @ cs)"
  using assms
proof (induction cs arbitrary: s shs ds)
  case (Cons c cs)
  obtain self caller where c: "c = (self, caller)" by fastforce
  have "card (set ds) \<le> card (set (ds @ c # cs))" by (rule card_mono) auto
  then have "unat (heap_end s) + unat (high - low) + 2100 \<le> unat lim"
    using Cons.prems(3,4) by (auto simp: heap_reach_def)
  then obtain s' shs' where s': "mcount lim low high rate self caller s = Some s'" "mcount_inv lim s' shs'"
    "tally s' shs' = count_call (self, caller) (tally s shs)"
    "heap_reach (high - low) s' \<le> heap_reach (high - low) s + (if tally s shs (self, caller) = None then 2046 else 0)"
    using mcount_step [OF Cons.prems(1)] by blast
  have known: "tally s shs (self, caller) = None \<longleftrightarrow> c \<notin> set ds" by (simp add: Cons.prems(2) c call_counts_def)
  have "heap_reach (high - low) s' \<le> n + 2046 * card (set (ds @ [c]))"
    using s'(4) Cons.prems(3) unfolding known by (auto simp: insert_absorb split: if_splits)
  moreover have "tally s' shs' = call_counts (ds @ [c])"
    by (simp add: s'(3) Cons.prems(2) c call_counts_simps)
  ultimately show ?case
    using Cons.IH [OF s'(2), of "ds @ [c]"] Cons.prems(4) s'(1) by (simp add: c)
qed auto

text \<open>C34. The profile is true. From the start of the program, over every sequence of calls, however many,
  each a function and its caller as the entry hook sees them: when the heap has room for the
  histogram and for two nodes and their slabs for every different pair, the hook always returns, the
  nodes stay well-formed, and for every pair they hold exactly how often it was called (modulo the
  width of the counter), and nothing for a pair that was never called.\<close>
theorem profile_counts:
  fixes low high rate :: u32
  assumes "heap_inv lim h" "0 < unat h"
    and "unat h + 2 * unat (high - low) + 2046 * card (set calls) + 2103 \<le> unat lim"
  shows "\<exists>s shs. mcount_run lim low high rate calls (gmon_init h) = Some s \<and> mcount_inv lim s shs \<and>
    tally s shs = call_counts calls"
proof -
  note i = init_counted [OF assms(1,2)]
  show ?thesis
    using mcount_run_counts [OF i(1), of "[]" high low "unat h + 3 + unat (high - low)" calls rate] assms(3) i(2,3)
    by (simp add: call_counts_simps)
qed

theorem profile_counts_witness:
  "\<exists>s shs. mcount_run 0x20000 0x100 0x4100 1000 [(0x200, 0x300), (0x220, 0x200), (0x200, 0x300)] (gmon_init 0x8000) = Some s \<and>
     tally s shs (0x200, 0x300) = Some 2 \<and> tally s shs (0x220, 0x200) = Some 1 \<and> tally s shs (0x220, 0x300) = None"
proof -
  define calls :: "(u32 \<times> u32) list" where "calls = [(0x200, 0x300), (0x220, 0x200), (0x200, 0x300)]"
  have "\<exists>s shs. mcount_run 0x20000 0x100 0x4100 1000 calls (gmon_init 0x8000) = Some s \<and> mcount_inv 0x20000 s shs \<and>
      tally s shs = call_counts calls"
    by (rule profile_counts) (simp_all add: heap_inv_def calls_def card_insert_if)
  then obtain s shs where "mcount_run 0x20000 0x100 0x4100 1000 calls (gmon_init 0x8000) = Some s"
    "tally s shs = call_counts calls" by blast
  moreover have "call_counts calls (0x200, 0x300) = Some 2 \<and> call_counts calls (0x220, 0x200) = Some 1 \<and>
      call_counts calls (0x220, 0x300) = None"
    by (simp add: call_counts_def calls_def)
  ultimately show ?thesis unfolding calls_def by metis
qed

end
