(* ===== verification/Nios2.thy ===== *)
theory Nios2
  imports Prelude
begin

text \<open>
  The instructions of the Nios II processor that the assembly of the HAL is written in, with their
  meaning, and the running of code: a table of blocks, one per label or section, each a list of
  instructions. A jump leaves its block, and a block that ends falls through to the next one by
  an explicit jump. C functions that the assembly calls are a parameter, which gives the state in which
  they return, or \<open>None\<close>. Memory is accessed in words; an access that is not aligned gives \<open>None\<close>.
\<close>

section \<open>State\<close>

record nios =
  gpr :: "nat \<Rightarrow> u32"
  word_at :: "u32 \<Rightarrow> u32"
  ctl :: "nat \<Rightarrow> u32"
  pc :: u32

text \<open>The registers with names of their own, by their numbers.\<close>

abbreviation (input) "et \<equiv> 24 :: nat"
abbreviation (input) "bt \<equiv> 25 :: nat"
abbreviation (input) "gp \<equiv> 26 :: nat"
abbreviation (input) "sp \<equiv> 27 :: nat"
abbreviation (input) "fp \<equiv> 28 :: nat"
abbreviation (input) "ea \<equiv> 29 :: nat"
abbreviation (input) "ba \<equiv> 30 :: nat"
abbreviation (input) "ra \<equiv> 31 :: nat"

text \<open>Register 0 reads as zero.\<close>

definition rd :: "nios \<Rightarrow> nat \<Rightarrow> u32" where
  "rd s r = (if r = 0 then 0 else gpr s r)"

definition wr :: "nat \<Rightarrow> u32 \<Rightarrow> nios \<Rightarrow> nios" where
  "wr r v s = (if r = 0 then s else s\<lparr>gpr := (gpr s)(r := v)\<rparr>)"

definition aligned :: "u32 \<Rightarrow> bool" where
  "aligned a \<longleftrightarrow> a AND 3 = 0"

section \<open>Instructions\<close>

text \<open>Operands are in the order of the assembly: the destination first. Immediate operands are
  words already extended to 32 bits, the labels are of any type, and so are the names of C functions.\<close>

datatype ('l, 'f) instr =
    Add nat nat nat | Addi nat nat u32 | Sub nat nat nat | Mov nat nat | Movi nat u32
  | Andi nat nat u32 | Or nat nat nat | Ori nat nat u32 | Xor nat nat nat | Xori nat nat u32
  | Slli nat nat nat | Srli nat nat nat | Srai nat nat nat | Roli nat nat nat | Ror nat nat nat
  | Cmplt nat nat nat | Cmpltu nat nat nat
  | Ldw nat u32 nat | Stw nat u32 nat | Rdctl nat nat | Wrctl nat nat
  | Br 'l | Beq nat nat 'l | Bne nat nat 'l | Bge nat nat 'l | Bltu nat nat 'l
  | Call 'f | Ret | Eret | Break

text \<open>A block is left by a jump, or the code by a return, a return from an exception, or a break.\<close>

datatype 'l exit = Goto 'l | Returned | Exception_return | Broke

text \<open>Instructions that compute: the destination and its value.\<close>

fun alu :: "('l, 'f) instr \<Rightarrow> nios \<Rightarrow> (nat \<times> u32) option" where
  "alu (Add c a b) s = Some (c, rd s a + rd s b)"
| "alu (Addi b a i) s = Some (b, rd s a + i)"
| "alu (Sub c a b) s = Some (c, rd s a - rd s b)"
| "alu (Mov c a) s = Some (c, rd s a)"
| "alu (Movi b i) s = Some (b, i)"
| "alu (Andi b a i) s = Some (b, rd s a AND i)"
| "alu (Or c a b) s = Some (c, rd s a OR rd s b)"
| "alu (Ori b a i) s = Some (b, rd s a OR i)"
| "alu (Xor c a b) s = Some (c, rd s a XOR rd s b)"
| "alu (Xori b a i) s = Some (b, rd s a XOR i)"
| "alu (Slli c a n) s = Some (c, push_bit n (rd s a))"
| "alu (Srli c a n) s = Some (c, drop_bit n (rd s a))"
| "alu (Srai c a n) s = Some (c, signed_drop_bit n (rd s a))"
| "alu (Roli c a n) s = Some (c, word_rotl n (rd s a))"
| "alu (Ror c a b) s = Some (c, word_rotr (unat (rd s b AND 31)) (rd s a))"
| "alu (Cmplt c a b) s = Some (c, if rd s a <s rd s b then 1 else 0)"
| "alu (Cmpltu c a b) s = Some (c, if rd s a < rd s b then 1 else 0)"
| "alu (Rdctl c n) s = Some (c, ctl s n)"
| "alu _ s = None"

text \<open>The target of a branch that is taken.\<close>

fun branch :: "('l, 'f) instr \<Rightarrow> nios \<Rightarrow> 'l exit option" where
  "branch (Br l) s = Some (Goto l)"
| "branch (Beq a b l) s = (if rd s a = rd s b then Some (Goto l) else None)"
| "branch (Bne a b l) s = (if rd s a \<noteq> rd s b then Some (Goto l) else None)"
| "branch (Bge a b l) s = (if rd s b \<le>s rd s a then Some (Goto l) else None)"
| "branch (Bltu a b l) s = (if rd s a < rd s b then Some (Goto l) else None)"
| "branch Ret s = Some Returned"
| "branch Eret s = Some Exception_return"
| "branch Break s = Some Broke"
| "branch _ s = None"

text \<open>Instructions with an effect beside the registers.\<close>

fun effect :: "('f \<Rightarrow> nios \<Rightarrow> nios option) \<Rightarrow> ('l, 'f) instr \<Rightarrow> nios \<Rightarrow> nios option" where
  "effect fn (Ldw b i a) s = (if aligned (rd s a + i) then Some (wr b (word_at s (rd s a + i)) s) else None)"
| "effect fn (Stw b i a) s =
     (if aligned (rd s a + i) then Some (s\<lparr>word_at := (word_at s)(rd s a + i := rd s b)\<rparr>) else None)"
| "effect fn (Wrctl n a) s = Some (s\<lparr>ctl := (ctl s)(n := rd s a)\<rparr>)"
| "effect fn (Call f) s = fn f s"
| "effect fn i s = (case alu i s of Some (c, v) \<Rightarrow> Some (wr c v s) | None \<Rightarrow> Some s)"

section \<open>Running\<close>

fun block :: "('f \<Rightarrow> nios \<Rightarrow> nios option) \<Rightarrow> ('l, 'f) instr list \<Rightarrow> nios \<Rightarrow> ('l exit \<times> nios) option" where
  "block fn [] s = None"
| "block fn (i # is) s =
     (case branch i s of Some e \<Rightarrow> Some (e, s)
      | None \<Rightarrow> (case effect fn i s of Some s \<Rightarrow> block fn is s | None \<Rightarrow> None))"

partial_function (option) run ::
  "('l \<Rightarrow> ('l, 'f) instr list) \<Rightarrow> ('f \<Rightarrow> nios \<Rightarrow> nios option) \<Rightarrow> 'l \<Rightarrow> nios \<Rightarrow> ('l exit \<times> nios) option" where
  "run code fn l s =
     (case block fn (code l) s of
        Some (Goto l', s') \<Rightarrow> run code fn l' s'
      | r \<Rightarrow> r)"

text \<open>An exception: the processor saves the address after the instruction and the status register,
  whose interrupt enable (bit 0) and user mode (bit 1) it clears, and goes to the handler. The return
  undoes that.\<close>

definition STATUS :: nat where "STATUS = 0"
definition ESTATUS :: nat where "ESTATUS = 1"
definition IPENDING :: nat where "IPENDING = 4"

definition take_exception :: "nios \<Rightarrow> nios" where
  "take_exception s = s\<lparr>gpr := (gpr s)(ea := pc s + 4),
     ctl := (ctl s)(ESTATUS := ctl s STATUS, STATUS := ctl s STATUS AND NOT 3)\<rparr>"

definition return_exception :: "nios \<Rightarrow> nios" where
  "return_exception s = s\<lparr>pc := gpr s ea, ctl := (ctl s)(STATUS := ctl s ESTATUS)\<rparr>"

section \<open>Lemmas\<close>

named_theorems nios \<open>running concrete assembly\<close>

declare rd_def [nios] wr_def [nios] STATUS_def [nios] ESTATUS_def [nios] IPENDING_def [nios]

lemma rd_simps [simp]:
  "rd s 0 = 0" "rd (s\<lparr>word_at := m\<rparr>) r = rd s r" "rd (s\<lparr>ctl := c\<rparr>) r = rd s r"
  by (simp_all add: rd_def)

lemma run_goto: "block fn (code l) s = Some (Goto l', s') \<Longrightarrow> run code fn l s = run code fn l' s'"
  by (subst run.simps) simp

lemma run_exit:
  "block fn (code l) s = Some (e, s') \<Longrightarrow> e \<in> {Returned, Exception_return, Broke} \<Longrightarrow> run code fn l s = Some (e, s')"
  by (subst run.simps) auto

text \<open>Code that comes to a label in a state with a property, whatever it does from there.\<close>

definition reaches ::
  "('l \<Rightarrow> ('l, 'f) instr list) \<Rightarrow> ('f \<Rightarrow> nios \<Rightarrow> nios option) \<Rightarrow> 'l \<Rightarrow> nios \<Rightarrow> 'l \<Rightarrow> (nios \<Rightarrow> bool) \<Rightarrow> bool" where
  "reaches code fn l s l' P \<longleftrightarrow> (\<exists>s'. run code fn l s = run code fn l' s' \<and> P s')"

lemma reaches_here: "P s \<Longrightarrow> reaches code fn l s l P"
  by (auto simp: reaches_def)

lemma reaches_step:
  "(case block fn (code l) s of Some (Goto k, t) \<Rightarrow> reaches code fn k t l' P | _ \<Rightarrow> False) \<Longrightarrow> reaches code fn l s l' P"
  using run_goto [of fn code l s] by (fastforce simp: reaches_def split: option.splits prod.splits exit.splits)

lemma reaches_trans:
  "reaches code fn l s l' P \<Longrightarrow> (\<And>s'. P s' \<Longrightarrow> reaches code fn l' s' l'' Q) \<Longrightarrow> reaches code fn l s l'' Q"
  by (force simp: reaches_def)

lemma reaches_mono: "reaches code fn l s l' P \<Longrightarrow> (\<And>s'. P s' \<Longrightarrow> Q s') \<Longrightarrow> reaches code fn l s l' Q"
  by (auto simp: reaches_def)

text \<open>Word addresses.\<close>

lemma aligned_uint: "aligned a \<longleftrightarrow> take_bit 2 (uint a) = 0"
proof -
  have "(3 :: u32) = Bit_Operations.mask 2" by (simp add: mask_eq_exp_minus_1)
  then have "a AND 3 = take_bit 2 a" by (simp add: take_bit_eq_mask)
  moreover have "uint (take_bit 2 a) = take_bit 2 (uint a)" by (simp add: unsigned_take_bit_eq)
  ultimately show ?thesis unfolding aligned_def by (metis uint_0_iff)
qed

lemma aligned_add: "aligned a \<Longrightarrow> aligned (a + b) = aligned b"
proof -
  assume a: "aligned a"
  have "take_bit 2 (uint (a + b)) = take_bit 2 (uint a + uint b)"
    by (simp add: uint_word_ariths take_bit_eq_mod mod_mod_cancel)
  also have "\<dots> = take_bit 2 (take_bit 2 (uint a) + take_bit 2 (uint b))" by (simp add: take_bit_add)
  finally show ?thesis using a by (simp add: aligned_uint)
qed

lemma aligned_numeral [simp]:
  "aligned 0" "aligned (numeral n) = (numeral n AND 3 = (0 :: u32))"
  by (simp_all add: aligned_def)

lemma aligned_minus [simp]: "aligned (- a) = aligned a"
  using aligned_add [of a "- a"] aligned_add [of "- a" a] by auto

lemma aligned_offset [simp]:
  "aligned a \<Longrightarrow> aligned (a + numeral n) = aligned (numeral n)"
  "aligned a \<Longrightarrow> aligned (numeral n + a) = aligned (numeral n)"
  "aligned a \<Longrightarrow> aligned (a - numeral n) = aligned (numeral n)"
  using aligned_add [of a "- numeral n"] by (simp_all add: aligned_add add.commute [of "numeral n" a])

end
