(* ===== verification/Exception_Code.thy ===== *)
theory Exception_Code
  imports Nios2
begin

text \<open>
  The exception code of the HAL, instruction by instruction: the entry and exit of
  alt_exception_entry.S, the test for interrupts of alt_irq_entry.S, and the emulation of multiply
  and divide instructions of alt_exception_muldiv.S, which is linked in for a processor without
  them. The sections follow each other as in linker.x: entry, irqtest, irqhandler, irqreturn, notirq,
  soft, unknown, exit. The configuration is that of system.h: no separate exception stack, no stack
  check, 32-bit instructions, and the handler for instruction-related exceptions.
\<close>

section \<open>Labels\<close>

text \<open>The sections, and the labels in them; the numeric labels of the division's signs are
  \<open>div_sign_a\<close> and \<open>div_sign_b\<close>, the ends of the loops \<open>div_done\<close> and \<open>mul_done\<close>, and
  the point where the emulation has saved everything \<open>operands\<close>.\<close>

datatype exc_label =
    alt_exception | irqtest | irqhandler | Lnot_irq | soft | operands | unknown | Lexception_exit
  | Ldivide | div_sign_a | div_sign_b | Lunsigned_division | Ldivide_loop | Ldiv_skip | div_done
  | Lmul_immed | Lmultiply | Lmultiply_loop | Lmulx_skip | Lmul_skip | mul_done | Lmulxsu_skip | Lmulxss_skip
  | Lstore_result | Lnot_muldiv

datatype exc_fn = alt_irq_handler_fn | alt_instruction_exception_entry_fn

type_synonym exc_instr = "(exc_label, exc_fn) instr"

section \<open>Entry and exit (alt_exception_entry.S, alt_irq_entry.S)\<close>

definition entry_code :: "exc_instr list" where
  "entry_code =
     [Addi sp sp (- 76),
      Stw ra 0 sp, Stw 1 8 sp, Stw 2 12 sp, Stw 3 16 sp, Stw 4 20 sp, Stw 5 24 sp, Stw 6 28 sp, Stw 7 32 sp,
      Rdctl 5 ESTATUS,
      Stw 8 36 sp, Stw 9 40 sp, Stw 10 44 sp, Stw 11 48 sp, Stw 12 52 sp, Stw 13 56 sp, Stw 14 60 sp, Stw 15 64 sp,
      Stw 5 68 sp, Addi 15 ea (- 4), Stw 15 72 sp,
      Br irqtest]"

definition irqtest_code :: "exc_instr list" where
  "irqtest_code =
     [Rdctl 4 IPENDING, Andi 2 5 1, Beq 2 0 Lnot_irq, Beq 4 0 Lnot_irq, Br irqhandler]"

definition irqhandler_code :: "exc_instr list" where
  "irqhandler_code = [Call alt_irq_handler_fn, Br Lexception_exit]"

definition notirq_code :: "exc_instr list" where
  "notirq_code = [Stw ea 72 sp, Ldw 2 (- 4) ea, Br soft]"

definition unknown_code :: "exc_instr list" where
  "unknown_code =
     [Addi 4 ea (- 4), Call alt_instruction_exception_entry_fn, Bne 2 0 Lexception_exit,
      Addi 15 ea (- 4), Stw 15 72 sp, Br Lexception_exit]"

definition exit_code :: "exc_instr list" where
  "exit_code =
     [Ldw 5 68 sp, Ldw ea 72 sp, Ldw ra 0 sp, Wrctl ESTATUS 5,
      Ldw 1 8 sp, Ldw 2 12 sp, Ldw 3 16 sp, Ldw 4 20 sp, Ldw 5 24 sp, Ldw 6 28 sp, Ldw 7 32 sp,
      Ldw 8 36 sp, Ldw 9 40 sp, Ldw 10 44 sp, Ldw 11 48 sp, Ldw 12 52 sp, Ldw 13 56 sp, Ldw 14 60 sp, Ldw 15 64 sp,
      Addi sp sp 76, Eret]"

section \<open>Multiply and divide (alt_exception_muldiv.S)\<close>

text \<open>The fields of the instruction in register 2, the registers that the entry did not save, the operands,
  and the choice of the operation. \<open>subi\<close> is \<open>addi\<close> of the negated number.\<close>

definition muldiv_fields_code :: "exc_instr list" where
  "muldiv_fields_code =
     [Roli 3 2 7, Roli 4 3 3, Roli 6 4 2, Srai 4 4 16, Xori 6 6 0x42, Roli 7 6 5, Andi 5 2 0x3f,
      Xori 3 3 0x40, Andi 3 3 0x7c, Andi 6 6 0x7c, Andi 7 7 0x7c]"

definition muldiv_save_code :: "exc_instr list" where
  "muldiv_save_code =
     [Addi sp sp (- 60), Stw 0 64 sp,
      Stw 16 0 sp, Stw 17 4 sp, Stw 18 8 sp, Stw 19 12 sp, Stw 20 16 sp, Stw 21 20 sp, Stw 22 24 sp, Stw 23 28 sp,
      Stw gp 40 sp, Stw sp 44 sp, Stw fp 48 sp]"

definition muldiv_choose_code :: "exc_instr list" where
  "muldiv_choose_code =
     [Movi 14 32, Add 3 3 sp, Ldw 3 0 3, Movi 15 0x24, Beq 5 15 Lmul_immed,
      Add 6 6 sp, Ldw 6 0 6, Srli 4 4 5, Andi 4 4 0x3f,
      Movi 8 0x3a, Bne 5 8 Lnot_muldiv,
      Beq 4 15 Ldivide,
      Movi 15 0x27, Beq 4 15 Lmultiply,
      Movi 15 0x07, Beq 4 15 Lmultiply,
      Movi 15 0x17, Beq 4 15 Lmultiply,
      Movi 15 0x1f, Beq 4 15 Lmultiply,
      Movi 15 0x25, Bne 4 15 Lnot_muldiv,
      Br Ldivide]"

definition soft_code :: "exc_instr list" where
  "soft_code = muldiv_fields_code @ muldiv_save_code @ [Br operands]"

fun divide_code :: "exc_label \<Rightarrow> exc_instr list" where
  "divide_code Ldivide =
     [Movi 17 0, Xori 15 4 0x25, Bne 15 0 Lunsigned_division,
      Xor 17 3 6, Bge 3 0 div_sign_a, Sub 3 0 3, Br div_sign_a]"
| "divide_code div_sign_a = [Bge 6 0 div_sign_b, Sub 6 0 6, Br div_sign_b]"
| "divide_code div_sign_b = [Br Lunsigned_division]"
| "divide_code Lunsigned_division = [Movi 13 0, Br Ldivide_loop]"
| "divide_code Ldivide_loop =
     [Slli 13 13 1, Cmplt 15 3 0, Or 13 13 15, Slli 3 3 1,
      Bltu 13 6 Ldiv_skip, Ori 3 3 1, Sub 13 13 6, Br Ldiv_skip]"
| "divide_code Ldiv_skip =
     [Addi 14 14 (- 1), Bne 14 0 Ldivide_loop, Br div_done]"
| "divide_code div_done =
     [Mov 9 3, Bge 17 0 Lstore_result, Sub 9 0 9, Br Lstore_result]"
| "divide_code _ = []"

fun multiply_code :: "exc_label \<Rightarrow> exc_instr list" where
  "multiply_code Lmul_immed = [Mov 7 6, Mov 6 4, Movi 4 0x27, Br Lmultiply]"
| "multiply_code Lmultiply =
     [Movi 9 0, Movi 10 0, Mov 11 6, Mov 12 6, Movi 16 1, Br Lmultiply_loop]"
| "multiply_code Lmultiply_loop =
     [Slli 9 9 1, Andi 15 12 1,
      Beq 15 0 Lmulx_skip, Add 10 10 3, Cmpltu 15 10 3, Ror 15 15 16, Br Lmulx_skip]"
| "multiply_code Lmulx_skip = [Bge 6 0 Lmul_skip, Add 9 9 3, Br Lmul_skip]"
| "multiply_code Lmul_skip =
     [Srli 10 10 1, Or 10 10 15, Slli 6 6 1, Srli 12 12 1,
      Addi 14 14 (- 1), Bne 14 0 Lmultiply_loop, Br mul_done]"
| "multiply_code mul_done =
     [Xori 15 4 0x27, Beq 15 0 Lstore_result,
      Mov 9 10, Xori 15 4 0x07, Beq 15 0 Lstore_result,
      Bge 3 0 Lmulxsu_skip, Sub 9 9 11, Br Lmulxsu_skip]"
| "multiply_code Lmulxsu_skip =
     [Xori 15 4 0x17, Beq 15 0 Lstore_result,
      Bge 11 0 Lmulxss_skip, Sub 9 9 3, Br Lmulxss_skip]"
| "multiply_code Lmulxss_skip = [Br Lstore_result]"
| "multiply_code _ = []"

definition store_result_code :: "exc_instr list" where
  "store_result_code =
     [Add 7 7 sp, Stw 9 0 7,
      Ldw 16 0 sp, Ldw 17 4 sp, Ldw 18 8 sp, Ldw 19 12 sp, Ldw 20 16 sp, Ldw 21 20 sp, Ldw 22 24 sp, Ldw 23 28 sp,
      Ldw fp 48 sp, Addi sp sp 60, Br Lexception_exit]"

definition not_muldiv_code :: "exc_instr list" where
  "not_muldiv_code = [Addi sp sp 60, Br unknown]"

section \<open>The exception code\<close>

text \<open>\<open>emulate\<close>: whether the emulation is linked in; this system's build leaves it out
  (ALT_NO_INSTRUCTION_EMULATION in public.mk).\<close>

fun exc_code :: "bool \<Rightarrow> exc_label \<Rightarrow> exc_instr list" where
  "exc_code emulate alt_exception = entry_code"
| "exc_code emulate irqtest = irqtest_code"
| "exc_code emulate irqhandler = irqhandler_code"
| "exc_code emulate Lnot_irq = notirq_code"
| "exc_code emulate soft = (if emulate then soft_code else [Br unknown])"
| "exc_code emulate operands = muldiv_choose_code"
| "exc_code emulate unknown = unknown_code"
| "exc_code emulate Lexception_exit = exit_code"
| "exc_code emulate Lstore_result = store_result_code"
| "exc_code emulate Lnot_muldiv = not_muldiv_code"
| "exc_code emulate l = divide_code l @ multiply_code l"

text \<open>An exception from the interrupted program's state to the one it continues in; \<open>None\<close> when
  the handler does not return to it.\<close>

definition handle_exception :: "bool \<Rightarrow> (exc_fn \<Rightarrow> nios \<Rightarrow> nios option) \<Rightarrow> nios \<Rightarrow> nios option" where
  "handle_exception emulate fn s =
     (case run (exc_code emulate) fn alt_exception (take_exception s) of
        Some (Exception_return, s') \<Rightarrow> Some (return_exception s')
      | _ \<Rightarrow> None)"

end
