(* ===== verification/Muldiv.thy ===== *)
theory Muldiv
  imports Exception_Code
begin

text \<open>
  The loops of the multiply and divide emulation: shift-and-add for both halves of a product,
  shift-and-subtract for a quotient, each with its invariant over the rounds done, and the results the
  code selects. The states before and after are compared outside the registers the code uses.
\<close>

section \<open>States that agree\<close>

definition same_but :: "nat set \<Rightarrow> nios \<Rightarrow> nios \<Rightarrow> bool" where
  "same_but R s s' \<longleftrightarrow> word_at s' = word_at s \<and> ctl s' = ctl s \<and> pc s' = pc s \<and> (\<forall>r. r \<notin> R \<longrightarrow> gpr s' r = gpr s r)"

lemma same_but_refl [simp]: "same_but R s s"
  by (simp add: same_but_def)

lemma same_but_trans: "same_but R s t \<Longrightarrow> same_but R t u \<Longrightarrow> same_but R s u"
  by (simp add: same_but_def)

lemma same_but_mono: "same_but R s t \<Longrightarrow> R \<subseteq> R' \<Longrightarrow> same_but R' s t"
  by (auto simp: same_but_def)

section \<open>Products\<close>

lemma unat_half: "unat (drop_bit 1 w) = unat w div 2" for w :: u32
  by (simp add: drop_bit_Suc unat_div_distrib)

text \<open>Half of a sum, with the carry put back as the top bit.\<close>

lemma half_carry:
  fixes x a :: u32
  shows "unat (drop_bit 1 (x + a) OR word_rotr 1 (if x + a < a then 1 else 0)) = (unat x + unat a) div 2"
proof -
  have rot: "word_rotr 1 (1 :: u32) = 0x80000000" by code_simp
  show ?thesis
  proof (cases "unat x + unat a < 2 ^ 32")
    case True
    then have s: "unat (x + a) = unat x + unat a" by (rule unat_add_small)
    then have "\<not> x + a < a" by (simp add: word_less_nat_alt)
    then show ?thesis using unat_half [of "x + a"] s by simp
  next
    case False
    have l: "unat x < 2 ^ 32" "unat a < 2 ^ 32" using unsigned_less [of x] unsigned_less [of a] by simp_all
    have s: "unat (x + a) = unat x + unat a - 2 ^ 32"
      using False l by (simp add: unat_word_ariths mod_if)
    then have c: "x + a < a" using l(1) False by (simp add: word_less_nat_alt)
    have d: "unat (drop_bit 1 (x + a)) = (unat x + unat a) div 2 - 2 ^ 31"
      using unat_half [of "x + a"] s by simp
    have b: "unat (drop_bit 1 (x + a)) < 2 ^ 31" 
      unfolding unat_half by (rule less_mult_imp_div_less, rule less_le_trans [OF unsigned_less]) simp
    have "drop_bit 1 (x + a) AND push_bit 31 1 = 0"
      by (rule bit_word_eqI) (auto simp: bit_simps simp del: push_bit_of_1 dest: bit_imp_le_length)
    then have "drop_bit 1 (x + a) AND 0x80000000 = 0" by simp
    then have "unat (drop_bit 1 (x + a) OR 0x80000000) = unat (drop_bit 1 (x + a)) + 2 ^ 31"
      using b by (simp add: disjunctive_add_eq_or [symmetric] unat_add_small)
    then show ?thesis using c rot d False l by simp
  qed
qed

text \<open>One round on the upper half.\<close>

lemma upper_half_round:
  fixes A B k :: nat
  shows "(A * (B mod 2 ^ k) div 2 ^ k + (if odd (B div 2 ^ k) then A else 0)) div 2 = A * (B mod 2 ^ Suc k) div 2 ^ Suc k"
proof -
  have "B mod 2 ^ Suc k = B mod 2 ^ k + (B div 2 ^ k mod 2) * 2 ^ k"
    by (simp only: power_Suc2 mod_mult2_eq) simp
  then have "A * (B mod 2 ^ Suc k) = A * (B mod 2 ^ k) + (if odd (B div 2 ^ k) then A else 0) * 2 ^ k"
    by (simp add: algebra_simps odd_iff_mod_2_eq_one)
  then have "A * (B mod 2 ^ Suc k) div 2 ^ k = A * (B mod 2 ^ k) div 2 ^ k + (if odd (B div 2 ^ k) then A else 0)"
    by simp
  then show ?thesis by (simp only: power_Suc2 div_mult2_eq)
qed

text \<open>One round on the lower half.\<close>

lemma lower_half_round:
  fixes a b :: u32
  assumes "k < 32"
  shows "push_bit 1 (a * drop_bit (32 - k) b) + (if bit b (31 - k) then a else 0) = a * drop_bit (31 - k) b"
proof -
  define x where "x = drop_bit (31 - k) b"
  have "32 - k = Suc (31 - k)" using assms by simp
  then have d: "drop_bit (32 - k) b = x div 2" unfolding x_def by (simp only: drop_bit_Suc) (simp add: drop_bit_half)
  have "x = x div 2 * 2 + of_bool (odd x)" by (simp add: div_mult_mod_eq flip: mod_2_eq_odd)
  moreover have "odd x \<longleftrightarrow> bit b (31 - k)" by (simp add: x_def bit_iff_odd_drop_bit)
  ultimately have "x = push_bit 1 (drop_bit (32 - k) b) + of_bool (bit b (31 - k))" by (simp add: d)
  then have "a * x = push_bit 1 (a * drop_bit (32 - k) b) + a * of_bool (bit b (31 - k))"
    by (simp add: algebra_simps)
  then show ?thesis unfolding x_def by simp
qed

lemma sle_zero: "0 <=s (w :: u32) \<longleftrightarrow> \<not> bit w 31" "w <s 0 \<longleftrightarrow> bit w 31"
  using bit_last_iff [of w] by (auto simp: word_sle_eq word_sless_alt)

section \<open>The multiplication loop\<close>

text \<open>After \<open>k\<close> rounds: registers 9 and 10 hold the products of the multiplicand with the top and the bottom
  \<open>k\<close> bits of the multiplier, the latter shifted out by as many places.\<close>

definition mul_inv :: "u32 \<Rightarrow> u32 \<Rightarrow> nat \<Rightarrow> nios \<Rightarrow> bool" where
  "mul_inv a b k s \<longleftrightarrow>
     gpr s 3 = a \<and> gpr s 16 = 1 \<and> gpr s 14 = of_nat (32 - k) \<and> gpr s 6 = push_bit k b \<and> gpr s 12 = drop_bit k b \<and>
     gpr s 9 = a * drop_bit (32 - k) b \<and> unat (gpr s 10) = unat a * (unat b mod 2 ^ k) div 2 ^ k"

lemma mul_round_low:
  assumes "mul_inv a b k s" "k < 32"
  obtains s1 where "run (exc_code em) fn Lmultiply_loop s = run (exc_code em) fn Lmulx_skip s1"
    "same_but {9, 10, 15} s s1" "gpr s1 9 = push_bit 1 (gpr s 9)"
    "unat (drop_bit 1 (gpr s1 10) OR gpr s1 15) = unat a * (unat b mod 2 ^ Suc k) div 2 ^ Suc k"
proof -
  note inv = assms(1) [unfolded mul_inv_def]
  have "odd (unat (drop_bit k b)) \<longleftrightarrow> bit b k" by (simp add: unat_drop_bit_eq bit_iff_odd_drop_bit [symmetric] bit_unsigned_iff)
  moreover have "unat b div 2 ^ k = unat (drop_bit k b)" by (simp only: unat_drop_bit_eq flip: drop_bit_eq_div)
  moreover have "drop_bit k b AND 1 = 0 \<longleftrightarrow> even (drop_bit k b)" by (simp only: and_one_eq even_iff_mod_2_eq_zero)
  ultimately have odd: "drop_bit k b AND 1 = 0 \<longleftrightarrow> \<not> bit b k" "odd (unat b div 2 ^ k) \<longleftrightarrow> bit b k"
    by (simp_all add: bit_iff_odd_drop_bit)
  note up = upper_half_round [of "unat a" "unat b" k, unfolded odd]
  show ?thesis
  proof (cases "bit b k")
    case True
    show ?thesis
      by (rule that [OF run_goto [where s' = "s\<lparr>gpr := (gpr s)(9 := push_bit 1 (gpr s 9), 10 := gpr s 10 + a,
          15 := word_rotr 1 (if gpr s 10 + a < a then 1 else 0))\<rparr>"]])
        (use inv True odd up half_carry [of "gpr s 10" a] in \<open>simp_all add: nios same_but_def\<close>)
  next
    case False
    then show ?thesis
      using inv odd up unat_half [of "gpr s 10"]
      by (intro that [OF run_goto [where s' = "s\<lparr>gpr := (gpr s)(9 := push_bit 1 (gpr s 9), 15 := 0)\<rparr>"]])
        (simp_all add: nios same_but_def)
  qed
qed

lemma push_one: "push_bit 1 (push_bit k b) = push_bit (Suc k) b" "drop_bit 1 (drop_bit k b) = drop_bit (Suc k) b"
  for b :: u32
  by simp_all

text \<open>The counter of both loops.\<close>

lemma rounds_left:
  assumes "k < 32"
  shows "of_nat (32 - k) - 1 = (of_nat (31 - k) :: u32)" "of_nat (31 - k) = (0 :: u32) \<longleftrightarrow> k = 31"
proof -
  show "of_nat (32 - k) - 1 = (of_nat (31 - k) :: u32)" using assms by simp
  have "unat (of_nat (31 - k) :: u32) = 31 - k" by (rule of_nat_inverse) simp_all
  then show "of_nat (31 - k) = (0 :: u32) \<longleftrightarrow> k = 31" using assms by (simp only: flip: unat_eq_zero) arith
qed

lemma mul_round:
  assumes "mul_inv a b k s" "k < 32"
  obtains s' where "run (exc_code em) fn Lmultiply_loop s = run (exc_code em) fn (if k = 31 then mul_done else Lmultiply_loop) s'"
    "mul_inv a b (Suc k) s'" "same_but {6, 9, 10, 12, 14, 15} s s'"
proof -
  obtain s1 where s1: "run (exc_code em) fn Lmultiply_loop s = run (exc_code em) fn Lmulx_skip s1"
    "same_but {9, 10, 15} s s1" "gpr s1 9 = push_bit 1 (gpr s 9)"
    "unat (drop_bit 1 (gpr s1 10) OR gpr s1 15) = unat a * (unat b mod 2 ^ Suc k) div 2 ^ Suc k"
    by (rule mul_round_low [OF assms])
  note inv = assms(1) [unfolded mul_inv_def]
  have r: "gpr s1 3 = a" "gpr s1 16 = 1" "gpr s1 14 = of_nat (32 - k)" "gpr s1 6 = push_bit k b" "gpr s1 12 = drop_bit k b"
    using s1(2) inv by (simp_all add: same_but_def)
  have i9: "gpr s 9 = a * drop_bit (32 - k) b" using inv by simp
  have "bit (push_bit k b) 31 \<longleftrightarrow> bit b (31 - k)" using assms(2) by (simp add: bit_simps)
  then obtain s2 where s2: "run (exc_code em) fn Lmulx_skip s1 = run (exc_code em) fn Lmul_skip s2"
      "same_but {9} s1 s2" "gpr s2 9 = a * drop_bit (31 - k) b"
    using r s1(3) i9 lower_half_round [OF assms(2), of a b]
      run_goto [of fn "exc_code em" Lmulx_skip s1 Lmul_skip "if bit b (31 - k) then s1\<lparr>gpr := (gpr s1)(9 := gpr s1 9 + a)\<rparr> else s1"]
    by (cases "bit b (31 - k)") (simp_all add: nios sle_zero same_but_def)
  have r2: "gpr s2 3 = a" "gpr s2 16 = 1" "gpr s2 14 = of_nat (32 - k)" "gpr s2 6 = push_bit k b" "gpr s2 12 = drop_bit k b"
    "gpr s2 10 = gpr s1 10" "gpr s2 15 = gpr s1 15"
    using s2(2) r by (simp_all add: same_but_def)
  define s3 where "s3 = s2\<lparr>gpr := (gpr s2)(10 := drop_bit 1 (gpr s1 10) OR gpr s1 15, 6 := push_bit (Suc k) b,
    12 := drop_bit (Suc k) b, 14 := of_nat (31 - k))\<rparr>"
  have "block fn (exc_code em Lmul_skip) s2 = Some (Goto (if k = 31 then mul_done else Lmultiply_loop), s3)"
    using r2 rounds_left [OF assms(2)] by (simp add: nios s3_def)
  then have "run (exc_code em) fn Lmul_skip s2 = run (exc_code em) fn (if k = 31 then mul_done else Lmultiply_loop) s3"
    by (rule run_goto)
  moreover have "mul_inv a b (Suc k) s3" using r2 s2(3) s1(4) by (simp add: mul_inv_def s3_def)
  moreover have "same_but {6, 9, 10, 12, 14, 15} s s3" using s1(2) s2(2) by (simp add: same_but_def s3_def)
  ultimately show ?thesis using that s1(1) s2(1) by simp
qed

lemma mul_loop:
  assumes "mul_inv a b k s" "k < 32"
  obtains s' where "run (exc_code em) fn Lmultiply_loop s = run (exc_code em) fn mul_done s'" "mul_inv a b 32 s'"
    "same_but {6, 9, 10, 12, 14, 15} s s'"
  using assms
proof (induction "31 - k" arbitrary: k s thesis)
  case 0
  then have k: "k = 31" "Suc k = 32" by simp_all
  obtain s1 where s1: "run (exc_code em) fn Lmultiply_loop s = run (exc_code em) fn (if k = 31 then mul_done else Lmultiply_loop) s1"
    "mul_inv a b (Suc k) s1" "same_but {6, 9, 10, 12, 14, 15} s s1"
    by (rule mul_round [OF 0(3,4)])
  show ?case by (rule 0(2) [OF _ s1(2) [unfolded k(2)] s1(3)]) (simp add: s1(1) k(1))
next
  case (Suc d)
  obtain s1 where s1: "run (exc_code em) fn Lmultiply_loop s = run (exc_code em) fn (if k = 31 then mul_done else Lmultiply_loop) s1"
    "mul_inv a b (Suc k) s1" "same_but {6, 9, 10, 12, 14, 15} s s1"
    by (rule mul_round [OF Suc.prems(2,3)])
  have k: "k < 31" "d = 31 - Suc k" using Suc.hyps(2) by simp_all
  show ?case
  proof (rule Suc.hyps(1) [OF k(2) _ s1(2)])
    show "Suc k < 32" using k(1) by simp
    fix t assume t: "run (exc_code em) fn Lmultiply_loop s1 = run (exc_code em) fn mul_done t" "mul_inv a b 32 t" "same_but {6, 9, 10, 12, 14, 15} s1 t"
    show thesis by (rule Suc.prems(1) [OF _ t(2) same_but_trans [OF s1(3) t(3)]]) (simp only: s1(1) t(1) if_not_P [OF less_imp_neq [OF k(1)]])
  qed
qed

section \<open>The division loop\<close>

text \<open>After \<open>k\<close> rounds: register 13 holds the remainder of the top \<open>k\<close> bits of the dividend, register 3 the
  rest of the dividend, shifted, with the quotient below.\<close>

definition div_inv :: "u32 \<Rightarrow> u32 \<Rightarrow> nat \<Rightarrow> nios \<Rightarrow> bool" where
  "div_inv n d k s \<longleftrightarrow>
     gpr s 6 = d \<and> gpr s 14 = of_nat (32 - k) \<and>
     unat (gpr s 13) = unat n div 2 ^ (32 - k) mod unat d \<and>
     unat (gpr s 3) = unat n mod 2 ^ (32 - k) * 2 ^ k + unat n div 2 ^ (32 - k) div unat d"

lemma quotient_round:
  fixes H D b :: nat
  assumes "0 < D" "b < 2"
  defines "r \<equiv> 2 * (H mod D) + b"
  shows "(2 * H + b) div D = 2 * (H div D) + (if r < D then 0 else 1)"
    "(2 * H + b) mod D = (if r < D then r else r - D)"
proof -
  have h: "2 * H + b = r + D * (2 * (H div D))"
  proof -
    have "2 * H = 2 * (D * (H div D) + H mod D)" by simp
    then show ?thesis unfolding r_def by (simp only: algebra_simps)
  qed
  have "H mod D < D" using assms(1) by simp
  then have r: "r < 2 * D" using assms(2) unfolding r_def by linarith
  have "r div D = (if r < D then 0 else 1) \<and> r mod D = (if r < D then r else r - D)"
  proof (cases "r < D")
    case False
    then obtain x where "r = D + x" "x < D" using r by (metis add_less_cancel_left less_imp_add_positive mult_2 not_less_iff_gr_or_eq add.right_neutral assms(1))
    then show ?thesis using False assms(1) by (simp add: div_add_self1)
  qed simp
  then show "(2 * H + b) div D = 2 * (H div D) + (if r < D then 0 else 1)" "(2 * H + b) mod D = (if r < D then r else r - D)"
    unfolding h using assms(1) by simp_all
qed

lemma unat_double: "unat (push_bit 1 w) = 2 * unat w mod 2 ^ 32" for w :: u32
  by (simp add: unat_word_ariths mult.commute)

lemma unat_double_or:
  fixes w :: u32
  assumes "2 * unat w < 2 ^ 32"
  shows "unat (push_bit 1 w OR of_bool b) = 2 * unat w + of_bool b"
proof -
  have "push_bit 1 w AND of_bool b = 0" 
    by (rule bit_word_eqI) (auto simp: bit_simps simp del: push_bit_of_1 push_bit_Suc One_nat_def)
  then have "push_bit 1 w OR of_bool b = push_bit 1 w + of_bool b" by (simp only: disjunctive_add_eq_or)
  moreover have "unat (push_bit 1 w) = 2 * unat w" using assms by (simp only: unat_double mod_less)
  moreover have "unat w < 2 ^ 31" using assms by simp
  then have "2 * unat w + of_bool b < 2 ^ 32" by (cases b) simp_all
  ultimately show ?thesis by (cases b) (simp_all add: unat_add_small)
qed

lemma unat_or_one:
  fixes x :: u32
  assumes "even (unat x)"
  shows "unat (x OR 1) = unat x + 1"
proof -
  have "\<not> bit (unat x) 0" using assms by (simp add: bit_0)
  then have "\<not> bit x 0" by (simp add: bit_unsigned_iff)
  then have "x AND 1 = 0" by (auto simp: bit_simps bit_1_iff intro!: bit_word_eqI)
  then have "x OR 1 = x + 1" by (simp only: disjunctive_add_eq_or)
  moreover have "unat x < 2 ^ 32" using unsigned_less [of x] by simp
  then have "unat x + 1 < 2 ^ 32" using assms by simp presburger
  ultimately show ?thesis by (simp add: unat_add_small)
qed

text \<open>The next bit of the dividend.\<close>

lemma next_bit:
  fixes N Q :: nat
  assumes "N < 2 ^ 32" "k < 32" "Q < 2 ^ k"
  defines "b \<equiv> N div 2 ^ (31 - k) mod 2"
  shows "N div 2 ^ (31 - k) = 2 * (N div 2 ^ (32 - k)) + b"
    "(N mod 2 ^ (32 - k) * 2 ^ k + Q) div 2 ^ 31 = b"
    "2 * (N mod 2 ^ (32 - k) * 2 ^ k + Q) mod 2 ^ 32 = N mod 2 ^ (31 - k) * 2 ^ Suc k + 2 * Q"
proof -
  have s: "(2 :: nat) ^ (32 - k) = 2 ^ (31 - k) * 2" "(2 :: nat) ^ 31 = 2 ^ (31 - k) * 2 ^ k"
  proof -
    have "32 - k = Suc (31 - k)" "31 = 31 - k + k" using assms(2) by simp_all
    then show "(2 :: nat) ^ (32 - k) = 2 ^ (31 - k) * 2" "(2 :: nat) ^ 31 = 2 ^ (31 - k) * 2 ^ k"
      by (simp only: power_Suc2, metis power_add)
  qed
  show "N div 2 ^ (31 - k) = 2 * (N div 2 ^ (32 - k)) + b" by (simp add: s div_mult2_eq b_def)
  define M where "M = N mod 2 ^ (31 - k)"
  have m: "N mod 2 ^ (32 - k) = 2 ^ (31 - k) * b + M" by (simp only: s mod_mult2_eq b_def M_def)
  have "M < 2 ^ (31 - k)" by (simp add: M_def)
  then have "M * 2 ^ k + 2 ^ k \<le> 2 ^ (31 - k) * 2 ^ k" by (metis Suc_leI add.commute mult_Suc mult_le_mono1)
  then have l: "M * 2 ^ k + Q < 2 ^ 31" using assms(3) s(2) by linarith
  have e: "N mod 2 ^ (32 - k) * 2 ^ k + Q = 2 ^ 31 * b + (M * 2 ^ k + Q)"
    unfolding m s(2) by (simp add: algebra_simps)
  show "(N mod 2 ^ (32 - k) * 2 ^ k + Q) div 2 ^ 31 = b" unfolding e using l by (simp del: power_numeral)
  have "2 * (2 ^ 31 * b + (M * 2 ^ k + Q)) = 2 * (M * 2 ^ k + Q) + 2 ^ 32 * b" by simp
  then show "2 * (N mod 2 ^ (32 - k) * 2 ^ k + Q) mod 2 ^ 32 = N mod 2 ^ (31 - k) * 2 ^ Suc k + 2 * Q"
    unfolding e M_def [symmetric] using l by simp
qed

lemma div_round:
  assumes "div_inv n d k s" "k < 32" "d \<noteq> 0"
  obtains s' where "run (exc_code em) fn Ldivide_loop s = run (exc_code em) fn (if k = 31 then div_done else Ldivide_loop) s'"
    "div_inv n d (Suc k) s'" "same_but {3, 13, 14, 15} s s'"
proof -
  note inv = assms(1) [unfolded div_inv_def]
  define H where "H = unat n div 2 ^ (32 - k)"
  define b where "b = unat n div 2 ^ (31 - k) mod 2"
  define r where "r = 2 * (H mod unat d) + b"
  have d: "0 < unat d" using assms(3) by (simp add: unat_gt_0)
  have N: "unat n < 2 ^ 32" using unsigned_less [of n] by simp
  have "(2 :: nat) ^ 32 = 2 ^ (32 - k) * 2 ^ k" using assms(2) by (simp flip: power_add)
  then have Hk: "H < 2 ^ k" unfolding H_def using N by (intro less_mult_imp_div_less) (simp add: mult.commute)
  then have q: "H div unat d < 2 ^ k" by (rule le_less_trans [OF div_le_dividend])
  note nb = next_bit [OF N assms(2) q, folded b_def H_def]
  have b2: "b < 2" by (simp add: b_def)
  note qr = quotient_round [OF d b2, of H, folded r_def]
  have bb: "of_bool (b = 1) = (if b = 1 then 1 else 0 :: u32)" "of_bool (b = 1) = b" using b2 by auto
  have msb: "gpr s 3 <s 0 \<longleftrightarrow> b = 1"
  proof -
    have "bit (gpr s 3) 31 \<longleftrightarrow> bit (unat (gpr s 3)) 31" by (simp add: bit_unsigned_iff)
    also have "\<dots> \<longleftrightarrow> odd (unat (gpr s 3) div 2 ^ 31)" by (simp only: bit_iff_odd)
    also have "unat (gpr s 3) div 2 ^ 31 = b" using inv nb(2) by (simp only: H_def)
    also have "odd b \<longleftrightarrow> b = 1" using b2 by presburger
    finally show ?thesis by (simp only: sle_zero)
  qed
  have k31: "(2 :: nat) ^ k \<le> 2 ^ 31" using assms(2) by (intro power_increasing) simp_all
  have rem: "unat (gpr s 13) = H mod unat d" using inv by (simp add: H_def)
  then have "unat (gpr s 13) \<le> H" by simp
  then have "2 * unat (gpr s 13) < 2 ^ 32" using Hk k31 by simp
  from unat_double_or [OF this, of "b = 1"] have r13: "unat (push_bit 1 (gpr s 13) OR of_bool (b = 1)) = r"
    by (simp only: rem r_def bb(2))
  have r3: "unat (push_bit 1 (gpr s 3)) = unat n mod 2 ^ (31 - k) * 2 ^ Suc k + 2 * (H div unat d)"
    using inv nb(3) by (simp only: unat_double H_def)
  then have r3': "unat (push_bit 1 (gpr s 3) OR 1) = unat n mod 2 ^ (31 - k) * 2 ^ Suc k + 2 * (H div unat d) + 1"
    by (subst unat_or_one) simp_all
  define s1 where "s1 = s\<lparr>gpr := (gpr s)(15 := of_bool (b = 1), 13 := push_bit 1 (gpr s 13) OR of_bool (b = 1),
    3 := push_bit 1 (gpr s 3))\<rparr>"
  define s2 where "s2 = (if r < unat d then s1 else s1\<lparr>gpr := (gpr s1)(3 := gpr s1 3 OR 1, 13 := gpr s1 13 - d)\<rparr>)"
  have g6: "gpr s 6 = d" using inv by simp
  have "push_bit 1 (gpr s 13) OR of_bool (b = 1) < d \<longleftrightarrow> r < unat d" by (simp only: word_less_nat_alt r13)
  then have "block fn (exc_code em Ldivide_loop) s = Some (Goto Ldiv_skip, s2)"
    using g6 by (cases "b = 1") (simp_all add: nios msb s1_def s2_def)
  then have 1: "run (exc_code em) fn Ldivide_loop s = run (exc_code em) fn Ldiv_skip s2" by (rule run_goto)
  have v: "gpr s2 6 = d" "gpr s2 14 = of_nat (32 - k)" using inv by (simp_all add: s2_def s1_def)
  have v3: "unat (gpr s2 3) = unat n mod 2 ^ (31 - k) * 2 ^ Suc k + (2 * H + b) div unat d"
    using r3 r3' qr(1) by (simp add: s2_def s1_def)
  have v13: "unat (gpr s2 13) = (2 * H + b) mod unat d"
    using r13 qr(2) by (simp add: s2_def s1_def unat_sub word_le_nat_alt)
  define s3 where "s3 = s2\<lparr>gpr := (gpr s2)(14 := of_nat (31 - k))\<rparr>"
  have "block fn (exc_code em Ldiv_skip) s2 = Some (Goto (if k = 31 then div_done else Ldivide_loop), s3)"
    using v rounds_left [OF assms(2)] by (simp add: nios s3_def)
  then have "run (exc_code em) fn Ldiv_skip s2 = run (exc_code em) fn (if k = 31 then div_done else Ldivide_loop) s3"
    by (rule run_goto)
  moreover have "div_inv n d (Suc k) s3" using v v3 v13 nb(1) by (simp add: div_inv_def s3_def)
  moreover have "same_but {3, 13, 14, 15} s s3" by (simp add: same_but_def s3_def s2_def s1_def)
  ultimately show ?thesis using that 1 by simp
qed

lemma div_loop:
  assumes "div_inv n d k s" "k < 32" "d \<noteq> 0"
  obtains s' where "run (exc_code em) fn Ldivide_loop s = run (exc_code em) fn div_done s'" "div_inv n d 32 s'"
    "same_but {3, 13, 14, 15} s s'"
  using assms(1,2)
proof (induction "31 - k" arbitrary: k s thesis)
  case 0
  then have k: "k = 31" "Suc k = 32" by simp_all
  obtain s1 where s1: "run (exc_code em) fn Ldivide_loop s = run (exc_code em) fn (if k = 31 then div_done else Ldivide_loop) s1"
    "div_inv n d (Suc k) s1" "same_but {3, 13, 14, 15} s s1"
    by (rule div_round [OF 0(3,4) assms(3)])
  show ?case by (rule 0(2) [OF _ s1(2) [unfolded k(2)] s1(3)]) (simp add: s1(1) k(1))
next
  case (Suc j)
  obtain s1 where s1: "run (exc_code em) fn Ldivide_loop s = run (exc_code em) fn (if k = 31 then div_done else Ldivide_loop) s1"
    "div_inv n d (Suc k) s1" "same_but {3, 13, 14, 15} s s1"
    by (rule div_round [OF Suc.prems(2,3) assms(3)])
  have k: "k < 31" "j = 31 - Suc k" using Suc.hyps(2) by simp_all
  show ?case
  proof (rule Suc.hyps(1) [OF k(2) _ s1(2)])
    show "Suc k < 32" using k(1) by simp
    fix t assume t: "run (exc_code em) fn Ldivide_loop s1 = run (exc_code em) fn div_done t" "div_inv n d 32 t" "same_but {3, 13, 14, 15} s1 t"
    show thesis by (rule Suc.prems(1) [OF _ t(2) same_but_trans [OF s1(3) t(3)]]) (simp only: s1(1) t(1) if_not_P [OF less_imp_neq [OF k(1)]])
  qed
qed

end
