(* ===== verification/Muldiv_Results.thy ===== *)
theory Muldiv_Results
  imports Muldiv "HOL-Library.Signed_Division"
begin

text \<open>
  What the multiply and divide instructions compute, and that the emulation of alt_exception_muldiv.S
  leaves just that in register 9, for every operation and all operands; a division by zero has
  no result.
\<close>

section \<open>The instructions\<close>

text \<open>The operations with the OPX fields by which the emulation tells them apart.\<close>

datatype muldiv = divu | div_signed | mul | mulxuu | mulxsu | mulxss

fun OPX :: "muldiv \<Rightarrow> u32" where
  "OPX divu = 0x24"
| "OPX div_signed = 0x25"
| "OPX mul = 0x27"
| "OPX mulxuu = 0x07"
| "OPX mulxsu = 0x17"
| "OPX mulxss = 0x1f"

fun muldiv_result :: "muldiv \<Rightarrow> u32 \<Rightarrow> u32 \<Rightarrow> u32" where
  "muldiv_result divu a b = a div b"
| "muldiv_result div_signed a b = word_of_int (sint a sdiv sint b)"
| "muldiv_result mul a b = a * b"
| "muldiv_result mulxuu a b = word_of_int (uint a * uint b div 2 ^ 32)"
| "muldiv_result mulxsu a b = word_of_int (sint a * uint b div 2 ^ 32)"
| "muldiv_result mulxss a b = word_of_int (sint a * sint b div 2 ^ 32)"

definition is_division :: "muldiv \<Rightarrow> bool" where
  "is_division i \<longleftrightarrow> i = divu \<or> i = div_signed"

section \<open>Upper halves of products\<close>

lemma sint_by_sign: "sint w = uint w - (if bit w 31 then 2 ^ 32 else 0)" for w :: u32
proof -
  have "sint w = take_bit (Suc 31) (uint w) - 2 ^ Suc 31 * of_bool (bit (uint w) 31)"
    unfolding sint_uint by (simp add: signed_take_bit_eq_take_bit_minus)
  moreover have "take_bit (Suc 31) (uint w) = uint w" by (rule take_bit_int_eq_self) (use uint_lt2p [of w] in simp_all)
  ultimately show ?thesis by (simp add: bit_unsigned_iff)
qed

lemma mulxuu_half: "unat p = unat a * unat b div 2 ^ 32 \<Longrightarrow> muldiv_result mulxuu a b = p"
proof -
  assume p: "unat p = unat a * unat b div 2 ^ 32"
  have "uint a * uint b div 2 ^ 32 = int (unat a * unat b div 2 ^ 32)" by (simp add: zdiv_int)
  then show ?thesis unfolding p [symmetric] by simp
qed

lemma mulxsu_half: "muldiv_result mulxsu a b = muldiv_result mulxuu a b - (if bit a 31 then b else 0)"
proof -
  have "sint a * uint b = uint a * uint b + (if bit a 31 then - uint b else 0) * 2 ^ 32"
    by (simp add: sint_by_sign algebra_simps)
  then have "sint a * uint b div 2 ^ 32 = uint a * uint b div 2 ^ 32 + (if bit a 31 then - uint b else 0)"
    by (simp only: div_mult_self1) simp
  then show ?thesis by simp
qed

lemma mulxss_half: "muldiv_result mulxss a b = muldiv_result mulxsu a b - (if bit b 31 then a else 0)"
proof -
  have "sint a * sint b = sint a * uint b + (if bit b 31 then - sint a else 0) * 2 ^ 32"
    by (simp add: sint_by_sign [of b] algebra_simps)
  then have "sint a * sint b div 2 ^ 32 = sint a * uint b div 2 ^ 32 + (if bit b 31 then - sint a else 0)"
    by (simp only: div_mult_self1) simp
  then show ?thesis by simp
qed

section \<open>Signs of quotients\<close>

lemma sign_bit: "bit w 31 \<longleftrightarrow> sint w < 0" for w :: u32
  using bit_last_iff [of w] by simp

lemma uint_abs: "uint (if bit w 31 then - w else w) = \<bar>sint w\<bar>" for w :: u32
proof -
  have "(if bit w 31 then - w else w) = word_of_int \<bar>sint w\<bar>" by (simp add: sign_bit abs_if)
  moreover have "\<bar>sint w\<bar> < 2 ^ 32" using sint_greater_eq [of w] sint_less [of w] by simp
  ultimately show ?thesis by (simp only: uint_word_of_int) simp
qed

lemma quotient_sign:
  fixes a b :: u32
  defines "q \<equiv> (if bit a 31 then - a else a) div (if bit b 31 then - b else b)"
  shows "muldiv_result div_signed a b = (if bit (a XOR b) 31 then - q else q)"
proof -
  have "bit (a XOR b) 31 \<longleftrightarrow> bit a 31 \<noteq> bit b 31" by (simp add: bit_xor_iff)
  then have sign: "bit (a XOR b) 31 \<longleftrightarrow> (sint a < 0) \<noteq> (sint b < 0)" by (simp only: sign_bit)
  have "q = word_of_int (\<bar>sint a\<bar> div \<bar>sint b\<bar>)"
    unfolding q_def uint_abs [symmetric] uint_div_distrib [symmetric] by simp
  moreover have "sint a sdiv sint b = (if bit (a XOR b) 31 then - (\<bar>sint a\<bar> div \<bar>sint b\<bar>) else \<bar>sint a\<bar> div \<bar>sint b\<bar>)"
    using sign by (simp add: signed_divide_int_def sgn_if)
  ultimately show ?thesis by (simp only: muldiv_result.simps) simp
qed

section \<open>The emulation\<close>

lemma multiply_emulated:
  assumes "gpr s 3 = a" "gpr s 6 = b" "gpr s 14 = 32" "gpr s 4 = OPX i" "\<not> is_division i"
  obtains s' where "run (exc_code em) fn Lmultiply s = run (exc_code em) fn Lstore_result s'"
    "gpr s' 9 = muldiv_result i a b" "same_but {6, 9, 10, 11, 12, 14, 15, 16} s s'"
proof -
  define s1 where "s1 = s\<lparr>gpr := (gpr s)(9 := 0, 10 := 0, 11 := b, 12 := b, 16 := 1)\<rparr>"
  have "block fn (exc_code em Lmultiply) s = Some (Goto Lmultiply_loop, s1)" using assms by (simp add: nios s1_def)
  then have 1: "run (exc_code em) fn Lmultiply s = run (exc_code em) fn Lmultiply_loop s1" by (rule run_goto)
  have "mul_inv a b 0 s1" using assms by (simp add: mul_inv_def s1_def)
  then obtain s2 where s2: "run (exc_code em) fn Lmultiply_loop s1 = run (exc_code em) fn mul_done s2" "mul_inv a b 32 s2"
    "same_but {6, 9, 10, 12, 14, 15} s1 s2"
    by (rule mul_loop) simp
  have r: "gpr s2 3 = a" "gpr s2 9 = a * b" "unat (gpr s2 10) = unat a * unat b div 2 ^ 32" "gpr s2 11 = b" "gpr s2 4 = OPX i"
    using s2(2,3) assms u32_bound [of b] by (simp_all add: mul_inv_def same_but_def s1_def)
  note res = mulxuu_half [OF r(3)] mulxsu_half [of a b] mulxss_half [of a b]
  have rest: "same_but {6, 9, 10, 12, 14, 15} s1 s2" "same_but {9, 10, 11, 12, 16} s s1"
    using s2(3) by (simp_all add: same_but_def s1_def)
  have "reaches (exc_code em) fn mul_done s2 Lstore_result (\<lambda>s'. gpr s' 9 = muldiv_result i a b \<and> same_but {9, 15} s2 s')"
  proof (cases i)
    case mul
    show ?thesis by (rule reaches_step) (use r mul in \<open>simp add: nios reaches_here same_but_def\<close>)
  next
    case mulxuu
    show ?thesis by (rule reaches_step) (use r res mulxuu in \<open>simp add: nios reaches_here same_but_def\<close>)
  next
    case mulxsu
    show ?thesis
      by (rule reaches_step, use r mulxsu in \<open>simp add: nios sle_zero\<close>)
        (use r res mulxsu in \<open>auto simp: nios same_but_def intro!: reaches_step [where l = Lmulxsu_skip] reaches_here\<close>)
  next
    case mulxss
    show ?thesis
      by (rule reaches_step, use r mulxss in \<open>simp add: nios sle_zero\<close>)
        (use r res mulxss in \<open>auto simp: nios same_but_def sle_zero
          intro!: reaches_step [where l = Lmulxsu_skip] reaches_step [where l = Lmulxss_skip] reaches_here\<close>)
  qed (use assms(5) in \<open>simp_all add: is_division_def\<close>)
  then obtain s3 where s3: "run (exc_code em) fn mul_done s2 = run (exc_code em) fn Lstore_result s3"
    "gpr s3 9 = muldiv_result i a b" "same_but {9, 15} s2 s3" by (auto simp: reaches_def)
  show ?thesis
    by (rule that [OF _ s3(2)]) (use s3(1,3) s2(1) 1 rest in \<open>simp_all add: same_but_def\<close>)
qed

lemma divide_emulated:
  assumes "gpr s 3 = a" "gpr s 6 = b" "gpr s 14 = 32" "gpr s 4 = OPX i" "is_division i" "b \<noteq> 0"
  obtains s' where "run (exc_code em) fn Ldivide s = run (exc_code em) fn Lstore_result s'"
    "gpr s' 9 = muldiv_result i a b" "same_but {3, 6, 9, 13, 14, 15, 17} s s'"
proof -
  define n where "n = (if i = div_signed \<and> bit a 31 then - a else a)"
  define d where "d = (if i = div_signed \<and> bit b 31 then - b else b)"
  define g where "g = (if i = div_signed then a XOR b else 0)"
  have d: "d \<noteq> 0" using assms(6) by (simp add: d_def)
  have "reaches (exc_code em) fn Lunsigned_division s' Ldivide_loop (\<lambda>s1. div_inv n d 0 s1 \<and> gpr s1 17 = g \<and>
      same_but {3, 6, 13, 15, 17} s s1)"
    if "gpr s' 3 = n" "gpr s' 6 = d" "gpr s' 17 = g" "same_but {3, 6, 13, 15, 17} s s'" for s'
    by (rule reaches_step) (use that assms(3) u32_bound [of n] in \<open>simp add: nios reaches_here div_inv_def same_but_def\<close>)
  note loop = this
  define Q where "Q s' \<longleftrightarrow> gpr s' 3 = n \<and> gpr s' 6 = d \<and> gpr s' 17 = g \<and> same_but {3, 6, 13, 15, 17} s s'" for s'
  have "reaches (exc_code em) fn Ldivide s Lunsigned_division Q"
  proof (cases "i = div_signed")
    case False
    then have "OPX i = 0x24" using assms(5) by (simp add: is_division_def)
    then show ?thesis
      by (intro reaches_step [where l = Ldivide])
        (use assms(1-4) False in \<open>simp add: nios reaches_here Q_def same_but_def n_def d_def g_def\<close>)
  next
    case True
    have sb: "Q s' \<Longrightarrow> reaches (exc_code em) fn div_sign_b s' Lunsigned_division Q" for s'
      by (rule reaches_step) (simp add: reaches_here)
    have sa: "reaches (exc_code em) fn div_sign_a s' Lunsigned_division Q"
      if "gpr s' 3 = n" "gpr s' 6 = b" "gpr s' 17 = g" "same_but {3, 6, 13, 15, 17} s s'" for s'
      by (rule reaches_step) (use that True in \<open>simp add: nios sle_zero sb Q_def same_but_def d_def\<close>)
    show ?thesis
      by (rule reaches_step) (use assms(1-4) True in \<open>simp add: nios sle_zero sa same_but_def n_def g_def\<close>)
  qed
  then have "reaches (exc_code em) fn Ldivide s Ldivide_loop (\<lambda>s1. div_inv n d 0 s1 \<and> gpr s1 17 = g \<and>
      same_but {3, 6, 13, 15, 17} s s1)"
    by (rule reaches_trans) (rule loop; simp only: Q_def)
  then obtain s1 where s1: "run (exc_code em) fn Ldivide s = run (exc_code em) fn Ldivide_loop s1" "div_inv n d 0 s1"
    "gpr s1 17 = g" "same_but {3, 6, 13, 15, 17} s s1" unfolding reaches_def by blast
  obtain s2 where s2: "run (exc_code em) fn Ldivide_loop s1 = run (exc_code em) fn div_done s2" "div_inv n d 32 s2"
    "same_but {3, 13, 14, 15} s1 s2"
    by (rule div_loop [OF s1(2) _ d]) simp
  have "unat (gpr s2 3) = unat (n div d)" using s2(2) by (simp add: div_inv_def unat_div_distrib)
  then have q: "gpr s2 3 = n div d" by (rule unsigned_word_eqI)
  have g: "gpr s2 17 = g" using s2(3) s1(3) by (simp add: same_but_def)
  have r: "muldiv_result i a b = (if bit g 31 then - (n div d) else n div d)"
    using assms(5) quotient_sign [of a b] by (auto simp: is_division_def g_def n_def d_def)
  have "reaches (exc_code em) fn div_done s2 Lstore_result (\<lambda>s'. gpr s' 9 = muldiv_result i a b \<and> same_but {9} s2 s')"
    by (rule reaches_step) (use q g r in \<open>simp add: nios sle_zero reaches_here same_but_def\<close>)
  then obtain s3 where s3: "run (exc_code em) fn div_done s2 = run (exc_code em) fn Lstore_result s3"
    "gpr s3 9 = muldiv_result i a b" "same_but {9} s2 s3" by (auto simp: reaches_def)
  show ?thesis
    by (rule that [OF _ s3(2)]) (use s3(1,3) s2(1,3) s1(1,4) in \<open>simp_all add: same_but_def\<close>)
qed

end
