(* ===== verification/Instr_Fields.thy ===== *)
theory Instr_Fields
  imports Nios2
begin

text \<open>
  The fields of an instruction word, and how the emulation of alt_exception_muldiv.S takes them out
  by rotating: each as an offset of the stack, or as a number.
\<close>

section \<open>Fields of an instruction\<close>

text \<open>R-type instructions have the fields A, B and C for registers, OPX and OP; I-type instructions A, B,
  a 16-bit immediate and OP.\<close>

definition field_OP :: "u32 \<Rightarrow> u32" where "field_OP w = w AND 0x3f"
definition field_OPX :: "u32 \<Rightarrow> u32" where "field_OPX w = drop_bit 11 w AND 0x3f"
definition field_A :: "u32 \<Rightarrow> u32" where "field_A w = drop_bit 27 w"
definition field_B :: "u32 \<Rightarrow> u32" where "field_B w = drop_bit 22 w AND 31"
definition field_C :: "u32 \<Rightarrow> u32" where "field_C w = drop_bit 17 w AND 31"
definition field_IMM :: "u32 \<Rightarrow> u32" where "field_IMM w = signed_drop_bit 16 (push_bit 10 w)"

text \<open>Where the handler finds a register on the stack: the second half of the register file comes first.\<close>

definition slot :: "u32 \<Rightarrow> u32" where "slot r = push_bit 2 (r XOR 16)"

lemma below_32:
  "n < LENGTH(32) \<Longrightarrow> n \<in> {0,1,2,3,4,5,6,7,8,9,10,11,12,13,14,15,16,17,18,19,20,21,22,23,24,25,26,27,28,29,30,31::nat}"
  by (simp; arith)

lemma field_A_offset: "(word_rotl 7 w XOR 0x40) AND 0x7c = slot (field_A w)" for w :: u32
proof (rule bit_word_eqI)
  fix n assume "n < LENGTH(32)"
  from below_32 [OF this] show "bit ((word_rotl 7 w XOR 0x40) AND 0x7c) n = bit (slot (field_A w)) n"
    by (auto simp: slot_def field_A_def bit_simps dest: bit_imp_le_length)
qed

lemma field_B_offset: "(word_rotl 2 (word_rotl 3 (word_rotl 7 w)) XOR 0x42) AND 0x7c = slot (field_B w)" for w :: u32
proof (rule bit_word_eqI)
  fix n assume "n < LENGTH(32)"
  from below_32 [OF this]
  show "bit ((word_rotl 2 (word_rotl 3 (word_rotl 7 w)) XOR 0x42) AND 0x7c) n = bit (slot (field_B w)) n"
    by (auto simp: slot_def field_B_def bit_simps dest: bit_imp_le_length)
qed

lemma field_C_offset:
  "word_rotl 5 (word_rotl 2 (word_rotl 3 (word_rotl 7 w)) XOR 0x42) AND 0x7c = slot (field_C w)" for w :: u32
proof (rule bit_word_eqI)
  fix n assume "n < LENGTH(32)"
  from below_32 [OF this]
  show "bit (word_rotl 5 (word_rotl 2 (word_rotl 3 (word_rotl 7 w)) XOR 0x42) AND 0x7c) n = bit (slot (field_C w)) n"
    by (auto simp: slot_def field_C_def bit_simps dest: bit_imp_le_length)
qed

lemma field_IMM_shift: "signed_drop_bit 16 (word_rotl 3 (word_rotl 7 w)) = field_IMM w" for w :: u32
proof (rule bit_word_eqI)
  fix n assume "n < LENGTH(32)"
  from below_32 [OF this] show "bit (signed_drop_bit 16 (word_rotl 3 (word_rotl 7 w))) n = bit (field_IMM w) n"
    by (auto simp: field_IMM_def bit_simps)
qed

lemma field_OPX_shift: "drop_bit 5 (field_IMM w) AND 0x3f = field_OPX w" for w :: u32
proof (rule bit_word_eqI)
  fix n assume "n < LENGTH(32)"
  from below_32 [OF this] show "bit (drop_bit 5 (field_IMM w) AND 0x3f) n = bit (field_OPX w) n"
    by (auto simp: field_IMM_def field_OPX_def bit_simps)
qed

end
