(* ===== verification/Exception_Frame.thy ===== *)
theory Exception_Frame
  imports Exception_Code Instr_Fields Hal_Irq
begin

text \<open>
  Entry to and exit from an exception: the registers on the stack, and what the interrupted
  program gets back. The theorems say that an interrupt is invisible to the program it interrupts,
  and that a handler for instruction-related exceptions decides by its result where it continues.
\<close>

section \<open>The stack\<close>

text \<open>The handler uses at most 136 bytes below the stack pointer.\<close>

definition in_frame :: "nios \<Rightarrow> u32 \<Rightarrow> bool" where
  "in_frame s a \<longleftrightarrow> 0 < gpr s sp - a \<and> gpr s sp - a \<le> 136"

lemma not_in_frame: "\<not> in_frame s a \<Longrightarrow> numeral k \<le> (136 :: u32) \<Longrightarrow> 0 < (numeral k :: u32) \<Longrightarrow> a \<noteq> gpr s sp - numeral k"
  by (auto simp: in_frame_def)

definition saved_at :: "nios \<Rightarrow> nat \<Rightarrow> u32" where
  "saved_at s r = gpr s sp - 136 + slot (of_nat r)"

definition caller_saved :: "nat list" where
  "caller_saved = [1, 2, 3, 4, 5, 6, 7, 8, 9, 10, 11, 12, 13, 14, 15, 31]"

definition handler_frame :: "nios \<Rightarrow> nios \<Rightarrow> bool" where
  "handler_frame s t \<longleftrightarrow>
     gpr t sp = gpr s sp - 76 \<and>
     (\<forall>r \<in> set caller_saved. word_at t (saved_at s r) = gpr s r) \<and>
     word_at t (gpr s sp - 8) = ctl s STATUS"

lemma slots:
  "saved_at s (Suc 0) = gpr s sp - 68" "saved_at s 2 = gpr s sp - 64" "saved_at s 3 = gpr s sp - 60"
  "saved_at s 4 = gpr s sp - 56" "saved_at s 5 = gpr s sp - 52" "saved_at s 6 = gpr s sp - 48" "saved_at s 7 = gpr s sp - 44"
  "saved_at s 8 = gpr s sp - 40" "saved_at s 9 = gpr s sp - 36" "saved_at s 10 = gpr s sp - 32" "saved_at s 11 = gpr s sp - 28"
  "saved_at s 12 = gpr s sp - 24" "saved_at s 13 = gpr s sp - 20" "saved_at s 14 = gpr s sp - 16" "saved_at s 15 = gpr s sp - 12"
  "saved_at s 0 = gpr s sp - 72" "saved_at s 16 = gpr s sp - 136" "saved_at s 17 = gpr s sp - 132" "saved_at s 18 = gpr s sp - 128"
  "saved_at s 19 = gpr s sp - 124" "saved_at s 20 = gpr s sp - 120" "saved_at s 21 = gpr s sp - 116" "saved_at s 22 = gpr s sp - 112"
  "saved_at s 23 = gpr s sp - 108" "saved_at s 26 = gpr s sp - 96" "saved_at s 28 = gpr s sp - 88" "saved_at s 31 = gpr s sp - 76"
  by (simp_all add: saved_at_def slot_def)

lemma entry_block:
  assumes "aligned (gpr s sp)"
  obtains t where "run (exc_code em) fn alt_exception (take_exception s) = run (exc_code em) fn irqtest t"
    "handler_frame s t" "word_at t (gpr s sp - 4) = pc s" "\<forall>a. \<not> in_frame s a \<longrightarrow> word_at t a = word_at s a"
    "\<forall>r. r \<notin> {5, 15, sp, ea} \<longrightarrow> gpr t r = gpr s r" "gpr t 5 = ctl s STATUS" "gpr t ea = pc s + 4"
    "ctl t = (ctl s)(ESTATUS := ctl s STATUS, STATUS := ctl s STATUS AND NOT 3)"
proof -
  obtain t where t: "block fn entry_code (take_exception s) = Some (Goto irqtest, t)"
    using assms by (simp add: entry_code_def nios take_exception_def)
  then have e: "t = s\<lparr>gpr := gpr t, word_at := word_at t, ctl := ctl t\<rparr>"
    and r: "gpr t = (gpr s)(ea := pc s + 4, sp := gpr s sp - 76, 5 := ctl s STATUS, 15 := pc s)"
    and c: "ctl t = (ctl s)(ESTATUS := ctl s STATUS, STATUS := ctl s STATUS AND NOT 3)"
    using assms by (auto simp: entry_code_def nios take_exception_def)
  have f: "handler_frame s t" "word_at t (gpr s sp - 4) = pc s" "\<forall>a. \<not> in_frame s a \<longrightarrow> word_at t a = word_at s a"
    using t assms r c by (auto simp: entry_code_def nios take_exception_def handler_frame_def caller_saved_def slots not_in_frame)
  show ?thesis by (rule that [OF _ f]) (use t run_goto [of fn "exc_code em" alt_exception] r c in auto)
qed

lemma exit_block:
  assumes "handler_frame s t" "aligned (gpr s sp)" "word_at t (gpr s sp - 4) = a"
  obtains t' where "run (exc_code em) fn Lexception_exit t = Some (Exception_return, t')"
    "word_at t' = word_at t" "ctl t' = (ctl t)(ESTATUS := ctl s STATUS)"
    "gpr t' ea = a" "gpr t' sp = gpr s sp" "\<forall>r \<in> set caller_saved. gpr t' r = gpr s r"
    "\<forall>r. r \<notin> set caller_saved \<union> {sp, ea} \<longrightarrow> gpr t' r = gpr t r"
proof -
  have s: "word_at t (gpr s sp - 68) = gpr s 1" "word_at t (gpr s sp - 64) = gpr s 2" "word_at t (gpr s sp - 60) = gpr s 3"
    "word_at t (gpr s sp - 56) = gpr s 4" "word_at t (gpr s sp - 52) = gpr s 5" "word_at t (gpr s sp - 48) = gpr s 6"
    "word_at t (gpr s sp - 44) = gpr s 7" "word_at t (gpr s sp - 40) = gpr s 8" "word_at t (gpr s sp - 36) = gpr s 9"
    "word_at t (gpr s sp - 32) = gpr s 10" "word_at t (gpr s sp - 28) = gpr s 11" "word_at t (gpr s sp - 24) = gpr s 12"
    "word_at t (gpr s sp - 20) = gpr s 13" "word_at t (gpr s sp - 16) = gpr s 14" "word_at t (gpr s sp - 12) = gpr s 15"
    "word_at t (gpr s sp - 76) = gpr s 31" "word_at t (gpr s sp - 8) = ctl s STATUS" "gpr t sp = gpr s sp - 76"
    using assms(1) by (simp_all add: handler_frame_def caller_saved_def slots)
  define g where "g = (gpr t)(ea := a, ra := gpr s 31, 1 := gpr s 1, 2 := gpr s 2, 3 := gpr s 3, 4 := gpr s 4, 5 := gpr s 5,
    6 := gpr s 6, 7 := gpr s 7, 8 := gpr s 8, 9 := gpr s 9, 10 := gpr s 10, 11 := gpr s 11, 12 := gpr s 12, 13 := gpr s 13,
    14 := gpr s 14, 15 := gpr s 15, sp := gpr s sp)"
  define t' where "t' = t\<lparr>ctl := (ctl t)(ESTATUS := ctl s STATUS), gpr := g\<rparr>"
  have "block fn exit_code t = Some (Exception_return, t')"
    using s assms(2,3) by (simp add: exit_code_def nios t'_def g_def)
  then have r: "run (exc_code em) fn Lexception_exit t = Some (Exception_return, t')" by (intro run_exit) simp_all
  show ?thesis
  proof (rule that [OF r])
    show "\<forall>r \<in> set caller_saved. gpr t' r = gpr s r" by (simp add: caller_saved_def t'_def g_def)
    show "\<forall>r. r \<notin> set caller_saved \<union> {sp, ea} \<longrightarrow> gpr t' r = gpr t r" by (simp add: caller_saved_def t'_def g_def)
  qed (simp_all add: t'_def g_def)
qed

section \<open>Interrupts\<close>

text \<open>What the calling convention promises of a C function: the registers it must keep, and the caller's
  frame, here the 76 bytes of the handler.\<close>

definition keeps_convention :: "(exc_fn \<Rightarrow> nios \<Rightarrow> nios option) \<Rightarrow> exc_fn \<Rightarrow> bool" where
  "keeps_convention fn f \<longleftrightarrow>
     (\<forall>u t. fn f u = Some t \<longrightarrow> (\<forall>r \<in> {16..28}. gpr t r = gpr u r) \<and>
        (\<forall>a. a - gpr u sp < 76 \<longrightarrow> word_at t a = word_at u a))"

text \<open>So the frame survives the call.\<close>

lemma call_keeps_frame:
  assumes "handler_frame s u" "keeps_convention fn f" "fn f u = Some t"
  shows "handler_frame s t" "word_at t (gpr s sp - 4) = word_at u (gpr s sp - 4)"
    "word_at t (gpr s sp - 8) = word_at u (gpr s sp - 8)" "\<And>r. r \<in> {16..28} \<Longrightarrow> gpr t r = gpr u r"
proof -
  note c = assms(2) [unfolded keeps_convention_def, rule_format, OF assms(3)]
  have p: "gpr u sp = gpr s sp - 76" using assms(1) by (simp add: handler_frame_def)
  have m: "word_at t a = word_at u a" if "a - (gpr s sp - 76) < 76" for a
    using c that p by simp
  show "\<And>r. r \<in> {16..28} \<Longrightarrow> gpr t r = gpr u r" using c by blast
  then have "gpr t sp = gpr u sp" by simp
  then show "handler_frame s t" "word_at t (gpr s sp - 4) = word_at u (gpr s sp - 4)"
    "word_at t (gpr s sp - 8) = word_at u (gpr s sp - 8)"
    using assms(1) m by (simp_all add: handler_frame_def caller_saved_def slots)
qed

text \<open>C14. An interrupt is invisible to the program it interrupts: with interrupts enabled and one pending the
  entry saves what the C handler may change, calls it with interrupts disabled and the memory above the
  stack pointer as it was, and returns to the very instruction that was interrupted, with every
  register and the status register as before; only what the handler did to memory remains. The
  handler may be any function that returns and keeps the calling convention.\<close>
theorem interrupt_transparent:
  assumes "aligned (gpr s sp)" "ctl s STATUS AND 1 \<noteq> 0" "ctl s IPENDING \<noteq> 0"
    and "keeps_convention fn alt_irq_handler_fn" "\<forall>u. fn alt_irq_handler_fn u \<noteq> None"
  shows "\<exists>u t s'. fn alt_irq_handler_fn u = Some t \<and> ctl u STATUS AND 1 = 0 \<and>
    (\<forall>a. \<not> in_frame s a \<longrightarrow> word_at u a = word_at s a) \<and>
    handle_exception em fn s = Some s' \<and> word_at s' = word_at t \<and> pc s' = pc s \<and> ctl s' STATUS = ctl s STATUS \<and>
    (\<forall>r < 32. r \<notin> {ea, ba} \<longrightarrow> rd s' r = rd s r)"
proof -
  obtain t where t: "run (exc_code em) fn alt_exception (take_exception s) = run (exc_code em) fn irqtest t"
    "handler_frame s t" "word_at t (gpr s sp - 4) = pc s" "\<forall>a. \<not> in_frame s a \<longrightarrow> word_at t a = word_at s a"
    "\<forall>r. r \<notin> {5, 15, sp, ea} \<longrightarrow> gpr t r = gpr s r" "gpr t 5 = ctl s STATUS" "gpr t ea = pc s + 4"
    "ctl t = (ctl s)(ESTATUS := ctl s STATUS, STATUS := ctl s STATUS AND NOT 3)"
    by (rule entry_block [OF assms(1), where em = em and fn = fn])
  define u where "u = t\<lparr>gpr := (gpr t)(4 := ctl s IPENDING, 2 := ctl s STATUS AND 1)\<rparr>"
  have "block fn (exc_code em irqtest) t = Some (Goto irqhandler, u)"
    using t(6,8) assms(2,3) by (simp add: irqtest_code_def nios u_def)
  then have 1: "run (exc_code em) fn irqtest t = run (exc_code em) fn irqhandler u" by (rule run_goto)
  obtain v where v: "fn alt_irq_handler_fn u = Some v" using assms(5) by blast
  then have "block fn (exc_code em irqhandler) u = Some (Goto Lexception_exit, v)" by (simp add: irqhandler_code_def)
  then have 2: "run (exc_code em) fn irqhandler u = run (exc_code em) fn Lexception_exit v" by (rule run_goto)
  have fu: "handler_frame s u" using t(2) by (simp add: u_def handler_frame_def)
  note k = call_keeps_frame [OF fu assms(4) v]
  have "word_at v (gpr s sp - 4) = pc s" using k(2) t(3) by (simp add: u_def)
  then obtain e where e: "run (exc_code em) fn Lexception_exit v = Some (Exception_return, e)"
    "word_at e = word_at v" "ctl e = (ctl v)(ESTATUS := ctl s STATUS)"
    "gpr e ea = pc s" "gpr e sp = gpr s sp" "\<forall>r \<in> set caller_saved. gpr e r = gpr s r"
    "\<forall>r. r \<notin> set caller_saved \<union> {sp, ea} \<longrightarrow> gpr e r = gpr v r"
    by (rule exit_block [OF k(1) assms(1), where em = em and fn = fn])
  have "handle_exception em fn s = Some (return_exception e)"
    by (simp add: handle_exception_def t(1) 1 2 e(1))
  moreover have "rd (return_exception e) r = rd s r" if "r < 32" "r \<notin> {ea, ba}" for r
  proof (cases "r \<in> set caller_saved \<union> {sp}")
    case True
    then show ?thesis using e(5,6) by (auto simp: rd_def return_exception_def)
  next
    case False
    then have "r = 0 \<or> r \<in> {16..28} - {sp}" using that by (simp add: caller_saved_def; arith)
    then show ?thesis using False that e(7) k(4) [of r] t(5) by (auto simp: rd_def return_exception_def u_def)
  qed
  moreover have "ctl u STATUS AND 1 = 0" using t(8) by (simp add: u_def nios and.assoc)
  ultimately show ?thesis
    using v e t(4) by (intro exI [of _ u] exI [of _ v] exI [of _ "return_exception e"]) (simp add: u_def return_exception_def nios)
qed

section \<open>Other exceptions\<close>

lemma to_soft:
  assumes "aligned (gpr s sp)" "ctl s STATUS AND 1 = 0 \<or> ctl s IPENDING = 0" "aligned (pc s)" "\<not> in_frame s (pc s)"
  obtains t where "run (exc_code em) fn alt_exception (take_exception s) = run (exc_code em) fn soft t"
    "handler_frame s t" "word_at t (gpr s sp - 4) = pc s + 4" "\<forall>a. \<not> in_frame s a \<longrightarrow> word_at t a = word_at s a"
    "\<forall>r. r \<notin> {2, 4, 5, 15, sp, ea} \<longrightarrow> gpr t r = gpr s r" "gpr t 2 = word_at s (pc s)" "gpr t ea = pc s + 4"
    "ctl t = (ctl s)(ESTATUS := ctl s STATUS, STATUS := ctl s STATUS AND NOT 3)"
proof -
  obtain t where t: "run (exc_code em) fn alt_exception (take_exception s) = run (exc_code em) fn irqtest t"
    "handler_frame s t" "word_at t (gpr s sp - 4) = pc s" "\<forall>a. \<not> in_frame s a \<longrightarrow> word_at t a = word_at s a"
    "\<forall>r. r \<notin> {5, 15, sp, ea} \<longrightarrow> gpr t r = gpr s r" "gpr t 5 = ctl s STATUS" "gpr t ea = pc s + 4"
    "ctl t = (ctl s)(ESTATUS := ctl s STATUS, STATUS := ctl s STATUS AND NOT 3)"
    by (rule entry_block [OF assms(1), where em = em and fn = fn])
  define u where "u = t\<lparr>gpr := (gpr t)(4 := ctl s IPENDING, 2 := ctl s STATUS AND 1)\<rparr>"
  have "block fn (exc_code em irqtest) t = Some (Goto Lnot_irq, u)"
    using t(6,8) assms(2) by (auto simp: irqtest_code_def nios u_def)
  then have 1: "run (exc_code em) fn irqtest t = run (exc_code em) fn Lnot_irq u" by (rule run_goto)
  define v where "v = u\<lparr>gpr := (gpr u)(2 := word_at s (pc s)), word_at := (word_at u)(gpr s sp - 4 := pc s + 4)\<rparr>"
  have p: "pc s \<noteq> gpr s sp - 4" "gpr t sp = gpr s sp - 76" using assms(4) t(2) by (simp_all add: not_in_frame handler_frame_def)
  have "block fn (exc_code em Lnot_irq) u = Some (Goto soft, v)"
    using t(4,7) assms p by (simp add: notirq_code_def nios u_def v_def)
  then have 2: "run (exc_code em) fn Lnot_irq u = run (exc_code em) fn soft v" by (rule run_goto)
  show ?thesis
  proof (rule that [of v])
    show "handler_frame s v" using t(2) by (simp add: handler_frame_def v_def u_def caller_saved_def slots)
    show "\<forall>a. \<not> in_frame s a \<longrightarrow> word_at v a = word_at s a" using t(4) by (auto simp: v_def u_def not_in_frame)
  qed (use t 1 2 in \<open>simp_all add: v_def u_def\<close>)
qed

text \<open>A state to try the theorems in: the stack at 0x2000, register \<open>r\<close> holding 3 r, the same word everywhere
  in memory.\<close>

definition sample_state :: "u32 \<Rightarrow> u32 \<Rightarrow> nios" where
  "sample_state st w = \<lparr>gpr = (\<lambda>r. if r = sp then 0x2000 else of_nat (3 * r)), word_at = (\<lambda>_. w),
     ctl = (\<lambda>n. if n = STATUS then st else 1), pc = 0x1000\<rparr>"

lemma sample_simps:
  "aligned (gpr (sample_state st w) sp)" "\<not> in_frame (sample_state st w) 0x1000"
  "ctl (sample_state st w) STATUS = st" "ctl (sample_state st w) IPENDING = 1" "pc (sample_state st w) = 0x1000"
  "rd (sample_state st w) 2 = 6" "rd (sample_state st w) 3 = 9" "word_at (sample_state st w) a = w"
  by (simp_all add: sample_state_def in_frame_def nios)

theorem interrupt_transparent_witness:
  "\<exists>s'. handle_exception False (\<lambda>f u. Some (u\<lparr>gpr := (gpr u)(2 := 0, 15 := 8, ra := 7)\<rparr>)) (sample_state 1 0) = Some s' \<and>
    pc s' = 0x1000 \<and> rd s' 2 = 6"
proof -
  define fn :: "exc_fn \<Rightarrow> nios \<Rightarrow> nios option" where "fn = (\<lambda>f u. Some (u\<lparr>gpr := (gpr u)(2 := 0, 15 := 8, ra := 7)\<rparr>))"
  have "keeps_convention fn alt_irq_handler_fn" "\<forall>u. fn alt_irq_handler_fn u \<noteq> None"
    by (auto simp: keeps_convention_def fn_def)
  from interrupt_transparent [OF _ _ _ this, of "sample_state 1 0" False]
  show ?thesis unfolding fn_def [symmetric] by (auto simp: sample_simps)
qed

text \<open>The C function that the entry calls: its result is in register 2, and the exception return address
  is still in its register, as no other exception comes between.\<close>

definition entry_implemented :: "(int \<Rightarrow> u32 \<Rightarrow> u32 \<Rightarrow> int) \<Rightarrow> (exc_fn \<Rightarrow> nios \<Rightarrow> nios option) \<Rightarrow> bool" where
  "entry_implemented h fn \<longleftrightarrow>
     (\<forall>u. \<exists>t. fn alt_instruction_exception_entry_fn u = Some t \<and> gpr t ea = gpr u ea \<and>
        Handled (sint (gpr t 2)) = alt_instruction_exception_entry (Some h) (gpr u 4))"

text \<open>C31. An exception that is no interrupt goes to the registered handler with the address of its
  instruction, and the handler's result decides where the program continues: 0 at the same
  instruction, anything else behind it. Everything else is as before.\<close>
theorem exception_serviced:
  assumes "aligned (gpr s sp)" "aligned (pc s)" "\<not> in_frame s (pc s)" "ctl s STATUS AND 1 = 0 \<or> ctl s IPENDING = 0"
    and "keeps_convention fn alt_instruction_exception_entry_fn" "entry_implemented h fn"
  shows "\<exists>s'. handle_exception False fn s = Some s' \<and> ctl s' STATUS = ctl s STATUS \<and>
    pc s' = (if h NIOS2_EXCEPTION_CAUSE_NOT_PRESENT (pc s) 0 = 0 then pc s else pc s + 4) \<and>
    (\<forall>r < 32. r \<notin> {ea, ba} \<longrightarrow> rd s' r = rd s r)"
proof -
  obtain t where t: "run (exc_code False) fn alt_exception (take_exception s) = run (exc_code False) fn soft t"
    "handler_frame s t" "word_at t (gpr s sp - 4) = pc s + 4" "\<forall>a. \<not> in_frame s a \<longrightarrow> word_at t a = word_at s a"
    "\<forall>r. r \<notin> {2, 4, 5, 15, sp, ea} \<longrightarrow> gpr t r = gpr s r" "gpr t 2 = word_at s (pc s)" "gpr t ea = pc s + 4"
    "ctl t = (ctl s)(ESTATUS := ctl s STATUS, STATUS := ctl s STATUS AND NOT 3)"
    by (rule to_soft [OF assms(1,4,2,3), where em = False and fn = fn])
  define u where "u = t\<lparr>gpr := (gpr t)(4 := pc s)\<rparr>"
  obtain v where v: "fn alt_instruction_exception_entry_fn u = Some v" "gpr v ea = gpr u ea"
    "Handled (sint (gpr v 2)) = alt_instruction_exception_entry (Some h) (gpr u 4)"
    using assms(6) unfolding entry_implemented_def by blast
  then have r2: "sint (gpr v 2) = h NIOS2_EXCEPTION_CAUSE_NOT_PRESENT (pc s) 0"
    by (simp add: alt_instruction_exception_entry_def u_def)
  then have r2': "gpr v 2 = 0 \<longleftrightarrow> h NIOS2_EXCEPTION_CAUSE_NOT_PRESENT (pc s) 0 = 0"
    by (metis signed_0 signed_eq_0_iff)
  have fu: "handler_frame s u" using t(2) by (simp add: u_def handler_frame_def)
  note k = call_keeps_frame [OF fu assms(5) v(1)]
  define a where "a = (if gpr v 2 = 0 then pc s else pc s + 4)"
  define x where "x = (if gpr v 2 = 0 then v\<lparr>gpr := (gpr v)(15 := pc s), word_at := (word_at v)(gpr s sp - 4 := pc s)\<rparr> else v)"
  have p: "gpr v sp = gpr s sp - 76" using k(1) by (simp add: handler_frame_def)
  have "block fn (exc_code False unknown) t = Some (Goto Lexception_exit, x)"
    using t(7) v(1,2) p assms(1) by (simp add: unknown_code_def nios u_def x_def)
  then have 1: "run (exc_code False) fn unknown t = run (exc_code False) fn Lexception_exit x" by (rule run_goto)
  have 0: "run (exc_code False) fn soft t = run (exc_code False) fn unknown t" by (rule run_goto) simp
  have fx: "handler_frame s x" using k(1) by (simp add: x_def handler_frame_def caller_saved_def slots)
  have "word_at x (gpr s sp - 4) = a" using k(2) t(3) by (simp add: x_def a_def u_def)
  then obtain e where e: "run (exc_code False) fn Lexception_exit x = Some (Exception_return, e)"
    "word_at e = word_at x" "ctl e = (ctl x)(ESTATUS := ctl s STATUS)"
    "gpr e ea = a" "gpr e sp = gpr s sp" "\<forall>r \<in> set caller_saved. gpr e r = gpr s r"
    "\<forall>r. r \<notin> set caller_saved \<union> {sp, ea} \<longrightarrow> gpr e r = gpr x r"
    by (rule exit_block [OF fx assms(1), where em = False and fn = fn])
  have "handle_exception False fn s = Some (return_exception e)"
    by (simp add: handle_exception_def t(1) 0 1 e(1))
  moreover have "rd (return_exception e) r = rd s r" if "r < 32" "r \<notin> {ea, ba}" for r
  proof (cases "r \<in> set caller_saved \<union> {sp}")
    case True
    then show ?thesis using e(5,6) by (auto simp: rd_def return_exception_def)
  next
    case False
    then have "r = 0 \<or> r \<in> {16..28} - {sp}" using that by (simp add: caller_saved_def; arith)
    moreover have "r \<noteq> 15" "r \<notin> {2, 4, 5, 15, sp, ea}" if "r \<in> {16..28} - {sp}" using that by auto
    ultimately show ?thesis using False that e(7) k(4) [of r] t(5) by (auto simp: rd_def return_exception_def u_def x_def)
  qed
  ultimately show ?thesis using e r2' by (intro exI [of _ "return_exception e"]) (simp add: return_exception_def nios a_def)
qed

theorem exception_serviced_witness:
  "\<exists>s'. handle_exception False (\<lambda>f u. Some (u\<lparr>gpr := (gpr u)(2 := 1, 3 := 5)\<rparr>)) (sample_state 0 0) = Some s' \<and>
    pc s' = 0x1004 \<and> rd s' 3 = 9"
proof -
  define fn :: "exc_fn \<Rightarrow> nios \<Rightarrow> nios option" where "fn = (\<lambda>f u. Some (u\<lparr>gpr := (gpr u)(2 := 1, 3 := 5)\<rparr>))"
  have "keeps_convention fn alt_instruction_exception_entry_fn" "entry_implemented (\<lambda>_ _ _. 1) fn"
    by (auto simp: keeps_convention_def entry_implemented_def alt_instruction_exception_entry_def fn_def)
  from exception_serviced [OF _ _ _ _ this, of "sample_state 0 0"]
  show ?thesis unfolding fn_def [symmetric] by (auto simp: sample_simps)
qed

end
