(* ===== verification/Emulation.thy ===== *)
theory Emulation
  imports Muldiv_Results Exception_Frame
begin

text \<open>
  The emulation of an instruction as a whole: the registers on the stack, and the way from the
  exception to the instruction behind the one that was emulated. The theorem says that a processor
  without the instruction and with this handler behaves as one that has it.
\<close>

section \<open>Saving everything\<close>

text \<open>When the emulation takes over, every register but the exceptional ones is on the stack.\<close>

definition all_saved :: "nat list" where
  "all_saved = [0, 16, 17, 18, 19, 20, 21, 22, 23, gp, fp] @ caller_saved"

definition emulating :: "nios \<Rightarrow> nios \<Rightarrow> bool" where
  "emulating s t \<longleftrightarrow>
     gpr t sp = gpr s sp - 136 \<and> (\<forall>r \<in> {et, bt, gp, ba}. gpr t r = gpr s r) \<and>
     (\<forall>r \<in> set all_saved. word_at t (saved_at s r) = rd s r) \<and>
     word_at t (gpr s sp - 8) = ctl s STATUS \<and> word_at t (gpr s sp - 4) = pc s + 4 \<and>
     (\<forall>a. \<not> in_frame s a \<longrightarrow> word_at t a = word_at s a)"

lemma to_operands:
  assumes "aligned (gpr s sp)" "ctl s STATUS AND 1 = 0 \<or> ctl s IPENDING = 0" "aligned (pc s)" "\<not> in_frame s (pc s)"
  defines "w \<equiv> word_at s (pc s)"
  obtains t where "run (exc_code True) fn alt_exception (take_exception s) = run (exc_code True) fn operands t"
    "emulating s t" "gpr t ea = pc s + 4" "ctl t = (ctl s)(ESTATUS := ctl s STATUS, STATUS := ctl s STATUS AND NOT 3)"
    "gpr t 3 = slot (field_A w)" "gpr t 4 = field_IMM w" "gpr t 5 = field_OP w" "gpr t 6 = slot (field_B w)" "gpr t 7 = slot (field_C w)"
proof -
  obtain t where t: "run (exc_code True) fn alt_exception (take_exception s) = run (exc_code True) fn soft t"
    "handler_frame s t" "word_at t (gpr s sp - 4) = pc s + 4" "\<forall>a. \<not> in_frame s a \<longrightarrow> word_at t a = word_at s a"
    "\<forall>r. r \<notin> {2, 4, 5, 15, sp, ea} \<longrightarrow> gpr t r = gpr s r" "gpr t 2 = word_at s (pc s)" "gpr t ea = pc s + 4"
    "ctl t = (ctl s)(ESTATUS := ctl s STATUS, STATUS := ctl s STATUS AND NOT 3)"
    by (rule to_soft [OF assms(1-4), where em = True and fn = fn])
  define g where "g = (gpr t)(4 := field_IMM w, 5 := field_OP w, 3 := slot (field_A w), 6 := slot (field_B w),
    7 := slot (field_C w), sp := gpr s sp - 136)"
  define m where "m = (word_at t)(gpr s sp - 72 := 0, gpr s sp - 136 := gpr s 16, gpr s sp - 132 := gpr s 17,
    gpr s sp - 128 := gpr s 18, gpr s sp - 124 := gpr s 19, gpr s sp - 120 := gpr s 20, gpr s sp - 116 := gpr s 21,
    gpr s sp - 112 := gpr s 22, gpr s sp - 108 := gpr s 23, gpr s sp - 96 := gpr s gp, gpr s sp - 92 := gpr s sp - 136,
    gpr s sp - 88 := gpr s fp)"
  have p: "gpr t sp = gpr s sp - 76" using t(2) by (simp add: handler_frame_def)
  have r: "gpr t 2 = w" "gpr t 16 = gpr s 16" "gpr t 17 = gpr s 17" "gpr t 18 = gpr s 18" "gpr t 19 = gpr s 19" "gpr t 20 = gpr s 20"
    "gpr t 21 = gpr s 21" "gpr t 22 = gpr s 22" "gpr t 23 = gpr s 23" "gpr t gp = gpr s gp" "gpr t fp = gpr s fp"
    using t(5,6) by (simp_all add: w_def)
  have "block fn (exc_code True soft) t = Some (Goto operands, t\<lparr>gpr := g, word_at := m\<rparr>)"
    by (simp add: soft_code_def muldiv_fields_code_def muldiv_save_code_def nios p r assms(1) g_def m_def
       field_A_offset field_B_offset field_C_offset field_IMM_shift flip: field_OP_def)
  then have 1: "run (exc_code True) fn soft t = run (exc_code True) fn operands (t\<lparr>gpr := g, word_at := m\<rparr>)" by (rule run_goto)
  have "emulating s (t\<lparr>gpr := g, word_at := m\<rparr>)"
    unfolding emulating_def
  proof (intro conjI)
    have "\<forall>r \<in> set caller_saved. m (saved_at s r) = gpr s r" "m (gpr s sp - 8) = ctl s STATUS" "m (gpr s sp - 4) = pc s + 4"
      using t(2,3) by (simp_all add: m_def handler_frame_def caller_saved_def slots)
    then show "\<forall>r \<in> set all_saved. word_at (t\<lparr>gpr := g, word_at := m\<rparr>) (saved_at s r) = rd s r"
      "word_at (t\<lparr>gpr := g, word_at := m\<rparr>) (gpr s sp - 8) = ctl s STATUS"
      "word_at (t\<lparr>gpr := g, word_at := m\<rparr>) (gpr s sp - 4) = pc s + 4"
      by (simp_all add: all_saved_def m_def slots rd_def ball_Un) (simp add: caller_saved_def)?
    show "\<forall>a. \<not> in_frame s a \<longrightarrow> word_at (t\<lparr>gpr := g, word_at := m\<rparr>) a = word_at s a"
      using t(4) by (simp add: m_def not_in_frame)
  qed (use t(5) in \<open>simp_all add: g_def\<close>)
  then show ?thesis by (rule that [rotated]) (use t 1 in \<open>simp_all add: g_def\<close>)
qed

section \<open>Storing the result\<close>

lemma slot_inj: "r < 32 \<Longrightarrow> q < 32 \<Longrightarrow> slot (of_nat r) = slot (of_nat q) \<Longrightarrow> r = q"
proof -
  have "distinct (map (\<lambda>r. slot (of_nat r)) [0..<32])" by code_simp
  then have "inj_on (\<lambda>r. slot (of_nat r)) {0..<32}" by (simp add: distinct_map)
  then show "r < 32 \<Longrightarrow> q < 32 \<Longrightarrow> slot (of_nat r) = slot (of_nat q) \<Longrightarrow> r = q" by (auto simp: inj_on_def)
qed

lemma slot_aligned: "aligned (slot r)"
  unfolding aligned_def
proof (rule bit_word_eqI)
  fix n assume "n < LENGTH(32)"
  from below_32 [OF this] show "bit (slot r AND 3) n = bit 0 n" by (auto simp: slot_def bit_simps)
qed

lemma all_saved_less: "r \<in> set all_saved \<Longrightarrow> r < 32"
  by (auto simp: all_saved_def caller_saved_def)

lemma store_block:
  assumes "emulating s t" "aligned (gpr s sp)" "gpr t 7 = slot (of_nat c)" "gpr t 9 = v" "c \<in> set all_saved" "c \<noteq> gp"
  defines "s' \<equiv> wr c v s"
  obtains u where "run (exc_code True) fn Lstore_result t = run (exc_code True) fn Lexception_exit u"
    "handler_frame s' u" "word_at u (gpr s sp - 4) = pc s + 4" "\<forall>a. \<not> in_frame s a \<longrightarrow> word_at u a = word_at s a"
    "\<forall>r \<in> {16, 17, 18, 19, 20, 21, 22, 23, fp}. gpr u r = gpr s' r" "\<forall>r \<in> {et, bt, gp, ba}. gpr u r = gpr s r" "ctl u = ctl t"
proof -
  define m where "m = (word_at t)(saved_at s c := v)"
  have al: "aligned (slot (of_nat c) + (gpr s sp - 136))" using assms(2) by (simp add: slot_aligned aligned_add)
  have look: "m (saved_at s r) = (if r = c then v else rd s r)" if "r \<in> set all_saved" for r
  proof -
    have "saved_at s r = saved_at s c \<longleftrightarrow> r = c"
      using that assms(5) by (auto simp: saved_at_def dest: slot_inj all_saved_less)
    then show ?thesis using assms(1) that by (simp add: m_def emulating_def)
  qed
  have s': "gpr s' r = (if r = c then v else gpr s r)" if "r \<noteq> 0" for r using that by (simp add: s'_def wr_def)
  have "\<forall>r \<in> set all_saved. r \<noteq> 0 \<longrightarrow> m (saved_at s r) = gpr s' r" using look s' by (simp add: rd_def)
  then have l: "m (gpr s sp - 136) = gpr s' 16" "m (gpr s sp - 132) = gpr s' 17" "m (gpr s sp - 128) = gpr s' 18"
    "m (gpr s sp - 124) = gpr s' 19" "m (gpr s sp - 120) = gpr s' 20" "m (gpr s sp - 116) = gpr s' 21"
    "m (gpr s sp - 112) = gpr s' 22" "m (gpr s sp - 108) = gpr s' 23" "m (gpr s sp - 88) = gpr s' 28"
    by (simp_all add: all_saved_def slots)
  have p: "gpr t sp = gpr s sp - 136" using assms(1) by (simp add: emulating_def)
  define g where "g = (gpr t)(7 := saved_at s c, 16 := gpr s' 16, 17 := gpr s' 17, 18 := gpr s' 18, 19 := gpr s' 19, 20 := gpr s' 20,
    21 := gpr s' 21, 22 := gpr s' 22, 23 := gpr s' 23, fp := gpr s' fp, sp := gpr s sp - 76)"
  have sc: "slot (of_nat c) + (gpr s sp - 136) = saved_at s c" by (simp add: saved_at_def)
  have "block fn (exc_code True Lstore_result) t = Some (Goto Lexception_exit, t\<lparr>gpr := g, word_at := m\<rparr>)"
    using assms(2-4) l al by (simp add: store_result_code_def nios p sc m_def [symmetric] g_def)
  then have 1: "run (exc_code True) fn Lstore_result t = run (exc_code True) fn Lexception_exit (t\<lparr>gpr := g, word_at := m\<rparr>)"
    by (rule run_goto)
  have cs: "c \<notin> {et, bt, sp, ea, ba}" using assms(5,6) by (auto simp: all_saved_def caller_saved_def)
  have sp': "gpr s' sp = gpr s sp" "saved_at s' = saved_at s" using s' cs by (simp_all add: saved_at_def fun_eq_iff)
  have sc_frame: "in_frame s (saved_at s c)"
    using assms(5) by (auto simp: all_saved_def caller_saved_def slots in_frame_def)
  have far: "gpr s sp - 8 \<noteq> saved_at s c" "gpr s sp - 4 \<noteq> saved_at s c"
    using assms(5) by (auto simp: all_saved_def caller_saved_def slots)
  show ?thesis
  proof (rule that [OF 1])
    show "handler_frame s' (t\<lparr>gpr := g, word_at := m\<rparr>)"
      unfolding handler_frame_def sp'
    proof (intro conjI ballI)
      fix r assume r: "r \<in> set caller_saved"
      then have "r \<in> set all_saved" "r \<noteq> 0" by (auto simp: all_saved_def caller_saved_def)
      then show "word_at (t\<lparr>gpr := g, word_at := m\<rparr>) (saved_at s r) = gpr s' r" using look s' by (simp add: rd_def)
    qed (use far assms(1) in \<open>simp_all add: g_def m_def emulating_def s'_def wr_def\<close>)
    show "word_at (t\<lparr>gpr := g, word_at := m\<rparr>) (gpr s sp - 4) = pc s + 4"
      using far assms(1) by (simp add: m_def emulating_def)
    show "\<forall>a. \<not> in_frame s a \<longrightarrow> word_at (t\<lparr>gpr := g, word_at := m\<rparr>) a = word_at s a"
      using assms(1) sc_frame by (auto simp: m_def emulating_def)
    show "\<forall>r \<in> {16, 17, 18, 19, 20, 21, 22, 23, fp}. gpr (t\<lparr>gpr := g, word_at := m\<rparr>) r = gpr s' r" by (simp add: g_def)
    show "\<forall>r \<in> {et, bt, gp, ba}. gpr (t\<lparr>gpr := g, word_at := m\<rparr>) r = gpr s r" using assms(1) by (simp add: g_def emulating_def)
  qed simp
qed

section \<open>The emulated instruction\<close>

text \<open>The instructions as a processor that has them would perform them.\<close>

definition operation :: "u32 \<Rightarrow> muldiv option" where
  "operation w =
     (if field_OP w = 0x24 then Some mul
      else if field_OP w = 0x3a then find (\<lambda>i. OPX i = field_OPX w) [divu, div_signed, mul, mulxuu, mulxsu, mulxss]
      else None)"

definition first_operand :: "u32 \<Rightarrow> nios \<Rightarrow> u32" where
  "first_operand w s = rd s (unat (field_A w))"

definition second_operand :: "u32 \<Rightarrow> nios \<Rightarrow> u32" where
  "second_operand w s = (if field_OP w = 0x24 then field_IMM w else rd s (unat (field_B w)))"

definition destination :: "u32 \<Rightarrow> nat" where
  "destination w = unat (if field_OP w = 0x24 then field_B w else field_C w)"

definition perform :: "muldiv \<Rightarrow> u32 \<Rightarrow> nios \<Rightarrow> nios" where
  "perform i w s = (wr (destination w) (muldiv_result i (first_operand w s) (second_operand w s)) s)\<lparr>pc := pc s + 4\<rparr>"

lemma operation_OPX: "operation w = Some i \<Longrightarrow> field_OP w = 0x3a \<Longrightarrow> field_OPX w = OPX i"
  by (auto simp: operation_def find_Some_iff split: if_splits)

text \<open>The choice of the routine, with the operands loaded.\<close>

lemma choose_block:
  assumes "emulating s t" "aligned (gpr s sp)" "operation w = Some i"
    and "unat (field_A w) \<in> set all_saved" "field_OP w = 0x24 \<or> unat (field_B w) \<in> set all_saved"
    and "gpr t 3 = slot (field_A w)" "gpr t 4 = field_IMM w" "gpr t 5 = field_OP w" "gpr t 6 = slot (field_B w)" "gpr t 7 = slot (field_C w)"
  obtains u where "run (exc_code True) fn operands t = run (exc_code True) fn (if is_division i then Ldivide else Lmultiply) u"
    "same_but {3, 4, 6, 7, 8, 14, 15} t u" "gpr u 3 = first_operand w s" "gpr u 6 = second_operand w s"
    "gpr u 14 = 32" "gpr u 4 = OPX i" "gpr u 7 = slot (of_nat (destination w))"
proof -
  have p: "gpr t sp = gpr s sp - 136" using assms(1) by (simp add: emulating_def)
  have al: "aligned (slot x + (gpr s sp - 136))" for x using assms(2) by (simp add: slot_aligned aligned_add)
  have ld: "word_at t (slot x + (gpr s sp - 136)) = rd s (unat x)" if "unat x \<in> set all_saved" for x
  proof -
    have "slot x + (gpr s sp - 136) = saved_at s (unat x)" by (simp add: saved_at_def)
    then show ?thesis using assms(1) that by (simp add: emulating_def)
  qed
  define Q where "Q u \<longleftrightarrow> same_but {3, 4, 6, 7, 8, 14, 15} t u \<and> gpr u 3 = first_operand w s \<and> gpr u 6 = second_operand w s \<and>
    gpr u 14 = 32 \<and> gpr u 4 = OPX i \<and> gpr u 7 = slot (of_nat (destination w))" for u
  have "reaches (exc_code True) fn operands t (if is_division i then Ldivide else Lmultiply) Q"
  proof (cases "field_OP w = 0x24")
    case True
    then have i: "i = mul" using assms(3) by (simp add: operation_def)
    have im: "reaches (exc_code True) fn Lmul_immed u Lmultiply Q"
      if "same_but {3, 14, 15} t u" "gpr u 3 = first_operand w s" "gpr u 14 = 32" for u
    proof (rule reaches_step)
      have u: "gpr u 6 = slot (field_B w)" "gpr u 4 = field_IMM w" using that(1) assms(7,9) by (simp_all add: same_but_def)
      show "case block fn (exc_code True Lmul_immed) u of Some (Goto k, t) \<Rightarrow> reaches (exc_code True) fn k t Lmultiply Q | _ \<Rightarrow> False"
        using that u
        by (simp add: nios, intro reaches_here) (simp add: Q_def same_but_def second_operand_def destination_def True i)
    qed
    show ?thesis
      by (rule reaches_step)
        (simp add: muldiv_choose_code_def nios p assms(6-10) al ld assms(4) True i is_division_def im same_but_def first_operand_def)
  next
    case False
    then have o1: "field_OP w = 0x3a" using assms(3) by (simp add: operation_def split: if_splits)
    note o = o1 operation_OPX [OF assms(3) o1]
    show ?thesis
    proof (rule reaches_step)
      have B: "unat (field_B w) \<in> set all_saved" using assms(5) False by blast
      have l: "word_at t (slot (field_A w) + (gpr s sp - 136)) = first_operand w s"
        "word_at t (slot (field_B w) + (gpr s sp - 136)) = second_operand w s"
        using ld assms(4) B False by (simp_all add: first_operand_def second_operand_def)
      obtain u where "block fn (exc_code True operands) t = Some (Goto (if is_division i then Ldivide else Lmultiply), u)" "Q u"
        using assms(10) False
        by (cases i) (simp_all add: muldiv_choose_code_def nios p assms(6-9) al l o field_OPX_shift is_division_def
          Q_def same_but_def destination_def)
      then show "case block fn (exc_code True operands) t of Some (Goto k, t) \<Rightarrow>
          reaches (exc_code True) fn k t (if is_division i then Ldivide else Lmultiply) Q | _ \<Rightarrow> False"
        by (simp add: reaches_here)
    qed
  qed
  then show ?thesis using that unfolding reaches_def Q_def by blast
qed

text \<open>The operation itself keeps what is on the stack.\<close>

lemma emulating_same: "emulating s t \<Longrightarrow> same_but R t u \<Longrightarrow> R \<inter> {sp, et, bt, gp, ba} = {} \<Longrightarrow> emulating s u"
  by (auto simp: emulating_def same_but_def)

lemma operate:
  assumes "gpr t 3 = a" "gpr t 6 = b" "gpr t 14 = 32" "gpr t 4 = OPX i" "is_division i \<longrightarrow> b \<noteq> 0"
  obtains u where "run (exc_code em) fn (if is_division i then Ldivide else Lmultiply) t = run (exc_code em) fn Lstore_result u"
    "gpr u 9 = muldiv_result i a b" "same_but {3, 6, 9, 10, 11, 12, 13, 14, 15, 16, 17} t u"
proof (cases "is_division i")
  case True
  then obtain u where "run (exc_code em) fn Ldivide t = run (exc_code em) fn Lstore_result u"
    "gpr u 9 = muldiv_result i a b" "same_but {3, 6, 9, 13, 14, 15, 17} t u"
    using divide_emulated [of t a b i em fn] assms by blast
  then show ?thesis using True that same_but_mono by auto
next
  case False
  then obtain u where "run (exc_code em) fn Lmultiply t = run (exc_code em) fn Lstore_result u"
    "gpr u 9 = muldiv_result i a b" "same_but {6, 9, 10, 11, 12, 14, 15, 16} t u"
    using multiply_emulated [of t a b i em fn] assms by blast
  then show ?thesis using False that same_but_mono by auto
qed

text \<open>C15. The handler for unimplemented instructions is the instruction: when a multiply or divide instruction
  traps, the program continues behind it with the destination register holding what the instruction
  would have computed - the product's lower half, the upper half in each of the three signs, or the
  quotient, signed or not - and every other register, the status register and the memory outside the
  handler's 136 bytes of stack as they were. The operands may be all registers but those of exceptions
  and debugging and the stack pointer; the divisor is not zero.\<close>
theorem instruction_emulated:
  fixes s :: nios
  defines "w \<equiv> word_at s (pc s)"
  assumes "operation w = Some i" "aligned (gpr s sp)" "aligned (pc s)" "\<not> in_frame s (pc s)"
    and "ctl s STATUS AND 1 = 0 \<or> ctl s IPENDING = 0"
    and "unat (field_A w) \<in> set all_saved" "unat (field_B w) \<in> set all_saved"
    and "destination w \<in> set all_saved - {gp}" "is_division i \<longrightarrow> second_operand w s \<noteq> 0"
  shows "\<exists>s'. handle_exception True fn s = Some s' \<and> pc s' = pc (perform i w s) \<and> ctl s' STATUS = ctl s STATUS \<and>
    (\<forall>r < 32. r \<noteq> ea \<longrightarrow> rd s' r = rd (perform i w s) r) \<and> (\<forall>a. \<not> in_frame s a \<longrightarrow> word_at s' a = word_at s a)"
proof -
  obtain t where t: "run (exc_code True) fn alt_exception (take_exception s) = run (exc_code True) fn operands t"
    "emulating s t" "gpr t ea = pc s + 4" "ctl t = (ctl s)(ESTATUS := ctl s STATUS, STATUS := ctl s STATUS AND NOT 3)"
    "gpr t 3 = slot (field_A w)" "gpr t 4 = field_IMM w" "gpr t 5 = field_OP w" "gpr t 6 = slot (field_B w)" "gpr t 7 = slot (field_C w)"
    unfolding w_def by (rule to_operands [OF assms(3,6,4,5), where fn = fn])
  obtain u where u: "run (exc_code True) fn operands t = run (exc_code True) fn (if is_division i then Ldivide else Lmultiply) u"
    "same_but {3, 4, 6, 7, 8, 14, 15} t u" "gpr u 3 = first_operand w s" "gpr u 6 = second_operand w s"
    "gpr u 14 = 32" "gpr u 4 = OPX i" "gpr u 7 = slot (of_nat (destination w))"
    by (rule choose_block [OF t(2) assms(3,2,7) _ t(5-9), where fn = fn]) (use assms(8) in blast)+
  define v where "v = muldiv_result i (first_operand w s) (second_operand w s)"
  obtain x where x: "run (exc_code True) fn (if is_division i then Ldivide else Lmultiply) u = run (exc_code True) fn Lstore_result x"
    "gpr x 9 = v" "same_but {3, 6, 9, 10, 11, 12, 13, 14, 15, 16, 17} u x"
    unfolding v_def by (rule operate [OF u(3-6) assms(10), where em = True and fn = fn])
  have "emulating s u" by (rule emulating_same [OF t(2) u(2)]) simp
  then have ex: "emulating s x" by (rule emulating_same [OF _ x(3)]) simp
  have x7: "gpr x 7 = slot (of_nat (destination w))" using u(7) x(3) by (simp add: same_but_def)
  define s1 where "s1 = wr (destination w) v s"
  obtain y where y: "run (exc_code True) fn Lstore_result x = run (exc_code True) fn Lexception_exit y"
    "handler_frame s1 y" "word_at y (gpr s sp - 4) = pc s + 4" "\<forall>a. \<not> in_frame s a \<longrightarrow> word_at y a = word_at s a"
    "\<forall>r \<in> {16, 17, 18, 19, 20, 21, 22, 23, fp}. gpr y r = gpr s1 r" "\<forall>r \<in> {et, bt, gp, ba}. gpr y r = gpr s r" "ctl y = ctl x"
    unfolding s1_def by (rule store_block [OF ex assms(3) x7 x(2), where fn = fn]) (use assms(9) in blast)+
  have sp1: "gpr s1 sp = gpr s sp" "ctl s1 = ctl s" "gpr s1 gp = gpr s gp"
    "gpr s1 et = gpr s et" "gpr s1 bt = gpr s bt" "gpr s1 ba = gpr s ba"
    using assms(9) by (auto simp: s1_def wr_def all_saved_def caller_saved_def)
  have y4: "word_at y (gpr s1 sp - 4) = pc s + 4" "aligned (gpr s1 sp)" using y(3) sp1 assms(3) by simp_all
  obtain z where z: "run (exc_code True) fn Lexception_exit y = Some (Exception_return, z)"
    "word_at z = word_at y" "ctl z = (ctl y)(ESTATUS := ctl s1 STATUS)"
    "gpr z ea = pc s + 4" "gpr z sp = gpr s1 sp" "\<forall>r \<in> set caller_saved. gpr z r = gpr s1 r"
    "\<forall>r. r \<notin> set caller_saved \<union> {sp, ea} \<longrightarrow> gpr z r = gpr y r"
    by (rule exit_block [OF y(2) y4(2,1), where em = True and fn = fn])
  have "handle_exception True fn s = Some (return_exception z)"
    by (simp only: handle_exception_def t(1) u(1) x(1) y(1) z(1)) simp
  moreover have "rd (return_exception z) r = rd (perform i w s) r" if "r < 32" "r \<noteq> ea" for r
  proof -
    have g: "gpr z r = gpr s1 r" if "r \<noteq> 0"
    proof (cases "r \<in> set caller_saved \<union> {sp}")
      case True
      then show ?thesis using z(5,6) by blast
    next
      case False
      then have "r \<in> {16, 17, 18, 19, 20, 21, 22, 23, fp} \<union> {et, bt, gp, ba}"
        using \<open>r < 32\<close> \<open>r \<noteq> ea\<close> \<open>r \<noteq> 0\<close> by (simp add: caller_saved_def; arith)
      then show ?thesis using False \<open>r \<noteq> ea\<close> z(7) y(5,6) sp1 by auto
    qed
    then show ?thesis by (simp add: rd_def return_exception_def perform_def s1_def v_def)
  qed
  moreover have "pc (return_exception z) = pc (perform i w s)" by (simp add: return_exception_def z(4) perform_def)
  moreover have "ctl (return_exception z) STATUS = ctl s STATUS" by (simp add: return_exception_def z(3) sp1 nios)
  moreover have "\<forall>a. \<not> in_frame s a \<longrightarrow> word_at (return_exception z) a = word_at s a"
    using y(4) by (simp add: return_exception_def z(2))
  ultimately show ?thesis by blast
qed

text \<open>mul r2, r3, r5, of 9 and 15.\<close>

theorem instruction_emulated_witness:
  "\<exists>s'. handle_exception True (\<lambda>_ _. None) (sample_state 0 0x1945383A) = Some s' \<and> pc s' = 0x1004 \<and> rd s' 2 = 135"
proof -
  define w :: u32 where "w = 0x1945383A"
  have w: "operation w = Some mul" "unat (field_A w) = 3" "unat (field_B w) = 5" "destination w = 2" "field_OP w = 0x3a"
    unfolding w_def by code_simp+
  have rs: "{3, 5, 2} \<subseteq> set all_saved - {gp}" by (simp add: all_saved_def caller_saved_def)
  have "rd (perform mul w (sample_state 0 w)) 2 = 135" "pc (perform mul w (sample_state 0 w)) = 0x1004"
    using w by (simp_all add: perform_def first_operand_def second_operand_def sample_state_def nios)
  then show ?thesis
    using instruction_emulated [of "sample_state 0 w" mul "\<lambda>_ _. None"] w rs
    unfolding w_def [symmetric] by (auto simp: sample_simps is_division_def)
qed

text \<open>What the emulation cannot do: an operand that is the stack pointer is read as the handler's own, 136 bytes
  below, since the emulation stores that in the register's place.\<close>

lemma sp_operand:
  assumes "aligned (gpr t sp)" "block fn (exc_code True soft) t = Some (e, u)"
  shows "gpr u sp = gpr t sp - 60" "word_at u (gpr u sp + slot 27) = gpr t sp - 60"
  using assms by (auto simp: soft_code_def muldiv_fields_code_def muldiv_save_code_def nios slot_def)

end
