(* ===== verification/Crt0.thy ===== *)
theory Crt0
  imports Nios2 Hal_Cache
begin

text \<open>
  From reset to the C program: crt0.S, instruction by instruction, with the section loading of alt_load.c
  that it calls. The configuration is that of system.h, linker.h and public.mk: no caches, no shadow
  register sets, no stack check, the log off, and initialised data copied from its load address. The
  theorem says what the program finds in memory when alt_main is called, for the layout of linker.x.
\<close>

section \<open>The code\<close>

text \<open>The symbols of the linker script: the values crt0 refers to, and the three sections of alt_load.\<close>

record linker =
  start_address :: u32
  alt_stack_pointer :: u32
  gp_value :: u32
  bss_start :: u32
  bss_end :: u32
  flash_rwdata_start :: u32
  ram_rwdata_start :: u32
  ram_rwdata_end :: u32
  ram_exceptions :: "u32 \<times> u32"
  ram_rodata :: "u32 \<times> u32"

text \<open>The labels; the numeric ones of the loop are \<open>bss_loop\<close> and \<open>bss_done\<close>, and \<open>main_call\<close>
  is the point at which alt_main is called.\<close>

datatype crt_label = reset | start | bss_loop | bss_done | main_call | alt_after_alt_main

datatype crt_fn = alt_load_fn | alt_main_fn

type_synonym crt_instr = "(crt_label, crt_fn) instr"

text \<open>The halves of a value, as movhi and ori take them. The jump through r1 goes to the label whose
  address it holds.\<close>

definition hi :: "u32 \<Rightarrow> u32" where "hi x = x AND 0xffff0000"
definition lo :: "u32 \<Rightarrow> u32" where "lo x = x AND 0xffff"

definition load_value :: "nat \<Rightarrow> u32 \<Rightarrow> crt_instr list" where
  "load_value r x = [Movi r (hi x), Ori r r (lo x)]"

fun crt_code :: "linker \<Rightarrow> crt_label \<Rightarrow> crt_instr list" where
  "crt_code L reset = load_value 1 (start_address L) @ [Br start]"
| "crt_code L start =
     load_value sp (alt_stack_pointer L) @ load_value gp (gp_value L) @
     load_value 2 (bss_start L) @ load_value 3 (bss_end L) @ [Beq 2 3 bss_done, Br bss_loop]"
| "crt_code L bss_loop = [Stw 0 0 2, Addi 2 2 4, Bltu 2 3 bss_loop, Br bss_done]"
| "crt_code L bss_done = [Call alt_load_fn, Br main_call]"
| "crt_code L main_call = [Call alt_main_fn, Br alt_after_alt_main]"
| "crt_code L alt_after_alt_main = [Br alt_after_alt_main]"

lemma hi_lo [simp]: "hi x OR lo x = x"
proof (rule bit_word_eqI)
  fix n assume "n < LENGTH(32)"
  then have "n \<in> {0..<32}" by simp
  moreover have "{0..<32} = set [0..<32]" by simp
  moreover have "[0..<32] = [0,1,2,3,4,5,6,7,8,9,10,11,12,13,14,15,16,17,18,19,20,21,22,23,24,25,26,27,28,29,30,31::nat]"
    by (simp add: upt_rec)
  ultimately have "n \<in> set [0,1,2,3,4,5,6,7,8,9,10,11,12,13,14,15,16,17,18,19,20,21,22,23,24,25,26,27,28,29,30,31::nat]" by metis
  then show "bit (hi x OR lo x) n = bit x n" by (auto simp: hi_def lo_def bit_simps)
qed

text \<open>Code that never ends is followed from label to label.\<close>

inductive comes_to ::
  "('l \<Rightarrow> ('l, 'f) instr list) \<Rightarrow> ('f \<Rightarrow> nios \<Rightarrow> nios option) \<Rightarrow> 'l \<Rightarrow> nios \<Rightarrow> 'l \<Rightarrow> nios \<Rightarrow> bool"
  for code fn where
  here: "comes_to code fn l s l s"
| jump: "block fn (code l) s = Some (Goto k, t) \<Longrightarrow> comes_to code fn k t l' u \<Longrightarrow> comes_to code fn l s l' u"

lemma comes_to_trans: "comes_to code fn l s k t \<Longrightarrow> comes_to code fn k t l' u \<Longrightarrow> comes_to code fn l s l' u"
  by (induction rule: comes_to.induct) (auto intro: comes_to.intros)

lemma comes_to_jump: "block fn (code l) s = Some (Goto k, t) \<Longrightarrow> comes_to code fn l s k t"
  by (rule comes_to.jump) (auto intro: comes_to.here)

section \<open>Clearing the bss\<close>

lemma unat_of_nat32: "k < 2 ^ 32 \<Longrightarrow> unat (of_nat k :: u32) = k"
  by (simp add: unsigned_of_nat take_bit_nat_eq_self)

lemma unat_offset:
  fixes a :: u32
  assumes "unat a + 4 * j < 2 ^ 32"
  shows "unat (a + of_nat (4 * j)) = unat a + 4 * j"
proof -
  have "unat (of_nat (4 * j) :: u32) = 4 * j" by (rule unat_of_nat32) (use assms in simp)
  then show ?thesis using unat_add_small [of a "of_nat (4 * j)"] assms by (simp only:)
qed

definition cleared :: "u32 \<Rightarrow> nat \<Rightarrow> nios \<Rightarrow> nios \<Rightarrow> bool" where
  "cleared a m s t \<longleftrightarrow> (\<forall>r. r \<noteq> 2 \<longrightarrow> gpr t r = gpr s r) \<and>
     (\<forall>j < m. word_at t (a + of_nat (4 * j)) = 0) \<and>
     (\<forall>x. (\<forall>j < m. x \<noteq> a + of_nat (4 * j)) \<longrightarrow> word_at t x = word_at s x)"

lemma cleared_Suc:
  assumes "cleared (a + 4) m (s\<lparr>gpr := (gpr s)(2 := a + 4), word_at := (word_at s)(a := 0)\<rparr>) t" "4 * Suc m < 2 ^ 32"
  shows "cleared a (Suc m) s t"
proof -
  have shift: "a + 4 + of_nat (4 * j) = a + of_nat (4 * Suc j)" for j by simp
  have "word_at t (a + of_nat (4 * j)) = 0" if "j < Suc m" for j
  proof (cases j)
    case 0
    have "a \<noteq> a + 4 + of_nat (4 * i)" if "i < m" for i
    proof
      assume "a = a + 4 + of_nat (4 * i)"
      then have "(of_nat (4 * Suc i) :: u32) = 0" unfolding shift by (metis add_cancel_right_right)
      moreover have "unat (of_nat (4 * Suc i) :: u32) = 4 * Suc i"
        by (rule unat_of_nat32) (use that assms(2) in simp)
      ultimately show False by simp
    qed
    then show ?thesis using assms(1) 0 by (simp add: cleared_def)
  next
    case (Suc i)
    then have "word_at t (a + 4 + of_nat (4 * i)) = 0" using assms(1) that by (simp add: cleared_def)
    then show ?thesis unfolding shift Suc .
  qed
  moreover have "word_at t x = word_at s x" if "\<forall>j < Suc m. x \<noteq> a + of_nat (4 * j)" for x
  proof -
    have "\<forall>j < m. x \<noteq> a + 4 + of_nat (4 * j)" unfolding shift using that by blast
    moreover have "x \<noteq> a" using that [rule_format, of 0] by simp
    ultimately show ?thesis using assms(1) by (simp add: cleared_def)
  qed
  ultimately show ?thesis using assms(1) by (simp add: cleared_def)
qed

lemma clear_loop:
  assumes "gpr s 2 = a" "gpr s 3 = e" "aligned a" "unat e = unat a + 4 * Suc m"
  shows "\<exists>t. comes_to (crt_code L) fn bss_loop s bss_done t \<and> cleared a (Suc m) s t"
  using assms
proof (induction m arbitrary: s a)
  case 0
  define t where "t = s\<lparr>gpr := (gpr s)(2 := a + 4), word_at := (word_at s)(a := 0)\<rparr>"
  have "unat (a + 4) = unat e" using unat_add_small [of a 4] 0(4) u32_bound [of e] by simp
  then have e: "a + 4 = e" by (simp add: word_unat_eq_iff)
  then have "block fn (crt_code L bss_loop) s = Some (Goto bss_done, t)" using 0(1-3) by (simp add: nios t_def)
  moreover have "cleared a (Suc 0) s t" by (auto simp: cleared_def t_def)
  ultimately show ?case by (blast intro: comes_to_jump)
next
  case (Suc m)
  define t where "t = s\<lparr>gpr := (gpr s)(2 := a + 4), word_at := (word_at s)(a := 0)\<rparr>"
  have u: "unat (a + 4) = unat a + 4" using unat_add_small [of a 4] Suc.prems(4) u32_bound [of e] by simp
  then have "a + 4 < e" using Suc.prems(4) by (simp add: word_less_nat_alt)
  then have "block fn (crt_code L bss_loop) s = Some (Goto bss_loop, t)"
    using Suc.prems(1-3) by (simp add: nios t_def)
  moreover have "\<exists>v. comes_to (crt_code L) fn bss_loop t bss_done v \<and> cleared (a + 4) (Suc m) t v"
    by (rule Suc.IH) (use Suc.prems u in \<open>simp_all add: t_def\<close>)
  moreover have "4 * Suc (Suc m) < 2 ^ 32" using Suc.prems(4) u32_bound [of e] by simp
  ultimately show ?case using cleared_Suc unfolding t_def by (blast intro: comes_to.jump)
qed

section \<open>The image of the program\<close>

text \<open>The layout of linker.x, for initialised data of \<open>n\<close> words and a bss of \<open>m\<close>: the data's place,
  behind it the copy they are loaded with, behind that the bss.\<close>

definition linked :: "nat \<Rightarrow> nat \<Rightarrow> linker \<Rightarrow> bool" where
  "linked n m L \<longleftrightarrow> aligned (bss_start L) \<and> unat (ram_rwdata_end L) = unat (ram_rwdata_start L) + 4 * n \<and>
     flash_rwdata_start L = ram_rwdata_end L \<and> unat (bss_start L) = unat (flash_rwdata_start L) + 4 * n \<and>
     unat (bss_end L) = unat (bss_start L) + 4 * m"

text \<open>The \<open>k\<close> bytes of stack that a C function may use.\<close>

definition on_stack :: "nat \<Rightarrow> u32 \<Rightarrow> u32 \<Rightarrow> bool" where
  "on_stack k p a \<longleftrightarrow> unat p \<le> unat a + k \<and> unat a < unat p"

text \<open>The C function is the model of it, with the calling convention and a stack of its own. The
  other two sections are in place.\<close>

definition load_implemented :: "linker \<Rightarrow> nat \<Rightarrow> (crt_fn \<Rightarrow> nios \<Rightarrow> nios option) \<Rightarrow> bool" where
  "load_implemented L k fn \<longleftrightarrow>
     (\<forall>u mem d i. alt_load (flash_rwdata_start L, ram_rwdata_start L, ram_rwdata_end L)
          (fst (ram_exceptions L), ram_exceptions L) (fst (ram_rodata L), ram_rodata L) 0 0 0 0 (word_at u) = Some (mem, d, i) \<longrightarrow>
        (\<exists>v. fn alt_load_fn u = Some v \<and> gpr v sp = gpr u sp \<and> gpr v gp = gpr u gp \<and>
           (\<forall>a. \<not> on_stack k (gpr u sp) a \<longrightarrow> word_at v a = mem a)))"

text \<open>C7. The program finds its variables: from reset the processor comes to the call of alt_main, whatever
  memory and registers hold, with stack and global pointer set, every word of the bss zero, every
  initialised word holding what was loaded for it, and all other memory outside the stack as it was -
  although the bss is cleared before the data are copied.\<close>
theorem program_image:
  assumes "linked n m L" "load_implemented L k fn" "unat (bss_end L) + k \<le> unat (alt_stack_pointer L)"
  shows "\<exists>t. comes_to (crt_code L) fn reset s main_call t \<and>
    gpr t sp = alt_stack_pointer L \<and> gpr t gp = gp_value L \<and>
    (\<forall>j < n. word_at t (ram_rwdata_start L + of_nat (4 * j)) = word_at s (flash_rwdata_start L + of_nat (4 * j))) \<and>
    (\<forall>j < m. word_at t (bss_start L + of_nat (4 * j)) = 0) \<and>
    (\<forall>a. \<not> on_stack k (alt_stack_pointer L) a \<and> (\<forall>j < n. a \<noteq> ram_rwdata_start L + of_nat (4 * j)) \<and>
       (\<forall>j < m. a \<noteq> bss_start L + of_nat (4 * j)) \<longrightarrow> word_at t a = word_at s a)"
proof -
  have al: "aligned (bss_start L)" and re: "unat (ram_rwdata_end L) = unat (ram_rwdata_start L) + 4 * n"
    and fl: "flash_rwdata_start L = ram_rwdata_end L" and bs: "unat (bss_start L) = unat (flash_rwdata_start L) + 4 * n"
    and be: "unat (bss_end L) = unat (bss_start L) + 4 * m"
    using assms(1) by (simp_all only: linked_def)
  define s1 where "s1 = s\<lparr>gpr := (gpr s)(1 := start_address L)\<rparr>"
  define s2 where "s2 = s1\<lparr>gpr := (gpr s1)(sp := alt_stack_pointer L, gp := gp_value L, 2 := bss_start L, 3 := bss_end L)\<rparr>"
  have 1: "block fn (crt_code L reset) s = Some (Goto start, s1)"
    by (simp add: load_value_def nios s1_def)
  have 2: "block fn (crt_code L start) s1 = Some (Goto (if bss_start L = bss_end L then bss_done else bss_loop), s2)"
    by (simp add: load_value_def nios s2_def)
  obtain s3 where 3: "comes_to (crt_code L) fn start s1 bss_done s3" "cleared (bss_start L) m s2 s3"
  proof (cases m)
    case 0
    then have "bss_start L = bss_end L" using be by (simp add: word_unat_eq_iff)
    then show ?thesis using that [of s2] 2 0 by (simp add: comes_to_jump cleared_def)
  next
    case (Suc i)
    then have "bss_start L \<noteq> bss_end L" using be by (metis add_cancel_right_right mult_eq_0_iff nat.distinct(1) zero_neq_numeral)
    moreover obtain t where "comes_to (crt_code L) fn bss_loop s2 bss_done t" "cleared (bss_start L) m s2 t"
      using clear_loop [of s2 "bss_start L" "bss_end L" i L fn] al be Suc by (auto simp: s2_def)
    ultimately show ?thesis using that [of t] comes_to.jump [where code = "crt_code L", OF 2] by simp
  qed
  have g: "gpr s3 sp = alt_stack_pointer L" "gpr s3 gp = gp_value L"
    using 3(2) by (simp_all add: cleared_def s2_def)
  define A where "A = (\<lambda>j :: nat. ram_rwdata_start L + of_nat (4 * j))"
  define B where "B = (\<lambda>j :: nat. bss_start L + of_nat (4 * j))"
  have top: "unat (ram_rwdata_start L) + 8 * n + 4 * m + k \<le> unat (alt_stack_pointer L)" "unat (alt_stack_pointer L) < 2 ^ 32"
    using re fl bs be assms(3) u32_bound by simp_all
  obtain mem where mem: "alt_load_section (flash_rwdata_start L) (ram_rwdata_start L) (ram_rwdata_end L) (word_at s3) = Some mem"
    "\<forall>j < n. mem (A j) = word_at s3 (flash_rwdata_start L + of_nat (4 * j))" "\<forall>a. (\<forall>j < n. a \<noteq> A j) \<longrightarrow> mem a = word_at s3 a"
    using load_section_copies [of "ram_rwdata_start L" n "flash_rwdata_start L" "ram_rwdata_end L" "word_at s3"] top re fl
    unfolding A_def by auto
  have "alt_load (flash_rwdata_start L, ram_rwdata_start L, ram_rwdata_end L)
      (fst (ram_exceptions L), ram_exceptions L) (fst (ram_rodata L), ram_rodata L) 0 0 0 0 (word_at s3) = Some (mem, [], [])"
    by (cases "ram_exceptions L"; cases "ram_rodata L")
      (simp add: alt_load_def mem(1) alt_load_section_def [of x x for x] alt_dcache_flush_all_def alt_icache_flush_all_def)
  then obtain v where v: "fn alt_load_fn s3 = Some v" "gpr v sp = gpr s3 sp" "gpr v gp = gpr s3 gp"
    "\<forall>a. \<not> on_stack k (gpr s3 sp) a \<longrightarrow> word_at v a = mem a"
    using assms(2) unfolding load_implemented_def by blast
  have "block fn (crt_code L bss_done) s3 = Some (Goto main_call, v)" by (simp add: v(1))
  then have fin: "comes_to (crt_code L) fn reset s main_call v"
    using comes_to_trans [OF comes_to_jump [where code = "crt_code L", OF 1] comes_to_trans [OF 3(1) comes_to_jump]] by blast
  have fu: "unat (flash_rwdata_start L) = unat (ram_rwdata_start L) + 4 * n" using fl re by simp
  have uA: "unat (A j) = unat (ram_rwdata_start L) + 4 * j" if "j < n" for j
    unfolding A_def by (rule unat_offset) (use that top in linarith)
  have uF: "unat (flash_rwdata_start L + of_nat (4 * j)) = unat (flash_rwdata_start L) + 4 * j" if "j < n" for j
    by (rule unat_offset) (use that top fu in linarith)
  have uB: "unat (B j) = unat (bss_start L) + 4 * j" if "j < m" for j
    unfolding B_def by (rule unat_offset) (use that top fu bs in linarith)
  have off: "\<not> on_stack k (alt_stack_pointer L) (A j)" if "j < n" for j
    unfolding on_stack_def uA [OF that] using that top by linarith
  have off': "\<not> on_stack k (alt_stack_pointer L) (B j)" if "j < m" for j
    unfolding on_stack_def uB [OF that] using that top fu bs by linarith
  have s3: "word_at s3 (B j) = 0" if "j < m" for j using 3(2) that by (simp add: cleared_def B_def)
  have keep: "word_at s3 x = word_at s x" if "\<forall>j < m. x \<noteq> B j" for x
    using 3(2) that by (simp add: cleared_def B_def s2_def s1_def)
  have ne: "A i \<noteq> B j" if "i < n" "j < m" for i j
    using uA [OF that(1)] uB [OF that(2)] fu bs that by auto
  have ne': "flash_rwdata_start L + of_nat (4 * i) \<noteq> B j" if "i < n" "j < m" for i j
    using uF [OF that(1)] uB [OF that(2)] fu bs that by auto
  have "word_at v (A j) = word_at s (flash_rwdata_start L + of_nat (4 * j))" if "j < n" for j
    using v(4) off [OF that] g mem(2) keep ne' that by metis
  moreover have "word_at v (B j) = 0" if "j < m" for j
    using v(4) off' [OF that] g mem(3) s3 [OF that] ne that by metis
  moreover have "word_at v a = word_at s a"
    if "\<not> on_stack k (alt_stack_pointer L) a" "\<forall>j < n. a \<noteq> A j" "\<forall>j < m. a \<noteq> B j" for a
    using v(4) g mem(3) keep that by metis
  ultimately show ?thesis using fin v(2,3) g unfolding A_def B_def by (intro exI [of _ v]) simp
qed

text \<open>alt_main does not return there: if it does, the processor stays in the last loop.\<close>

lemma comes_to_ends: "comes_to (crt_code L) fn l s l' t \<Longrightarrow> l = alt_after_alt_main \<Longrightarrow> l' = alt_after_alt_main \<and> t = s"
  by (induction rule: comes_to.induct) auto

definition sample_linker :: linker where
  "sample_linker = \<lparr>start_address = 0x08000244, alt_stack_pointer = 0x10000000, gp_value = 0x08009000,
     bss_start = 0x08001010, bss_end = 0x08001020, flash_rwdata_start = 0x08001008, ram_rwdata_start = 0x08001000,
     ram_rwdata_end = 0x08001008, ram_exceptions = (0x08000020, 0x08000200), ram_rodata = (0x08000f00, 0x08001000)\<rparr>"

definition sample_fn :: "linker \<Rightarrow> crt_fn \<Rightarrow> nios \<Rightarrow> nios option" where
  "sample_fn L f u = (case f of
       alt_load_fn \<Rightarrow> map_option (\<lambda>(mem, d, i). u\<lparr>gpr := (gpr u)(2 := 7), word_at := mem\<rparr>)
         (alt_load (flash_rwdata_start L, ram_rwdata_start L, ram_rwdata_end L)
            (fst (ram_exceptions L), ram_exceptions L) (fst (ram_rodata L), ram_rodata L) 0 0 0 0 (word_at u))
     | alt_main_fn \<Rightarrow> None)"

theorem program_image_witness:
  "\<exists>t. comes_to (crt_code sample_linker) (sample_fn sample_linker) reset \<lparr>gpr = (\<lambda>_. 5), word_at = (\<lambda>a. a), ctl = (\<lambda>_. 0), pc = 0\<rparr> main_call t \<and>
     gpr t sp = 0x10000000 \<and> word_at t 0x08001004 = 0x0800100c \<and> word_at t 0x0800101c = 0"
proof -
  have "linked 2 4 sample_linker" by (simp add: linked_def sample_linker_def)
  moreover have "load_implemented sample_linker 0x1000 (sample_fn sample_linker)"
    by (auto simp: load_implemented_def sample_fn_def)
  moreover have "unat (bss_end sample_linker) + 0x1000 \<le> unat (alt_stack_pointer sample_linker)" by (simp add: sample_linker_def)
  ultimately obtain t where t: "comes_to (crt_code sample_linker) (sample_fn sample_linker) reset
        \<lparr>gpr = (\<lambda>_. 5), word_at = (\<lambda>a. a), ctl = (\<lambda>_. 0), pc = 0\<rparr> main_call t"
      "gpr t sp = alt_stack_pointer sample_linker"
      "\<forall>j < 2. word_at t (ram_rwdata_start sample_linker + of_nat (4 * j)) = flash_rwdata_start sample_linker + of_nat (4 * j)"
      "\<forall>j < 4. word_at t (bss_start sample_linker + of_nat (4 * j)) = 0"
    using program_image [of 2 4 sample_linker "0x1000" "sample_fn sample_linker" "\<lparr>gpr = (\<lambda>_. 5), word_at = (\<lambda>a. a), ctl = (\<lambda>_. 0), pc = 0\<rparr>"]
    by auto
  then show ?thesis
    using t(3) [rule_format, of 1] t(4) [rule_format, of 3] by (intro exI [of _ t]) (simp add: sample_linker_def)
qed

end
