(* ===== verification/Control_Regs.thy ===== *)
theory Control_Regs
  imports Nios2
begin

text \<open>
  The processor's control registers as nios2.h describes them: their numbers, the macros that read and
  write them, and the fields of each, a mask and an offset. The theorem says that the two
  descriptions of every field agree and that a field can be written without disturbing another.
\<close>

section \<open>Registers\<close>

datatype control_reg = status | estatus | bstatus | ienable | ipending | cpuid | exception | pteaddr
  | tlbacc | tlbmisc | eccinj | badaddr | config | mpubase | mpuacc

fun control_number :: "control_reg \<Rightarrow> nat" where
  "control_number status = 0" | "control_number estatus = 1" | "control_number bstatus = 2"
| "control_number ienable = 3" | "control_number ipending = 4" | "control_number cpuid = 5"
| "control_number exception = 7" | "control_number pteaddr = 8" | "control_number tlbacc = 9"
| "control_number tlbmisc = 10" | "control_number eccinj = 11" | "control_number badaddr = 12"
| "control_number config = 13" | "control_number mpubase = 14" | "control_number mpuacc = 15"

text \<open>Every register has a macro that reads it; those that the program may change have one that writes.\<close>

definition writable :: "control_reg list" where
  "writable = [status, ienable, pteaddr, tlbacc, tlbmisc, eccinj, config, mpubase, mpuacc]"

definition NIOS2_READ :: "control_reg \<Rightarrow> nios \<Rightarrow> u32" where
  "NIOS2_READ r s = ctl s (control_number r)"

definition NIOS2_WRITE :: "control_reg \<Rightarrow> u32 \<Rightarrow> nios \<Rightarrow> nios option" where
  "NIOS2_WRITE r v s = (if r \<in> set writable then Some (s\<lparr>ctl := (ctl s)(control_number r := v)\<rparr>) else None)"

definition NIOS2_READ_ET :: "nios \<Rightarrow> u32" where "NIOS2_READ_ET s = rd s et"
definition NIOS2_WRITE_ET :: "u32 \<Rightarrow> nios \<Rightarrow> nios" where "NIOS2_WRITE_ET v s = wr et v s"
definition NIOS2_READ_SP :: "nios \<Rightarrow> u32" where "NIOS2_READ_SP s = rd s sp"

section \<open>Fields\<close>

text \<open>A field's name, mask and offset. To read it the register is masked and then shifted right, to write
  it the opposite.\<close>

type_synonym reg_field = "string \<times> u32 \<times> nat"

fun get_field :: "reg_field \<Rightarrow> u32 \<Rightarrow> u32" where
  "get_field (_, msk, ofst) v = drop_bit ofst (v AND msk)"

fun put_field :: "reg_field \<Rightarrow> u32 \<Rightarrow> u32 \<Rightarrow> u32" where
  "put_field (_, msk, ofst) x v = (v AND NOT msk) OR (push_bit ofst x AND msk)"

definition STATUS_FIELDS :: "reg_field list" where
  "STATUS_FIELDS =
    [(''PIE'', 0x1, 0), (''U'', 0x2, 1), (''EH'', 0x4, 2), (''IH'', 0x8, 3), (''IL'', 0x3f0, 4),
     (''CRS'', 0xfc00, 10), (''PRS'', 0x3f0000, 16), (''NMI'', 0x400000, 22), (''RSIE'', 0x800000, 23),
     (''SRS'', 0x80000000, 31)]"

definition EXCEPTION_FIELDS :: "reg_field list" where
  "EXCEPTION_FIELDS =
    [(''CAUSE'', 0x7c, 2), (''ECCFTL'', 0x80000000, 31)]"

definition PTEADDR_FIELDS :: "reg_field list" where
  "PTEADDR_FIELDS =
    [(''VPN'', 0x3ffffc, 2), (''PTBASE'', 0xffc00000, 22)]"

definition TLBACC_FIELDS :: "reg_field list" where
  "TLBACC_FIELDS =
    [(''PFN'', 0xfffff, 0), (''G'', 0x100000, 20), (''X'', 0x200000, 21), (''W'', 0x400000, 22),
     (''R'', 0x800000, 23), (''C'', 0x1000000, 24), (''IG'', 0xfe000000, 25)]"

definition TLBMISC_FIELDS :: "reg_field list" where
  "TLBMISC_FIELDS =
    [(''D'', 0x1, 0), (''PERM'', 0x2, 1), (''BAD'', 0x4, 2), (''DBL'', 0x8, 3), (''PID'', 0x3fff0, 4),
     (''WE'', 0x40000, 18), (''RD'', 0x80000, 19), (''WAY'', 0xf00000, 20), (''EE'', 0x1000000, 24)]"

definition ECCINJ_FIELDS :: "reg_field list" where
  "ECCINJ_FIELDS =
    [(''RF'', 0x3, 0), (''ICTAG'', 0xc, 2), (''ICDAT'', 0x30, 4), (''DCTAG'', 0xc0, 6), (''DCDAT'', 0x300, 8),
     (''TLB'', 0xc00, 10), (''DTCM0'', 0x3000, 12), (''DTCM1'', 0xc000, 14), (''DTCM2'', 0x30000, 16),
     (''DTCM3'', 0xc0000, 18)]"

definition CONFIG_FIELDS :: "reg_field list" where
  "CONFIG_FIELDS =
    [(''PE'', 0x1, 0), (''ANI'', 0x2, 1), (''ECCEN'', 0x4, 2), (''ECCEXC'', 0x8, 3)]"

definition MPUBASE_FIELDS :: "reg_field list" where
  "MPUBASE_FIELDS =
    [(''D'', 0x1, 0), (''INDEX'', 0x3e, 1), (''BASE_ADDR'', 0xffffffc0, 6)]"

definition MPUACC_FIELDS :: "reg_field list" where
  "MPUACC_FIELDS =
    [(''LIMIT'', 0xffffffc0, 6), (''MASK'', 0xffffffc0, 6), (''C'', 0x20, 5), (''PERM'', 0x1c, 2),
     (''RD'', 0x2, 1), (''WR'', 0x1, 0)]"

fun fields_of :: "control_reg \<Rightarrow> reg_field list" where
  "fields_of exception = EXCEPTION_FIELDS" | "fields_of pteaddr = PTEADDR_FIELDS"
| "fields_of tlbacc = TLBACC_FIELDS" | "fields_of tlbmisc = TLBMISC_FIELDS"
| "fields_of eccinj = ECCINJ_FIELDS" | "fields_of config = CONFIG_FIELDS"
| "fields_of mpubase = MPUBASE_FIELDS" | "fields_of mpuacc = MPUACC_FIELDS"
| "fields_of r = (if r \<in> {status, estatus, bstatus} then STATUS_FIELDS else [])"

lemmas field_tables = STATUS_FIELDS_def EXCEPTION_FIELDS_def PTEADDR_FIELDS_def TLBACC_FIELDS_def
  TLBMISC_FIELDS_def ECCINJ_FIELDS_def CONFIG_FIELDS_def MPUBASE_FIELDS_def MPUACC_FIELDS_def

text \<open>The width of a field; mask and offset agree when the mask is that many ones at the offset.\<close>

fun field_width :: "reg_field \<Rightarrow> nat" where
  "field_width (_, msk, ofst) = length (filter (bit msk) [0..<32])"

fun field_ok :: "reg_field \<Rightarrow> bool" where
  "field_ok (n, msk, ofst) \<longleftrightarrow>
     0 < field_width (n, msk, ofst) \<and> ofst + field_width (n, msk, ofst) \<le> 32 \<and> msk = push_bit ofst (Bit_Operations.mask (field_width (n, msk, ofst)))"

definition alternatives :: "reg_field \<Rightarrow> reg_field \<Rightarrow> bool" where
  "alternatives f g \<longleftrightarrow> fst f = fst g \<or> {fst f, fst g} = {''LIMIT'', ''MASK''}"

fun fields_apart :: "reg_field list \<Rightarrow> bool" where
  "fields_apart [] \<longleftrightarrow> True"
| "fields_apart (f # fs) \<longleftrightarrow>
     (\<forall>g \<in> set fs. fst f \<noteq> fst g \<and> (fst (snd f) AND fst (snd g) = 0 \<or> alternatives f g)) \<and> fields_apart fs"

lemma register_tables:
  "\<forall>fs \<in> {STATUS_FIELDS, EXCEPTION_FIELDS, PTEADDR_FIELDS, TLBACC_FIELDS, TLBMISC_FIELDS, ECCINJ_FIELDS, CONFIG_FIELDS,
      MPUBASE_FIELDS, MPUACC_FIELDS}. (\<forall>f \<in> set fs. field_ok f) \<and> fields_apart fs"
  by code_simp

lemma register_fields: "(\<forall>f \<in> set (fields_of r). field_ok f) \<and> fields_apart (fields_of r)"
  using register_tables by (cases r) simp_all

lemma get_put_same:
  assumes "field_ok f"
  shows "get_field f (put_field f x v) = take_bit (field_width f) x"
proof -
  obtain n msk ofst where f: "f = (n, msk, ofst)" by (cases f)
  define w where "w = field_width f"
  have w: "msk = push_bit ofst (Bit_Operations.mask w)" "ofst + w \<le> 32" using assms by (simp_all add: f w_def)
  have "get_field f (put_field f x v) = take_bit w x"
    unfolding f get_field.simps put_field.simps w(1)
    by (rule bit_word_eqI) (use w(2) in \<open>auto simp: bit_simps\<close>)
  then show ?thesis by (simp only: w_def)
qed

lemma get_put_other:
  assumes "fst (snd f) AND fst (snd g) = 0"
  shows "get_field g (put_field f x v) = get_field g v"
proof -
  obtain n msk ofst n' msk' ofst' where fg: "f = (n, msk, ofst)" "g = (n', msk', ofst')" by (cases f, cases g)
  have "\<not> (bit msk i \<and> bit msk' i)" for i
    using assms bit_and_iff [of msk msk' i] by (simp add: fg)
  then have "(put_field f x v) AND msk' = v AND msk'"
    unfolding fg put_field.simps by (intro bit_word_eqI) (auto simp: bit_simps)
  then show ?thesis by (simp add: fg)
qed

lemma fields_apartD:
  "fields_apart fs \<Longrightarrow> f \<in> set fs \<Longrightarrow> g \<in> set fs \<Longrightarrow> alternatives f g \<or> fst (snd f) AND fst (snd g) = 0"
proof (induction fs)
  case (Cons h fs)
  have sym: "alternatives b a \<or> fst (snd b) AND fst (snd a) = 0"
    if "alternatives a b \<or> fst (snd a) AND fst (snd b) = 0" for a b
    using that by (auto simp: alternatives_def and.commute insert_commute)
  have head: "alternatives h k \<or> fst (snd h) AND fst (snd k) = 0" if "k \<in> set fs" for k
    using Cons.prems(1) that by auto
  have refl: "alternatives h h" by (simp add: alternatives_def)
  consider "f = h" "g = h" | "f = h" "g \<in> set fs" | "f \<in> set fs" "g = h" | "f \<in> set fs" "g \<in> set fs"
    using Cons.prems by auto
  then show ?case
  proof cases
    case 4
    then show ?thesis using Cons.IH Cons.prems(1) by simp
  qed (use sym head refl in blast)+
qed simp

text \<open>The fields of a register are independent: what is written to a field, as far as it fits, is read
  from it again, and every other field keeps its value - but for the two readings of the same bits of
  MPUACC, of which a processor has one.\<close>
theorem control_fields:
  assumes "f \<in> set (fields_of r)" "g \<in> set (fields_of r)"
  shows "get_field f (put_field f x v) = take_bit (field_width f) x"
    and "alternatives f g \<or> get_field g (put_field f x v) = get_field g v"
  using register_fields [of r] assms get_put_same get_put_other fields_apartD by blast+

text \<open>An exception clears PIE and U and nothing else of the status register.\<close>

lemma exception_status:
  "NIOS2_READ status (take_exception s) =
     put_field (''PIE'', 0x1, 0) 0 (put_field (''U'', 0x2, 1) 0 (NIOS2_READ status s))"
  "NIOS2_READ estatus (take_exception s) = NIOS2_READ status s"
proof -
  have "NOT (3 :: u32) = NOT 2 AND NOT 1" by code_simp
  then show "NIOS2_READ status (take_exception s) =
     put_field (''PIE'', 0x1, 0) 0 (put_field (''U'', 0x2, 1) 0 (NIOS2_READ status s))"
    by (simp add: NIOS2_READ_def take_exception_def STATUS_def ESTATUS_def and.assoc)
  show "NIOS2_READ estatus (take_exception s) = NIOS2_READ status s"
    by (simp add: NIOS2_READ_def take_exception_def STATUS_def ESTATUS_def)
qed

end
