(* ===== verification/Termios.thy ===== *)
theory Termios
  imports Prelude
begin

text \<open>
  The terminal interface of the C library (termios.h), which the UART driver's ioctl does not implement:
  the structure, its flags by words, the indices of its control characters, and the accessors.
\<close>

type_synonym cc_t = u8
type_synonym tcflag_t = u16
type_synonym speed_t = u32

definition NCCS :: nat where "NCCS = 13"

record termios =
  c_iflag :: tcflag_t
  c_oflag :: tcflag_t
  c_cflag :: tcflag_t
  c_lflag :: tcflag_t
  c_line :: u8
  c_cc :: "cc_t list"
  c_ispeed :: speed_t
  c_ospeed :: speed_t

definition cfgetospeed :: "termios \<Rightarrow> speed_t" where "cfgetospeed tp = c_ospeed tp"
definition cfgetispeed :: "termios \<Rightarrow> speed_t" where "cfgetispeed tp = c_ispeed tp"
definition cfsetospeed :: "speed_t \<Rightarrow> termios \<Rightarrow> int \<times> termios" where
  "cfsetospeed s tp = (0, tp\<lparr>c_ospeed := s\<rparr>)"
definition cfsetispeed :: "speed_t \<Rightarrow> termios \<Rightarrow> int \<times> termios" where
  "cfsetispeed s tp = (0, tp\<lparr>c_ispeed := s\<rparr>)"

definition tcdrain :: "(int \<Rightarrow> u32 \<Rightarrow> u32 \<Rightarrow> 'w) \<Rightarrow> int \<Rightarrow> 'w" where
  "tcdrain ioctl fd = ioctl fd 0x5405 1"

definition TERMIOS_REQUESTS :: "(string \<times> u32) list" where
  "TERMIOS_REQUESTS =
    [(''_XCGETA'', 0x7801), (''_XCSETA'', 0x7802), (''_XCSETAW'', 0x7803), (''_XCSETAF'', 0x7804),
     (''_TCSBRK'', 0x5405), (''_TCFLSH'', 0x5407), (''_TCXONC'', 0x5406)]"

definition TC_ACTIONS :: "(string \<times> u32) list" where
  "TC_ACTIONS =
    [(''TCOOFF'', 0), (''TCOON'', 1), (''TCIOFF'', 2), (''TCION'', 3), (''TCIFLUSH'', 0), (''TCOFLUSH'', 1),
     (''TCIOFLUSH'', 2)]"

definition TCSET_ACTIONS :: "(string \<times> u32) list" where
  "TCSET_ACTIONS =
    [(''TCSAFLUSH'', 0x7804), (''TCSANOW'', 0x7802), (''TCSADRAIN'', 0x7803), (''TCSADFLUSH'', 0x7804)]"

definition INPUT_FLAGS :: "(string \<times> tcflag_t) list" where
  "INPUT_FLAGS =
    [(''IGNBRK'', 0x1), (''BRKINT'', 0x2), (''IGNPAR'', 0x4), (''INPCK'', 0x10), (''ISTRIP'', 0x20),
     (''INLCR'', 0x40), (''IGNCR'', 0x80), (''ICRNL'', 0x100), (''IXON'', 0x400), (''IXOFF'', 0x1000)]"

definition OUTPUT_FLAGS :: "(string \<times> tcflag_t) list" where
  "OUTPUT_FLAGS =
    [(''OPOST'', 0x1), (''OCRNL'', 0x4), (''ONLCR'', 0x8), (''ONOCR'', 0x10), (''TAB3'', 0x1800)]"

definition CONTROL_FLAGS :: "(string \<times> tcflag_t) list" where
  "CONTROL_FLAGS =
    [(''CLOCAL'', 0x800), (''CREAD'', 0x80), (''CSIZE'', 0x30), (''CS5'', 0x0), (''CS6'', 0x10),
     (''CS7'', 0x20), (''CS8'', 0x30), (''CSTOPB'', 0x40), (''HUPCL'', 0x400), (''PARENB'', 0x100),
     (''PAODD'', 0x200), (''CCTS_OFLOW'', 0x1000), (''CRTS_IFLOW'', 0x2000), (''CRTSCTS'', 0x3000)]"

definition LOCAL_FLAGS :: "(string \<times> tcflag_t) list" where
  "LOCAL_FLAGS =
    [(''ECHO'', 0x8), (''ECHOE'', 0x10), (''ECHOK'', 0x20), (''ECHONL'', 0x40), (''ICANON'', 0x2),
     (''IEXTEN'', 0x100), (''ISIG'', 0x1), (''NOFLSH'', 0x80), (''TOSTOP'', 0x200)]"

definition CONTROL_CHARS :: "(string \<times> nat) list" where
  "CONTROL_CHARS =
    [(''VEOF'', 4), (''VEOL'', 5), (''VERASE'', 2), (''VINTR'', 0), (''VKILL'', 3), (''VMIN'', 4),
     (''VQUIT'', 1), (''VSUSP'', 10), (''VTIME'', 5), (''VSTART'', 11), (''VSTOP'', 12)]"

definition BAUD_RATES :: "(string \<times> u32) list" where
  "BAUD_RATES =
    [(''B0'', 0), (''B50'', 50), (''B75'', 75), (''B110'', 110), (''B134'', 134), (''B150'', 150),
     (''B200'', 200), (''B300'', 300), (''B600'', 600), (''B1200'', 1200), (''B1800'', 1800),
     (''B2400'', 2400), (''B4800'', 4800), (''B9600'', 9600), (''B19200'', 19200), (''B38400'', 38400),
     (''B57600'', 57600), (''B115200'', 115200)]"

text \<open>Within each word the flags of one bit are apart, and the ones of more are made of them; the sizes of
  a character are the values of the mask's field; the control characters are in the array.\<close>

definition single_bits :: "(string \<times> tcflag_t) list \<Rightarrow> tcflag_t list" where
  "single_bits fs = filter (\<lambda>m. length (filter (bit m) [0..<16]) = 1) (map snd fs)"

lemma termios_flags:
  "distinct (single_bits INPUT_FLAGS)" "distinct (single_bits OUTPUT_FLAGS)" "distinct (single_bits LOCAL_FLAGS)"
  "\<forall>i \<in> snd ` set CONTROL_CHARS. i < NCCS"
  "map_of CONTROL_CHARS ''VMIN'' = map_of CONTROL_CHARS ''VEOF''" "map_of CONTROL_CHARS ''VTIME'' = map_of CONTROL_CHARS ''VEOL''"
  "map (\<lambda>n. drop_bit 4 (the (map_of CONTROL_FLAGS n))) [''CS5'', ''CS6'', ''CS7'', ''CS8''] = [0, 1, 2, 3]"
  "map_of TERMIOS_REQUESTS ''_TCSBRK'' = Some 0x5405" "distinct (map snd TERMIOS_REQUESTS)"
  by code_simp+

end
