(* ===== verification/Hal_Console.thy ===== *)
theory Hal_Console
  imports Jtag_Uart
begin

text \<open>
  The character functions of the HAL (alt_putstr.c, alt_putchar.c, alt_getchar.c, alt_putcharbuf.c) in the
  three ways they can be configured: over the system calls (semihosting), directly over the driver, and
  over the C library, as in this system. Below them are parameters. A C string is the list of its
  bytes without the terminator.
\<close>

section \<open>Characters\<close>

datatype console = Semihosting | Direct_drivers | C_library

text \<open>What the functions are built on: system calls with a descriptor, the driver's calls with flags, and
  the library's functions. A read returns its result and the bytes it stored.\<close>

record 'w stdio =
  sys_write :: "int \<Rightarrow> u8 list \<Rightarrow> 'w \<Rightarrow> (int \<times> 'w) option"
  sys_read :: "int \<Rightarrow> nat \<Rightarrow> 'w \<Rightarrow> (int \<times> u8 list \<times> 'w) option"
  drv_write :: "u8 list \<Rightarrow> u32 \<Rightarrow> 'w \<Rightarrow> (int \<times> 'w) option"
  drv_read :: "int \<Rightarrow> u32 \<Rightarrow> 'w \<Rightarrow> (int \<times> u8 list \<times> 'w) option"
  stdin_flags :: "'w \<Rightarrow> u32"
  lib_fputs :: "u8 list \<Rightarrow> 'w \<Rightarrow> (int \<times> 'w) option"
  lib_putchar :: "u32 \<Rightarrow> 'w \<Rightarrow> (u32 \<times> 'w) option"
  lib_getchar :: "'w \<Rightarrow> (u32 \<times> 'w) option"

definition alt_putstr :: "console \<Rightarrow> 'w stdio \<Rightarrow> u8 list \<Rightarrow> 'w \<Rightarrow> (int \<times> 'w) option" where
  "alt_putstr k S str w =
     (case k of
        Semihosting \<Rightarrow> sys_write S 1 str w
      | Direct_drivers \<Rightarrow> drv_write S str 0 w
      | C_library \<Rightarrow> lib_fputs S str w)"

definition alt_putchar :: "console \<Rightarrow> 'w stdio \<Rightarrow> u32 \<Rightarrow> 'w \<Rightarrow> (u32 \<times> 'w) option" where
  "alt_putchar k S c w =
     (case k of
        Semihosting \<Rightarrow> map_option (\<lambda>(r, w). (word_of_int r, w)) (sys_write S 1 [ucast (c AND 0xff)] w)
      | Direct_drivers \<Rightarrow>
          map_option (\<lambda>(r, w). (if r = -1 then -1 else c, w)) (drv_write S [ucast (c AND 0xff)] 0 w)
      | C_library \<Rightarrow> lib_putchar S c w)"

text \<open>The result is a char, and so signed. Over the system call it is the variable, whether a byte was stored
  in it or not.\<close>

definition alt_getchar :: "console \<Rightarrow> 'w stdio \<Rightarrow> 'w \<Rightarrow> (u32 \<times> 'w) option" where
  "alt_getchar k S w =
     (case k of
        Semihosting \<Rightarrow>
          Option.bind (sys_read S 0 1 w) (\<lambda>(r, bs, w). case bs of b # _ \<Rightarrow> Some (scast b, w) | [] \<Rightarrow> None)
      | Direct_drivers \<Rightarrow>
          Option.bind (drv_read S 1 (stdin_flags S w) w) (\<lambda>(r, bs, w).
            if r \<le> 0 then Some (-1, w) else case bs of b # _ \<Rightarrow> Some (scast b, w) | [] \<Rightarrow> None)
      | C_library \<Rightarrow> lib_getchar S w)"

section \<open>The buffer\<close>

definition ALT_PUTBUF_SIZE :: nat where "ALT_PUTBUF_SIZE = 64"

record 'w putbuf =
  buf :: "u8 list"
  fill_index :: nat
  behind :: 'w

definition putbuf_init :: "'w \<Rightarrow> 'w putbuf" where
  "putbuf_init w = \<lparr>buf = replicate ALT_PUTBUF_SIZE 0, fill_index = 0, behind = w\<rparr>"

definition alt_putbufflush :: "'w stdio \<Rightarrow> 'w putbuf \<Rightarrow> (int \<times> 'w putbuf) option" where
  "alt_putbufflush S s =
     map_option (\<lambda>(r, w). (r, s\<lparr>fill_index := 0, behind := w\<rparr>)) (sys_write S 1 (take (fill_index s) (buf s)) (behind s))"

definition alt_putcharbuf :: "'w stdio \<Rightarrow> u32 \<Rightarrow> 'w putbuf \<Rightarrow> (u32 \<times> 'w putbuf) option" where
  "alt_putcharbuf S c s =
     (if fill_index s < ALT_PUTBUF_SIZE then
        let s = s\<lparr>buf := (buf s)[fill_index s := ucast (c AND 0xff)], fill_index := fill_index s + 1\<rparr>
        in if fill_index s \<ge> ALT_PUTBUF_SIZE then map_option (\<lambda>(_, s). (c, s)) (alt_putbufflush S s)
           else Some (c, s)
      else None)"

fun put_all :: "'w stdio \<Rightarrow> u32 list \<Rightarrow> 'w putbuf \<Rightarrow> 'w putbuf option" where
  "put_all S [] s = Some s"
| "put_all S (c # cs) s = Option.bind (alt_putcharbuf S c s) (\<lambda>(_, s). put_all S cs s)"

text \<open>Writes that succeed, whatever part of the text they take; \<open>written\<close> lists the texts they were given.\<close>

definition writes_logged :: "'w stdio \<Rightarrow> ('w \<Rightarrow> u8 list list) \<Rightarrow> bool" where
  "writes_logged S written \<longleftrightarrow> (\<forall>bs w. \<exists>r w'. sys_write S 1 bs w = Some (r, w') \<and> written w' = written w @ [bs])"

definition putbuf_inv :: "('w \<Rightarrow> u8 list list) \<Rightarrow> u8 list \<Rightarrow> 'w putbuf \<Rightarrow> bool" where
  "putbuf_inv written said s \<longleftrightarrow>
     length (buf s) = ALT_PUTBUF_SIZE \<and> fill_index s < ALT_PUTBUF_SIZE \<and>
     concat (written (behind s)) @ take (fill_index s) (buf s) = said \<and>
     (\<forall>bs \<in> set (written (behind s)). length bs = ALT_PUTBUF_SIZE)"

lemma take_update: "n < length xs \<Longrightarrow> take (Suc n) (xs[n := x]) = take n xs @ [x]"
  by (simp add: take_Suc_conv_app_nth)

lemma putcharbuf_inv:
  assumes "writes_logged S written" "putbuf_inv written said s"
  shows "\<exists>s'. alt_putcharbuf S c s = Some (c, s') \<and> putbuf_inv written (said @ [ucast (c AND 0xff)]) s'"
proof -
  define b :: u8 where "b = ucast (c AND 0xff)"
  let ?t = "s\<lparr>buf := (buf s)[fill_index s := b], fill_index := fill_index s + 1\<rparr>"
  have t: "take (fill_index ?t) (buf ?t) = take (fill_index s) (buf s) @ [b]"
    using assms(2) take_update [of "fill_index s" "buf s" b] by (simp add: putbuf_inv_def)
  show ?thesis
  proof (cases "fill_index s + 1 < ALT_PUTBUF_SIZE")
    case True
    then show ?thesis using assms(2) t by (auto simp: alt_putcharbuf_def putbuf_inv_def b_def Let_def)
  next
    case False
    obtain r w where w: "sys_write S 1 (take (fill_index ?t) (buf ?t)) (behind s) = Some (r, w)"
      "written w = written (behind s) @ [take (fill_index ?t) (buf ?t)]"
      using assms(1) unfolding writes_logged_def by blast
    have "alt_putcharbuf S c s = Some (c, ?t\<lparr>fill_index := 0, behind := w\<rparr>)"
      using assms(2) False w(1) by (simp add: alt_putcharbuf_def alt_putbufflush_def putbuf_inv_def b_def Let_def)
    moreover have "putbuf_inv written (said @ [b]) (?t\<lparr>fill_index := 0, behind := w\<rparr>)"
      using assms(2) False w(2) t by (auto simp: putbuf_inv_def)
    ultimately show ?thesis by (auto simp: b_def)
  qed
qed

text \<open>Buffered characters come out whole and in order: after any characters and a flush, the texts
  handed to the write call are those characters put together, each a full buffer but the last, and the
  buffer was never written past its end.\<close>
theorem putcharbuf_prints:
  assumes "writes_logged S written" "written w = []"
  shows "\<exists>s r s' chunks. put_all S cs (putbuf_init w) = Some s \<and> alt_putbufflush S s = Some (r, s') \<and>
    written (behind s') = chunks \<and> concat chunks = map (\<lambda>c. ucast (c AND 0xff)) cs \<and>
    (\<forall>bs \<in> set (butlast chunks). length bs = ALT_PUTBUF_SIZE) \<and> length (last chunks) < ALT_PUTBUF_SIZE"
proof -
  have "\<exists>s'. put_all S cs s = Some s' \<and> putbuf_inv written (said @ map (\<lambda>c. ucast (c AND 0xff)) cs) s'"
    if "putbuf_inv written said s" for said s
    using that
  proof (induction cs arbitrary: said s)
    case (Cons c cs)
    obtain t where "alt_putcharbuf S c s = Some (c, t)" "putbuf_inv written (said @ [ucast (c AND 0xff)]) t"
      using putcharbuf_inv [OF assms(1) Cons.prems, of c] by blast
    then show ?case using Cons.IH by fastforce
  qed simp
  from this [of "[]" "putbuf_init w"] obtain s where
    s: "put_all S cs (putbuf_init w) = Some s" "putbuf_inv written (map (\<lambda>c. ucast (c AND 0xff)) cs) s"
    using assms(2) by (auto simp: putbuf_inv_def putbuf_init_def ALT_PUTBUF_SIZE_def)
  obtain r w' where w: "sys_write S 1 (take (fill_index s) (buf s)) (behind s) = Some (r, w')"
    "written w' = written (behind s) @ [take (fill_index s) (buf s)]"
    using assms(1) unfolding writes_logged_def by blast
  then have "alt_putbufflush S s = Some (r, s\<lparr>fill_index := 0, behind := w'\<rparr>)" by (simp add: alt_putbufflush_def)
  then show ?thesis using s w(2) by (fastforce simp: putbuf_inv_def)
qed

section \<open>Errors over the driver\<close>

text \<open>The driver's error codes are not the one that alt_putchar looks for: directly over the driver it
  returns its character also when the byte was not sent.\<close>

lemma putchar_hides_error:
  assumes "drv_write S = uart_write H env" "alt_putchar Direct_drivers S c u = Some (r, u')"
  shows "r = c"
proof -
  obtain q where "uart_write H env [ucast (c AND 0xff)] 0 u = Some (q, u')" "r = (if q = -1 then -1 else c)"
    using assms by (auto simp: alt_putchar_def)
  moreover from this(1) have "q \<noteq> -1"
    by (auto simp: uart_write_def EIO_def EWOULDBLOCK_def split: if_splits)
  ultimately show ?thesis by simp
qed

text \<open>The byte 255 is read as the result that stands for an error.\<close>

lemma getchar_end:
  assumes "drv_read S 1 (stdin_flags S w) w = Some (1, [0xff], w')"
  shows "alt_getchar Direct_drivers S w = Some (-1, w')"
proof -
  have "(scast (0xff :: u8) :: u32) = -1" by code_simp
  then show ?thesis using assms by (simp add: alt_getchar_def)
qed

end
