(* ===== verification/Jtag_Small.thy ===== *)
theory Jtag_Small
  imports Hal_Log_Props
begin

text \<open>
  The small version of the JTAG UART driver (drivers/src/altera_avalon_jtag_uart_read.c and _write.c under
  ALTERA_AVALON_JTAG_UART_SMALL), which polls the hardware's registers and has no state of its own. It
  is held to the same contract of the registers as the interrupt-driven version, and does what that
  does with a buffer of no bytes: what is read or written passes the registers within the call.
\<close>

section \<open>The driver\<close>

text \<open>Writing waits for space before every byte; reading waits only for the first one. The bytes of
  the text are chars, which are signed.\<close>

partial_function (option) small_write_loop :: "'d jtag_hw \<Rightarrow> u8 list \<Rightarrow> 'd \<Rightarrow> 'd option" where
  "small_write_loop H xs d =
     (case xs of
        [] \<Rightarrow> Some d
      | b # rest \<Rightarrow>
          (let (control, d) = rd_control H d
           in if control AND CONTROL_WSPACE_MSK \<noteq> 0 then small_write_loop H rest (wr_data H (scast b) d)
              else small_write_loop H xs d))"

definition small_write :: "'d jtag_hw \<Rightarrow> u8 list \<Rightarrow> u32 \<Rightarrow> 'd \<Rightarrow> (int \<times> 'd) option" where
  "small_write H xs flags d = map_option (\<lambda>d. (int (length xs), d)) (small_write_loop H xs d)"

partial_function (option) small_read_loop :: "'d jtag_hw \<Rightarrow> nat \<Rightarrow> u32 \<Rightarrow> u8 list \<Rightarrow> 'd \<Rightarrow> (u8 list \<times> 'd) option" where
  "small_read_loop H space flags got d =
     (if length got < space then
        (let (data, d) = rd_data H d
         in if data AND DATA_RVALID_MSK \<noteq> 0 then
              small_read_loop H space flags (got @ [ucast (data AND DATA_DATA_MSK)]) d
            else if got \<noteq> [] then Some (got, d)
            else if flags AND O_NONBLOCK \<noteq> 0 then Some (got, d)
            else small_read_loop H space flags got d)
      else Some (got, d))"

definition small_read :: "'d jtag_hw \<Rightarrow> int \<Rightarrow> u32 \<Rightarrow> 'd \<Rightarrow> (int \<times> u8 list \<times> 'd) option" where
  "small_read H space flags d =
     map_option (\<lambda>(got, d).
         (if got \<noteq> [] then int (length got) else if flags AND O_NONBLOCK \<noteq> 0 then - EWOULDBLOCK else - EIO, got, d))
       (small_read_loop H (nat space) flags [] d)"

section \<open>What it does\<close>

text \<open>The hardware receives something, some time: polling its data register ends.\<close>

definition data_comes :: "'d jtag_hw \<Rightarrow> bool" where
  "data_comes H \<longleftrightarrow> (\<forall>d. \<exists>k. fst (((\<lambda>(v, d). rd_data H d) ^^ k) (rd_data H d)) AND DATA_RVALID_MSK \<noteq> 0)"

lemma jtag_okD:
  assumes "jtag_ok H L"
  shows "sent L (wr_data H v d) = sent L d @ [ucast v]" "received L (wr_data H v d) = received L d"
    "rd_control H d = (v, d') \<Longrightarrow> sent L d' = sent L d \<and> received L d' = received L d"
    "rd_data H d = (v, d') \<Longrightarrow> sent L d' = sent L d \<and>
       received L d' = received L d @ (if v AND DATA_RVALID_MSK = 0 then [] else [ucast (v AND DATA_DATA_MSK)])"
  using assms unfolding jtag_ok_def by auto

lemma byte_of_char: "(ucast (scast (b :: u8) :: u32) :: u8) = b"
  by (rule bit_word_eqI) (simp add: bit_simps)

lemma small_write_waits:
  assumes "jtag_ok H L" "fst (((\<lambda>(v, d). rd_control H d) ^^ k) (rd_control H d)) AND CONTROL_WSPACE_MSK \<noteq> 0"
  shows "\<exists>d'. small_write_loop H (b # rest) d = small_write_loop H rest (wr_data H (scast b) d') \<and>
    sent L d' = sent L d \<and> received L d' = received L d"
  using assms(2)
proof (induction k arbitrary: d)
  case (Suc k)
  obtain v e where e: "rd_control H d = (v, e)" by fastforce
  show ?case
  proof (cases "v AND CONTROL_WSPACE_MSK = 0")
    case True
    have "small_write_loop H (b # rest) d = small_write_loop H (b # rest) e"
      by (subst small_write_loop.simps) (simp add: e True)
    moreover have "fst (((\<lambda>(v, d). rd_control H d) ^^ k) (rd_control H e)) AND CONTROL_WSPACE_MSK \<noteq> 0"
      using Suc.prems by (simp add: e funpow_Suc_right del: funpow.simps)
    ultimately show ?thesis using Suc.IH [of e] jtag_okD(3) [OF assms(1) e] by simp
  qed (use jtag_okD(3) [OF assms(1) e] in \<open>auto simp: e small_write_loop.simps [of H "b # rest"]\<close>)
next
  case 0
  obtain v e where e: "rd_control H d = (v, e)" by fastforce
  then show ?case using jtag_okD(3) [OF assms(1) e] 0 by (auto simp: small_write_loop.simps [of H "b # rest"])
qed

lemma small_write_sends:
  assumes "jtag_ok H L" "makes_room H"
  shows "\<exists>d'. small_write_loop H xs d = Some d' \<and> sent L d' = sent L d @ xs \<and> received L d' = received L d"
proof (induction xs arbitrary: d)
  case Nil
  show ?case by (subst small_write_loop.simps) simp
next
  case (Cons b rest)
  obtain k where "fst (((\<lambda>(v, d). rd_control H d) ^^ k) (rd_control H d)) AND CONTROL_WSPACE_MSK \<noteq> 0"
    using assms(2) unfolding makes_room_def by blast
  from small_write_waits [OF assms(1) this] Cons.IH show ?case
    by (metis (no_types, lifting) append.assoc append_Cons append_Nil byte_of_char jtag_okD(1,2) [OF assms(1)])
qed

lemma small_read_more:
  assumes "jtag_ok H L" "got \<noteq> [] \<or> flags AND O_NONBLOCK \<noteq> 0" "space = length got + n"
  shows "\<exists>more d'. small_read_loop H space flags got d = Some (got @ more, d') \<and> length more \<le> n \<and>
    received L d' = received L d @ more \<and> sent L d' = sent L d"
  using assms(2,3)
proof (induction n arbitrary: got d)
  case (Suc n)
  obtain v e where e: "rd_data H d = (v, e)" by fastforce
  define b :: u8 where "b = ucast (v AND DATA_DATA_MSK)"
  note k = jtag_okD(4) [OF assms(1) e]
  show ?case
  proof (cases "v AND DATA_RVALID_MSK = 0")
    case False
    have "small_read_loop H space flags got d = small_read_loop H space flags (got @ [b]) e"
      using False Suc.prems by (subst small_read_loop.simps) (simp add: e b_def)
    moreover obtain more d' where "small_read_loop H space flags (got @ [b]) e = Some ((got @ [b]) @ more, d')" "length more \<le> n"
      "received L d' = received L e @ more" "sent L d' = sent L e"
      using Suc.IH [of "got @ [b]" e] Suc.prems by auto
    ultimately show ?thesis using k False by (intro exI [of _ "b # more"] exI [of _ d']) (simp add: b_def)
  next
    case True
    then have "small_read_loop H space flags got d = Some (got, e)"
      using Suc.prems by (subst small_read_loop.simps) (simp add: e)
    then show ?thesis using k True by simp
  qed
qed (simp add: small_read_loop.simps [of H _ _ got for got])

lemma small_read_waits:
  assumes "jtag_ok H L" "0 < space" "flags AND O_NONBLOCK = 0"
    and "fst (((\<lambda>(v, d). rd_data H d) ^^ k) (rd_data H d)) AND DATA_RVALID_MSK \<noteq> 0"
  shows "\<exists>b d'. small_read_loop H space flags [] d = small_read_loop H space flags [b] d' \<and>
    received L d' = received L d @ [b] \<and> sent L d' = sent L d"
  using assms(4)
proof (induction k arbitrary: d)
  case (Suc k)
  obtain v e where e: "rd_data H d = (v, e)" by fastforce
  show ?case
  proof (cases "v AND DATA_RVALID_MSK = 0")
    case True
    have "small_read_loop H space flags [] d = small_read_loop H space flags [] e"
      using assms(2,3) by (subst small_read_loop.simps) (simp add: e True)
    moreover have "fst (((\<lambda>(v, d). rd_data H d) ^^ k) (rd_data H e)) AND DATA_RVALID_MSK \<noteq> 0"
      using Suc.prems by (simp add: e funpow_Suc_right del: funpow.simps)
    ultimately show ?thesis using Suc.IH [of e] jtag_okD(4) [OF assms(1) e] True by simp
  qed (use jtag_okD(4) [OF assms(1) e] assms(2) in \<open>auto simp: e small_read_loop.simps [of H space flags "[]"]\<close>)
next
  case 0
  obtain v e where e: "rd_data H d = (v, e)" by fastforce
  then show ?case using jtag_okD(4) [OF assms(1) e] 0 assms(2) by (auto simp: small_read_loop.simps [of H space flags "[]"])
qed

text \<open>The polled driver moves every byte once and in order, keeping none: a write returns when all bytes of
  the text are sent; a read hands over exactly the bytes it took from the hardware, at most as many as
  there is space for, and a call that may wait comes back with at least one. Without space a read
  fails with EIO, and a call that may not wait and finds nothing with EWOULDBLOCK.\<close>
theorem small_driver_exchanges:
  assumes "jtag_ok H L" "makes_room H" "data_comes H"
  shows "(\<exists>d'. small_write H xs wflags d = Some (int (length xs), d') \<and> sent L d' = sent L d @ xs \<and> received L d' = received L d) \<and>
    (\<exists>got d'. small_read H space flags d =
         Some (if got \<noteq> [] then int (length got) else if flags AND O_NONBLOCK \<noteq> 0 then - EWOULDBLOCK else - EIO, got, d') \<and>
       received L d' = received L d @ got \<and> sent L d' = sent L d \<and> length got \<le> nat space \<and>
       (got = [] \<longrightarrow> space \<le> 0 \<or> flags AND O_NONBLOCK \<noteq> 0))"
proof
  show "\<exists>d'. small_write H xs wflags d = Some (int (length xs), d') \<and> sent L d' = sent L d @ xs \<and> received L d' = received L d"
    using small_write_sends [OF assms(1,2), of xs d] by (auto simp: small_write_def)
  have "\<exists>got d'. small_read_loop H (nat space) flags [] d = Some (got, d') \<and> received L d' = received L d @ got \<and>
      sent L d' = sent L d \<and> length got \<le> nat space \<and> (got = [] \<longrightarrow> space \<le> 0 \<or> flags AND O_NONBLOCK \<noteq> 0)"
  proof (cases "space \<le> 0 \<or> flags AND O_NONBLOCK \<noteq> 0")
    case True
    then show ?thesis
    proof
      assume "space \<le> 0"
      then show ?thesis by (subst small_read_loop.simps) simp
    next
      assume "flags AND O_NONBLOCK \<noteq> 0"
      then show ?thesis using small_read_more [OF assms(1), of "[]" flags "nat space" "nat space" d] by auto
    qed
  next
    case False
    obtain k where "fst (((\<lambda>(v, d). rd_data H d) ^^ k) (rd_data H d)) AND DATA_RVALID_MSK \<noteq> 0"
      using assms(3) unfolding data_comes_def by blast
    then obtain b e where b: "small_read_loop H (nat space) flags [] d = small_read_loop H (nat space) flags [b] e"
      "received L e = received L d @ [b]" "sent L e = sent L d"
      using small_read_waits [OF assms(1), of "nat space" flags k d] False by auto
    obtain more d' where "small_read_loop H (nat space) flags [b] e = Some ([b] @ more, d')" "length more \<le> nat space - 1"
      "received L d' = received L e @ more" "sent L d' = sent L e"
      using small_read_more [OF assms(1), of "[b]" flags "nat space" "nat space - 1" e] False by auto
    then show ?thesis using b False by (intro exI [of _ "b # more"] exI [of _ d']) auto
  qed
  then show "\<exists>got d'. small_read H space flags d =
         Some (if got \<noteq> [] then int (length got) else if flags AND O_NONBLOCK \<noteq> 0 then - EWOULDBLOCK else - EIO, got, d') \<and>
       received L d' = received L d @ got \<and> sent L d' = sent L d \<and> length got \<le> nat space \<and>
       (got = [] \<longrightarrow> space \<le> 0 \<or> flags AND O_NONBLOCK \<noteq> 0)"
    by (force simp: small_read_def)
qed

text \<open>A UART that is slow: it has room on every second poll, and receives a 65 on every second read.\<close>

record slow_uart =
  ready :: bool
  slow_sent :: "u8 list"
  slow_read :: "u8 list"

definition slow_hw :: "slow_uart jtag_hw" where
  "slow_hw = \<lparr>rd_data = (\<lambda>d. if ready d then (DATA_RVALID_MSK OR ucast (65 :: u8), d\<lparr>ready := False, slow_read := slow_read d @ [65]\<rparr>)
       else (0, d\<lparr>ready := True\<rparr>)),
     wr_data = (\<lambda>v d. d\<lparr>slow_sent := slow_sent d @ [ucast v]\<rparr>),
     rd_control = (\<lambda>d. (if ready d then 0x10000 else 0, d\<lparr>ready := \<not> ready d\<rparr>)), wr_control = (\<lambda>v d. d)\<rparr>"

definition slow_log :: "slow_uart jtag_log" where
  "slow_log = \<lparr>sent = slow_sent, received = slow_read\<rparr>"

lemma slow_ok: "jtag_ok slow_hw slow_log" "makes_room slow_hw" "data_comes slow_hw"
proof -
  show "jtag_ok slow_hw slow_log"
    using data_word [of 65] by (auto simp: jtag_ok_def slow_hw_def slow_log_def split: if_splits)
  show "makes_room slow_hw"
    unfolding makes_room_def
  proof
    fix d :: slow_uart
    show "\<exists>k. fst (((\<lambda>(v, d). rd_control slow_hw d) ^^ k) (rd_control slow_hw d)) AND CONTROL_WSPACE_MSK \<noteq> 0"
      by (rule exI [of _ "if ready d then 0 else 1"]) (simp add: slow_hw_def CONTROL_WSPACE_MSK_def)
  qed
  show "data_comes slow_hw"
    unfolding data_comes_def
  proof
    fix d :: slow_uart
    show "\<exists>k. fst (((\<lambda>(v, d). rd_data slow_hw d) ^^ k) (rd_data slow_hw d)) AND DATA_RVALID_MSK \<noteq> 0"
      by (rule exI [of _ "if ready d then 0 else 1"]) (simp add: slow_hw_def DATA_RVALID_MSK_def)
  qed
qed

theorem small_driver_exchanges_witness:
  "\<exists>d'. small_write slow_hw [72, 105] 0 \<lparr>ready = False, slow_sent = [], slow_read = []\<rparr> = Some (2, d') \<and> slow_sent d' = [72, 105]"
proof -
  have "\<exists>d'. small_write slow_hw [72, 105] 0 \<lparr>ready = False, slow_sent = [], slow_read = []\<rparr> = Some (int (length [72, 105 :: u8]), d') \<and>
      sent slow_log d' = sent slow_log \<lparr>ready = False, slow_sent = [], slow_read = []\<rparr> @ [72, 105] \<and>
      received slow_log d' = received slow_log \<lparr>ready = False, slow_sent = [], slow_read = []\<rparr>"
    using small_driver_exchanges [OF slow_ok] by blast
  then show ?thesis by (auto simp: slow_log_def)
qed

end
