(* ===== verification/Spec2Isabelle.thy ===== *)
theory Spec2Isabelle
  imports App_Props Chip_Tables Hal_Time Hal_Log_Props Hal_Cache Hal_Gmon Hal_Boot_Props Jtag_Calls
    Chip_Peripherals Chip_Usb Memory_Map Hpi_Port Game_Play Sprite_Tool Mcount Emulation Crt0
    Control_Regs Termios Hal_Console Jtag_Small
begin

text \<open>
  This development models the Space Invaders board: the C application that reads a USB keyboard and
  hands its keycodes to the game hardware, the hardware abstraction layer (HAL) of the Nios II
  processor it is linked with, and the game hardware itself, as far as it is written. Names of C
  files are relative to src/software; "HAL/" stands for final_app_bsp/HAL and "drivers/" for
  final_app_bsp/drivers. The SystemVerilog files (.sv) are in src.

  The program and its parts.

  The application (final_app/) talks to an EZ-OTG USB chip (CY7C67200) through four 16-bit ports,
  driven pin by pin over parallel I/O registers (io_handler.c). On these lie word accesses to the
  chip's memory and registers and the standard USB requests, each a transfer descriptor list that
  is written into the chip's memory (usb.c). The main program (main.c) starts the chip, waits for
  a device, enumerates it step by step, and then polls the keyboard for ever, publishing the first
  two keycodes on an output port that the game logic reads. The HAL supplies what printf, usleep
  and the start of the system need: device lists, file descriptors, alarms, interrupts, the JTAG
  UART driver, and smaller services. The game (final_project.sv) takes the keycodes from the output
  port: a raster of 800 by 525 pixels clocks the screen, and once a frame the cannon and its shot
  move by the keys.

  Theories, in the order of their dependence, with the code each one models:

  \<^item> Prelude: word types, theorem collections, lemmas on loops and words shared by several theories.
  \<^item> Chip_Regs, Chip_Tables: the constants of usb.h, cy7c67200.h, lcp_cmd.h and lcp_data.h that the
    application uses, and the register map around them as tables, with the lemmas that it is
    well-formed. Chip_Peripherals: the chip's other registers, each a record of addresses, fields
    and values, and their second description. Chip_Usb: the vocabulary of requests, descriptors and
    messages, and that the program's requests are spelled in it.
  \<^item> System_Config (system.h): the parameters of the hardware. Memory_Map (system.h, linker.h): the
    address map.
  \<^item> Io_Handler (io_handler.c): the pins of the host port as a record \<open>board\<close>, IO_init, IO_write
    and IO_read as sequences of pin changes. The chip is a parameter: a record \<open>chip\<close> of the
    functions by which its state answers the pins, with the locale \<open>board_inv\<close> for what every
    sequence of port accesses keeps.
  \<^item> Usb (usb.c): the functions UsbWrite to UsbPrintMem. Td_List: the descriptor lists the
    requests load, decoded. Usb_Props: their properties.
  \<^item> Main_App (main.c): the blocks of main between its labels as steps of a machine whose state is
    the label and the record \<open>app\<close> of the local variables and the board; \<open>main_reach\<close> is the set of
    states reachable from the entry. Main_Inv: the invariant. Usb_Host: the contract of a chip with
    a keyboard plugged in that executes the descriptor lists it is started on (\<open>usb_host\<close>), and a
    chip that meets it. App_Props: the properties.
  \<^item> Hal_Llist (HAL/inc/sys/alt_llist.h): the circular lists, as pointer operations on a heap,
    meeting the locale \<open>entry_list\<close> through which the other theories use them.
  \<^item> Hal_Errno: the error numbers. Hal_Alarm (alt_alarm_start.c, alt_tick.c): alarms and the tick.
    Hal_Time (alt_gettod.c, alt_settod.c, alt_times.c, alt_busy_sleep.c, alt_usleep.c).
  \<^item> Hal_Dev, Hal_Fd, Hal_Fd_Props: devices, registration and lookup, the descriptor table and the
    system calls (alt_dev.c to alt_io_redirect.c). A device is a record of optional functions, the
    code of its driver, over a driver state of any type; a driver that does not return is \<open>None\<close>.
  \<^item> Hal_Proc: the calls without an implementation, signals, stat, constructors, DMA channels and
    flash devices.
  \<^item> Ring_Buffer: circular buffers as in the driver, and the locale \<open>fifo\<close>. Jtag_Uart
    (drivers/src/altera_avalon_jtag_uart_*.c): the interrupt-driven driver over two hardware
    registers, a parameter. Jtag_Props: its invariants over every run of calls, interrupts and
    timeouts (\<open>uart_run\<close>).
  \<^item> Jtag_Steps, Jtag_Steps_Props, Jtag_Control, Jtag_Calls: the driver's write and read calls
    statement by statement, with the handlers between any two of them (\<open>istep\<close>); the refinement of two
    bounded queues (\<open>pipe_step\<close>); that the UART's control register holds the interrupt enables which
    the driver keeps in memory, between any two accesses at which an interrupt can come; and the proof
    that the calls of Jtag_Uart are among these behaviours.
  \<^item> Jtag_Small: the polled version of the driver, under the same contract of the registers.
    Hal_Console: alt_putstr.c, alt_putchar.c, alt_getchar.c, alt_putcharbuf.c in each configuration.
    Termios (sys/termios.h): the terminal interface's declarations.
  \<^item> Hal_Print, Hal_Print_Props: alt_printf.c and the state machine of alt_log_private_printf, with
    the meaning of its formats. Hal_Log, Hal_Log_Props: the debug log (alt_log_printf.c and .h).
  \<^item> Hal_Irq, Hal_Irq_Props: interrupt registers, masks, registration and the handler
    (alt_irq*.c, alt_iic*.c, sys/alt_irq.h, priv/alt_legacy_irq.h), and the exception causes.
  \<^item> Hal_Heap (alt_sbrk.c), Hal_Cache (cache flushing, uncached memory, alt_load.c), Hal_Gmon
    (alt_gmon.c), Gmon_Graph: the call graph that the profiler's linked nodes stand for, Mcount
    (alt_mcount.S): the entry hook, and the profile over a run of the program.
  \<^item> Nios2: the processor's instructions as far as the HAL's assembly uses them, and the running of code
    made of labelled blocks. Exception_Code (alt_exception_entry.S, alt_irq_entry.S,
    alt_exception_muldiv.S): the exception code, one block per label. Exception_Frame: entry, exit and the
    calls of the C handlers. Instr_Fields, Muldiv, Muldiv_Results, Emulation: the fields of an instruction, the
    loops of the emulated multiplication and division, their results, and the instruction as a whole.
    Crt0 (crt0.S): from reset to alt_main, with the loading of alt_load.c. Control_Regs (nios2.h): the
    control registers and their fields.
  \<^item> Hal_Boot, Hal_Boot_Props: the start of the system (alt_sys_init.c, alt_main.c, the device
    instance of altera_avalon_jtag_uart_fd.h), which nests the components: interrupts, whose devices
    are the file layer, whose driver is the UART with the memory of its callers; and the runs of the
    program's output over it (\<open>out_run\<close>).
  \<^item> Hpi_Port (hpi_io_intf.sv): the registers between the program's pins and the chip's.
  \<^item> Vga (VGA_controller.sv), Game_Cannon (cannon.sv, HexDriver.sv and the keys of
    final_project.sv), Game_Laser (laser.sv), Game_Top (final_project.sv, Color_Mapper.sv): each module
    a record of its registers, its combinational block a function, a clock edge a step. Game_Play:
    the game from reset, frame by frame, and from the keyboard to the screen.
  \<^item> Sprite_Tool (SpriteBinaryGenerator.c): the host program that converts sprites.

  How the code is represented. A C struct or the static variables of a file are a record, an
  enumeration a datatype; 8- to 64-bit integers are words, so that they wrap as in C; a C int that
  only holds a count, an error code or a descriptor is an \<open>int\<close>. A function of the code is a function
  from the state before to the result and the state after. \<open>None\<close> stands for undefined behaviour
  (an index past an array, a NULL dereference) or a computation that does not return. Loops that
  may run for ever are \<open>while_option\<close> or \<open>partial_function (option)\<close>, and every property that says
  such code returns proves \<open>Some\<close>. In the game hardware all registers change at their clock edge from
  the values before it; where the edges of two clocks coincide, the order is a parameter of the
  step. The parameters are the USB chip, the UART's registers, the devices' request lines, the
  drivers and callbacks, the C library's malloc and free; what a
  property needs of them is a named hypothesis, and its witness gives a concrete instance. So the USB
  chip has its documented memory and pointer registers (\<open>otg_chip\<close>) or also executes descriptor lists
  (\<open>usb_host\<close>), and the UART's data register moves the bytes (\<open>jtag_ok\<close>) and its control register holds
  the enables written to it (\<open>control_ok\<close>). Assembly is
  a table of instruction lists over the registers, word-addressed memory and control registers of a record
  \<open>nios\<close>; the C functions it calls are a parameter held to the calling convention.

  Bounds. The only fuel is in \<open>rx_loop\<close>, which runs at most as many rounds as the receive buffer has
  slots, since each round stores a byte and a full buffer stops it; \<open>rx_loop_fuel\<close> shows that more
  fuel changes nothing. The chain of a request's transfer descriptors is followed for at most ten
  links (\<open>td_chain\<close>), the length of the longest: the report descriptor's, with eight packets between
  setup and status.

  What the properties show. For the application: each port access is one bus cycle; each request
  loads a complete descriptor list in disjoint memory; the keyboard loop is entered only through
  the complete enumeration, in order; with a keyboard on a chip that executes its lists it is
  reached, never left, and keeps the keyboard's keys on the output port; each of its rounds starts
  the chip on a poll and publishes the word this round's chip holds when its list is done; and it
  is the only code that writes the output port. Removal is detected after exactly the status reads
  it takes; the wait for the chip ends at the first look that shows the message it waits for, and
  only then. For the HAL: alarms fire at their tick across the roll-over of the
  counter, and go on as their callbacks ask; the descriptor table stays well-formed; exclusive devices cannot be opened; the UART
  driver, with interrupts between any two of its statements, sends and receives every byte once and
  in order, and a call that waits can be woken by the interrupt enabled in the hardware; the interrupt
  handler serves every request once and returns; printf implements its formats; sbrk's blocks are
  disjoint; flushes name each line of their area once. For the composition: from reset the system comes up with its
  three streams on the UART and the UART's interrupt enabled, and in any run of writes, interrupts and
  ticks after that the bytes the write calls say they took are those sent or queued, in order. For the assembly: alt_main finds
  its variables cleared or loaded; an interrupt is invisible to the program it interrupts; an exception
  reaches its handler, which decides where the program continues; and an emulated multiply or divide
  instruction is the instruction. For the profiler: over every run its nodes hold how often each
  function was called from where. For the board: the chip sees the program's
  pins a clock later; whatever the registers hold, two cycles of reset start a game; a frame of 840000
  clocks moves cannon and shot once; the cannon stays on the screen, and the
  shot is a shot; and an arrow key that a round of the keyboard loop read from its chip moves the cannon,
  through the keycode port and the raster. For the tables: the registers are well-formed, and the header's
  several descriptions of them agree but for the places named.

  Several lemmas and properties are about behaviour that is not what the code intends, for
  instance \<open>lock_misses_last_fd\<close>, \<open>settod_gettod_overflow\<close>, \<open>find_file_match\<close>,
  \<open>register_interfaces_agree\<close>, \<open>sbrk_below_start\<close>, \<open>no_writeback_never_returns\<close>, \<open>pcsample_bounds\<close>,
  \<open>stat_leaves_table\<close>, \<open>sp_operand\<close>, \<open>putchar_hides_error\<close>, \<open>routing_names_contradict\<close>, \<open>write_data_released\<close> and \<open>reset_holds\<close>: the statement says what the code does.

  Not modelled.
  \<^item> The aliens and the sprites (alien_control.sv, sprites.sv, ram.sv, the sprite instances of
    Color_Mapper.sv): unfinished, with a condition missing and illegal connections; nothing uses
    them. The test bench, and the displays of the keys themselves.
  \<^item> Of the assembly: the hook for trap instructions and the ECC test, which only break; the log
    macros, which are empty with the log off; what this system leaves out of crt0.S and
    alt_exception_entry.S (caches, shadow registers, a stack for exceptions, 16-bit instructions). Nested
    exceptions: within a handler the called C function is one step. The registers of the profiler's hook.
  \<^item> The C library: printf of the application is the text it prints, appended to a log of the board.
    The library's fputs, putchar and getchar are parameters.
  \<^item> Operating system hooks (semaphores, event flags), which are empty in this single-threaded
    system, and code the configuration does not compile: the system ID test, vectored interrupts, the
    stack checks of sbrk.
  \<^item> Interrupts between the steps of the file layer's calls, and during the start: within the driver
    they are modelled at every statement, elsewhere only where a call waits.
  \<^item> Parameters of system.h without a value, and single aliases of cy7c67200.h.

  What is left for later: the composition of the step-by-step driver with the file layer.
\<close>

end
